(* ===== verification/Prelude.thy ===== *)
theory Prelude
  imports
    Main
    "HOL-Library.Word"
    "HOL-Library.Finite_Map"
    "HOL-Library.Char_ord"
    "HOL-Library.List_Lexorder"
begin

text \<open>
  Shared vocabulary of the development: the Go value types every package of
  teleop uses, Go's error values, the wrap-around of 64-bit signed arithmetic,
  and the small generic lemmas the component theories rely on.

  \<^item> A Go \<^verbatim>\<open>string\<close> is a byte sequence, here a \<open>char list\<close>; the order of
    \<open>List_Lexorder\<close> on it is Go's byte-wise string order.
  \<^item> \<^verbatim>\<open>time.Duration\<close> is an \<^verbatim>\<open>int64\<close> count of nanoseconds, here an \<open>int\<close>; where a
    subtraction of the source is not guarded by a range check the wrap-around is
    written out with \<open>i64\<close>.
  \<^item> \<^verbatim>\<open>time.Time\<close> is an \<open>int\<close> of nanoseconds after the zero time; the zero time
    (\<^verbatim>\<open>IsZero\<close>) is \<open>0\<close>.
  \<^item> \<^verbatim>\<open>uint64\<close> is a \<open>64 word\<close>, so that \<^verbatim>\<open>++\<close> wraps as it does in Go.
  \<^item> \<^verbatim>\<open>SessionID [16]byte\<close> is a \<open>128 word\<close>; the zero array is \<open>0\<close>.
  \<^item> an \<^verbatim>\<open>error\<close> is the list of the sentinels it wraps (the leaves
    \<^verbatim>\<open>errors.Is\<close> can find): \<^verbatim>\<open>nil\<close> is \<open>[]\<close>, \<^verbatim>\<open>errors.Join\<close> is append, and
    \<^verbatim>\<open>errors.Is(err, target)\<close> is membership. Message texts are not modelled. \<open>GoPanic\<close> stands
    for a runtime panic, in functions whose error result would otherwise need a second way out.
\<close>

type_synonym duration = int
type_synonym timestamp = int
type_synonym u64 = "64 word"
type_synonym session_id = "128 word"
type_synonym device_id = string
type_synonym control_id = string

abbreviation (input) zero_time :: timestamp where "zero_time \<equiv> 0"

named_theorems go_defs "unfoldings that evaluate the small Go helpers"

subsection \<open>64-bit signed arithmetic\<close>

definition i64 :: "int \<Rightarrow> int" where
  "i64 x = (x + 2 ^ 63) mod 2 ^ 64 - 2 ^ 63"

definition max_i64 :: int where "max_i64 = 2 ^ 63 - 1"
definition min_i64 :: int where "min_i64 = - (2 ^ 63)"

lemma i64_id: "min_i64 \<le> x \<Longrightarrow> x \<le> max_i64 \<Longrightarrow> i64 x = x"
  unfolding i64_def max_i64_def min_i64_def by simp

lemma i64_range: "min_i64 \<le> i64 x \<and> i64 x \<le> max_i64"
proof -
  have "0 \<le> (x + 2 ^ 63) mod 2 ^ 64 \<and> (x + 2 ^ 63) mod 2 ^ 64 < 2 ^ 64"
    by simp
  then show ?thesis unfolding i64_def max_i64_def min_i64_def by simp
qed

text \<open>
  Every unguarded-looking subtraction of two clock readings in the safety code is
  in fact guarded by \<open>0 \<le> b \<le> a\<close>; this is why it cannot wrap.
\<close>

lemma guarded_sub_no_wrap: "0 \<le> b \<Longrightarrow> b \<le> a \<Longrightarrow> a \<le> max_i64 \<Longrightarrow> i64 (a - b) = a - b"
  by (rule i64_id) (auto simp: min_i64_def)

text \<open>
  \<^verbatim>\<open>Time.Sub\<close> saturates at the ends of the \<^verbatim>\<open>Duration\<close> range.
\<close>

definition time_sub :: "timestamp \<Rightarrow> timestamp \<Rightarrow> duration" where
  "time_sub a b = max min_i64 (min max_i64 (a - b))"

lemma time_sub_range: "min_i64 \<le> time_sub a b \<and> time_sub a b \<le> max_i64"
  by (simp add: time_sub_def min_i64_def max_i64_def)

lemma time_sub_exact:
  "min_i64 \<le> a - b \<Longrightarrow> a - b \<le> max_i64 \<Longrightarrow> time_sub a b = a - b"
  by (simp add: time_sub_def)

text \<open>\<^verbatim>\<open>Duration.Abs\<close>: the magnitude, with the most negative value mapped to the largest.\<close>

definition duration_abs :: "duration \<Rightarrow> duration" where
  "duration_abs d = (if 0 \<le> d then d else if d = min_i64 then max_i64 else - d)"

subsection \<open>Error values\<close>

datatype sentinel =
    ErrUnbound | ErrAlreadyBound | ErrUnsafeToArm | ErrInvalidConfiguration
  | ErrArmDuringStop
  | ErrAuthorityClosed | ErrAuthorityUnbound | ErrEvidence | ErrEvidenceIdentity
  | ErrActuatorUncertain | ErrActuatorTimeout | ErrActuatorRejected
  | ErrAuthorityRevoked | ErrIntentSuperseded | ErrInvalidAuthority | ErrAuthorityClock
  | ErrCommandPolicy
  | ErrCallbackPanic | ErrInvalidState
  | ErrReceiverRejected
  | ErrProof
  | ErrClosed | ErrDisconnected | ErrUnsupported | ErrSubscriptionOverflow | ErrPipelineOverflow | ErrPipelineAttestation
  | ErrCallbackTimeout | ErrCommandPublicationUncertain
  | ErrAuditClosed | ErrAuditFailed | ErrUnverified | ErrUnauthenticated | ErrAuthenticationRequired | ErrIncomplete
  | ErrRecordTooLarge | ErrSessionRequired | ErrTreeMismatch | ErrPendingLimit | ErrInvalidEvent | ErrWitnessRequired
  | ErrWitnessMismatch | ErrSignature | ErrSignatureRequired | ErrUntrustedKey | ErrHashMismatch
  | ErrMappingRequired
  | GoPanic
  | CtxCanceled | CtxDeadlineExceeded
  | ErrText string

type_synonym go_error = "sentinel list"

abbreviation nil :: go_error where "nil \<equiv> []"

definition errors_Is :: "go_error \<Rightarrow> sentinel \<Rightarrow> bool" where
  "errors_Is e t \<longleftrightarrow> t \<in> set e"

lemma errors_Is_nil [simp]: "\<not> errors_Is nil t"
  by (simp add: errors_Is_def)

lemma errors_Is_Cons [simp]: "errors_Is (s # e) t \<longleftrightarrow> s = t \<or> errors_Is e t"
  by (auto simp: errors_Is_def)

lemma errors_Is_join [simp]: "errors_Is (e @ e') t \<longleftrightarrow> errors_Is e t \<or> errors_Is e' t"
  by (auto simp: errors_Is_def)

text \<open>A Go call that may panic.\<close>

datatype 'a outcome = Returned 'a | Panicked

subsection \<open>Unsigned counters\<close>

lemma word_gt_0_iff_ge_1: "0 < (q::u64) \<longleftrightarrow> 1 \<le> q"
  by (simp add: word_less_nat_alt word_le_nat_alt Suc_le_eq)

lemma word_plus_1_order:
  assumes "(t::u64) \<noteq> - 1"
  shows "q \<le> t + 1 \<longleftrightarrow> q \<le> t \<or> q = t + 1" and "t < t + 1" and "0 < t + 1"
proof -
  from assms have "unat (t + 1) = unat t + 1"
    by (metis Suc_eq_plus1 add.commute add_eq_0_iff unatSuc)
  then show "q \<le> t + 1 \<longleftrightarrow> q \<le> t \<or> q = t + 1" "t < t + 1" "0 < t + 1"
    by (auto simp: word_le_nat_alt word_less_nat_alt word_unat_eq_iff)
qed

subsection \<open>Finite maps\<close>

text \<open>\<^verbatim>\<open>len(m)\<close> of a Go map.\<close>

definition map_len :: "('k, 'v) fmap \<Rightarrow> nat" where
  "map_len m = fcard (fmdom m)"

lemma map_len_empty [simp]: "map_len fmempty = 0"
  by (simp add: map_len_def)

lemma map_len_upd:
  "map_len (fmupd k v m) = (if fmlookup m k = None then Suc (map_len m) else map_len m)"
  by (simp add: map_len_def fcard_finsert_if fmlookup_dom_iff)

subsection \<open>Slices\<close>

text \<open>\<^verbatim>\<open>appendUnique\<close> of the safety package is generic in what it appends.\<close>

definition append_unique :: "'a list \<Rightarrow> 'a \<Rightarrow> 'a list" where
  "append_unique xs x = (if x \<in> set xs then xs else xs @ [x])"

lemma set_append_unique [simp]: "set (append_unique xs x) = insert x (set xs)"
  by (auto simp: append_unique_def)

lemma append_unique_nonempty [simp]: "append_unique xs x \<noteq> []"
  by (auto simp: append_unique_def)

end
