(* ===== verification/EventOrder.thy ===== *)
theory EventOrder
  imports Prelude
begin

text \<open>
  The contiguous high-water index of \<^verbatim>\<open>internal/eventorder/highwater.go\<close>. The
  controller, the recorder and the verifier use it to decide which event
  identities of a session have been published. The index keeps one counter per
  stream; the main results say that this counter represents exactly the set of
  identities accepted so far, and that the retained state stays below its ceiling.

  A Go pointer receiver may be nil, so the read operations take an optional
  \<open>highwater\<close>; \<open>Advance\<close> writes through the pointer and panics on nil.
\<close>

record highwater =
  streams :: "(string, u64) fmap"
  maxStreams :: int

definition DefaultMaxStreams :: int where "DefaultMaxStreams = 4096"

definition HighWater_New :: "int \<Rightarrow> highwater" where
  "HighWater_New n = \<lparr>streams = fmempty, maxStreams = (if n < 1 then DefaultMaxStreams else n)\<rparr>"

definition Through :: "highwater option \<Rightarrow> string \<Rightarrow> u64" where
  "Through w s = (case w of None \<Rightarrow> 0 | Some h \<Rightarrow>
     (case fmlookup (streams h) s of None \<Rightarrow> 0 | Some n \<Rightarrow> n))"

definition StreamCount :: "highwater option \<Rightarrow> int" where
  "StreamCount w = (case w of None \<Rightarrow> 0 | Some h \<Rightarrow> int (map_len (streams h)))"

definition Limit :: "highwater option \<Rightarrow> int" where
  "Limit w = (case w of None \<Rightarrow> DefaultMaxStreams | Some h \<Rightarrow>
     (if maxStreams h < 1 then DefaultMaxStreams else maxStreams h))"

definition Expected :: "highwater option \<Rightarrow> string \<Rightarrow> u64" where
  "Expected w s =
     (if s = [] then 0
      else let entry = (case w of None \<Rightarrow> None | Some h \<Rightarrow> fmlookup (streams h) s);
               current = (case entry of None \<Rightarrow> 0 | Some n \<Rightarrow> n)
           in if entry = None \<and> StreamCount w \<ge> Limit w then 0
              else if current = - 1 then 0
              else current + 1)"

definition Advance :: "highwater option \<Rightarrow> string \<Rightarrow> u64 \<Rightarrow> (highwater option \<times> bool) outcome" where
  "Advance w s q =
     (if s = [] \<or> q = 0 \<or> q \<noteq> Expected w s then Returned (w, False)
      else (case w of None \<Rightarrow> Panicked
            | Some h \<Rightarrow> Returned (Some (h\<lparr>streams := fmupd s q (streams h)\<rparr>), True)))"

definition Contains :: "highwater option \<Rightarrow> string \<Rightarrow> u64 \<Rightarrow> bool" where
  "Contains w s q \<longleftrightarrow> s \<noteq> [] \<and> q > 0 \<and> q \<le> Through w s"


subsection \<open>The index interface\<close>

text \<open>
  What the controller, the recorder and the verifier rely on: an index that
  either admits a fresh identity, and from then on reports exactly one more
  identity as published, or refuses it and stays as it was.
\<close>

locale published_index =
  fixes start :: 'w
    and admit :: "'w \<Rightarrow> 'id \<Rightarrow> 'w \<times> bool"
    and published :: "'w \<Rightarrow> 'id \<Rightarrow> bool"
    and inv :: "'w \<Rightarrow> bool"
  assumes start_inv: "inv start"
    and start_empty: "\<not> published start i"
    and admit_inv: "inv w \<Longrightarrow> inv (fst (admit w i))"
    and admit_fresh: "inv w \<Longrightarrow> snd (admit w i) \<Longrightarrow> \<not> published w i"
    and admit_published: "inv w \<Longrightarrow>
      published (fst (admit w i)) j \<longleftrightarrow> published w j \<or> snd (admit w i) \<and> j = i"
begin

primrec admit_all :: "'w \<Rightarrow> 'id list \<Rightarrow> 'w \<times> 'id list" where
  "admit_all w [] = (w, [])"
| "admit_all w (i # is) =
     (let (w', ok) = admit w i; (w'', js) = admit_all w' is
      in (w'', if ok then i # js else js))"

lemma admit_all_inv: "inv w \<Longrightarrow> inv (fst (admit_all w is))"
proof (induction "is" arbitrary: w)
  case Nil
  then show ?case by simp
next
  case (Cons i "is")
  from admit_inv [OF Cons.prems, of i] have "inv (fst (admit_all (fst (admit w i)) is))"
    by (rule Cons.IH)
  then show ?case by (simp add: Let_def case_prod_unfold)
qed

lemma admit_all_published:
  "inv w \<Longrightarrow> published (fst (admit_all w is)) j \<longleftrightarrow>
     published w j \<or> j \<in> set (snd (admit_all w is))"
proof (induction "is" arbitrary: w)
  case Nil
  then show ?case by simp
next
  case (Cons i "is")
  obtain w' ok where a: "admit w i = (w', ok)" by force
  have "inv w'" using admit_inv [OF Cons.prems, of i] a by simp
  moreover have "published w' j \<longleftrightarrow> published w j \<or> ok \<and> j = i"
    using admit_published [OF Cons.prems, of i j] a by simp
  ultimately show ?case
    using Cons.IH [of w'] a by (auto simp: Let_def split: prod.splits)
qed

lemma admit_all_fresh:
  "inv w \<Longrightarrow> j \<in> set (snd (admit_all w is)) \<Longrightarrow> \<not> published w j"
proof (induction "is" arbitrary: w)
  case Nil
  then show ?case by simp
next
  case (Cons i "is")
  obtain w' ok where a: "admit w i = (w', ok)" by force
  have "inv w'" using admit_inv [OF Cons.prems(1), of i] a by simp
  moreover have "ok \<Longrightarrow> \<not> published w i"
    using admit_fresh [OF Cons.prems(1), of i] a by simp
  moreover have "published w j \<Longrightarrow> published w' j"
    using admit_published [OF Cons.prems(1), of i j] a by simp
  ultimately show ?case
    using Cons.IH [of w'] Cons.prems(2) a
    by (auto simp: Let_def split: prod.splits if_splits)
qed

lemma admit_all_distinct: "inv w \<Longrightarrow> distinct (snd (admit_all w is))"
proof (induction "is" arbitrary: w)
  case Nil
  then show ?case by simp
next
  case (Cons i "is")
  obtain w' ok where a: "admit w i = (w', ok)" by force
  have w': "inv w'" using admit_inv [OF Cons.prems, of i] a by simp
  moreover have "ok \<Longrightarrow> i \<notin> set (snd (admit_all w' is))"
    using admit_all_fresh [OF w', of i "is"] admit_published [OF Cons.prems, of i i] a by auto
  ultimately show ?case
    using Cons.IH [OF w'] a by (auto simp: Let_def split: prod.splits)
qed

end

subsection \<open>The high-water index implements it\<close>

text \<open>
  A caller of the package holds an index made by \<open>New\<close>, so the receiver is never
  nil: \<open>advance_step\<close> is \<open>Advance\<close> on such a receiver.
\<close>

definition advance_step :: "highwater \<Rightarrow> string \<times> u64 \<Rightarrow> highwater \<times> bool" where
  "advance_step h i = (case Advance (Some h) (fst i) (snd i) of
     Returned (Some h', ok) \<Rightarrow> (h', ok) | _ \<Rightarrow> (h, False))"

definition water_inv :: "highwater \<Rightarrow> bool" where
  "water_inv h \<longleftrightarrow> (\<forall>s q. fmlookup (streams h) s = Some q \<longrightarrow> s \<noteq> [] \<and> q > 0)
     \<and> StreamCount (Some h) \<le> Limit (Some h)"

lemma advance_step_eq:
  "advance_step h (s, q) =
     (if s = [] \<or> q = 0 \<or> q \<noteq> Expected (Some h) s then (h, False)
      else (h\<lparr>streams := fmupd s q (streams h)\<rparr>, True))"
  by (simp add: advance_step_def Advance_def)

lemma Expected_nonzero:
  assumes "Expected (Some h) s \<noteq> 0"
  shows "s \<noteq> []" and "Expected (Some h) s = Through (Some h) s + 1"
    and "Through (Some h) s \<noteq> - 1"
    and "fmlookup (streams h) s = None \<Longrightarrow> StreamCount (Some h) < Limit (Some h)"
  using assms by (auto simp: Expected_def Through_def Let_def split: option.splits if_splits)

lemma advance_step_inv: "water_inv h \<Longrightarrow> water_inv (fst (advance_step h i))"
  using Expected_nonzero [of h "fst i"]
  by (cases i) (auto simp: advance_step_eq water_inv_def StreamCount_def Limit_def map_len_upd
      word_neq_0_conv split: if_splits)

lemma advance_step_admits:
  assumes "snd (advance_step h (s, q))"
  shows "s \<noteq> []" and "q = Through (Some h) s + 1" and "Through (Some h) s < q"
    and "Through (Some (fst (advance_step h (s, q)))) t = (if t = s then q else Through (Some h) t)"
proof -
  from assms have q: "q \<noteq> 0" "q = Expected (Some h) s" and "s \<noteq> []"
    by (auto simp: advance_step_eq split: if_splits)
  then have E: "Expected (Some h) s \<noteq> 0" by simp
  show "s \<noteq> []" by fact
  show eq: "q = Through (Some h) s + 1" using q Expected_nonzero(2) [OF E] by simp
  show "Through (Some h) s < q"
    using word_plus_1_order(2) [OF Expected_nonzero(3) [OF E]] eq by simp
  show "Through (Some (fst (advance_step h (s, q)))) t = (if t = s then q else Through (Some h) t)"
    using q \<open>s \<noteq> []\<close> by (simp add: advance_step_eq Through_def)
qed

lemma advance_step_refuses: "\<not> snd (advance_step h i) \<Longrightarrow> fst (advance_step h i) = h"
  by (cases i) (auto simp: advance_step_eq split: if_splits)

lemma advance_step_contains:
  "Contains (Some (fst (advance_step h (s, q)))) t r \<longleftrightarrow>
     Contains (Some h) t r \<or> snd (advance_step h (s, q)) \<and> t = s \<and> r = q"
proof (cases "snd (advance_step h (s, q))")
  case True
  note adm = advance_step_admits [OF True]
  have "Through (Some h) s \<noteq> - 1"
    using adm(3) by auto
  then show ?thesis
    using adm word_plus_1_order(1) [of "Through (Some h) s" r] word_plus_1_order(3) [of "Through (Some h) s"] True
    by (auto simp: Contains_def)
next
  case False
  then show ?thesis by (simp add: advance_step_refuses)
qed

interpretation hw: published_index "HighWater_New n" advance_step "\<lambda>h i. Contains (Some h) (fst i) (snd i)" water_inv
  for n
proof
  fix i j :: "string \<times> u64" and h
  show "water_inv (HighWater_New n)"
    by (auto simp: water_inv_def HighWater_New_def StreamCount_def Limit_def DefaultMaxStreams_def)
  show "\<not> Contains (Some (HighWater_New n)) (fst i) (snd i)"
    by (auto simp: Contains_def Through_def HighWater_New_def word_gt_0)
  assume "water_inv h"
  then show "water_inv (fst (advance_step h i))" by (rule advance_step_inv)
  show "Contains (Some (fst (advance_step h i))) (fst j) (snd j) \<longleftrightarrow>
      Contains (Some h) (fst j) (snd j) \<or> snd (advance_step h i) \<and> j = i"
    using advance_step_contains [of h "fst i" "snd i" "fst j" "snd j"] by (auto simp: prod_eq_iff)
  assume "snd (advance_step h i)"
  then show "\<not> Contains (Some h) (fst i) (snd i)"
    using advance_step_admits(3) [of h "fst i" "snd i"] by (simp add: Contains_def not_le)
qed

subsection \<open>Offering a sequence of identities\<close>

primrec advance_all :: "highwater \<Rightarrow> (string \<times> u64) list \<Rightarrow> highwater \<times> (string \<times> u64) list" where
  "advance_all h [] = (h, [])"
| "advance_all h (i # is) =
     (let (h', ok) = advance_step h i; (h'', js) = advance_all h' is
      in (h'', if ok then i # js else js))"

lemma admit_all_advance_all: "hw.admit_all h ids = advance_all h ids"
  by (induction ids arbitrary: h) (simp_all add: Let_def case_prod_unfold)

lemmas advance_all_published = hw.admit_all_published [unfolded admit_all_advance_all]
  and advance_all_distinct = hw.admit_all_distinct [unfolded admit_all_advance_all]
  and advance_all_inv = hw.admit_all_inv [unfolded admit_all_advance_all]

lemma advance_all_limit: "maxStreams (fst (advance_all h ids)) = maxStreams h"
proof (induction ids arbitrary: h)
  case (Cons i ids)
  have "maxStreams (fst (advance_step h i)) = maxStreams h"
    by (cases i) (simp add: advance_step_eq)
  with Cons [of "fst (advance_step h i)"] show ?case
    by (simp add: Let_def case_prod_unfold)
qed simp

text \<open>
  C39. Starting from a new index and offering it any sequence of event identities,
  the identities it later reports as published are exactly those it accepted, and
  it accepts none of them twice: one counter per stream loses nothing.
\<close>

theorem high_water_exact:
  "let (h, accepted) = advance_all (HighWater_New n) ids
   in (Contains (Some h) s q \<longleftrightarrow> (s, q) \<in> set accepted) \<and> distinct accepted"
  using advance_all_published [OF hw.start_inv, of n ids "(s, q)"]
    advance_all_distinct [OF hw.start_inv, of n ids] hw.start_empty [of n "(s, q)"]
  by (simp add: Let_def case_prod_unfold)

text \<open>
  C33. However many identities are offered, the index retains at most its limit of
  streams (the configured ceiling, or the default of 4096), and the accepted
  sequence numbers of every stream are exactly \<open>1, 2, \<dots>\<close> up to the high-water mark:
  the retained state is bounded by streams, not by events.
\<close>

theorem high_water_bounded:
  "let (h, accepted) = advance_all (HighWater_New n) ids
   in StreamCount (Some h) \<le> (if n < 1 then 4096 else n)
      \<and> {q. (s, q) \<in> set accepted} = (if s = [] then {} else {1 .. Through (Some h) s})"
proof -
  let ?r = "advance_all (HighWater_New n) ids"
  have "water_inv (fst ?r)" by (rule advance_all_inv [OF hw.start_inv])
  then have "StreamCount (Some (fst ?r)) \<le> Limit (Some (fst ?r))" by (simp add: water_inv_def)
  moreover have "Limit (Some (fst ?r)) = (if n < 1 then 4096 else n)"
    by (simp add: Limit_def advance_all_limit) (simp add: HighWater_New_def DefaultMaxStreams_def)
  moreover have "(s, q) \<in> set (snd ?r) \<longleftrightarrow> Contains (Some (fst ?r)) s q" for q
    using advance_all_published [OF hw.start_inv, of n ids "(s, q)"] hw.start_empty [of n "(s, q)"]
    by simp
  moreover have "Contains w s q \<longleftrightarrow> s \<noteq> [] \<and> q \<in> {1 .. Through w s}" for w q
    unfolding Contains_def word_gt_0_iff_ge_1 by simp
  ultimately show ?thesis by (auto simp: Let_def case_prod_unfold)
qed

end
