(* ===== verification/GoFloat.thy ===== *)
theory GoFloat
  imports Prelude "HOL-Library.Log_Nat"
begin

text \<open>
  The floating-point arithmetic the controller code uses (Go's \<^verbatim>\<open>float32\<close> and
  \<^verbatim>\<open>float64\<close>, IEEE 754 binary32 and binary64 with round-to-nearest-even), on the
  exact rational values of the finite numbers. A finite result of an operation is
  the rational result rounded by \<open>round_val\<close>; results beyond the largest finite
  number become infinities. The two zeros are one value: Go's \<^verbatim>\<open>==\<close> and \<^verbatim>\<open><\<close> do not
  tell them apart, and no modelled code depends on the sign of a zero (a division
  by a zero is taken to be by \<open>+0\<close>). \<^verbatim>\<open>math.Hypot\<close> and \<^verbatim>\<open>math.Sqrt\<close> follow the
  portable definitions of the standard library.
\<close>

datatype fp = NaN | PInf | NInf | Fin rat

abbreviation (input) fzero :: fp where "fzero \<equiv> Fin 0"

subsection \<open>Comparison\<close>

fun fp_lt :: "fp \<Rightarrow> fp \<Rightarrow> bool" where
  "fp_lt (Fin x) (Fin y) \<longleftrightarrow> x < y"
| "fp_lt NInf (Fin _) \<longleftrightarrow> True"
| "fp_lt NInf PInf \<longleftrightarrow> True"
| "fp_lt (Fin _) PInf \<longleftrightarrow> True"
| "fp_lt _ _ \<longleftrightarrow> False"

definition fp_eq :: "fp \<Rightarrow> fp \<Rightarrow> bool" where
  "fp_eq x y \<longleftrightarrow> x \<noteq> NaN \<and> x = y"

definition fp_le :: "fp \<Rightarrow> fp \<Rightarrow> bool" where
  "fp_le x y \<longleftrightarrow> fp_lt x y \<or> fp_eq x y"

fun is_nan :: "fp \<Rightarrow> bool" where
  "is_nan NaN \<longleftrightarrow> True"
| "is_nan _ \<longleftrightarrow> False"

fun is_inf :: "fp \<Rightarrow> bool" where
  "is_inf PInf \<longleftrightarrow> True"
| "is_inf NInf \<longleftrightarrow> True"
| "is_inf _ \<longleftrightarrow> False"

lemma fp_le_Fin [simp]: "fp_le (Fin x) (Fin y) \<longleftrightarrow> x \<le> y"
  by (auto simp: fp_le_def fp_eq_def)

lemma fp_eq_Fin [simp]: "fp_eq (Fin x) (Fin y) \<longleftrightarrow> x = y"
  by (simp add: fp_eq_def)

lemma finite_cases: "\<not> is_nan x \<Longrightarrow> \<not> is_inf x \<Longrightarrow> (\<And>q. x = Fin q \<Longrightarrow> P) \<Longrightarrow> P"
  by (cases x) auto

text \<open>Go's built-in \<^verbatim>\<open>min\<close> and \<^verbatim>\<open>max\<close>: NaN if any argument is NaN.\<close>

definition fp_max :: "fp \<Rightarrow> fp \<Rightarrow> fp" where
  "fp_max x y = (if is_nan x \<or> is_nan y then NaN else if fp_lt x y then y else x)"

definition fp_min :: "fp \<Rightarrow> fp \<Rightarrow> fp" where
  "fp_min x y = (if is_nan x \<or> is_nan y then NaN else if fp_lt y x then y else x)"

subsection \<open>Rounding\<close>

text \<open>\<open>ilog2 x\<close> is the exponent \<open>e\<close> with \<open>2 ^ e \<le> x < 2 ^ (e + 1)\<close>, for positive \<open>x\<close>.\<close>

definition ilog2 :: "rat \<Rightarrow> int" where
  "ilog2 x = (let (n, d) = quotient_of x;
                  e = int (floorlog 2 (nat n)) - int (floorlog 2 (nat d))
              in if 2 powi e \<le> x then e else e - 1)"

text \<open>Round to the nearest integer, ties to even.\<close>

definition rne :: "rat \<Rightarrow> int" where
  "rne x = (let f = \<lfloor>x\<rfloor>; r = x - of_int f
            in if r < 1 / 2 then f else if r > 1 / 2 then f + 1
               else if even f then f else f + 1)"

record format =
  precision :: int
  min_exp :: int
  max_exp :: int

definition f32 :: format where
  "f32 = \<lparr>precision = 24, min_exp = - 149, max_exp = 128\<rparr>"

definition f64 :: format where
  "f64 = \<lparr>precision = 53, min_exp = - 1074, max_exp = 1024\<rparr>"

text \<open>The exponent of the last place of \<open>x\<close> in a format.\<close>

definition ulp_exp :: "format \<Rightarrow> rat \<Rightarrow> int" where
  "ulp_exp fmt x =
     (if x = 0 then min_exp fmt else max (ilog2 \<bar>x\<bar> - precision fmt + 1) (min_exp fmt))"

definition round_val :: "format \<Rightarrow> rat \<Rightarrow> rat" where
  "round_val fmt x = (let k = ulp_exp fmt x in of_int (rne (x / 2 powi k)) * 2 powi k)"

definition to_fp :: "format \<Rightarrow> rat \<Rightarrow> fp" where
  "to_fp fmt r =
     (if r \<ge> 2 powi max_exp fmt then PInf else if r \<le> - (2 powi max_exp fmt) then NInf else Fin r)"

definition round_fp :: "format \<Rightarrow> rat \<Rightarrow> fp" where
  "round_fp fmt x = to_fp fmt (round_val fmt x)"

subsection \<open>Arithmetic\<close>

fun fp_neg :: "fp \<Rightarrow> fp" where
  "fp_neg NaN = NaN"
| "fp_neg PInf = NInf"
| "fp_neg NInf = PInf"
| "fp_neg (Fin x) = Fin (- x)"

fun fp_abs :: "fp \<Rightarrow> fp" where
  "fp_abs NaN = NaN"
| "fp_abs PInf = PInf"
| "fp_abs NInf = PInf"
| "fp_abs (Fin x) = Fin \<bar>x\<bar>"

fun fp_add :: "format \<Rightarrow> fp \<Rightarrow> fp \<Rightarrow> fp" where
  "fp_add fmt (Fin x) (Fin y) = round_fp fmt (x + y)"
| "fp_add fmt (Fin _) y = y"
| "fp_add fmt x (Fin _) = x"
| "fp_add fmt PInf PInf = PInf"
| "fp_add fmt NInf NInf = NInf"
| "fp_add fmt _ _ = NaN"

definition fp_sub :: "format \<Rightarrow> fp \<Rightarrow> fp \<Rightarrow> fp" where
  "fp_sub fmt x y = fp_add fmt x (fp_neg y)"

definition signed_inf :: "rat \<Rightarrow> fp" where
  "signed_inf s = (if s > 0 then PInf else if s < 0 then NInf else NaN)"

fun fp_sign :: "fp \<Rightarrow> rat" where
  "fp_sign PInf = 1"
| "fp_sign NInf = - 1"
| "fp_sign (Fin x) = sgn x"
| "fp_sign NaN = 0"

definition fp_mul :: "format \<Rightarrow> fp \<Rightarrow> fp \<Rightarrow> fp" where
  "fp_mul fmt x y = (case (x, y) of
     (Fin a, Fin b) \<Rightarrow> round_fp fmt (a * b)
   | _ \<Rightarrow> if is_nan x \<or> is_nan y then NaN else signed_inf (fp_sign x * fp_sign y))"

definition fp_div :: "format \<Rightarrow> fp \<Rightarrow> fp \<Rightarrow> fp" where
  "fp_div fmt x y = (case (x, y) of
     (Fin a, Fin b) \<Rightarrow> if b = 0 then signed_inf a else round_fp fmt (a / b)
   | (Fin _, _) \<Rightarrow> if is_nan y then NaN else Fin 0
   | (_, Fin b) \<Rightarrow> if is_nan x then NaN else if b = 0 then x else signed_inf (fp_sign x * sgn b)
   | _ \<Rightarrow> NaN)"

text \<open>The conversions between the formats: widening is exact, narrowing rounds.\<close>

fun fp_conv :: "format \<Rightarrow> fp \<Rightarrow> fp" where
  "fp_conv fmt (Fin x) = round_fp fmt x"
| "fp_conv fmt x = x"

subsection \<open>Square root and hypotenuse\<close>

fun isqrt :: "nat \<Rightarrow> nat" where
  "isqrt n = (if n = 0 then 0
     else let r = 2 * isqrt (n div 4) in if (r + 1) ^ 2 \<le> n then r + 1 else r)"

declare isqrt.simps [simp del]

text \<open>
  The correctly rounded square root of a positive rational: scale by the last
  place of the result, take the integer root, and decide the rounding by comparing
  with the midpoint.
\<close>

definition sqrt_val :: "format \<Rightarrow> rat \<Rightarrow> rat" where
  "sqrt_val fmt x =
     (let e = ilog2 x div 2;
          k = max (e - precision fmt + 1) (min_exp fmt);
          y = x / 2 powi (2 * k);
          n = int (isqrt (nat \<lfloor>y\<rfloor>));
          mid = (of_int n + 1 / 2) ^ 2;
          m = (if y < mid then n else if y > mid then n + 1 else if even n then n else n + 1)
      in of_int m * 2 powi k)"

fun fp_sqrt :: "format \<Rightarrow> fp \<Rightarrow> fp" where
  "fp_sqrt fmt NaN = NaN"
| "fp_sqrt fmt PInf = PInf"
| "fp_sqrt fmt NInf = NaN"
| "fp_sqrt fmt (Fin x) = (if x < 0 then NaN else if x = 0 then Fin 0 else to_fp fmt (sqrt_val fmt x))"

definition hypot :: "fp \<Rightarrow> fp \<Rightarrow> fp" where
  "hypot p q =
     (if is_inf p \<or> is_inf q then PInf
      else if is_nan p \<or> is_nan q then NaN
      else let p' = fp_abs p; q' = fp_abs q;
               a = (if fp_lt p' q' then q' else p');
               b = (if fp_lt p' q' then p' else q')
           in if fp_eq a (Fin 0) then Fin 0
              else let r = fp_div f64 b a
                   in fp_mul f64 a (fp_sqrt f64 (fp_add f64 (Fin 1) (fp_mul f64 r r))))"

end
