(* ===== verification/ControllerState.thy ===== *)
theory ControllerState
  imports GoFloat
begin

text \<open>
  The controller-neutral data of the \<^verbatim>\<open>teleop\<close> package: control identifiers
  (\<^verbatim>\<open>control.go\<close>), the normalized controller state with its button accessors
  (\<^verbatim>\<open>state.go\<close>), and the device capabilities a strict guard consults
  (\<^verbatim>\<open>device.go\<close>).

  Go's \<^verbatim>\<open>map[ControlID]bool\<close> is an optional finite map: \<open>None\<close> is the nil map, which
  reads like an empty one but is a different value for \<^verbatim>\<open>reflect.DeepEqual\<close>.
\<close>

subsection \<open>Control identifiers\<close>

definition ButtonFaceSouth :: control_id where "ButtonFaceSouth = ''button.face.south''"
definition ButtonFaceEast :: control_id where "ButtonFaceEast = ''button.face.east''"
definition ButtonFaceWest :: control_id where "ButtonFaceWest = ''button.face.west''"
definition ButtonFaceNorth :: control_id where "ButtonFaceNorth = ''button.face.north''"
definition ButtonBumperLeft :: control_id where "ButtonBumperLeft = ''button.bumper.left''"
definition ButtonBumperRight :: control_id where "ButtonBumperRight = ''button.bumper.right''"
definition ButtonStickLeft :: control_id where "ButtonStickLeft = ''button.stick.left''"
definition ButtonStickRight :: control_id where "ButtonStickRight = ''button.stick.right''"
definition ButtonMenuPrimary :: control_id where "ButtonMenuPrimary = ''button.menu.primary''"
definition ButtonMenuSecondary :: control_id where "ButtonMenuSecondary = ''button.menu.secondary''"
definition ButtonSystem :: control_id where "ButtonSystem = ''button.system''"
definition ButtonCapture :: control_id where "ButtonCapture = ''button.capture''"
definition ButtonPaddle1 :: control_id where "ButtonPaddle1 = ''button.paddle.1''"
definition ButtonPaddle2 :: control_id where "ButtonPaddle2 = ''button.paddle.2''"
definition ButtonPaddle3 :: control_id where "ButtonPaddle3 = ''button.paddle.3''"
definition ButtonPaddle4 :: control_id where "ButtonPaddle4 = ''button.paddle.4''"
definition DPadUp :: control_id where "DPadUp = ''button.dpad.up''"
definition DPadDown :: control_id where "DPadDown = ''button.dpad.down''"
definition DPadLeft :: control_id where "DPadLeft = ''button.dpad.left''"
definition DPadRight :: control_id where "DPadRight = ''button.dpad.right''"

lemmas control_id_defs =
  ButtonFaceSouth_def ButtonFaceEast_def ButtonFaceWest_def ButtonFaceNorth_def
  ButtonBumperLeft_def ButtonBumperRight_def ButtonStickLeft_def ButtonStickRight_def
  ButtonMenuPrimary_def ButtonMenuSecondary_def ButtonSystem_def ButtonCapture_def
  ButtonPaddle1_def ButtonPaddle2_def ButtonPaddle3_def ButtonPaddle4_def
  DPadUp_def DPadDown_def DPadLeft_def DPadRight_def

definition standardButtons :: "control_id list" where
  "standardButtons =
     [ButtonFaceSouth, ButtonFaceEast, ButtonFaceWest, ButtonFaceNorth,
      ButtonBumperLeft, ButtonBumperRight, ButtonStickLeft, ButtonStickRight,
      ButtonMenuPrimary, ButtonMenuSecondary, ButtonSystem, ButtonCapture,
      ButtonPaddle1, ButtonPaddle2, ButtonPaddle3, ButtonPaddle4,
      DPadUp, DPadDown, DPadLeft, DPadRight]"

definition StandardButtonIDs :: "control_id list" where
  "StandardButtonIDs = standardButtons"

definition isStandardButton :: "control_id \<Rightarrow> bool" where
  "isStandardButton i \<longleftrightarrow> i \<in> set standardButtons"

subsection \<open>State\<close>

record Stick =
  stick_X :: fp
  stick_Y :: fp

record DPad =
  dpad_Up :: bool
  dpad_Down :: bool
  dpad_Left :: bool
  dpad_Right :: bool

record Buttons =
  FaceSouth :: bool
  FaceEast :: bool
  FaceWest :: bool
  FaceNorth :: bool
  BumperLeft :: bool
  BumperRight :: bool
  StickLeftClick :: bool
  StickRightClick :: bool
  MenuPrimary :: bool
  MenuSecondary :: bool
  System :: bool
  Capture :: bool
  Paddle1 :: bool
  Paddle2 :: bool
  Paddle3 :: bool
  Paddle4 :: bool
  Extensions :: "(control_id, bool) fmap option"

record State =
  st_Buttons :: Buttons
  st_LeftStick :: Stick
  st_RightStick :: Stick
  st_LeftTrigger :: fp
  st_RightTrigger :: fp
  st_DPad :: DPad

definition ext_get :: "(control_id, bool) fmap option \<Rightarrow> control_id \<Rightarrow> bool" where
  "ext_get m i = (case m of None \<Rightarrow> False | Some f \<Rightarrow>
     (case fmlookup f i of None \<Rightarrow> False | Some b \<Rightarrow> b))"

definition Pressed :: "Buttons \<Rightarrow> control_id \<Rightarrow> bool" where
  "Pressed b i =
     (if i = ButtonFaceSouth then FaceSouth b
      else if i = ButtonFaceEast then FaceEast b
      else if i = ButtonFaceWest then FaceWest b
      else if i = ButtonFaceNorth then FaceNorth b
      else if i = ButtonBumperLeft then BumperLeft b
      else if i = ButtonBumperRight then BumperRight b
      else if i = ButtonStickLeft then StickLeftClick b
      else if i = ButtonStickRight then StickRightClick b
      else if i = ButtonMenuPrimary then MenuPrimary b
      else if i = ButtonMenuSecondary then MenuSecondary b
      else if i = ButtonSystem then System b
      else if i = ButtonCapture then Capture b
      else if i = ButtonPaddle1 then Paddle1 b
      else if i = ButtonPaddle2 then Paddle2 b
      else if i = ButtonPaddle3 then Paddle3 b
      else if i = ButtonPaddle4 then Paddle4 b
      else ext_get (Extensions b) i)"

definition ext_set :: "(control_id, bool) fmap option \<Rightarrow> control_id \<Rightarrow> bool \<Rightarrow> (control_id, bool) fmap option" where
  "ext_set m i p =
     (if \<not> p then map_option (fmdrop i) m
      else Some (fmupd i p (case m of None \<Rightarrow> fmempty | Some f \<Rightarrow> f)))"

definition Set :: "Buttons \<Rightarrow> control_id \<Rightarrow> bool \<Rightarrow> Buttons" where
  "Set b i p =
     (if i = ButtonFaceSouth then b\<lparr>FaceSouth := p\<rparr>
      else if i = ButtonFaceEast then b\<lparr>FaceEast := p\<rparr>
      else if i = ButtonFaceWest then b\<lparr>FaceWest := p\<rparr>
      else if i = ButtonFaceNorth then b\<lparr>FaceNorth := p\<rparr>
      else if i = ButtonBumperLeft then b\<lparr>BumperLeft := p\<rparr>
      else if i = ButtonBumperRight then b\<lparr>BumperRight := p\<rparr>
      else if i = ButtonStickLeft then b\<lparr>StickLeftClick := p\<rparr>
      else if i = ButtonStickRight then b\<lparr>StickRightClick := p\<rparr>
      else if i = ButtonMenuPrimary then b\<lparr>MenuPrimary := p\<rparr>
      else if i = ButtonMenuSecondary then b\<lparr>MenuSecondary := p\<rparr>
      else if i = ButtonSystem then b\<lparr>System := p\<rparr>
      else if i = ButtonCapture then b\<lparr>Capture := p\<rparr>
      else if i = ButtonPaddle1 then b\<lparr>Paddle1 := p\<rparr>
      else if i = ButtonPaddle2 then b\<lparr>Paddle2 := p\<rparr>
      else if i = ButtonPaddle3 then b\<lparr>Paddle3 := p\<rparr>
      else if i = ButtonPaddle4 then b\<lparr>Paddle4 := p\<rparr>
      else b\<lparr>Extensions := ext_set (Extensions b) i p\<rparr>)"

definition Button :: "State \<Rightarrow> control_id \<Rightarrow> bool" where
  "Button s i =
     (if i = DPadUp then dpad_Up (st_DPad s)
      else if i = DPadDown then dpad_Down (st_DPad s)
      else if i = DPadLeft then dpad_Left (st_DPad s)
      else if i = DPadRight then dpad_Right (st_DPad s)
      else Pressed (st_Buttons s) i)"

definition SetButton :: "State \<Rightarrow> control_id \<Rightarrow> bool \<Rightarrow> State" where
  "SetButton s i p =
     (if i = DPadUp then s\<lparr>st_DPad := (st_DPad s)\<lparr>dpad_Up := p\<rparr>\<rparr>
      else if i = DPadDown then s\<lparr>st_DPad := (st_DPad s)\<lparr>dpad_Down := p\<rparr>\<rparr>
      else if i = DPadLeft then s\<lparr>st_DPad := (st_DPad s)\<lparr>dpad_Left := p\<rparr>\<rparr>
      else if i = DPadRight then s\<lparr>st_DPad := (st_DPad s)\<lparr>dpad_Right := p\<rparr>\<rparr>
      else s\<lparr>st_Buttons := Set (st_Buttons s) i p\<rparr>)"

text \<open>The zero values of the structs: the neutral controller.\<close>

definition zero_stick :: Stick where "zero_stick = \<lparr>stick_X = Fin 0, stick_Y = Fin 0\<rparr>"

definition zero_buttons :: Buttons where
  "zero_buttons =
     \<lparr>FaceSouth = False, FaceEast = False, FaceWest = False, FaceNorth = False,
      BumperLeft = False, BumperRight = False, StickLeftClick = False, StickRightClick = False,
      MenuPrimary = False, MenuSecondary = False, System = False, Capture = False,
      Paddle1 = False, Paddle2 = False, Paddle3 = False, Paddle4 = False, Extensions = None\<rparr>"

definition zero_dpad :: DPad where
  "zero_dpad = \<lparr>dpad_Up = False, dpad_Down = False, dpad_Left = False, dpad_Right = False\<rparr>"

definition zero_state :: State where
  "zero_state =
     \<lparr>st_Buttons = zero_buttons, st_LeftStick = zero_stick, st_RightStick = zero_stick,
      st_LeftTrigger = Fin 0, st_RightTrigger = Fin 0, st_DPad = zero_dpad\<rparr>"

text \<open>
  Go struct equality compares floats with \<^verbatim>\<open>==\<close>; \<open>deep_equal\<close> is \<^verbatim>\<open>reflect.DeepEqual\<close>
  on \<^verbatim>\<open>State\<close>, which also separates a nil map from an empty one.
\<close>

definition stick_eq :: "Stick \<Rightarrow> Stick \<Rightarrow> bool" where
  "stick_eq a b \<longleftrightarrow> fp_eq (stick_X a) (stick_X b) \<and> fp_eq (stick_Y a) (stick_Y b)"

definition deep_equal :: "State \<Rightarrow> State \<Rightarrow> bool" where
  "deep_equal a b \<longleftrightarrow> st_Buttons a = st_Buttons b \<and> st_DPad a = st_DPad b
     \<and> stick_eq (st_LeftStick a) (st_LeftStick b) \<and> stick_eq (st_RightStick a) (st_RightStick b)
     \<and> fp_eq (st_LeftTrigger a) (st_LeftTrigger b) \<and> fp_eq (st_RightTrigger a) (st_RightTrigger b)"

subsection \<open>Device capabilities\<close>

datatype ControlKind = ControlButton | ControlStick | ControlTrigger | ControlDPad | ControlOther
  | ControlKindOf string

datatype AuditGrade = AuditExactBackendStream | AuditSampledState | AuditUnavailable | AuditGradeOf string

record ControlDescriptor =
  ctl_ID :: control_id
  ctl_Kind :: ControlKind
  ctl_Label :: string

record Capabilities =
  cap_Controls :: "ControlDescriptor list"
  cap_AuditGrade :: AuditGrade
  cap_Rumble :: bool
  cap_Battery :: bool
  cap_LEDs :: bool

definition grade_Valid :: "AuditGrade \<Rightarrow> bool" where
  "grade_Valid g \<longleftrightarrow> g \<in> {AuditExactBackendStream, AuditSampledState, AuditUnavailable}"

definition capabilities_Clone :: "Capabilities \<Rightarrow> Capabilities" where
  "capabilities_Clone c =
     (if grade_Valid (cap_AuditGrade c) then c else c\<lparr>cap_AuditGrade := AuditUnavailable\<rparr>)"

definition Supports :: "Capabilities \<Rightarrow> control_id \<Rightarrow> bool" where
  "Supports c i \<longleftrightarrow> (\<exists>d \<in> set (cap_Controls c). ctl_ID d = i)"

subsection \<open>Reading what was written\<close>

lemma standard_distinct: "distinct standardButtons"
  by (simp add: standardButtons_def control_id_defs)

lemma ext_get_set: "ext_get (ext_set m i p) j = (if j = i then p else ext_get m j)"
  by (auto simp: ext_get_def ext_set_def split: option.splits)

text \<open>
  The identifiers are pairwise different; the case rule follows the source's
  \<^verbatim>\<open>switch\<close> with its default branch.
\<close>

lemma standard_distinct_rev: "distinct (rev standardButtons)"
  by (simp add: standard_distinct)

lemmas control_id_distinct =
  standard_distinct [unfolded standardButtons_def, simplified]
  standard_distinct_rev [unfolded standardButtons_def rev.simps append.simps, simplified]

lemma button_cases:
  obtains "i = ButtonFaceSouth" | "i = ButtonFaceEast" | "i = ButtonFaceWest" | "i = ButtonFaceNorth"
  | "i = ButtonBumperLeft" | "i = ButtonBumperRight" | "i = ButtonStickLeft" | "i = ButtonStickRight"
  | "i = ButtonMenuPrimary" | "i = ButtonMenuSecondary" | "i = ButtonSystem" | "i = ButtonCapture"
  | "i = ButtonPaddle1" | "i = ButtonPaddle2" | "i = ButtonPaddle3" | "i = ButtonPaddle4"
  | "i = DPadUp" | "i = DPadDown" | "i = DPadLeft" | "i = DPadRight"
  | "i \<notin> set standardButtons"
  by (auto simp: standardButtons_def)

lemma not_standard:
  assumes "i \<notin> set standardButtons"
  shows "Pressed b i = ext_get (Extensions b) i"
    and "Set b i p = b\<lparr>Extensions := ext_set (Extensions b) i p\<rparr>"
    and "Button s i = ext_get (Extensions (st_Buttons s)) i"
    and "SetButton s i p = s\<lparr>st_Buttons := Set (st_Buttons s) i p\<rparr>"
  using assms by (auto simp: standardButtons_def Pressed_def Set_def Button_def SetButton_def)

lemma Pressed_ext:
  "j \<noteq> i \<Longrightarrow> Pressed (b\<lparr>Extensions := ext_set (Extensions b) i p\<rparr>) j = Pressed b j"
  by (simp add: Pressed_def ext_get_set)

lemma Pressed_Set: "Pressed (Set b i p) j = (if j = i then p else Pressed b j)"
proof (cases "i \<in> set standardButtons")
  case True
  have "Pressed (Set b i p) i = p"
    by (cases i rule: button_cases)
      (simp_all add: Pressed_def Set_def control_id_distinct not_standard ext_get_set)
  moreover have "j \<noteq> i \<Longrightarrow> Pressed (Set b i p) j = Pressed b j"
    using True
    by (cases i rule: button_cases)
      (simp_all add: Pressed_def Set_def control_id_distinct ext_get_set cong: if_cong)
  ultimately show ?thesis by simp
next
  case False
  then show ?thesis by (auto simp: not_standard Pressed_ext ext_get_set)
qed

lemma Button_SetButton: "Button (SetButton s i p) j = (if j = i then p else Button s j)"
  by (simp add: Button_def SetButton_def Pressed_Set control_id_distinct cong: if_cong)

lemma SetButton_frame [simp]:
  "st_LeftStick (SetButton s i p) = st_LeftStick s"
  "st_RightStick (SetButton s i p) = st_RightStick s"
  "st_LeftTrigger (SetButton s i p) = st_LeftTrigger s"
  "st_RightTrigger (SetButton s i p) = st_RightTrigger s"
  by (simp_all add: SetButton_def)

lemma Button_analog [simp]:
  "Button (s\<lparr>st_LeftStick := v\<rparr>) i = Button s i" "Button (s\<lparr>st_RightStick := v\<rparr>) i = Button s i"
  "Button (s\<lparr>st_LeftTrigger := x\<rparr>) i = Button s i" "Button (s\<lparr>st_RightTrigger := x\<rparr>) i = Button s i"
  by (simp_all add: Button_def)

lemma Button_zero [simp]: "\<not> Button zero_state i"
  by (simp add: Button_def zero_state_def zero_dpad_def zero_buttons_def Pressed_def ext_get_def)

text \<open>
  C35. A controller state is a faithful map of buttons: after \<^verbatim>\<open>SetButton(id, p)\<close> the
  control \<^verbatim>\<open>id\<close> reads \<^verbatim>\<open>p\<close>, every other control (standard or extension, D-pad or face
  button) reads what it read before, and sticks and triggers are untouched.
\<close>

theorem set_button_roundtrip:
  "Button (SetButton s i p) j = (if j = i then p else Button s j)
   \<and> st_LeftStick (SetButton s i p) = st_LeftStick s
   \<and> st_RightStick (SetButton s i p) = st_RightStick s
   \<and> st_LeftTrigger (SetButton s i p) = st_LeftTrigger s
   \<and> st_RightTrigger (SetButton s i p) = st_RightTrigger s"
  by (simp add: Button_SetButton)

end
