(* ===== verification/Events.thy ===== *)
theory Events
  imports ControllerState
begin

text \<open>
  The event vocabulary of \<^verbatim>\<open>event.go\<close>: identities, headers, the core event types
  and the control an event belongs to. The Go interface \<^verbatim>\<open>Event\<close> is open; events of
  the gesture, action and safety packages appear to the core as
  \<open>DerivedEvent\<close>. Each core event may be published by value or by pointer; the code
  treats the two forms alike, and so they are one constructor here.
\<close>

record EventID =
  id_Session :: session_id
  id_Stream :: string
  id_Sequence :: u64

definition zero_event_id :: EventID where
  "zero_event_id = \<lparr>id_Session = 0, id_Stream = [], id_Sequence = 0\<rparr>"

record Header =
  hd_ID :: EventID
  hd_DeviceID :: device_id
  hd_ObservedAt :: timestamp
  hd_ReceivedAt :: timestamp
  hd_PublishedAt :: timestamp
  hd_Monotonic :: duration
  hd_ReceivedMonotonic :: duration
  hd_DeviceTimestamp :: int
  hd_Causes :: "EventID list"
  hd_Synthetic :: bool

definition zero_header :: Header where
  "zero_header = \<lparr>hd_ID = zero_event_id, hd_DeviceID = [], hd_ObservedAt = 0, hd_ReceivedAt = 0,
     hd_PublishedAt = 0, hd_Monotonic = 0, hd_ReceivedMonotonic = 0, hd_DeviceTimestamp = 0,
     hd_Causes = [], hd_Synthetic = False\<rparr>"

datatype Phase = PhasePressed | PhaseReleased | PhaseChanged | PhaseStarted | PhaseEnded

type_synonym StickID = string
type_synonym TriggerID = string

definition LeftStick :: StickID where "LeftStick = ''left''"
definition RightStick :: StickID where "RightStick = ''right''"
definition LeftTrigger :: TriggerID where "LeftTrigger = ''left''"
definition RightTrigger :: TriggerID where "RightTrigger = ''right''"

definition StickLeft :: control_id where "StickLeft = ''stick.left''"
definition StickRight :: control_id where "StickRight = ''stick.right''"
definition TriggerLeft :: control_id where "TriggerLeft = ''trigger.left''"
definition TriggerRight :: control_id where "TriggerRight = ''trigger.right''"

datatype ConnectionState = Connected | Disconnected
datatype LivenessState = LivenessHealthy | LivenessStale

record NativeInput =
  native_Format :: string
  native_Data :: "8 word list"
  native_Fields :: "(string, int) fmap option"

datatype Event =
    ObservationEvent Header NativeInput State State
      \<comment> \<open>the header, the native reading, the previous and the current state\<close>
  | ButtonEvent Header control_id Phase bool
  | StickEvent Header StickID Stick Stick
  | TriggerEvent Header TriggerID fp fp
  | ConnectionEvent Header ConnectionState string
  | CapabilitiesEvent Header Capabilities
  | LivenessEvent Header LivenessState timestamp timestamp duration duration u64 duration duration bool
  | GapEvent Header string u64 string
  | ErrorEvent Header string go_error
  | ClockEvent Header duration u64 string
  | CommandEvent Header string "8 word list" bool string
  | DerivedEvent Header string

fun event_header :: "Event \<Rightarrow> Header" where
  "event_header (ObservationEvent h _ _ _) = h"
| "event_header (ButtonEvent h _ _ _) = h"
| "event_header (StickEvent h _ _ _) = h"
| "event_header (TriggerEvent h _ _ _) = h"
| "event_header (ConnectionEvent h _ _) = h"
| "event_header (CapabilitiesEvent h _) = h"
| "event_header (LivenessEvent h _ _ _ _ _ _ _ _ _) = h"
| "event_header (GapEvent h _ _ _) = h"
| "event_header (ErrorEvent h _ _) = h"
| "event_header (ClockEvent h _ _ _) = h"
| "event_header (CommandEvent h _ _ _ _) = h"
| "event_header (DerivedEvent h _) = h"

fun event_kind :: "Event \<Rightarrow> string" where
  "event_kind (ObservationEvent _ _ _ _) = ''input.observation''"
| "event_kind (ButtonEvent _ _ _ _) = ''input.button''"
| "event_kind (StickEvent _ _ _ _) = ''input.stick''"
| "event_kind (TriggerEvent _ _ _ _) = ''input.trigger''"
| "event_kind (ConnectionEvent _ _ _) = ''device.connection''"
| "event_kind (CapabilitiesEvent _ _) = ''device.capabilities''"
| "event_kind (LivenessEvent _ _ _ _ _ _ _ _ _ _) = ''stream.liveness''"
| "event_kind (GapEvent _ _ _ _) = ''stream.gap''"
| "event_kind (ErrorEvent _ _ _) = ''stream.error''"
| "event_kind (ClockEvent _ _ _ _) = ''stream.clock''"
| "event_kind (CommandEvent _ _ _ _ _) = ''command.issued''"
| "event_kind (DerivedEvent _ k) = k"

definition stickControl :: "StickID \<Rightarrow> control_id option" where
  "stickControl s =
     (if s = LeftStick then Some StickLeft else if s = RightStick then Some StickRight else None)"

definition triggerControl :: "TriggerID \<Rightarrow> control_id option" where
  "triggerControl t =
     (if t = LeftTrigger then Some TriggerLeft
      else if t = RightTrigger then Some TriggerRight else None)"

fun ControlOf :: "Event \<Rightarrow> control_id option" where
  "ControlOf (ButtonEvent _ b _ _) = Some b"
| "ControlOf (StickEvent _ s _ _) = stickControl s"
| "ControlOf (TriggerEvent _ t _ _) = triggerControl t"
| "ControlOf _ = None"

subsection \<open>Session identity text\<close>

text \<open>\<^verbatim>\<open>SessionID.MarshalText\<close> and \<^verbatim>\<open>UnmarshalText\<close>: lowercase hexadecimal, most significant
  byte first; \<^verbatim>\<open>hex.DecodeString\<close> also accepts upper-case digits.\<close>

definition hex_digit :: "nat \<Rightarrow> char" where
  "hex_digit n = ''0123456789abcdef'' ! n"

definition hex_value :: "char \<Rightarrow> nat option" where
  "hex_value c =
     (let n = of_char c :: nat in
      if 48 \<le> n \<and> n \<le> 57 then Some (n - 48)
      else if 97 \<le> n \<and> n \<le> 102 then Some (n - 87)
      else if 65 \<le> n \<and> n \<le> 70 then Some (n - 55)
      else None)"

primrec hex_digits :: "nat \<Rightarrow> nat \<Rightarrow> string" where
  "hex_digits 0 n = []"
| "hex_digits (Suc k) n = hex_digits k (n div 16) @ [hex_digit (n mod 16)]"

definition session_String :: "session_id \<Rightarrow> string" where
  "session_String s = hex_digits 32 (unat s)"

fun hex_decode :: "nat \<Rightarrow> string \<Rightarrow> nat option" where
  "hex_decode acc [] = Some acc"
| "hex_decode acc (c # cs) =
     (case hex_value c of None \<Rightarrow> None | Some d \<Rightarrow> hex_decode (16 * acc + d) cs)"

definition session_UnmarshalText :: "string \<Rightarrow> go_error + session_id" where
  "session_UnmarshalText t =
     (if odd (length t) then Inl [ErrText ''decode session ID'']
      else case hex_decode 0 t of
        None \<Rightarrow> Inl [ErrText ''decode session ID'']
      | Some n \<Rightarrow> if length t div 2 \<noteq> 16 then Inl [ErrText ''decode session ID'']
                  else Inr (of_nat n))"

lemma hex_value_digit: "n < 16 \<Longrightarrow> hex_value (hex_digit n) = Some n"
proof -
  assume "n < 16"
  then have "n \<in> set [0..<16]" by simp
  moreover have "list_all (\<lambda>n. hex_value (hex_digit n) = Some n) [0..<16]"
    by code_simp
  ultimately show ?thesis by (auto simp: list_all_iff)
qed

lemma hex_decode_append:
  "hex_decode acc (xs @ ys) = (case hex_decode acc xs of None \<Rightarrow> None | Some n \<Rightarrow> hex_decode n ys)"
  by (induction acc xs rule: hex_decode.induct) (auto split: option.splits)

lemma hex_decode_digits: "hex_decode 0 (hex_digits k n) = Some (n mod 16 ^ k)"
proof (induction k arbitrary: n)
  case (Suc k)
  have "16 * (n div 16 mod 16 ^ k) + n mod 16 = n mod 16 ^ Suc k"
    by (metis add.commute mod_mult2_eq mult.commute power_Suc)
  with Suc show ?case by (simp add: hex_decode_append hex_value_digit)
qed simp

lemma length_hex_digits [simp]: "length (hex_digits k n) = k"
  by (induction k arbitrary: n) auto

text \<open>
  C40. The text form of a session identity round-trips: what \<^verbatim>\<open>MarshalText\<close> writes is
  32 lowercase hexadecimal digits, and \<^verbatim>\<open>UnmarshalText\<close> reads them back as the same
  identity.
\<close>

theorem session_text_roundtrip:
  "session_UnmarshalText (session_String s) = Inr s \<and> length (session_String s) = 32"
proof -
  have "unat s < 2 ^ 128" using unsigned_less [of s, where ?'a = nat] by simp
  then have "unat s mod 16 ^ 32 = unat s" by simp
  then have "hex_decode 0 (hex_digits 32 (unat s)) = Some (unat s)"
    by (simp only: hex_decode_digits)
  then show ?thesis
    by (simp add: session_UnmarshalText_def session_String_def del: hex_digits.simps)
qed

end
