(* ===== verification/Tracker.thy ===== *)
theory Tracker
  imports Events
begin

text \<open>
  \<^verbatim>\<open>tracker.go\<close>: the events that describe the change from one controller state to
  the next. \<^verbatim>\<open>header\<close> is a callback of the controller that allocates the next event
  identity; here it is a state-passing function. The result says that the derived
  events are a complete and minimal description of the change: replaying them over
  the previous state gives the current one, and no event is a no-op.
\<close>

definition button_event :: "State \<Rightarrow> State \<Rightarrow> control_id \<Rightarrow> Header \<Rightarrow> Event" where
  "button_event previous current i h =
     ButtonEvent h i (if Button current i then PhasePressed else PhaseReleased) (Button current i)"

text \<open>\<open>appendButton\<close> over a list of controls: one header is drawn for each change.\<close>

fun append_buttons ::
  "State \<Rightarrow> State \<Rightarrow> ('s \<Rightarrow> Header \<times> 's) \<Rightarrow> control_id list \<Rightarrow> 's \<Rightarrow> Event list \<times> 's" where
  "append_buttons previous current header [] s = ([], s)"
| "append_buttons previous current header (i # is) s =
     (if Button previous i = Button current i then append_buttons previous current header is s
      else let (h, s') = header s; (es, s'') = append_buttons previous current header is s'
           in (button_event previous current i h # es, s''))"

definition ext_keys :: "State \<Rightarrow> control_id list" where
  "ext_keys st = (case Extensions (st_Buttons st) of None \<Rightarrow> []
     | Some m \<Rightarrow> filter (\<lambda>i. \<not> isStandardButton i) (sorted_list_of_fset (fmdom m)))"

definition extension_ids :: "State \<Rightarrow> State \<Rightarrow> control_id list" where
  "extension_ids previous current = remdups_adj (sort (ext_keys previous @ ext_keys current))"

definition stick_event :: "StickID \<Rightarrow> Stick \<Rightarrow> Stick \<Rightarrow> Header \<Rightarrow> Event" where
  "stick_event which before after h =
     StickEvent h which after
       \<lparr>stick_X = fp_sub f32 (stick_X after) (stick_X before),
        stick_Y = fp_sub f32 (stick_Y after) (stick_Y before)\<rparr>"

definition trigger_event :: "TriggerID \<Rightarrow> fp \<Rightarrow> fp \<Rightarrow> Header \<Rightarrow> Event" where
  "trigger_event which before after h = TriggerEvent h which after (fp_sub f32 after before)"

definition append_if ::
  "bool \<Rightarrow> (Header \<Rightarrow> Event) \<Rightarrow> ('s \<Rightarrow> Header \<times> 's) \<Rightarrow> Event list \<times> 's \<Rightarrow> Event list \<times> 's" where
  "append_if c f header r =
     (if c then let (h, s') = header (snd r) in (fst r @ [f h], s') else r)"

definition diffEvents ::
  "State \<Rightarrow> State \<Rightarrow> ('s \<Rightarrow> Header \<times> 's) \<Rightarrow> 's \<Rightarrow> Event list \<times> 's" where
  "diffEvents previous current header s =
     (let (standard, s1) = append_buttons previous current header standardButtons s;
          (extra, s2) = append_buttons previous current header (extension_ids previous current) s1
      in append_if (\<not> fp_eq (st_RightTrigger previous) (st_RightTrigger current))
           (trigger_event RightTrigger (st_RightTrigger previous) (st_RightTrigger current)) header
         (append_if (\<not> fp_eq (st_LeftTrigger previous) (st_LeftTrigger current))
           (trigger_event LeftTrigger (st_LeftTrigger previous) (st_LeftTrigger current)) header
         (append_if (\<not> stick_eq (st_RightStick previous) (st_RightStick current))
           (stick_event RightStick (st_RightStick previous) (st_RightStick current)) header
         (append_if (\<not> stick_eq (st_LeftStick previous) (st_LeftStick current))
           (stick_event LeftStick (st_LeftStick previous) (st_LeftStick current)) header
         (standard @ extra, s2)))))"

subsection \<open>Replaying the derived events\<close>

text \<open>What a consumer of the event stream reconstructs from one input event.\<close>

fun replay_event :: "State \<Rightarrow> Event \<Rightarrow> State" where
  "replay_event st (ButtonEvent _ i _ p) = SetButton st i p"
| "replay_event st (StickEvent _ w pos _) =
     (if w = LeftStick then st\<lparr>st_LeftStick := pos\<rparr>
      else if w = RightStick then st\<lparr>st_RightStick := pos\<rparr> else st)"
| "replay_event st (TriggerEvent _ w pos _) =
     (if w = LeftTrigger then st\<lparr>st_LeftTrigger := pos\<rparr>
      else if w = RightTrigger then st\<lparr>st_RightTrigger := pos\<rparr> else st)"
| "replay_event st _ = st"

definition replay :: "State \<Rightarrow> Event list \<Rightarrow> State" where
  "replay st es = foldl replay_event st es"

lemma replay_append [simp]: "replay st (es @ es') = replay (replay st es) es'"
  by (simp add: replay_def)

lemma replay_Nil [simp]: "replay st [] = st"
  by (simp add: replay_def)

lemma replay_Cons [simp]: "replay st (e # es) = replay (replay_event st e) es"
  by (simp add: replay_def)

text \<open>Two states with the same analog values.\<close>

definition same_analog :: "State \<Rightarrow> State \<Rightarrow> bool" where
  "same_analog a b \<longleftrightarrow> st_LeftStick a = st_LeftStick b \<and> st_RightStick a = st_RightStick b
     \<and> st_LeftTrigger a = st_LeftTrigger b \<and> st_RightTrigger a = st_RightTrigger b"

lemma replay_append_buttons:
  "Button (replay st (fst (append_buttons p c header ids s))) j =
     (if j \<in> set ids \<and> Button p j \<noteq> Button c j then Button c j else Button st j)
   \<and> same_analog (replay st (fst (append_buttons p c header ids s))) st"
proof (induction p c header ids s arbitrary: st rule: append_buttons.induct)
  case (1 p c header s)
  then show ?case by (simp add: same_analog_def)
next
  case (2 p c header i "is" s)
  then show ?case
    by (auto simp: Let_def case_prod_unfold button_event_def Button_SetButton same_analog_def
        prod_eq_iff)
qed

lemmas replay_analog = replay_append_buttons [THEN conjunct2, unfolded same_analog_def]

lemma append_buttons_changes:
  "e \<in> set (fst (append_buttons p c header ids s)) \<Longrightarrow>
     \<exists>h i. e = button_event p c i h \<and> Button p i \<noteq> Button c i"
  by (induction ids arbitrary: s) (auto simp: Let_def case_prod_unfold split: if_splits)

lemma append_if_events:
  "fst (append_if cnd f header r) = fst r @ (if cnd then [f (fst (header (snd r)))] else [])"
  by (simp add: append_if_def case_prod_unfold Let_def)

lemma ext_keys_complete: "i \<notin> set standardButtons \<Longrightarrow> Button st i \<Longrightarrow> i \<in> set (ext_keys st)"
  by (auto simp: not_standard ext_get_def ext_keys_def isStandardButton_def
      split: option.splits intro: fmdomI)

lemma diff_ids_complete:
  assumes "Button p j \<noteq> Button c j"
  shows "j \<in> set standardButtons \<or> j \<in> set (extension_ids p c)"
  using assms ext_keys_complete [of j p] ext_keys_complete [of j c]
  by (auto simp: extension_ids_def)

lemma analog_ids_distinct [simp]:
  "LeftStick \<noteq> RightStick" "RightStick \<noteq> LeftStick"
  "LeftTrigger \<noteq> RightTrigger" "RightTrigger \<noteq> LeftTrigger"
  by (simp_all add: LeftStick_def RightStick_def LeftTrigger_def RightTrigger_def)

lemma stick_eq_eq: "stick_eq a b \<Longrightarrow> a = b"
  by (cases a; cases b) (auto simp: stick_eq_def fp_eq_def)

text \<open>
  C40. Replaying the derived events over the previous state gives the current
  state: every button and D-pad direction, standard or extension, both sticks and
  both triggers. No derived button event is a no-op: each one reports a value that
  differs from the previous state.
\<close>

theorem diff_events_replay:
  "let es = fst (diffEvents previous current header s); r = replay previous es
   in (\<forall>i. Button r i = Button current i) \<and> same_analog r current
      \<and> (\<forall>h i ph v. ButtonEvent h i ph v \<in> set es \<longrightarrow> v \<noteq> Button previous i)"
proof -
  let ?a = "append_buttons previous current header standardButtons s"
  let ?b = "append_buttons previous current header (extension_ids previous current) (snd ?a)"
  let ?bs = "fst ?a @ fst ?b"
  obtain ts where es: "fst (diffEvents previous current header s) = ?bs @ ts"
    and ts: "\<And>st. same_analog st previous \<Longrightarrow>
        (\<forall>i. Button (replay st ts) i = Button st i) \<and> same_analog (replay st ts) current"
    and tb: "\<And>h i ph v. ButtonEvent h i ph v \<notin> set ts"
  proof (rule that)
    show "fst (diffEvents previous current header s) = ?bs @ drop (length ?bs) (fst (diffEvents previous current header s))"
      by (simp add: diffEvents_def Let_def case_prod_unfold append_if_events)
    fix st h i ph v
    let ?ts = "drop (length ?bs) (fst (diffEvents previous current header s))"
    show "ButtonEvent h i ph v \<notin> set ?ts"
      by (simp add: diffEvents_def Let_def case_prod_unfold append_if_events stick_event_def
          trigger_event_def)
    assume "same_analog st previous"
    then show "(\<forall>i. Button (replay st ?ts) i = Button st i) \<and> same_analog (replay st ?ts) current"
      by (auto simp: diffEvents_def Let_def case_prod_unfold append_if_events stick_event_def
          trigger_event_def same_analog_def fp_eq_def dest: stick_eq_eq)
  qed
  let ?m = "replay previous ?bs"
  have m: "Button ?m j = Button current j" for j
    using diff_ids_complete [of previous j current] by (auto simp: replay_append_buttons)
  have "same_analog ?m previous"
    by (simp add: same_analog_def replay_analog)
  from ts [OF this] m have "(\<forall>i. Button (replay previous (?bs @ ts)) i = Button current i)
      \<and> same_analog (replay previous (?bs @ ts)) current"
    by simp
  moreover have "v \<noteq> Button previous i" if "ButtonEvent h i ph v \<in> set (?bs @ ts)" for h i ph v
    using that tb by (auto dest!: append_buttons_changes simp: button_event_def)
  ultimately show ?thesis unfolding Let_def es by blast
qed

theorem diff_events_replay_witness:
  "let es = fst (diffEvents zero_state (SetButton zero_state ButtonBumperLeft True)
              (\<lambda>n::nat. (zero_header, Suc n)) 0)
   in ButtonEvent zero_header ButtonBumperLeft PhasePressed True \<in> set es
      \<and> True \<noteq> Button zero_state ButtonBumperLeft"
proof -
  let ?es = "fst (diffEvents zero_state (SetButton zero_state ButtonBumperLeft True)
              (\<lambda>n::nat. (zero_header, Suc n)) 0)"
  have "?es = [ButtonEvent zero_header ButtonBumperLeft PhasePressed True]" by code_simp
  then show ?thesis
    using diff_events_replay [of zero_state "SetButton zero_state ButtonBumperLeft True"
        "\<lambda>n::nat. (zero_header, Suc n)" 0]
    by (auto simp: Let_def)
qed

end
