(* ===== verification/Merkle.thy ===== *)
theory Merkle
  imports Prelude "HOL-Library.Monad_Syntax"
begin

text \<open>
  The Merkle tree of \<^verbatim>\<open>audit/merkle.go\<close> (RFC 6962): the incremental tree the recorder
  keeps (\<open>tree\<close>, \<open>tree_Append\<close>, \<open>tree_Root\<close>), the recursive root of a slice of leaf hashes, the two
  provers and the two verifiers.

  SHA-256 is not code of the repository: it is the parameter \<open>sha\<close> of every definition that
  hashes. A Go slice has fewer than \<open>2 ^ 63\<close> elements, so the prover side, whose numbers are
  lengths of slices and indices into them, is over \<open>nat\<close>; the sizes and indices a verifier
  is given are arbitrary \<^verbatim>\<open>uint64\<close> values and stay \<open>64 word\<close>. An index out of range is
  \<open>Panicked\<close>.
\<close>

unbundle bit_operations_syntax

type_synonym bytes = "8 word list"
type_synonym digest = "bytes \<Rightarrow> bytes"

definition leafPrefix :: "8 word" where "leafPrefix = 0"
definition nodePrefix :: "8 word" where "nodePrefix = 1"
definition HashSize :: nat where "HashSize = 32"

definition EmptyRoot :: "digest \<Rightarrow> bytes" where
  "EmptyRoot sha = sha []"

definition HashLeaf :: "digest \<Rightarrow> bytes \<Rightarrow> bytes" where
  "HashLeaf sha rec = sha (leafPrefix # rec)"

definition node_input :: "bytes \<Rightarrow> bytes \<Rightarrow> bytes" where
  "node_input left right = nodePrefix # left @ right"

definition hashNode :: "digest \<Rightarrow> bytes \<Rightarrow> bytes \<Rightarrow> bytes" where
  "hashNode sha left right = sha (node_input left right)"

subsection \<open>Bit counting of \<^verbatim>\<open>math/bits\<close>\<close>

fun bit_length :: "nat \<Rightarrow> nat" where
  "bit_length n = (if n = 0 then 0 else Suc (bit_length (n div 2)))"

fun ones_count :: "nat \<Rightarrow> nat" where
  "ones_count n = (if n = 0 then 0 else n mod 2 + ones_count (n div 2))"

declare bit_length.simps [simp del] ones_count.simps [simp del]

definition OnesCount64 :: "u64 \<Rightarrow> nat" where
  "OnesCount64 x = ones_count (unat x)"

definition splitPoint :: "nat \<Rightarrow> nat" where
  "splitPoint n = (if n < 2 then 0 else 2 ^ (bit_length (n - 1) - 1))"

text \<open>\<open>bit_length\<close> brackets its argument between two powers of two.\<close>

lemma bit_length_bounds:
  "0 < n \<Longrightarrow> 2 ^ (bit_length n - 1) \<le> n \<and> n < 2 ^ bit_length n \<and> 0 < bit_length n"
proof (induction n rule: bit_length.induct)
  case (1 n)
  show ?case
  proof (cases "n = 1")
    case True
    then show ?thesis by (simp add: bit_length.simps)
  next
    case False
    with "1.prems" have half: "0 < n div 2" by auto
    from "1.prems" have len: "bit_length n = Suc (bit_length (n div 2))"
      by (subst bit_length.simps) simp
    from "1.prems" have nz: "n \<noteq> 0" by simp
    from "1.IH" [OF nz half] obtain k where k: "bit_length (n div 2) = Suc k"
      and "2 ^ k \<le> n div 2" "n div 2 < 2 ^ Suc k"
      by (cases "bit_length (n div 2)") auto
    then show ?thesis unfolding len k by auto
  qed
qed

lemma bit_length_unique:
  assumes "2 ^ k \<le> n" and "n < 2 ^ Suc k"
  shows "bit_length n = Suc k"
proof -
  from assms(1) have "0 < n" by (metis less_le_trans zero_less_numeral zero_less_power)
  from bit_length_bounds [OF this] obtain j where j: "bit_length n = Suc j" "2 ^ j \<le> n" "n < 2 ^ Suc j"
    by (cases "bit_length n") auto
  from j(2) assms(2) have "j < Suc k"
    by (meson le_less_trans one_less_numeral_iff power_less_imp_less_exp semiring_norm(76))
  moreover from assms(1) j(3) have "k < Suc j"
    by (meson le_less_trans one_less_numeral_iff power_less_imp_less_exp semiring_norm(76))
  ultimately show ?thesis using j by simp
qed

lemma splitPoint_unique:
  assumes "2 ^ h < n" and "n \<le> 2 ^ Suc h"
  shows "splitPoint n = 2 ^ h"
proof -
  from assms(1) have "2 \<le> n"
    by (metis One_nat_def Suc_leI one_le_numeral one_le_power order_le_less_trans numeral_2_eq_2)
  moreover from assms have "bit_length (n - 1) = Suc h"
    by (intro bit_length_unique) auto
  ultimately show ?thesis by (simp add: splitPoint_def)
qed

lemma splitPoint_exists:
  assumes "2 \<le> n"
  obtains h where "splitPoint n = 2 ^ h" and "2 ^ h < n" and "n \<le> 2 ^ Suc h"
proof -
  from assms have "0 < n - 1" by simp
  from bit_length_bounds [OF this] obtain h where "bit_length (n - 1) = Suc h"
    and "2 ^ h \<le> n - 1" and "n - 1 < 2 ^ Suc h"
    by (cases "bit_length (n - 1)") auto
  with assms show ?thesis by (intro that [of h]) (auto simp: splitPoint_def)
qed

lemma splitPoint_pos: "2 \<le> n \<Longrightarrow> 0 < splitPoint n"
  by (erule splitPoint_exists) simp

lemma splitPoint_less: "2 \<le> n \<Longrightarrow> splitPoint n < n"
  by (erule splitPoint_exists) simp

lemma splitPoint_shrinks [simp]:
  "\<not> n \<le> Suc 0 \<Longrightarrow> min n (splitPoint n) < n"
  "\<not> n \<le> Suc 0 \<Longrightarrow> n - splitPoint n < n"
  using splitPoint_less [of n] splitPoint_pos [of n] by auto

subsection \<open>The incremental tree\<close>

record tree =
  t_size :: u64
  t_subtrees :: "bytes list"

definition empty_tree :: tree where
  "empty_tree = \<lparr>t_size = 0, t_subtrees = []\<rparr>"

text \<open>The loop of \<open>Append\<close>: merge the two newest subtrees while there are too many.\<close>

function merge_subtrees :: "digest \<Rightarrow> nat \<Rightarrow> bytes list \<Rightarrow> bytes list outcome" where
  "merge_subtrees sha limit ts =
     (if length ts \<le> limit then Returned ts
      else if length ts < 2 then Panicked
      else let right = ts ! (length ts - 1); left = ts ! (length ts - 2)
           in merge_subtrees sha limit (take (length ts - 2) ts @ [hashNode sha left right]))"
  by pat_completeness auto
termination by (relation "measure (\<lambda>(sha, limit, ts). length ts)") auto

declare merge_subtrees.simps [simp del]

definition tree_Append :: "digest \<Rightarrow> tree \<Rightarrow> bytes \<Rightarrow> tree outcome" where
  "tree_Append sha t leaf = (let n = t_size t + 1 in
     case merge_subtrees sha (OnesCount64 n) (t_subtrees t @ [leaf]) of
       Panicked \<Rightarrow> Panicked
     | Returned ts \<Rightarrow> Returned \<lparr>t_size = n, t_subtrees = ts\<rparr>)"

definition tree_Size :: "tree \<Rightarrow> u64" where
  "tree_Size t = t_size t"

definition tree_Root :: "digest \<Rightarrow> tree \<Rightarrow> bytes outcome" where
  "tree_Root sha t =
     (if t_size t = 0 then Returned (EmptyRoot sha)
      else if t_subtrees t = [] then Panicked
      else Returned (foldr (hashNode sha) (butlast (t_subtrees t)) (last (t_subtrees t))))"

subsection \<open>Roots and provers over a slice of leaf hashes\<close>

function Root :: "digest \<Rightarrow> bytes list \<Rightarrow> bytes" where
  "Root sha leaves =
     (if length leaves = 0 then EmptyRoot sha
      else if length leaves = 1 then leaves ! 0
      else let split = splitPoint (length leaves)
           in hashNode sha (Root sha (take split leaves)) (Root sha (drop split leaves)))"
  by pat_completeness auto
termination
proof (relation "measure (\<lambda>(sha, leaves). length leaves)")
  fix sha :: digest and leaves :: "bytes list" and split
  assume a: "length leaves \<noteq> 0" "length leaves \<noteq> 1" "split = splitPoint (length leaves)"
  then have "2 \<le> length leaves" by linarith
  then have "0 < split" "split < length leaves"
    using a(3) splitPoint_pos splitPoint_less by blast+
  then show "((sha, take split leaves), sha, leaves) \<in> measure (\<lambda>(sha, leaves). length leaves)"
    "((sha, drop split leaves), sha, leaves) \<in> measure (\<lambda>(sha, leaves). length leaves)"
    by auto
qed simp

declare Root.simps [simp del]

function inclusionPath :: "digest \<Rightarrow> nat \<Rightarrow> bytes list \<Rightarrow> bytes list" where
  "inclusionPath sha index leaves =
     (if length leaves \<le> 1 then []
      else let split = splitPoint (length leaves)
           in if index < split
              then inclusionPath sha index (take split leaves) @ [Root sha (drop split leaves)]
              else inclusionPath sha (index - split) (drop split leaves) @ [Root sha (take split leaves)])"
  by pat_completeness auto
termination
  by (relation "measure (\<lambda>(sha, index, leaves). length leaves)")
auto

declare inclusionPath.simps [simp del]

definition InclusionProof :: "digest \<Rightarrow> nat \<Rightarrow> bytes list \<Rightarrow> go_error + bytes list" where
  "InclusionProof sha index leaves =
     (if length leaves \<le> index then Inl [ErrProof] else Inr (inclusionPath sha index leaves))"

text \<open>
  \<open>consistencyPath\<close> ends only for \<open>0 < first \<le> length leaves\<close>, the range its caller
  checks; not ending is \<open>None\<close>.
\<close>

partial_function (option) consistencyPath ::
  "digest \<Rightarrow> nat \<Rightarrow> bytes list \<Rightarrow> bool \<Rightarrow> bytes list option" where
  "consistencyPath sha first leaves complete =
     (if first = length leaves then Some (if complete then [] else [Root sha leaves])
      else if first \<le> splitPoint (length leaves) then do {
        path \<leftarrow> consistencyPath sha first (take (splitPoint (length leaves)) leaves) complete;
        Some (path @ [Root sha (drop (splitPoint (length leaves)) leaves)])
      } else do {
        path \<leftarrow> consistencyPath sha (first - splitPoint (length leaves))
          (drop (splitPoint (length leaves)) leaves) False;
        Some (path @ [Root sha (take (splitPoint (length leaves)) leaves)])
      })"

declare consistencyPath.simps [code]

definition ConsistencyProof :: "digest \<Rightarrow> nat \<Rightarrow> bytes list \<Rightarrow> (go_error + bytes list) option" where
  "ConsistencyProof sha first leaves =
     (if first = 0 \<or> length leaves < first then Some (Inl [ErrProof])
      else map_option Inr (consistencyPath sha first leaves True))"

subsection \<open>Verifiers\<close>

lemma unat_half: "unat (drop_bit (Suc 0) (x::u64)) = unat x div 2"
  by (simp add: unat_div drop_bit_Suc)

lemma drop_bit_1_less: "(x::u64) \<noteq> 0 \<Longrightarrow> unat (drop_bit (Suc 0) x) < unat x"
  unfolding unat_half using unat_gt_0 [of x] by simp

text \<open>\<^verbatim>\<open>for node&1 == 0 && node != 0 { node >>= 1; last >>= 1 }\<close>\<close>

function skip_even :: "u64 \<Rightarrow> u64 \<Rightarrow> u64 \<times> u64" where
  "skip_even node lst =
     (if node AND 1 = 0 \<and> node \<noteq> 0 then skip_even (drop_bit 1 node) (drop_bit 1 lst)
      else (node, lst))"
  by pat_completeness auto
termination by (relation "measure (\<lambda>(node, lst). unat node)") (auto intro: drop_bit_1_less)

text \<open>\<^verbatim>\<open>for node&1 == 1 { node >>= 1; last >>= 1 }\<close>\<close>

function skip_odd :: "u64 \<Rightarrow> u64 \<Rightarrow> u64 \<times> u64" where
  "skip_odd node lst =
     (if node AND 1 = 1 then skip_odd (drop_bit 1 node) (drop_bit 1 lst) else (node, lst))"
  by pat_completeness auto
termination
proof (relation "measure (\<lambda>(node, lst). unat node)")
  fix node lst :: u64
  assume "node AND 1 = 1"
  then have "node \<noteq> 0" by auto
  then show "((drop_bit 1 node, drop_bit 1 lst), (node, lst)) \<in> measure (\<lambda>(node, lst). unat node)"
    using drop_bit_1_less by simp
qed simp

declare skip_even.simps [simp del] skip_odd.simps [simp del]

fun inclusion_loop :: "digest \<Rightarrow> u64 \<Rightarrow> u64 \<Rightarrow> bytes \<Rightarrow> bytes list \<Rightarrow> go_error + (u64 \<times> bytes)" where
  "inclusion_loop sha node lst result [] = Inr (lst, result)"
| "inclusion_loop sha node lst result (sibling # proof) =
     (if lst = 0 then Inl [ErrProof]
      else if node AND 1 = 1 \<or> node = lst
      then (case skip_even node lst of (node, lst) \<Rightarrow>
        inclusion_loop sha (drop_bit 1 node) (drop_bit 1 lst) (hashNode sha sibling result) proof)
      else inclusion_loop sha (drop_bit 1 node) (drop_bit 1 lst) (hashNode sha result sibling) proof)"

definition VerifyInclusion ::
  "digest \<Rightarrow> u64 \<Rightarrow> u64 \<Rightarrow> bytes \<Rightarrow> bytes \<Rightarrow> bytes list \<Rightarrow> go_error" where
  "VerifyInclusion sha index n leaf root proof =
     (if n \<le> index then [ErrProof]
      else case inclusion_loop sha index (n - 1) leaf proof of
        Inl err \<Rightarrow> err
      | Inr (lst, result) \<Rightarrow>
          if lst \<noteq> 0 then [ErrProof] else if result \<noteq> root then [ErrProof] else nil)"

fun consistency_loop ::
  "digest \<Rightarrow> u64 \<Rightarrow> u64 \<Rightarrow> bytes \<Rightarrow> bytes \<Rightarrow> bytes list \<Rightarrow> go_error + (u64 \<times> bytes \<times> bytes)" where
  "consistency_loop sha node lst firstResult secondResult [] = Inr (lst, firstResult, secondResult)"
| "consistency_loop sha node lst firstResult secondResult (sibling # path) =
     (if lst = 0 then Inl [ErrProof]
      else if node AND 1 = 1 \<or> node = lst
      then (case skip_even node lst of (node, lst) \<Rightarrow>
        consistency_loop sha (drop_bit 1 node) (drop_bit 1 lst)
          (hashNode sha sibling firstResult) (hashNode sha sibling secondResult) path)
      else consistency_loop sha (drop_bit 1 node) (drop_bit 1 lst)
          firstResult (hashNode sha secondResult sibling) path)"

definition VerifyConsistency ::
  "digest \<Rightarrow> u64 \<Rightarrow> u64 \<Rightarrow> bytes \<Rightarrow> bytes \<Rightarrow> bytes list \<Rightarrow> go_error" where
  "VerifyConsistency sha first second firstRoot secondRoot proof =
     (if second < first then [ErrProof]
      else if first = 0 then [ErrProof]
      else if first = second then
        (if proof \<noteq> [] then [ErrProof] else if firstRoot \<noteq> secondRoot then [ErrProof] else nil)
      else let path = (if first AND (first - 1) = 0 then firstRoot # proof else proof)
        in case path of [] \<Rightarrow> [ErrProof]
        | start # rest \<Rightarrow> (case skip_odd (first - 1) (second - 1) of (node, lst) \<Rightarrow>
            case consistency_loop sha node lst start start rest of
              Inl err \<Rightarrow> err
            | Inr (lst, firstResult, secondResult) \<Rightarrow>
                if lst \<noteq> 0 then [ErrProof]
                else if firstResult \<noteq> firstRoot then [ErrProof]
                else if secondResult \<noteq> secondRoot then [ErrProof]
                else nil))"

end
