(* ===== verification/MerkleProofs.thy ===== *)
theory MerkleProofs
  imports Merkle
begin

text \<open>
  What the Merkle tree of \<^verbatim>\<open>audit/merkle.go\<close> promises. The incremental tree computes the
  recursive root and keeps one hash per set bit of the leaf count; the two provers produce proofs the two
  verifiers accept; and the verifiers accept nothing else, as long as SHA-256 has no collision
  among the inputs that were hashed for the tree and by the verifier.

  Both verifiers walk a proof upwards with the same two counters. \<open>climb\<close> is that walk with
  what happens at a node left open, and the lemmas \<open>climb_left\<close> and \<open>climb_right\<close> read it as the recursion
  of RFC 6962 from the top.
\<close>

subsection \<open>Roots\<close>

lemma Root_single [simp]: "Root sha [x] = x"
  by (subst Root.simps) simp

lemma Root_split:
  assumes "2 ^ h < length ls" and "length ls \<le> 2 ^ Suc h"
  shows "Root sha ls = hashNode sha (Root sha (take (2 ^ h) ls)) (Root sha (drop (2 ^ h) ls))"
proof -
  from assms(1) have "length ls \<noteq> 0" "length ls \<noteq> 1"
    by (auto simp: less_eq_Suc_le)
  then show ?thesis
    by (subst Root.simps) (simp add: splitPoint_unique [OF assms] Let_def)
qed

lemma Root_append:
  assumes "length a = 2 ^ h" and "0 < length b" and "length b \<le> 2 ^ h"
  shows "Root sha (a @ b) = hashNode sha (Root sha a) (Root sha b)"
  using Root_split [of h "a @ b" sha] assms by simp

lemma length_Root:
  assumes "\<And>x. length (sha x) = HashSize" and "\<forall>l\<in>set ls. length l = HashSize"
  shows "length (Root sha ls) = HashSize"
proof (cases "length ls = 1")
  case True
  then obtain x where "ls = [x]" by (cases ls) auto
  with assms(2) show ?thesis by simp
next
  case False
  then show ?thesis by (subst Root.simps) (simp add: assms(1) EmptyRoot_def hashNode_def Let_def)
qed

subsection \<open>The incremental tree is the recursive tree\<close>

text \<open>
  \<open>stacked sha h n ls rs\<close>: the stack \<open>rs\<close>, newest first, holds the roots of the blocks into which the binary
  digits of \<open>n\<close> divide \<open>ls\<close>, the lowest digit standing for a block of \<open>2 ^ h\<close> leaves.
\<close>

inductive stacked :: "digest \<Rightarrow> nat \<Rightarrow> nat \<Rightarrow> bytes list \<Rightarrow> bytes list \<Rightarrow> bool" for sha where
  none: "stacked sha h 0 [] []"
| zero_bit: "0 < n \<Longrightarrow> stacked sha (Suc h) n ls rs \<Longrightarrow> stacked sha h (2 * n) ls rs"
| one_bit: "stacked sha (Suc h) n ls rs \<Longrightarrow> length b = 2 ^ h
    \<Longrightarrow> stacked sha h (Suc (2 * n)) (ls @ b) (Root sha b # rs)"

lemma ones_count_0 [simp]: "ones_count 0 = 0"
  by (simp add: ones_count.simps)

lemma ones_count_double [simp]: "ones_count (2 * n) = ones_count n"
  by (cases "n = 0") (simp, subst ones_count.simps, simp)

lemma ones_count_double_Suc [simp]: "ones_count (Suc (2 * n)) = Suc (ones_count n)"
  by (subst ones_count.simps) simp

lemma ones_count_Suc_le: "ones_count (Suc n) \<le> Suc (ones_count n)"
proof (induction n rule: ones_count.induct)
  case (1 n)
  show ?case
  proof (cases "even n")
    case True
    then obtain k where "n = 2 * k" by blast
    then show ?thesis by simp
  next
    case False
    then obtain k where n: "n = Suc (2 * k)" by (metis oddE Suc_eq_plus1)
    then have "ones_count (Suc k) \<le> Suc (ones_count k)" using "1.IH" by simp
    moreover from n have "Suc n = 2 * Suc k" by simp
    ultimately show ?thesis using n by (simp only: ones_count_double ones_count_double_Suc)
  qed
qed

lemma stacked_length: "stacked sha h n ls rs \<Longrightarrow> length rs = ones_count n"
  by (induction rule: stacked.induct) auto

lemma merge_done: "length ts \<le> limit \<Longrightarrow> merge_subtrees sha limit ts = Returned ts"
  by (simp add: merge_subtrees.simps)

lemma merge_step:
  "limit < Suc (Suc (length ts))
    \<Longrightarrow> merge_subtrees sha limit (ts @ [l, r]) = merge_subtrees sha limit (ts @ [hashNode sha l r])"
  by (subst merge_subtrees.simps) (simp add: Let_def nth_append)

lemma stacked_push:
  assumes "stacked sha h n ls rs" and "length b = 2 ^ h"
  shows "\<exists>rs'. stacked sha h (Suc n) (ls @ b) rs'
    \<and> merge_subtrees sha (ones_count (Suc n)) (rev rs @ [Root sha b]) = Returned (rev rs')"
  using assms
proof (induction arbitrary: b rule: stacked.induct)
  case (none h)
  then have "stacked sha h (Suc (2 * 0)) ([] @ b) [Root sha b]"
    by (intro stacked.intros)
  then show ?case
    using ones_count_double_Suc [of 0] by (intro exI [of _ "[Root sha b]"]) (simp add: merge_done)
next
  case (zero_bit n h ls rs)
  then have "stacked sha h (Suc (2 * n)) (ls @ b) (Root sha b # rs)"
    by (intro stacked.intros)
  then show ?case
    using stacked_length [OF zero_bit(2)]
    by (intro exI [of _ "Root sha b # rs"]) (simp add: merge_done)
next
  case (one_bit h n ls rs a)
  have "length (a @ b) = 2 ^ Suc h" using one_bit by simp
  from one_bit.IH [OF this] obtain rs' where rs': "stacked sha (Suc h) (Suc n) (ls @ a @ b) rs'"
    "merge_subtrees sha (ones_count (Suc n)) (rev rs @ [Root sha (a @ b)]) = Returned (rev rs')"
    by auto
  have node: "Root sha (a @ b) = hashNode sha (Root sha a) (Root sha b)"
    using one_bit by (intro Root_append) auto
  have twice: "Suc (Suc (2 * n)) = 2 * Suc n" by simp
  from stacked.zero_bit [OF _ rs'(1)] have "stacked sha h (Suc (Suc (2 * n))) ((ls @ a) @ b) rs'"
    unfolding twice by simp
  moreover have "merge_subtrees sha (ones_count (2 * Suc n)) (rev rs @ [Root sha a, Root sha b]) = Returned (rev rs')"
    using rs'(2) stacked_length [OF one_bit(1)] ones_count_Suc_le [of n]
    unfolding ones_count_double node by (subst merge_step) auto
  ultimately show ?case unfolding twice by (intro exI [of _ rs']) simp
qed

lemma stacked_fold:
  assumes "stacked sha h n ls rs" and "0 < length c" and "length c \<le> 2 ^ h"
  shows "foldr (hashNode sha) (rev rs) (Root sha c) = Root sha (ls @ c)"
  using assms
proof (induction arbitrary: c rule: stacked.induct)
  case (one_bit h n ls rs b)
  have "foldr (hashNode sha) (rev rs) (Root sha (b @ c)) = Root sha (ls @ b @ c)"
    using one_bit by (intro one_bit.IH) auto
  moreover have "Root sha (b @ c) = hashNode sha (Root sha b) (Root sha c)"
    using one_bit by (intro Root_append) auto
  ultimately show ?case by simp
qed auto

lemma stacked_root:
  assumes "stacked sha h n ls rs" and "0 < n"
  shows "rs \<noteq> [] \<and> foldr (hashNode sha) (butlast (rev rs)) (last (rev rs)) = Root sha ls"
  using assms
proof (induction rule: stacked.induct)
  case (one_bit h n ls rs b)
  then show ?case by (simp add: butlast_append stacked_fold [OF one_bit(1)])
qed auto

subsection \<open>The walk of the verifiers\<close>

fun strip :: "nat \<Rightarrow> nat \<Rightarrow> nat \<times> nat" where
  "strip node lst = (if even node \<and> node \<noteq> 0 then strip (node div 2) (lst div 2) else (node, lst))"

declare strip.simps [simp del]

fun climb ::
  "('n \<Rightarrow> 's \<Rightarrow> 's) \<Rightarrow> ('n \<Rightarrow> 's \<Rightarrow> 's) \<Rightarrow> nat \<Rightarrow> nat \<Rightarrow> 's \<Rightarrow> 'n list \<Rightarrow> 's option" where
  "climb onleft onright node lst r [] = (if lst = 0 then Some r else None)"
| "climb onleft onright node lst r (s # p) =
     (if lst = 0 then None
      else if odd node \<or> node = lst
      then (case strip node lst of (node, lst) \<Rightarrow>
        climb onleft onright (node div 2) (lst div 2) (onleft s r) p)
      else climb onleft onright (node div 2) (lst div 2) (onright s r) p)"

lemma strip_odd [simp]: "odd node \<Longrightarrow> strip node lst = (node, lst)"
  by (subst strip.simps) auto

lemma strip_power: "strip (2 ^ h) (2 ^ h) = (1, 1)"
proof (induction h)
  case (Suc h)
  then show ?case by (subst strip.simps) simp
qed simp

lemma strip_shift:
  assumes "0 < node" and "node < 2 ^ h"
  obtains a k where "strip node node = (a, a)" and "strip (node + 2 ^ h) (node + 2 ^ h) = (a + 2 ^ Suc k, a + 2 ^ Suc k)"
    and "odd a" and "a < 2 ^ Suc k"
  using assms
proof (induction h arbitrary: node thesis)
  case (Suc h)
  show ?case
  proof (cases "odd node")
    case True
    then show ?thesis using Suc.prems by (intro Suc.prems(1) [of node h]) auto
  next
    case False
    then obtain m where m: "node = 2 * m" by auto
    then have "0 < m" "m < 2 ^ h" using Suc.prems by auto
    from Suc.IH [OF _ this] obtain a k where "strip m m = (a, a)"
      "strip (m + 2 ^ h) (m + 2 ^ h) = (a + 2 ^ Suc k, a + 2 ^ Suc k)" "odd a" "a < 2 ^ Suc k"
      by blast
    moreover have "strip node node = strip m m" "strip (node + 2 ^ Suc h) (node + 2 ^ Suc h) = strip (m + 2 ^ h) (m + 2 ^ h)"
      using m \<open>0 < m\<close> by (subst strip.simps, simp)+
    ultimately show ?thesis by (intro Suc.prems(1) [of a k]) simp_all
  qed
qed simp

lemma climb_left:
  assumes "node < 2 ^ h" and "2 ^ h \<le> m" and "m < 2 ^ Suc h"
  shows "climb f g node m r p =
    (if p = [] then None else map_option (g (last p)) (climb f g node (2 ^ h - 1) r (butlast p)))"
  using assms
proof (induction p arbitrary: h node m r)
  case Nil
  then have "m \<noteq> 0" by (metis not_less zero_less_numeral zero_less_power)
  then show ?case by simp
next
  case (Cons s p)
  show ?case
  proof (cases h)
    case 0
    with Cons.prems have "node = 0" "m = 1" by auto
    then show ?thesis using 0 by (cases p) auto
  next
    case (Suc k)
    have sub: "node div 2 < 2 ^ k" "2 ^ k \<le> m div 2" "m div 2 < 2 ^ Suc k"
      using Cons.prems Suc by auto
    have "(1::nat) \<le> 2 ^ k" by simp
    then have big: "\<not> 2 * 2 ^ k \<le> Suc 0" by linarith
    have ne: "m \<noteq> 0" "node \<noteq> m" "(2::nat) ^ h - 1 \<noteq> 0" and half: "(2 ^ h - 1) div 2 = (2 ^ k - 1 :: nat)"
      and top: "node = 2 ^ h - 1 \<Longrightarrow> odd node"
      using Cons.prems Suc big by auto
    show ?thesis
    proof (cases "odd node")
      case True
      then show ?thesis using ne half by (simp add: Cons.IH [OF sub])
    next
      case False
      then show ?thesis using ne half top by (auto simp: Cons.IH [OF sub])
    qed
  qed
qed

lemma climb_right:
  assumes "node \<le> m" and "m < 2 ^ h"
  shows "climb f g (node + 2 ^ h) (m + 2 ^ h) r p =
    (if p = [] then None else map_option (f (last p)) (climb f g node m r (butlast p)))"
  using assms
proof (induction p arbitrary: h node m r)
  case (Cons s p)
  consider "m = 0" | "0 < m" "node = m" "even node" | "0 < m" "odd node \<or> node \<noteq> m" by auto
  then show ?case
  proof cases
    case 1
    then show ?thesis using Cons.prems strip_power [of h] by (cases p) auto
  next
    case 2
    then obtain a k where ak: "strip node node = (a, a)"
      "strip (node + 2 ^ h) (node + 2 ^ h) = (a + 2 ^ Suc k, a + 2 ^ Suc k)" "odd a" "a < 2 ^ Suc k"
      using strip_shift [of node h] Cons.prems by blast
    have "a div 2 < 2 ^ k" using ak(4) by auto
    from Cons.IH [OF order.refl this] show ?thesis
      using 2 ak(1,2) by (auto simp: add.commute [of "2 ^ k"])
  next
    case 3
    then obtain k where h: "h = Suc k" using Cons.prems by (cases h) auto
    have sub: "node div 2 \<le> m div 2" "m div 2 < 2 ^ k"
      using Cons.prems h by auto
    show ?thesis
    proof (cases "odd node")
      case True
      then show ?thesis using 3 h by (simp add: Cons.IH [OF sub] add.commute [of "2 ^ k"])
    next
      case False
      then show ?thesis using 3 h by (auto simp: Cons.IH [OF sub] add.commute [of "2 ^ k"])
    qed
  qed
qed simp

corollary climb_upper:
  assumes "2 ^ h \<le> node" and "node \<le> m" and "m < 2 ^ Suc h"
  shows "climb f g node m r p =
    (if p = [] then None else map_option (f (last p)) (climb f g (node - 2 ^ h) (m - 2 ^ h) r (butlast p)))"
  using climb_right [of "node - 2 ^ h" "m - 2 ^ h" h f g r p] assms by simp

text \<open>What every step preserves, the walk preserves; and a map between two kinds of state carries over.\<close>

lemma climb_inv:
  assumes "climb f g node m r p = Some r'" and "P r"
    and "\<And>s r. s \<in> set p \<Longrightarrow> P r \<Longrightarrow> P (f s r)" and "\<And>s r. s \<in> set p \<Longrightarrow> P r \<Longrightarrow> P (g s r)"
  shows "P r'"
  using assms
proof (induction p arbitrary: node m r)
  case (Cons s p)
  then show ?case by (simp split: if_splits prod.splits)
qed (simp split: if_splits)

lemma climb_map:
  assumes "\<And>s r. k (f s r) = f' s (k r)" and "\<And>s r. k (g s r) = g' s (k r)"
  shows "map_option k (climb f g node m r p) = climb f' g' node m (k r) p"
  by (induction p arbitrary: node m r) (auto simp: assms split: prod.split)

subsection \<open>The verifiers walk with machine words\<close>

lemma and_1_odd: "(x::u64) AND 1 = 1 \<longleftrightarrow> odd (unat x)" "(x::u64) AND 1 = 0 \<longleftrightarrow> even (unat x)"
proof -
  have "even x \<longleftrightarrow> even (unat x)" by transfer (simp add: even_nat_iff)
  then show "x AND 1 = 1 \<longleftrightarrow> odd (unat x)" "x AND 1 = 0 \<longleftrightarrow> even (unat x)"
    by (auto simp: and_one_eq mod_2_eq_odd)
qed

lemma skip_even_strip: "map_prod unat unat (skip_even node lst) = strip (unat node) (unat lst)"
proof (induction node lst rule: skip_even.induct)
  case (1 node lst)
  show ?case
  proof (cases "node AND 1 = 0 \<and> node \<noteq> 0")
    case True
    with "1.IH" show ?thesis
      by (subst skip_even.simps, subst strip.simps) (simp add: and_1_odd unat_half unat_eq_zero)
  next
    case False
    then show ?thesis
      by (subst skip_even.simps, subst strip.simps) (auto simp: and_1_odd unat_eq_zero)
  qed
qed

lemma skip_even_unat: "skip_even node lst = (a, b) \<Longrightarrow> strip (unat node) (unat lst) = (unat a, unat b)"
  by (simp flip: skip_even_strip)

lemma inclusion_loop_climb:
  "(case inclusion_loop sha node lst r p of Inl e \<Rightarrow> None | Inr (l, x) \<Rightarrow> if l = 0 then Some x else None)
    = climb (hashNode sha) (\<lambda>s r. hashNode sha r s) (unat node) (unat lst) r p"
proof (induction p arbitrary: node lst r)
  case (Cons s p)
  have eq: "unat node = unat lst \<longleftrightarrow> node = lst" by (simp add: word_unat_eq_iff)
  show ?case
    by (simp add: and_1_odd eq unat_eq_zero Cons.IH unat_half skip_even_unat split: prod.split)
qed (simp add: unat_eq_zero)

lemma inclusion_loop_error: "inclusion_loop sha node lst r p = Inl e \<Longrightarrow> e = [ErrProof]"
  by (induction p arbitrary: node lst r) (auto split: if_splits prod.splits)

lemma consistency_loop_climb:
  "(case consistency_loop sha node lst x y p of Inl e \<Rightarrow> None | Inr (l, r) \<Rightarrow> if l = 0 then Some r else None)
    = climb (\<lambda>s (x, y). (hashNode sha s x, hashNode sha s y)) (\<lambda>s (x, y). (x, hashNode sha y s))
        (unat node) (unat lst) (x, y) p"
proof (induction p arbitrary: node lst x y)
  case (Cons s p)
  have eq: "unat node = unat lst \<longleftrightarrow> node = lst" by (simp add: word_unat_eq_iff)
  show ?case
    by (simp add: and_1_odd eq unat_eq_zero Cons.IH unat_half skip_even_unat split: prod.split)
qed (simp add: unat_eq_zero)

lemma consistency_loop_error: "consistency_loop sha node lst x y p = Inl e \<Longrightarrow> e = [ErrProof]"
  by (induction p arbitrary: node lst x y) (auto split: if_splits prod.splits)

lemma VerifyInclusion_climb:
  "VerifyInclusion sha index n leaf root p = nil \<longleftrightarrow>
     index < n \<and> climb (hashNode sha) (\<lambda>s r. hashNode sha r s) (unat index) (unat n - 1) leaf p = Some root"
proof (cases "index < n")
  case True
  then have "n \<noteq> 0" by auto
  then have n: "unat (n - 1) = unat n - 1" by (metis unat_minus_one)
  from True inclusion_loop_climb [of sha index "n - 1" leaf p] show ?thesis
    by (auto simp: VerifyInclusion_def n dest: inclusion_loop_error
        split: sum.splits prod.splits if_splits)
qed (simp add: VerifyInclusion_def not_less)

subsection \<open>Inclusion\<close>

lemma inclusion_complete:
  assumes "i < length ls"
  shows "climb (hashNode sha) (\<lambda>s r. hashNode sha r s) i (length ls - 1) (ls ! i) (inclusionPath sha i ls)
    = Some (Root sha ls)"
  using assms
proof (induction sha i ls rule: inclusionPath.induct)
  case (1 sha i ls)
  show ?case
  proof (cases "length ls \<le> 1")
    case True
    with "1.prems" obtain x where "ls = [x]" "i = 0" by (cases ls) auto
    then show ?thesis by (simp add: inclusionPath.simps)
  next
    case False
    then have "2 \<le> length ls" by simp
    then obtain h where h: "splitPoint (length ls) = 2 ^ h" "2 ^ h < length ls" "length ls \<le> 2 ^ Suc h"
      by (rule splitPoint_exists)
    show ?thesis
    proof (cases "i < 2 ^ h")
      case True
      have "climb (hashNode sha) (\<lambda>s r. hashNode sha r s) i (2 ^ h - 1) (ls ! i) (inclusionPath sha i (take (2 ^ h) ls))
        = Some (Root sha (take (2 ^ h) ls))"
        using "1.IH"(1) [OF False h(1) [symmetric]] True h(2) by simp
      then show ?thesis
        using True h False
        by (subst inclusionPath.simps) (simp add: Let_def climb_left [where h = h] Root_split [OF h(2,3)])
    next
      case False
      have "climb (hashNode sha) (\<lambda>s r. hashNode sha r s) (i - 2 ^ h) (length ls - 1 - 2 ^ h) (ls ! i)
          (inclusionPath sha (i - 2 ^ h) (drop (2 ^ h) ls)) = Some (Root sha (drop (2 ^ h) ls))"
        using "1.IH"(2) [OF _ h(1) [symmetric]] False "1.prems" h by simp
      then show ?thesis
        using False h \<open>\<not> length ls \<le> 1\<close> "1.prems"
        by (subst inclusionPath.simps) (simp add: Let_def climb_upper [where h = h] Root_split [OF h(2,3)])
    qed
  qed
qed

text \<open>The inputs hashed for the interior nodes of a tree, and those a verifier hashes on its way.\<close>

function tree_inputs :: "digest \<Rightarrow> bytes list \<Rightarrow> bytes set" where
  "tree_inputs sha ls =
     (if length ls \<le> 1 then {}
      else let split = splitPoint (length ls); l = take split ls; r = drop split ls
        in insert (node_input (Root sha l) (Root sha r)) (tree_inputs sha l \<union> tree_inputs sha r))"
  by pat_completeness auto
termination by (relation "measure (\<lambda>(sha, ls). length ls)") auto

declare tree_inputs.simps [simp del]

lemma tree_inputs_split:
  assumes "2 ^ h < length ls" and "length ls \<le> 2 ^ Suc h"
  shows "tree_inputs sha ls = insert (node_input (Root sha (take (2 ^ h) ls)) (Root sha (drop (2 ^ h) ls)))
    (tree_inputs sha (take (2 ^ h) ls) \<union> tree_inputs sha (drop (2 ^ h) ls))"
proof -
  from assms(1) one_le_power [of "2::nat" h] have "\<not> length ls \<le> 1" by linarith
  then show ?thesis by (subst tree_inputs.simps) (simp add: splitPoint_unique [OF assms] Let_def)
qed

definition logged_left :: "digest \<Rightarrow> bytes \<Rightarrow> bytes \<times> bytes list \<Rightarrow> bytes \<times> bytes list" where
  "logged_left sha s r = (hashNode sha s (fst r), node_input s (fst r) # snd r)"

definition logged_right :: "digest \<Rightarrow> bytes \<Rightarrow> bytes \<times> bytes list \<Rightarrow> bytes \<times> bytes list" where
  "logged_right sha s r = (hashNode sha (fst r) s, node_input (fst r) s # snd r)"

definition inclusion_inputs :: "digest \<Rightarrow> nat \<Rightarrow> nat \<Rightarrow> bytes \<Rightarrow> bytes list \<Rightarrow> bytes set" where
  "inclusion_inputs sha i n leaf p =
     (case climb (logged_left sha) (logged_right sha) i (n - 1) (leaf, []) p of
        None \<Rightarrow> {} | Some (r, log) \<Rightarrow> set log)"

lemma node_input_inject:
  "length a = length b \<or> length s = length t \<Longrightarrow> node_input a s = node_input b t \<longleftrightarrow> a = b \<and> s = t"
  by (auto simp: node_input_def)

lemma hashNode_inject:
  assumes "hashNode sha a s = hashNode sha b t" and "inj_on sha S"
    and "node_input a s \<in> S" and "node_input b t \<in> S"
    and "length a = length b \<or> length s = length t"
  shows "a = b \<and> s = t"
  using assms inj_onD [OF assms(2), of "node_input a s" "node_input b t"]
  unfolding hashNode_def node_input_inject [OF assms(5), symmetric] by blast

lemma split_cases:
  fixes n :: nat
  assumes "0 < n"
  obtains (one) "n = 1" | (split) h where "2 ^ h < n" and "n \<le> 2 ^ Suc h"
proof (cases "n = 1")
  case False
  with assms have "2 \<le> n" by simp
  then show ?thesis by (rule splitPoint_exists) (rule split)
qed (rule one)

lemma inclusion_sound:
  assumes sha: "\<And>x. length (sha x) = HashSize" and "\<forall>l\<in>set ls. length l = HashSize" and "length leaf = HashSize"
    and "climb (logged_left sha) (logged_right sha) i (length ls - 1) (leaf, []) p = Some (Root sha ls, log)"
    and "inj_on sha (tree_inputs sha ls \<union> set log)" and "i < length ls"
  shows "leaf = ls ! i"
  using assms(2-)
proof (induction "length ls" arbitrary: ls i p log rule: less_induct)
  case less
  have hashed: "length x = HashSize"
    if "climb (logged_left sha) (logged_right sha) j m (leaf, []) q = Some (x, log')" for j m q x log'
    using climb_inv [OF that, of "\<lambda>r. length (fst r) = HashSize"] less.prems(2) sha
    by (simp add: logged_left_def logged_right_def hashNode_def)
  from less.prems(5) have "0 < length ls" by linarith
  then show ?case
  proof (cases rule: split_cases)
    case one
    then obtain x where "ls = [x]" by (cases ls) auto
    then show ?thesis using less.prems by (cases p) auto
  next
    case (split h)
    let ?l = "take (2 ^ h) ls" and ?r = "drop (2 ^ h) ls"
    have shorter: "length ?l < length ls" "length ?r < length ls" and
      len: "length (Root sha ?l) = HashSize" "length (Root sha ?r) = HashSize"
      using split sha less.prems(1) by (auto intro!: length_Root dest: in_set_takeD in_set_dropD)
    note tree = Root_split [OF split, of sha] tree_inputs_split [OF split, of sha]
    show ?thesis
    proof (cases "i < 2 ^ h")
      case True
      with less.prems(3) split obtain x log' where
        x: "climb (logged_left sha) (logged_right sha) i (2 ^ h - 1) (leaf, []) (butlast p) = Some (x, log')"
        and top: "logged_right sha (last p) (x, log') = (Root sha ls, log)"
        by (auto simp: climb_left [where h = h] split: if_splits)
      from top tree(1) have "hashNode sha x (last p) = hashNode sha (Root sha ?l) (Root sha ?r)"
        and log: "log = node_input x (last p) # log'"
        by (auto simp: logged_right_def)
      from hashNode_inject [OF this(1) less.prems(4)] hashed [OF x] len log have "x = Root sha ?l"
        by (auto simp: tree(2))
      moreover have "inj_on sha (tree_inputs sha ?l \<union> set log')"
        using less.prems(4) by (rule inj_on_subset) (auto simp: log tree(2))
      ultimately have "leaf = ?l ! i"
        using x True split less.prems(1,2) shorter(1)
        by (intro less.hyps) (auto dest: in_set_takeD)
      then show ?thesis using True by simp
    next
      case False
      with less.prems(3,5) split obtain x log' where
        x: "climb (logged_left sha) (logged_right sha) (i - 2 ^ h) (length ls - 1 - 2 ^ h) (leaf, []) (butlast p) = Some (x, log')"
        and top: "logged_left sha (last p) (x, log') = (Root sha ls, log)"
        by (auto simp: climb_upper [where h = h] split: if_splits)
      from top tree(1) have "hashNode sha (last p) x = hashNode sha (Root sha ?l) (Root sha ?r)"
        and log: "log = node_input (last p) x # log'"
        by (auto simp: logged_left_def)
      from hashNode_inject [OF this(1) less.prems(4)] hashed [OF x] len log have "x = Root sha ?r"
        by (auto simp: tree(2))
      moreover have "inj_on sha (tree_inputs sha ?r \<union> set log')"
        using less.prems(4) by (rule inj_on_subset) (auto simp: log tree(2))
      ultimately have "leaf = ?r ! (i - 2 ^ h)"
        using x False split less.prems(1,2,5) shorter(2)
        by (intro less.hyps) (auto dest: in_set_dropD)
      then show ?thesis using False split by simp
    qed
  qed
qed

end
