(* ===== verification/MerkleConsistency.thy ===== *)
theory MerkleConsistency
  imports MerkleProofs
begin

text \<open>
  Consistency proofs of \<^verbatim>\<open>audit/merkle.go\<close>: the verifier first drops the trailing one bits of
  the index of the last leaf of the smaller tree (\<open>skip_odd\<close>), then climbs with a pair of results. \<open>rise\<close> is
  the two together; \<open>rise_left\<close> and \<open>rise_right\<close> read it from the top of the tree.
\<close>

function trim :: "nat \<Rightarrow> nat \<Rightarrow> nat \<times> nat" where
  "trim node lst = (if odd node then trim (node div 2) (lst div 2) else (node, lst))"
  by pat_completeness auto
termination by (relation "measure fst") (auto simp: odd_pos)

declare trim.simps [simp del]

definition rise ::
  "('n \<Rightarrow> 's \<Rightarrow> 's) \<Rightarrow> ('n \<Rightarrow> 's \<Rightarrow> 's) \<Rightarrow> nat \<Rightarrow> nat \<Rightarrow> 's \<Rightarrow> 'n list \<Rightarrow> 's option" where
  "rise onleft onright m n r p = (case trim (m - 1) (n - 1) of (node, lst) \<Rightarrow> climb onleft onright node lst r p)"

lemma trim_even [simp]: "even node \<Longrightarrow> trim node lst = (node, lst)"
  by (subst trim.simps) auto

lemma trim_odd [simp]: "odd node \<Longrightarrow> trim node lst = trim (node div 2) (lst div 2)"
  by (subst trim.simps) auto

lemma skip_odd_trim: "map_prod unat unat (skip_odd node lst) = trim (unat node) (unat lst)"
proof (induction node lst rule: skip_odd.induct)
  case (1 node lst)
  then show ?case
    by (subst skip_odd.simps) (simp add: and_1_odd unat_half)
qed

lemma trim_ones: "trim (2 ^ h - 1) (2 ^ h - 1) = (0, 0)"
proof (induction h)
  case (Suc h)
  have "(2 ^ Suc h - 1) div 2 = (2 ^ h - 1 :: nat)" by simp
  with Suc show ?case by (subst trim.simps) simp
qed simp

lemma trim_left:
  assumes "node < 2 ^ h" and "2 ^ h \<le> m" and "m < 2 ^ Suc h"
  obtains k a b where "trim node m = (a, b)" and "trim node (2 ^ h - 1) = (a, 2 ^ k - 1)"
    and "a < 2 ^ k" and "2 ^ k \<le> b" and "b < 2 ^ Suc k"
  using assms
proof (induction h arbitrary: node m thesis)
  case (Suc h)
  show ?case
  proof (cases "even node")
    case False
    have half: "(2 ^ Suc h - 1) div 2 = (2 ^ h - 1 :: nat)" by simp
    have "node div 2 < 2 ^ h" "2 ^ h \<le> m div 2" "m div 2 < 2 ^ Suc h"
      using Suc.prems by auto
    from Suc.IH [OF _ this] show ?thesis
      using Suc.prems(1) False half by (metis trim_odd)
  next
    case True
    then show ?thesis using Suc.prems by (intro Suc.prems(1) [of node m "Suc h"]) auto
  qed
next
  case 0
  then show ?case by (intro "0.prems"(1) [of 0 m 0]) auto
qed

lemma trim_right:
  assumes "node < m" and "m < 2 ^ h"
  obtains k a b where "trim node m = (a, b)" and "trim (node + 2 ^ h) (m + 2 ^ h) = (a + 2 ^ k, b + 2 ^ k)"
    and "a \<le> b" and "b < 2 ^ k"
  using assms
proof (induction h arbitrary: node m thesis)
  case (Suc h)
  show ?case
  proof (cases "even node")
    case True
    then show ?thesis using Suc.prems by (intro Suc.prems(1) [of node m "Suc h"]) auto
  next
    case False
    then have "node div 2 < m div 2" "m div 2 < 2 ^ h"
      using Suc.prems by (auto elim!: oddE)
    from Suc.IH [OF _ this] obtain k a b where "trim (node div 2) (m div 2) = (a, b)"
      "trim (node div 2 + 2 ^ h) (m div 2 + 2 ^ h) = (a + 2 ^ k, b + 2 ^ k)" "a \<le> b" "b < 2 ^ k"
      by blast
    then show ?thesis using False by (intro Suc.prems(1) [of a b k]) (auto simp: add.commute)
  qed
qed auto

lemma rise_whole: "rise f g (2 ^ h) (2 ^ h) r p = (if p = [] then Some r else None)"
  by (cases p) (simp_all add: rise_def trim_ones del: One_nat_def)

lemma rise_left:
  assumes "0 < m" and "m \<le> 2 ^ h" and "2 ^ h < n" and "n \<le> 2 ^ Suc h"
  shows "rise f g m n r p =
    (if p = [] then None else map_option (g (last p)) (rise f g m (2 ^ h) r (butlast p)))"
proof -
  obtain k a b where "trim (m - 1) (n - 1) = (a, b)" "trim (m - 1) (2 ^ h - 1) = (a, 2 ^ k - 1)"
    "a < 2 ^ k" "2 ^ k \<le> b" "b < 2 ^ Suc k"
    by (rule trim_left [of "m - 1" h "n - 1"]) (use assms in auto)
  then show ?thesis unfolding rise_def by (simp add: climb_left [where h = k])
qed

lemma rise_right:
  assumes "2 ^ h < m" and "m < n" and "n \<le> 2 ^ Suc h"
  shows "rise f g m n r p =
    (if p = [] then None else map_option (f (last p)) (rise f g (m - 2 ^ h) (n - 2 ^ h) r (butlast p)))"
proof -
  let ?m = "m - 2 ^ h - 1" and ?n = "n - 2 ^ h - 1"
  have shift: "m - 1 = ?m + 2 ^ h" "n - 1 = ?n + 2 ^ h" using assms by auto
  obtain k a b where "trim ?m ?n = (a, b)" "trim (?m + 2 ^ h) (?n + 2 ^ h) = (a + 2 ^ k, b + 2 ^ k)"
    "a \<le> b" "b < 2 ^ k"
    by (rule trim_right [of ?m ?n h]) (use assms in auto)
  then show ?thesis unfolding rise_def shift [symmetric] by (simp add: climb_right)
qed

subsection \<open>Powers of two\<close>

definition power_of_two :: "nat \<Rightarrow> bool" where
  "power_of_two m \<longleftrightarrow> m AND (m - 1) = 0"

lemma power_of_two_iff: "0 < m \<Longrightarrow> power_of_two m \<longleftrightarrow> (\<exists>h. m = 2 ^ h)"
proof (induction m rule: bit_length.induct)
  case (1 m)
  show ?case
  proof (cases "even m")
    case True
    then obtain a where a: "m = 2 * a" by blast
    with "1.prems" have "0 < a" by simp
    then have "(2 * a - Suc 0) div 2 = a - Suc 0" by presburger
    then have "m AND (m - 1) = 2 * (a AND (a - 1))"
      using a \<open>0 < a\<close> by (subst and_rec) auto
    moreover have "power_of_two a \<longleftrightarrow> (\<exists>h. a = 2 ^ h)"
      using "1.IH" "1.prems" a \<open>0 < a\<close> by simp
    moreover have "(\<exists>h. m = 2 ^ h) \<longleftrightarrow> (\<exists>h. a = 2 ^ h)"
    proof
      assume "\<exists>h. m = 2 ^ h"
      then obtain h where "m = 2 ^ h" ..
      with True obtain k where "m = 2 ^ Suc k" by (cases h) auto
      with a show "\<exists>h. a = 2 ^ h" by auto
    qed (use a in \<open>metis power_Suc\<close>)
    ultimately show ?thesis by (simp add: power_of_two_def)
  next
    case False
    then obtain a where a: "m = Suc (2 * a)" by (metis oddE Suc_eq_plus1)
    then have "m AND (m - 1) = 2 * a" by (subst and_rec) auto
    moreover have "(\<exists>h. m = 2 ^ h) \<longleftrightarrow> a = 0"
    proof
      assume "\<exists>h. m = 2 ^ h"
      then obtain h where "m = 2 ^ h" ..
      with False have "h = 0" by (metis even_power even_numeral gr0I)
      with a \<open>m = 2 ^ h\<close> show "a = 0" by simp
    qed (use a in \<open>auto intro: exI [of _ 0]\<close>)
    ultimately show ?thesis by (simp add: power_of_two_def)
  qed
qed

lemma power_of_two_word: "(x::u64) \<noteq> 0 \<Longrightarrow> x AND (x - 1) = 0 \<longleftrightarrow> power_of_two (unat x)"
  unfolding power_of_two_def word_unat_eq_iff [of "x AND (x - 1)"]
  by (simp add: unsigned_and_eq unat_minus_one)

lemma rise_power: "power_of_two n \<Longrightarrow> 0 < n \<Longrightarrow> rise f g n n r p = (if p = [] then Some r else None)"
  by (auto simp: power_of_two_iff rise_whole)

lemma not_power_between:
  assumes "2 ^ h < m" and "m < 2 ^ Suc h"
  shows "\<not> power_of_two m"
proof
  assume "power_of_two m"
  then obtain k where "m = 2 ^ k" using assms power_of_two_iff [of m] by auto
  with assms have "h < k" "k < Suc h"
    by (simp_all only: power_strict_increasing_iff one_less_numeral_iff semiring_norm)
  then show False by simp
qed

subsection \<open>Completeness\<close>

abbreviation both_left :: "digest \<Rightarrow> bytes \<Rightarrow> bytes \<times> bytes \<Rightarrow> bytes \<times> bytes" where
  "both_left sha \<equiv> \<lambda>s (x, y). (hashNode sha s x, hashNode sha s y)"

abbreviation second_right :: "digest \<Rightarrow> bytes \<Rightarrow> bytes \<times> bytes \<Rightarrow> bytes \<times> bytes" where
  "second_right sha \<equiv> \<lambda>s (x, y). (x, hashNode sha y s)"

text \<open>The path the verifier walks: the proof, after the first root when the verifier already holds it.\<close>

definition seeded :: "bool \<Rightarrow> nat \<Rightarrow> bytes \<Rightarrow> bytes list \<Rightarrow> bytes list" where
  "seeded complete m r p = (if complete \<and> power_of_two m then r # p else p)"

lemma seeded_snoc: "seeded c m r (p @ [s]) = seeded c m r p @ [s]"
  by (simp add: seeded_def)

lemma consistency_complete:
  assumes "0 < m" and "m \<le> length ls" and "m = length ls \<Longrightarrow> power_of_two m"
  shows "\<exists>p x q. consistencyPath sha m ls complete = Some p
    \<and> seeded complete m (Root sha (take m ls)) p = x # q
    \<and> rise (both_left sha) (second_right sha) m (length ls) (x, x) q = Some (Root sha (take m ls), Root sha ls)"
  using assms
proof (induction "length ls" arbitrary: ls m complete rule: less_induct)
  case less
  show ?case
  proof (cases "m = length ls")
    case True
    then show ?thesis
      using less.prems(1,3) by (subst consistencyPath.simps) (auto simp: seeded_def rise_power)
  next
    case False
    with less.prems have m: "m < length ls" and "2 \<le> length ls" by auto
    from this(2) obtain h where h: "splitPoint (length ls) = 2 ^ h" "2 ^ h < length ls" "length ls \<le> 2 ^ Suc h"
      by (rule splitPoint_exists)
    let ?l = "take (2 ^ h) ls" and ?r = "drop (2 ^ h) ls"
    show ?thesis
    proof (cases "m \<le> 2 ^ h")
      case True
      have "\<exists>p x q. consistencyPath sha m ?l complete = Some p
        \<and> seeded complete m (Root sha (take m ?l)) p = x # q
        \<and> rise (both_left sha) (second_right sha) m (length ?l) (x, x) q = Some (Root sha (take m ?l), Root sha ?l)"
        using h True less.prems by (intro less.hyps) (auto simp: power_of_two_iff)
      then obtain p x q where "consistencyPath sha m ?l complete = Some p"
        "seeded complete m (Root sha (take m ls)) p = x # q"
        "rise (both_left sha) (second_right sha) m (2 ^ h) (x, x) q = Some (Root sha (take m ls), Root sha ?l)"
        using True h by (auto simp: min_def)
      then show ?thesis
        using True False h less.prems(1)
        by (subst consistencyPath.simps)
          (simp add: seeded_snoc rise_left [OF less.prems(1) True h(2,3)] Root_split [OF h(2,3)])
    next
      case upper: False
      have "\<exists>p x q. consistencyPath sha (m - 2 ^ h) ?r False = Some p
        \<and> seeded False (m - 2 ^ h) (Root sha (take (m - 2 ^ h) ?r)) p = x # q
        \<and> rise (both_left sha) (second_right sha) (m - 2 ^ h) (length ?r) (x, x) q
            = Some (Root sha (take (m - 2 ^ h) ?r), Root sha ?r)"
        using h upper m by (intro less.hyps) auto
      then obtain x q where sub: "consistencyPath sha (m - 2 ^ h) ?r False = Some (x # q)"
        "rise (both_left sha) (second_right sha) (m - 2 ^ h) (length ls - 2 ^ h) (x, x) q
            = Some (Root sha (take (m - 2 ^ h) ?r), Root sha ?r)"
        by (auto simp: seeded_def)
      have "take m ls = ?l @ take (m - 2 ^ h) ?r"
        using upper by (metis le_add_diff_inverse nat_le_linear take_add)
      then have "Root sha (take m ls) = hashNode sha (Root sha ?l) (Root sha (take (m - 2 ^ h) ?r))"
        using upper h m by (simp add: Root_append [where h = h])
      moreover have "\<not> power_of_two m" using upper h m by (intro not_power_between [of h]) auto
      ultimately show ?thesis
        using sub upper False h m
        by (subst consistencyPath.simps)
          (simp add: seeded_def rise_right [of h m "length ls"] Root_split [OF h(2,3)])
    qed
  qed
qed

subsection \<open>Soundness\<close>

text \<open>The walk that keeps what it hashes for the second root.\<close>

definition logged_both ::
  "digest \<Rightarrow> bytes \<Rightarrow> (bytes \<times> bytes) \<times> bytes list \<Rightarrow> (bytes \<times> bytes) \<times> bytes list" where
  "logged_both sha s r = (both_left sha s (fst r), node_input s (snd (fst r)) # snd r)"

definition logged_second ::
  "digest \<Rightarrow> bytes \<Rightarrow> (bytes \<times> bytes) \<times> bytes list \<Rightarrow> (bytes \<times> bytes) \<times> bytes list" where
  "logged_second sha s r = (second_right sha s (fst r), node_input (snd (fst r)) s # snd r)"

lemma consistency_sound:
  assumes sha: "\<And>x. length (sha x) = HashSize" and "\<forall>l\<in>set ls. length l = HashSize"
    and "\<forall>s\<in>set p. length s = HashSize"
    and "rise (logged_both sha) (logged_second sha) m (length ls) ((x, x), []) p = Some ((y, Root sha ls), log)"
    and "inj_on sha (tree_inputs sha ls \<union> set log)"
    and "0 < m" and "m \<le> length ls" and "m = length ls \<Longrightarrow> power_of_two m"
  shows "y = Root sha (take m ls)"
  using assms(2-)
proof (induction "length ls" arbitrary: ls m p y log rule: less_induct)
  case less
  show ?case
  proof (cases "m = length ls")
    case True
    with less.prems(3,5,7) show ?thesis by (auto simp: rise_power split: if_splits)
  next
    case False
    with less.prems have m: "m < length ls" and "2 \<le> length ls" by auto
    from this(2) obtain h where h: "2 ^ h < length ls" "length ls \<le> 2 ^ Suc h"
      by (rule splitPoint_exists)
    let ?l = "take (2 ^ h) ls" and ?r = "drop (2 ^ h) ls"
    have shorter: "length ?l < length ls" "length ?r < length ls" and
      len: "length (Root sha ?l) = HashSize" "length (Root sha ?r) = HashSize"
      using h sha less.prems(1) by (auto intro!: length_Root dest: in_set_takeD in_set_dropD)
    have siblings: "p \<noteq> [] \<Longrightarrow> length (last p) = HashSize" "\<forall>s\<in>set (butlast p). length s = HashSize"
      using less.prems(2) by (auto dest: in_set_butlastD)
    note tree = Root_split [OF h, of sha] tree_inputs_split [OF h, of sha]
    show ?thesis
    proof (cases "m \<le> 2 ^ h")
      case True
      with less.prems(3,5) h obtain u v log' where p: "p \<noteq> []" and
        sub: "rise (logged_both sha) (logged_second sha) m (2 ^ h) ((x, x), []) (butlast p) = Some ((u, v), log')"
        and top: "logged_second sha (last p) ((u, v), log') = ((y, Root sha ls), log)"
        by (auto simp: rise_left [where h = h] split: if_splits)
      from top tree(1) have "hashNode sha v (last p) = hashNode sha (Root sha ?l) (Root sha ?r)"
        and log: "log = node_input v (last p) # log'" and y: "y = u"
        by (auto simp: logged_second_def)
      from hashNode_inject [OF this(1) less.prems(4)] siblings(1) [OF p] len log have "v = Root sha ?l"
        by (auto simp: tree(2))
      moreover have "inj_on sha (tree_inputs sha ?l \<union> set log')"
        using less.prems(4) by (rule inj_on_subset) (auto simp: log tree(2))
      ultimately have "u = Root sha (take m ?l)"
        using sub True h less.prems(1,5) shorter(1) siblings(2)
        by (intro less.hyps) (auto simp: power_of_two_iff dest: in_set_takeD)
      then show ?thesis using True y by (simp add: min_def)
    next
      case upper: False
      with less.prems(3) h m obtain u v log' where p: "p \<noteq> []" and
        sub: "rise (logged_both sha) (logged_second sha) (m - 2 ^ h) (length ls - 2 ^ h) ((x, x), []) (butlast p)
          = Some ((u, v), log')"
        and top: "logged_both sha (last p) ((u, v), log') = ((y, Root sha ls), log)"
        by (auto simp: rise_right [where h = h] split: if_splits)
      from top tree(1) have "hashNode sha (last p) v = hashNode sha (Root sha ?l) (Root sha ?r)"
        and log: "log = node_input (last p) v # log'" and y: "y = hashNode sha (last p) u"
        by (auto simp: logged_both_def)
      from hashNode_inject [OF this(1) less.prems(4)] siblings(1) [OF p] len log
      have v: "v = Root sha ?r" and s: "last p = Root sha ?l"
        by (auto simp: tree(2))
      have "inj_on sha (tree_inputs sha ?r \<union> set log')"
        using less.prems(4) by (rule inj_on_subset) (auto simp: log tree(2))
      with v have "u = Root sha (take (m - 2 ^ h) ?r)"
        using sub upper h m less.prems(1) shorter(2) siblings(2)
        by (intro less.hyps) (auto dest: in_set_dropD)
      moreover have "take m ls = ?l @ take (m - 2 ^ h) ?r"
        using upper by (metis le_add_diff_inverse nat_le_linear take_add)
      ultimately show ?thesis
        using upper h m y s by (simp add: Root_append [where h = h])
    qed
  qed
qed

end
