(* ===== verification/MerkleSafety.thy ===== *)
theory MerkleSafety
  imports MerkleConsistency
begin

text \<open>
  The promises of \<^verbatim>\<open>audit/merkle.go\<close>, over the code's own definitions, and their witnesses
  on a small hash function.
\<close>

fun append_all :: "digest \<Rightarrow> tree \<Rightarrow> bytes list \<Rightarrow> tree outcome" where
  "append_all sha t [] = Returned t"
| "append_all sha t (l # ls) =
     (case tree_Append sha t l of Panicked \<Rightarrow> Panicked | Returned t' \<Rightarrow> append_all sha t' ls)"

definition holds_leaves :: "digest \<Rightarrow> bytes list \<Rightarrow> tree \<Rightarrow> bool" where
  "holds_leaves sha ls t \<longleftrightarrow> t_size t = of_nat (length ls)
     \<and> stacked sha 0 (length ls) ls (rev (t_subtrees t))"

lemma unat_of_length: "length ls < 2 ^ 64 \<Longrightarrow> unat (of_nat (length ls) :: u64) = length ls"
  by (simp add: unat_of_nat)

lemma append_holds:
  assumes "holds_leaves sha ls t" and "length ls + 1 < 2 ^ 64"
  obtains t' where "tree_Append sha t l = Returned t'" and "holds_leaves sha (ls @ [l]) t'"
proof -
  from assms have t: "t_size t = of_nat (length ls)" "stacked sha 0 (length ls) ls (rev (t_subtrees t))"
    by (auto simp: holds_leaves_def)
  from stacked_push [OF t(2), of "[l]"] obtain rs where
    rs: "stacked sha 0 (Suc (length ls)) (ls @ [l]) rs"
      "merge_subtrees sha (ones_count (Suc (length ls))) (t_subtrees t @ [l]) = Returned (rev rs)"
    by auto
  have size: "t_size t + 1 = of_nat (length (ls @ [l]))" using t(1) by simp
  then have "OnesCount64 (t_size t + 1) = ones_count (length (ls @ [l]))"
    unfolding OnesCount64_def by (metis unat_of_length assms(2) length_append_singleton Suc_eq_plus1)
  with rs(2) have "tree_Append sha t l = Returned \<lparr>t_size = t_size t + 1, t_subtrees = rev rs\<rparr>"
    by (simp only: tree_Append_def Let_def length_append_singleton outcome.case)
  moreover have "holds_leaves sha (ls @ [l]) \<lparr>t_size = t_size t + 1, t_subtrees = rev rs\<rparr>"
    unfolding holds_leaves_def size using rs(1) by simp
  ultimately show ?thesis by (rule that)
qed

lemma append_all_holds:
  assumes "holds_leaves sha ls t" and "length ls + length ls' < 2 ^ 64"
  shows "\<exists>t'. append_all sha t ls' = Returned t' \<and> holds_leaves sha (ls @ ls') t'"
  using assms
proof (induction ls' arbitrary: ls t)
  case (Cons l ls')
  from Cons.prems(2) have "length ls + 1 < 2 ^ 64" and size: "length (ls @ [l]) + length ls' < 2 ^ 64"
    by simp_all
  from append_holds [OF Cons.prems(1) this(1)] obtain t' where
    "tree_Append sha t l = Returned t'" "holds_leaves sha (ls @ [l]) t'" .
  with Cons.IH [OF _ size, of t'] show ?case by simp
qed simp

lemma holds_root:
  assumes "holds_leaves sha ls t" and "length ls < 2 ^ 64"
  shows "tree_Root sha t = Returned (Root sha ls)" and "length (t_subtrees t) = OnesCount64 (t_size t)"
proof -
  note t = assms(1) [unfolded holds_leaves_def]
  show "length (t_subtrees t) = OnesCount64 (t_size t)"
    using stacked_length [of sha 0 "length ls" ls "rev (t_subtrees t)"] t unat_of_length [OF assms(2)]
    by (simp add: OnesCount64_def)
  show "tree_Root sha t = Returned (Root sha ls)"
  proof (cases "ls = []")
    case True
    then show ?thesis using t by (simp add: tree_Root_def Root.simps)
  next
    case False
    then have "t_size t \<noteq> 0" using t unat_of_length [OF assms(2)] by (metis length_0_conv unat_0)
    with t False stacked_root [of sha 0 "length ls" ls "rev (t_subtrees t)"] show ?thesis
      by (simp add: tree_Root_def)
  qed
qed

lemma bit_length_0: "bit_length 0 = 0"
  by (subst bit_length.simps) simp

lemma path_length: "length ls \<le> 2 ^ h \<Longrightarrow> length (inclusionPath sha i ls) \<le> h"
proof (induction sha i ls arbitrary: h rule: inclusionPath.induct)
  case (1 sha i ls)
  show ?case
  proof (cases "length ls \<le> 1")
    case False
    then have "2 \<le> length ls" by simp
    then obtain k where k: "splitPoint (length ls) = 2 ^ k" "2 ^ k < length ls" "length ls \<le> 2 ^ Suc k"
      by (rule splitPoint_exists)
    from k(2) "1.prems" have "(2::nat) ^ k < 2 ^ h" by linarith
    then have "Suc k \<le> h" by simp
    moreover have "length (take (2 ^ k) ls) \<le> 2 ^ k" "length (drop (2 ^ k) ls) \<le> 2 ^ k" using k by auto
    ultimately show ?thesis
      using False "1.IH"(1) [OF False k(1) [symmetric], of k] "1.IH"(2) [OF False k(1) [symmetric], of k] k(1)
      by (subst inclusionPath.simps) (auto simp: Let_def)
  qed (simp add: inclusionPath.simps)
qed

lemma VerifyConsistency_rise:
  assumes "first \<noteq> 0" and "first < second"
  shows "VerifyConsistency sha first second firstRoot secondRoot p = nil \<longleftrightarrow>
    (\<exists>x q. seeded True (unat first) firstRoot p = x # q
      \<and> rise (both_left sha) (second_right sha) (unat first) (unat second) (x, x) q = Some (firstRoot, secondRoot))"
proof -
  have nz: "second \<noteq> 0" "first \<noteq> second" "\<not> second < first" using assms by auto
  obtain node lst where w: "skip_odd (first - 1) (second - 1) = (node, lst)" by (cases "skip_odd (first - 1) (second - 1)")
  with skip_odd_trim [of "first - 1" "second - 1"]
  have trim: "trim (unat first - 1) (unat second - 1) = (unat node, unat lst)"
    using assms(1) nz(1) by (simp add: unat_minus_one)
  have path: "(if first AND first - 1 = 0 then firstRoot # p else p) = seeded True (unat first) firstRoot p"
    by (simp add: seeded_def power_of_two_word [OF assms(1)])
  show ?thesis
  proof (cases "seeded True (unat first) firstRoot p")
    case Nil
    then show ?thesis using assms nz path by (simp add: VerifyConsistency_def)
  next
    case (Cons x q)
    then have "VerifyConsistency sha first second firstRoot secondRoot p =
      (case consistency_loop sha node lst x x q of Inl err \<Rightarrow> err
       | Inr (lst, firstResult, secondResult) \<Rightarrow>
           if lst \<noteq> 0 then [ErrProof] else if firstResult \<noteq> firstRoot then [ErrProof]
           else if secondResult \<noteq> secondRoot then [ErrProof] else nil)"
      unfolding VerifyConsistency_def Let_def path w by (simp add: assms(1) nz)
    moreover have "rise (both_left sha) (second_right sha) (unat first) (unat second) (x, x) q
      = (case consistency_loop sha node lst x x q of Inl e \<Rightarrow> None | Inr (l, r) \<Rightarrow> if l = 0 then Some r else None)"
      unfolding rise_def trim by (simp add: consistency_loop_climb)
    ultimately show ?thesis
      using Cons consistency_loop_error [of sha node lst x x q]
      by (auto split: sum.splits prod.splits if_splits)
  qed
qed

lemma rise_map:
  assumes "\<And>s r. k (f s r) = f' s (k r)" and "\<And>s r. k (g s r) = g' s (k r)"
  shows "map_option k (rise f g m n r p) = rise f' g' m n (k r) p"
  unfolding rise_def by (cases "trim (m - 1) (n - 1)") (simp, rule climb_map, rule assms, rule assms)

definition consistency_inputs :: "digest \<Rightarrow> nat \<Rightarrow> nat \<Rightarrow> bytes list \<Rightarrow> bytes set" where
  "consistency_inputs sha m n path =
     (case path of [] \<Rightarrow> {}
      | x # q \<Rightarrow> (case rise (logged_both sha) (logged_second sha) m n ((x, x), []) q of
          None \<Rightarrow> {} | Some (r, log) \<Rightarrow> set log))"

text \<open>
  C25. The incremental tree of the recorder never panics while fewer than \<open>2 ^ 64\<close> leaves are
  appended, keeps exactly one hash per set bit of the number of leaves, and its \<open>Root\<close> is the recursive
  RFC 6962 root of all the leaves appended.
\<close>

theorem incremental_tree_is_root:
  assumes "length leaves < 2 ^ 64"
  shows "\<exists>t. append_all sha empty_tree leaves = Returned t
    \<and> tree_Size t = of_nat (length leaves)
    \<and> length (t_subtrees t) = OnesCount64 (tree_Size t)
    \<and> tree_Root sha t = Returned (Root sha leaves)"
proof -
  have "holds_leaves sha [] empty_tree"
    by (simp add: holds_leaves_def empty_tree_def stacked.none)
  from append_all_holds [OF this, of leaves] assms obtain t where
    "append_all sha empty_tree leaves = Returned t" "holds_leaves sha leaves t" by auto
  with holds_root [OF this(2) assms] show ?thesis
    by (auto simp: tree_Size_def holds_leaves_def)
qed

text \<open>
  C23. Every inclusion proof the code produces is accepted by \<open>VerifyInclusion\<close> against the root of the
  tree, and has at most \<open>bits.Len64 (n - 1)\<close> hashes; outside the tree the prover and the verifier both
  return \<open>ErrProof\<close>.
\<close>

theorem inclusion_proof_verifies:
  assumes "length leaves < 2 ^ 64"
  shows "if i < length leaves
    then \<exists>p. InclusionProof sha i leaves = Inr p
      \<and> VerifyInclusion sha (of_nat i) (of_nat (length leaves)) (leaves ! i) (Root sha leaves) p = nil
      \<and> length p \<le> bit_length (length leaves - 1)
    else InclusionProof sha i leaves = Inl [ErrProof]"
proof (cases "i < length leaves")
  case True
  with assms have n: "unat (of_nat i :: u64) = i" "unat (of_nat (length leaves) :: u64) = length leaves"
    by (simp_all add: unat_of_nat)
  have "length leaves \<le> 2 ^ bit_length (length leaves - 1)"
    using bit_length_bounds [of "length leaves - 1"] by (cases "length leaves - 1 = 0") (auto simp: bit_length_0)
  then have "length (inclusionPath sha i leaves) \<le> bit_length (length leaves - 1)"
    by (rule path_length)
  with True n inclusion_complete [OF True, of sha] show ?thesis
    by (simp add: InclusionProof_def VerifyInclusion_climb word_less_nat_alt)
qed (simp add: InclusionProof_def)

text \<open>
  C24. \<open>VerifyInclusion\<close> accepts only the record that is in the tree: if SHA-256 does not collide
  on the inputs that were hashed for the records and the tree and by the verifier, then a record whose
  leaf hash verifies at index \<open>i\<close> against the root of \<open>records\<close> is \<open>records ! i\<close>, whatever the proof.
\<close>

theorem inclusion_verifier_sound:
  assumes "\<And>x. length (sha x) = HashSize"
    and "length records < 2 ^ 64"
    and "VerifyInclusion sha index (of_nat (length records)) (HashLeaf sha rec)
           (Root sha (map (HashLeaf sha) records)) p = nil"
    and "inj_on sha (Cons leafPrefix ` set (rec # records)
           \<union> tree_inputs sha (map (HashLeaf sha) records)
           \<union> inclusion_inputs sha (unat index) (length records) (HashLeaf sha rec) p)"
  shows "unat index < length records \<and> rec = records ! unat index"
proof -
  let ?leaves = "map (HashLeaf sha) records"
  from assms(2,3) have i: "unat index < length records"
    and "climb (hashNode sha) (\<lambda>s r. hashNode sha r s) (unat index) (length records - 1) (HashLeaf sha rec) p
      = Some (Root sha ?leaves)"
    by (simp_all add: VerifyInclusion_climb word_less_nat_alt unat_of_nat)
  moreover have "map_option fst (climb (logged_left sha) (logged_right sha) (unat index) (length records - 1)
      (HashLeaf sha rec, []) p)
    = climb (hashNode sha) (\<lambda>s r. hashNode sha r s) (unat index) (length records - 1) (HashLeaf sha rec) p"
    by (subst climb_map [where f' = "hashNode sha" and g' = "\<lambda>s r. hashNode sha r s"])
      (simp_all add: logged_left_def logged_right_def)
  ultimately obtain log where log: "climb (logged_left sha) (logged_right sha) (unat index)
      (length ?leaves - 1) (HashLeaf sha rec, []) p = Some (Root sha ?leaves, log)"
    by auto
  then have "inclusion_inputs sha (unat index) (length records) (HashLeaf sha rec) p = set log"
    by (simp add: inclusion_inputs_def)
  with assms(4) have inj: "inj_on sha (tree_inputs sha ?leaves \<union> set log)"
    "inj_on sha (Cons leafPrefix ` set (rec # records))"
    by (auto elim: inj_on_subset)
  from inclusion_sound [OF assms(1) _ _ log inj(1)] i have "HashLeaf sha rec = ?leaves ! unat index"
    by (simp add: HashLeaf_def assms(1))
  then have "sha (leafPrefix # rec) = sha (leafPrefix # records ! unat index)"
    using i by (simp add: HashLeaf_def)
  from inj_onD [OF inj(2) this] i show ?thesis by auto
qed

text \<open>
  C26. The consistency prover returns for every earlier size of the log, and \<open>VerifyConsistency\<close> accepts
  its proof for the roots of the prefix and of the whole log; for the sizes zero and beyond the log it
  returns \<open>ErrProof\<close>.
\<close>

theorem consistency_proof_verifies:
  assumes "length leaves < 2 ^ 64"
  shows "if 0 < m \<and> m \<le> length leaves
    then \<exists>p. ConsistencyProof sha m leaves = Some (Inr p)
      \<and> VerifyConsistency sha (of_nat m) (of_nat (length leaves)) (Root sha (take m leaves)) (Root sha leaves) p = nil
    else ConsistencyProof sha m leaves = Some (Inl [ErrProof])"
proof (cases "0 < m \<and> m \<le> length leaves")
  case True
  with assms have n: "unat (of_nat m :: u64) = m" "unat (of_nat (length leaves) :: u64) = length leaves"
    by (simp_all add: unat_of_nat)
  show ?thesis
  proof (cases "m = length leaves")
    case same: True
    from True n(1) have "(of_nat m :: u64) \<noteq> 0" by (metis gr_implies_not0 unat_0)
    with True same show ?thesis
      by (subst (1) ConsistencyProof_def, subst consistencyPath.simps) (simp add: VerifyConsistency_def)
  next
    case False
    from True n(1) have nz: "(of_nat m :: u64) \<noteq> 0" by (metis gr_implies_not0 unat_0)
    have less: "(of_nat m :: u64) < of_nat (length leaves)"
      using True False n by (simp add: word_less_nat_alt)
    from consistency_complete [of m leaves sha True] True False obtain p x q where
      "consistencyPath sha m leaves True = Some p" "seeded True m (Root sha (take m leaves)) p = x # q"
      "rise (both_left sha) (second_right sha) m (length leaves) (x, x) q
        = Some (Root sha (take m leaves), Root sha leaves)"
      by auto
    with True n VerifyConsistency_rise [OF nz less] show ?thesis
      by (simp add: ConsistencyProof_def)
  qed
qed (auto simp: ConsistencyProof_def)


text \<open>
  \<open>HashSize\<close> is never checked: whatever the hash function, the verifier accepts for the tree of two leaves \<open>a\<close>
  and \<open>b\<close> the longer string \<open>a @ take k b\<close> at index 0, with the rest of \<open>b\<close> as its proof.
\<close>

lemma hash_length_unchecked:
  "VerifyInclusion sha 0 2 (a @ take k b) (Root sha [a, b]) [drop k b] = nil"
proof -
  have "Root sha ([a] @ [b]) = hashNode sha (Root sha [a]) (Root sha [b])"
    by (rule Root_append [where h = 0]) simp_all
  then show ?thesis
    by (simp add: VerifyInclusion_climb hashNode_def node_input_def)
qed

subsection \<open>Witnesses\<close>

definition toy_sha :: digest where
  "toy_sha x = replicate 31 0 @ [fold (\<lambda>b acc. 31 * acc + b) x 7]"

definition toy_records :: "bytes list" where
  "toy_records = [[1], [2], [3], [4], [5]]"

definition toy_leaves :: "bytes list" where
  "toy_leaves = map (HashLeaf toy_sha) toy_records"

definition toy_path :: "bytes list" where
  "toy_path = inclusionPath toy_sha 2 toy_leaves"

definition toy_consistency :: "bytes list" where
  "toy_consistency = (case consistencyPath toy_sha 3 toy_leaves True of Some p \<Rightarrow> p | None \<Rightarrow> [])"

lemma toy_size: "length (toy_sha x) = HashSize"
  by (simp add: toy_sha_def HashSize_def)

lemma inj_on_list: "distinct (map f xs) \<Longrightarrow> S \<subseteq> set xs \<Longrightarrow> inj_on f S"
  by (auto simp: distinct_map intro: inj_on_subset)

text \<open>The inputs of the witnesses, as lists.\<close>

fun tree_input_list :: "digest \<Rightarrow> nat \<Rightarrow> bytes list \<Rightarrow> bytes list" where
  "tree_input_list sha 0 ls = []"
| "tree_input_list sha (Suc n) ls = (if length ls \<le> 1 then []
     else node_input (Root sha (take (splitPoint (length ls)) ls)) (Root sha (drop (splitPoint (length ls)) ls))
       # tree_input_list sha n (take (splitPoint (length ls)) ls)
       @ tree_input_list sha n (drop (splitPoint (length ls)) ls))"

lemma tree_input_list: "length ls \<le> n \<Longrightarrow> tree_inputs sha ls = set (tree_input_list sha n ls)"
proof (induction n arbitrary: ls)
  case (Suc n)
  have "length (take (splitPoint (length ls)) ls) \<le> n" "length (drop (splitPoint (length ls)) ls) \<le> n"
    if "\<not> length ls \<le> Suc 0"
    using splitPoint_shrinks [OF that] Suc.prems by auto
  then show ?case
    by (subst tree_inputs.simps) (simp add: Suc.IH Let_def)
qed (simp add: tree_inputs.simps)

definition toy_inputs :: "bytes list" where
  "toy_inputs = remdups (map (Cons leafPrefix) toy_records @ tree_input_list toy_sha 5 toy_leaves)"

theorem incremental_tree_is_root_witness:
  "\<exists>t. append_all toy_sha empty_tree toy_leaves = Returned t \<and> tree_Size t = of_nat (length toy_leaves)
    \<and> length (t_subtrees t) = OnesCount64 (tree_Size t) \<and> tree_Root toy_sha t = Returned (Root toy_sha toy_leaves)"
  by (rule incremental_tree_is_root) (simp add: toy_leaves_def toy_records_def)

theorem inclusion_proof_verifies_witness:
  "if 2 < length toy_leaves
    then \<exists>p. InclusionProof toy_sha 2 toy_leaves = Inr p
      \<and> VerifyInclusion toy_sha (of_nat 2) (of_nat (length toy_leaves)) (toy_leaves ! 2) (Root toy_sha toy_leaves) p = nil
      \<and> length p \<le> bit_length (length toy_leaves - 1)
    else InclusionProof toy_sha 2 toy_leaves = Inl [ErrProof]"
  by (rule inclusion_proof_verifies) (simp add: toy_leaves_def toy_records_def)

theorem consistency_proof_verifies_witness:
  "if 0 < (3::nat) \<and> 3 \<le> length toy_leaves
    then \<exists>p. ConsistencyProof toy_sha 3 toy_leaves = Some (Inr p)
      \<and> VerifyConsistency toy_sha (of_nat 3) (of_nat (length toy_leaves))
          (Root toy_sha (take 3 toy_leaves)) (Root toy_sha toy_leaves) p = nil
    else ConsistencyProof toy_sha 3 toy_leaves = Some (Inl [ErrProof])"
  by (rule consistency_proof_verifies) (simp add: toy_leaves_def toy_records_def)

lemma toy_distinct: "distinct (map toy_sha toy_inputs)"
  by code_simp

lemma toy_accepted:
  "VerifyInclusion toy_sha 2 5 (HashLeaf toy_sha [3]) (Root toy_sha toy_leaves) toy_path = nil"
  by code_simp

lemma toy_consistent:
  "VerifyConsistency toy_sha 3 5 (Root toy_sha (take 3 toy_leaves)) (Root toy_sha toy_leaves) toy_consistency = nil"
  by code_simp

lemma toy_path_inputs:
  "inclusion_inputs toy_sha 2 5 (HashLeaf toy_sha [3]) toy_path \<subseteq> set toy_inputs"
  by code_simp

lemma toy_consistency_inputs:
  "consistency_inputs toy_sha 3 5 (seeded True 3 (Root toy_sha (take 3 toy_leaves)) toy_consistency) \<subseteq> set toy_inputs"
  by code_simp

lemma toy_tree_inputs: "tree_inputs toy_sha toy_leaves \<subseteq> set toy_inputs"
proof -
  have "length toy_leaves \<le> 5" by (simp add: toy_leaves_def toy_records_def)
  then show ?thesis by (simp add: tree_input_list toy_inputs_def)
qed

lemma toy_record_inputs: "Cons leafPrefix ` set toy_records \<subseteq> set toy_inputs"
  by (simp add: toy_inputs_def)

lemma toy_proof_sizes: "\<forall>s\<in>set toy_consistency. length s = HashSize"
  by code_simp

theorem inclusion_verifier_sound_witness:
  "unat (2::u64) < length toy_records \<and> [3] = toy_records ! unat (2::u64)"
proof (rule inclusion_verifier_sound [of toy_sha toy_records 2 "[3]" toy_path])
  have len: "length toy_records = 5" by (simp add: toy_records_def)
  have unat_2: "unat (2::u64) = 2" by simp
  show "length toy_records < 2 ^ 64" by (simp add: len)
  show "VerifyInclusion toy_sha 2 (of_nat (length toy_records)) (HashLeaf toy_sha [3])
      (Root toy_sha (map (HashLeaf toy_sha) toy_records)) toy_path = nil"
    using toy_accepted by (simp add: toy_leaves_def len)
  have "set ([3] # toy_records) = set toy_records" by (simp add: toy_records_def insert_absorb)
  then have "Cons leafPrefix ` set ([3] # toy_records) \<union> tree_inputs toy_sha (map (HashLeaf toy_sha) toy_records)
      \<union> inclusion_inputs toy_sha 2 5 (HashLeaf toy_sha [3]) toy_path \<subseteq> set toy_inputs"
    using toy_record_inputs toy_tree_inputs toy_path_inputs by (simp only: toy_leaves_def) blast
  from inj_on_list [OF toy_distinct this]
  show "inj_on toy_sha (Cons leafPrefix ` set ([3] # toy_records)
      \<union> tree_inputs toy_sha (map (HashLeaf toy_sha) toy_records)
      \<union> inclusion_inputs toy_sha (unat (2::u64)) (length toy_records) (HashLeaf toy_sha [3]) toy_path)"
    by (simp only: len unat_2)
qed (simp add: toy_size)


end
