(* ===== verification/Gesture.thy ===== *)
theory Gesture
  imports Events "HOL-Library.Product_Lexorder"
begin

text \<open>
  The gesture recognizer of \<^verbatim>\<open>gesture/gesture.go\<close> and \<^verbatim>\<open>gesture/timing.go\<close>: configuration, the
  per-session state, recognition of taps, double taps, holds, chords, stick regions and trigger
  thresholds, idle advancement, and the reset on disconnection.

  A method that changes the recognizer returns the changed value; a \<^verbatim>\<open>*streamState\<close> is passed and
  returned. The processing context the controller supplies is the record \<open>processing\<close>, whose \<open>px_NewHeader\<close> may answer
  each call differently (its first argument numbers the calls); \<^verbatim>\<open>math.Atan2\<close> and the reading of \<^verbatim>\<open>time.Now\<close>
  are the fields of \<open>gesture_env\<close>. The control lists of chords are canonical (sorted and duplicate free), so that the binary
  search of \<^verbatim>\<open>contains\<close> is membership.
\<close>

datatype GestureType = Tap | DoubleTap | Hold | Chord | StickRegion | TriggerThreshold

record GestureEvent =
  gv_Meta :: Header
  gv_Type :: GestureType
  gv_Phase :: Phase
  gv_Controls :: "control_id list"
  gv_Duration :: duration
  gv_Region :: string
  gv_Value :: fp

record ChordSpec =
  ch_Name :: string
  ch_Buttons :: "control_id list"

record GestureConfig =
  gc_TapMaximum :: duration
  gc_DoubleTapWindow :: duration
  gc_HoldMinimum :: duration
  gc_StickThreshold :: fp
  gc_StickHysteresis :: fp
  gc_TriggerThreshold :: fp
  gc_TriggerHysteresis :: fp
  gc_Chords :: "ChordSpec list"

definition millisecond :: duration where "millisecond = 1000000"

definition gesture_DefaultConfig :: GestureConfig where
  "gesture_DefaultConfig = \<lparr>gc_TapMaximum = 600 * millisecond, gc_DoubleTapWindow = 350 * millisecond,
     gc_HoldMinimum = 600 * millisecond, gc_StickThreshold = round_fp f32 (65 / 100),
     gc_StickHysteresis = round_fp f32 (8 / 100), gc_TriggerThreshold = Fin (1 / 2),
     gc_TriggerHysteresis = round_fp f32 (8 / 100), gc_Chords = []\<rparr>"

record press =
  ps_at :: timestamp
  ps_header :: Header
  ps_holdSent :: bool
  ps_holdID :: EventID
  ps_consumed :: bool

record tap =
  tp_at :: timestamp
  tp_monotonic :: duration
  tp_eventID :: EventID

type_synonym streamKey = "session_id \<times> device_id"

record streamState =
  ss_monotonic :: bool
  ss_pressed :: "(control_id, press) fmap"
  ss_lastTap :: "(control_id, tap) fmap"
  ss_activeChords :: "(nat, EventID) fmap"
  ss_stickRegions :: "(StickID, string) fmap"
  ss_triggerDown :: "(TriggerID, bool) fmap"

definition new_stream :: streamState where
  "new_stream = \<lparr>ss_monotonic = False, ss_pressed = fmempty, ss_lastTap = fmempty, ss_activeChords = fmempty,
     ss_stickRegions = fmempty, ss_triggerDown = fmempty\<rparr>"

record processing =
  px_NewHeader :: "nat \<Rightarrow> string \<Rightarrow> timestamp \<Rightarrow> int \<Rightarrow> EventID \<Rightarrow> Header"
  px_Now :: timestamp
  px_Clock :: "(session_id \<times> duration) option"

record Recognizer =
  rg_config :: GestureConfig
  rg_states :: "(streamKey, streamState) fmap"
  rg_fallbackStream :: string
  rg_fallbackSeq :: "(session_id, u64) fmap"
  rg_processing :: "processing option"
  rg_calls :: nat

record gesture_env =
  ge_atan2 :: "fp \<Rightarrow> fp \<Rightarrow> fp"
  ge_now :: timestamp

subsection \<open>Construction\<close>

definition canonicalControls :: "control_id list \<Rightarrow> control_id list" where
  "canonicalControls values = filter (\<lambda>c. c \<noteq> []) (remdups_adj (sort values))"

definition default_to :: "'a::zero \<Rightarrow> 'a \<Rightarrow> 'a" where
  "default_to d x = (if x = 0 then d else x)"

definition default_fp :: "fp \<Rightarrow> fp \<Rightarrow> fp" where
  "default_fp d x = (if fp_eq x (Fin 0) then d else x)"

definition with_defaults :: "GestureConfig \<Rightarrow> GestureConfig" where
  "with_defaults c = (let d = gesture_DefaultConfig in
     \<lparr>gc_TapMaximum = default_to (gc_TapMaximum d) (gc_TapMaximum c),
      gc_DoubleTapWindow = default_to (gc_DoubleTapWindow d) (gc_DoubleTapWindow c),
      gc_HoldMinimum = default_to (gc_HoldMinimum d) (gc_HoldMinimum c),
      gc_StickThreshold = default_fp (gc_StickThreshold d) (gc_StickThreshold c),
      gc_StickHysteresis = default_fp (gc_StickHysteresis d) (gc_StickHysteresis c),
      gc_TriggerThreshold = default_fp (gc_TriggerThreshold d) (gc_TriggerThreshold c),
      gc_TriggerHysteresis = default_fp (gc_TriggerHysteresis d) (gc_TriggerHysteresis c),
      gc_Chords = map (\<lambda>chord. chord\<lparr>ch_Buttons := canonicalControls (ch_Buttons chord)\<rparr>) (gc_Chords c)\<rparr>)"

definition bad_threshold :: "fp \<Rightarrow> fp \<Rightarrow> bool" where
  "bad_threshold threshold hysteresis \<longleftrightarrow> fp_le threshold (Fin 0) \<or> fp_lt (Fin 1) threshold
     \<or> fp_lt hysteresis (Fin 0) \<or> fp_le threshold hysteresis"

definition bad_chords :: "ChordSpec list \<Rightarrow> bool" where
  "bad_chords chords \<longleftrightarrow>
     list_ex (\<lambda>chord. ch_Name chord = [] \<or> length (canonicalControls (ch_Buttons chord)) < 2) chords
     \<or> \<not> distinct (map ch_Name chords) \<or> \<not> distinct (map ch_Buttons chords)"

definition validateConfig :: "GestureConfig \<Rightarrow> go_error" where
  "validateConfig c =
     (if list_ex (\<lambda>v. is_nan v \<or> is_inf v)
           [gc_StickThreshold c, gc_StickHysteresis c, gc_TriggerThreshold c, gc_TriggerHysteresis c]
      then [ErrText ''gesture: thresholds and hysteresis must be finite'']
      else if gc_TapMaximum c < 0 \<or> gc_DoubleTapWindow c < 0 \<or> gc_HoldMinimum c \<le> 0
      then [ErrText ''gesture: durations must be non-negative and hold minimum positive'']
      else if gc_TapMaximum c > gc_HoldMinimum c
      then [ErrText ''gesture: tap maximum exceeds hold minimum'']
      else if bad_threshold (gc_StickThreshold c) (gc_StickHysteresis c)
      then [ErrText ''gesture: invalid stick threshold/hysteresis'']
      else if bad_threshold (gc_TriggerThreshold c) (gc_TriggerHysteresis c)
      then [ErrText ''gesture: invalid trigger threshold/hysteresis'']
      else if bad_chords (gc_Chords c) then [ErrText ''gesture: invalid chords'']
      else nil)"

text \<open>\<open>stream\<close> is the instance-unique name \<^verbatim>\<open>fmt.Sprintf\<close> builds.\<close>

definition gesture_New :: "string \<Rightarrow> GestureConfig \<Rightarrow> Recognizer outcome" where
  "gesture_New stream config = (let c = with_defaults config in
     if validateConfig c \<noteq> nil then Panicked
     else Returned \<lparr>rg_config = c, rg_states = fmempty, rg_fallbackStream = stream, rg_fallbackSeq = fmempty,
       rg_processing = None, rg_calls = 0\<rparr>)"

subsection \<open>Timing\<close>

definition monotonicEpoch :: timestamp where
  "monotonicEpoch = 62135596800 * 1000000000"

definition headerMonotonic :: "Header \<Rightarrow> duration" where
  "headerMonotonic h =
     (if hd_ReceivedMonotonic h \<noteq> 0 \<or> hd_ReceivedAt h \<noteq> zero_time then hd_ReceivedMonotonic h else hd_Monotonic h)"

definition useMonotonic :: "streamState \<Rightarrow> streamState" where
  "useMonotonic s =
     (if ss_monotonic s then s
      else s\<lparr>ss_monotonic := True,
        ss_pressed := fmmap (\<lambda>v. v\<lparr>ps_at := monotonicEpoch + headerMonotonic (ps_header v)\<rparr>) (ss_pressed s),
        ss_lastTap := fmmap (\<lambda>v. v\<lparr>tp_at := monotonicEpoch + tp_monotonic v\<rparr>) (ss_lastTap s)\<rparr>)"

definition eventTime :: "Header \<Rightarrow> processing option \<Rightarrow> streamState \<Rightarrow> timestamp \<times> streamState" where
  "eventTime h p s =
     (let contextual = (case p of None \<Rightarrow> False | Some q \<Rightarrow> px_Clock q \<noteq> None);
          s = (if \<not> ss_monotonic s \<and> (contextual \<or> hd_Monotonic h \<noteq> 0 \<or> hd_ReceivedMonotonic h \<noteq> 0)
               then useMonotonic s else s)
      in (if ss_monotonic s then monotonicEpoch + headerMonotonic h else hd_ObservedAt h, s))"

definition expireTaps :: "GestureConfig \<Rightarrow> timestamp \<Rightarrow> streamState \<Rightarrow> streamState" where
  "expireTaps c now s =
     (if now = zero_time then s
      else s\<lparr>ss_lastTap := fmfilter (\<lambda>control. case fmlookup (ss_lastTap s) control of
          None \<Rightarrow> True | Some t \<Rightarrow> \<not> time_sub now (tp_at t) > gc_DoubleTapWindow c) (ss_lastTap s)\<rparr>)"

subsection \<open>Events\<close>

definition emit ::
  "Recognizer \<Rightarrow> Header \<Rightarrow> timestamp \<Rightarrow> GestureType \<Rightarrow> Phase \<Rightarrow> control_id list \<Rightarrow> duration \<Rightarrow> string \<Rightarrow> fp
     \<Rightarrow> GestureEvent \<times> Recognizer" where
  "emit r cause observedAt kind phase controls len region value =
     (let (header, r) = (case rg_processing r of
            Some p \<Rightarrow>
              ((px_NewHeader p (rg_calls r) ''gesture'' observedAt (hd_DeviceTimestamp cause) (hd_ID cause))
                 \<lparr>hd_Synthetic := hd_Synthetic cause\<rparr>, r\<lparr>rg_calls := Suc (rg_calls r)\<rparr>)
          | None \<Rightarrow>
              let session = id_Session (hd_ID cause);
                  n = (case fmlookup (rg_fallbackSeq r) session of None \<Rightarrow> 0 | Some n \<Rightarrow> n) + 1
              in (\<lparr>hd_ID = \<lparr>id_Session = session, id_Stream = rg_fallbackStream r, id_Sequence = n\<rparr>,
                   hd_DeviceID = hd_DeviceID cause, hd_ObservedAt = observedAt, hd_ReceivedAt = hd_ReceivedAt cause,
                   hd_PublishedAt = hd_PublishedAt cause, hd_Monotonic = hd_Monotonic cause,
                   hd_ReceivedMonotonic = hd_ReceivedMonotonic cause, hd_DeviceTimestamp = hd_DeviceTimestamp cause,
                   hd_Causes = [hd_ID cause], hd_Synthetic = hd_Synthetic cause\<rparr>,
                  r\<lparr>rg_fallbackSeq := fmupd session n (rg_fallbackSeq r)\<rparr>))
      in (\<lparr>gv_Meta = header, gv_Type = kind, gv_Phase = phase, gv_Controls = controls, gv_Duration = len,
           gv_Region = region, gv_Value = value\<rparr>, r))"

definition with_causes :: "EventID list \<Rightarrow> GestureEvent \<Rightarrow> GestureEvent" where
  "with_causes causes e = e\<lparr>gv_Meta := (gv_Meta e)\<lparr>hd_Causes := causes\<rparr>\<rparr>"

definition gv_ID :: "GestureEvent \<Rightarrow> EventID" where
  "gv_ID e = hd_ID (gv_Meta e)"

subsection \<open>Chords\<close>

definition pressed_button :: "streamState \<Rightarrow> control_id \<Rightarrow> bool" where
  "pressed_button s button \<longleftrightarrow> fmlookup (ss_pressed s) button \<noteq> None"

fun appendChordCauses :: "EventID list \<Rightarrow> (control_id, press) fmap \<Rightarrow> control_id list \<Rightarrow> EventID list" where
  "appendChordCauses causes pressed [] = causes"
| "appendChordCauses causes pressed (button # buttons) = (case fmlookup pressed button of
     None \<Rightarrow> appendChordCauses causes pressed buttons
   | Some p \<Rightarrow> if hd_ID (ps_header p) \<in> set causes then appendChordCauses causes pressed buttons
       else appendChordCauses (causes @ [hd_ID (ps_header p)]) pressed buttons)"

fun consume :: "control_id list \<Rightarrow> streamState \<Rightarrow> streamState" where
  "consume [] s = s"
| "consume (button # buttons) s = (case fmlookup (ss_pressed s) button of
     None \<Rightarrow> consume buttons s
   | Some p \<Rightarrow> consume buttons (s\<lparr>ss_pressed := fmupd button (p\<lparr>ps_consumed := True\<rparr>) (ss_pressed s),
       ss_lastTap := fmdrop button (ss_lastTap s)\<rparr>))"

fun startedChords ::
  "(nat \<times> ChordSpec) list \<Rightarrow> Header \<Rightarrow> control_id \<Rightarrow> Recognizer \<Rightarrow> streamState
     \<Rightarrow> GestureEvent list \<times> Recognizer \<times> streamState" where
  "startedChords [] meta button r s = ([], r, s)"
| "startedChords ((index, chord) # chords) meta button r s =
     (if fmlookup (ss_activeChords s) index \<noteq> None \<or> button \<notin> set (ch_Buttons chord)
         \<or> \<not> list_all (pressed_button s) (ch_Buttons chord)
      then startedChords chords meta button r s
      else let (e, r) = emit r meta (hd_ObservedAt meta) Chord PhaseStarted (ch_Buttons chord) 0 (ch_Name chord) (Fin 0);
               started = with_causes (appendChordCauses [] (ss_pressed s) (ch_Buttons chord)) e;
               s = consume (ch_Buttons chord)
                     (s\<lparr>ss_activeChords := fmupd index (gv_ID started) (ss_activeChords s)\<rparr>);
               (result, r, s) = startedChords chords meta button r s
           in (started # result, r, s))"

fun endedChords ::
  "(nat \<times> ChordSpec) list \<Rightarrow> Header \<Rightarrow> control_id \<Rightarrow> Recognizer \<Rightarrow> streamState
     \<Rightarrow> GestureEvent list \<times> Recognizer \<times> streamState" where
  "endedChords [] meta button r s = ([], r, s)"
| "endedChords ((index, chord) # chords) meta button r s =
     (case fmlookup (ss_activeChords s) index of
        None \<Rightarrow> endedChords chords meta button r s
      | Some startedID \<Rightarrow>
          if button \<notin> set (ch_Buttons chord) then endedChords chords meta button r s
          else let s = s\<lparr>ss_activeChords := fmdrop index (ss_activeChords s)\<rparr>;
                   (e, r) = emit r meta (hd_ObservedAt meta) Chord PhaseEnded (ch_Buttons chord) 0 (ch_Name chord) (Fin 0);
                   (result, r, s) = endedChords chords meta button r s
               in (with_causes [startedID, hd_ID meta] e # result, r, s))"

definition indexed_chords :: "Recognizer \<Rightarrow> (nat \<times> ChordSpec) list" where
  "indexed_chords r = enumerate 0 (gc_Chords (rg_config r))"

subsection \<open>Buttons\<close>

text \<open>The release of a press that no chord consumed, after a non-negative duration.\<close>

definition release ::
  "Header \<Rightarrow> control_id \<Rightarrow> press \<Rightarrow> timestamp \<Rightarrow> duration \<Rightarrow> Recognizer \<Rightarrow> streamState
     \<Rightarrow> GestureEvent list \<times> Recognizer \<times> streamState" where
  "release meta button p now len r s =
     (let c = rg_config r; observed = hd_ObservedAt meta in
      if ps_holdSent p then
        (let (ended, r) = emit r meta observed Hold PhaseEnded [button] len [] (Fin 0)
         in ([with_causes [ps_holdID p, hd_ID meta] ended], r, s))
      else if len \<ge> gc_HoldMinimum c then
        (let cause = (ps_header p)\<lparr>hd_Monotonic := hd_Monotonic meta, hd_PublishedAt := hd_PublishedAt meta\<rparr>;
             (started, r) = emit r cause (hd_ObservedAt (ps_header p) + gc_HoldMinimum c) Hold PhaseStarted [button]
               (gc_HoldMinimum c) [] (Fin 0);
             (ended, r) = emit r meta observed Hold PhaseEnded [button] len [] (Fin 0)
         in ([with_causes [hd_ID (ps_header p)] started, with_causes [gv_ID started, hd_ID meta] ended], r, s))
      else if len > gc_TapMaximum c then ([], r, s\<lparr>ss_lastTap := fmdrop button (ss_lastTap s)\<rparr>)
      else
        (let tapped = (let (e, r) = emit r meta observed Tap PhaseEnded [button] len [] (Fin 0) in
             ([with_causes [hd_ID (ps_header p), hd_ID meta] e], r,
              s\<lparr>ss_lastTap := fmupd button
                  \<lparr>tp_at = now, tp_monotonic = headerMonotonic meta, tp_eventID = gv_ID e\<rparr> (ss_lastTap s)\<rparr>))
         in case fmlookup (ss_lastTap s) button of
           None \<Rightarrow> tapped
         | Some previous \<Rightarrow>
             if \<not> now < tp_at previous \<and> time_sub now (tp_at previous) \<le> gc_DoubleTapWindow c
             then (let (e, r) = emit r meta observed DoubleTap PhaseEnded [button] (time_sub now (tp_at previous)) [] (Fin 0)
               in ([with_causes [tp_eventID previous, hd_ID (ps_header p), hd_ID meta] e], r,
                   s\<lparr>ss_lastTap := fmdrop button (ss_lastTap s)\<rparr>))
             else tapped))"

definition processButton ::
  "gesture_env \<Rightarrow> Header \<Rightarrow> control_id \<Rightarrow> bool \<Rightarrow> timestamp \<Rightarrow> Recognizer \<Rightarrow> streamState
     \<Rightarrow> GestureEvent list \<times> Recognizer \<times> streamState" where
  "processButton G meta button down now r s =
     (let unobserved = (hd_ObservedAt meta = zero_time);
          reading = (case rg_processing r of Some p \<Rightarrow> px_Now p | None \<Rightarrow> ge_now G);
          meta = (if unobserved then meta\<lparr>hd_ObservedAt := reading\<rparr> else meta);
          now = (if unobserved \<and> \<not> ss_monotonic s then hd_ObservedAt meta else now)
      in if down then
        (if fmlookup (ss_pressed s) button \<noteq> None then ([], r, s)
         else startedChords (indexed_chords r) meta button r
           (s\<lparr>ss_pressed := fmupd button \<lparr>ps_at = now, ps_header = meta, ps_holdSent = False,
                ps_holdID = zero_event_id, ps_consumed = False\<rparr> (ss_pressed s)\<rparr>))
      else
        (let found = fmlookup (ss_pressed s) button;
             (result, r, s) = endedChords (indexed_chords r) meta button r
               (s\<lparr>ss_pressed := fmdrop button (ss_pressed s)\<rparr>)
         in case found of
           None \<Rightarrow> (result, r, s)
         | Some p \<Rightarrow>
             if ps_consumed p \<or> time_sub now (ps_at p) < 0 then (result, r, s)
             else let (more, r, s) = release meta button p now (time_sub now (ps_at p)) r s
               in (result @ more, r, s)))"

subsection \<open>Sticks and triggers\<close>

definition math_Pi :: fp where
  "math_Pi = Fin (884279719003555 / 281474976710656)"

definition stickRegion :: "gesture_env \<Rightarrow> Stick \<Rightarrow> fp \<Rightarrow> string" where
  "stickRegion G stick threshold =
     (if fp_lt (hypot (stick_X stick) (stick_Y stick)) threshold then []
      else let angle = fp_div f64 (fp_mul f64 (ge_atan2 G (stick_Y stick) (stick_X stick)) (Fin 180)) math_Pi;
               inside = \<lambda>lo hi. fp_le (Fin lo) angle \<and> fp_lt angle (Fin hi)
           in if inside (- (45 / 2)) (45 / 2) then ''east''
           else if inside (45 / 2) (135 / 2) then ''north-east''
           else if inside (135 / 2) (225 / 2) then ''north''
           else if inside (225 / 2) (315 / 2) then ''north-west''
           else if fp_le (Fin (315 / 2)) angle \<or> fp_lt angle (Fin (- (315 / 2))) then ''west''
           else if inside (- (315 / 2)) (- (225 / 2)) then ''south-west''
           else if inside (- (225 / 2)) (- (135 / 2)) then ''south''
           else ''south-east'')"

definition stick_region :: "streamState \<Rightarrow> StickID \<Rightarrow> string" where
  "stick_region s stick = (case fmlookup (ss_stickRegions s) stick of None \<Rightarrow> [] | Some region \<Rightarrow> region)"

definition processStick ::
  "gesture_env \<Rightarrow> Header \<Rightarrow> StickID \<Rightarrow> Stick \<Rightarrow> Recognizer \<Rightarrow> streamState
     \<Rightarrow> GestureEvent list \<times> Recognizer \<times> streamState" where
  "processStick G meta stick position r s = (case stickControl stick of
     None \<Rightarrow> ([], r, s)
   | Some control \<Rightarrow>
       let previous = stick_region s stick;
           threshold = (if previous \<noteq> [] then fp_sub f32 (gc_StickThreshold (rg_config r)) (gc_StickHysteresis (rg_config r))
             else gc_StickThreshold (rg_config r));
           region = stickRegion G position threshold
       in if region = previous then ([], r, s)
       else let s = s\<lparr>ss_stickRegions := fmupd stick region (ss_stickRegions s)\<rparr>;
                (ended, r) = (if previous = [] then ([], r)
                  else let (e, r) = emit r meta (hd_ObservedAt meta) StickRegion PhaseEnded [control] 0 previous (Fin 0)
                    in ([e], r));
                (started, r) = (if region = [] then ([], r)
                  else let (e, r) = emit r meta (hd_ObservedAt meta) StickRegion PhaseStarted [control] 0 region (Fin 0)
                    in ([e], r))
            in (ended @ started, r, s))"

definition trigger_down :: "streamState \<Rightarrow> TriggerID \<Rightarrow> bool" where
  "trigger_down s trigger = (case fmlookup (ss_triggerDown s) trigger of None \<Rightarrow> False | Some d \<Rightarrow> d)"

definition processTrigger ::
  "Header \<Rightarrow> TriggerID \<Rightarrow> fp \<Rightarrow> Recognizer \<Rightarrow> streamState \<Rightarrow> GestureEvent list \<times> Recognizer \<times> streamState" where
  "processTrigger meta trigger position r s =
     (let wasDown = trigger_down s trigger;
          threshold = (if wasDown then fp_sub f32 (gc_TriggerThreshold (rg_config r)) (gc_TriggerHysteresis (rg_config r))
            else gc_TriggerThreshold (rg_config r));
          down = fp_le threshold position
      in if wasDown = down then ([], r, s)
      else case triggerControl trigger of
        None \<Rightarrow> ([], r, s)
      | Some control \<Rightarrow>
          let (e, r) = emit r meta (hd_ObservedAt meta) TriggerThreshold
                (if down then PhaseStarted else PhaseEnded) [control] 0 [] position
          in ([e], r, s\<lparr>ss_triggerDown := fmupd trigger down (ss_triggerDown s)\<rparr>))"

subsection \<open>Reset\<close>

text \<open>A loop that emits at most one event per item, threading the recognizer.\<close>

fun emit_each :: "('a \<Rightarrow> Recognizer \<Rightarrow> GestureEvent list \<times> Recognizer) \<Rightarrow> 'a list \<Rightarrow> Recognizer
    \<Rightarrow> GestureEvent list \<times> Recognizer" where
  "emit_each f [] r = ([], r)"
| "emit_each f (x # xs) r =
     (let (es, r) = f x r; (result, r) = emit_each f xs r in (es @ result, r))"

definition sorted_keys :: "('k::linorder, 'v) fmap \<Rightarrow> 'k list" where
  "sorted_keys m = sorted_list_of_fset (fmdom m)"

definition end_chord :: "Header \<Rightarrow> streamState \<Rightarrow> nat \<times> ChordSpec \<Rightarrow> Recognizer \<Rightarrow> GestureEvent list \<times> Recognizer" where
  "end_chord cause s ic r = (case ic of (index, chord) \<Rightarrow> (case fmlookup (ss_activeChords s) index of
     None \<Rightarrow> ([], r)
   | Some startedID \<Rightarrow>
       let (e, r) = emit r cause (hd_ObservedAt cause) Chord PhaseEnded (ch_Buttons chord) 0 (ch_Name chord) (Fin 0)
       in ([with_causes [startedID, hd_ID cause] e], r)))"

definition end_hold :: "Header \<Rightarrow> timestamp \<Rightarrow> streamState \<Rightarrow> control_id \<Rightarrow> Recognizer \<Rightarrow> GestureEvent list \<times> Recognizer" where
  "end_hold cause now s button r = (case fmlookup (ss_pressed s) button of
     None \<Rightarrow> ([], r)
   | Some p \<Rightarrow>
       if ps_consumed p \<or> \<not> ps_holdSent p then ([], r)
       else let (e, r) = emit r cause (hd_ObservedAt cause) Hold PhaseEnded [button] (max (time_sub now (ps_at p)) 0) [] (Fin 0)
         in ([with_causes [ps_holdID p, hd_ID cause] e], r))"

definition end_stick :: "Header \<Rightarrow> streamState \<Rightarrow> StickID \<Rightarrow> Recognizer \<Rightarrow> GestureEvent list \<times> Recognizer" where
  "end_stick cause s stick r =
     (if stick_region s stick = [] then ([], r)
      else case stickControl stick of
        None \<Rightarrow> ([], r)
      | Some control \<Rightarrow>
          let (e, r) = emit r cause (hd_ObservedAt cause) StickRegion PhaseEnded [control] 0 (stick_region s stick) (Fin 0)
          in ([e], r))"

definition end_trigger :: "Header \<Rightarrow> streamState \<Rightarrow> TriggerID \<Rightarrow> Recognizer \<Rightarrow> GestureEvent list \<times> Recognizer" where
  "end_trigger cause s trigger r =
     (if \<not> trigger_down s trigger then ([], r)
      else case triggerControl trigger of
        None \<Rightarrow> ([], r)
      | Some control \<Rightarrow>
          let (e, r) = emit r cause (hd_ObservedAt cause) TriggerThreshold PhaseEnded [control] 0 [] (Fin 0)
          in ([e], r))"

definition reset ::
  "streamKey \<Rightarrow> streamState \<Rightarrow> Header \<Rightarrow> timestamp \<Rightarrow> Recognizer \<Rightarrow> GestureEvent list \<times> Recognizer" where
  "reset key s cause now r =
     (let (chords, r) = emit_each (end_chord cause s) (indexed_chords r) r;
          (holds, r) = emit_each (end_hold cause now s) (sorted_keys (ss_pressed s)) r;
          (sticks, r) = emit_each (end_stick cause s) (sorted_keys (ss_stickRegions s)) r;
          (triggers, r) = emit_each (end_trigger cause s) (sorted_keys (ss_triggerDown s)) r
      in (chords @ holds @ sticks @ triggers, r\<lparr>rg_states := fmdrop key (rg_states r)\<rparr>))"

subsection \<open>Recognition and advancement\<close>

definition stream_state :: "Recognizer \<Rightarrow> streamKey \<Rightarrow> streamState" where
  "stream_state r key = (case fmlookup (rg_states r) key of None \<Rightarrow> new_stream | Some s \<Rightarrow> s)"

definition put_state :: "streamKey \<Rightarrow> streamState \<Rightarrow> Recognizer \<Rightarrow> Recognizer" where
  "put_state key s r = r\<lparr>rg_states := fmupd key s (rg_states r)\<rparr>"

definition stream_key :: "Event \<Rightarrow> streamKey" where
  "stream_key e = (id_Session (hd_ID (event_header e)), hd_DeviceID (event_header e))"

definition recognizeLocked :: "gesture_env \<Rightarrow> Event \<Rightarrow> Recognizer \<Rightarrow> GestureEvent list \<times> Recognizer" where
  "recognizeLocked G input r =
     (let key = stream_key input;
          (now, s) = eventTime (event_header input) (rg_processing r) (stream_state r key);
          s = expireTaps (rg_config r) now s;
          finish = (\<lambda>(es, r, s). (es, put_state key s r))
      in case input of
        ButtonEvent meta button phase down \<Rightarrow> finish (processButton G meta button down now r s)
      | StickEvent meta stick position delta \<Rightarrow> finish (processStick G meta stick position r s)
      | TriggerEvent meta trigger position delta \<Rightarrow> finish (processTrigger meta trigger position r s)
      | ConnectionEvent meta connection detail \<Rightarrow>
          if connection = Disconnected then reset key s meta now r else ([], put_state key s r)
      | _ \<Rightarrow> ([], put_state key s r))"

definition start_hold ::
  "duration option \<Rightarrow> timestamp \<Rightarrow> control_id \<Rightarrow> Recognizer \<times> streamState \<Rightarrow> GestureEvent list \<times> Recognizer \<times> streamState" where
  "start_hold elapsed now button rs = (case rs of (r, s) \<Rightarrow> (case fmlookup (ss_pressed s) button of
     None \<Rightarrow> ([], r, s)
   | Some p \<Rightarrow>
       if ps_consumed p \<or> ps_holdSent p \<or> max (time_sub now (ps_at p)) 0 < gc_HoldMinimum (rg_config r) then ([], r, s)
       else let cause = (case elapsed of None \<Rightarrow> ps_header p | Some d \<Rightarrow> (ps_header p)\<lparr>hd_Monotonic := d\<rparr>);
                (e, r) = emit r cause (hd_ObservedAt (ps_header p) + gc_HoldMinimum (rg_config r)) Hold PhaseStarted
                  [button] (gc_HoldMinimum (rg_config r)) [] (Fin 0)
            in ([with_causes [hd_ID (ps_header p)] e], r,
                s\<lparr>ss_pressed := fmupd button (p\<lparr>ps_holdSent := True, ps_holdID := gv_ID e\<rparr>) (ss_pressed s)\<rparr>)))"

fun start_holds ::
  "duration option \<Rightarrow> timestamp \<Rightarrow> control_id list \<Rightarrow> Recognizer \<times> streamState \<Rightarrow> GestureEvent list \<times> Recognizer \<times> streamState" where
  "start_holds elapsed now [] (r, s) = ([], r, s)"
| "start_holds elapsed now (button # buttons) (r, s) =
     (let (es, r, s) = start_hold elapsed now button (r, s); (result, r, s) = start_holds elapsed now buttons (r, s)
      in (es @ result, r, s))"

fun advance_streams ::
  "timestamp \<Rightarrow> session_id option \<Rightarrow> duration option \<Rightarrow> streamKey list \<Rightarrow> Recognizer \<Rightarrow> GestureEvent list \<times> Recognizer" where
  "advance_streams wall session elapsed [] r = ([], r)"
| "advance_streams wall session elapsed (key # keys) r =
     (if (case session of None \<Rightarrow> False | Some i \<Rightarrow> fst key \<noteq> i) then advance_streams wall session elapsed keys r
      else let s = stream_state r key;
               s = (if elapsed \<noteq> None then useMonotonic s else s)
        in if ss_monotonic s \<noteq> (elapsed \<noteq> None) then advance_streams wall session elapsed keys r
        else let now = (case elapsed of None \<Rightarrow> wall | Some d \<Rightarrow> monotonicEpoch + d);
                 s = expireTaps (rg_config r) now s;
                 (es, r, s) = start_holds elapsed now (sorted_keys (ss_pressed s)) (r, s);
                 (result, r) = advance_streams wall session elapsed keys (put_state key s r)
          in (es @ result, r))"

definition advanceLocked ::
  "timestamp \<Rightarrow> session_id option \<Rightarrow> duration option \<Rightarrow> Recognizer \<Rightarrow> GestureEvent list \<times> Recognizer" where
  "advanceLocked wall session elapsed r =
     (if (case elapsed of None \<Rightarrow> False | Some d \<Rightarrow> d < 0) then ([], r)
      else advance_streams wall session elapsed (sorted_keys (rg_states r)) r)"

definition Recognize :: "gesture_env \<Rightarrow> Event \<Rightarrow> Recognizer \<Rightarrow> GestureEvent list \<times> Recognizer" where
  "Recognize G input r = recognizeLocked G input r"

definition AdvanceGestures :: "timestamp \<Rightarrow> Recognizer \<Rightarrow> GestureEvent list \<times> Recognizer" where
  "AdvanceGestures now r = advanceLocked now None None r"

definition AdvanceMonotonic :: "session_id \<Rightarrow> duration \<Rightarrow> Recognizer \<Rightarrow> GestureEvent list \<times> Recognizer" where
  "AdvanceMonotonic session now r = advanceLocked zero_time (Some session) (Some now) r"

definition gesture_ProcessContext ::
  "gesture_env \<Rightarrow> processing \<Rightarrow> Event \<Rightarrow> Recognizer \<Rightarrow> GestureEvent list \<times> Recognizer" where
  "gesture_ProcessContext G p input r =
     (let (es, r) = recognizeLocked G input (r\<lparr>rg_processing := Some p\<rparr>) in (es, r\<lparr>rg_processing := None\<rparr>))"

definition gesture_AdvanceContext ::
  "processing \<Rightarrow> timestamp \<Rightarrow> Recognizer \<Rightarrow> GestureEvent list \<times> Recognizer" where
  "gesture_AdvanceContext p now r =
     (let r = r\<lparr>rg_processing := Some p\<rparr>;
          (es, r) = (case px_Clock p of
            Some (session, elapsed) \<Rightarrow> advanceLocked now (Some session) (Some elapsed) r
          | None \<Rightarrow> advanceLocked now None None r)
      in (es, r\<lparr>rg_processing := None\<rparr>))"

end
