(* ===== verification/Action.thy ===== *)
theory Action
  imports Gesture
begin

text \<open>
  The action mapper of \<^verbatim>\<open>action/action.go\<close>: bindings from input and gesture events to application actions, their
  validation, and the events a mapper returns for one input. An empty string, an empty list and \<open>None\<close> are the wildcards of
  a binding. The controller's processing context numbers headers through \<open>px_NewHeader\<close>, as for gestures.
\<close>

subsection \<open>Inputs and bindings\<close>

datatype action_input = InputEvent Event | InputGesture GestureEvent

fun input_header :: "action_input \<Rightarrow> Header" where
  "input_header (InputEvent e) = event_header e"
| "input_header (InputGesture g) = gv_Meta g"

definition gesture_EventKind :: string where "gesture_EventKind = ''gesture''"

fun input_kind :: "action_input \<Rightarrow> string" where
  "input_kind (InputEvent e) = event_kind e"
| "input_kind (InputGesture g) = gesture_EventKind"

record action_value =
  av_Pressed :: bool
  av_Scalar :: fp
  av_Vector :: "Stick option"

definition zero_value :: action_value where
  "zero_value = \<lparr>av_Pressed = False, av_Scalar = Fin 0, av_Vector = None\<rparr>"

record ActionEvent =
  ae_Meta :: Header
  ae_Action :: string
  ae_Phase :: Phase
  ae_Control :: control_id
  ae_Controls :: "control_id list"
  ae_Value :: action_value

record Binding =
  bd_Action :: string
  bd_EventKind :: string
  bd_Control :: control_id
  bd_Controls :: "control_id list"
  bd_Phase :: "Phase option"
  bd_GestureType :: "GestureType option"
  bd_Region :: string
  bd_ConnectionState :: "ConnectionState option"

definition zero_binding :: Binding where
  "zero_binding = \<lparr>bd_Action = [], bd_EventKind = [], bd_Control = [], bd_Controls = [], bd_Phase = None,
     bd_GestureType = None, bd_Region = [], bd_ConnectionState = None\<rparr>"

definition OnButton :: "string \<Rightarrow> control_id \<Rightarrow> Phase \<Rightarrow> Binding" where
  "OnButton action button phase = zero_binding\<lparr>bd_Action := action, bd_EventKind := ''input.button'',
     bd_Control := button, bd_Phase := Some phase\<rparr>"

definition OnDPad :: "string \<Rightarrow> control_id \<Rightarrow> Phase \<Rightarrow> Binding" where
  "OnDPad action direction phase = OnButton action direction phase"

definition OnGesturePhase :: "string \<Rightarrow> GestureType \<Rightarrow> control_id \<Rightarrow> Phase \<Rightarrow> Binding" where
  "OnGesturePhase action gestureType control phase = zero_binding\<lparr>bd_Action := action,
     bd_EventKind := gesture_EventKind, bd_Control := control, bd_Phase := Some phase, bd_GestureType := Some gestureType\<rparr>"

definition OnGesture :: "string \<Rightarrow> GestureType \<Rightarrow> control_id \<Rightarrow> Binding" where
  "OnGesture action gestureType control = OnGesturePhase action gestureType control
     (if gestureType = Tap \<or> gestureType = DoubleTap then PhaseEnded else PhaseStarted)"

definition OnChord :: "string \<Rightarrow> string \<Rightarrow> control_id list \<Rightarrow> Binding" where
  "OnChord action name controls = zero_binding\<lparr>bd_Action := action, bd_EventKind := gesture_EventKind,
     bd_Controls := canonicalControls controls, bd_Phase := Some PhaseStarted, bd_GestureType := Some Chord, bd_Region := name\<rparr>"

definition OnStick :: "string \<Rightarrow> StickID \<Rightarrow> Binding" where
  "OnStick action stick = zero_binding\<lparr>bd_Action := action, bd_EventKind := ''input.stick'',
     bd_Control := (case stickControl stick of None \<Rightarrow> [] | Some control \<Rightarrow> control)\<rparr>"

definition OnTrigger :: "string \<Rightarrow> TriggerID \<Rightarrow> Binding" where
  "OnTrigger action trigger = zero_binding\<lparr>bd_Action := action, bd_EventKind := ''input.trigger'',
     bd_Control := (case triggerControl trigger of None \<Rightarrow> [] | Some control \<Rightarrow> control)\<rparr>"

definition OnConnection :: "string \<Rightarrow> ConnectionState \<Rightarrow> Binding" where
  "OnConnection action state = zero_binding\<lparr>bd_Action := action, bd_EventKind := ''device.connection'',
     bd_ConnectionState := Some state\<rparr>"

subsection \<open>Construction\<close>

text \<open>The connection state of a binding is one of the declared ones or absent by its type, so that the check of undeclared
  states has no counterpart.\<close>

definition validateBinding :: "Binding \<Rightarrow> go_error" where
  "validateBinding b =
     (if bd_Action b = [] then [ErrText ''action: binding has an empty action'']
      else if bd_EventKind b = ''input.stick'' \<and> bd_Control b \<noteq> StickLeft \<and> bd_Control b \<noteq> StickRight
      then [ErrText ''action: invalid stick control'']
      else if bd_EventKind b = ''input.trigger'' \<and> bd_Control b \<noteq> TriggerLeft \<and> bd_Control b \<noteq> TriggerRight
      then [ErrText ''action: invalid trigger control'']
      else if bd_GestureType b = Some Chord \<and> length (bd_Controls b) < 2
      then [ErrText ''action: chord binding needs at least two controls'']
      else if bd_GestureType b = Some Chord \<and> bd_Region b = []
      then [ErrText ''action: chord binding needs its configured name'']
      else if bd_ConnectionState b \<noteq> None \<and> bd_EventKind b \<noteq> ''device.connection''
      then [ErrText ''action: connection state requires a connection event binding'']
      else if bd_Region b \<noteq> [] \<and> bd_EventKind b \<noteq> gesture_EventKind
      then [ErrText ''action: gesture region requires a gesture event binding'']
      else if bd_Control b \<noteq> [] \<and> bd_Controls b \<noteq> []
      then [ErrText ''action: binding cannot match both one control and an exact control set'']
      else nil)"

record Mapper =
  mp_bindings :: "Binding list"
  mp_fallbackStream :: string
  mp_fallbackSeq :: "(session_id, u64) fmap"

definition canonical_binding :: "Binding \<Rightarrow> Binding" where
  "canonical_binding b = b\<lparr>bd_Controls := canonicalControls (bd_Controls b)\<rparr>"

definition action_New :: "string \<Rightarrow> Binding list \<Rightarrow> Mapper outcome" where
  "action_New stream bindings = (let copied = map canonical_binding bindings in
     if list_ex (\<lambda>b. validateBinding b \<noteq> nil) copied then Panicked
     else Returned \<lparr>mp_bindings = copied, mp_fallbackStream = stream, mp_fallbackSeq = fmempty\<rparr>)"

subsection \<open>Mapping\<close>

record extractedValues =
  ev_control :: control_id
  ev_controls :: "control_id list"
  ev_phase :: Phase
  ev_value :: action_value
  ev_gestureType :: "GestureType option"
  ev_region :: string
  ev_connectionState :: "ConnectionState option"

definition connectionPhase :: "ConnectionState \<Rightarrow> Phase" where
  "connectionPhase state = (if state = Connected then PhaseStarted else PhaseEnded)"

definition plain_values :: "control_id \<Rightarrow> control_id list \<Rightarrow> Phase \<Rightarrow> action_value \<Rightarrow> extractedValues" where
  "plain_values control controls phase v = \<lparr>ev_control = control, ev_controls = controls, ev_phase = phase, ev_value = v,
     ev_gestureType = None, ev_region = [], ev_connectionState = None\<rparr>"

fun eventValues :: "action_input \<Rightarrow> extractedValues option" where
  "eventValues (InputEvent (ButtonEvent h button phase pressed)) =
     Some (plain_values button [button] phase (zero_value\<lparr>av_Pressed := pressed\<rparr>))"
| "eventValues (InputEvent (StickEvent h stick position delta)) = (case stickControl stick of
     None \<Rightarrow> None
   | Some control \<Rightarrow> Some (plain_values control [control] PhaseChanged (zero_value\<lparr>av_Vector := Some position\<rparr>)))"
| "eventValues (InputEvent (TriggerEvent h trigger position delta)) = (case triggerControl trigger of
     None \<Rightarrow> None
   | Some control \<Rightarrow> Some (plain_values control [control] PhaseChanged (zero_value\<lparr>av_Scalar := position\<rparr>)))"
| "eventValues (InputGesture g) =
     (let controls = canonicalControls (gv_Controls g);
          control = (if length controls = 1 then controls ! 0 else [])
      in Some ((plain_values control controls (gv_Phase g) (zero_value\<lparr>av_Scalar := gv_Value g\<rparr>))
           \<lparr>ev_gestureType := Some (gv_Type g), ev_region := gv_Region g\<rparr>))"
| "eventValues (InputEvent (ConnectionEvent h state detail)) =
     Some ((plain_values [] [] (connectionPhase state) zero_value)\<lparr>ev_connectionState := Some state\<rparr>)"
| "eventValues _ = None"

definition binding_matches :: "string \<Rightarrow> extractedValues \<Rightarrow> Binding \<Rightarrow> bool" where
  "binding_matches kind values b \<longleftrightarrow>
     \<not> (bd_EventKind b \<noteq> [] \<and> kind \<noteq> bd_EventKind b
        \<or> bd_Control b \<noteq> [] \<and> bd_Control b \<noteq> ev_control values
        \<or> bd_Controls b \<noteq> [] \<and> bd_Controls b \<noteq> ev_controls values
        \<or> bd_Phase b \<noteq> None \<and> bd_Phase b \<noteq> Some (ev_phase values)
        \<or> bd_GestureType b \<noteq> None \<and> bd_GestureType b \<noteq> ev_gestureType values
        \<or> bd_Region b \<noteq> [] \<and> bd_Region b \<noteq> ev_region values
        \<or> bd_ConnectionState b \<noteq> None \<and> bd_ConnectionState b \<noteq> ev_connectionState values)"

definition fallback_header :: "string \<Rightarrow> u64 \<Rightarrow> Header \<Rightarrow> Header" where
  "fallback_header stream n source =
     \<lparr>hd_ID = \<lparr>id_Session = id_Session (hd_ID source), id_Stream = stream, id_Sequence = n\<rparr>,
      hd_DeviceID = hd_DeviceID source, hd_ObservedAt = hd_ObservedAt source, hd_ReceivedAt = hd_ReceivedAt source,
      hd_PublishedAt = hd_PublishedAt source, hd_Monotonic = 0, hd_ReceivedMonotonic = 0,
      hd_DeviceTimestamp = hd_DeviceTimestamp source, hd_Causes = [hd_ID source], hd_Synthetic = hd_Synthetic source\<rparr>"

text \<open>The loop over the bindings; \<open>calls\<close> counts the headers asked of the processing context.\<close>

fun map_bindings ::
  "processing option \<Rightarrow> nat \<Rightarrow> string \<Rightarrow> Header \<Rightarrow> extractedValues \<Rightarrow> Binding list \<Rightarrow> Mapper \<Rightarrow> ActionEvent list \<times> Mapper" where
  "map_bindings processing calls kind source values [] m = ([], m)"
| "map_bindings processing calls kind source values (b # bs) m =
     (if \<not> binding_matches kind values b then map_bindings processing calls kind source values bs m
      else let session = id_Session (hd_ID source);
               n = (case fmlookup (mp_fallbackSeq m) session of None \<Rightarrow> 0 | Some n \<Rightarrow> n) + 1;
               (header, m) = (case processing of
                 Some p \<Rightarrow> ((px_NewHeader p calls ''action'' (hd_ObservedAt source) (hd_DeviceTimestamp source) (hd_ID source))
                     \<lparr>hd_Synthetic := hd_Synthetic source\<rparr>, m)
               | None \<Rightarrow> (fallback_header (mp_fallbackStream m) n source,
                     m\<lparr>mp_fallbackSeq := fmupd session n (mp_fallbackSeq m)\<rparr>));
               (result, m) = map_bindings processing (Suc calls) kind source values bs m
        in (\<lparr>ae_Meta = header, ae_Action = bd_Action b, ae_Phase = ev_phase values, ae_Control = ev_control values,
             ae_Controls = ev_controls values, ae_Value = ev_value values\<rparr> # result, m))"

definition mapInput :: "processing option \<Rightarrow> action_input \<Rightarrow> Mapper \<Rightarrow> ActionEvent list \<times> Mapper" where
  "mapInput processing input m = (case eventValues input of
     None \<Rightarrow> ([], m)
   | Some values \<Rightarrow> map_bindings processing 0 (input_kind input) (input_header input) values (mp_bindings m) m)"

definition action_Map :: "action_input \<Rightarrow> Mapper \<Rightarrow> ActionEvent list \<times> Mapper" where
  "action_Map input m = mapInput None input m"

definition action_ProcessContext :: "processing \<Rightarrow> action_input \<Rightarrow> Mapper \<Rightarrow> ActionEvent list \<times> Mapper" where
  "action_ProcessContext p input m = mapInput (Some p) input m"

subsection \<open>What a mapper returns\<close>

lemma map_bindings_actions:
  "map ae_Action (fst (map_bindings processing calls kind source values bs m))
     = map bd_Action (filter (binding_matches kind values) bs)"
  by (induction bs arbitrary: calls m) (auto simp: Let_def case_prod_beta)

lemma map_bindings_fields:
  "list_all (\<lambda>e. ae_Phase e = ev_phase values \<and> ae_Control e = ev_control values \<and> ae_Controls e = ev_controls values
      \<and> ae_Value e = ev_value values) (fst (map_bindings processing calls kind source values bs m))"
  by (induction bs arbitrary: calls m) (auto simp: Let_def case_prod_beta)

lemma map_bindings_keeps:
  "mp_bindings (snd (map_bindings processing calls kind source values bs m)) = mp_bindings m"
  "mp_fallbackStream (snd (map_bindings processing calls kind source values bs m)) = mp_fallbackStream m"
  by (induction bs arbitrary: calls m) (auto simp: Let_def case_prod_beta split: option.splits)

subsection \<open>Numbering without a processing context\<close>

definition next_sequence :: "Mapper \<Rightarrow> session_id \<Rightarrow> nat" where
  "next_sequence m session = (case fmlookup (mp_fallbackSeq m) session of None \<Rightarrow> 0 | Some n \<Rightarrow> unat n)"

lemma unat_next:
  "unat (case fmlookup (mp_fallbackSeq m) session of None \<Rightarrow> 0 | Some n \<Rightarrow> n) = next_sequence m session"
  by (simp add: next_sequence_def split: option.splits)

lemma next_sequence_set [simp]:
  "next_sequence (m\<lparr>mp_fallbackSeq := fmupd session n (mp_fallbackSeq m)\<rparr>) s
     = (if s = session then unat n else next_sequence m s)"
  by (simp add: next_sequence_def)

lemma unat_plus_one: "unat n + 1 < 2 ^ 64 \<Longrightarrow> unat (n + 1 :: u64) = unat n + 1"
  by (simp add: unat_word_ariths)

text \<open>Without a processing context the events of one call carry the next consecutive sequence numbers of the session of the
  input, as long as the counter does not wrap.\<close>

lemma map_bindings_sequences:
  assumes "next_sequence m (id_Session (hd_ID source)) + length bs < 2 ^ 64"
  shows "map (\<lambda>e. unat (id_Sequence (hd_ID (ae_Meta e)))) (fst (map_bindings None calls kind source values bs m))
      = map (\<lambda>i. next_sequence m (id_Session (hd_ID source)) + 1 + i)
          [0..<length (fst (map_bindings None calls kind source values bs m))]
    \<and> next_sequence (snd (map_bindings None calls kind source values bs m)) session
      = next_sequence m session
        + (if session = id_Session (hd_ID source) then length (fst (map_bindings None calls kind source values bs m)) else 0)"
  using assms
proof (induction bs arbitrary: calls m)
  case (Cons b bs)
  let ?session = "id_Session (hd_ID source)"
  let ?n = "(case fmlookup (mp_fallbackSeq m) ?session of None \<Rightarrow> 0 | Some n \<Rightarrow> n) + 1"
  let ?m = "m\<lparr>mp_fallbackSeq := fmupd ?session ?n (mp_fallbackSeq m)\<rparr>"
  have n: "unat ?n = next_sequence m ?session + 1"
    using Cons.prems unat_plus_one [of "case fmlookup (mp_fallbackSeq m) ?session of None \<Rightarrow> 0 | Some n \<Rightarrow> n"]
    by (simp add: unat_next)
  show ?case
  proof (cases "binding_matches kind values b")
    case False
    with Cons show ?thesis by simp
  next
    case True
    have "next_sequence ?m ?session + length bs < 2 ^ 64" using Cons.prems by (simp add: n)
    from Cons.IH [OF this, of "Suc calls"] True show ?thesis
      by (auto simp: Let_def case_prod_beta n fallback_header_def upt_conv_Cons map_Suc_upt [symmetric] simp del: upt_Suc)
  qed
qed simp

end
