(* ===== verification/GestureSafety.thy ===== *)
theory GestureSafety
  imports Gesture
begin

text \<open>
  What a consumer of gesture events can rely on. \<open>active\<close> is the set of chords, stick regions and trigger
  crossings a stream has in progress; the events a call returns are exactly the changes of that set
  (\<open>moves\<close>, replayed by \<open>follow\<close>): a gesture that is started was not active, a gesture that is
  ended was, and a disconnection ends all of them. Holds are treated separately.
\<close>

type_synonym ident = "GestureType \<times> control_id list \<times> string"

definition tracked :: "GestureType set" where
  "tracked = {Chord, StickRegion, TriggerThreshold}"

definition ident_of :: "GestureEvent \<Rightarrow> ident" where
  "ident_of e = (gv_Type e, gv_Controls e, gv_Region e)"

definition moves :: "GestureEvent list \<Rightarrow> (Phase \<times> ident) list" where
  "moves es = map (\<lambda>e. (gv_Phase e, ident_of e)) (filter (\<lambda>e. gv_Type e \<in> tracked) es)"

fun follow :: "ident set \<Rightarrow> (Phase \<times> ident) list \<Rightarrow> ident set option" where
  "follow A [] = Some A"
| "follow A ((phase, g) # ms) =
     (if phase = PhaseStarted \<and> g \<notin> A then follow (insert g A) ms
      else if phase = PhaseEnded \<and> g \<in> A then follow (A - {g}) ms
      else None)"

definition active :: "ChordSpec list \<Rightarrow> streamState \<Rightarrow> ident set" where
  "active chords s =
     {(Chord, ch_Buttons (chords ! i), ch_Name (chords ! i)) | i. i < length chords \<and> fmlookup (ss_activeChords s) i \<noteq> None}
     \<union> {(StickRegion, [control], stick_region s stick) | stick control.
          stickControl stick = Some control \<and> stick_region s stick \<noteq> []}
     \<union> {(TriggerThreshold, [control], []) | trigger control.
          triggerControl trigger = Some control \<and> trigger_down s trigger}"

subsection \<open>Replaying\<close>

lemma moves_Nil [simp]: "moves [] = []"
  by (simp add: moves_def)

lemma moves_append [simp]: "moves (es @ es') = moves es @ moves es'"
  by (simp add: moves_def)

lemma moves_Cons [simp]:
  "moves (e # es) = (if gv_Type e \<in> tracked then [(gv_Phase e, ident_of e)] else []) @ moves es"
  by (simp add: moves_def)

lemma follow_append: "follow A (xs @ ys) = (case follow A xs of None \<Rightarrow> None | Some B \<Rightarrow> follow B ys)"
  by (induction xs arbitrary: A) auto

lemma follow_ended: "distinct gs \<Longrightarrow> set gs \<subseteq> A \<Longrightarrow> follow A (map (Pair PhaseEnded) gs) = Some (A - set gs)"
proof (induction gs arbitrary: A)
  case (Cons g gs)
  then have "follow (A - {g}) (map (Pair PhaseEnded) gs) = Some (A - {g} - set gs)"
    by (intro Cons.IH) auto
  with Cons.prems show ?case by (simp add: Diff_insert2 [symmetric] insert_commute)
qed simp

subsection \<open>Emission\<close>

lemma emit_fields:
  assumes "emit r cause t kind phase controls len region value = (e, r')"
  shows "gv_Type e = kind" "gv_Phase e = phase" "gv_Controls e = controls" "gv_Region e = region"
    "rg_config r' = rg_config r" "rg_states r' = rg_states r" "rg_processing r' = rg_processing r"
  using assms by (auto simp: emit_def Let_def split: option.splits prod.splits)

lemma with_causes_fields [simp]:
  "gv_Type (with_causes cs e) = gv_Type e" "gv_Phase (with_causes cs e) = gv_Phase e"
  "gv_Controls (with_causes cs e) = gv_Controls e" "gv_Region (with_causes cs e) = gv_Region e"
  "ident_of (with_causes cs e) = ident_of e"
  by (simp_all add: with_causes_def ident_of_def)

text \<open>What an operation on a stream may change of the recognizer: its numbering only.\<close>

definition same_streams :: "Recognizer \<Rightarrow> Recognizer \<Rightarrow> bool" where
  "same_streams r r' \<longleftrightarrow> rg_config r' = rg_config r \<and> rg_states r' = rg_states r \<and> rg_processing r' = rg_processing r"

lemma same_streams_refl [simp]: "same_streams r r"
  by (simp add: same_streams_def)

lemma same_streams_trans: "same_streams r r' \<Longrightarrow> same_streams r' r'' \<Longrightarrow> same_streams r r''"
  by (simp add: same_streams_def)

lemma emit_step:
  assumes "emit r cause t kind phase controls len region value = (e, r')"
  shows "moves [with_causes cs e] = (if kind \<in> tracked then [(phase, (kind, controls, region))] else [])"
    and "moves [e] = (if kind \<in> tracked then [(phase, (kind, controls, region))] else [])"
    and "same_streams r r'"
  using emit_fields [OF assms] by (auto simp: same_streams_def ident_of_def)

lemma tracked_cases [simp]:
  "Chord \<in> tracked" "StickRegion \<in> tracked" "TriggerThreshold \<in> tracked" "Tap \<notin> tracked" "DoubleTap \<notin> tracked" "Hold \<notin> tracked"
  by (simp_all add: tracked_def)

subsection \<open>What \<open>active\<close> depends on\<close>

lemma active_cong:
  "ss_activeChords s' = ss_activeChords s \<Longrightarrow> ss_stickRegions s' = ss_stickRegions s
    \<Longrightarrow> ss_triggerDown s' = ss_triggerDown s \<Longrightarrow> active chords s' = active chords s"
  by (simp add: active_def stick_region_def trigger_down_def)

lemma active_fields [simp]:
  "active chords (s\<lparr>ss_lastTap := x\<rparr>) = active chords s" "active chords (s\<lparr>ss_pressed := y\<rparr>) = active chords s"
  by (simp_all add: active_def stick_region_def trigger_down_def)

definition chord_ident :: "ChordSpec \<Rightarrow> ident" where
  "chord_ident c = (Chord, ch_Buttons c, ch_Name c)"

lemma active_chord_iff:
  assumes "distinct (map ch_Name chords)" and "i < length chords"
  shows "chord_ident (chords ! i) \<in> active chords s \<longleftrightarrow> fmlookup (ss_activeChords s) i \<noteq> None"
proof -
  have "j = i" if "j < length chords" "ch_Name (chords ! j) = ch_Name (chords ! i)" for j
    using that assms nth_eq_iff_index_eq [of "map ch_Name chords" j i] by simp
  then show ?thesis using assms(2) by (auto simp: active_def chord_ident_def)
qed

lemma active_chord_start:
  assumes "i < length chords"
  shows "active chords (s\<lparr>ss_activeChords := fmupd i x (ss_activeChords s)\<rparr>)
    = insert (chord_ident (chords ! i)) (active chords s)"
  using assms by (auto simp: active_def chord_ident_def stick_region_def trigger_down_def)

lemma active_chord_end:
  assumes "distinct (map ch_Name chords)" and "i < length chords"
  shows "active chords (s\<lparr>ss_activeChords := fmdrop i (ss_activeChords s)\<rparr>)
    = active chords s - {chord_ident (chords ! i)}"
proof -
  have "j = i" if "j < length chords" "ch_Name (chords ! j) = ch_Name (chords ! i)" for j
    using that assms nth_eq_iff_index_eq [of "map ch_Name chords" j i] by simp
  then show ?thesis
    using assms(2) by (auto simp: active_def chord_ident_def stick_region_def trigger_down_def)
qed

lemma consume_fields:
  "ss_activeChords (consume bs s) = ss_activeChords s" "ss_stickRegions (consume bs s) = ss_stickRegions s"
  "ss_triggerDown (consume bs s) = ss_triggerDown s"
  by (induction bs s rule: consume.induct) (auto split: option.splits)

subsection \<open>Chords\<close>

text \<open>What one operation does: its events move the active set, and the recognizer's streams are untouched.\<close>

definition tracks :: "ChordSpec list \<Rightarrow> Recognizer \<Rightarrow> streamState \<Rightarrow> GestureEvent list \<times> Recognizer \<times> streamState \<Rightarrow> bool" where
  "tracks chords r s result \<longleftrightarrow> (case result of (es, r', s') \<Rightarrow>
     follow (active chords s) (moves es) = Some (active chords s') \<and> same_streams r r')"

lemma tracks_refl: "active chords s' = active chords s \<Longrightarrow> tracks chords r s ([], r, s')"
  by (simp add: tracks_def)

lemma startedChords_tracks:
  assumes "distinct (map ch_Name chords)" and "set ics \<subseteq> set (enumerate 0 chords)"
  shows "tracks chords r s (startedChords ics meta button r s)"
  using assms(2)
proof (induction ics arbitrary: r s)
  case Nil
  then show ?case by (simp add: tracks_def)
next
  case (Cons ic ics)
  obtain i c where ic: "ic = (i, c)" by (cases ic)
  with Cons.prems have i: "i < length chords" "c = chords ! i" by (auto simp: in_set_enumerate_eq)
  show ?case
  proof (cases "fmlookup (ss_activeChords s) i \<noteq> None \<or> button \<notin> set (ch_Buttons c) \<or> \<not> list_all (pressed_button s) (ch_Buttons c)")
    case True
    then show ?thesis using Cons ic by simp
  next
    case False
    obtain e r1 where e: "emit r meta (hd_ObservedAt meta) Chord PhaseStarted (ch_Buttons c) 0 (ch_Name c) (Fin 0) = (e, r1)"
      by (cases "emit r meta (hd_ObservedAt meta) Chord PhaseStarted (ch_Buttons c) 0 (ch_Name c) (Fin 0)")
    let ?started = "with_causes (appendChordCauses [] (ss_pressed s) (ch_Buttons c)) e"
    let ?s1 = "consume (ch_Buttons c) (s\<lparr>ss_activeChords := fmupd i (gv_ID ?started) (ss_activeChords s)\<rparr>)"
    obtain es r2 s2 where rest: "startedChords ics meta button r1 ?s1 = (es, r2, s2)"
      by (cases "startedChords ics meta button r1 ?s1") auto
    have "active chords ?s1 = insert (chord_ident c) (active chords s)"
      using i active_chord_start [OF i(1), where s = s and x = "gv_ID ?started"]
      by (subst active_cong [of _ "s\<lparr>ss_activeChords := fmupd i (gv_ID ?started) (ss_activeChords s)\<rparr>"])
        (simp_all add: consume_fields)
    moreover have "chord_ident c \<notin> active chords s"
      using active_chord_iff [OF assms(1) i(1), of s] i(2) False by simp
    moreover have "tracks chords r1 ?s1 (es, r2, s2)"
      using Cons.IH [of r1 ?s1] Cons.prems rest by simp
    ultimately show ?thesis
      using False ic e rest emit_step(3) [OF e] emit_step(1) [OF e]
      by (auto simp: tracks_def chord_ident_def Let_def intro: same_streams_trans split: if_splits)
  qed
qed

lemma endedChords_tracks:
  assumes "distinct (map ch_Name chords)" and "set ics \<subseteq> set (enumerate 0 chords)"
  shows "tracks chords r s (endedChords ics meta button r s)"
  using assms(2)
proof (induction ics arbitrary: r s)
  case Nil
  then show ?case by (simp add: tracks_def)
next
  case (Cons ic ics)
  obtain i c where ic: "ic = (i, c)" by (cases ic)
  with Cons.prems have i: "i < length chords" "c = chords ! i" by (auto simp: in_set_enumerate_eq)
  show ?case
  proof (cases "fmlookup (ss_activeChords s) i = None \<or> button \<notin> set (ch_Buttons c)")
    case True
    then show ?thesis using Cons ic by (auto split: option.splits)
  next
    case False
    then obtain x where x: "fmlookup (ss_activeChords s) i = Some x" by auto
    let ?s1 = "s\<lparr>ss_activeChords := fmdrop i (ss_activeChords s)\<rparr>"
    obtain e r1 where e: "emit r meta (hd_ObservedAt meta) Chord PhaseEnded (ch_Buttons c) 0 (ch_Name c) (Fin 0) = (e, r1)"
      by (cases "emit r meta (hd_ObservedAt meta) Chord PhaseEnded (ch_Buttons c) 0 (ch_Name c) (Fin 0)")
    obtain es r2 s2 where rest: "endedChords ics meta button r1 ?s1 = (es, r2, s2)"
      by (cases "endedChords ics meta button r1 ?s1") auto
    have "active chords ?s1 = active chords s - {chord_ident c}"
      using active_chord_end [OF assms(1) i(1)] i(2) by simp
    moreover have "chord_ident c \<in> active chords s"
      using active_chord_iff [OF assms(1) i(1), of s] i(2) x by simp
    moreover have "tracks chords r1 ?s1 (es, r2, s2)"
      using Cons.IH [of r1 ?s1] Cons.prems rest by simp
    ultimately show ?thesis
      using False ic x e rest emit_step(3) [OF e] emit_step(1) [OF e]
      by (auto simp: tracks_def chord_ident_def Let_def intro: same_streams_trans split: if_splits)
  qed
qed

lemma indexed_chords_set: "set (indexed_chords r) \<subseteq> set (enumerate 0 (gc_Chords (rg_config r)))"
  by (simp add: indexed_chords_def)

subsection \<open>Buttons, sticks and triggers\<close>

lemma emit_fst [simp]:
  "gv_Type (fst (emit r c t k ph cs len reg v)) = k" "gv_Phase (fst (emit r c t k ph cs len reg v)) = ph"
  "ident_of (fst (emit r c t k ph cs len reg v)) = (k, cs, reg)"
  "same_streams r (snd (emit r c t k ph cs len reg v))" "rg_config (snd (emit r c t k ph cs len reg v)) = rg_config r"
  using emit_fields [of r c t k ph cs len reg v "fst (emit r c t k ph cs len reg v)" "snd (emit r c t k ph cs len reg v)"]
  by (simp_all add: ident_of_def same_streams_def)

lemma tracks_untracked:
  "moves es = [] \<Longrightarrow> same_streams r r' \<Longrightarrow> active chords s' = active chords s \<Longrightarrow> tracks chords r s (es, r', s')"
  by (simp add: tracks_def)

lemma emit_twice:
  "same_streams r (snd (emit (snd (emit r c t k ph cs len reg v)) c' t' k' ph' cs' len' reg' v'))"
  by (rule same_streams_trans [OF emit_fst(4) emit_fst(4)])

lemma release_tracks: "tracks chords r s (release meta button p now len r s)"
  unfolding release_def Let_def case_prod_beta
  by (auto intro!: tracks_untracked emit_twice split: option.split)

lemma tracks_trans:
  assumes "tracks chords r s (es, r1, s1)" and "tracks chords r1 s1 (es', r2, s2)"
  shows "tracks chords r s (es @ es', r2, s2)"
  using assms by (auto simp: tracks_def follow_append intro: same_streams_trans)

lemma tracks_from: "active chords s0 = active chords s \<Longrightarrow> tracks chords r s result \<Longrightarrow> tracks chords r s0 result"
  by (simp add: tracks_def)

lemma processButton_tracks:
  assumes "distinct (map ch_Name (gc_Chords (rg_config r)))"
  shows "tracks (gc_Chords (rg_config r)) r s (processButton G meta button down now r s)"
proof -
  have started: "tracks (gc_Chords (rg_config r)) r s (startedChords (indexed_chords r) m button r (s\<lparr>ss_pressed := x\<rparr>))" for m x
    by (rule tracks_from [OF active_cong startedChords_tracks [OF assms indexed_chords_set]]) simp_all
  have ended: "tracks (gc_Chords (rg_config r)) r s (endedChords (indexed_chords r) m button r (s\<lparr>ss_pressed := x\<rparr>))" for m x
    by (rule tracks_from [OF active_cong endedChords_tracks [OF assms indexed_chords_set]]) simp_all
  have released: "tracks (gc_Chords (rg_config r)) r s (es @ fst (release m button p n l r1 s1), snd (release m button p n l r1 s1))"
    if "tracks (gc_Chords (rg_config r)) r s (es, r1, s1)" for es r1 s1 m p n l
    using tracks_trans [OF that] release_tracks [of "gc_Chords (rg_config r)" r1 s1 m button p n l]
    by (metis prod.collapse)
  show ?thesis
    using started ended
    by (auto simp: processButton_def Let_def case_prod_beta tracks_refl split: option.split intro!: released)
qed

lemma stick_controls:
  "stickControl stick = Some control \<Longrightarrow> stickControl stick' = Some control \<Longrightarrow> stick' = stick"
  by (auto simp: stickControl_def LeftStick_def RightStick_def StickLeft_def StickRight_def split: if_splits)

lemma trigger_controls:
  "triggerControl trigger = Some control \<Longrightarrow> triggerControl trigger' = Some control \<Longrightarrow> trigger' = trigger"
  by (auto simp: triggerControl_def LeftTrigger_def RightTrigger_def TriggerLeft_def TriggerRight_def split: if_splits)

lemma active_stick_iff:
  "stickControl stick = Some control \<Longrightarrow>
     (StickRegion, [control], region) \<in> active chords s \<longleftrightarrow> region \<noteq> [] \<and> region = stick_region s stick"
  by (auto simp: active_def dest: stick_controls)

lemma active_trigger_iff:
  "triggerControl trigger = Some control \<Longrightarrow>
     (TriggerThreshold, [control], []) \<in> active chords s \<longleftrightarrow> trigger_down s trigger"
  by (auto simp: active_def dest: trigger_controls)

lemma active_stick_update:
  assumes "stickControl stick = Some control"
  shows "active chords (s\<lparr>ss_stickRegions := fmupd stick region (ss_stickRegions s)\<rparr>)
    = (active chords s - {(StickRegion, [control], stick_region s stick)})
      \<union> (if region = [] then {} else {(StickRegion, [control], region)})"
proof -
  have "stick_region (s\<lparr>ss_stickRegions := fmupd stick region (ss_stickRegions s)\<rparr>) t
      = (if t = stick then region else stick_region s t)" for t
    by (simp add: stick_region_def)
  moreover have "trigger_down (s\<lparr>ss_stickRegions := x\<rparr>) = trigger_down s" for x
    by (rule ext) (simp add: trigger_down_def)
  ultimately show ?thesis
    using assms by (auto simp: active_def dest: stick_controls split: if_splits) (metis option.inject)+
qed

lemma active_trigger_update:
  assumes "triggerControl trigger = Some control"
  shows "active chords (s\<lparr>ss_triggerDown := fmupd trigger down (ss_triggerDown s)\<rparr>)
    = (if down then insert (TriggerThreshold, [control], []) (active chords s)
       else active chords s - {(TriggerThreshold, [control], [])})"
proof -
  have "trigger_down (s\<lparr>ss_triggerDown := fmupd trigger down (ss_triggerDown s)\<rparr>) t
      = (if t = trigger then down else trigger_down s t)" for t
    by (simp add: trigger_down_def)
  moreover have "stick_region (s\<lparr>ss_triggerDown := x\<rparr>) = stick_region s" for x
    by (rule ext) (simp add: stick_region_def)
  ultimately show ?thesis
    using assms by (auto simp: active_def dest: trigger_controls split: if_splits) (metis option.inject)+
qed

lemma processStick_tracks: "tracks chords r s (processStick G meta stick position r s)"
proof (cases "stickControl stick")
  case None
  then show ?thesis by (simp add: processStick_def tracks_refl)
next
  case (Some control)
  have member: "(StickRegion, [control], region) \<in> active chords s \<longleftrightarrow> region \<noteq> [] \<and> region = stick_region s stick" for region
    by (rule active_stick_iff [OF Some])
  show ?thesis
    using Some
    by (auto simp: processStick_def Let_def case_prod_beta tracks_def member active_stick_update [OF Some] insert_absorb
        Diff_triv intro: emit_twice)
qed

lemma processTrigger_tracks: "tracks chords r s (processTrigger meta trigger position r s)"
proof (cases "triggerControl trigger")
  case None
  then show ?thesis by (simp add: processTrigger_def Let_def tracks_refl)
next
  case (Some control)
  have member: "(TriggerThreshold, [control], []) \<in> active chords s \<longleftrightarrow> trigger_down s trigger"
    by (rule active_trigger_iff [OF Some])
  show ?thesis
    using Some
    by (auto simp: processTrigger_def Let_def case_prod_beta tracks_def member active_trigger_update [OF Some])
qed

subsection \<open>Reset\<close>

lemma emit_each_streams:
  "(\<And>x r. same_streams r (snd (f x r))) \<Longrightarrow> same_streams r (snd (emit_each f xs r))"
  by (induction xs arbitrary: r) (auto simp: Let_def case_prod_beta intro: same_streams_trans)

text \<open>The identity an item of a reset loop ends, if any.\<close>

lemma emit_each_moves:
  assumes "\<And>x r. moves (fst (f x r)) = map (Pair PhaseEnded) (g x)"
  shows "moves (fst (emit_each f xs r)) = map (Pair PhaseEnded) (concat (map g xs))"
  by (induction xs arbitrary: r) (auto simp: Let_def case_prod_beta assms)

definition chord_end :: "streamState \<Rightarrow> nat \<times> ChordSpec \<Rightarrow> ident list" where
  "chord_end s ic = (if fmlookup (ss_activeChords s) (fst ic) = None then [] else [chord_ident (snd ic)])"

definition stick_end :: "streamState \<Rightarrow> StickID \<Rightarrow> ident list" where
  "stick_end s stick = (if stick_region s stick = [] then []
     else case stickControl stick of None \<Rightarrow> [] | Some control \<Rightarrow> [(StickRegion, [control], stick_region s stick)])"

definition trigger_end :: "streamState \<Rightarrow> TriggerID \<Rightarrow> ident list" where
  "trigger_end s trigger = (if \<not> trigger_down s trigger then []
     else case triggerControl trigger of None \<Rightarrow> [] | Some control \<Rightarrow> [(TriggerThreshold, [control], [])])"

lemma ends_moves:
  "moves (fst (end_chord cause s ic r)) = map (Pair PhaseEnded) (chord_end s ic)"
  "moves (fst (end_hold cause now s button r)) = map (Pair PhaseEnded) []"
  "moves (fst (end_stick cause s stick r)) = map (Pair PhaseEnded) (stick_end s stick)"
  "moves (fst (end_trigger cause s trigger r)) = map (Pair PhaseEnded) (trigger_end s trigger)"
  by (auto simp: end_chord_def chord_end_def end_hold_def end_stick_def stick_end_def end_trigger_def trigger_end_def
      chord_ident_def Let_def case_prod_beta split: option.split)

lemma ends_streams:
  "same_streams r (snd (end_chord cause s ic r))" "same_streams r (snd (end_hold cause now s button r))"
  "same_streams r (snd (end_stick cause s stick r))" "same_streams r (snd (end_trigger cause s trigger r))"
  by (auto simp: end_chord_def end_hold_def end_stick_def end_trigger_def Let_def case_prod_beta split: option.split)

definition all_ends :: "ChordSpec list \<Rightarrow> streamState \<Rightarrow> ident list" where
  "all_ends chords s = concat (map (chord_end s) (enumerate 0 chords))
     @ concat (map (stick_end s) (sorted_keys (ss_stickRegions s)))
     @ concat (map (trigger_end s) (sorted_keys (ss_triggerDown s)))"

lemma set_sorted_keys: "k \<in> set (sorted_keys m) \<longleftrightarrow> fmlookup m k \<noteq> None"
  by (simp add: sorted_keys_def fmlookup_dom_iff)

lemma distinct_sorted_keys: "distinct (sorted_keys m)"
  by (simp add: sorted_keys_def sorted_list_of_fset.rep_eq)

lemma distinct_ends:
  assumes "distinct xs" and "\<And>x. g x = [] \<or> (\<exists>y. g x = [y])"
    and "\<And>x x'. x \<in> set xs \<Longrightarrow> x' \<in> set xs \<Longrightarrow> g x = g x' \<Longrightarrow> g x \<noteq> [] \<Longrightarrow> x = x'"
  shows "distinct (concat (map g xs))"
  using assms(1,3)
proof (induction xs)
  case (Cons x xs)
  then have "distinct (concat (map g xs))" by auto
  moreover have "set (g x) \<inter> set (concat (map g xs)) = {}"
  proof (rule ccontr)
    assume "set (g x) \<inter> set (concat (map g xs)) \<noteq> {}"
    then obtain y x' where "y \<in> set (g x)" "x' \<in> set xs" "y \<in> set (g x')" by auto
    then have "g x = [y]" "g x' = [y]" using assms(2) [of x] assms(2) [of x'] by auto
    with Cons.prems \<open>x' \<in> set xs\<close> have "x = x'" by auto
    with Cons.prems(1) \<open>x' \<in> set xs\<close> show False by simp
  qed
  moreover have "distinct (g x)" using assms(2) [of x] by auto
  ultimately show ?case by simp
qed simp

lemma set_enumerate: "set (enumerate 0 xs) = (\<lambda>i. (i, xs ! i)) ` {..<length xs}"
  by (force simp: in_set_enumerate_eq)

lemma set_all_ends: "set (all_ends chords s) = active chords s"
proof -
  have sticks: "stick_region s stick \<noteq> [] \<Longrightarrow> stick \<in> set (sorted_keys (ss_stickRegions s))" for stick
    by (auto simp: stick_region_def set_sorted_keys split: option.splits)
  have triggers: "trigger_down s trigger \<Longrightarrow> trigger \<in> set (sorted_keys (ss_triggerDown s))" for trigger
    by (auto simp: trigger_down_def set_sorted_keys split: option.splits)
  have "set (concat (map (chord_end s) (enumerate 0 chords)))
    = {(Chord, ch_Buttons (chords ! i), ch_Name (chords ! i)) | i. i < length chords \<and> fmlookup (ss_activeChords s) i \<noteq> None}"
    by (auto simp: chord_end_def chord_ident_def set_enumerate image_iff split: if_splits)
  moreover have "set (concat (map (stick_end s) (sorted_keys (ss_stickRegions s))))
    = {(StickRegion, [control], stick_region s stick) | stick control.
          stickControl stick = Some control \<and> stick_region s stick \<noteq> []}"
    using sticks by (force simp: stick_end_def split: if_splits option.splits)
  moreover have "set (concat (map (trigger_end s) (sorted_keys (ss_triggerDown s))))
    = {(TriggerThreshold, [control], []) | trigger control.
          triggerControl trigger = Some control \<and> trigger_down s trigger}"
    using triggers by (force simp: trigger_end_def split: if_splits option.splits)
  ultimately show ?thesis by (simp add: all_ends_def active_def Un_assoc)
qed

lemma distinct_all_ends:
  assumes "distinct (map ch_Name chords)"
  shows "distinct (all_ends chords s)"
proof -
  have names: "i = j" if "i < length chords" "j < length chords" "ch_Name (chords ! i) = ch_Name (chords ! j)" for i j
    using that assms nth_eq_iff_index_eq [of "map ch_Name chords" i j] by simp
  have "distinct (concat (map (chord_end s) (enumerate 0 chords)))"
    by (rule distinct_ends)
      (auto simp: chord_end_def chord_ident_def in_set_enumerate_eq distinct_enumerate dest: names split: if_splits)
  moreover have "distinct (concat (map (stick_end s) (sorted_keys (ss_stickRegions s))))"
    by (rule distinct_ends)
      (auto simp: stick_end_def distinct_sorted_keys dest: stick_controls split: if_splits option.splits)
  moreover have "distinct (concat (map (trigger_end s) (sorted_keys (ss_triggerDown s))))"
    by (rule distinct_ends)
      (auto simp: trigger_end_def distinct_sorted_keys dest: trigger_controls split: if_splits option.splits)
  ultimately show ?thesis
    by (auto simp: all_ends_def chord_end_def chord_ident_def stick_end_def trigger_end_def split: if_splits option.splits)
qed

lemma reset_ends:
  assumes "distinct (map ch_Name (gc_Chords (rg_config r)))" and "reset key s cause now r = (es, r')"
  shows "follow (active (gc_Chords (rg_config r)) s) (moves es) = Some {}"
    and "rg_config r' = rg_config r" and "rg_processing r' = rg_processing r"
    and "rg_states r' = fmdrop key (rg_states r)"
proof -
  let ?a = "emit_each (end_chord cause s) (indexed_chords r) r"
  let ?b = "emit_each (end_hold cause now s) (sorted_keys (ss_pressed s)) (snd ?a)"
  let ?c = "emit_each (end_stick cause s) (sorted_keys (ss_stickRegions s)) (snd ?b)"
  let ?d = "emit_each (end_trigger cause s) (sorted_keys (ss_triggerDown s)) (snd ?c)"
  from assms(2) have es: "es = fst ?a @ fst ?b @ fst ?c @ fst ?d"
    and r': "r' = (snd ?d)\<lparr>rg_states := fmdrop key (rg_states (snd ?d))\<rparr>"
    by (simp_all add: reset_def Let_def case_prod_beta)
  have "moves es = map (Pair PhaseEnded) (all_ends (gc_Chords (rg_config r)) s)"
    unfolding es moves_append
    by (simp only: emit_each_moves [OF ends_moves(1)] emit_each_moves [where g = "\<lambda>_. []", OF ends_moves(2)]
        emit_each_moves [OF ends_moves(3)] emit_each_moves [OF ends_moves(4)] all_ends_def map_append indexed_chords_def)
      simp
  then show "follow (active (gc_Chords (rg_config r)) s) (moves es) = Some {}"
    using follow_ended [OF distinct_all_ends [OF assms(1)]] set_all_ends by auto
  have "same_streams r (snd ?a)" "same_streams (snd ?a) (snd ?b)" "same_streams (snd ?b) (snd ?c)" "same_streams (snd ?c) (snd ?d)"
    by (rule emit_each_streams, rule ends_streams)+
  then have "same_streams r (snd ?d)" by (blast intro: same_streams_trans)
  then show "rg_config r' = rg_config r" "rg_processing r' = rg_processing r" "rg_states r' = fmdrop key (rg_states r)"
    by (simp_all add: r' same_streams_def)
qed

subsection \<open>One call\<close>

lemma useMonotonic_active [simp]: "active chords (useMonotonic s) = active chords s"
  by (rule active_cong) (simp_all add: useMonotonic_def)

lemma eventTime_active [simp]: "active chords (snd (eventTime h p s)) = active chords s"
  by (simp add: eventTime_def Let_def)

lemma expireTaps_active [simp]: "active chords (expireTaps c now s) = active chords s"
  by (simp add: expireTaps_def)

lemma active_new_stream [simp]: "active chords new_stream = {}"
  by (simp add: active_def new_stream_def stick_region_def trigger_down_def)

lemma stream_state_put:
  "same_streams r r1 \<Longrightarrow> stream_state (put_state key s r1) k = (if k = key then s else stream_state r k)"
  by (simp add: stream_state_def put_state_def same_streams_def)

lemma stream_state_drop:
  "rg_states r' = fmdrop key (rg_states r) \<Longrightarrow> stream_state r' k = (if k = key then new_stream else stream_state r k)"
  by (simp add: stream_state_def)

text \<open>What a call on stream \<open>key\<close> does: the events replay the change of that stream's active set, and the other
  streams keep theirs.\<close>

definition stream_tracks :: "streamKey \<Rightarrow> Recognizer \<Rightarrow> GestureEvent list \<times> Recognizer \<Rightarrow> bool" where
  "stream_tracks key r result \<longleftrightarrow> (case result of (es, r') \<Rightarrow>
     follow (active (gc_Chords (rg_config r)) (stream_state r key)) (moves es)
       = Some (active (gc_Chords (rg_config r)) (stream_state r' key))
     \<and> (\<forall>k. k \<noteq> key \<longrightarrow> stream_state r' k = stream_state r k)
     \<and> rg_config r' = rg_config r)"

lemma stream_tracks_put:
  assumes "tracks (gc_Chords (rg_config r)) r s result"
    and "active (gc_Chords (rg_config r)) s = active (gc_Chords (rg_config r)) (stream_state r key)"
  shows "stream_tracks key r (case result of (es, r1, s1) \<Rightarrow> (es, put_state key s1 r1))"
proof -
  obtain es r1 s1 where result: "result = (es, r1, s1)" by (cases result) auto
  with assms(1) have "same_streams r r1" by (simp add: tracks_def)
  with assms result show ?thesis
    by (simp add: stream_tracks_def tracks_def stream_state_put) (simp add: put_state_def same_streams_def)
qed

lemma recognizeLocked_tracks:
  assumes "distinct (map ch_Name (gc_Chords (rg_config r)))"
  shows "stream_tracks (stream_key input) r (recognizeLocked G input r)"
proof -
  let ?key = "stream_key input" and ?chords = "gc_Chords (rg_config r)"
  let ?t = "eventTime (event_header input) (rg_processing r) (stream_state r ?key)"
  let ?s = "expireTaps (rg_config r) (fst ?t) (snd ?t)"
  have idle: "stream_tracks ?key r ([], put_state ?key ?s r)"
    using stream_tracks_put [of r ?s "([], r, ?s)" ?key] by (simp add: tracks_def)
  have finish: "tracks ?chords r ?s result
      \<Longrightarrow> stream_tracks ?key r (case result of (es, r1, s1) \<Rightarrow> (es, put_state ?key s1 r1))" for result
    by (erule stream_tracks_put) simp
  have gone: "stream_tracks ?key r (reset ?key ?s meta now r)" for meta now
  proof -
    obtain es r' where reset: "reset ?key ?s meta now r = (es, r')" by (cases "reset ?key ?s meta now r")
    show ?thesis
      using reset_ends [OF assms reset] stream_state_drop by (simp add: reset stream_tracks_def)
  qed
  show ?thesis
    by (cases input)
      (use idle gone finish [OF processButton_tracks [OF assms]] finish [OF processStick_tracks]
        finish [OF processTrigger_tracks] in \<open>auto simp: recognizeLocked_def Let_def case_prod_beta\<close>)
qed

lemma disconnect_clears:
  assumes "distinct (map ch_Name (gc_Chords (rg_config r)))"
  shows "stream_state (snd (recognizeLocked G (ConnectionEvent meta Disconnected detail) r))
     (stream_key (ConnectionEvent meta Disconnected detail)) = new_stream"
proof -
  let ?key = "stream_key (ConnectionEvent meta Disconnected detail)"
  let ?t = "eventTime meta (rg_processing r) (stream_state r ?key)"
  let ?s = "expireTaps (rg_config r) (fst ?t) (snd ?t)"
  obtain es r' where reset: "reset ?key ?s meta (fst ?t) r = (es, r')" by (cases "reset ?key ?s meta (fst ?t) r")
  show ?thesis
    using stream_state_drop [OF reset_ends(4) [OF assms reset]] reset
    by (simp add: recognizeLocked_def Let_def case_prod_beta)
qed

subsection \<open>Advancing time\<close>

text \<open>Advancing starts holds and nothing else.\<close>

definition hold_start :: "GestureEvent \<Rightarrow> bool" where
  "hold_start e \<longleftrightarrow> gv_Type e = Hold \<and> gv_Phase e = PhaseStarted"

lemma start_hold_step:
  assumes "start_hold elapsed now button (r, s) = (es, r', s')"
  shows "list_all hold_start es \<and> same_streams r r' \<and> active chords s' = active chords s"
  using assms
  by (auto simp: start_hold_def Let_def case_prod_beta hold_start_def split: option.splits if_splits)

lemma start_holds_step:
  "start_holds elapsed now buttons (r, s) = (es, r', s')
    \<Longrightarrow> list_all hold_start es \<and> same_streams r r' \<and> active chords s' = active chords s"
proof (induction buttons arbitrary: r s es)
  case (Cons button buttons)
  obtain es1 r1 s1 where first: "start_hold elapsed now button (r, s) = (es1, r1, s1)"
    by (cases "start_hold elapsed now button (r, s)") auto
  obtain es2 r2 s2 where rest: "start_holds elapsed now buttons (r1, s1) = (es2, r2, s2)"
    by (cases "start_holds elapsed now buttons (r1, s1)") auto
  from Cons.prems first rest have "es = es1 @ es2" "r' = r2" "s' = s2" by (simp_all add: Let_def)
  then show ?case
    using start_hold_step [OF first, of chords] Cons.IH [of r1 s1 es2] rest by (auto intro: same_streams_trans)
qed auto

lemma advance_streams_step:
  "advance_streams wall session elapsed keys r = (es, r') \<Longrightarrow> list_all hold_start es \<and> rg_config r' = rg_config r
     \<and> active chords (stream_state r' k) = active chords (stream_state r k)"
proof (induction keys arbitrary: r es)
  case (Cons key keys)
  let ?base = "if elapsed \<noteq> None then useMonotonic (stream_state r key) else stream_state r key"
  let ?now = "case elapsed of None \<Rightarrow> wall | Some d \<Rightarrow> monotonicEpoch + d"
  let ?s = "expireTaps (rg_config r) ?now ?base"
  show ?case
  proof (cases "(case session of None \<Rightarrow> False | Some i \<Rightarrow> fst key \<noteq> i) \<or> ss_monotonic ?base \<noteq> (elapsed \<noteq> None)")
    case True
    then have "advance_streams wall session elapsed keys r = (es, r')"
      using Cons.prems by (auto simp: Let_def split: if_splits)
    then show ?thesis by (rule Cons.IH)
  next
    case False
    obtain es1 r1 s1 where first: "start_holds elapsed ?now (sorted_keys (ss_pressed ?s)) (r, ?s) = (es1, r1, s1)"
      by (cases "start_holds elapsed ?now (sorted_keys (ss_pressed ?s)) (r, ?s)") auto
    obtain es2 where rest: "advance_streams wall session elapsed keys (put_state key s1 r1) = (es2, r')"
      and es: "es = es1 @ es2"
      using Cons.prems False first by (auto simp: Let_def split: if_splits prod.splits)
    note step = start_holds_step [OF first, of chords]
    then have "active chords (stream_state (put_state key s1 r1) k) = active chords (stream_state r k)"
      using stream_state_put [of r r1 key s1 k] by auto
    moreover have "rg_config (put_state key s1 r1) = rg_config r"
      using step by (simp add: put_state_def same_streams_def)
    ultimately show ?thesis using Cons.IH [OF rest] step es by simp
  qed
qed simp

lemma advanceLocked_step:
  assumes "advanceLocked wall session elapsed r = (es, r')"
  shows "list_all hold_start es \<and> rg_config r' = rg_config r
     \<and> active chords (stream_state r' k) = active chords (stream_state r k)"
  using assms advance_streams_step [of wall session elapsed "sorted_keys (rg_states r)" r es r' chords k]
  by (auto simp: advanceLocked_def split: if_splits)

lemma hold_starts_moves: "list_all hold_start es \<Longrightarrow> moves es = []"
  by (induction es) (auto simp: hold_start_def)

subsection \<open>Runs\<close>

text \<open>The calls a client or the controller's pipeline makes, in any order.\<close>

datatype gesture_call =
    CallRecognize gesture_env Event
  | CallProcessContext gesture_env processing Event
  | CallAdvance timestamp
  | CallAdvanceMonotonic session_id duration
  | CallAdvanceContext processing timestamp

fun gesture_call_step :: "gesture_call \<Rightarrow> Recognizer \<Rightarrow> GestureEvent list \<times> Recognizer" where
  "gesture_call_step (CallRecognize G input) r = Recognize G input r"
| "gesture_call_step (CallProcessContext G p input) r = gesture_ProcessContext G p input r"
| "gesture_call_step (CallAdvance now) r = AdvanceGestures now r"
| "gesture_call_step (CallAdvanceMonotonic session now) r = AdvanceMonotonic session now r"
| "gesture_call_step (CallAdvanceContext p now) r = gesture_AdvanceContext p now r"

fun call_stream :: "gesture_call \<Rightarrow> streamKey option" where
  "call_stream (CallRecognize G input) = Some (stream_key input)"
| "call_stream (CallProcessContext G p input) = Some (stream_key input)"
| "call_stream _ = None"

text \<open>The gesture events the calls on stream \<open>key\<close> returned, in order, and the final recognizer.\<close>

fun gesture_run :: "streamKey \<Rightarrow> gesture_call list \<Rightarrow> Recognizer \<Rightarrow> GestureEvent list \<times> Recognizer" where
  "gesture_run key [] r = ([], r)"
| "gesture_run key (call # calls) r =
     (let (es, r) = gesture_call_step call r; (result, r) = gesture_run key calls r
      in ((if call_stream call = Some key then es else []) @ result, r))"

lemma processing_fields [simp]:
  "stream_state (r\<lparr>rg_processing := p\<rparr>) key = stream_state r key"
  "rg_config (r\<lparr>rg_processing := p\<rparr>) = rg_config r"
  by (simp_all add: stream_state_def)

lemma recognizeLocked_stream:
  assumes "distinct (map ch_Name (gc_Chords (rg_config r)))" and "recognizeLocked G input r = (es, r')"
  shows "rg_config r' = rg_config r \<and> follow (active (gc_Chords (rg_config r)) (stream_state r key))
      (moves (if stream_key input = key then es else []))
    = Some (active (gc_Chords (rg_config r)) (stream_state r' key))"
  using recognizeLocked_tracks [OF assms(1), of input G] assms(2) by (cases key) (auto simp: stream_tracks_def)

lemma advanceLocked_active:
  "rg_config (snd (advanceLocked wall session elapsed r)) = rg_config r"
  "active chords (stream_state (snd (advanceLocked wall session elapsed r)) k) = active chords (stream_state r k)"
  using advanceLocked_step [of wall session elapsed r "fst (advanceLocked wall session elapsed r)"
      "snd (advanceLocked wall session elapsed r)"] by simp_all

lemma gesture_call_step_stream:
  assumes "distinct (map ch_Name (gc_Chords (rg_config r)))" and "gesture_call_step call r = (es, r')"
  shows "rg_config r' = rg_config r \<and> follow (active (gc_Chords (rg_config r)) (stream_state r key))
      (moves (if call_stream call = Some key then es else []))
    = Some (active (gc_Chords (rg_config r)) (stream_state r' key))"
proof (cases call)
  case (CallRecognize G input)
  then show ?thesis using recognizeLocked_stream [OF assms(1)] assms(2) by (simp add: Recognize_def)
next
  case (CallProcessContext G p input)
  then obtain r1 where "recognizeLocked G input (r\<lparr>rg_processing := Some p\<rparr>) = (es, r1)" "r' = r1\<lparr>rg_processing := None\<rparr>"
    using assms(2) by (auto simp: gesture_ProcessContext_def Let_def split: prod.splits)
  with CallProcessContext show ?thesis
    using recognizeLocked_stream [of "r\<lparr>rg_processing := Some p\<rparr>" G input es r1 key] assms(1) by simp
qed (use assms(2) in \<open>auto simp: AdvanceGestures_def AdvanceMonotonic_def gesture_AdvanceContext_def Let_def case_prod_beta
      advanceLocked_active split: option.splits dest!: arg_cong [where f = snd]\<close>)

lemma gesture_run_stream:
  assumes "distinct (map ch_Name (gc_Chords (rg_config r)))"
  shows "gesture_run key calls r = (es, r') \<Longrightarrow>
    rg_config r' = rg_config r \<and> follow (active (gc_Chords (rg_config r)) (stream_state r key)) (moves es)
      = Some (active (gc_Chords (rg_config r)) (stream_state r' key))"
  using assms
proof (induction calls arbitrary: r es)
  case (Cons call calls)
  obtain es1 r1 where first: "gesture_call_step call r = (es1, r1)" by (cases "gesture_call_step call r")
  obtain es2 where rest: "gesture_run key calls r1 = (es2, r')"
    and es: "es = (if call_stream call = Some key then es1 else []) @ es2"
    using Cons.prems(1) first by (auto simp: Let_def split: prod.splits)
  note step = gesture_call_step_stream [OF Cons.prems(2) first, of key]
  then show ?case using Cons.IH [OF rest] Cons.prems(2) unfolding es moves_append follow_append by simp
qed simp

lemma gesture_New_config:
  assumes "gesture_New stream config = Returned r"
  shows "distinct (map ch_Name (gc_Chords (rg_config r)))" and "stream_state r key = new_stream"
  using assms
  by (auto simp: gesture_New_def Let_def validateConfig_def bad_chords_def stream_state_def split: if_splits)

text \<open>
  C33. Gesture events are the changes of what is in progress. Whatever calls are made on a recognizer that
  \<^verbatim>\<open>gesture.New\<close> returned, the chord, stick-region and trigger events reported for a stream, replayed from
  nothing in progress, start only what is not in progress, end only what is, and leave exactly what the stream has in progress.
\<close>

theorem gesture_events_replay:
  assumes "gesture_New stream config = Returned r" and "gesture_run key calls r = (es, r')"
  shows "follow {} (moves es) = Some (active (gc_Chords (rg_config r')) (stream_state r' key))"
  using gesture_run_stream [OF gesture_New_config(1) [OF assms(1)] assms(2)] gesture_New_config(2) [OF assms(1), of key]
  by simp

definition demo_gestures :: GestureConfig where
  "demo_gestures = \<lparr>gc_TapMaximum = 2, gc_DoubleTapWindow = 2, gc_HoldMinimum = 3, gc_StickThreshold = Fin (1 / 2),
     gc_StickHysteresis = Fin (1 / 4), gc_TriggerThreshold = Fin (1 / 2), gc_TriggerHysteresis = Fin (1 / 4),
     gc_Chords = [\<lparr>ch_Name = ''combo'', ch_Buttons = [''b'', ''a'']\<rparr>]\<rparr>"

definition demo_recognizer :: Recognizer where
  "demo_recognizer = \<lparr>rg_config = demo_gestures\<lparr>gc_Chords := [\<lparr>ch_Name = ''combo'', ch_Buttons = [''a'', ''b'']\<rparr>]\<rparr>,
     rg_states = fmempty, rg_fallbackStream = ''g'', rg_fallbackSeq = fmempty, rg_processing = None, rg_calls = 0\<rparr>"

definition demo_genv :: gesture_env where
  "demo_genv = \<lparr>ge_atan2 = (\<lambda>y x. Fin 0), ge_now = 1\<rparr>"

definition demo_meta :: "int \<Rightarrow> Header" where
  "demo_meta t = zero_header\<lparr>hd_ObservedAt := t\<rparr>"

definition demo_button :: "int \<Rightarrow> string \<Rightarrow> bool \<Rightarrow> gesture_call" where
  "demo_button t b down = CallRecognize demo_genv (ButtonEvent (demo_meta t) b (if down then PhasePressed else PhaseReleased) down)"

definition demo_leave :: "int \<Rightarrow> gesture_call" where
  "demo_leave t = CallRecognize demo_genv (ConnectionEvent (demo_meta t) Disconnected [])"

lemma demo_gesture_New: "gesture_New ''g'' demo_gestures = Returned demo_recognizer"
proof -
  have "with_defaults demo_gestures = rg_config demo_recognizer" by code_simp
  moreover have "validateConfig (rg_config demo_recognizer) = nil" by code_simp
  ultimately show ?thesis by (simp add: gesture_New_def Let_def) (simp add: demo_recognizer_def)
qed

definition demo_presses :: "gesture_call list" where
  "demo_presses = [demo_button 1 ''a'' True, demo_button 2 ''b'' True]"

lemma demo_presses_moves:
  "moves (fst (gesture_run (0, []) demo_presses demo_recognizer)) = [(PhaseStarted, (Chord, [''a'', ''b''], ''combo''))]"
  by code_simp

theorem gesture_events_replay_witness:
  "case gesture_run (0, []) demo_presses demo_recognizer of (es, r') \<Rightarrow>
     follow {} [(PhaseStarted, (Chord, [''a'', ''b''], ''combo''))]
       = Some (active (gc_Chords (rg_config r')) (stream_state r' (0, [])))"
  using gesture_events_replay [OF demo_gesture_New, of "(0, [])" demo_presses] demo_presses_moves
  by (cases "gesture_run (0, []) demo_presses demo_recognizer") simp

text \<open>
  A disconnection ends everything: after the disconnection of a stream is recognised, replaying every chord, stick-region
  and trigger event ever reported for it leaves nothing in progress.
\<close>

theorem disconnection_ends_gestures:
  assumes "gesture_New stream config = Returned r"
    and "gesture_run key (calls @ [CallRecognize G (ConnectionEvent meta Disconnected detail)]) r = (es, r')"
    and "stream_key (ConnectionEvent meta Disconnected detail) = key"
  shows "follow {} (moves es) = Some {}"
proof -
  have "gesture_run key (calls @ [call]) r0
      = (let (es, r1) = gesture_run key calls r0; (es', r2) = gesture_run key [call] r1 in (es @ es', r2))" for call r0
    by (induction calls arbitrary: r0) (auto simp: Let_def split: prod.splits)
  with assms(2) obtain es1 r1 where run: "gesture_run key calls r = (es1, r1)"
    and r': "r' = snd (recognizeLocked G (ConnectionEvent meta Disconnected detail) r1)"
    by (auto simp: Recognize_def Let_def split: prod.splits)
  have "distinct (map ch_Name (gc_Chords (rg_config r1)))"
    using gesture_run_stream [OF gesture_New_config(1) [OF assms(1)] run] gesture_New_config(1) [OF assms(1)] by simp
  then have "stream_state r' key = new_stream"
    using disconnect_clears [of r1 G meta detail] r' assms(3) by simp
  then show ?thesis
    using gesture_run_stream [OF gesture_New_config(1) [OF assms(1)] assms(2)] gesture_New_config(2) [OF assms(1), of key]
    by simp
qed


theorem disconnection_ends_gestures_witness:
  "follow {} (moves (fst (gesture_run (0, []) (demo_presses @ [demo_leave 3]) demo_recognizer))) = Some {}"
proof -
  have "stream_key (ConnectionEvent (demo_meta 3) Disconnected []) = (0, [])"
    by (simp add: stream_key_def demo_meta_def zero_header_def zero_event_id_def)
  then show ?thesis
    using disconnection_ends_gestures [OF demo_gesture_New, of "(0, [])" demo_presses demo_genv "demo_meta 3" "[]"]
    by (cases "gesture_run (0, []) (demo_presses @ [demo_leave 3]) demo_recognizer") (simp add: demo_leave_def)
qed

subsection \<open>Holds and chords\<close>

text \<open>A hold that has started, whose button then completes a chord, is never ended: the chord consumes the press, and
  neither the release of the button nor the disconnection of the stream reports the end of a consumed press.\<close>

lemma hold_left_open:
  "map (\<lambda>e. (gv_Type e, gv_Phase e, gv_Controls e)) (concat [fst (gesture_run (0, []) [demo_button 1 ''a'' True] demo_recognizer), 
      fst (AdvanceGestures 9 (snd (gesture_run (0, []) [demo_button 1 ''a'' True] demo_recognizer))),
      fst (gesture_run (0, []) [demo_button 10 ''b'' True, demo_button 11 ''a'' False, demo_button 12 ''b'' False, demo_leave 13]
        (snd (AdvanceGestures 9 (snd (gesture_run (0, []) [demo_button 1 ''a'' True] demo_recognizer)))))])
   = [(Hold, PhaseStarted, [''a'']), (Chord, PhaseStarted, [''a'', ''b'']), (Chord, PhaseEnded, [''a'', ''b''])]"
  by code_simp

end
