(* ===== verification/ActionSafety.thy ===== *)
theory ActionSafety
  imports Action GestureSafety
begin

text \<open>
  What a mapper guarantees to the application: the events it returns without a processing context are never numbered alike, and
  a binding made by \<^verbatim>\<open>OnChord\<close> for a chord of a recognizer's configuration fires exactly for the events that
  report the start of that chord.
\<close>

subsection \<open>Unique identities\<close>

fun action_run :: "action_input list \<Rightarrow> Mapper \<Rightarrow> ActionEvent list \<times> Mapper" where
  "action_run [] m = ([], m)"
| "action_run (input # inputs) m =
     (let (es, m) = action_Map input m; (result, m) = action_run inputs m in (es @ result, m))"

definition ae_ID :: "ActionEvent \<Rightarrow> EventID" where
  "ae_ID e = hd_ID (ae_Meta e)"

definition sequence_of :: "ActionEvent \<Rightarrow> nat" where
  "sequence_of e = unat (id_Sequence (ae_ID e))"

definition session_of :: "ActionEvent \<Rightarrow> session_id" where
  "session_of e = id_Session (ae_ID e)"

lemma map_bindings_sessions:
  "\<forall>e \<in> set (fst (map_bindings None calls kind source values bs m)). session_of e = id_Session (hd_ID source)"
  by (induction bs arbitrary: calls m)
    (auto simp: Let_def case_prod_beta fallback_header_def session_of_def ae_ID_def)

lemma map_bindings_length: "length (fst (map_bindings processing calls kind source values bs m)) \<le> length bs"
  using map_bindings_actions [of processing calls kind source "values" bs m] length_filter_le
  by (metis length_map)

text \<open>One call: its events belong to the session of the input, and their numbers are the next ones.\<close>

lemma action_Map_numbers:
  assumes "action_Map input m = (es, m')" and "next_sequence m (id_Session (hd_ID (input_header input))) + length (mp_bindings m) < 2 ^ 64"
  shows "map sequence_of es = map (\<lambda>i. next_sequence m (id_Session (hd_ID (input_header input))) + 1 + i) [0..<length es]
    \<and> (\<forall>e \<in> set es. session_of e = id_Session (hd_ID (input_header input)))
    \<and> (\<forall>s. next_sequence m' s = next_sequence m s + (if s = id_Session (hd_ID (input_header input)) then length es else 0))
    \<and> length es \<le> length (mp_bindings m) \<and> mp_bindings m' = mp_bindings m"
proof (cases "eventValues input")
  case None
  with assms(1) have "es = []" "m' = m" by (simp_all add: action_Map_def mapInput_def)
  then show ?thesis by simp
next
  case (Some xs)
  let ?mapped = "map_bindings None 0 (input_kind input) (input_header input) xs (mp_bindings m) m"
  have "es = fst ?mapped" "m' = snd ?mapped" using assms(1) Some by (simp_all add: action_Map_def mapInput_def)
  then show ?thesis
    using map_bindings_sequences [OF assms(2), of 0 "input_kind input" xs] map_bindings_length [of None 0]
      map_bindings_sessions [of 0 "input_kind input" "input_header input" xs "mp_bindings m" m] map_bindings_keeps(1)
    by (simp add: sequence_of_def [abs_def] ae_ID_def)
qed

text \<open>A run: its numbers exceed those given before it, and no identity occurs twice.\<close>

lemma action_run_ids:
  assumes "action_run inputs m = (es, m')"
    and "\<And>s. next_sequence m s + length inputs * length (mp_bindings m) < 2 ^ 64"
  shows "distinct (map ae_ID es) \<and> (\<forall>e \<in> set es. next_sequence m (session_of e) < sequence_of e)"
  using assms
proof (induction inputs arbitrary: m es)
  case (Cons input inputs)
  let ?session = "id_Session (hd_ID (input_header input))"
  obtain es1 m1 where first: "action_Map input m = (es1, m1)" by (cases "action_Map input m")
  obtain es2 where rest: "action_run inputs m1 = (es2, m')" and es: "es = es1 @ es2"
    using Cons.prems(1) first by (auto simp: Let_def split: prod.splits)
  have bound: "next_sequence m ?session + length (mp_bindings m) < 2 ^ 64"
    using Cons.prems(2) [of ?session] by simp
  have numbers: "map sequence_of es1 = map (\<lambda>i. next_sequence m ?session + 1 + i) [0..<length es1]"
    "\<forall>e \<in> set es1. session_of e = ?session"
    "\<And>s. next_sequence m1 s = next_sequence m s + (if s = ?session then length es1 else 0)"
    "length es1 \<le> length (mp_bindings m)" "mp_bindings m1 = mp_bindings m"
    using action_Map_numbers [OF first bound] by simp_all
  have "next_sequence m1 s + length inputs * length (mp_bindings m1) < 2 ^ 64" for s
    using numbers(3) [of s] numbers(4,5) Cons.prems(2) [of s] by (simp split: if_splits)
  from Cons.IH [OF rest this] have later: "distinct (map ae_ID es2)"
    "\<And>e. e \<in> set es2 \<Longrightarrow> next_sequence m1 (session_of e) < sequence_of e" by auto
  have range: "next_sequence m ?session < sequence_of e \<and> sequence_of e \<le> next_sequence m1 ?session" if "e \<in> set es1" for e
  proof -
    from that have "sequence_of e \<in> set (map sequence_of es1)" by simp
    then show ?thesis unfolding numbers(1) numbers(3) by auto
  qed
  have "distinct (map sequence_of es1)" unfolding numbers(1) by (simp add: distinct_map inj_on_def)
  then have "distinct (map ae_ID es1)"
    by (auto simp: distinct_map sequence_of_def inj_on_def)
  moreover have "ae_ID e \<noteq> ae_ID e'" if "e \<in> set es1" "e' \<in> set es2" for e e'
    using range [OF that(1)] later(2) [OF that(2)] numbers(2) that(1)
    by (metis leD sequence_of_def session_of_def)
  moreover have "next_sequence m s \<le> next_sequence m1 s" for s by (simp add: numbers(3))
  ultimately show ?case
    using later range numbers(2) unfolding es by (fastforce intro: le_less_trans)
qed simp

text \<open>
  C32. A mapper that \<^verbatim>\<open>action.New\<close> returned never gives two of the events of its standalone stream the same
  identity, whatever inputs of whatever sessions it maps, until a session's 64-bit counter could wrap.
\<close>

theorem mapped_actions_distinct:
  assumes "action_New stream bindings = Returned m" and "length inputs * length bindings < 2 ^ 64"
  shows "distinct (map (\<lambda>e. hd_ID (ae_Meta e)) (fst (action_run inputs m)))"
proof -
  have "length (mp_bindings m) = length bindings" "next_sequence m s = 0" for s
    using assms(1) by (auto simp: action_New_def Let_def next_sequence_def split: if_splits)
  then show ?thesis
    using action_run_ids [of inputs m "fst (action_run inputs m)" "snd (action_run inputs m)"] assms(2)
    by (simp add: ae_ID_def [abs_def])
qed

definition demo_bindings :: "Binding list" where
  "demo_bindings = [OnChord ''stop'' ''combo'' [''b'', ''a''], OnConnection ''halt'' Disconnected]"

definition demo_mapper :: Mapper where
  "demo_mapper = \<lparr>mp_bindings = map canonical_binding demo_bindings, mp_fallbackStream = ''m'', mp_fallbackSeq = fmempty\<rparr>"

lemma demo_action_New: "action_New ''m'' demo_bindings = Returned demo_mapper"
proof -
  have "\<not> list_ex (\<lambda>b. validateBinding b \<noteq> nil) (map canonical_binding demo_bindings)" by code_simp
  then show ?thesis by (simp add: action_New_def Let_def demo_mapper_def)
qed

definition demo_leaving :: action_input where
  "demo_leaving = InputEvent (ConnectionEvent (demo_meta 1) Disconnected [])"

theorem mapped_actions_distinct_witness:
  "distinct (map (\<lambda>e. hd_ID (ae_Meta e)) (fst (action_run [demo_leaving, demo_leaving] demo_mapper)))
   \<and> map ae_Action (fst (action_run [demo_leaving, demo_leaving] demo_mapper)) = [''halt'', ''halt'']"
proof
  show "distinct (map (\<lambda>e. hd_ID (ae_Meta e)) (fst (action_run [demo_leaving, demo_leaving] demo_mapper)))"
    by (rule mapped_actions_distinct [OF demo_action_New]) (simp add: demo_bindings_def)
  show "map ae_Action (fst (action_run [demo_leaving, demo_leaving] demo_mapper)) = [''halt'', ''halt'']"
    by code_simp
qed

subsection \<open>Chord bindings\<close>

text \<open>Every chord event names a configured chord and carries its controls.\<close>

definition chord_ok :: "ChordSpec list \<Rightarrow> GestureEvent \<Rightarrow> bool" where
  "chord_ok chords e \<longleftrightarrow> (gv_Type e = Chord \<longrightarrow> ident_of e \<in> chord_ident ` set chords)"

lemma started_chord_ok:
  "snd ` set ics \<subseteq> set chords \<Longrightarrow> list_all (chord_ok chords) (fst (startedChords ics meta button r s))"
  by (induction ics arbitrary: r s) (auto simp: Let_def case_prod_beta chord_ok_def chord_ident_def split: if_splits)

lemma ended_chord_ok:
  "snd ` set ics \<subseteq> set chords \<Longrightarrow> list_all (chord_ok chords) (fst (endedChords ics meta button r s))"
  by (induction ics arbitrary: r s)
    (auto simp: Let_def case_prod_beta chord_ok_def chord_ident_def split: if_splits option.splits)

lemma release_chord_ok: "list_all (chord_ok chords) (fst (release meta button p now len r s))"
  by (auto simp: release_def Let_def case_prod_beta chord_ok_def split: option.split)

lemma indexed_chords_snd: "snd ` set (indexed_chords r) \<subseteq> set (gc_Chords (rg_config r))"
  by (auto simp: indexed_chords_def in_set_enumerate_eq)

lemma button_chord_ok:
  "list_all (chord_ok (gc_Chords (rg_config r))) (fst (processButton G meta button down now r s))"
  using started_chord_ok [OF indexed_chords_snd] ended_chord_ok [OF indexed_chords_snd] release_chord_ok
  by (auto simp: processButton_def Let_def case_prod_beta split: option.split)

lemma analog_chord_ok:
  "list_all (chord_ok chords) (fst (processStick G meta stick position r s))"
  "list_all (chord_ok chords) (fst (processTrigger meta trigger value r s))"
  by (auto simp: processStick_def processTrigger_def Let_def case_prod_beta chord_ok_def split: option.split)

lemma emit_each_ok:
  assumes "\<And>x r. x \<in> set xs \<Longrightarrow> list_all P (fst (f x r))"
  shows "list_all P (fst (emit_each f xs r))"
  using assms by (induction xs arbitrary: r) (auto simp: Let_def case_prod_beta)

lemma end_chord_ok:
  "snd ic \<in> set chords \<Longrightarrow> list_all (chord_ok chords) (fst (end_chord cause s ic r))"
  by (auto simp: end_chord_def Let_def case_prod_beta chord_ok_def chord_ident_def split: option.split)

lemma ends_ok:
  "list_all (chord_ok chords) (fst (end_hold cause now s button r))"
  "list_all (chord_ok chords) (fst (end_stick cause s stick r))"
  "list_all (chord_ok chords) (fst (end_trigger cause s trigger r))"
  by (auto simp: end_hold_def end_stick_def end_trigger_def Let_def case_prod_beta chord_ok_def split: option.split)

lemma reset_chord_ok: "list_all (chord_ok (gc_Chords (rg_config r))) (fst (reset key s cause now r))"
  using indexed_chords_snd [of r]
  by (auto simp: reset_def Let_def case_prod_beta intro!: emit_each_ok end_chord_ok ends_ok)

lemma recognize_chord_ok: "list_all (chord_ok (gc_Chords (rg_config r))) (fst (recognizeLocked G input r))"
  by (cases input) (auto simp: recognizeLocked_def Let_def case_prod_beta button_chord_ok analog_chord_ok reset_chord_ok)

lemma distinct_remdups_adj_sorted: "sorted (xs :: 'a::linorder list) \<Longrightarrow> distinct (remdups_adj xs)"
  by (induction xs rule: remdups_adj.induct) auto

lemma canonicalControls_props:
  "sorted (canonicalControls xs)" "distinct (canonicalControls xs)" "set (canonicalControls xs) = set xs - {[]}"
proof -
  show "sorted (canonicalControls xs)"
    unfolding canonicalControls_def by (intro sorted_wrt_filter sorted_remdups_adj) simp
  have "distinct (remdups_adj (sort xs))" by (rule distinct_remdups_adj_sorted) simp
  then show "distinct (canonicalControls xs)" by (simp add: canonicalControls_def)
  show "set (canonicalControls xs) = set xs - {[]}" by (auto simp: canonicalControls_def)
qed

lemma canonicalControls_cong: "set xs - {[]} = set ys - {[]} \<Longrightarrow> canonicalControls xs = canonicalControls ys"
  by (rule sorted_distinct_set_unique) (simp_all add: canonicalControls_props)

lemma canonicalControls_idem: "canonicalControls (canonicalControls xs) = canonicalControls xs"
  by (rule canonicalControls_cong) (simp add: canonicalControls_props)

lemma gesture_New_chords:
  "gesture_New stream config = Returned r \<Longrightarrow>
     gc_Chords (rg_config r) = map (\<lambda>chord. chord\<lparr>ch_Buttons := canonicalControls (ch_Buttons chord)\<rparr>) (gc_Chords config)"
  by (auto simp: gesture_New_def with_defaults_def Let_def split: if_splits)

lemma OnChord_actions:
  assumes "action_New mstream [OnChord action name controls] = Returned m"
  shows "map ae_Action (fst (action_Map (InputGesture e) m)) =
    (if gv_Type e = Chord \<and> gv_Phase e = PhaseStarted \<and> gv_Region e = name
       \<and> canonicalControls (gv_Controls e) = canonicalControls controls then [action] else [])"
proof -
  let ?b = "canonical_binding (OnChord action name controls)"
  from assms have m: "mp_bindings m = [?b]" and ok: "validateBinding ?b = nil"
    by (auto simp: action_New_def Let_def split: if_splits)
  from ok have "name \<noteq> []" "canonicalControls controls \<noteq> []"
    by (auto simp: validateBinding_def canonical_binding_def OnChord_def zero_binding_def canonicalControls_idem split: if_splits)
  then show ?thesis
    by (auto simp: action_Map_def mapInput_def m map_bindings_actions binding_matches_def Let_def plain_values_def
        canonical_binding_def OnChord_def zero_binding_def canonicalControls_idem)
qed

text \<open>
  C34. A chord binding fires for its chord and for nothing else: let a recognizer be built from a configuration that has the chord
  \<open>chord\<close>, and let a mapper bind \<^verbatim>\<open>OnChord\<close> to that chord's name and buttons, in whatever order
  either lists them. Then after any calls, an event the recognizer returns is mapped to the action exactly when it
  reports the start of the chord of that name.
\<close>

theorem chord_binding_exact:
  assumes "gesture_New stream config = Returned r" and "chord \<in> set (gc_Chords config)"
    and "action_New mstream [OnChord action (ch_Name chord) controls] = Returned m"
    and "set controls = set (ch_Buttons chord)" and "gesture_run key calls r = (es, r')"
    and "e \<in> set (fst (recognizeLocked G input r'))"
  shows "map ae_Action (fst (action_Map (InputGesture e) m)) =
    (if gv_Type e = Chord \<and> gv_Phase e = PhaseStarted \<and> gv_Region e = ch_Name chord then [action] else [])"
proof -
  have config: "rg_config r' = rg_config r"
    using gesture_run_stream [OF gesture_New_config(1) [OF assms(1)] assms(5)] by simp
  have "canonicalControls (gv_Controls e) = canonicalControls controls" if "gv_Type e = Chord" "gv_Region e = ch_Name chord"
  proof -
    have "chord_ok (gc_Chords (rg_config r)) e"
      using recognize_chord_ok [of r' G input] assms(6) config by (simp add: list_all_iff)
    with that(1) obtain c where c: "c \<in> set (gc_Chords (rg_config r))" "ident_of e = chord_ident c"
      by (auto simp: chord_ok_def)
    moreover have "chord\<lparr>ch_Buttons := canonicalControls (ch_Buttons chord)\<rparr> \<in> set (gc_Chords (rg_config r))"
      using assms(2) gesture_New_chords [OF assms(1)] by simp
    moreover have "ch_Name c = ch_Name chord" using c(2) that(2) by (simp add: ident_of_def chord_ident_def)
    ultimately have "c = chord\<lparr>ch_Buttons := canonicalControls (ch_Buttons chord)\<rparr>"
      using gesture_New_config(1) [OF assms(1)] by (intro inj_onD [of ch_Name "set (gc_Chords (rg_config r))"]) (simp_all add: distinct_map)
    then show ?thesis
      using c(2) assms(4) canonicalControls_cong [of controls "ch_Buttons chord"]
      by (simp add: ident_of_def chord_ident_def canonicalControls_idem)
  qed
  then show ?thesis using OnChord_actions [OF assms(3), of e] by auto
qed

definition demo_chord_mapper :: Mapper where
  "demo_chord_mapper = demo_mapper\<lparr>mp_bindings := [canonical_binding (OnChord ''stop'' ''combo'' [''a'', ''b''])]\<rparr>"

definition demo_second :: Event where
  "demo_second = ButtonEvent (demo_meta 2) ''b'' PhasePressed True"

lemma demo_chord_New: "action_New ''m'' [OnChord ''stop'' ''combo'' [''a'', ''b'']] = Returned demo_chord_mapper"
proof -
  have "validateBinding (canonical_binding (OnChord ''stop'' ''combo'' [''a'', ''b''])) = nil" by code_simp
  then show ?thesis by (simp add: action_New_def Let_def demo_chord_mapper_def demo_mapper_def)
qed

theorem chord_binding_exact_witness:
  "case gesture_run (0, []) [demo_button 1 ''a'' True] demo_recognizer of (es, r') \<Rightarrow>
     (case fst (recognizeLocked demo_genv demo_second r') of [e] \<Rightarrow>
        map ae_Action (fst (action_Map (InputGesture e) demo_chord_mapper)) = [''stop'']
      | _ \<Rightarrow> False)"
proof -
  obtain es r' where run: "gesture_run (0, []) [demo_button 1 ''a'' True] demo_recognizer = (es, r')"
    by (cases "gesture_run (0, []) [demo_button 1 ''a'' True] demo_recognizer")
  let ?events = "fst (recognizeLocked demo_genv demo_second (snd (gesture_run (0, []) [demo_button 1 ''a'' True] demo_recognizer)))"
  have "map (\<lambda>e. (gv_Type e, gv_Phase e, gv_Region e)) ?events = [(Chord, PhaseStarted, ''combo'')]" by code_simp
  then obtain e where e: "fst (recognizeLocked demo_genv demo_second r') = [e]"
    "gv_Type e = Chord" "gv_Phase e = PhaseStarted" "gv_Region e = ''combo''" using run by auto
  have "map ae_Action (fst (action_Map (InputGesture e) demo_chord_mapper)) =
    (if gv_Type e = Chord \<and> gv_Phase e = PhaseStarted \<and> gv_Region e = ch_Name \<lparr>ch_Name = ''combo'', ch_Buttons = [''b'', ''a'']\<rparr>
     then [''stop''] else [])"
    by (rule chord_binding_exact [OF demo_gesture_New _ _ _ run, where controls = "[''a'', ''b'']" and G = demo_genv and input = demo_second])
      (use demo_chord_New e(1) in \<open>auto simp: demo_gestures_def\<close>)
  with run e show ?thesis by simp
qed

end
