(* ===== verification/Guard.thy ===== *)
theory Guard
  imports Events
begin

text \<open>
  The safety gate of \<^verbatim>\<open>safety/guard.go\<close>, its operator-command state machine
  (\<^verbatim>\<open>safety/lifecycle.go\<close>) and its decision records (\<^verbatim>\<open>safety/event.go\<close>).

  A \<open>guard\<close> is the struct under its mutex; each exported method is one function from
  the old guard to the new one, so a concurrent history of calls is a sequence of
  these functions. What a method reads from the bound controller is an argument:
  a \<open>view\<close> is one \<^verbatim>\<open>SnapshotWithMeta\<close>/\<^verbatim>\<open>Monotonic\<close>/\<^verbatim>\<open>Done\<close> reading, and a method that
  reads twice takes two views, because the controller moves between the readings.

  The table-driven machine \<^verbatim>\<open>github.com/open-ships/statemachine\<close> is not part of the
  repository. Its \<^verbatim>\<open>Fire\<close> is the parameter \<open>fire\<close>; \<open>machine_ok fire\<close> states the
  documented behaviour the guard relies on.
\<close>

subsection \<open>Data\<close>

datatype lifecycle = LifecycleIdle | LifecycleArmed | LifecycleStopped

datatype command = CommandArm | CommandDisarm | CommandTrip | CommandStop | CommandReset

datatype SafetyState = StateSafe | StateArmed | StateLive

datatype Reason =
    ReasonUnbound | ReasonNotArmed | ReasonEmergencyStop | ReasonCommandTimeout
  | ReasonInputStale | ReasonInvalidInput | ReasonInputGap | ReasonSourceError
  | ReasonTransportUnverifiable | ReasonTransportTimeout | ReasonNoInput
  | ReasonDeadManReleased | ReasonDeadManUnconfirmed | ReasonDeadManReleaseRequired
  | ReasonDeadManStale | ReasonLoopStalled | ReasonDisconnected | ReasonSynthetic
  | ReasonControllerFault | ReasonOperator | ReasonControlsNotNeutral

record StateMeta =
  mt_ObservedAt :: timestamp
  mt_ReceivedAt :: timestamp
  mt_PublishedAt :: timestamp
  mt_ReceivedMonotonic :: duration
  mt_Sequence :: u64
  mt_Connected :: bool
  mt_Stale :: bool
  mt_Synthetic :: bool
  mt_Invalid :: bool
  mt_LastStateChangeMonotonic :: duration
  mt_LastTransportCheckMonotonic :: duration
  mt_TransportCheckSequence :: u64
  mt_TransportSilenceVerifiable :: bool

text \<open>One reading of the bound controller, and what kind of controller it is.\<close>

record view =
  vw_State :: State
  vw_Meta :: StateMeta
  vw_Now :: duration
  vw_Done :: bool

record source =
  src_Capabilities :: "Capabilities option"
  src_Session :: "session_id option"

record options =
  commandTimeout :: duration
  deadMan :: control_id
  reactuation :: duration
  loopTimeout :: duration
  transportTimeout :: duration
  armStickTolerance :: fp
  armTriggerTolerance :: fp
  latching :: bool
  strict :: bool
  validationErr :: go_error

record StrictConfig =
  cfg_CommandTimeout :: duration
  cfg_TransportTimeout :: duration
  cfg_DeadMan :: control_id
  cfg_DeadManReactuation :: duration
  cfg_LoopWatchdog :: duration
  cfg_ArmStickTolerance :: fp
  cfg_ArmTriggerTolerance :: fp

record Decision =
  dec_Permit :: bool
  dec_State :: SafetyState
  dec_Reasons :: "Reason list"
  dec_Command :: State
  dec_InputAge :: duration
  dec_InputSequence :: u64
  dec_EvaluatedAt :: duration

definition zero_decision :: Decision where
  "zero_decision = \<lparr>dec_Permit = False, dec_State = StateSafe, dec_Reasons = [],
     dec_Command = zero_state, dec_InputAge = 0, dec_InputSequence = 0, dec_EvaluatedAt = 0\<rparr>"

definition Has :: "Decision \<Rightarrow> Reason \<Rightarrow> bool" where
  "Has d r \<longleftrightarrow> r \<in> set (dec_Reasons d)"

record SafetyEvent =
  ev_Meta :: Header
  ev_State :: SafetyState
  ev_Permit :: bool
  ev_Reasons :: "Reason list"
  ev_InputAge :: duration
  ev_Detail :: string

record guard =
  g_options :: options
  g_source :: "source option"
  g_lifecycle :: lifecycle
  g_heartbeat :: duration
  g_heartbeatSeen :: bool
  g_deadManSince :: duration
  g_deadManHeld :: bool
  g_deadManReleased :: bool
  g_armedAt :: duration
  g_armedInputSequence :: u64
  g_invalidInput :: bool
  g_inputGap :: bool
  g_sourceError :: bool
  g_state :: SafetyState
  g_reasons :: "Reason list"
  g_detail :: string
  g_lastPublished :: Decision
  g_published :: bool

subsection \<open>Configuration\<close>

definition millisecond :: duration where "millisecond = 1000000"
definition DefaultCommandTimeout :: duration where "DefaultCommandTimeout = 250 * millisecond"
definition DefaultDeadManReactuation :: duration where "DefaultDeadManReactuation = 60000 * millisecond"
definition DefaultStrictLoopWatchdog :: duration where "DefaultStrictLoopWatchdog = 100 * millisecond"
definition DefaultArmStickTolerance :: fp where "DefaultArmStickTolerance = round_fp f32 (5 / 100)"
definition DefaultArmTriggerTolerance :: fp where "DefaultArmTriggerTolerance = round_fp f32 (2 / 100)"

definition DefaultStrictConfig :: "control_id \<Rightarrow> StrictConfig" where
  "DefaultStrictConfig c =
     \<lparr>cfg_CommandTimeout = DefaultCommandTimeout, cfg_TransportTimeout = DefaultCommandTimeout,
      cfg_DeadMan = c, cfg_DeadManReactuation = DefaultDeadManReactuation,
      cfg_LoopWatchdog = DefaultStrictLoopWatchdog,
      cfg_ArmStickTolerance = DefaultArmStickTolerance,
      cfg_ArmTriggerTolerance = DefaultArmTriggerTolerance\<rparr>"

definition float32NonFinite :: "fp \<Rightarrow> bool" where
  "float32NonFinite x \<longleftrightarrow> is_nan x \<or> is_inf x"

definition validNeutralTolerance :: "fp \<Rightarrow> bool" where
  "validNeutralTolerance x \<longleftrightarrow> \<not> float32NonFinite x \<and> fp_le (Fin 0) x \<and> fp_lt x (Fin 1)"

text \<open>The option functions; a nil option is skipped by \<^verbatim>\<open>New\<close>.\<close>

datatype Option =
    WithCommandTimeout duration
  | WithDeadMan control_id
  | WithDeadManReactuation duration
  | WithLoopWatchdog duration
  | WithArmNeutralTolerances fp fp
  | WithLatching bool

fun apply_option :: "Option \<Rightarrow> options \<Rightarrow> options" where
  "apply_option (WithCommandTimeout t) o' =
     (if t < 0 then o'\<lparr>validationErr := validationErr o' @ [ErrInvalidConfiguration]\<rparr>
      else if t > 0 then o'\<lparr>commandTimeout := t\<rparr> else o')"
| "apply_option (WithDeadMan c) o' = o'\<lparr>deadMan := c\<rparr>"
| "apply_option (WithDeadManReactuation t) o' =
     (if t < 0 then o'\<lparr>validationErr := validationErr o' @ [ErrInvalidConfiguration]\<rparr>
      else o'\<lparr>reactuation := t\<rparr>)"
| "apply_option (WithLoopWatchdog t) o' =
     (if t < 0 then o'\<lparr>validationErr := validationErr o' @ [ErrInvalidConfiguration]\<rparr>
      else if t > 0 then o'\<lparr>loopTimeout := t\<rparr> else o')"
| "apply_option (WithArmNeutralTolerances s t) o' =
     (if \<not> validNeutralTolerance s \<or> \<not> validNeutralTolerance t
      then o'\<lparr>validationErr := validationErr o' @ [ErrInvalidConfiguration]\<rparr>
      else o'\<lparr>armStickTolerance := s, armTriggerTolerance := t\<rparr>)"
| "apply_option (WithLatching b) o' = o'\<lparr>latching := b\<rparr>"

definition default_options :: options where
  "default_options =
     \<lparr>commandTimeout = DefaultCommandTimeout, deadMan = [], reactuation = DefaultDeadManReactuation,
      loopTimeout = 0, transportTimeout = 0, armStickTolerance = DefaultArmStickTolerance,
      armTriggerTolerance = DefaultArmTriggerTolerance, latching = True, strict = False,
      validationErr = nil\<rparr>"

definition newGuard :: "options \<Rightarrow> guard" where
  "newGuard o' =
     \<lparr>g_options = o', g_source = None, g_lifecycle = LifecycleIdle,
      g_heartbeat = 0, g_heartbeatSeen = False, g_deadManSince = 0, g_deadManHeld = False,
      g_deadManReleased = False, g_armedAt = 0, g_armedInputSequence = 0,
      g_invalidInput = False, g_inputGap = False, g_sourceError = False,
      g_state = StateSafe, g_reasons = [ReasonUnbound], g_detail = [],
      g_lastPublished = zero_decision, g_published = False\<rparr>"

definition Guard_New :: "Option option list \<Rightarrow> guard outcome" where
  "Guard_New opts =
     (let configured = foldl (\<lambda>o' x. case x of None \<Rightarrow> o' | Some f \<Rightarrow> apply_option f o')
                         default_options opts
      in if validationErr configured \<noteq> nil then Panicked else Returned (newGuard configured))"

definition NewStrict :: "StrictConfig \<Rightarrow> go_error + guard" where
  "NewStrict c =
     (let err = (if cfg_CommandTimeout c \<le> 0 then [ErrInvalidConfiguration] else nil)
              @ (if cfg_TransportTimeout c \<le> 0 then [ErrInvalidConfiguration] else nil)
              @ (if cfg_DeadMan c = [] then [ErrInvalidConfiguration] else nil)
              @ (if cfg_DeadManReactuation c \<le> 0 then [ErrInvalidConfiguration] else nil)
              @ (if cfg_LoopWatchdog c \<le> 0 then [ErrInvalidConfiguration] else nil)
              @ (if \<not> validNeutralTolerance (cfg_ArmStickTolerance c)
                    \<or> \<not> validNeutralTolerance (cfg_ArmTriggerTolerance c)
                 then [ErrInvalidConfiguration] else nil)
      in if err \<noteq> nil then Inl err
         else Inr (newGuard
           \<lparr>commandTimeout = cfg_CommandTimeout c, deadMan = cfg_DeadMan c,
            reactuation = cfg_DeadManReactuation c, loopTimeout = cfg_LoopWatchdog c,
            transportTimeout = cfg_TransportTimeout c,
            armStickTolerance = cfg_ArmStickTolerance c,
            armTriggerTolerance = cfg_ArmTriggerTolerance c,
            latching = True, strict = True, validationErr = nil\<rparr>))"

subsection \<open>The operator-command state machine\<close>

record ('s, 'e, 'c) transition =
  tr_From :: 's
  tr_Event :: 'e
  tr_To :: 's
  tr_Guard :: "('c \<Rightarrow> go_error) option"

type_synonym ('s, 'e, 'c) fire =
  "('s, 'e, 'c) transition list \<Rightarrow> 's \<Rightarrow> 'e \<Rightarrow> 'c \<Rightarrow> go_error + 's"

type_synonym gate_fire = "(lifecycle, command, guard) fire"

definition guard_error :: "('s, 'e, 'c) transition \<Rightarrow> 'c \<Rightarrow> go_error" where
  "guard_error r c = (case tr_Guard r of None \<Rightarrow> nil | Some f \<Rightarrow> f c)"

definition candidates :: "('s, 'e, 'c) transition list \<Rightarrow> 's \<Rightarrow> 'e \<Rightarrow> ('s, 'e, 'c) transition list" where
  "candidates rows s e = filter (\<lambda>r. tr_From r = s \<and> tr_Event r = e) rows"

text \<open>
  The documented behaviour of \<^verbatim>\<open>Fire\<close>: it moves to the target of the first row for the
  current state and event whose guard does not object, and otherwise refuses with
  an error that wraps what the guards of the candidate rows reported.
\<close>

definition machine_ok :: "('s, 'e, 'c) fire \<Rightarrow> bool" where
  "machine_ok fire \<longleftrightarrow> (\<forall>rows s e c.
     case filter (\<lambda>r. guard_error r c = nil) (candidates rows s e) of
       r # _ \<Rightarrow> fire rows s e c = Inr (tr_To r)
     | [] \<Rightarrow> (\<exists>err. fire rows s e c = Inl err \<and> err \<noteq> nil
              \<and> (\<forall>r \<in> set (candidates rows s e). set (guard_error r c) \<subseteq> set err)))"

definition requireBound :: "guard \<Rightarrow> go_error" where
  "requireBound g = (if g_source g = None then [ErrUnbound] else nil)"

definition refuseArmDuringStop :: "guard \<Rightarrow> go_error" where
  "refuseArmDuringStop g =
     (if requireBound g \<noteq> nil then requireBound g else [ErrArmDuringStop])"

definition row :: "lifecycle \<Rightarrow> command \<Rightarrow> lifecycle \<Rightarrow> (lifecycle, command, guard) transition" where
  "row s e t = \<lparr>tr_From = s, tr_Event = e, tr_To = t, tr_Guard = None\<rparr>"

definition gate :: "(lifecycle, command, guard) transition list" where
  "gate =
     [(row LifecycleIdle CommandArm LifecycleArmed)\<lparr>tr_Guard := Some requireBound\<rparr>,
      (row LifecycleArmed CommandArm LifecycleArmed)\<lparr>tr_Guard := Some requireBound\<rparr>,
      (row LifecycleStopped CommandArm LifecycleArmed)\<lparr>tr_Guard := Some refuseArmDuringStop\<rparr>,
      row LifecycleIdle CommandDisarm LifecycleIdle,
      row LifecycleArmed CommandDisarm LifecycleIdle,
      row LifecycleStopped CommandDisarm LifecycleStopped,
      row LifecycleArmed CommandTrip LifecycleIdle,
      row LifecycleIdle CommandStop LifecycleStopped,
      row LifecycleArmed CommandStop LifecycleStopped,
      row LifecycleStopped CommandStop LifecycleStopped,
      row LifecycleStopped CommandReset LifecycleIdle,
      row LifecycleIdle CommandReset LifecycleIdle,
      row LifecycleArmed CommandReset LifecycleIdle]"

definition clearAuthorizationProof :: "guard \<Rightarrow> guard" where
  "clearAuthorizationProof g =
     g\<lparr>g_heartbeat := 0, g_heartbeatSeen := False, g_deadManSince := 0, g_deadManHeld := False,
       g_deadManReleased := False, g_armedAt := 0, g_armedInputSequence := 0\<rparr>"

definition guard_fire :: "gate_fire \<Rightarrow> command \<Rightarrow> guard \<Rightarrow> guard" where
  "guard_fire fire event g =
     (case fire gate (g_lifecycle g) event g of
        Inl _ \<Rightarrow> g
      | Inr next \<Rightarrow>
          let g' = g\<lparr>g_lifecycle := next\<rparr>
          in if event \<in> {CommandDisarm, CommandTrip, CommandStop, CommandReset}
             then clearAuthorizationProof g' else g')"

subsection \<open>Arming conditions\<close>

definition releasedPhysicalBaseline :: "State \<Rightarrow> StateMeta \<Rightarrow> control_id \<Rightarrow> bool" where
  "releasedPhysicalBaseline st meta dm \<longleftrightarrow>
     dm \<noteq> [] \<and> mt_Sequence meta > 0 \<and> mt_Connected meta \<and> \<not> mt_Stale meta
     \<and> \<not> mt_Synthetic meta \<and> \<not> mt_Invalid meta \<and> \<not> Button st dm"

definition ext_pressed :: "State \<Rightarrow> bool" where
  "ext_pressed st \<longleftrightarrow> (case Extensions (st_Buttons st) of None \<Rightarrow> False
     | Some m \<Rightarrow> list_ex (\<lambda>i. fmlookup m i = Some True) (sorted_list_of_fset (fmdom m)))"

definition neutralForArm :: "State \<Rightarrow> fp \<Rightarrow> fp \<Rightarrow> bool" where
  "neutralForArm st stickTolerance triggerTolerance =
     (if float32NonFinite (stick_X (st_LeftStick st)) \<or> float32NonFinite (stick_Y (st_LeftStick st))
         \<or> float32NonFinite (stick_X (st_RightStick st)) \<or> float32NonFinite (stick_Y (st_RightStick st))
         \<or> float32NonFinite (st_LeftTrigger st) \<or> float32NonFinite (st_RightTrigger st)
      then False
      else let leftMagnitude = hypot (stick_X (st_LeftStick st)) (stick_Y (st_LeftStick st));
               rightMagnitude = hypot (stick_X (st_RightStick st)) (stick_Y (st_RightStick st))
           in if fp_lt stickTolerance leftMagnitude \<or> fp_lt stickTolerance rightMagnitude
                 \<or> fp_lt (st_LeftTrigger st) (Fin 0) \<or> fp_lt (st_RightTrigger st) (Fin 0)
                 \<or> fp_lt triggerTolerance (st_LeftTrigger st)
                 \<or> fp_lt triggerTolerance (st_RightTrigger st)
              then False
              else \<not> list_ex (Button st) StandardButtonIDs \<and> \<not> ext_pressed st)"

subsection \<open>Sampling and evaluating\<close>

definition onlyDeadManEngagement :: "Reason list \<Rightarrow> bool" where
  "onlyDeadManEngagement rs \<longleftrightarrow> rs \<noteq> [] \<and>
     list_all (\<lambda>r. r = ReasonDeadManReleased \<or> r = ReasonDeadManUnconfirmed
                   \<or> r = ReasonDeadManReleaseRequired) rs"

definition integrity_faults :: "Reason list" where
  "integrity_faults =
     [ReasonInvalidInput, ReasonInputGap, ReasonInputStale, ReasonNoInput, ReasonSourceError,
      ReasonControllerFault, ReasonDisconnected, ReasonSynthetic, ReasonTransportUnverifiable,
      ReasonTransportTimeout]"

definition containsIntegrityFault :: "Reason list \<Rightarrow> bool" where
  "containsIntegrityFault rs \<longleftrightarrow> list_ex (\<lambda>r. r \<in> set integrity_faults) rs"

record inputSample =
  sm_State :: State
  sm_Meta :: StateMeta
  sm_Now :: duration
  sm_Age :: duration
  sm_Reasons :: "Reason list"

text \<open>The freshness part of \<^verbatim>\<open>sampleLocked\<close>: the reasons and the input age.\<close>

definition freshness :: "options \<Rightarrow> StateMeta \<Rightarrow> duration \<Rightarrow> Reason list \<Rightarrow> Reason list \<times> duration" where
  "freshness o' meta now rs0 =
     (if mt_Sequence meta = 0 then (rs0 @ [ReasonNoInput], max now 0)
      else let bad = mt_ReceivedMonotonic meta < 0 \<or> mt_ReceivedMonotonic meta > now;
               rs1 = (if bad then rs0 @ [ReasonSourceError] else rs0);
               age = (if bad then 0 else now - mt_ReceivedMonotonic meta)
           in (if \<not> strict o' \<and> ReasonSourceError \<notin> set rs1 \<and> age \<ge> commandTimeout o'
               then rs1 @ [ReasonCommandTimeout] else rs1, age))"

definition transport_reasons :: "options \<Rightarrow> StateMeta \<Rightarrow> duration \<Rightarrow> Reason list" where
  "transport_reasons o' meta now =
     (if \<not> strict o' then []
      else if \<not> mt_TransportSilenceVerifiable meta then [ReasonTransportUnverifiable]
      else if mt_TransportCheckSequence meta = 0 then [ReasonTransportUnverifiable]
      else if mt_LastTransportCheckMonotonic meta < 0 \<or> mt_LastTransportCheckMonotonic meta > now
      then [ReasonTransportUnverifiable]
      else if now - mt_LastTransportCheckMonotonic meta \<ge> transportTimeout o'
      then [ReasonTransportTimeout] else [])"

definition loop_reasons :: "guard \<Rightarrow> duration \<Rightarrow> Reason list" where
  "loop_reasons g now =
     (if loopTimeout (g_options g) > 0 \<and>
         (\<not> g_heartbeatSeen g \<or> g_heartbeat g < 0 \<or> g_heartbeat g > now
          \<or> now - g_heartbeat g \<ge> loopTimeout (g_options g))
      then [ReasonLoopStalled] else [])"

definition sampleLocked :: "guard \<Rightarrow> view \<Rightarrow> guard \<times> inputSample" where
  "sampleLocked g v =
     (let meta = vw_Meta v; now = vw_Now v; o' = g_options g;
          rs0 = (if vw_Done v then [ReasonControllerFault] else []);
          g1 = (if vw_Done v then clearAuthorizationProof g else g);
          g2 = (if \<not> mt_Connected meta \<or> mt_Synthetic meta then clearAuthorizationProof g1 else g1);
          (rs1, age) = freshness o' meta now rs0;
          rs2 = (if \<not> mt_Connected meta then rs1 @ [ReasonDisconnected] else rs1);
          rs3 = (if mt_Synthetic meta then rs2 @ [ReasonSynthetic] else rs2);
          rs4 = (if mt_Invalid meta \<or> g_invalidInput g then append_unique rs3 ReasonInvalidInput else rs3);
          rs5 = (if mt_Stale meta \<and> \<not> strict o' then rs4 @ [ReasonInputStale] else rs4);
          rs6 = (if g_inputGap g then rs5 @ [ReasonInputGap] else rs5);
          rs7 = (if g_sourceError g then rs6 @ [ReasonSourceError] else rs6)
      in (g2, \<lparr>sm_State = vw_State v, sm_Meta = meta, sm_Now = now, sm_Age = age,
               sm_Reasons = rs7 @ transport_reasons o' meta now @ loop_reasons g2 now\<rparr>))"

definition dead_man_reasons :: "guard \<Rightarrow> State \<Rightarrow> duration \<Rightarrow> Reason list" where
  "dead_man_reasons g st now =
     (let dm = deadMan (g_options g)
      in if dm = [] then []
         else if \<not> g_deadManReleased g \<or> (g_lifecycle g \<noteq> LifecycleArmed \<and> Button st dm)
         then [ReasonDeadManReleaseRequired]
         else if \<not> Button st dm then [ReasonDeadManReleased]
         else if \<not> g_deadManHeld g then [ReasonDeadManUnconfirmed]
         else if g_deadManSince g < 0 \<or> g_deadManSince g > now then [ReasonDeadManStale]
         else if reactuation (g_options g) > 0
                 \<and> now - g_deadManSince g \<ge> reactuation (g_options g) then [ReasonDeadManStale]
         else [])"

text \<open>The unmet conditions \<^verbatim>\<open>evaluateLocked\<close> has collected when it decides whether to trip.\<close>

definition unmet_conditions :: "guard \<Rightarrow> inputSample \<Rightarrow> Reason list" where
  "unmet_conditions g sample =
     sm_Reasons sample @ dead_man_reasons g (sm_State sample) (sm_Now sample)
     @ (if g_lifecycle g = LifecycleStopped then [ReasonEmergencyStop] else [])
     @ (if g_lifecycle g \<noteq> LifecycleArmed then [ReasonNotArmed] else [])"

definition latches :: "guard \<Rightarrow> Reason list \<Rightarrow> bool" where
  "latches g rs \<longleftrightarrow> rs \<noteq> [] \<and> g_lifecycle g = LifecycleArmed
     \<and> (latching (g_options g) \<or> containsIntegrityFault rs) \<and> \<not> onlyDeadManEngagement rs"

definition decide :: "inputSample \<Rightarrow> Reason list \<Rightarrow> Decision" where
  "decide sample reasons =
     (let d = zero_decision\<lparr>dec_Reasons := reasons, dec_InputAge := sm_Age sample,
                dec_InputSequence := mt_Sequence (sm_Meta sample), dec_EvaluatedAt := sm_Now sample\<rparr>
      in if reasons = []
         then d\<lparr>dec_Permit := True, dec_State := StateLive, dec_Command := sm_State sample\<rparr>
         else if onlyDeadManEngagement reasons then d\<lparr>dec_State := StateArmed\<rparr>
         else d\<lparr>dec_State := StateSafe\<rparr>)"

definition evaluateLocked :: "gate_fire \<Rightarrow> guard \<Rightarrow> view \<Rightarrow> guard \<times> Decision" where
  "evaluateLocked fire g v =
     (if g_source g = None
      then (g\<lparr>g_state := StateSafe, g_reasons := [ReasonUnbound]\<rparr>,
            zero_decision\<lparr>dec_State := StateSafe, dec_Reasons := [ReasonUnbound]\<rparr>)
      else
       let (g1, sample) = sampleLocked g v;
           rs = unmet_conditions g1 sample;
           g2 = (if latches g1 rs then guard_fire fire CommandTrip g1 else g1);
           reasons = (if latches g1 rs then append_unique rs ReasonNotArmed else rs);
           d = decide sample reasons
       in (g2\<lparr>g_state := dec_State d, g_reasons := reasons\<rparr>, d))"

subsection \<open>Operator commands\<close>

definition digital_dead_man :: "control_id \<Rightarrow> Capabilities \<Rightarrow> bool" where
  "digital_dead_man dm c =
     (case find (\<lambda>d. ctl_ID d = dm) (cap_Controls c) of
        None \<Rightarrow> False
      | Some d \<Rightarrow> ctl_Kind d = ControlButton \<or> ctl_Kind d = ControlDPad)"

definition guard_Bind :: "guard \<Rightarrow> source option \<Rightarrow> view \<Rightarrow> guard \<times> go_error" where
  "guard_Bind g src v =
     (case src of
        None \<Rightarrow> (g, [ErrUnbound])
      | Some s \<Rightarrow>
          if g_source g \<noteq> None then (g, [ErrAlreadyBound])
          else if strict (g_options g) \<and>
                  (case src_Capabilities s of None \<Rightarrow> True
                   | Some c \<Rightarrow> \<not> digital_dead_man (deadMan (g_options g)) c)
          then (g, [ErrInvalidConfiguration])
          else let g1 = (clearAuthorizationProof (g\<lparr>g_source := Some s\<rparr>))
                        \<lparr>g_invalidInput := False, g_inputGap := False, g_sourceError := False,
                         g_state := StateSafe, g_reasons := [ReasonNotArmed], g_detail := [],
                         g_published := False, g_lastPublished := zero_decision\<rparr>
               in (if releasedPhysicalBaseline (vw_State v) (vw_Meta v) (deadMan (g_options g))
                   then g1\<lparr>g_deadManReleased := True\<rparr> else g1, nil))"

text \<open>What \<^verbatim>\<open>Arm\<close> can refuse with; \<^verbatim>\<open>*ArmError\<close> carries every interlock and unwraps to
  \<^verbatim>\<open>ErrUnsafeToArm\<close>.\<close>

datatype arm_error = ArmUnbound | ArmDuringStop | ArmUnsafe "Reason list"

fun arm_go_error :: "arm_error option \<Rightarrow> go_error" where
  "arm_go_error None = nil"
| "arm_go_error (Some ArmUnbound) = [ErrUnbound]"
| "arm_go_error (Some ArmDuringStop) = [ErrArmDuringStop]"
| "arm_go_error (Some (ArmUnsafe _)) = [ErrUnsafeToArm]"

definition guard_Arm :: "gate_fire \<Rightarrow> guard \<Rightarrow> view \<Rightarrow> view \<Rightarrow> guard \<times> arm_error option" where
  "guard_Arm fire g v v' =
     (if g_source g = None then (g, Some ArmUnbound)
      else if g_lifecycle g = LifecycleStopped then (g, Some ArmDuringStop)
      else
       let (g1, sample) = sampleLocked g v;
           dm = deadMan (g_options g1);
           g2 = (if releasedPhysicalBaseline (sm_State sample) (sm_Meta sample) dm
                 then g1\<lparr>g_deadManReleased := True\<rparr> else g1);
           rs1 = (if \<not> neutralForArm (sm_State sample) (armStickTolerance (g_options g2))
                       (armTriggerTolerance (g_options g2))
                  then append_unique (sm_Reasons sample) ReasonControlsNotNeutral
                  else sm_Reasons sample);
           rs2 = (if dm \<noteq> [] \<and> (Button (sm_State sample) dm \<or> \<not> g_deadManReleased g2)
                  then append_unique rs1 ReasonDeadManReleaseRequired else rs1)
       in if rs2 \<noteq> [] then (g2, Some (ArmUnsafe rs2))
          else case fire gate (g_lifecycle g2) CommandArm g2 of
                 Inl err \<Rightarrow> (g2, Some (if errors_Is err ErrUnbound then ArmUnbound else ArmDuringStop))
               | Inr next \<Rightarrow>
                   let g3 = g2\<lparr>g_lifecycle := next, g_deadManHeld := False, g_deadManSince := 0,
                               g_armedAt := sm_Now sample,
                               g_armedInputSequence := mt_Sequence (sm_Meta sample), g_detail := []\<rparr>
                   in (fst (evaluateLocked fire g3 v'), None))"

definition guard_Disarm :: "gate_fire \<Rightarrow> string \<Rightarrow> guard \<Rightarrow> view \<Rightarrow> guard" where
  "guard_Disarm fire detail g v =
     fst (evaluateLocked fire ((guard_fire fire CommandDisarm g)\<lparr>g_detail := detail\<rparr>) v)"

definition guard_EmergencyStop :: "gate_fire \<Rightarrow> string \<Rightarrow> guard \<Rightarrow> view \<Rightarrow> guard" where
  "guard_EmergencyStop fire detail g v =
     fst (evaluateLocked fire ((guard_fire fire CommandStop g)\<lparr>g_detail := detail\<rparr>) v)"

definition guard_Reset :: "gate_fire \<Rightarrow> string \<Rightarrow> guard \<Rightarrow> view \<Rightarrow> guard" where
  "guard_Reset fire detail g v =
     fst (evaluateLocked fire ((guard_fire fire CommandReset g)\<lparr>g_detail := detail\<rparr>) v)"

definition guard_Heartbeat :: "guard \<Rightarrow> duration \<Rightarrow> guard" where
  "guard_Heartbeat g now =
     (if g_source g = None then g else g\<lparr>g_heartbeat := now, g_heartbeatSeen := True\<rparr>)"

definition guard_Evaluate :: "gate_fire \<Rightarrow> guard \<Rightarrow> view \<Rightarrow> guard \<times> Decision" where
  "guard_Evaluate fire g v = evaluateLocked fire g v"

subsection \<open>Observing the event stream\<close>

definition observeObservation :: "guard \<Rightarrow> Header \<Rightarrow> State \<Rightarrow> guard" where
  "observeObservation g meta current =
     (if hd_Synthetic meta then clearAuthorizationProof g
      else let g1 = g\<lparr>g_invalidInput := False, g_inputGap := False, g_sourceError := False\<rparr>
           in if deadMan (g_options g1) \<noteq> [] \<and> \<not> Button current (deadMan (g_options g1))
              then g1\<lparr>g_deadManHeld := False, g_deadManSince := 0, g_deadManReleased := True\<rparr>
              else g1)"

definition observeError :: "guard \<Rightarrow> go_error \<Rightarrow> guard" where
  "observeError g err =
     (if errors_Is err ErrInvalidState then g\<lparr>g_invalidInput := True\<rparr> else g\<lparr>g_sourceError := True\<rparr>)"

definition pressFollowsArm :: "guard \<Rightarrow> Header \<Rightarrow> duration \<Rightarrow> bool" where
  "pressFollowsArm g h received =
     (if received > g_armedAt g then True
      else if received \<noteq> g_armedAt g \<or> g_armedInputSequence g = 0
              \<or> id_Stream (hd_ID h) \<noteq> ''input'' \<or> id_Sequence (hd_ID h) \<le> g_armedInputSequence g
      then False
      else case g_source g of None \<Rightarrow> False
           | Some s \<Rightarrow> (case src_Session s of None \<Rightarrow> False
               | Some session \<Rightarrow> session \<noteq> 0 \<and> id_Session (hd_ID h) = session))"

text \<open>The integrity signals of an event, the first \<^verbatim>\<open>switch\<close> of \<^verbatim>\<open>observeLocked\<close>.\<close>

fun observe_signal :: "guard \<Rightarrow> Event \<Rightarrow> guard" where
  "observe_signal g (ObservationEvent h _ _ current) = observeObservation g h current"
| "observe_signal g (ErrorEvent _ _ err) = observeError g err"
| "observe_signal g (GapEvent _ src _ _) =
     (if src \<noteq> ''subscription'' then g\<lparr>g_inputGap := True\<rparr> else g)"
| "observe_signal g (ConnectionEvent _ st _) =
     (if st = Disconnected then clearAuthorizationProof g else g)"
| "observe_signal g _ = g"

text \<open>The dead-man edges; \<open>now\<close> is the controller's monotonic reading.\<close>

fun observe_dead_man :: "guard \<Rightarrow> duration \<Rightarrow> Event \<Rightarrow> guard" where
  "observe_dead_man g now (ButtonEvent h button _ pressed) =
     (if deadMan (g_options g) = [] \<or> button \<noteq> deadMan (g_options g) then g
      else if hd_Synthetic h \<or> (id_Stream (hd_ID h) \<noteq> [] \<and> id_Stream (hd_ID h) \<noteq> ''input'')
      then clearAuthorizationProof g
      else if g_source g = None then clearAuthorizationProof g
      else let received = hd_ReceivedMonotonic h
           in if received < 0 \<or> received > now
              then clearAuthorizationProof (g\<lparr>g_sourceError := True\<rparr>)
              else if pressed
              then (if g_lifecycle g = LifecycleArmed \<and> g_deadManReleased g
                       \<and> pressFollowsArm g h received \<and> \<not> g_deadManHeld g
                    then g\<lparr>g_deadManHeld := True, g_deadManSince := received\<rparr> else g)
              else g\<lparr>g_deadManHeld := False, g_deadManSince := 0, g_deadManReleased := True\<rparr>)"
| "observe_dead_man g now _ = g"

definition observeLocked :: "guard \<Rightarrow> duration \<Rightarrow> Event \<Rightarrow> guard" where
  "observeLocked g now event = observe_dead_man (observe_signal g event) now event"

subsection \<open>Publishing transitions\<close>

definition changedLocked :: "guard \<Rightarrow> Decision \<Rightarrow> bool" where
  "changedLocked g d \<longleftrightarrow> dec_State d \<noteq> dec_State (g_lastPublished g)
     \<or> dec_Permit d \<noteq> dec_Permit (g_lastPublished g)
     \<or> dec_Reasons d \<noteq> dec_Reasons (g_lastPublished g)"

text \<open>\<open>newHeader\<close> is the controller's \<^verbatim>\<open>ProcessingContext.NewHeader\<close> on the stream \<^verbatim>\<open>safety\<close>.\<close>

definition transitionLocked ::
  "(EventID list \<Rightarrow> Header) \<Rightarrow> guard \<Rightarrow> Decision \<Rightarrow> EventID \<Rightarrow> guard \<times> SafetyEvent list" where
  "transitionLocked newHeader g d cause =
     (if g_published g \<and> \<not> changedLocked g d then (g, [])
      else (g\<lparr>g_published := True, g_lastPublished := d\<rparr>,
            [\<lparr>ev_Meta = newHeader (if cause \<noteq> zero_event_id then [cause] else []),
              ev_State = dec_State d, ev_Permit = dec_Permit d, ev_Reasons = dec_Reasons d,
              ev_InputAge = dec_InputAge d, ev_Detail = g_detail g\<rparr>]))"

definition guard_Process :: "guard \<Rightarrow> duration \<Rightarrow> Event \<Rightarrow> guard" where
  "guard_Process g now event = observeLocked g now event"

definition guard_ProcessContext ::
  "gate_fire \<Rightarrow> (EventID list \<Rightarrow> Header) \<Rightarrow> guard \<Rightarrow> duration \<Rightarrow> Event \<Rightarrow> view \<Rightarrow> guard \<times> SafetyEvent list" where
  "guard_ProcessContext fire newHeader g now event v =
     (let (g', d) = evaluateLocked fire (observeLocked g now event) v
      in transitionLocked newHeader g' d (hd_ID (event_header event)))"

definition guard_AdvanceContext ::
  "gate_fire \<Rightarrow> (EventID list \<Rightarrow> Header) \<Rightarrow> guard \<Rightarrow> view \<Rightarrow> guard \<times> SafetyEvent list" where
  "guard_AdvanceContext fire newHeader g v =
     (let (g', d) = evaluateLocked fire g v in transitionLocked newHeader g' d zero_event_id)"

subsection \<open>The concrete machine used by the witnesses\<close>

definition table_fire :: "('s, 'e, 'c) fire" where
  "table_fire rows s e c =
     (case filter (\<lambda>r. guard_error r c = nil) (candidates rows s e) of
        r # _ \<Rightarrow> Inr (tr_To r)
      | [] \<Rightarrow> Inl (ErrText ''refused'' # concat (map (\<lambda>r. guard_error r c) (candidates rows s e))))"

lemma machine_ok_table_fire: "machine_ok table_fire"
  by (auto simp: machine_ok_def table_fire_def split: list.splits)

end
