(* ===== verification/Authority.thy ===== *)
theory Authority
  imports Guard "HOL-Library.State_Monad"
begin

text \<open>
  \<^verbatim>\<open>safety/authority.go\<close> and \<^verbatim>\<open>safety/policy.go\<close>: the authority, which owns the only
  sequence from a safety decision to durable intent, actuator lease, acknowledgement
  and outcome evidence.

  The operations are programs of the state monad over \<open>world\<close>: the authority's own
  fields (its guard included), the cancellation of the command in flight, and a ghost
  trace of what crossed an external seam. The environment \<open>env\<close> answers every call
  that leaves the package (evidence, actuator, policy, clocks, contexts, the controller
  snapshot), indexed by a counter of the calls made so far, so it may answer each call
  differently and depend on everything but the authority's private state. What other
  goroutines do while an operation runs is the environment's \<open>e_interference\<close>:
  controller events processed by the guard, the cancellation check of the processor,
  the tightening step of a concurrent Disarm, Close or EmergencyStop, and the late
  return of an abandoned callback. They act at every point where the operation does not
  hold \<^verbatim>\<open>stateMu\<close>; while it does, only the guard's own processing can interleave.

  Cloning has no counterpart: HOL values are not aliased.
\<close>

section \<open>Data\<close>

text \<open>A payload is used only through \<^verbatim>\<open>json.Marshal\<close>, whose outcome is what the model
  keeps of it.\<close>

datatype payload = Marshals string | MarshalFails go_error | MarshalPanics

record Command =
  cmd_Name :: string
  cmd_Payload :: "payload option"

record EncodedCommand =
  enc_Name :: string
  enc_Payload :: string

type_synonym EvidenceID = string

datatype EvidenceKind =
    EvidenceLifecycleAttempt | EvidenceLifecycleOutcome | EvidenceDecision | EvidenceIntent
  | EvidenceSent | EvidenceAcknowledged | EvidenceRejected | EvidenceTimeout | EvidenceFailure

datatype LifecycleAction =
    LifecycleBind | LifecycleArm | LifecycleDisarm | LifecycleEmergencyStop | LifecycleReset
  | LifecycleClose

record LifecycleEvidence =
  le_Action :: LifecycleAction
  le_Detail :: string
  le_Accepted :: bool

record ActuatorCommand =
  ac_ControllerSession :: session_id
  ac_Sequence :: u64
  ac_Command :: EncodedCommand
  ac_IssuedAt :: timestamp
  ac_ExpiresAt :: timestamp
  ac_TTL :: duration
  ac_Fallback :: bool
  ac_Reason :: string
  ac_DecisionID :: EvidenceID
  ac_IntentID :: EvidenceID

record ActuatorAcknowledgment =
  ack_ControllerSession :: session_id
  ack_Sequence :: u64
  ack_Accepted :: bool
  ack_AppliedAt :: timestamp
  ack_Detail :: string

record PolicyDecision =
  pd_Permit :: bool
  pd_PolicyID :: string
  pd_Subject :: string
  pd_Authorization :: string
  pd_ExpiresAt :: timestamp
  pd_Detail :: string
  pd_Proof :: string

definition zero_policy :: PolicyDecision where
  "zero_policy = \<lparr>pd_Permit = False, pd_PolicyID = [], pd_Subject = [], pd_Authorization = [],
     pd_ExpiresAt = zero_time, pd_Detail = [], pd_Proof = []\<rparr>"

record PolicyRequest =
  pr_ControllerSession :: session_id
  pr_EvaluatedAt :: timestamp
  pr_Command :: EncodedCommand
  pr_Input :: Decision
  pr_PreviousApplied :: "EncodedCommand option"
  pr_PreviouslyAppliedAt :: timestamp

text \<open>\<open>er_Error\<close> is the error whose text the record carries.\<close>

record EvidenceRecord =
  er_Kind :: EvidenceKind
  er_ControllerSession :: session_id
  er_RecordSequence :: u64
  er_CommandSequence :: u64
  er_RecordedAt :: timestamp
  er_ParentID :: EvidenceID
  er_DecisionID :: EvidenceID
  er_Causes :: "EventID list"
  er_Lifecycle :: "LifecycleEvidence option"
  er_Decision :: "Decision option"
  er_Policy :: "PolicyDecision option"
  er_Requested :: "EncodedCommand option"
  er_Applied :: "EncodedCommand option"
  er_Actuator :: "ActuatorCommand option"
  er_Acknowledgment :: "ActuatorAcknowledgment option"
  er_Detail :: string
  er_Error :: go_error

definition record_of :: "EvidenceKind \<Rightarrow> EvidenceRecord" where
  "record_of k = \<lparr>er_Kind = k, er_ControllerSession = 0, er_RecordSequence = 0,
     er_CommandSequence = 0, er_RecordedAt = zero_time, er_ParentID = [], er_DecisionID = [],
     er_Causes = [], er_Lifecycle = None, er_Decision = None, er_Policy = None,
     er_Requested = None, er_Applied = None, er_Actuator = None, er_Acknowledgment = None,
     er_Detail = [], er_Error = nil\<rparr>"

record AuthorityConfig =
  ac_EngineeredSafeState :: Command
  ac_CommandTTL :: duration
  ac_Policy :: bool
  ac_RequireAppliedAcknowledgment :: bool

record ApplyRequest =
  rq_Intent :: Command
  rq_Causes :: "EventID list"
  rq_Detail :: string

record ApplyResult =
  ar_Decision :: Decision
  ar_Policy :: "PolicyDecision option"
  ar_Requested :: EncodedCommand
  ar_Applied :: EncodedCommand
  ar_Fallback :: bool
  ar_CommandSequence :: u64
  ar_DecisionEvidenceID :: EvidenceID
  ar_IntentEvidenceID :: EvidenceID
  ar_OutcomeEvidenceID :: EvidenceID
  ar_Acknowledgment :: "ActuatorAcknowledgment option"
  ar_FallbackSequence :: u64
  ar_FallbackAcknowledged :: bool

definition zero_command :: EncodedCommand where
  "zero_command = \<lparr>enc_Name = [], enc_Payload = []\<rparr>"

definition zero_result :: ApplyResult where
  "zero_result = \<lparr>ar_Decision = zero_decision, ar_Policy = None, ar_Requested = zero_command,
     ar_Applied = zero_command, ar_Fallback = False, ar_CommandSequence = 0,
     ar_DecisionEvidenceID = [], ar_IntentEvidenceID = [], ar_OutcomeEvidenceID = [],
     ar_Acknowledgment = None, ar_FallbackSequence = 0, ar_FallbackAcknowledged = False\<rparr>"

text \<open>The one-worker gates around external callbacks. A gate is busy while an abandoned
  callback is still running.\<close>

datatype callback_gate =
    PolicyCall | ClockCall | EvidenceCall | LiveSendCall | SafeSendCall | LiveAwaitCall | SafeAwaitCall

record authority =
  au_guard :: guard
  au_safe :: EncodedCommand
  au_ttl :: duration
  au_requireApplied :: bool
  au_policy :: bool
  au_previousApplied :: "EncodedCommand option"
  au_previouslyAppliedAt :: timestamp
  au_previousLiveExpiry :: timestamp
  au_busy :: "callback_gate list"
  au_source :: "source option"
  au_session :: session_id
  au_bound :: bool
  au_closed :: bool
  au_active :: u64
  au_activeID :: u64
  au_activeLive :: bool
  au_activeSending :: bool
  au_activeInput :: Decision
  au_activeCancel :: bool
  au_recordSequence :: u64
  au_commandSequence :: u64
  au_safetyEpoch :: u64

section \<open>The environment\<close>

text \<open>A context: whether it descends from the caller's context, whether it descends from the
  cancellable context of the command in flight, and its deadline.\<close>

record ctx =
  cx_Caller :: bool
  cx_Op :: bool
  cx_Deadline :: "timestamp option"

datatype ctx_status = CtxAlive | CtxIsCanceled | CtxIsExpired

fun ctx_status_error :: "ctx_status \<Rightarrow> go_error" where
  "ctx_status_error CtxAlive = nil"
| "ctx_status_error CtxIsCanceled = [CtxCanceled]"
| "ctx_status_error CtxIsExpired = [CtxDeadlineExceeded]"

text \<open>How a callback ended from the caller's side: with a value, with a recovered panic, or
  abandoned because the context ended first (by its deadline or by cancellation).\<close>

datatype 'a callback = Finished 'a | CallbackPanic | Abandoned bool

definition abandoned_error :: "bool \<Rightarrow> go_error" where
  "abandoned_error expired = (if expired then [CtxDeadlineExceeded] else [CtxCanceled])"

text \<open>What other goroutines do.\<close>

datatype interference =
    IProcess duration Event
  | IProcessContext "EventID list \<Rightarrow> Header" duration Event view
  | IAdvanceContext "EventID list \<Rightarrow> Header" view
  | ICancelCheck view
  | ITighten LifecycleAction string bool view
  | IRelease callback_gate

type_synonym receipt = nat

record env =
  e_fire :: gate_fire
  e_view :: "nat \<Rightarrow> view"
  e_interference :: "nat \<Rightarrow> interference list"
  e_ctx :: "nat \<Rightarrow> ctx \<Rightarrow> ctx_status"
  e_expired_first :: "nat \<Rightarrow> bool"
  e_sys :: "nat \<Rightarrow> timestamp"
  e_now :: "nat \<Rightarrow> timestamp callback"
  e_acquire :: "nat \<Rightarrow> ctx \<Rightarrow> go_error"
  e_commit :: "nat \<Rightarrow> EvidenceRecord \<Rightarrow> (EvidenceID \<times> go_error) callback"
  e_send :: "nat \<Rightarrow> ActuatorCommand \<Rightarrow> (receipt option \<times> go_error) callback"
  e_await :: "nat \<Rightarrow> receipt \<Rightarrow> (ActuatorAcknowledgment \<times> go_error) callback"
  e_policy :: "nat \<Rightarrow> PolicyRequest \<Rightarrow> (PolicyDecision \<times> go_error) callback"
  e_quote :: "string \<Rightarrow> string"
  e_text :: "go_error \<Rightarrow> string"

text \<open>The ghost trace, newest first: evidence that crossed the durability barrier with its
  identity, the last preflight before a live send, envelopes handed to the actuator (with
  the ordinal of the command they carry), and the acknowledgements that passed
  validation. \<open>w_issued\<close>, \<open>w_recorded\<close> and \<open>w_epochs\<close> are the unbounded counts behind the
  64-bit counters of commands, records and safety actions.\<close>

datatype trace_event =
    TCommitted EvidenceRecord EvidenceID
  | TPreflight Decision Decision
  | TSend nat ActuatorCommand
  | TAcknowledged ActuatorCommand ActuatorAcknowledgment

record world = authority +
  w_tick :: nat
  w_cancelled :: bool
  w_trace :: "trace_event list"
  w_issued :: nat
  w_recorded :: nat
  w_epochs :: nat

type_synonym 'a act = "(world, 'a) state"

abbreviation ret :: "'a \<Rightarrow> 'a act" where "ret \<equiv> State_Monad.return"

abbreviation fetch :: "world act" where "fetch \<equiv> State_Monad.get"

definition modify :: "(world \<Rightarrow> world) \<Rightarrow> unit act" where
  "modify f = State (\<lambda>w. ((), f w))"

definition next_tick :: "nat act" where
  "next_tick = State (\<lambda>w. (w_tick w, w\<lparr>w_tick := Suc (w_tick w)\<rparr>))"

definition emit :: "trace_event \<Rightarrow> unit act" where
  "emit x = modify (\<lambda>w. w\<lparr>w_trace := x # w_trace w\<rparr>)"


section \<open>Pure parts\<close>

definition sameDecisionInput :: "Decision \<Rightarrow> Decision \<Rightarrow> bool" where
  "sameDecisionInput expected current \<longleftrightarrow>
     dec_Permit current \<and> dec_InputSequence current = dec_InputSequence expected
     \<and> deep_equal (dec_Command current) (dec_Command expected)"

definition ordinaryInputDecision :: "Decision \<Rightarrow> bool" where
  "ordinaryInputDecision d \<longleftrightarrow>
     dec_Permit d \<or> (dec_State d = StateArmed \<and> onlyDeadManEngagement (dec_Reasons d))"

definition encodeCommand :: "Command \<Rightarrow> go_error + EncodedCommand" where
  "encodeCommand c =
     (if cmd_Name c = [] then Inl [ErrInvalidAuthority]
      else case cmd_Payload c of
             None \<Rightarrow> Inr \<lparr>enc_Name = cmd_Name c, enc_Payload = []\<rparr>
           | Some (Marshals p) \<Rightarrow> Inr \<lparr>enc_Name = cmd_Name c, enc_Payload = p\<rparr>
           | Some (MarshalFails err) \<Rightarrow> Inl (ErrText ''encode command'' # err)
           | Some MarshalPanics \<Rightarrow> Inl [ErrInvalidAuthority, ErrCallbackPanic, ErrText ''payload panic''])"

definition validateAcknowledgment ::
  "ActuatorCommand \<Rightarrow> ActuatorAcknowledgment \<Rightarrow> timestamp \<Rightarrow> bool \<Rightarrow> go_error" where
  "validateAcknowledgment command ack now requireApplied =
     (if ack_ControllerSession ack \<noteq> ac_ControllerSession command then [ErrActuatorUncertain]
      else if ack_Sequence ack \<noteq> ac_Sequence command then [ErrActuatorUncertain]
      else if \<not> now < ac_ExpiresAt command then [ErrActuatorTimeout]
      else if \<not> ack_Accepted ack \<and> ack_AppliedAt ack \<noteq> zero_time then [ErrActuatorUncertain]
      else if ack_Accepted ack \<and> requireApplied \<and> ack_AppliedAt ack = zero_time
      then [ErrActuatorUncertain]
      else if ack_AppliedAt ack \<noteq> zero_time
              \<and> (ack_AppliedAt ack < ac_IssuedAt command
                 \<or> \<not> ack_AppliedAt ack < ac_ExpiresAt command
                 \<or> ack_AppliedAt ack > now)
      then [ErrActuatorUncertain]
      else nil)"

fun reason_string :: "Reason \<Rightarrow> string" where
  "reason_string ReasonUnbound = ''unbound''"
| "reason_string ReasonNotArmed = ''not_armed''"
| "reason_string ReasonEmergencyStop = ''emergency_stop''"
| "reason_string ReasonCommandTimeout = ''command_timeout''"
| "reason_string ReasonInputStale = ''input_stale''"
| "reason_string ReasonInvalidInput = ''invalid_input''"
| "reason_string ReasonInputGap = ''input_gap''"
| "reason_string ReasonSourceError = ''source_error''"
| "reason_string ReasonTransportUnverifiable = ''transport_unverifiable''"
| "reason_string ReasonTransportTimeout = ''transport_timeout''"
| "reason_string ReasonNoInput = ''no_input''"
| "reason_string ReasonDeadManReleased = ''dead_man_released''"
| "reason_string ReasonDeadManUnconfirmed = ''dead_man_unconfirmed''"
| "reason_string ReasonDeadManReleaseRequired = ''dead_man_release_required''"
| "reason_string ReasonDeadManStale = ''dead_man_stale''"
| "reason_string ReasonLoopStalled = ''loop_stalled''"
| "reason_string ReasonDisconnected = ''disconnected''"
| "reason_string ReasonSynthetic = ''synthetic_state''"
| "reason_string ReasonControllerFault = ''controller_fault''"
| "reason_string ReasonOperator = ''operator_disarmed''"
| "reason_string ReasonControlsNotNeutral = ''controls_not_neutral''"

text \<open>\<^verbatim>\<open>json.Marshal\<close> of a list of reasons, none of which needs an escape.\<close>

definition json_quote :: "string \<Rightarrow> string" where
  "json_quote s = [CHR 0x22] @ s @ [CHR 0x22]"

fun json_strings :: "string list \<Rightarrow> string" where
  "json_strings [] = []"
| "json_strings [s] = json_quote s"
| "json_strings (s # ss) = json_quote s @ '','' @ json_strings ss"

definition decisionReason :: "Decision \<Rightarrow> string" where
  "decisionReason d =
     (if dec_Reasons d = [] then ''engineered safe state''
      else ''['' @ json_strings (map reason_string (dec_Reasons d)) @ '']'')"

text \<open>\<^verbatim>\<open>[]rune(s)\<close>: the bytes of the next rune of a string, as re-encoded by \<^verbatim>\<open>string(runes)\<close>;
  a byte that starts no valid UTF-8 sequence becomes the replacement character.\<close>

definition continuation :: "nat \<Rightarrow> bool" where
  "continuation b \<longleftrightarrow> 0x80 \<le> b \<and> b \<le> 0xBF"

fun rune_width :: "nat list \<Rightarrow> nat" where
  "rune_width [] = 0"
| "rune_width (b # bs) =
     (if b < 0x80 then 1
      else case bs of
        [] \<Rightarrow> 0
      | b1 # bs1 \<Rightarrow>
          if 0xC2 \<le> b \<and> b \<le> 0xDF then (if continuation b1 then 2 else 0)
          else case bs1 of
            [] \<Rightarrow> 0
          | b2 # bs2 \<Rightarrow>
              if 0xE0 \<le> b \<and> b \<le> 0xEF
              then (if continuation b1 \<and> continuation b2 \<and> (b = 0xE0 \<longrightarrow> 0xA0 \<le> b1)
                       \<and> (b = 0xED \<longrightarrow> b1 \<le> 0x9F) then 3 else 0)
              else case bs2 of
                [] \<Rightarrow> 0
              | b3 # _ \<Rightarrow>
                  if 0xF0 \<le> b \<and> b \<le> 0xF4 \<and> continuation b1 \<and> continuation b2 \<and> continuation b3
                     \<and> (b = 0xF0 \<longrightarrow> 0x90 \<le> b1) \<and> (b = 0xF4 \<longrightarrow> b1 \<le> 0x8F)
                  then 4 else 0)"

definition replacement_rune :: string where
  "replacement_rune = [CHR 0xEF, CHR 0xBF, CHR 0xBD]"

function runes :: "string \<Rightarrow> string list" where
  "runes s =
     (if s = [] then []
      else let n = rune_width (map of_char s)
           in if n = 0 then replacement_rune # runes (tl s)
              else take n s # runes (drop n s))"
  by pat_completeness auto
termination by (relation "measure length") auto

declare runes.simps [simp del]

definition ellipsis :: string where
  "ellipsis = [CHR 0xE2, CHR 0x80, CHR 0xA6]"

definition boundedFailureDetail :: "env \<Rightarrow> string \<Rightarrow> go_error \<Rightarrow> string" where
  "boundedFailureDetail E prefix err =
     (let detail = (if err \<noteq> nil then prefix @ '': '' @ e_text E err else prefix);
          rs = runes detail
      in if length rs \<le> 1024 then detail else concat (take 1023 rs) @ ellipsis)"

section \<open>Interference\<close>

text \<open>The guard keeps its own mutex, so its processing interleaves everywhere.\<close>

definition cancelLiveApplyIfDecisionChanged :: "gate_fire \<Rightarrow> view \<Rightarrow> world \<Rightarrow> world" where
  "cancelLiveApplyIfDecisionChanged fire v w =
     (if \<not> au_activeLive w \<or> \<not> au_activeCancel w then w
      else let (g, current) = guard_Evaluate fire (au_guard w) v; w1 = w\<lparr>au_guard := g\<rparr>
           in if sameDecisionInput (au_activeInput w1) current then w1
              else if \<not> au_activeSending w1 \<and> ordinaryInputDecision current then w1
              else w1\<lparr>au_activeLive := False, au_activeInput := zero_decision, w_cancelled := True\<rparr>)"

text \<open>The first step of \<^verbatim>\<open>safeLifecycle\<close>, taken before it waits for the serialization token.\<close>

definition safe_guard :: "gate_fire \<Rightarrow> LifecycleAction \<Rightarrow> string \<Rightarrow> guard \<Rightarrow> view \<Rightarrow> guard" where
  "safe_guard fire action detail g v =
     (if action = LifecycleEmergencyStop then guard_EmergencyStop fire detail g v
      else guard_Disarm fire detail g v)"

definition reassert :: "gate_fire \<Rightarrow> LifecycleAction \<Rightarrow> string \<Rightarrow> bool \<Rightarrow> view \<Rightarrow> world \<Rightarrow> world" where
  "reassert fire action detail closeAuthority v w =
     w\<lparr>au_closed := (au_closed w \<or> closeAuthority),
       au_guard := safe_guard fire action detail (au_guard w) v,
       w_cancelled := (w_cancelled w \<or> au_activeCancel w)\<rparr>"

definition tighten :: "gate_fire \<Rightarrow> LifecycleAction \<Rightarrow> string \<Rightarrow> bool \<Rightarrow> view \<Rightarrow> world \<Rightarrow> world" where
  "tighten fire action detail closeAuthority v w =
     reassert fire action detail closeAuthority v
       (w\<lparr>au_safetyEpoch := au_safetyEpoch w + 1, w_epochs := Suc (w_epochs w)\<rparr>)"

fun interfere :: "gate_fire \<Rightarrow> interference \<Rightarrow> world \<Rightarrow> world" where
  "interfere fire (IProcess now event) w = w\<lparr>au_guard := guard_Process (au_guard w) now event\<rparr>"
| "interfere fire (IProcessContext newHeader now event v) w =
     w\<lparr>au_guard := fst (guard_ProcessContext fire newHeader (au_guard w) now event v)\<rparr>"
| "interfere fire (IAdvanceContext newHeader v) w =
     w\<lparr>au_guard := fst (guard_AdvanceContext fire newHeader (au_guard w) v)\<rparr>"
| "interfere fire (ICancelCheck v) w = cancelLiveApplyIfDecisionChanged fire v w"
| "interfere fire (ITighten action detail closeAuthority v) w =
     tighten fire action detail closeAuthority v w"
| "interfere fire (IRelease gt) w = w\<lparr>au_busy := removeAll gt (au_busy w)\<rparr>"

fun needs_stateMu :: "interference \<Rightarrow> bool" where
  "needs_stateMu (ICancelCheck _) = True"
| "needs_stateMu (ITighten _ _ _ _) = True"
| "needs_stateMu _ = False"

definition yield_point :: "env \<Rightarrow> unit act" where
  "yield_point E = do {
     t \<leftarrow> next_tick;
     modify (fold (interfere (e_fire E)) (e_interference E t))
   }"

definition yield_locked :: "env \<Rightarrow> unit act" where
  "yield_locked E = do {
     t \<leftarrow> next_tick;
     modify (fold (interfere (e_fire E)) (filter (\<lambda>i. \<not> needs_stateMu i) (e_interference E t)))
   }"

section \<open>Calls of the guard\<close>

definition guard_call :: "env \<Rightarrow> (guard \<Rightarrow> view \<Rightarrow> guard \<times> 'a) \<Rightarrow> 'a act" where
  "guard_call E f = do {
     t \<leftarrow> next_tick;
     w \<leftarrow> fetch;
     let (g, r) = f (au_guard w) (e_view E t);
     modify (\<lambda>w. w\<lparr>au_guard := g\<rparr>);
     ret r
   }"

definition evaluate_guard :: "env \<Rightarrow> Decision act" where
  "evaluate_guard E = guard_call E (guard_Evaluate (e_fire E))"

definition arm_guard :: "env \<Rightarrow> go_error act" where
  "arm_guard E = do {
     t \<leftarrow> next_tick;
     err \<leftarrow> guard_call E (\<lambda>g v. guard_Arm (e_fire E) g v (e_view E t));
     ret (arm_go_error err)
   }"

definition disarm_guard :: "env \<Rightarrow> string \<Rightarrow> unit act" where
  "disarm_guard E detail = guard_call E (\<lambda>g v. (guard_Disarm (e_fire E) detail g v, ()))"

definition stop_guard :: "env \<Rightarrow> string \<Rightarrow> unit act" where
  "stop_guard E detail = guard_call E (\<lambda>g v. (guard_EmergencyStop (e_fire E) detail g v, ()))"

definition reset_guard :: "env \<Rightarrow> string \<Rightarrow> unit act" where
  "reset_guard E detail = guard_call E (\<lambda>g v. (guard_Reset (e_fire E) detail g v, ()))"

definition heartbeat_guard :: "env \<Rightarrow> unit act" where
  "heartbeat_guard E = guard_call E (\<lambda>g v. (guard_Heartbeat g (vw_Now v), ()))"

definition inhibit :: "env \<Rightarrow> string \<Rightarrow> unit act" where
  "inhibit E detail = do { yield_point E; disarm_guard E detail }"

definition locked_heartbeat :: "env \<Rightarrow> unit act" where
  "locked_heartbeat E = do { yield_point E; heartbeat_guard E }"

definition terminateBound :: "env \<Rightarrow> string \<Rightarrow> unit act" where
  "terminateBound E detail = do {
     yield_point E;
     t \<leftarrow> next_tick;
     modify (\<lambda>w. w\<lparr>au_closed := True,
                   au_guard := guard_EmergencyStop (e_fire E) detail (au_guard w) (e_view E t),
                   w_cancelled := (w_cancelled w \<or> au_activeCancel w)\<rparr>)
   }"

definition requireReady :: "env \<Rightarrow> go_error act" where
  "requireReady E = do {
     yield_point E;
     w \<leftarrow> fetch;
     ret (if au_closed w then [ErrAuthorityClosed]
          else if \<not> au_bound w \<or> au_source w = None then [ErrAuthorityUnbound]
          else nil)
   }"

section \<open>Contexts\<close>

definition ctx_err :: "env \<Rightarrow> ctx \<Rightarrow> go_error act" where
  "ctx_err E c = do {
     t \<leftarrow> next_tick;
     w \<leftarrow> fetch;
     ret (if cx_Op c \<and> w_cancelled w then abandoned_error (e_expired_first E t)
          else ctx_status_error (e_ctx E t c))
   }"

fun earlier :: "timestamp option \<Rightarrow> timestamp \<Rightarrow> timestamp" where
  "earlier None d = d"
| "earlier (Some d') d = min d' d"

definition with_deadline :: "ctx \<Rightarrow> timestamp \<Rightarrow> ctx" where
  "with_deadline c d = c\<lparr>cx_Deadline := Some (earlier (cx_Deadline c) d)\<rparr>"

definition with_timeout :: "env \<Rightarrow> ctx \<Rightarrow> ctx act" where
  "with_timeout E c = do {
     t \<leftarrow> next_tick;
     w \<leftarrow> fetch;
     ret (with_deadline c (e_sys E t + au_ttl w))
   }"

definition background :: ctx where
  "background = \<lparr>cx_Caller = False, cx_Op = False, cx_Deadline = None\<rparr>"

definition safetyContext :: "env \<Rightarrow> ctx act" where
  "safetyContext E = with_timeout E background"

definition commandContext :: "env \<Rightarrow> ctx \<Rightarrow> ctx act" where
  "commandContext E c = with_timeout E (c\<lparr>cx_Op := True\<rparr>)"

definition validContext :: "env \<Rightarrow> ctx option \<Rightarrow> go_error act" where
  "validContext E c = (case c of None \<Rightarrow> ret [ErrInvalidAuthority] | Some c \<Rightarrow> ctx_err E c)"

text \<open>\<^verbatim>\<open>acquire\<close> waits for the serialization token or the end of the context; the environment
  says which came first. What runs here meanwhile is what needs no token. The operations that hold
  the token while another waits for it come before that one in a history (\<open>authority_op\<close>):
  before it waits, an operation other than a safety action only reads the safety epoch, so
  its place in a history is where it gets the token; what a safety action does before it
  waits is a program of its own, \<open>safe_request\<close>.\<close>

definition acquire :: "env \<Rightarrow> ctx \<Rightarrow> go_error act" where
  "acquire E c = do { yield_point E; t \<leftarrow> next_tick; ret (e_acquire E t c) }"

definition acquireSafety :: "env \<Rightarrow> go_error act" where
  "acquireSafety E = do { c \<leftarrow> safetyContext E; acquire E c }"


section \<open>External callbacks\<close>

definition hold_gate :: "callback_gate \<Rightarrow> unit act" where
  "hold_gate gt = modify (\<lambda>w. w\<lparr>au_busy := gt # au_busy w\<rparr>)"

definition gate_busy :: "callback_gate \<Rightarrow> bool act" where
  "gate_busy gt = do { w \<leftarrow> fetch; ret (gt \<in> set (au_busy w)) }"

text \<open>The worker of a callback, once its gate is held: other goroutines run meanwhile, and the
  gate stays taken when the caller stops waiting first.\<close>

definition run_callback ::
  "env \<Rightarrow> callback_gate \<Rightarrow> (nat \<Rightarrow> 'a callback) \<Rightarrow> 'a callback act" where
  "run_callback E gt f = do {
     t \<leftarrow> next_tick;
     yield_point E;
     (case f t of Abandoned _ \<Rightarrow> hold_gate gt | _ \<Rightarrow> ret ());
     ret (f t)
   }"

text \<open>The clock's gate is waited for within the context.\<close>

definition acquireCallbackGateContext :: "env \<Rightarrow> ctx \<Rightarrow> callback_gate \<Rightarrow> go_error act" where
  "acquireCallbackGateContext E c gt = do {
     yield_point E;
     busy \<leftarrow> gate_busy gt;
     t \<leftarrow> next_tick;
     err \<leftarrow> ctx_err E c;
     ret (if busy then (if err \<noteq> nil then err else abandoned_error (e_expired_first E t))
          else if e_expired_first E t then err else nil)
   }"

definition currentTime :: "env \<Rightarrow> ctx \<Rightarrow> (timestamp \<times> go_error) act" where
  "currentTime E c = do {
     err \<leftarrow> ctx_err E c;
     if err \<noteq> nil then ret (zero_time, ErrAuthorityClock # err)
     else do {
       gateErr \<leftarrow> acquireCallbackGateContext E c ClockCall;
       if gateErr \<noteq> nil then ret (zero_time, ErrAuthorityClock # gateErr)
       else do {
         r \<leftarrow> run_callback E ClockCall (e_now E);
         ret (case r of
                Finished now \<Rightarrow> (now, if now = zero_time then [ErrAuthorityClock] else nil)
              | CallbackPanic \<Rightarrow> (zero_time, [ErrAuthorityClock, ErrCallbackPanic])
              | Abandoned x \<Rightarrow> (zero_time, ErrAuthorityClock # abandoned_error x))
       }
     }
   }"

definition callEvidenceCommit :: "env \<Rightarrow> ctx \<Rightarrow> EvidenceRecord \<Rightarrow> (EvidenceID \<times> go_error) act" where
  "callEvidenceCommit E c r = do {
     err \<leftarrow> ctx_err E c;
     if err \<noteq> nil then ret ([], err)
     else do {
       busy \<leftarrow> gate_busy EvidenceCall;
       if busy then ret ([], [ErrEvidence])
       else do {
         x \<leftarrow> run_callback E EvidenceCall (\<lambda>t. e_commit E t r);
         ret (case x of
                Finished (i, e) \<Rightarrow> (i, e)
              | CallbackPanic \<Rightarrow> ([], [ErrEvidence, ErrCallbackPanic])
              | Abandoned y \<Rightarrow> ([], abandoned_error y))
       }
     }
   }"

definition callActuatorSend ::
  "env \<Rightarrow> callback_gate \<Rightarrow> ctx \<Rightarrow> ActuatorCommand \<Rightarrow> (receipt option \<times> go_error) act" where
  "callActuatorSend E gt c command = do {
     yield_point E;
     err \<leftarrow> ctx_err E c;
     if err \<noteq> nil then ret (None, err)
     else do {
       busy \<leftarrow> gate_busy gt;
       if busy then ret (None, [ErrActuatorUncertain])
       else do {
         w \<leftarrow> fetch;
         emit (TSend (w_issued w) command);
         x \<leftarrow> run_callback E gt (\<lambda>t. e_send E t command);
         ret (case x of
                Finished (r, e) \<Rightarrow> (r, e)
              | CallbackPanic \<Rightarrow> (None, [ErrActuatorUncertain, ErrCallbackPanic])
              | Abandoned y \<Rightarrow> (None, abandoned_error y))
       }
     }
   }"

definition zero_ack :: ActuatorAcknowledgment where
  "zero_ack = \<lparr>ack_ControllerSession = 0, ack_Sequence = 0, ack_Accepted = False,
     ack_AppliedAt = zero_time, ack_Detail = []\<rparr>"

definition callActuatorAwait ::
  "env \<Rightarrow> callback_gate \<Rightarrow> ctx \<Rightarrow> receipt \<Rightarrow> (ActuatorAcknowledgment \<times> go_error) act" where
  "callActuatorAwait E gt c r = do {
     err \<leftarrow> ctx_err E c;
     if err \<noteq> nil then ret (zero_ack, err)
     else do {
       busy \<leftarrow> gate_busy gt;
       if busy then ret (zero_ack, [ErrActuatorUncertain])
       else do {
         x \<leftarrow> run_callback E gt (\<lambda>t. e_await E t r);
         ret (case x of
                Finished (a, e) \<Rightarrow> (a, e)
              | CallbackPanic \<Rightarrow> (zero_ack, [ErrActuatorUncertain, ErrCallbackPanic])
              | Abandoned y \<Rightarrow> (zero_ack, abandoned_error y))
       }
     }
   }"

definition callCommandPolicy :: "env \<Rightarrow> ctx \<Rightarrow> PolicyRequest \<Rightarrow> (PolicyDecision \<times> go_error) act" where
  "callCommandPolicy E c request = do {
     err \<leftarrow> ctx_err E c;
     if err \<noteq> nil then ret (zero_policy, err)
     else do {
       busy \<leftarrow> gate_busy PolicyCall;
       if busy then ret (zero_policy, [ErrCommandPolicy])
       else do {
         x \<leftarrow> run_callback E PolicyCall (\<lambda>t. e_policy E t request);
         ret (case x of
                Finished (d, e) \<Rightarrow> (d, e)
              | CallbackPanic \<Rightarrow> (zero_policy, [ErrCallbackPanic])
              | Abandoned y \<Rightarrow> (zero_policy, abandoned_error y))
       }
     }
   }"

section \<open>Evidence\<close>

text \<open>\<^verbatim>\<open>commit\<close> counts the record, stamps it, and calls the adapter within its own deadline.\<close>

definition commit_stamped :: "env \<Rightarrow> ctx \<Rightarrow> EvidenceRecord \<Rightarrow> (EvidenceID \<times> go_error) act" where
  "commit_stamped E c r = do {
     (i, err) \<leftarrow> callEvidenceCommit E c r;
     if err \<noteq> nil then ret ([], ErrEvidence # err)
     else if i = [] then ret ([], [ErrEvidenceIdentity])
     else do { emit (TCommitted r i); ret (i, nil) }
   }"

definition commit :: "env \<Rightarrow> ctx \<Rightarrow> EvidenceRecord \<Rightarrow> (EvidenceID \<times> go_error) act" where
  "commit E c r = do {
     commitCtx \<leftarrow> with_timeout E c;
     modify (\<lambda>w. w\<lparr>au_recordSequence := au_recordSequence w + 1, w_recorded := Suc (w_recorded w)\<rparr>);
     w \<leftarrow> fetch;
     let r1 = r\<lparr>er_RecordSequence := au_recordSequence w, er_ControllerSession := au_session w\<rparr>;
     if er_RecordedAt r1 \<noteq> zero_time then commit_stamped E commitCtx r1
     else do {
       (recordedAt, err) \<leftarrow> currentTime E commitCtx;
       if err \<noteq> nil then ret ([], ErrEvidence # err)
       else commit_stamped E commitCtx (r1\<lparr>er_RecordedAt := recordedAt\<rparr>)
     }
   }"

definition recordDecision ::
  "env \<Rightarrow> ctx \<Rightarrow> Decision \<Rightarrow> EventID list \<Rightarrow> string \<Rightarrow> (EvidenceID \<times> go_error) act" where
  "recordDecision E c d causes detail =
     commit E c ((record_of EvidenceDecision)
       \<lparr>er_Causes := causes, er_Decision := Some d, er_Detail := detail\<rparr>)"

definition recordPolicyDecision ::
  "env \<Rightarrow> ctx \<Rightarrow> Decision \<Rightarrow> EventID list \<Rightarrow> EncodedCommand \<Rightarrow> PolicyDecision \<Rightarrow> string
     \<Rightarrow> (EvidenceID \<times> go_error) act" where
  "recordPolicyDecision E c input causes requested policy detail =
     commit E c ((record_of (if pd_Permit policy then EvidenceDecision else EvidenceRejected))
       \<lparr>er_Causes := causes, er_Decision := Some input, er_Policy := Some policy,
        er_Requested := Some requested, er_Detail := detail\<rparr>)"

definition classifyActuatorError :: "env \<Rightarrow> ctx \<Rightarrow> go_error \<Rightarrow> go_error act" where
  "classifyActuatorError E c err = do {
     ctxErr \<leftarrow> ctx_err E c;
     ret (if errors_Is err CtxDeadlineExceeded \<or> errors_Is ctxErr CtxDeadlineExceeded
          then ErrActuatorTimeout # err else ErrActuatorUncertain # err)
   }"

definition recordActuatorError ::
  "env \<Rightarrow> ctx \<Rightarrow> ActuatorCommand \<Rightarrow> EvidenceID \<Rightarrow> EvidenceID \<Rightarrow> EventID list \<Rightarrow> go_error
     \<Rightarrow> go_error act" where
  "recordActuatorError E c command parent decision causes err = do {
     classified \<leftarrow> classifyActuatorError E c err;
     let kind = (if errors_Is classified ErrActuatorTimeout then EvidenceTimeout else EvidenceFailure);
     safeCtx \<leftarrow> safetyContext E;
     (_, recordErr) \<leftarrow> commit E safeCtx ((record_of kind)
       \<lparr>er_CommandSequence := ac_Sequence command, er_ParentID := parent, er_DecisionID := decision,
        er_Causes := causes, er_Applied := Some (ac_Command command), er_Actuator := Some command,
        er_Error := classified\<rparr>);
     ret recordErr
   }"


section \<open>Executing one command\<close>

definition withDecisionInputCause :: "session_id \<Rightarrow> EventID list \<Rightarrow> Decision \<Rightarrow> EventID list" where
  "withDecisionInputCause session causes d =
     (if \<not> dec_Permit d \<or> dec_InputSequence d = 0 then causes
      else append_unique causes
             \<lparr>id_Session = session, id_Stream = ''input'', id_Sequence = dec_InputSequence d\<rparr>)"

definition checkBeforeSend :: "env \<Rightarrow> ctx \<Rightarrow> Decision \<Rightarrow> bool \<Rightarrow> (Decision \<times> go_error) act" where
  "checkBeforeSend E c expected sending = do {
     yield_point E;
     current \<leftarrow> evaluate_guard E;
     err \<leftarrow> ctx_err E c;
     w \<leftarrow> fetch;
     if err \<noteq> nil then ret (current, ErrAuthorityRevoked # err)
     else if \<not> sameDecisionInput expected current then
       ret (current, if au_activeLive w \<and> \<not> au_activeSending w \<and> ordinaryInputDecision current
                     then [ErrAuthorityRevoked, ErrIntentSuperseded] else [ErrAuthorityRevoked])
     else if sending then do {
       modify (\<lambda>w. w\<lparr>au_activeSending := True\<rparr>);
       emit (TPreflight expected current);
       ret (current, nil)
     }
     else ret (current, nil)
   }"

text \<open>Evidence about a fallback runs in a fresh safety context of its own.\<close>

definition fallback_ctx :: "env \<Rightarrow> ctx \<Rightarrow> bool \<Rightarrow> ctx act" where
  "fallback_ctx E c fallback = (if fallback then safetyContext E else ret c)"

text \<open>The parts of one execution that do not change while it runs.\<close>

record execution =
  ex_Sequence :: u64
  ex_Requested :: EncodedCommand
  ex_Applied :: EncodedCommand
  ex_DecisionID :: EvidenceID
  ex_IntentID :: EvidenceID
  ex_Causes :: "EventID list"
  ex_Fallback :: bool
  ex_Reason :: string

definition abortUnsent ::
  "env \<Rightarrow> execution \<Rightarrow> ApplyResult \<Rightarrow> go_error \<Rightarrow> (ApplyResult \<times> go_error) act" where
  "abortUnsent E x result cause = do {
     abortCtx \<leftarrow> safetyContext E;
     (i, abortErr) \<leftarrow> commit E abortCtx ((record_of EvidenceFailure)
       \<lparr>er_CommandSequence := ex_Sequence x,
        er_ParentID := (if ex_IntentID x = [] then ex_DecisionID x else ex_IntentID x),
        er_DecisionID := ex_DecisionID x, er_Causes := ex_Causes x,
        er_Requested := Some (ex_Requested x), er_Detail := ''intent not transmitted'',
        er_Error := cause\<rparr>);
     ret (result\<lparr>ar_OutcomeEvidenceID := i\<rparr>, cause @ abortErr)
   }"

definition await_receipt ::
  "env \<Rightarrow> ctx \<Rightarrow> ActuatorCommand \<Rightarrow> receipt \<Rightarrow> (ActuatorAcknowledgment \<times> go_error) act" where
  "await_receipt E c envelope r = do {
     (ack, ackErr) \<leftarrow> callActuatorAwait E (if ac_Fallback envelope then SafeAwaitCall else LiveAwaitCall) c r;
     if ackErr \<noteq> nil then ret (ack, ackErr)
     else do {
       (validationTime, clockErr) \<leftarrow> currentTime E c;
       w \<leftarrow> fetch;
       if clockErr \<noteq> nil then ret (ack, clockErr)
       else do {
         let verdict = validateAcknowledgment envelope ack validationTime (au_requireApplied w);
         (if verdict = nil then emit (TAcknowledged envelope ack) else ret ());
         ret (ack, verdict)
       }
     }
   }"

text \<open>After the outcome of the receipt is known: a failed or invalid one is recorded as a timeout
  or failure, a valid one becomes the acknowledged baseline and is recorded.\<close>

definition record_outcome ::
  "env \<Rightarrow> ctx \<Rightarrow> execution \<Rightarrow> ActuatorCommand \<Rightarrow> ApplyResult \<Rightarrow> EvidenceID
     \<Rightarrow> ActuatorAcknowledgment \<Rightarrow> go_error \<Rightarrow> (ApplyResult \<times> go_error) act" where
  "record_outcome E c x envelope result sentID ack earlierErr = do {
     (if ack_Accepted ack \<and> ack_AppliedAt ack \<noteq> zero_time
      then modify (\<lambda>w. w\<lparr>au_previousApplied := Some (ex_Applied x),
             au_previouslyAppliedAt := ack_AppliedAt ack,
             au_previousLiveExpiry :=
               (if ex_Fallback x then au_previousLiveExpiry w else ac_ExpiresAt envelope)\<rparr>)
      else ret ());
     let outcomeErr = (if ack_Accepted ack then nil else [ErrActuatorRejected]);
     outcomeCtx \<leftarrow> fallback_ctx E c (ex_Fallback x);
     (outcomeID, evidenceErr) \<leftarrow> commit E outcomeCtx
       ((record_of (if ack_Accepted ack then EvidenceAcknowledged else EvidenceRejected))
         \<lparr>er_CommandSequence := ex_Sequence x, er_ParentID := sentID,
          er_DecisionID := ex_DecisionID x, er_Causes := ex_Causes x,
          er_Requested := Some (ex_Requested x), er_Applied := Some (ex_Applied x),
          er_Actuator := Some envelope, er_Acknowledgment := Some ack, er_Error := outcomeErr\<rparr>);
     ret (result\<lparr>ar_Acknowledgment := Some ack, ar_OutcomeEvidenceID := outcomeID\<rparr>,
          earlierErr @ outcomeErr @ evidenceErr)
   }"

definition sent_record :: "execution \<Rightarrow> ActuatorCommand \<Rightarrow> EvidenceRecord" where
  "sent_record x envelope = (record_of EvidenceSent)
     \<lparr>er_CommandSequence := ex_Sequence x, er_RecordedAt := ac_IssuedAt envelope,
      er_ParentID := ex_IntentID x, er_DecisionID := ex_DecisionID x, er_Causes := ex_Causes x,
      er_Requested := Some (ex_Requested x), er_Applied := Some (ex_Applied x),
      er_Actuator := Some envelope\<rparr>"

text \<open>After \<^verbatim>\<open>Send\<close> returned a receipt. A fallback waits for its receipt before any evidence
  callback can spend its lease; a live command records that it was sent first.\<close>

definition finish_ack ::
  "env \<Rightarrow> ctx \<Rightarrow> execution \<Rightarrow> ActuatorCommand \<Rightarrow> ApplyResult \<Rightarrow> EvidenceID
     \<Rightarrow> ActuatorAcknowledgment \<times> go_error \<Rightarrow> go_error \<Rightarrow> (ApplyResult \<times> go_error) act" where
  "finish_ack E c x envelope result sentID received earlierErr =
     (if snd received \<noteq> nil then do {
        classified \<leftarrow> classifyActuatorError E c (snd received);
        recordErr \<leftarrow> recordActuatorError E c envelope sentID (ex_DecisionID x) (ex_Causes x) (snd received);
        ret (result, earlierErr @ classified @ recordErr)
      }
      else record_outcome E c x envelope result sentID (fst received) earlierErr)"

definition after_send ::
  "env \<Rightarrow> ctx \<Rightarrow> execution \<Rightarrow> ActuatorCommand \<Rightarrow> ApplyResult \<Rightarrow> receipt \<Rightarrow> go_error
     \<Rightarrow> (ApplyResult \<times> go_error) act" where
  "after_send E c x envelope result r intentErr =
     (if ex_Fallback x then do {
        received \<leftarrow> await_receipt E c envelope r;
        sentCtx \<leftarrow> safetyContext E;
        (sentID, sentErr) \<leftarrow> commit E sentCtx (sent_record x envelope);
        finish_ack E c x envelope result sentID received (intentErr @ sentErr)
      }
      else do {
        (sentID, sentErr) \<leftarrow> commit E c (sent_record x envelope);
        if sentErr \<noteq> nil then do {
          recordErr \<leftarrow> recordActuatorError E c envelope (ex_IntentID x) (ex_DecisionID x) (ex_Causes x) sentErr;
          ret (result, intentErr @ sentErr @ recordErr)
        }
        else do {
          received \<leftarrow> await_receipt E c envelope r;
          finish_ack E c x envelope result sentID received (intentErr @ sentErr)
        }
      })"

definition transmit ::
  "env \<Rightarrow> ctx \<Rightarrow> execution \<Rightarrow> ActuatorCommand \<Rightarrow> ApplyResult \<Rightarrow> go_error
     \<Rightarrow> (ApplyResult \<times> go_error) act" where
  "transmit E c x envelope result intentErr = do {
     modify (\<lambda>w. w\<lparr>au_previousApplied := None, au_previouslyAppliedAt := zero_time,
                   au_previousLiveExpiry := zero_time\<rparr>);
     (r, sendErr) \<leftarrow> callActuatorSend E (if ex_Fallback x then SafeSendCall else LiveSendCall) c envelope;
     case (r, sendErr) of
       (Some r, []) \<Rightarrow> after_send E c x envelope result r intentErr
     | _ \<Rightarrow> do {
         let err = (if sendErr = nil then [ErrActuatorUncertain] else sendErr);
         classified \<leftarrow> classifyActuatorError E c err;
         recordErr \<leftarrow> recordActuatorError E c envelope (ex_IntentID x) (ex_DecisionID x) (ex_Causes x) err;
         ret (result, intentErr @ classified @ recordErr)
       }
   }"

definition lease_end :: "ctx \<Rightarrow> timestamp \<Rightarrow> duration \<Rightarrow> timestamp" where
  "lease_end c issuedAt ttl = earlier (cx_Deadline c) (issuedAt + ttl)"

definition envelope_of :: "world \<Rightarrow> ctx \<Rightarrow> execution \<Rightarrow> timestamp \<Rightarrow> ActuatorCommand" where
  "envelope_of w c x issuedAt =
     \<lparr>ac_ControllerSession = au_session w, ac_Sequence = ex_Sequence x, ac_Command = ex_Applied x,
      ac_IssuedAt = issuedAt, ac_ExpiresAt = lease_end c issuedAt (au_ttl w),
      ac_TTL = max (time_sub (lease_end c issuedAt (au_ttl w)) issuedAt) 0,
      ac_Fallback = ex_Fallback x, ac_Reason = ex_Reason x, ac_DecisionID = ex_DecisionID x,
      ac_IntentID = ex_IntentID x\<rparr>"

text \<open>From the issue time to the send: the lease, the expiry check and the last preflight.\<close>

definition issue ::
  "env \<Rightarrow> ctx \<Rightarrow> execution \<Rightarrow> Decision \<Rightarrow> ApplyResult \<Rightarrow> timestamp \<Rightarrow> go_error
     \<Rightarrow> (ApplyResult \<times> go_error) act" where
  "issue E c0 x decision result issuedAt intentErr = do {
     c \<leftarrow> fallback_ctx E c0 (ex_Fallback x);
     w \<leftarrow> fetch;
     let envelope = envelope_of w c x issuedAt;
     if ac_TTL envelope \<le> 0 then do {
       recordErr \<leftarrow> recordActuatorError E c envelope (ex_IntentID x) (ex_DecisionID x) (ex_Causes x)
         [ErrActuatorTimeout];
       ret (result, intentErr @ [ErrActuatorTimeout] @ recordErr)
     }
     else if ex_Fallback x then transmit E c x envelope result intentErr
     else do {
       (current, err) \<leftarrow> checkBeforeSend E c decision True;
       if err \<noteq> nil then abortUnsent E x (result\<lparr>ar_Decision := current\<rparr>) err
       else transmit E c x envelope result intentErr
     }
   }"

text \<open>After the intent record: the first preflight of a live command and the issue time.\<close>

definition stamp ::
  "env \<Rightarrow> ctx \<Rightarrow> execution \<Rightarrow> Decision \<Rightarrow> ApplyResult \<Rightarrow> go_error \<Rightarrow> (ApplyResult \<times> go_error) act" where
  "stamp E c x decision result intentErr = do {
     clockCtx \<leftarrow> fallback_ctx E c (ex_Fallback x);
     (issuedAt, clockErr) \<leftarrow> currentTime E clockCtx;
     if clockErr \<noteq> nil \<and> \<not> ex_Fallback x then abortUnsent E x result (intentErr @ clockErr)
     else do {
       t \<leftarrow> next_tick;
       issue E c x decision result (if clockErr \<noteq> nil then e_sys E t else issuedAt) (intentErr @ clockErr)
     }
   }"

definition executeLocked ::
  "env \<Rightarrow> ctx \<Rightarrow> EncodedCommand \<Rightarrow> EncodedCommand \<Rightarrow> Decision \<Rightarrow> EvidenceID \<Rightarrow> EventID list
     \<Rightarrow> bool \<Rightarrow> string \<Rightarrow> (ApplyResult \<times> go_error) act" where
  "executeLocked E c requested applied decision decisionID causes fallback reason = do {
     modify (\<lambda>w. w\<lparr>au_commandSequence := au_commandSequence w + 1, w_issued := Suc (w_issued w)\<rparr>);
     w \<leftarrow> fetch;
     let sequence = au_commandSequence w;
     intentCtx \<leftarrow> fallback_ctx E c fallback;
     (intentID, intentErr) \<leftarrow> commit E intentCtx ((record_of EvidenceIntent)
       \<lparr>er_CommandSequence := sequence, er_ParentID := decisionID, er_DecisionID := decisionID,
        er_Causes := causes, er_Requested := Some requested, er_Applied := Some applied,
        er_Detail := reason\<rparr>);
     let result = zero_result\<lparr>ar_Decision := decision, ar_Requested := requested,
           ar_Applied := applied, ar_Fallback := fallback, ar_CommandSequence := sequence,
           ar_DecisionEvidenceID := decisionID, ar_IntentEvidenceID := intentID\<rparr>;
     let x = \<lparr>ex_Sequence = sequence, ex_Requested = requested, ex_Applied = applied,
           ex_DecisionID = decisionID, ex_IntentID = intentID, ex_Causes = causes,
           ex_Fallback = fallback, ex_Reason = reason\<rparr>;
     if fallback then stamp E c x decision result intentErr
     else if intentErr \<noteq> nil then abortUnsent E x result intentErr
     else do {
       (current, err) \<leftarrow> checkBeforeSend E c decision False;
       if err \<noteq> nil then abortUnsent E x (result\<lparr>ar_Decision := current\<rparr>) err
       else stamp E c x decision result intentErr
     }
   }"

definition executeFallbackLocked ::
  "env \<Rightarrow> Decision \<Rightarrow> EventID list \<Rightarrow> string \<Rightarrow> (ApplyResult \<times> go_error) act" where
  "executeFallbackLocked E decision causes reason = do {
     decisionCtx \<leftarrow> safetyContext E;
     (decisionID, decisionErr) \<leftarrow> recordDecision E decisionCtx decision causes reason;
     executionCtx \<leftarrow> safetyContext E;
     w \<leftarrow> fetch;
     (result, applyErr) \<leftarrow> executeLocked E executionCtx (au_safe w) (au_safe w) decision decisionID
       causes True reason;
     ret (result, decisionErr @ applyErr)
   }"


section \<open>Policy\<close>

definition evaluatePolicy ::
  "env \<Rightarrow> ctx \<Rightarrow> EncodedCommand \<Rightarrow> Decision \<Rightarrow> (PolicyDecision \<times> go_error) act" where
  "evaluatePolicy E c requested input = do {
     (now, err) \<leftarrow> currentTime E c;
     if err \<noteq> nil then ret (zero_policy, ErrCommandPolicy # err)
     else do {
       modify (\<lambda>w. if au_previousLiveExpiry w \<noteq> zero_time \<and> \<not> now < au_previousLiveExpiry w
                   then w\<lparr>au_previousApplied := None, au_previouslyAppliedAt := zero_time\<rparr> else w);
       w \<leftarrow> fetch;
       (decision, err1) \<leftarrow> callCommandPolicy E c
         \<lparr>pr_ControllerSession = au_session w, pr_EvaluatedAt = now, pr_Command = requested,
          pr_Input = input, pr_PreviousApplied = au_previousApplied w,
          pr_PreviouslyAppliedAt = au_previouslyAppliedAt w\<rparr>;
       if err1 \<noteq> nil then ret (decision\<lparr>pd_Permit := False\<rparr>, ErrCommandPolicy # err1)
       else do {
         (later, err2) \<leftarrow> currentTime E c;
         ret (if err2 \<noteq> nil then (decision\<lparr>pd_Permit := False\<rparr>, ErrCommandPolicy # err2)
              else if \<not> pd_Permit decision \<or> pd_PolicyID decision = [] \<or> pd_Subject decision = []
                      \<or> pd_Authorization decision = [] \<or> \<not> pd_ExpiresAt decision > later
              then (decision\<lparr>pd_Permit := False\<rparr>, [ErrCommandPolicy])
              else (decision, nil))
       }
     }
   }"

section \<open>Applying a command\<close>

definition beginApply :: "env \<Rightarrow> ctx \<Rightarrow> (go_error + ctx \<times> Decision \<times> u64) act" where
  "beginApply E c = do {
     yield_point E;
     w \<leftarrow> fetch;
     if au_closed w then ret (Inl [ErrAuthorityClosed])
     else if \<not> au_bound w \<or> au_source w = None then ret (Inl [ErrAuthorityUnbound])
     else do {
       opCtx \<leftarrow> commandContext E c;
       decision \<leftarrow> evaluate_guard E;
       modify (\<lambda>w. w\<lparr>au_activeID := au_activeID w + 1, au_active := au_activeID w + 1,
         au_activeLive := dec_Permit decision, au_activeSending := False,
         au_activeInput := decision, au_activeCancel := True, w_cancelled := False\<rparr>);
       w \<leftarrow> fetch;
       ret (Inr (opCtx, decision, au_active w))
     }
   }"

definition endApply :: "env \<Rightarrow> u64 \<Rightarrow> unit act" where
  "endApply E i = do {
     yield_point E;
     modify (\<lambda>w. if au_active w = i
       then w\<lparr>au_active := 0, au_activeLive := False, au_activeSending := False,
              au_activeInput := zero_decision, au_activeCancel := False\<rparr> else w)
   }"

definition markActiveFallback :: "env \<Rightarrow> u64 \<Rightarrow> unit act" where
  "markActiveFallback E i = do {
     yield_point E;
     modify (\<lambda>w. if au_active w = i
       then w\<lparr>au_activeLive := False, au_activeInput := zero_decision\<rparr> else w)
   }"

definition operator_decision :: Decision where
  "operator_decision = zero_decision\<lparr>dec_State := StateSafe, dec_Reasons := [ReasonOperator]\<rparr>"

definition acknowledged :: "ApplyResult \<Rightarrow> bool" where
  "acknowledged r = (case ar_Acknowledgment r of None \<Rightarrow> False | Some a \<Rightarrow> ack_Accepted a)"

text \<open>An intent that cannot be encoded still forces the engineered safe state, but not past a
  closed or unbound authority.\<close>

definition apply_invalid :: "env \<Rightarrow> ApplyRequest \<Rightarrow> go_error \<Rightarrow> (ApplyResult \<times> go_error) act" where
  "apply_invalid E request err = do {
     let failureDetail = boundedFailureDetail E
           (''invalid command intent '' @ e_quote E (cmd_Name (rq_Intent request))) err;
     acquireErr \<leftarrow> acquireSafety E;
     if acquireErr \<noteq> nil then ret (zero_result, err @ acquireErr)
     else do {
       readyErr \<leftarrow> requireReady E;
       if readyErr \<noteq> nil then ret (zero_result, err @ readyErr)
       else do {
         inhibit E failureDetail;
         (fallback, fallbackErr) \<leftarrow> executeFallbackLocked E operator_decision (rq_Causes request) failureDetail;
         ret (fallback, err @ fallbackErr)
       }
     }
   }"

text \<open>The safe state after a failed live command. Only an intent superseded by ordinary input
  before any send keeps the standing arm, and only if its fallback succeeds.\<close>

definition apply_recover ::
  "env \<Rightarrow> bool \<Rightarrow> Decision \<Rightarrow> EventID list \<Rightarrow> string \<Rightarrow> ApplyResult \<Rightarrow> go_error
     \<Rightarrow> (ApplyResult \<times> go_error) act" where
  "apply_recover E superseded fallbackDecision fallbackCauses failureReason result applyErr = do {
     (if \<not> superseded then inhibit E failureReason else ret ());
     (safeResult, safeErr) \<leftarrow> executeFallbackLocked E fallbackDecision fallbackCauses failureReason;
     (if \<not> superseded then ret ()
      else if safeErr \<noteq> nil \<or> \<not> acknowledged safeResult
      then inhibit E ''superseded intent fallback failed''
      else locked_heartbeat E);
     ret (result\<lparr>ar_FallbackSequence := ar_CommandSequence safeResult,
                 ar_FallbackAcknowledged := acknowledged safeResult\<rparr>, applyErr @ safeErr)
   }"

text \<open>A live command that failed: revocation and supersession.\<close>

definition apply_failed ::
  "env \<Rightarrow> u64 \<Rightarrow> EventID list \<Rightarrow> Decision \<Rightarrow> ApplyResult \<Rightarrow> go_error \<Rightarrow> (ApplyResult \<times> go_error) act" where
  "apply_failed E activeID causes decision result applyErr0 = do {
     markActiveFallback E activeID;
     yield_point E;
     current \<leftarrow> evaluate_guard E;
     w \<leftarrow> fetch;
     let revoked = errors_Is applyErr0 ErrAuthorityRevoked \<or> \<not> sameDecisionInput decision current;
     let applyErr = (if revoked then applyErr0 @ [ErrAuthorityRevoked] else applyErr0);
     let superseded = errors_Is applyErr ErrIntentSuperseded
           \<and> \<not> errors_Is applyErr ErrEvidence \<and> \<not> errors_Is applyErr ErrEvidenceIdentity;
     apply_recover E superseded (if revoked then current else decision)
       (if revoked then withDecisionInputCause (au_session w) causes current else causes)
       (if revoked then ''authority revoked before actuator send''
        else ''requested command outcome uncertain'')
       result applyErr
   }"

text \<open>A live command that was acknowledged: the final check is serialized with EmergencyStop.\<close>

definition apply_confirm ::
  "env \<Rightarrow> u64 \<Rightarrow> EventID list \<Rightarrow> Decision \<Rightarrow> ApplyResult \<Rightarrow> (ApplyResult \<times> go_error) act" where
  "apply_confirm E activeID causes decision result = do {
     yield_point E;
     current \<leftarrow> evaluate_guard E;
     if sameDecisionInput decision current then do {
       yield_locked E;
       heartbeat_guard E;
       ret (result, nil)
     }
     else do {
       markActiveFallback E activeID;
       w \<leftarrow> fetch;
       (safeResult, safeErr) \<leftarrow> executeFallbackLocked E current
         (withDecisionInputCause (au_session w) causes current)
         ''authority changed after actuator acknowledgement'';
       ret (result\<lparr>ar_FallbackSequence := ar_CommandSequence safeResult,
                   ar_FallbackAcknowledged := acknowledged safeResult\<rparr>, ErrAuthorityRevoked # safeErr)
     }
   }"

text \<open>The outcome of the selected command.\<close>

definition apply_outcome ::
  "env \<Rightarrow> u64 \<Rightarrow> EventID list \<Rightarrow> Decision \<Rightarrow> ApplyResult \<Rightarrow> go_error \<Rightarrow> (ApplyResult \<times> go_error) act" where
  "apply_outcome E activeID causes decision result applyErr =
     (let fallback = (\<not> dec_Permit decision)
      in if applyErr \<noteq> nil then
           (if fallback then do { inhibit E ''engineered safe state failed''; ret (result, applyErr) }
            else apply_failed E activeID causes decision result applyErr)
         else if fallback then do { locked_heartbeat E; ret (result, nil) }
         else apply_confirm E activeID causes decision result)"

definition apply_record ::
  "env \<Rightarrow> ctx \<Rightarrow> ApplyRequest \<Rightarrow> EventID list \<Rightarrow> EncodedCommand \<Rightarrow> Decision \<Rightarrow> PolicyDecision option
     \<Rightarrow> (EvidenceID \<times> go_error) act" where
  "apply_record E opCtx request causes requested decision policyDecision =
     (case policyDecision of
        Some p \<Rightarrow> recordPolicyDecision E opCtx decision causes requested p (rq_Detail request)
      | None \<Rightarrow> recordDecision E opCtx decision causes (rq_Detail request))"

text \<open>Without durable evidence of the decision there is no command, only the safe state.\<close>

definition apply_unrecorded ::
  "env \<Rightarrow> u64 \<Rightarrow> EventID list \<Rightarrow> EncodedCommand \<Rightarrow> Decision \<Rightarrow> PolicyDecision option \<Rightarrow> go_error
     \<Rightarrow> (ApplyResult \<times> go_error) act" where
  "apply_unrecorded E activeID causes requested decision policyDecision decisionErr = do {
     markActiveFallback E activeID;
     inhibit E ''decision evidence unavailable'';
     (fallback, fallbackErr) \<leftarrow> executeFallbackLocked E decision causes ''decision evidence unavailable'';
     ret (fallback\<lparr>ar_Requested := requested, ar_Policy := policyDecision\<rparr>, decisionErr @ fallbackErr)
   }"

text \<open>From the decision on: durable decision, execution of the selected command, outcome.\<close>

definition apply_decided ::
  "env \<Rightarrow> ctx \<Rightarrow> u64 \<Rightarrow> ApplyRequest \<Rightarrow> EventID list \<Rightarrow> EncodedCommand \<Rightarrow> Decision
     \<Rightarrow> PolicyDecision option \<Rightarrow> (ApplyResult \<times> go_error) act" where
  "apply_decided E opCtx activeID request causes requested decision policyDecision = do {
     (decisionID, decisionErr) \<leftarrow> apply_record E opCtx request causes requested decision policyDecision;
     if decisionErr \<noteq> nil
     then apply_unrecorded E activeID causes requested decision policyDecision decisionErr
     else do {
       w \<leftarrow> fetch;
       (result, applyErr) \<leftarrow> executeLocked E opCtx requested
         (if dec_Permit decision then requested else au_safe w) decision decisionID causes
         (\<not> dec_Permit decision)
         (if dec_Permit decision then rq_Detail request else decisionReason decision);
       apply_outcome E activeID causes decision (result\<lparr>ar_Policy := policyDecision\<rparr>) applyErr
     }
   }"

text \<open>A policy that refuses the command: the refusal is evidenced independently of the cancelled
  evaluation, and the safe state is applied whatever the evidence says.\<close>

definition apply_refused ::
  "env \<Rightarrow> u64 \<Rightarrow> EventID list \<Rightarrow> EncodedCommand \<Rightarrow> Decision \<Rightarrow> PolicyDecision \<Rightarrow> go_error
     \<Rightarrow> (ApplyResult \<times> go_error) act" where
  "apply_refused E activeID causes requested decision policy policyErr = do {
     markActiveFallback E activeID;
     inhibit E ''command policy refused intent'';
     evidenceCtx \<leftarrow> safetyContext E;
     (_, evidenceErr) \<leftarrow> recordPolicyDecision E evidenceCtx decision causes requested policy (e_text E policyErr);
     (fallback, fallbackErr) \<leftarrow> executeFallbackLocked E operator_decision causes ''command policy refused intent'';
     ret (fallback\<lparr>ar_Requested := requested, ar_Policy := Some policy\<rparr>,
          ErrCommandPolicy # policyErr @ evidenceErr @ fallbackErr)
   }"

definition apply_active ::
  "env \<Rightarrow> ctx \<Rightarrow> u64 \<Rightarrow> ApplyRequest \<Rightarrow> EncodedCommand \<Rightarrow> Decision \<Rightarrow> (ApplyResult \<times> go_error) act" where
  "apply_active E opCtx activeID request requested decision = do {
     w \<leftarrow> fetch;
     let causes = withDecisionInputCause (au_session w) (rq_Causes request) decision;
     if dec_Permit decision \<and> au_policy w then do {
       (policy, policyErr) \<leftarrow> evaluatePolicy E opCtx requested decision;
       if policyErr \<noteq> nil then apply_refused E activeID causes requested decision policy policyErr
       else apply_decided E (with_deadline opCtx (pd_ExpiresAt policy)) activeID request causes requested
              decision (Some policy)
     }
     else apply_decided E opCtx activeID request causes requested decision None
   }"

definition Apply :: "env \<Rightarrow> ctx option \<Rightarrow> ApplyRequest \<Rightarrow> (ApplyResult \<times> go_error) act" where
  "Apply E ctx0 request = do {
     invalid \<leftarrow> validContext E ctx0;
     case ctx0 of None \<Rightarrow> ret (zero_result, invalid)
     | Some c \<Rightarrow>
        if invalid \<noteq> nil then ret (zero_result, invalid)
        else case encodeCommand (rq_Intent request) of
          Inl err \<Rightarrow> apply_invalid E request err
        | Inr requested \<Rightarrow> do {
            acquireErr \<leftarrow> acquire E c;
            if acquireErr \<noteq> nil then ret (zero_result\<lparr>ar_Requested := requested\<rparr>, acquireErr)
            else do {
              begun \<leftarrow> beginApply E c;
              case begun of
                Inl err \<Rightarrow> ret (zero_result\<lparr>ar_Requested := requested\<rparr>, err)
              | Inr (opCtx, decision, activeID) \<Rightarrow> do {
                  r \<leftarrow> apply_active E opCtx activeID request requested decision;
                  endApply E activeID;
                  ret r
                }
            }
          }
   }"


section \<open>Lifecycle\<close>

definition lifecycle_record :: "EvidenceKind \<Rightarrow> LifecycleAction \<Rightarrow> string \<Rightarrow> bool \<Rightarrow> EvidenceRecord" where
  "lifecycle_record k action detail accepted =
     (record_of k)\<lparr>er_Lifecycle := Some \<lparr>le_Action = action, le_Detail = detail, le_Accepted = accepted\<rparr>\<rparr>"

definition NewAuthorityWithGuard ::
  "AuthorityConfig \<Rightarrow> guard option \<Rightarrow> bool \<Rightarrow> bool \<Rightarrow> go_error + authority" where
  "NewAuthorityWithGuard config g evidence actuator =
     (case g of None \<Rightarrow> Inl [ErrInvalidAuthority]
      | Some g \<Rightarrow>
         if \<not> evidence then Inl [ErrInvalidAuthority]
         else if \<not> actuator then Inl [ErrInvalidAuthority]
         else if ac_CommandTTL config \<le> 0 then Inl [ErrInvalidAuthority]
         else case encodeCommand (ac_EngineeredSafeState config) of
                Inl err \<Rightarrow> Inl (ErrInvalidAuthority # err)
              | Inr safe \<Rightarrow> Inr
                  \<lparr>au_guard = g, au_safe = safe, au_ttl = ac_CommandTTL config,
                   au_requireApplied = ac_RequireAppliedAcknowledgment config,
                   au_policy = ac_Policy config, au_previousApplied = None,
                   au_previouslyAppliedAt = zero_time, au_previousLiveExpiry = zero_time,
                   au_busy = [], au_source = None, au_session = 0, au_bound = False,
                   au_closed = False, au_active = 0, au_activeID = 0, au_activeLive = False,
                   au_activeSending = False, au_activeInput = zero_decision,
                   au_activeCancel = False, au_recordSequence = 0, au_commandSequence = 0,
                   au_safetyEpoch = 0\<rparr>)"

text \<open>The ghost fields of a new authority.\<close>

definition world_of :: "authority \<Rightarrow> world" where
  "world_of a = authority.extend a
     \<lparr>w_tick = 0, w_cancelled = False, w_trace = [], w_issued = 0, w_recorded = 0, w_epochs = 0\<rparr>"

definition bind_guard :: "env \<Rightarrow> source \<Rightarrow> go_error act" where
  "bind_guard E src = guard_call E (\<lambda>g v. guard_Bind g (Some src) v)"

text \<open>Binding ends with an evidenced and acknowledged safe-state transaction.\<close>

definition bind_bootstrap :: "env \<Rightarrow> go_error act" where
  "bind_bootstrap E = do {
     yield_point E;
     decision \<leftarrow> evaluate_guard E;
     (result, fallbackErr) \<leftarrow> executeFallbackLocked E decision [] ''bind bootstrap'';
     (if fallbackErr = nil \<and> acknowledged result then locked_heartbeat E else ret ());
     (if fallbackErr \<noteq> nil then terminateBound E ''bind bootstrap safe state failed'' else ret ());
     ret fallbackErr
   }"

definition clear_session :: "env \<Rightarrow> unit act" where
  "clear_session E = do { yield_point E; modify (\<lambda>w. w\<lparr>au_session := 0\<rparr>) }"

definition bind_serial :: "env \<Rightarrow> ctx \<Rightarrow> source \<Rightarrow> session_id \<Rightarrow> go_error act" where
  "bind_serial E c src session = do {
     yield_point E;
     w \<leftarrow> fetch;
     if au_closed w then ret [ErrAuthorityClosed]
     else if au_bound w then ret [ErrInvalidAuthority]
     else do {
       modify (\<lambda>w. w\<lparr>au_session := session\<rparr>);
       (attempt, attemptErr) \<leftarrow> commit E c
         (lifecycle_record EvidenceLifecycleAttempt LifecycleBind (session_String session) False);
       if attemptErr \<noteq> nil then do { clear_session E; ret attemptErr }
       else do {
         yield_point E;
         bindErr \<leftarrow> bind_guard E src;
         modify (\<lambda>w. if bindErr = nil then w\<lparr>au_source := Some src, au_bound := True\<rparr> else w);
         (_, outcomeErr) \<leftarrow> commit E c
           ((lifecycle_record EvidenceLifecycleOutcome LifecycleBind (session_String session) (bindErr = nil))
              \<lparr>er_ParentID := attempt, er_Error := bindErr\<rparr>);
         if bindErr \<noteq> nil then do { clear_session E; ret (bindErr @ outcomeErr) }
         else if outcomeErr \<noteq> nil then do {
           terminateBound E ''bind outcome evidence unavailable'';
           yield_point E;
           decision \<leftarrow> evaluate_guard E;
           (_, fallbackErr) \<leftarrow> executeFallbackLocked E decision [] ''bind outcome evidence unavailable'';
           ret (outcomeErr @ fallbackErr)
         }
         else bind_bootstrap E
       }
     }
   }"

text \<open>An \<^verbatim>\<open>AuthoritySource\<close> always has a session.\<close>

definition source_session :: "source \<Rightarrow> session_id" where
  "source_session s = (case src_Session s of None \<Rightarrow> 0 | Some i \<Rightarrow> i)"

definition Bind :: "env \<Rightarrow> ctx option \<Rightarrow> source option \<Rightarrow> go_error act" where
  "Bind E ctx0 src = do {
     invalid \<leftarrow> validContext E ctx0;
     case (ctx0, src) of
       (Some c, Some s) \<Rightarrow>
         if invalid \<noteq> nil then ret invalid
         else if source_session s = 0 then ret [ErrAuthorityUnbound]
         else do {
           acquireErr \<leftarrow> acquire E c;
           if acquireErr \<noteq> nil then ret acquireErr else bind_serial E c s (source_session s)
         }
     | _ \<Rightarrow> ret (if invalid \<noteq> nil then invalid else [ErrAuthorityUnbound])
   }"

text \<open>Before arming a guard with a loop watchdog, the whole safe command path is exercised.\<close>

definition arm_readiness :: "env \<Rightarrow> LifecycleAction \<Rightarrow> go_error act" where
  "arm_readiness E action = do {
     w \<leftarrow> fetch;
     if action = LifecycleArm \<and> loopTimeout (g_options (au_guard w)) > 0 then do {
       yield_point E;
       decision \<leftarrow> evaluate_guard E;
       (result, err) \<leftarrow> executeFallbackLocked E decision [] ''arm watchdog readiness preflight'';
       if err \<noteq> nil then ret err
       else if acknowledged result then do { locked_heartbeat E; ret nil }
       else ret [ErrActuatorUncertain]
     }
     else ret nil
   }"

text \<open>The step under \<^verbatim>\<open>stateMu\<close> that grants or refuses: a safety action since the call began
  supersedes it, and a refused Arm revokes what an earlier Arm granted.\<close>

definition permissive_action :: "env \<Rightarrow> LifecycleAction \<Rightarrow> string \<Rightarrow> go_error act" where
  "permissive_action E action detail =
     (if action = LifecycleArm then arm_guard E else do { reset_guard E detail; ret nil })"

definition grant :: "env \<Rightarrow> LifecycleAction \<Rightarrow> string \<Rightarrow> u64 \<Rightarrow> go_error \<Rightarrow> go_error act" where
  "grant E action detail startedSafetyEpoch readinessErr = do {
     yield_point E;
     w \<leftarrow> fetch;
     actionErr \<leftarrow>
       (if readinessErr \<noteq> nil then ret readinessErr
        else if au_safetyEpoch w \<noteq> startedSafetyEpoch then ret [ErrAuthorityRevoked]
        else permissive_action E action detail);
     (if action = LifecycleArm \<and> actionErr \<noteq> nil
      then do { yield_locked E; disarm_guard E ''arm attempt failed'' } else ret ());
     ret actionErr
   }"

definition fallback_now :: "env \<Rightarrow> string \<Rightarrow> go_error act" where
  "fallback_now E reason = do {
     yield_point E;
     decision \<leftarrow> evaluate_guard E;
     (_, fallbackErr) \<leftarrow> executeFallbackLocked E decision [] reason;
     ret fallbackErr
   }"

definition permissive_outcome ::
  "env \<Rightarrow> ctx \<Rightarrow> LifecycleAction \<Rightarrow> string \<Rightarrow> EvidenceID \<Rightarrow> go_error \<Rightarrow> go_error act" where
  "permissive_outcome E c action detail attempt actionErr = do {
     (_, outcomeErr) \<leftarrow> commit E c
       ((lifecycle_record EvidenceLifecycleOutcome action detail (actionErr = nil))
          \<lparr>er_ParentID := attempt, er_Error := actionErr\<rparr>);
     if action = LifecycleArm \<and> actionErr \<noteq> nil then do {
       fallbackErr \<leftarrow> fallback_now E ''arm attempt failed'';
       ret (actionErr @ outcomeErr @ fallbackErr)
     }
     else if outcomeErr \<noteq> nil \<and> actionErr = nil then do {
       yield_point E;
       (if action = LifecycleReset then stop_guard E ''reset outcome evidence unavailable''
        else disarm_guard E ''arm outcome evidence unavailable'');
       fallbackErr \<leftarrow> fallback_now E ''lifecycle outcome evidence unavailable'';
       ret (outcomeErr @ fallbackErr)
     }
     else do {
       (if action = LifecycleArm \<and> actionErr = nil \<and> outcomeErr = nil then locked_heartbeat E else ret ());
       ret (actionErr @ outcomeErr)
     }
   }"

text \<open>\<open>permissive_serial\<close> is \<^verbatim>\<open>permissiveLifecycle\<close> once it holds the serialization token;
  \<open>startedSafetyEpoch\<close> was read before it waited for it.\<close>

definition permissive_serial ::
  "env \<Rightarrow> ctx \<Rightarrow> LifecycleAction \<Rightarrow> string \<Rightarrow> u64 \<Rightarrow> go_error act" where
  "permissive_serial E c action detail startedSafetyEpoch = do {
     readyErr \<leftarrow> requireReady E;
     if readyErr \<noteq> nil then ret readyErr
     else do {
       (attempt, attemptErr) \<leftarrow> commit E c (lifecycle_record EvidenceLifecycleAttempt action detail False);
       if attemptErr \<noteq> nil then do {
         inhibit E ''lifecycle evidence unavailable'';
         fallbackErr \<leftarrow> fallback_now E ''lifecycle evidence unavailable'';
         ret (attemptErr @ fallbackErr)
       }
       else do {
         readinessErr \<leftarrow> arm_readiness E action;
         actionErr \<leftarrow> grant E action detail startedSafetyEpoch readinessErr;
         permissive_outcome E c action detail attempt actionErr
       }
     }
   }"

definition permissiveLifecycle :: "env \<Rightarrow> ctx option \<Rightarrow> LifecycleAction \<Rightarrow> string \<Rightarrow> go_error act" where
  "permissiveLifecycle E ctx0 action detail = do {
     invalid \<leftarrow> validContext E ctx0;
     case ctx0 of None \<Rightarrow> ret invalid
     | Some c \<Rightarrow>
        if invalid \<noteq> nil then ret invalid
        else do {
          yield_point E;
          w \<leftarrow> fetch;
          acquireErr \<leftarrow> acquire E c;
          if acquireErr \<noteq> nil then ret acquireErr
          else permissive_serial E c action detail (au_safetyEpoch w)
        }
   }"

definition authority_Arm :: "env \<Rightarrow> ctx option \<Rightarrow> string \<Rightarrow> go_error act" where
  "authority_Arm E c detail = permissiveLifecycle E c LifecycleArm detail"

definition authority_Reset :: "env \<Rightarrow> ctx option \<Rightarrow> string \<Rightarrow> go_error act" where
  "authority_Reset E c detail = permissiveLifecycle E c LifecycleReset detail"

fun action_string :: "LifecycleAction \<Rightarrow> string" where
  "action_string LifecycleBind = ''bind''"
| "action_string LifecycleArm = ''arm''"
| "action_string LifecycleDisarm = ''disarm''"
| "action_string LifecycleEmergencyStop = ''emergency_stop''"
| "action_string LifecycleReset = ''reset''"
| "action_string LifecycleClose = ''close''"

text \<open>\<open>safe_serial\<close> is \<^verbatim>\<open>safeLifecycle\<close> once it holds the serialization token.\<close>

definition safe_serial ::
  "env \<Rightarrow> LifecycleAction \<Rightarrow> string \<Rightarrow> bool \<Rightarrow> timestamp \<Rightarrow> go_error \<Rightarrow> go_error act" where
  "safe_serial E action detail closeAuthority occurredAt occurredErr = do {
     yield_point E;
     t \<leftarrow> next_tick;
     modify (reassert (e_fire E) action detail closeAuthority (e_view E t));
     safeCtx \<leftarrow> safetyContext E;
     (attempt, attemptErr) \<leftarrow> commit E safeCtx
       ((lifecycle_record EvidenceLifecycleAttempt action detail False)\<lparr>er_RecordedAt := occurredAt\<rparr>);
     (_, outcomeErr) \<leftarrow> commit E safeCtx
       ((lifecycle_record EvidenceLifecycleOutcome action detail True)\<lparr>er_ParentID := attempt\<rparr>);
     yield_point E;
     decision \<leftarrow> evaluate_guard E;
     (_, fallbackErr) \<leftarrow> executeFallbackLocked E decision [] (action_string action);
     ret (occurredErr @ attemptErr @ outcomeErr @ fallbackErr)
   }"

text \<open>A safety action tightens the guard at once, then waits for the token. \<open>safe_request\<close> is what it
  does before it waits, \<open>safe_finish\<close> the rest: operations that take the token in between, a
  Reset or an Arm that began after the tightening among them, stand between the two.\<close>

definition safe_request ::
  "env \<Rightarrow> LifecycleAction \<Rightarrow> string \<Rightarrow> bool \<Rightarrow> (timestamp \<times> go_error) act" where
  "safe_request E action detail closeAuthority = do {
     yield_point E;
     t \<leftarrow> next_tick;
     modify (tighten (e_fire E) action detail closeAuthority (e_view E t));
     clockCtx \<leftarrow> safetyContext E;
     (now, occurredErr) \<leftarrow> currentTime E clockCtx;
     t' \<leftarrow> next_tick;
     ret (if occurredErr \<noteq> nil then e_sys E t' else now, occurredErr)
   }"

definition safe_finish ::
  "env \<Rightarrow> LifecycleAction \<Rightarrow> string \<Rightarrow> bool \<Rightarrow> timestamp \<times> go_error \<Rightarrow> go_error act" where
  "safe_finish E action detail closeAuthority occurred = do {
     acquireErr \<leftarrow> acquireSafety E;
     if acquireErr \<noteq> nil then ret acquireErr
     else safe_serial E action detail closeAuthority (fst occurred) (snd occurred)
   }"

definition safeLifecycle :: "env \<Rightarrow> LifecycleAction \<Rightarrow> string \<Rightarrow> bool \<Rightarrow> go_error act" where
  "safeLifecycle E action detail closeAuthority = do {
     occurred \<leftarrow> safe_request E action detail closeAuthority;
     safe_finish E action detail closeAuthority occurred
   }"

definition authority_Disarm :: "env \<Rightarrow> string \<Rightarrow> go_error act" where
  "authority_Disarm E detail = safeLifecycle E LifecycleDisarm detail False"

definition authority_EmergencyStop :: "env \<Rightarrow> string \<Rightarrow> go_error act" where
  "authority_EmergencyStop E detail = safeLifecycle E LifecycleEmergencyStop detail False"

definition authority_Close :: "env \<Rightarrow> go_error act" where
  "authority_Close E = safeLifecycle E LifecycleClose ''authority shutdown'' True"

end
