(* ===== verification/GuardSafety.thy ===== *)
theory GuardSafety
  imports Guard
begin

text \<open>
  The safety results about the gate of \<^verbatim>\<open>safety/guard.go\<close>: when a decision permits
  output, what an operator command does to the lifecycle, the invariant that links
  the engagement proof to the lifecycle, and what a history of calls can and cannot
  do without an explicit \<^verbatim>\<open>Arm\<close>.
\<close>

subsection \<open>What the machine does with the gate\<close>

text \<open>
  Everything the later proofs need of the external machine: the lifecycle after a
  command, as an executable function of the table.
\<close>

fun after_command :: "lifecycle \<Rightarrow> command \<Rightarrow> lifecycle" where
  "after_command LifecycleStopped CommandStop = LifecycleStopped"
| "after_command _ CommandStop = LifecycleStopped"
| "after_command LifecycleStopped CommandDisarm = LifecycleStopped"
| "after_command _ CommandDisarm = LifecycleIdle"
| "after_command LifecycleArmed CommandTrip = LifecycleIdle"
| "after_command l CommandTrip = l"
| "after_command _ CommandReset = LifecycleIdle"
| "after_command l CommandArm = l"

lemma machine_accepts:
  "machine_ok fire \<Longrightarrow> filter (\<lambda>r. guard_error r c = nil) (candidates rows s e) = r # rs \<Longrightarrow>
     fire rows s e c = Inr (tr_To r)"
  unfolding machine_ok_def by (drule spec [where x = rows], drule spec [where x = s],
    drule spec [where x = e], drule spec [where x = c]) simp

lemma machine_refuses:
  "machine_ok fire \<Longrightarrow> filter (\<lambda>r. guard_error r c = nil) (candidates rows s e) = [] \<Longrightarrow>
     \<exists>err. fire rows s e c = Inl err \<and> (\<forall>r \<in> set (candidates rows s e). set (guard_error r c) \<subseteq> set err)"
  unfolding machine_ok_def by (drule spec [where x = rows], drule spec [where x = s],
    drule spec [where x = e], drule spec [where x = c]) auto

lemmas gate_eval = gate_def row_def candidates_def guard_error_def requireBound_def refuseArmDuringStop_def

lemma gate_accepts:
  assumes "machine_ok fire"
  shows "fire gate l CommandStop g = Inr LifecycleStopped"
    and "fire gate l CommandReset g = Inr LifecycleIdle"
    and "fire gate l CommandDisarm g = Inr (after_command l CommandDisarm)"
    and "fire gate LifecycleArmed CommandTrip g = Inr LifecycleIdle"
    and "l \<noteq> LifecycleStopped \<Longrightarrow> g_source g \<noteq> None \<Longrightarrow> fire gate l CommandArm g = Inr LifecycleArmed"
proof -
  note step = machine_accepts [OF assms, of g gate]
  show "fire gate l CommandStop g = Inr LifecycleStopped"
    using step [of l CommandStop "row l CommandStop LifecycleStopped" "[]"]
    by (cases l) (simp_all add: gate_eval)
  show "fire gate l CommandReset g = Inr LifecycleIdle"
    using step [of l CommandReset "row l CommandReset LifecycleIdle" "[]"]
    by (cases l) (simp_all add: gate_eval)
  show "fire gate l CommandDisarm g = Inr (after_command l CommandDisarm)"
    using step [of l CommandDisarm "row l CommandDisarm (after_command l CommandDisarm)" "[]"]
    by (cases l) (simp_all add: gate_eval)
  show "fire gate LifecycleArmed CommandTrip g = Inr LifecycleIdle"
    using step [of LifecycleArmed CommandTrip "row LifecycleArmed CommandTrip LifecycleIdle" "[]"]
    by (simp add: gate_eval)
  show "fire gate l CommandArm g = Inr LifecycleArmed"
    if "l \<noteq> LifecycleStopped" "g_source g \<noteq> None"
    using that step [of l CommandArm
      "(row l CommandArm LifecycleArmed)\<lparr>tr_Guard := Some requireBound\<rparr>" "[]"]
    by (cases l) (simp_all add: gate_eval)
qed

lemma gate_refuses:
  assumes "machine_ok fire"
  shows "l \<noteq> LifecycleArmed \<Longrightarrow> \<exists>err. fire gate l CommandTrip g = Inl err"
    and "\<exists>err. fire gate LifecycleStopped CommandArm g = Inl err"
proof -
  note step = machine_refuses [OF assms, of g gate]
  show "\<exists>err. fire gate l CommandTrip g = Inl err" if "l \<noteq> LifecycleArmed"
    using that step [of l CommandTrip] by (cases l) (auto simp: gate_eval)
  have "filter (\<lambda>r. guard_error r g = nil) (candidates gate LifecycleStopped CommandArm) = []"
    by (simp add: gate_eval)
  from step [OF this] show "\<exists>err. fire gate LifecycleStopped CommandArm g = Inl err"
    by blast
qed

lemma guard_fire_eq:
  assumes "machine_ok fire" and "c \<noteq> CommandArm"
  shows "guard_fire fire c g =
    (if c = CommandTrip \<and> g_lifecycle g \<noteq> LifecycleArmed then g
     else clearAuthorizationProof (g\<lparr>g_lifecycle := after_command (g_lifecycle g) c\<rparr>))"
proof (cases "c = CommandTrip \<and> g_lifecycle g \<noteq> LifecycleArmed")
  case True
  then obtain err where "fire gate (g_lifecycle g) CommandTrip g = Inl err"
    using gate_refuses(1) [OF assms(1), of "g_lifecycle g" g] by blast
  with True show ?thesis by (simp add: guard_fire_def)
next
  case False
  with assms(2) gate_accepts [OF assms(1)] show ?thesis
    by (cases c; cases "g_lifecycle g") (simp_all add: guard_fire_def Let_def)
qed

subsection \<open>Frames\<close>

lemma clear_frame [simp]:
  "g_options (clearAuthorizationProof g) = g_options g"
  "g_source (clearAuthorizationProof g) = g_source g"
  "g_lifecycle (clearAuthorizationProof g) = g_lifecycle g"
  "g_detail (clearAuthorizationProof g) = g_detail g"
  "g_invalidInput (clearAuthorizationProof g) = g_invalidInput g"
  "g_inputGap (clearAuthorizationProof g) = g_inputGap g"
  "g_sourceError (clearAuthorizationProof g) = g_sourceError g"
  "\<not> g_deadManHeld (clearAuthorizationProof g)"
  "\<not> g_deadManReleased (clearAuthorizationProof g)"
  "\<not> g_heartbeatSeen (clearAuthorizationProof g)"
  "g_armedAt (clearAuthorizationProof g) = 0"
  by (simp_all add: clearAuthorizationProof_def)

text \<open>The guard a sample leaves behind: its proof is gone exactly when the controller has
  terminated, is disconnected, or shows synthesized state.\<close>

lemma sampleLocked_guard:
  "fst (sampleLocked g v) =
     (if vw_Done v \<or> \<not> mt_Connected (vw_Meta v) \<or> mt_Synthetic (vw_Meta v)
      then clearAuthorizationProof g else g)"
  by (simp add: sampleLocked_def Let_def case_prod_unfold clearAuthorizationProof_def)

lemma sampleLocked_fields [simp]:
  "sm_State (snd (sampleLocked g v)) = vw_State v"
  "sm_Meta (snd (sampleLocked g v)) = vw_Meta v"
  "sm_Now (snd (sampleLocked g v)) = vw_Now v"
  by (simp_all add: sampleLocked_def Let_def case_prod_unfold)

subsection \<open>The conditions for output\<close>

text \<open>
  What a permit asserts, written as plain conditions on the guard and one reading of
  the controller, with no reference to the list of reasons.
\<close>

definition input_fresh :: "options \<Rightarrow> StateMeta \<Rightarrow> duration \<Rightarrow> bool" where
  "input_fresh o' m now \<longleftrightarrow> mt_Sequence m \<noteq> 0
     \<and> 0 \<le> mt_ReceivedMonotonic m \<and> mt_ReceivedMonotonic m \<le> now
     \<and> (strict o' \<or> now - mt_ReceivedMonotonic m < commandTimeout o' \<and> \<not> mt_Stale m)"

definition transport_proven :: "options \<Rightarrow> StateMeta \<Rightarrow> duration \<Rightarrow> bool" where
  "transport_proven o' m now \<longleftrightarrow> (strict o' \<longrightarrow>
     mt_TransportSilenceVerifiable m \<and> mt_TransportCheckSequence m \<noteq> 0
     \<and> 0 \<le> mt_LastTransportCheckMonotonic m \<and> mt_LastTransportCheckMonotonic m \<le> now
     \<and> now - mt_LastTransportCheckMonotonic m < transportTimeout o')"

definition loop_alive :: "guard \<Rightarrow> duration \<Rightarrow> bool" where
  "loop_alive g now \<longleftrightarrow> (loopTimeout (g_options g) > 0 \<longrightarrow>
     g_heartbeatSeen g \<and> 0 \<le> g_heartbeat g \<and> g_heartbeat g \<le> now
     \<and> now - g_heartbeat g < loopTimeout (g_options g))"

definition operator_engaged :: "guard \<Rightarrow> State \<Rightarrow> duration \<Rightarrow> bool" where
  "operator_engaged g st now \<longleftrightarrow> (deadMan (g_options g) \<noteq> [] \<longrightarrow>
     Button st (deadMan (g_options g)) \<and> g_deadManReleased g \<and> g_deadManHeld g
     \<and> 0 \<le> g_deadManSince g \<and> g_deadManSince g \<le> now
     \<and> (reactuation (g_options g) > 0 \<longrightarrow> now - g_deadManSince g < reactuation (g_options g)))"

definition authorised :: "guard \<Rightarrow> view \<Rightarrow> bool" where
  "authorised g v \<longleftrightarrow>
     g_source g \<noteq> None \<and> g_lifecycle g = LifecycleArmed
     \<and> \<not> vw_Done v \<and> mt_Connected (vw_Meta v) \<and> \<not> mt_Synthetic (vw_Meta v)
     \<and> \<not> mt_Invalid (vw_Meta v) \<and> \<not> g_invalidInput g \<and> \<not> g_inputGap g \<and> \<not> g_sourceError g
     \<and> input_fresh (g_options g) (vw_Meta v) (vw_Now v)
     \<and> transport_proven (g_options g) (vw_Meta v) (vw_Now v)
     \<and> loop_alive g (vw_Now v) \<and> operator_engaged g (vw_State v) (vw_Now v)"

abbreviation unmet :: "guard \<Rightarrow> view \<Rightarrow> Reason list" where
  "unmet g v \<equiv> unmet_conditions (fst (sampleLocked g v)) (snd (sampleLocked g v))"

abbreviation trips :: "guard \<Rightarrow> view \<Rightarrow> bool" where
  "trips g v \<equiv> latches (fst (sampleLocked g v)) (unmet g v)"

lemma sample_lifecycle [simp]:
  "g_lifecycle (fst (sampleLocked g v)) = g_lifecycle g"
  "g_options (fst (sampleLocked g v)) = g_options g"
  "g_source (fst (sampleLocked g v)) = g_source g"
  "g_detail (fst (sampleLocked g v)) = g_detail g"
  by (simp_all add: sampleLocked_guard)

lemma only_engagement_append_unique [simp]:
  "\<not> onlyDeadManEngagement rs \<Longrightarrow> rs \<noteq> [] \<Longrightarrow> \<not> onlyDeadManEngagement (append_unique rs r)"
  by (auto simp: onlyDeadManEngagement_def append_unique_def)

lemma decide_fields:
  "dec_Permit (decide sm rs) \<longleftrightarrow> rs = []"
  "dec_Reasons (decide sm rs) = rs"
  "dec_Command (decide sm rs) = (if rs = [] then sm_State sm else zero_state)"
  "dec_State (decide sm rs) =
     (if rs = [] then StateLive else if onlyDeadManEngagement rs then StateArmed else StateSafe)"
  "dec_InputSequence (decide sm rs) = mt_Sequence (sm_Meta sm)"
  "dec_EvaluatedAt (decide sm rs) = sm_Now sm"
  "dec_InputAge (decide sm rs) = sm_Age sm"
  by (simp_all add: decide_def Let_def zero_decision_def)

abbreviation final_reasons :: "guard \<Rightarrow> view \<Rightarrow> Reason list" where
  "final_reasons g v \<equiv> (if trips g v then append_unique (unmet g v) ReasonNotArmed else unmet g v)"

lemma evaluate_decision:
  "g_source g \<noteq> None \<Longrightarrow>
     snd (evaluateLocked fire g v) = decide (snd (sampleLocked g v)) (final_reasons g v)"
  by (cases "g_source g") (simp_all add: evaluateLocked_def Let_def case_prod_unfold)

lemma final_reasons_empty: "final_reasons g v = [] \<longleftrightarrow> unmet g v = []"
  by (simp add: latches_def)

lemma evaluate_guard:
  assumes "g_source g \<noteq> None" and "machine_ok fire"
  shows "fst (evaluateLocked fire g v) =
    (if trips g v
     then clearAuthorizationProof ((fst (sampleLocked g v))\<lparr>g_lifecycle := LifecycleIdle\<rparr>)
     else fst (sampleLocked g v))
    \<lparr>g_state := dec_State (snd (evaluateLocked fire g v)), g_reasons := final_reasons g v\<rparr>"
proof (cases "trips g v")
  case True
  then have "g_lifecycle g = LifecycleArmed" by (simp add: latches_def)
  with True assms show ?thesis
    by (cases "g_source g")
      (simp_all add: evaluateLocked_def Let_def case_prod_unfold guard_fire_eq)
next
  case False
  with assms(1) show ?thesis
    by (cases "g_source g") (simp_all add: evaluateLocked_def Let_def case_prod_unfold)
qed

lemma evaluate_unbound:
  "g_source g = None \<Longrightarrow> evaluateLocked fire g v =
     (g\<lparr>g_state := StateSafe, g_reasons := [ReasonUnbound]\<rparr>,
      zero_decision\<lparr>dec_State := StateSafe, dec_Reasons := [ReasonUnbound]\<rparr>)"
  by (simp add: evaluateLocked_def)

lemma freshness_ok:
  "fst (freshness o' m now rs) = [] \<longleftrightarrow> rs = [] \<and> mt_Sequence m \<noteq> 0
     \<and> 0 \<le> mt_ReceivedMonotonic m \<and> mt_ReceivedMonotonic m \<le> now
     \<and> (strict o' \<or> now - mt_ReceivedMonotonic m < commandTimeout o')"
  by (auto simp: freshness_def Let_def)

lemma sample_reasons_empty:
  "sm_Reasons (snd (sampleLocked g v)) = [] \<longleftrightarrow>
     \<not> vw_Done v \<and> mt_Connected (vw_Meta v) \<and> \<not> mt_Synthetic (vw_Meta v)
     \<and> \<not> mt_Invalid (vw_Meta v) \<and> \<not> g_invalidInput g \<and> \<not> g_inputGap g \<and> \<not> g_sourceError g
     \<and> input_fresh (g_options g) (vw_Meta v) (vw_Now v)
     \<and> transport_proven (g_options g) (vw_Meta v) (vw_Now v) \<and> loop_alive g (vw_Now v)"
  by (auto simp: sampleLocked_def Let_def case_prod_unfold freshness_ok input_fresh_def
      transport_reasons_def transport_proven_def loop_reasons_def loop_alive_def
      split: if_splits)

lemma dead_man_reasons_empty:
  "g_lifecycle g = LifecycleArmed \<Longrightarrow>
     dead_man_reasons g st now = [] \<longleftrightarrow> operator_engaged g st now"
  by (auto simp: dead_man_reasons_def operator_engaged_def Let_def)

lemma unmet_empty: "g_source g \<noteq> None \<Longrightarrow> unmet g v = [] \<longleftrightarrow> authorised g v"
  by (auto simp: unmet_conditions_def authorised_def sample_reasons_empty dead_man_reasons_empty
      sampleLocked_guard)

lemma evaluate_permit: "dec_Permit (snd (evaluateLocked fire g v)) \<longleftrightarrow> authorised g v"
  by (cases "g_source g")
    (simp_all add: evaluate_unbound evaluate_decision decide_fields final_reasons_empty unmet_empty
      zero_decision_def authorised_def)

subsection \<open>Histories of calls\<close>

text \<open>
  One completed call of an exported method, with what it read from the controller.
  The guard's mutex makes the calls atomic, so every concurrent use of a guard is a
  sequence of these steps.
\<close>

datatype guard_op =
    OpBind "source option" view
  | OpArm view view
  | OpDisarm string view
  | OpEmergencyStop string view
  | OpReset string view
  | OpHeartbeat duration
  | OpEvaluate view
  | OpProcess duration Event
  | OpProcessContext "EventID list \<Rightarrow> Header" duration Event view
  | OpAdvanceContext "EventID list \<Rightarrow> Header" view

fun guard_step :: "gate_fire \<Rightarrow> guard \<Rightarrow> guard_op \<Rightarrow> guard" where
  "guard_step fire g (OpBind src v) = fst (guard_Bind g src v)"
| "guard_step fire g (OpArm v v') = fst (guard_Arm fire g v v')"
| "guard_step fire g (OpDisarm d v) = guard_Disarm fire d g v"
| "guard_step fire g (OpEmergencyStop d v) = guard_EmergencyStop fire d g v"
| "guard_step fire g (OpReset d v) = guard_Reset fire d g v"
| "guard_step fire g (OpHeartbeat now) = guard_Heartbeat g now"
| "guard_step fire g (OpEvaluate v) = fst (guard_Evaluate fire g v)"
| "guard_step fire g (OpProcess now e) = guard_Process g now e"
| "guard_step fire g (OpProcessContext nh now e v) = fst (guard_ProcessContext fire nh g now e v)"
| "guard_step fire g (OpAdvanceContext nh v) = fst (guard_AdvanceContext fire nh g v)"

definition guard_run :: "gate_fire \<Rightarrow> guard \<Rightarrow> guard_op list \<Rightarrow> guard" where
  "guard_run fire g ops = foldl (guard_step fire) g ops"

lemma guard_run_simps [simp]:
  "guard_run fire g [] = g"
  "guard_run fire g (op # ops) = guard_run fire (guard_step fire g op) ops"
  by (simp_all add: guard_run_def)

lemma guard_run_preserves:
  assumes "P g" and "\<And>g op. P g \<Longrightarrow> op \<in> set ops \<Longrightarrow> P (guard_step fire g op)"
  shows "P (guard_run fire g ops)"
  using assms by (induction ops arbitrary: g) simp_all

subsection \<open>Lifecycle effects\<close>

named_theorems guard_effects "what each guard operation does to one field"

lemma evaluate_lifecycle [guard_effects]:
  assumes "machine_ok fire"
  shows "g_lifecycle (fst (evaluateLocked fire g v)) =
    (if g_source g \<noteq> None \<and> trips g v then LifecycleIdle else g_lifecycle g)"
    and "g_source (fst (evaluateLocked fire g v)) = g_source g"
    and "g_options (fst (evaluateLocked fire g v)) = g_options g"
    and "g_deadManHeld (fst (evaluateLocked fire g v)) \<Longrightarrow> g_deadManHeld g"
  using assms
  by (cases "g_source g"; simp add: evaluate_unbound evaluate_guard sampleLocked_guard split: if_splits)+

lemma trips_armed: "trips g v \<Longrightarrow> g_lifecycle g = LifecycleArmed"
  by (simp add: latches_def)

lemma transition_frame [simp]:
  "g_lifecycle (fst (transitionLocked nh g d c)) = g_lifecycle g"
  "g_source (fst (transitionLocked nh g d c)) = g_source g"
  "g_options (fst (transitionLocked nh g d c)) = g_options g"
  "g_deadManHeld (fst (transitionLocked nh g d c)) = g_deadManHeld g"
  "g_deadManReleased (fst (transitionLocked nh g d c)) = g_deadManReleased g"
  "g_deadManSince (fst (transitionLocked nh g d c)) = g_deadManSince g"
  "g_armedAt (fst (transitionLocked nh g d c)) = g_armedAt g"
  "g_state (fst (transitionLocked nh g d c)) = g_state g"
  by (simp_all add: transitionLocked_def)

lemma observeObservation_frame [simp]:
  "g_lifecycle (observeObservation g h st) = g_lifecycle g"
  "g_source (observeObservation g h st) = g_source g"
  "g_options (observeObservation g h st) = g_options g"
  "g_state (observeObservation g h st) = g_state g"
  by (simp_all add: observeObservation_def Let_def clearAuthorizationProof_def)

lemma observeError_frame [simp]:
  "g_lifecycle (observeError g e) = g_lifecycle g"
  "g_source (observeError g e) = g_source g"
  "g_options (observeError g e) = g_options g"
  "g_state (observeError g e) = g_state g"
  "g_deadManHeld (observeError g e) = g_deadManHeld g"
  "g_deadManReleased (observeError g e) = g_deadManReleased g"
  "g_deadManSince (observeError g e) = g_deadManSince g"
  "g_armedAt (observeError g e) = g_armedAt g"
  by (simp_all add: observeError_def)

lemma clear_state [simp]: "g_state (clearAuthorizationProof g) = g_state g"
  by (simp add: clearAuthorizationProof_def)

lemma observe_frame [simp]:
  "g_lifecycle (observeLocked g now e) = g_lifecycle g"
  "g_source (observeLocked g now e) = g_source g"
  "g_options (observeLocked g now e) = g_options g"
  "g_state (observeLocked g now e) = g_state g"
  by (cases e; simp add: observeLocked_def Let_def)+

text \<open>Only \<^verbatim>\<open>Arm\<close> moves a guard into the armed lifecycle.\<close>

lemma only_arm_arms:
  assumes "machine_ok fire" and "g_lifecycle g \<noteq> LifecycleArmed" and "\<not> (\<exists>v v'. op = OpArm v v')"
  shows "g_lifecycle (guard_step fire g op) \<noteq> LifecycleArmed"
  using assms
  by (cases op; cases "g_lifecycle g")
    (auto simp: guard_Bind_def guard_Disarm_def guard_EmergencyStop_def guard_Reset_def
      guard_Heartbeat_def guard_Evaluate_def guard_Process_def guard_ProcessContext_def
      guard_AdvanceContext_def guard_fire_eq evaluate_lifecycle Let_def case_prod_unfold
      split: option.splits)

text \<open>Only \<^verbatim>\<open>Reset\<close> leaves the stopped lifecycle.\<close>

lemma stop_latches:
  assumes "machine_ok fire" and "g_lifecycle g = LifecycleStopped" and "\<not> (\<exists>d v. op = OpReset d v)"
  shows "g_lifecycle (guard_step fire g op) = LifecycleStopped"
  using assms trips_armed
  by (cases op)
    (auto simp: guard_Bind_def guard_Disarm_def guard_EmergencyStop_def guard_Arm_def
      guard_Heartbeat_def guard_Evaluate_def guard_Process_def guard_ProcessContext_def
      guard_AdvanceContext_def guard_fire_eq evaluate_lifecycle Let_def case_prod_unfold latches_def
      split: option.splits)

subsection \<open>The engagement invariant\<close>

text \<open>
  A recorded dead-man hold is always backed by an armed, bound guard that has seen a
  release, and it began no earlier than the arming it follows. The published state is
  never ahead of the lifecycle.
\<close>

definition guard_inv :: "guard \<Rightarrow> bool" where
  "guard_inv g \<longleftrightarrow>
     (g_deadManHeld g \<longrightarrow> g_lifecycle g = LifecycleArmed \<and> g_deadManReleased g
        \<and> deadMan (g_options g) \<noteq> [] \<and> g_armedAt g \<le> g_deadManSince g)
     \<and> (g_source g = None \<longrightarrow> g_lifecycle g \<noteq> LifecycleArmed)
     \<and> (g_state g \<noteq> StateSafe \<longrightarrow> g_lifecycle g = LifecycleArmed)"

lemma guard_inv_new: "guard_inv (newGuard o')"
  by (simp add: guard_inv_def newGuard_def)

lemma guard_inv_clear: "guard_inv g \<Longrightarrow> guard_inv (clearAuthorizationProof g)"
  by (simp add: guard_inv_def)

lemma unmet_not_armed:
  "g_lifecycle g \<noteq> LifecycleArmed \<Longrightarrow> unmet g v \<noteq> [] \<and> \<not> onlyDeadManEngagement (unmet g v)"
  by (auto simp: unmet_conditions_def onlyDeadManEngagement_def)

lemma final_not_safe:
  "final_reasons g v = [] \<or> onlyDeadManEngagement (final_reasons g v) \<Longrightarrow>
     g_lifecycle g = LifecycleArmed \<and> \<not> trips g v"
  using unmet_not_armed [of g v] by (auto simp: latches_def split: if_splits)

lemma guard_inv_sample: "guard_inv g \<Longrightarrow> guard_inv (fst (sampleLocked g v))"
  by (simp add: sampleLocked_guard guard_inv_clear)

text \<open>\<open>evaluateLocked\<close> re-derives the published state, so only the other clauses are needed
  of the guard it is given.\<close>

lemma guard_inv_evaluate:
  assumes "machine_ok fire" and "guard_inv (g\<lparr>g_state := StateSafe\<rparr>)"
  shows "guard_inv (fst (evaluateLocked fire g v))"
proof (cases "g_source g")
  case None
  with assms(2) show ?thesis by (simp add: evaluate_unbound guard_inv_def)
next
  case (Some src)
  then have src: "g_source g \<noteq> None" by simp
  show ?thesis
    using assms(2) final_not_safe [of g v]
    by (auto simp: evaluate_guard [OF src assms(1)] evaluate_decision [OF src] decide_fields
        guard_inv_def sampleLocked_guard)
qed

lemma guard_inv_fire:
  "machine_ok fire \<Longrightarrow> guard_inv g \<Longrightarrow> c \<noteq> CommandArm \<Longrightarrow>
     guard_inv ((guard_fire fire c g)\<lparr>g_detail := d, g_state := StateSafe\<rparr>)"
  by (cases c; cases "g_lifecycle g") (auto simp: guard_fire_eq guard_inv_def)

lemma guard_inv_command:
  assumes "machine_ok fire" and "guard_inv g" and "c \<noteq> CommandArm"
  shows "guard_inv (fst (evaluateLocked fire ((guard_fire fire c g)\<lparr>g_detail := d\<rparr>) v))"
  using guard_inv_fire [OF assms, of d] by (intro guard_inv_evaluate [OF assms(1)]) simp

lemma guard_inv_observe: "guard_inv g \<Longrightarrow> guard_inv (observeLocked g now e)"
proof -
  assume inv: "guard_inv g"
  have obs: "guard_inv (observeObservation g h st)" for h st
    using inv by (auto simp: observeObservation_def Let_def guard_inv_def)
  have err: "guard_inv (observeError g x)" for x
    using inv by (simp add: guard_inv_def)
  show ?thesis
    using inv obs err
    by (cases e) (auto simp: observeLocked_def Let_def guard_inv_def pressFollowsArm_def)
qed

lemma guard_inv_transition: "guard_inv g \<Longrightarrow> guard_inv (fst (transitionLocked nh g d c))"
  by (simp add: guard_inv_def)

lemma guard_inv_safe: "guard_inv g \<Longrightarrow> guard_inv (g\<lparr>g_state := StateSafe\<rparr>)"
  by (simp add: guard_inv_def)

lemma arm_cases:
  assumes "machine_ok fire"
  shows "guard_Arm fire g v v' =
    (let g1 = fst (sampleLocked g v); sm = snd (sampleLocked g v); dm = deadMan (g_options g);
         g2 = (if releasedPhysicalBaseline (vw_State v) (vw_Meta v) dm
               then g1\<lparr>g_deadManReleased := True\<rparr> else g1);
         rs1 = (if \<not> neutralForArm (vw_State v) (armStickTolerance (g_options g)) (armTriggerTolerance (g_options g))
                then append_unique (sm_Reasons sm) ReasonControlsNotNeutral else sm_Reasons sm);
         rs2 = (if dm \<noteq> [] \<and> (Button (vw_State v) dm \<or> \<not> g_deadManReleased g2)
                then append_unique rs1 ReasonDeadManReleaseRequired else rs1);
         g3 = g2\<lparr>g_lifecycle := LifecycleArmed, g_deadManHeld := False, g_deadManSince := 0,
                  g_armedAt := vw_Now v, g_armedInputSequence := mt_Sequence (vw_Meta v), g_detail := []\<rparr>
     in if g_source g = None then (g, Some ArmUnbound)
        else if g_lifecycle g = LifecycleStopped then (g, Some ArmDuringStop)
        else if rs2 \<noteq> [] then (g2, Some (ArmUnsafe rs2))
        else (fst (evaluateLocked fire g3 v'), None))"
  using gate_accepts(5) [OF assms]
  by (cases "g_source g") (simp_all add: guard_Arm_def Let_def case_prod_unfold)

lemma guard_inv_arm:
  assumes "machine_ok fire" and "guard_inv g"
  shows "guard_inv (fst (guard_Arm fire g v v'))"
proof -
  have "guard_inv (fst (sampleLocked g v))" using assms(2) by (rule guard_inv_sample)
  then show ?thesis
    using assms(2)
    by (auto simp: arm_cases [OF assms(1)] Let_def intro!: guard_inv_evaluate [OF assms(1)])
      (auto simp: guard_inv_def)
qed

lemma guard_inv_step:
  assumes "machine_ok fire" and "guard_inv g"
  shows "guard_inv (guard_step fire g op)"
proof (cases op)
  case (OpBind src v)
  with assms(2) show ?thesis
    by (auto simp: guard_Bind_def Let_def guard_inv_def split: option.splits)
next
  case (OpArm v v')
  with assms show ?thesis by (simp add: guard_inv_arm)
next
  case (OpHeartbeat now)
  with assms(2) show ?thesis by (simp add: guard_Heartbeat_def guard_inv_def)
qed (use assms in \<open>auto simp: guard_Disarm_def guard_EmergencyStop_def guard_Reset_def guard_Evaluate_def
      guard_Process_def guard_ProcessContext_def guard_AdvanceContext_def Let_def case_prod_unfold
      intro: guard_inv_evaluate guard_inv_transition guard_inv_observe guard_inv_safe
      guard_inv_command\<close>)

lemma guard_inv_run: "machine_ok fire \<Longrightarrow> guard_inv g \<Longrightarrow> guard_inv (guard_run fire g ops)"
  by (rule guard_run_preserves) (auto intro: guard_inv_step)

subsection \<open>A fresh press is required\<close>

text \<open>The events that can establish a hold: a press report of the dead-man control.\<close>

definition dead_man_press :: "control_id \<Rightarrow> guard_op \<Rightarrow> bool" where
  "dead_man_press dm op \<longleftrightarrow> (\<exists>h ph now nh v.
     op = OpProcess now (ButtonEvent h dm ph True) \<or> op = OpProcessContext nh now (ButtonEvent h dm ph True) v)"

lemma observe_held:
  assumes "\<not> g_deadManHeld g" and "\<And>h ph. e \<noteq> ButtonEvent h (deadMan (g_options g)) ph True"
  shows "\<not> g_deadManHeld (observeLocked g now e)"
proof (cases e)
  case (ButtonEvent h b ph p)
  with assms show ?thesis
    by (cases p) (auto simp: observeLocked_def Let_def clearAuthorizationProof_def)
qed (use assms in \<open>auto simp: observeLocked_def observeObservation_def Let_def\<close>)

lemma evaluate_not_held:
  "machine_ok fire \<Longrightarrow> \<not> g_deadManHeld g \<Longrightarrow> \<not> g_deadManHeld (fst (evaluateLocked fire g v))"
  by (blast dest: evaluate_lifecycle(4))

lemma step_options [simp]: "machine_ok fire \<Longrightarrow> g_options (guard_step fire g op) = g_options g"
  by (cases op)
    (auto simp: guard_Bind_def guard_Arm_def guard_Disarm_def guard_EmergencyStop_def guard_Reset_def
      guard_Heartbeat_def guard_Evaluate_def guard_Process_def guard_ProcessContext_def
      guard_AdvanceContext_def guard_fire_eq evaluate_lifecycle Let_def case_prod_unfold
      split: option.splits sum.splits)

lemma step_not_held:
  assumes "machine_ok fire" and "\<not> g_deadManHeld g" and "\<not> dead_man_press (deadMan (g_options g)) op"
  shows "\<not> g_deadManHeld (guard_step fire g op)"
proof (cases op)
  case (OpArm v v')
  show ?thesis
    using assms(2)
    by (auto simp: OpArm arm_cases [OF assms(1)] Let_def sampleLocked_guard
        dest: evaluate_lifecycle(4) [OF assms(1)])
next
  case (OpProcess now e)
  with assms(2,3) show ?thesis
    using observe_held [of g e now] by (auto simp: guard_Process_def dead_man_press_def)
next
  case (OpProcessContext nh now e v)
  with assms(2,3) have "\<not> g_deadManHeld (observeLocked g now e)"
    by (intro observe_held) (auto simp: dead_man_press_def)
  then show ?thesis
    by (auto simp: OpProcessContext guard_ProcessContext_def case_prod_unfold Let_def
        dest: evaluate_lifecycle(4) [OF assms(1)])
qed (use assms in \<open>auto simp: guard_Bind_def guard_Disarm_def guard_EmergencyStop_def guard_Reset_def
      guard_Heartbeat_def guard_Evaluate_def guard_AdvanceContext_def guard_fire_eq Let_def
      case_prod_unfold dest!: evaluate_lifecycle(4) split: option.splits\<close>)

subsection \<open>Properties\<close>

text \<open>
  C35. \<^verbatim>\<open>Evaluate\<close> permits output exactly when every condition is affirmatively
  established: the guard is bound and armed, the controller pipeline is alive,
  connected, and showing observed, valid and fresh input, the transport and the
  application loop are proven live where the profile demands it, and the dead-man
  control is held by a confirmed press younger than the re-actuation deadline. The
  permitted command is the sampled state; an inhibited one is the neutral state.
\<close>

theorem permit_iff_authorised:
  "let d = snd (guard_Evaluate fire g v)
   in dec_Permit d = authorised g v
      \<and> (dec_Permit d \<longleftrightarrow> dec_State d = StateLive) \<and> (dec_Permit d \<longleftrightarrow> dec_Reasons d = [])
      \<and> dec_Command d = (if authorised g v then vw_State v else zero_state)"
proof (cases "g_source g")
  case None
  then show ?thesis
    by (simp add: guard_Evaluate_def evaluate_unbound zero_decision_def authorised_def Let_def)
next
  case (Some src)
  then have src: "g_source g \<noteq> None" by simp
  show ?thesis
    unfolding guard_Evaluate_def evaluate_decision [OF src] Let_def
    using final_reasons_empty [of g v] unmet_empty [OF src, of v]
    by (auto simp: decide_fields split: if_splits)
qed

text \<open>
  C38. After any history of calls on a new guard, a recorded hold is backed by an armed
  guard that saw a release first and began no earlier than that arming, an unbound
  guard is never armed, and the published state is never ahead of the lifecycle.
\<close>

theorem guard_reachable_inv:
  "machine_ok fire \<Longrightarrow> guard_inv (guard_run fire (newGuard o') ops)"
  by (simp add: guard_inv_run guard_inv_new)


text \<open>
  C37. An emergency stop latches: after \<^verbatim>\<open>EmergencyStop\<close>, whatever calls follow, \<^verbatim>\<open>Arm\<close>
  included, the guard stays stopped and inhibits output until a \<^verbatim>\<open>Reset\<close>.
\<close>

theorem emergency_stop_latches:
  assumes "machine_ok fire" and "\<forall>op \<in> set ops. \<not> (\<exists>d v. op = OpReset d v)"
  shows "let g' = guard_run fire (guard_EmergencyStop fire detail g v0) ops
         in g_lifecycle g' = LifecycleStopped \<and> \<not> dec_Permit (snd (guard_Evaluate fire g' v))"
proof -
  let ?s = "guard_EmergencyStop fire detail g v0"
  have "g_lifecycle ?s = LifecycleStopped"
    using trips_armed [of "(guard_fire fire CommandStop g)\<lparr>g_detail := detail\<rparr>" v0] assms(1)
    by (cases "g_lifecycle g") (auto simp: guard_EmergencyStop_def evaluate_lifecycle guard_fire_eq)
  then have st: "g_lifecycle (guard_run fire ?s ops) = LifecycleStopped"
    using assms by (intro guard_run_preserves [where P = "\<lambda>g. g_lifecycle g = LifecycleStopped"])
      (auto intro: stop_latches)
  then have "\<not> authorised (guard_run fire ?s ops) v" by (simp add: authorised_def)
  with st show ?thesis by (simp add: guard_Evaluate_def evaluate_permit)
qed

text \<open>
  C37. With a dead-man control configured, arming alone never yields output: after a
  successful \<^verbatim>\<open>Arm\<close>, no history without a press report of that control leads to a
  permitting decision, however the control is held in the snapshots.
\<close>

theorem arm_requires_fresh_press:
  assumes "machine_ok fire" and "deadMan (g_options g) \<noteq> []"
    and "snd (guard_Arm fire g v v') = None"
    and "\<forall>op \<in> set ops. \<not> dead_man_press (deadMan (g_options g)) op"
  shows "\<not> dec_Permit (snd (guard_Evaluate fire (guard_run fire (fst (guard_Arm fire g v v')) ops) w))"
proof -
  let ?a = "fst (guard_Arm fire g v v')"
  let ?P = "\<lambda>g'. \<not> g_deadManHeld g' \<and> g_options g' = g_options g"
  have "?P ?a"
    using assms(3) step_options [OF assms(1), of g "OpArm v v'"]
    by (auto simp: arm_cases [OF assms(1)] Let_def dest: evaluate_lifecycle(4) [OF assms(1)]
        split: if_splits)
  then have "?P (guard_run fire ?a ops)"
    by (rule guard_run_preserves [where P = ?P])
      (use assms(1,4) step_not_held step_options in metis)
  then have "\<not> authorised (guard_run fire ?a ops) w"
    using assms(2) by (auto simp: authorised_def operator_engaged_def)
  then show ?thesis by (simp add: guard_Evaluate_def evaluate_permit)
qed

text \<open>
  C37. A fault trips a latching guard, and so does an integrity fault any guard: when a
  decision of an armed guard is \<open>StateSafe\<close> the guard is left idle with every
  authorization proof erased, unless the guard is configured not to latch and no
  integrity fault is among the reasons.
\<close>

theorem fault_trips:
  assumes "machine_ok fire" and "g_lifecycle g = LifecycleArmed"
    and "dec_State (snd (guard_Evaluate fire g v)) = StateSafe"
    and "g_source g \<noteq> None"
    and "latching (g_options g) \<or> containsIntegrityFault (dec_Reasons (snd (guard_Evaluate fire g v)))"
  shows "let g' = fst (guard_Evaluate fire g v)
         in g_lifecycle g' = LifecycleIdle \<and> \<not> g_deadManHeld g' \<and> \<not> g_deadManReleased g'
            \<and> \<not> g_heartbeatSeen g'
            \<and> ReasonNotArmed \<in> set (dec_Reasons (snd (guard_Evaluate fire g v)))"
proof -
  have d: "snd (guard_Evaluate fire g v) = decide (snd (sampleLocked g v)) (final_reasons g v)"
    by (simp only: guard_Evaluate_def evaluate_decision [OF assms(4)])
  have "trips g v"
    using assms(2,3,5) unfolding d
    by (auto simp: decide_fields latches_def split: if_splits)
  with d show ?thesis
    by (simp add: guard_Evaluate_def evaluate_guard [OF assms(4,1)] decide_fields Let_def)
qed

text \<open>
  C37. \<^verbatim>\<open>NewStrict\<close> accepts a configuration exactly when every interlock it demands is
  present (positive deadlines, a dead-man control, finite tolerances in \<open>[0,1)\<close>), and
  the guard it returns is strict, latching, idle and unbound with exactly these
  settings; otherwise it reports \<open>ErrInvalidConfiguration\<close>.
\<close>

theorem NewStrict_validates:
  "case NewStrict c of
     Inl err \<Rightarrow> errors_Is err ErrInvalidConfiguration
       \<and> \<not> (0 < cfg_CommandTimeout c \<and> 0 < cfg_TransportTimeout c \<and> cfg_DeadMan c \<noteq> []
          \<and> 0 < cfg_DeadManReactuation c \<and> 0 < cfg_LoopWatchdog c
          \<and> validNeutralTolerance (cfg_ArmStickTolerance c)
          \<and> validNeutralTolerance (cfg_ArmTriggerTolerance c))
   | Inr g \<Rightarrow> 0 < cfg_CommandTimeout c \<and> 0 < cfg_TransportTimeout c \<and> cfg_DeadMan c \<noteq> []
       \<and> 0 < cfg_DeadManReactuation c \<and> 0 < cfg_LoopWatchdog c
       \<and> validNeutralTolerance (cfg_ArmStickTolerance c)
       \<and> validNeutralTolerance (cfg_ArmTriggerTolerance c)
       \<and> strict (g_options g) \<and> latching (g_options g)
       \<and> deadMan (g_options g) = cfg_DeadMan c \<and> loopTimeout (g_options g) = cfg_LoopWatchdog c
       \<and> reactuation (g_options g) = cfg_DeadManReactuation c
       \<and> transportTimeout (g_options g) = cfg_TransportTimeout c
       \<and> g_lifecycle g = LifecycleIdle \<and> g_source g = None"
  by (auto simp: NewStrict_def Let_def newGuard_def)

text \<open>
  C34. \<^verbatim>\<open>Arm\<close> succeeds exactly on a bound guard that is not stopped, when the sampled
  input raises no fault, every control is neutral, and the dead-man control is
  released with a released baseline observed. A refusal never leaves the guard more
  armed than it was.
\<close>

theorem arm_succeeds_iff:
  assumes "machine_ok fire"
  shows "let (g', err) = guard_Arm fire g v v'; dm = deadMan (g_options g)
         in (err = None \<longleftrightarrow>
              g_source g \<noteq> None \<and> g_lifecycle g \<noteq> LifecycleStopped
              \<and> sm_Reasons (snd (sampleLocked g v)) = []
              \<and> neutralForArm (vw_State v) (armStickTolerance (g_options g)) (armTriggerTolerance (g_options g))
              \<and> (dm \<noteq> [] \<longrightarrow> \<not> Button (vw_State v) dm
                   \<and> (g_deadManReleased g \<or> releasedPhysicalBaseline (vw_State v) (vw_Meta v) dm)))
            \<and> (err \<noteq> None \<longrightarrow> g_lifecycle g' = g_lifecycle g)"
  by (auto simp: arm_cases [OF assms] Let_def sample_reasons_empty sampleLocked_guard
      split: if_splits)

text \<open>
  C38. \<^verbatim>\<open>ProcessContext\<close> and \<^verbatim>\<open>AdvanceContext\<close> publish a decision exactly when it is the
  first one or differs from the last published one in state, permission or reasons,
  and what they publish is that decision; a steady state publishes nothing.
\<close>

theorem publishes_changes:
  "let (g', d) = evaluateLocked fire g v; (g'', evs) = guard_AdvanceContext fire nh g v
   in (evs = [] \<longleftrightarrow> g_published g' \<and> \<not> changedLocked g' d)
      \<and> (evs \<noteq> [] \<longrightarrow> (\<exists>e. evs = [e] \<and> ev_State e = dec_State d \<and> ev_Permit e = dec_Permit d
                         \<and> ev_Reasons e = dec_Reasons d))
      \<and> g_published g'' \<and> \<not> changedLocked g'' d"
  by (auto simp: guard_AdvanceContext_def transitionLocked_def changedLocked_def Let_def
      case_prod_unfold)

subsection \<open>Witnesses\<close>

definition demo_meta :: StateMeta where
  "demo_meta = \<lparr>mt_ObservedAt = 1, mt_ReceivedAt = 1, mt_PublishedAt = 1, mt_ReceivedMonotonic = 10,
     mt_Sequence = 1, mt_Connected = True, mt_Stale = False, mt_Synthetic = False, mt_Invalid = False,
     mt_LastStateChangeMonotonic = 10, mt_LastTransportCheckMonotonic = 10,
     mt_TransportCheckSequence = 1, mt_TransportSilenceVerifiable = True\<rparr>"

definition demo_view :: view where
  "demo_view = \<lparr>vw_State = zero_state, vw_Meta = demo_meta, vw_Now = 20, vw_Done = False\<rparr>"

definition demo_source :: source where
  "demo_source = \<lparr>src_Capabilities = None, src_Session = Some 7\<rparr>"

definition demo_options :: options where
  "demo_options = default_options\<lparr>deadMan := ButtonBumperLeft, armStickTolerance := Fin 0,
     armTriggerTolerance := Fin 0\<rparr>"

definition demo_guard :: guard where
  "demo_guard = (newGuard demo_options)\<lparr>g_source := Some demo_source, g_deadManReleased := True\<rparr>"

lemmas demo_defs = demo_meta_def demo_view_def demo_source_def demo_options_def demo_guard_def
  newGuard_def default_options_def

theorem guard_reachable_inv_witness:
  "machine_ok (table_fire :: gate_fire)
   \<and> guard_inv (guard_run table_fire (newGuard demo_options)
       [OpBind (Some demo_source) demo_view, OpArm demo_view demo_view, OpEmergencyStop ''stop'' demo_view])"
  using machine_ok_table_fire guard_reachable_inv [OF machine_ok_table_fire] by blast


theorem emergency_stop_latches_witness:
  "let g' = guard_run table_fire (guard_EmergencyStop table_fire ''stop'' demo_guard demo_view)
              [OpArm demo_view demo_view, OpDisarm ''d'' demo_view]
   in g_lifecycle g' = LifecycleStopped \<and> \<not> dec_Permit (snd (guard_Evaluate table_fire g' demo_view))"
  by (rule emergency_stop_latches [OF machine_ok_table_fire]) simp

lemma demo_arms: "snd (guard_Arm table_fire demo_guard demo_view demo_view) = None"
  by code_simp

theorem arm_requires_fresh_press_witness:
  "\<not> dec_Permit (snd (guard_Evaluate table_fire
      (guard_run table_fire (fst (guard_Arm table_fire demo_guard demo_view demo_view))
        [OpEvaluate demo_view, OpHeartbeat 15])
      (demo_view\<lparr>vw_State := SetButton zero_state ButtonBumperLeft True\<rparr>)))"
  by (rule arm_requires_fresh_press [OF machine_ok_table_fire _ demo_arms])
    (simp_all add: demo_defs ButtonBumperLeft_def dead_man_press_def)

theorem fault_trips_witness:
  "let g = demo_guard\<lparr>g_lifecycle := LifecycleArmed\<rparr>;
       v = demo_view\<lparr>vw_Meta := demo_meta\<lparr>mt_Connected := False\<rparr>\<rparr>;
       g' = fst (guard_Evaluate table_fire g v)
   in g_lifecycle g' = LifecycleIdle \<and> \<not> g_deadManHeld g' \<and> \<not> g_deadManReleased g'
      \<and> \<not> g_heartbeatSeen g' \<and> ReasonNotArmed \<in> set (dec_Reasons (snd (guard_Evaluate table_fire g v)))"
proof -
  let ?g = "demo_guard\<lparr>g_lifecycle := LifecycleArmed\<rparr>"
  let ?v = "demo_view\<lparr>vw_Meta := demo_meta\<lparr>mt_Connected := False\<rparr>\<rparr>"
  have "dec_State (snd (guard_Evaluate table_fire ?g ?v)) = StateSafe" by code_simp
  from fault_trips [OF machine_ok_table_fire _ this] show ?thesis
    by (simp add: demo_guard_def newGuard_def demo_options_def default_options_def Let_def)
qed

theorem arm_succeeds_iff_witness:
  "snd (guard_Arm table_fire demo_guard demo_view demo_view) = None
   \<and> neutralForArm zero_state (Fin 0) (Fin 0)"
  using arm_succeeds_iff [OF machine_ok_table_fire, of demo_guard demo_view demo_view] demo_arms
  by (auto simp: Let_def demo_defs case_prod_unfold)

theorem publishes_changes_witness:
  "\<exists>e. snd (guard_AdvanceContext table_fire (\<lambda>_. zero_header) demo_guard demo_view) = [e]
     \<and> ev_State e = dec_State (snd (evaluateLocked table_fire demo_guard demo_view))"
proof -
  have "\<not> g_published (fst (evaluateLocked table_fire demo_guard demo_view))" by code_simp
  then show ?thesis
    using publishes_changes [of table_fire demo_guard demo_view "\<lambda>_. zero_header"]
    by (auto simp: Let_def case_prod_unfold)
qed

end
