(* ===== verification/AuthorityProtocol.thy ===== *)
theory AuthorityProtocol
  imports Authority GuardSafety
begin

text \<open>
  The abstract protocol of the authority: the atomic changes of its state, each with the
  condition under which the protocol allows it, as a step relation. The operations of
  \<^verbatim>\<open>authority.go\<close> refine it: whatever the environment answers, the run of an operation is
  a sequence of protocol steps. Safety properties are then invariants of the relation,
  proved once by cases on the step.
\<close>

section \<open>Steps\<close>

text \<open>What is not the grant of authority or a binding may happen to the guard at any time.\<close>

fun tame :: "guard_op \<Rightarrow> bool" where
  "tame (OpBind _ _) = False"
| "tame (OpArm _ _) = False"
| "tame (OpReset _ _) = False"
| "tame _ = True"

text \<open>Idle steps: the passage of time, other goroutines, evaluation and tightening of the guard,
  callback gates. They touch neither the trace nor what the serialization token protects.\<close>

inductive idle :: "gate_fire \<Rightarrow> world \<Rightarrow> world \<Rightarrow> bool" for fire where
  tick: "idle fire w (w\<lparr>w_tick := n\<rparr>)"
| guard: "tame op \<Longrightarrow> idle fire w (w\<lparr>au_guard := guard_step fire (au_guard w) op\<rparr>)"
| cancel: "idle fire w (cancelLiveApplyIfDecisionChanged fire v w)"
| tighten: "idle fire w (tighten fire a d cl v w)"
| gates: "idle fire w (w\<lparr>au_busy := b\<rparr>)"
| mark: "idle fire w (w\<lparr>au_activeLive := False, au_activeInput := zero_decision\<rparr>)"

text \<open>Quiet steps: also evidence. A record carries the session and the next record number.\<close>

inductive quiet :: "gate_fire \<Rightarrow> world \<Rightarrow> world \<Rightarrow> bool" for fire where
  idle: "idle fire w w' \<Longrightarrow> quiet fire w w'"
| count: "quiet fire w (w\<lparr>au_recordSequence := au_recordSequence w + 1, w_recorded := Suc (w_recorded w)\<rparr>)"
| commit: "er_RecordSequence r = au_recordSequence w \<Longrightarrow> er_ControllerSession r = au_session w \<Longrightarrow> i \<noteq> [] \<Longrightarrow>
     quiet fire w (w\<lparr>w_trace := TCommitted r i # w_trace w\<rparr>)"

text \<open>The newest transmission, and the acknowledgements received since.\<close>

fun is_send :: "trace_event \<Rightarrow> bool" where
  "is_send (TSend _ _) = True"
| "is_send _ = False"

fun last_send :: "trace_event list \<Rightarrow> ActuatorCommand option" where
  "last_send [] = None"
| "last_send (TSend _ e # _) = Some e"
| "last_send (_ # tr) = last_send tr"

definition acked :: "trace_event list \<Rightarrow> ActuatorCommand \<Rightarrow> ActuatorAcknowledgment \<Rightarrow> bool" where
  "acked tr e a \<longleftrightarrow> last_send tr = Some e \<and> TAcknowledged e a \<in> set (takeWhile (\<lambda>x. \<not> is_send x) tr)"

text \<open>The evidence a live command rests on: a committed decision, with the permission of the
  policy where one is configured, and a committed intent for exactly these bytes.\<close>

definition policy_backs :: "EvidenceRecord \<Rightarrow> EncodedCommand \<Rightarrow> timestamp \<Rightarrow> bool" where
  "policy_backs r c expires \<longleftrightarrow> (\<exists>p. er_Policy r = Some p \<and> er_Requested r = Some c \<and> pd_Permit p
     \<and> pd_PolicyID p \<noteq> [] \<and> pd_Subject p \<noteq> [] \<and> pd_Authorization p \<noteq> [] \<and> expires \<le> pd_ExpiresAt p)"

definition decision_evidenced ::
  "bool \<Rightarrow> EncodedCommand \<Rightarrow> timestamp \<Rightarrow> EvidenceID \<Rightarrow> Decision \<Rightarrow> trace_event list \<Rightarrow> bool" where
  "decision_evidenced pol c expires i d tr \<longleftrightarrow>
     (\<exists>r. TCommitted r i \<in> set tr \<and> er_Kind r = EvidenceDecision \<and> er_Decision r = Some d
        \<and> (pol \<longrightarrow> policy_backs r c expires))"

definition intent_evidenced ::
  "EncodedCommand \<Rightarrow> u64 \<Rightarrow> EvidenceID \<Rightarrow> EvidenceID \<Rightarrow> trace_event list \<Rightarrow> bool" where
  "intent_evidenced c n decision i tr \<longleftrightarrow>
     (\<exists>r. TCommitted r i \<in> set tr \<and> er_Kind r = EvidenceIntent \<and> er_CommandSequence r = n
        \<and> er_DecisionID r = decision \<and> er_Requested r = Some c \<and> er_Applied r = Some c)"

definition live_justified :: "bool \<Rightarrow> trace_event list \<Rightarrow> ActuatorCommand \<Rightarrow> bool" where
  "live_justified pol tr e \<longleftrightarrow>
     (\<exists>d current rest. tr = TPreflight d current # rest \<and> sameDecisionInput d current
        \<and> decision_evidenced pol (ac_Command e) (ac_ExpiresAt e) (ac_DecisionID e) d rest
        \<and> intent_evidenced (ac_Command e) (ac_Sequence e) (ac_DecisionID e) (ac_IntentID e) rest)"

definition lease_ok :: "world \<Rightarrow> ActuatorCommand \<Rightarrow> bool" where
  "lease_ok w e \<longleftrightarrow> 0 < ac_TTL e \<and> ac_TTL e \<le> au_ttl w \<and> ac_ExpiresAt e = ac_IssuedAt e + ac_TTL e
     \<and> ac_ControllerSession e = au_session w \<and> ac_Sequence e = of_nat (w_issued w)"

text \<open>A command may be sent once its number is new and the acknowledged baseline is dropped.\<close>

definition may_send :: "world \<Rightarrow> ActuatorCommand \<Rightarrow> bool" where
  "may_send w e \<longleftrightarrow> lease_ok w e \<and> au_previousApplied w = None
     \<and> (\<forall>n e'. TSend n e' \<in> set (w_trace w) \<longrightarrow> n < w_issued w)
     \<and> (if ac_Fallback e then ac_Command e = au_safe w
        else au_activeSending w \<and> live_justified (au_policy w) (w_trace w) e)"

text \<open>The steps of the execution of one command. Only a live command passes a preflight.\<close>

inductive xstep :: "gate_fire \<Rightarrow> bool \<Rightarrow> world \<Rightarrow> world \<Rightarrow> bool" for fire live where
  quiet: "quiet fire w w' \<Longrightarrow> xstep fire live w w'"
| issue: "xstep fire live w (w\<lparr>au_commandSequence := au_commandSequence w + 1, w_issued := Suc (w_issued w)\<rparr>)"
| preflight: "live \<Longrightarrow> guard_Evaluate fire g v = (au_guard w, current) \<Longrightarrow> sameDecisionInput d current \<Longrightarrow>
     xstep fire live w (w\<lparr>au_activeSending := True, w_trace := TPreflight d current # w_trace w\<rparr>)"
| clear: "xstep fire live w (w\<lparr>au_previousApplied := None, au_previouslyAppliedAt := p, au_previousLiveExpiry := x\<rparr>)"
| send: "may_send w e \<Longrightarrow> xstep fire live w (w\<lparr>w_trace := TSend (w_issued w) e # w_trace w\<rparr>)"
| ack: "last_send (w_trace w) = Some e \<Longrightarrow> validateAcknowledgment e a now (au_requireApplied w) = nil \<Longrightarrow>
     xstep fire live w (w\<lparr>w_trace := TAcknowledged e a # w_trace w\<rparr>)"
| baseline: "acked (w_trace w) e a \<Longrightarrow> ack_Accepted a \<Longrightarrow> ack_AppliedAt a \<noteq> zero_time \<Longrightarrow>
     xstep fire live w (w\<lparr>au_previousApplied := Some (ac_Command e), au_previouslyAppliedAt := ack_AppliedAt a,
                     au_previousLiveExpiry := x\<rparr>)"

text \<open>All steps: also the beginning and the end of an Apply, the grants, the binding, and the
  tightening repeated under the serialization token.\<close>

inductive astep :: "gate_fire \<Rightarrow> world \<Rightarrow> world \<Rightarrow> bool" for fire where
  exec: "xstep fire live w w' \<Longrightarrow> astep fire w w'"
| begin_apply: "\<not> au_closed w \<Longrightarrow> au_bound w \<Longrightarrow>
     astep fire w (w\<lparr>au_activeID := au_activeID w + 1, au_active := au_activeID w + 1, au_activeLive := l,
       au_activeSending := False, au_activeInput := d, au_activeCancel := True, w_cancelled := False\<rparr>)"
| end_apply: "astep fire w (w\<lparr>au_active := 0, au_activeLive := False, au_activeSending := False,
     au_activeInput := zero_decision, au_activeCancel := False\<rparr>)"
| arm: "(w_epochs w < 2 ^ 64 \<longrightarrow> \<not> au_closed w) \<Longrightarrow>
     astep fire w (w\<lparr>au_guard := guard_step fire (au_guard w) (OpArm v v')\<rparr>)"
| reset: "(w_epochs w < 2 ^ 64 \<longrightarrow> \<not> au_closed w) \<Longrightarrow>
     astep fire w (w\<lparr>au_guard := guard_step fire (au_guard w) (OpReset detail v)\<rparr>)"
| session: "\<not> au_bound w \<Longrightarrow> astep fire w (w\<lparr>au_session := s\<rparr>)"
| bind_guard: "astep fire w (w\<lparr>au_guard := guard_step fire (au_guard w) (OpBind src v)\<rparr>)"
| bound: "astep fire w (w\<lparr>au_source := Some src, au_bound := True\<rparr>)"
| reassert: "astep fire w (reassert fire a d cl v w)"

inductive_cases idleE: "idle fire w w'"
inductive_cases quietE: "quiet fire w w'"
inductive_cases xstepE: "xstep fire live w w'"
inductive_cases astepE: "astep fire w w'"


section \<open>Frames\<close>

lemma idle_frame:
  assumes "idle fire w w'"
  shows "w_trace w' = w_trace w" "au_commandSequence w' = au_commandSequence w" "w_issued w' = w_issued w"
    "au_recordSequence w' = au_recordSequence w" "w_recorded w' = w_recorded w"
    "au_session w' = au_session w" "au_safe w' = au_safe w" "au_ttl w' = au_ttl w" "au_policy w' = au_policy w"
    "au_requireApplied w' = au_requireApplied w" "au_previousApplied w' = au_previousApplied w"
    "au_bound w' = au_bound w" "au_source w' = au_source w" "au_active w' = au_active w"
    "au_activeID w' = au_activeID w" "au_activeSending w' = au_activeSending w"
  using assms
  by (cases; simp add: cancelLiveApplyIfDecisionChanged_def tighten_def reassert_def Let_def case_prod_unfold)+

lemma quiet_frame:
  assumes "quiet fire w w'"
  shows "au_commandSequence w' = au_commandSequence w" "w_issued w' = w_issued w"
    "au_session w' = au_session w" "au_safe w' = au_safe w" "au_ttl w' = au_ttl w" "au_policy w' = au_policy w"
    "au_requireApplied w' = au_requireApplied w" "au_previousApplied w' = au_previousApplied w"
    "au_bound w' = au_bound w" "au_source w' = au_source w" "au_active w' = au_active w"
    "au_activeID w' = au_activeID w" "au_activeSending w' = au_activeSending w"
    "last_send (w_trace w') = last_send (w_trace w)"
    "\<And>n e. TSend n e \<in> set (w_trace w') \<longleftrightarrow> TSend n e \<in> set (w_trace w)"
    "\<And>e a. acked (w_trace w) e a \<Longrightarrow> acked (w_trace w') e a"
  using assms by (cases; auto simp: idle_frame acked_def)+

lemma trace_grows:
  assumes "xstep fire live w w'"
  shows "set (w_trace w) \<subseteq> set (w_trace w')"
  using assms by (cases; auto elim!: quietE simp: idle_frame)

section \<open>Programs as sequences of steps\<close>

definition steps ::
  "(world \<Rightarrow> world \<Rightarrow> bool) \<Rightarrow> (world \<Rightarrow> bool) \<Rightarrow> 'a act \<Rightarrow> ('a \<Rightarrow> world \<Rightarrow> bool) \<Rightarrow> bool" where
  "steps rel P m Q \<longleftrightarrow> (\<forall>w. P w \<longrightarrow> rel\<^sup>*\<^sup>* w (snd (run_state m w))
     \<and> Q (fst (run_state m w)) (snd (run_state m w)))"

definition stable_under :: "(world \<Rightarrow> world \<Rightarrow> bool) \<Rightarrow> (world \<Rightarrow> bool) \<Rightarrow> bool" where
  "stable_under rel P \<longleftrightarrow> (\<forall>w w'. rel w w' \<longrightarrow> P w \<longrightarrow> P w')"

abbreviation anyhow :: "'a \<Rightarrow> world \<Rightarrow> bool" where "anyhow \<equiv> (\<lambda>_ _. True)"

abbreviation always :: "world \<Rightarrow> bool" where "always \<equiv> (\<lambda>_. True)"

lemma stepsD: "steps rel P m Q \<Longrightarrow> P w \<Longrightarrow> rel\<^sup>*\<^sup>* w (snd (run_state m w))"
  and steps_post: "steps rel P m Q \<Longrightarrow> P w \<Longrightarrow> Q (fst (run_state m w)) (snd (run_state m w))"
  by (simp_all add: steps_def)

lemma stable_run:
  assumes "stable_under rel P" and "rel\<^sup>*\<^sup>* w w'" and "P w"
  shows "P w'"
  using assms(2,1,3) by (induction rule: rtranclp_induct) (auto simp: stable_under_def)

lemma stable_mono: "stable_under rel P \<Longrightarrow> (\<And>w w'. rel' w w' \<Longrightarrow> rel w w') \<Longrightarrow> stable_under rel' P"
  by (auto simp: stable_under_def)

lemma stable_conj: "stable_under rel P \<Longrightarrow> stable_under rel Q \<Longrightarrow> stable_under rel (\<lambda>w. P w \<and> Q w)"
  by (auto simp: stable_under_def)

lemma steps_bind:
  assumes "steps rel P m R" and "\<And>r. steps rel (R r) (f r) Q"
  shows "steps rel P (State_Monad.bind m f) Q"
  using assms unfolding steps_def by (auto simp: case_prod_unfold intro: rtranclp_trans)

lemma steps_ret: "steps rel (Q r) (State_Monad.return r) Q"
  by (simp add: steps_def)

lemma steps_fetch: "steps rel P State_Monad.get (\<lambda>r w. P w \<and> r = w)"
  by (simp add: steps_def)

lemma steps_modify:
  assumes "\<And>w. P w \<Longrightarrow> rel w (f w)" and "\<And>w. P w \<Longrightarrow> Q () (f w)"
  shows "steps rel P (modify f) Q"
  using assms by (auto simp: steps_def modify_def)

lemma steps_conseq:
  assumes "steps rel P m Q" and "\<And>w. P' w \<Longrightarrow> P w" and "\<And>r w. Q r w \<Longrightarrow> Q' r w"
  shows "steps rel P' m Q'"
  using assms by (auto simp: steps_def)

lemma steps_pre: "steps rel P m Q \<Longrightarrow> (\<And>w. P' w \<Longrightarrow> P w) \<Longrightarrow> steps rel P' m Q"
  by (rule steps_conseq)

lemma steps_weaken: "steps rel P m Q \<Longrightarrow> steps rel P m anyhow"
  by (auto simp: steps_def)

lemma steps_mono:
  assumes "steps rel P m Q" and "\<And>w w'. rel w w' \<Longrightarrow> rel' w w'"
  shows "steps rel' P m Q"
  using assms mono_rtranclp [of rel rel'] by (auto simp: steps_def)

lemma steps_frame:
  assumes "steps rel P m Q" and "stable_under rel R"
  shows "steps rel (\<lambda>w. P w \<and> R w) m (\<lambda>r w. Q r w \<and> R w)"
  using assms by (auto simp: steps_def intro: stable_run)

lemma steps_if:
  assumes "b \<Longrightarrow> steps rel P m Q" and "\<not> b \<Longrightarrow> steps rel P m' Q"
  shows "steps rel P (if b then m else m') Q"
  using assms by simp

lemma steps_exists:
  assumes "\<And>k. steps rel (P k) m Q"
  shows "steps rel (\<lambda>w. \<exists>k. P k w) m Q"
  using assms by (auto simp: steps_def)

text \<open>Programs whose every run is a sequence of idle, of quiet, of protocol steps.\<close>

abbreviation idles :: "env \<Rightarrow> 'a act \<Rightarrow> bool" where
  "idles E m \<equiv> steps (idle (e_fire E)) always m anyhow"

abbreviation quiets :: "env \<Rightarrow> 'a act \<Rightarrow> bool" where
  "quiets E m \<equiv> steps (quiet (e_fire E)) always m anyhow"

lemma idles_quiets: "idles E m \<Longrightarrow> quiets E m"
  by (erule steps_mono) (rule quiet.idle)

named_theorems step_rules "rules that decompose a program whose steps need no precondition"

lemma any_bind [step_rules]:
  "steps rel always m anyhow \<Longrightarrow> (\<And>r. steps rel always (f r) anyhow) \<Longrightarrow>
     steps rel always (State_Monad.bind m f) anyhow"
  by (rule steps_bind)

lemma any_ret [step_rules]: "steps rel always (State_Monad.return r) anyhow"
  by (simp add: steps_def)

lemma any_fetch [step_rules]: "steps rel always State_Monad.get anyhow"
  by (simp add: steps_def)

lemma any_if [step_rules]:
  "(b \<Longrightarrow> steps rel P m Q) \<Longrightarrow> (\<not> b \<Longrightarrow> steps rel P m' Q) \<Longrightarrow> steps rel P (if b then m else m') Q"
  by simp

lemma any_prod [step_rules]:
  "(\<And>a b. steps rel P (f a b) Q) \<Longrightarrow> steps rel P (case p of (a, b) \<Rightarrow> f a b) Q"
  by (cases p) simp

lemma any_option [step_rules]:
  "steps rel P m Q \<Longrightarrow> (\<And>a. steps rel P (f a) Q) \<Longrightarrow> steps rel P (case x of None \<Rightarrow> m | Some a \<Rightarrow> f a) Q"
  by (cases x) simp_all

lemma any_sum [step_rules]:
  "(\<And>a. steps rel P (f a) Q) \<Longrightarrow> (\<And>b. steps rel P (g b) Q) \<Longrightarrow>
     steps rel P (case x of Inl a \<Rightarrow> f a | Inr b \<Rightarrow> g b) Q"
  by (cases x) simp_all

lemma any_list [step_rules]:
  "steps rel P m Q \<Longrightarrow> (\<And>a b. steps rel P (f a b) Q) \<Longrightarrow> steps rel P (case x of [] \<Rightarrow> m | a # b \<Rightarrow> f a b) Q"
  by (cases x) simp_all

lemma any_callback [step_rules]:
  "(\<And>a. steps rel P (f a) Q) \<Longrightarrow> steps rel P m Q \<Longrightarrow> (\<And>b. steps rel P (g b) Q) \<Longrightarrow>
     steps rel P (case x of Finished a \<Rightarrow> f a | CallbackPanic \<Rightarrow> m | Abandoned b \<Rightarrow> g b) Q"
  by (cases x) simp_all

lemma any_Let [step_rules]: "(\<And>x. steps rel P (f x) Q) \<Longrightarrow> steps rel P (Let a f) Q"
  by (simp add: Let_def)


section \<open>Idle programs\<close>

lemma idle_refl: "idle fire w w"
  using idle.tick [of fire w "w_tick w"] by simp

lemma interfere_idle: "(idle fire)\<^sup>*\<^sup>* w (interfere fire i w)"
proof (cases i)
  case (IProcess now e)
  with idle.guard [of "OpProcess now e" fire w] show ?thesis by simp
next
  case (IProcessContext nh now e v)
  with idle.guard [of "OpProcessContext nh now e v" fire w] show ?thesis by simp
next
  case (IAdvanceContext nh v)
  with idle.guard [of "OpAdvanceContext nh v" fire w] show ?thesis by simp
qed (auto intro: idle.intros)

lemma fold_interfere_idle: "(idle fire)\<^sup>*\<^sup>* w (fold (interfere fire) is w)"
  by (induction "is" arbitrary: w) (auto intro: rtranclp_trans interfere_idle)

lemma next_tick_idle [step_rules]: "steps (idle fire) always next_tick anyhow"
  by (auto simp: steps_def next_tick_def intro: idle.tick)

lemma fold_idle [step_rules]: "steps (idle fire) always (modify (fold (interfere fire) is)) anyhow"
  by (simp add: steps_def modify_def fold_interfere_idle)

lemma yield_point_idle [step_rules]: "idles E (yield_point E)"
  unfolding yield_point_def by (intro step_rules)

lemma yield_locked_idle [step_rules]: "idles E (yield_locked E)"
  unfolding yield_locked_def by (intro step_rules)

text \<open>A call of the guard is one guard step.\<close>

lemma guard_call_steps:
  assumes "\<And>w v. P w \<Longrightarrow> rel w (w\<lparr>au_guard := fst (f (au_guard w) v)\<rparr>)"
    and "\<And>w n. P w \<Longrightarrow> rel w (w\<lparr>w_tick := n\<rparr>) \<and> P (w\<lparr>w_tick := n\<rparr>)"
  shows "steps rel P (guard_call E f) anyhow"
proof -
  have "rel\<^sup>*\<^sup>* w (w\<lparr>w_tick := n, au_guard := fst (f (au_guard w) v)\<rparr>)" if "P w" for w n v
    using assms(1) [of "w\<lparr>w_tick := n\<rparr>" v] assms(2) [OF that, of n]
    by (auto intro: converse_rtranclp_into_rtranclp)
  then show ?thesis
    by (auto simp: steps_def guard_call_def next_tick_def modify_def case_prod_unfold Let_def)
qed

lemma guard_call_idle:
  assumes "\<And>g v. \<exists>op. tame op \<and> fst (f g v) = guard_step (e_fire E) g op"
  shows "idles E (guard_call E f)"
proof (rule guard_call_steps)
  fix w :: world and v
  from assms obtain op where "tame op" "fst (f (au_guard w) v) = guard_step (e_fire E) (au_guard w) op"
    by blast
  then show "idle (e_fire E) w (w\<lparr>au_guard := fst (f (au_guard w) v)\<rparr>)"
    using idle.guard [of op "e_fire E" w] by simp
qed (auto intro: idle.tick)

lemma evaluate_idle [step_rules]: "idles E (evaluate_guard E)"
  unfolding evaluate_guard_def by (rule guard_call_idle) (metis guard_step.simps(7) tame.simps(7))

lemma disarm_idle [step_rules]: "idles E (disarm_guard E d)"
  unfolding disarm_guard_def by (rule guard_call_idle) (metis fst_conv guard_step.simps(3) tame.simps(4))

lemma stop_idle [step_rules]: "idles E (stop_guard E d)"
  unfolding stop_guard_def by (rule guard_call_idle) (metis fst_conv guard_step.simps(4) tame.simps(5))

lemma heartbeat_idle [step_rules]: "idles E (heartbeat_guard E)"
  unfolding heartbeat_guard_def by (rule guard_call_idle) (metis fst_conv guard_step.simps(6) tame.simps(6))

lemma inhibit_idle [step_rules]: "idles E (inhibit E d)"
  unfolding inhibit_def by (intro step_rules)

lemma locked_heartbeat_idle [step_rules]: "idles E (locked_heartbeat E)"
  unfolding locked_heartbeat_def by (intro step_rules)

lemma requireReady_idle [step_rules]: "idles E (requireReady E)"
  unfolding requireReady_def by (intro step_rules)

lemma ctx_err_idle [step_rules]: "idles E (ctx_err E c)"
  unfolding ctx_err_def by (intro step_rules)

lemma with_timeout_idle [step_rules]: "idles E (with_timeout E c)"
  unfolding with_timeout_def by (intro step_rules)

lemma safetyContext_idle [step_rules]: "idles E (safetyContext E)"
  unfolding safetyContext_def by (intro step_rules)

lemma fallback_ctx_idle [step_rules]: "idles E (fallback_ctx E c b)"
  unfolding fallback_ctx_def by (intro step_rules)

lemma commandContext_idle [step_rules]: "idles E (commandContext E c)"
  unfolding commandContext_def by (intro step_rules)

lemma validContext_idle [step_rules]: "idles E (validContext E c)"
  unfolding validContext_def by (intro step_rules)

lemma acquire_idle [step_rules]: "idles E (acquire E c)"
  unfolding acquire_def by (intro step_rules)

lemma acquireSafety_idle [step_rules]: "idles E (acquireSafety E)"
  unfolding acquireSafety_def by (intro step_rules)

lemma hold_gate_idle [step_rules]: "steps (idle fire) always (hold_gate gt) anyhow"
  by (auto simp: steps_def hold_gate_def modify_def intro: idle.gates)

lemma gate_busy_idle [step_rules]: "steps (idle fire) always (gate_busy gt) anyhow"
  unfolding gate_busy_def by (intro step_rules)

lemma run_callback_idle [step_rules]: "idles E (run_callback E gt f)"
  unfolding run_callback_def by (intro step_rules)

lemma gate_context_idle [step_rules]: "idles E (acquireCallbackGateContext E c gt)"
  unfolding acquireCallbackGateContext_def by (intro step_rules)

lemma currentTime_idle [step_rules]: "idles E (currentTime E c)"
  unfolding currentTime_def by (intro step_rules)

lemma callEvidenceCommit_idle [step_rules]: "idles E (callEvidenceCommit E c r)"
  unfolding callEvidenceCommit_def by (intro step_rules)

lemma callActuatorAwait_idle [step_rules]: "idles E (callActuatorAwait E gt c r)"
  unfolding callActuatorAwait_def by (intro step_rules)

lemma callCommandPolicy_idle [step_rules]: "idles E (callCommandPolicy E c r)"
  unfolding callCommandPolicy_def by (intro step_rules)

lemma classify_idle [step_rules]: "idles E (classifyActuatorError E c err)"
  unfolding classifyActuatorError_def by (intro step_rules)

lemma mark_idle [step_rules]: "idles E (markActiveFallback E i)"
  unfolding markActiveFallback_def
  by (intro step_rules) (auto simp: steps_def modify_def intro: idle.mark)


section \<open>Evidence\<close>

lemma idle_xstep: "idle fire w w' \<Longrightarrow> xstep fire live w w'"
  by (intro xstep.quiet quiet.idle)

lemma quiets_steps: "quiets E m \<Longrightarrow> steps (xstep (e_fire E) live) always m anyhow"
  by (erule steps_mono) (rule xstep.quiet)

lemma idles_steps: "idles E m \<Longrightarrow> steps (xstep (e_fire E) live) always m anyhow"
  by (erule steps_mono) (rule idle_xstep)

text \<open>An assertion that the steps of the first program cannot invalidate is still there for the
  rest.\<close>

lemma bind_over:
  assumes "steps rel' always m anyhow" and "stable_under rel' P" and "\<And>w w'. rel' w w' \<Longrightarrow> rel w w'"
    and "\<And>r. steps rel P (f r) Q"
  shows "steps rel P (State_Monad.bind m f) Q"
proof (rule steps_bind)
  show "steps rel P m (\<lambda>_. P)"
    using steps_frame [OF assms(1,2)] assms(3) by (auto intro: steps_mono [of rel'])
qed (rule assms(4))

lemmas idle_quiet_bind = bind_over [OF _ _ quiet.idle]
lemmas idle_bind = bind_over [OF _ _ idle_xstep]
lemmas quiet_bind = bind_over [OF _ _ xstep.quiet]

lemma stable_idle:
  "stable_under (idle fire) (\<lambda>w. F (w_trace w) (au_commandSequence w) (w_issued w) (au_recordSequence w)
     (w_recorded w) (au_session w) (au_safe w) (au_ttl w) (au_policy w) (au_requireApplied w)
     (au_previousApplied w) (au_active w) (au_activeSending w))"
  by (simp add: stable_under_def idle_frame)

text \<open>What a committed record keeps of the record it was made from.\<close>

definition stamped :: "EvidenceRecord \<Rightarrow> EvidenceID \<Rightarrow> trace_event list \<Rightarrow> bool" where
  "stamped r i tr \<longleftrightarrow> i \<noteq> [] \<and> (\<exists>n s t. TCommitted
     (r\<lparr>er_RecordSequence := n, er_ControllerSession := s, er_RecordedAt := t\<rparr>) i \<in> set tr)"

definition evidence_error :: "go_error \<Rightarrow> bool" where
  "evidence_error err \<longleftrightarrow> errors_Is err ErrEvidence \<or> errors_Is err ErrEvidenceIdentity"

abbreviation commit_post :: "EvidenceRecord \<Rightarrow> EvidenceID \<times> go_error \<Rightarrow> world \<Rightarrow> bool" where
  "commit_post r \<equiv> (\<lambda>(i, err) w. if err = nil then stamped r i (w_trace w) else i = [] \<and> evidence_error err)"

lemma emit_committed:
  assumes "i \<noteq> []"
  shows "steps (quiet fire) (\<lambda>w. er_RecordSequence r = au_recordSequence w \<and> er_ControllerSession r = au_session w)
    (emit (TCommitted r i)) (\<lambda>_ w. stamped r i (w_trace w))"
proof -
  have "r = r\<lparr>er_RecordSequence := er_RecordSequence r, er_ControllerSession := er_ControllerSession r,
     er_RecordedAt := er_RecordedAt r\<rparr>" by simp
  then have "stamped r i (TCommitted r i # tr)" for tr
    using assms unfolding stamped_def by (metis list.set_intros(1))
  then show ?thesis
    unfolding emit_def by (intro steps_modify) (auto intro!: quiet.commit assms)
qed

lemma commit_stamped_quiet:
  "steps (quiet (e_fire E)) (\<lambda>w. er_RecordSequence r = au_recordSequence w \<and> er_ControllerSession r = au_session w)
     (commit_stamped E c r) (commit_post r)"
  unfolding commit_stamped_def
proof (rule idle_quiet_bind [OF callEvidenceCommit_idle stable_idle])
  fix x :: "EvidenceID \<times> go_error"
  show "steps (quiet (e_fire E))
    (\<lambda>w. er_RecordSequence r = au_recordSequence w \<and> er_ControllerSession r = au_session w)
    (case x of (i, err) \<Rightarrow>
        if err \<noteq> nil then State_Monad.return ([], ErrEvidence # err)
        else if i = [] then State_Monad.return ([], [ErrEvidenceIdentity])
        else State_Monad.bind (emit (TCommitted r i)) (\<lambda>_. State_Monad.return (i, nil)))
    (commit_post r)"
  proof (cases x)
    case (Pair i err)
    have "steps (quiet (e_fire E))
      (\<lambda>w. er_RecordSequence r = au_recordSequence w \<and> er_ControllerSession r = au_session w)
      (State_Monad.bind (emit (TCommitted r i)) (\<lambda>_. State_Monad.return (i, nil))) (commit_post r)" if "i \<noteq> []"
      by (rule steps_bind [OF emit_committed [OF that]]) (simp add: steps_def)
    with Pair show ?thesis
      by (simp add: steps_def evidence_error_def)
  qed
qed

lemma stamped_again:
  "stamped (r\<lparr>er_RecordSequence := n, er_ControllerSession := s\<rparr>) i tr \<Longrightarrow> stamped r i tr"
  "stamped (r\<lparr>er_RecordSequence := n, er_ControllerSession := s, er_RecordedAt := t\<rparr>) i tr \<Longrightarrow> stamped r i tr"
  by (auto simp: stamped_def)


lemma commit_stamped_post:
  assumes "\<And>i tr. stamped r' i tr \<Longrightarrow> stamped r i tr"
    and "\<And>w. P w \<Longrightarrow> er_RecordSequence r' = au_recordSequence w \<and> er_ControllerSession r' = au_session w"
  shows "steps (quiet (e_fire E)) P (commit_stamped E c r') (commit_post r)"
  by (rule steps_conseq [OF commit_stamped_quiet]) (auto simp: assms split: if_splits)

lemma commit_quiet: "steps (quiet (e_fire E)) always (commit E c r) (commit_post r)"
proof -
  let ?P = "\<lambda>n s w. n = au_recordSequence w \<and> s = au_session w"
  let ?r = "\<lambda>w. r\<lparr>er_RecordSequence := au_recordSequence w, er_ControllerSession := au_session w\<rparr>"
  have stamp: "steps (quiet (e_fire E)) (?P (au_recordSequence w) (au_session w))
      (case x of (recordedAt, err) \<Rightarrow> if err \<noteq> nil then State_Monad.return ([], ErrEvidence # err)
        else commit_stamped E c' ((?r w)\<lparr>er_RecordedAt := recordedAt\<rparr>)) (commit_post r)" for w c' x
    by (intro any_prod steps_if commit_stamped_post)
      (auto simp: steps_def evidence_error_def intro: stamped_again)
  have rest: "steps (quiet (e_fire E)) (?P (au_recordSequence w) (au_session w))
      (if er_RecordedAt (?r w) \<noteq> zero_time then commit_stamped E c' (?r w)
       else State_Monad.bind (currentTime E c') (\<lambda>(recordedAt, err).
         if err \<noteq> nil then State_Monad.return ([], ErrEvidence # err)
         else commit_stamped E c' ((?r w)\<lparr>er_RecordedAt := recordedAt\<rparr>))) (commit_post r)" for w c'
    by (intro steps_if commit_stamped_post idle_quiet_bind [OF currentTime_idle stable_idle] stamp)
      (auto intro: stamped_again)
  show ?thesis
    unfolding commit_def Let_def
  proof (rule steps_bind [OF idles_quiets [OF with_timeout_idle]], rule steps_bind)
    show "steps (quiet (e_fire E)) always
      (modify (\<lambda>w. w\<lparr>au_recordSequence := au_recordSequence w + 1, w_recorded := Suc (w_recorded w)\<rparr>)) anyhow"
      by (rule steps_modify) (auto intro: quiet.count)
  qed (rule steps_bind [OF steps_fetch], rule steps_pre [OF rest], simp)
qed

lemma commit_quiets [step_rules]: "quiets E (commit E c r)"
  by (rule steps_weaken [OF commit_quiet])

lemma idle_quiets_rule [step_rules]:
  "quiets E (yield_point E)" "quiets E next_tick" "quiets E (evaluate_guard E)" "quiets E (inhibit E d)"
  "quiets E (safetyContext E)" "quiets E (fallback_ctx E c b)" "quiets E (currentTime E c)"
  "quiets E (ctx_err E c)" "quiets E (classifyActuatorError E c err)" "quiets E (locked_heartbeat E)"
  "quiets E (markActiveFallback E i)" "quiets E (callCommandPolicy E c q)" "quiets E (disarm_guard E d)"
  "quiets E (stop_guard E d)" "quiets E (heartbeat_guard E)" "quiets E (yield_locked E)"
  "quiets E (validContext E c')" "quiets E (acquire E c)" "quiets E (acquireSafety E)" "quiets E (requireReady E)"
  by (intro idles_quiets step_rules)+

lemma recordDecision_quiets [step_rules]: "quiets E (recordDecision E c d causes detail)"
  unfolding recordDecision_def by (intro step_rules)

lemma recordPolicyDecision_quiets [step_rules]: "quiets E (recordPolicyDecision E c d causes q p detail)"
  unfolding recordPolicyDecision_def by (intro step_rules)

lemma recordActuatorError_quiets [step_rules]: "quiets E (recordActuatorError E c e p d causes err)"
  unfolding recordActuatorError_def by (intro step_rules)

lemma abortUnsent_quiets [step_rules]: "quiets E (abortUnsent E x result cause)"
  unfolding abortUnsent_def by (intro step_rules)

end
