(* ===== verification/AuthorityRefinement.thy ===== *)
theory AuthorityRefinement
  imports AuthorityProtocol
begin

text \<open>
  The operations of \<^verbatim>\<open>authority.go\<close> refine the protocol: from every numbered state and for
  every environment, the run of an operation is a sequence of protocol steps.
\<close>

section \<open>The execution of one command\<close>

lemma evidence_mono:
  "set tr \<subseteq> set tr' \<Longrightarrow> decision_evidenced pol c x i d tr \<Longrightarrow> decision_evidenced pol c x i d tr'"
  "set tr \<subseteq> set tr' \<Longrightarrow> intent_evidenced c n j i tr \<Longrightarrow> intent_evidenced c n j i tr'"
  unfolding decision_evidenced_def intent_evidenced_def by blast+

lemma decision_evidenced_sooner:
  "decision_evidenced pol c x i d tr \<Longrightarrow> x' \<le> x \<Longrightarrow> decision_evidenced pol c x' i d tr"
  unfolding decision_evidenced_def policy_backs_def by (blast intro: order_trans)

lemma steps_case_prod:
  assumes "\<And>a b. p = (a, b) \<Longrightarrow> steps rel P (f a b) Q"
  shows "steps rel P (case p of (a, b) \<Rightarrow> f a b) Q"
  using assms by (cases p) simp

text \<open>The rest of a program without preconditions, after an assertion was used.\<close>

lemma steps_any: "steps rel always m anyhow \<Longrightarrow> steps rel P m anyhow"
  by (auto simp: steps_def)

lemma quiets_any: "quiets E m \<Longrightarrow> steps (xstep (e_fire E) live) P m anyhow"
  by (rule steps_any [OF quiets_steps])

lemma acked_stable: "stable_under (quiet fire) (\<lambda>w. acked (w_trace w) e a)"
  by (auto simp: stable_under_def quiet_frame)

lemma last_send_stable: "stable_under (quiet fire) (\<lambda>w. last_send (w_trace w) = Some e)"
  by (auto simp: stable_under_def quiet_frame)

lemma await_receipt_steps:
  "steps (xstep (e_fire E) live) (\<lambda>w. last_send (w_trace w) = Some envelope) (await_receipt E c envelope r)
     (\<lambda>(ack, err) w. last_send (w_trace w) = Some envelope \<and> (err = nil \<longrightarrow> acked (w_trace w) envelope ack))"
proof -
  have validate: "steps (xstep (e_fire E) live) (\<lambda>w. last_send (w_trace w) = Some envelope \<and> w' = w)
      (State_Monad.bind
        (if validateAcknowledgment envelope ack t (au_requireApplied w') = nil
         then emit (TAcknowledged envelope ack) else State_Monad.return ())
        (\<lambda>_. State_Monad.return (ack, validateAcknowledgment envelope ack t (au_requireApplied w'))))
      (\<lambda>(ack, err) w. last_send (w_trace w) = Some envelope \<and> (err = nil \<longrightarrow> acked (w_trace w) envelope ack))"
    for ack t w'
    by (auto simp: steps_def emit_def modify_def acked_def intro!: r_into_rtranclp xstep.ack)
  show ?thesis
    unfolding await_receipt_def Let_def
    by (intro idle_bind [OF callActuatorAwait_idle stable_idle] idle_bind [OF currentTime_idle stable_idle]
        steps_case_prod steps_if steps_bind [OF steps_fetch] steps_pre [OF validate])
      (auto simp: steps_def)
qed

lemma record_outcome_steps:
  assumes "ex_Applied x = ac_Command envelope"
  shows "steps (xstep (e_fire E) live) (\<lambda>w. acked (w_trace w) envelope ack)
    (record_outcome E c x envelope result sentID ack earlierErr) anyhow"
  unfolding record_outcome_def Let_def
proof (rule steps_bind [where R = anyhow])
  show "steps (xstep (e_fire E) live) (\<lambda>w. acked (w_trace w) envelope ack)
    (if ack_Accepted ack \<and> ack_AppliedAt ack \<noteq> zero_time
     then modify (\<lambda>w. w\<lparr>au_previousApplied := Some (ex_Applied x), au_previouslyAppliedAt := ack_AppliedAt ack,
       au_previousLiveExpiry := (if ex_Fallback x then au_previousLiveExpiry w else ac_ExpiresAt envelope)\<rparr>)
     else State_Monad.return ()) anyhow"
    unfolding assms by (intro steps_if steps_modify xstep.baseline) (auto simp: steps_def)
qed (intro quiets_any step_rules)

lemma finish_ack_steps:
  assumes "ex_Applied x = ac_Command envelope"
  shows "steps (xstep (e_fire E) live) (\<lambda>w. snd received = nil \<longrightarrow> acked (w_trace w) envelope (fst received))
    (finish_ack E c x envelope result sentID received earlierErr) anyhow"
  unfolding finish_ack_def
  by (intro steps_if quiets_any step_rules steps_pre [OF record_outcome_steps [OF assms]]) simp_all

lemma after_send_steps:
  assumes "ex_Applied x = ac_Command envelope"
  shows "steps (xstep (e_fire E) live) (\<lambda>w. last_send (w_trace w) = Some envelope)
    (after_send E c x envelope result r intentErr) anyhow"
proof -
  let ?R = "\<lambda>received w. last_send (w_trace w) = Some envelope
    \<and> (snd received = nil \<longrightarrow> acked (w_trace w) envelope (fst received))"
  have await: "steps (xstep (e_fire E) live) (\<lambda>w. last_send (w_trace w) = Some envelope)
      (await_receipt E c envelope r) ?R"
    by (rule steps_conseq [OF await_receipt_steps]) (auto simp: case_prod_unfold)
  have finish: "steps (xstep (e_fire E) live) (?R received) (finish_ack E c x envelope result i received e) anyhow"
    for received i e
    by (rule steps_pre [OF finish_ack_steps [OF assms]]) simp
  have R: "stable_under (quiet fire) (?R received)" for fire received
    by (auto simp: stable_under_def quiet_frame)
  show ?thesis
  proof (cases "ex_Fallback x")
    case True
    then show ?thesis
      unfolding after_send_def if_P [OF True]
      by (intro steps_bind [OF await] quiet_bind [OF idles_quiets [OF safetyContext_idle] R]
          quiet_bind [OF commit_quiets R] steps_case_prod finish)
  next
    case False
    have stop: "steps (xstep (e_fire E) live) P (State_Monad.bind
        (recordActuatorError E c envelope (ex_IntentID x) (ex_DecisionID x) (ex_Causes x) err)
        (\<lambda>recordErr. State_Monad.return (result, e @ err @ recordErr))) anyhow" for P err e
      by (intro quiets_any step_rules)
    show ?thesis
      unfolding after_send_def if_not_P [OF False]
      by (intro quiet_bind [OF commit_quiets last_send_stable] steps_case_prod steps_if stop
          steps_bind [OF await] finish)
  qed
qed

lemma idle_may_send: "stable_under (idle fire) (\<lambda>w. may_send w e)"
  by (simp add: stable_under_def may_send_def lease_ok_def idle_frame)

lemma callActuatorSend_steps:
  "steps (xstep (e_fire E) live) (\<lambda>w. may_send w e) (callActuatorSend E gt c e)
     (\<lambda>(r, err) w. r \<noteq> None \<longrightarrow> last_send (w_trace w) = Some e)"
proof -
  have emitted: "steps (xstep (e_fire E) live) (\<lambda>w. may_send w e \<and> w' = w) (emit (TSend (w_issued w') e))
      (\<lambda>_ w. last_send (w_trace w) = Some e)" for w'
    unfolding emit_def by (rule steps_modify) (auto intro: xstep.send)
  show ?thesis
    unfolding callActuatorSend_def
    by (intro idle_bind [OF yield_point_idle idle_may_send] idle_bind [OF ctx_err_idle idle_may_send]
        idle_bind [OF gate_busy_idle idle_may_send] steps_if steps_bind [OF steps_fetch]
        steps_bind [OF emitted] idle_bind [OF run_callback_idle stable_idle])
      (auto simp: steps_def)
qed

text \<open>What must hold before \<open>transmit\<close>, which drops the baseline itself.\<close>

definition sendable :: "world \<Rightarrow> ActuatorCommand \<Rightarrow> bool" where
  "sendable w e \<longleftrightarrow> may_send (w\<lparr>au_previousApplied := None\<rparr>) e"

lemma may_send_cong:
  assumes "w_trace w = w_trace w'" "w_issued w = w_issued w'" "au_ttl w = au_ttl w'" "au_session w = au_session w'"
    "au_safe w = au_safe w'" "au_policy w = au_policy w'" "au_activeSending w = au_activeSending w'"
    "au_previousApplied w = au_previousApplied w'"
  shows "may_send w e = may_send w' e"
  by (simp add: may_send_def lease_ok_def assms)

lemma transmit_steps:
  assumes "ex_Applied x = ac_Command e"
  shows "steps (xstep (e_fire E) live) (\<lambda>w. sendable w e) (transmit E c x e result intentErr) anyhow"
proof -
  have clear: "steps (xstep (e_fire E) live) (\<lambda>w. sendable w e)
      (modify (\<lambda>w. w\<lparr>au_previousApplied := None, au_previouslyAppliedAt := zero_time,
                     au_previousLiveExpiry := zero_time\<rparr>)) (\<lambda>_ w. may_send w e)"
    by (rule steps_modify) (auto simp: sendable_def intro: xstep.clear elim!: may_send_cong [THEN iffD1, rotated -1])
  have "steps (xstep (e_fire E) live) (\<lambda>w. r \<noteq> None \<longrightarrow> last_send (w_trace w) = Some e)
      (case (r, err) of (Some r, []) \<Rightarrow> after_send E c x e result r intentErr
       | _ \<Rightarrow> State_Monad.bind (classifyActuatorError E c (if err = nil then [ErrActuatorUncertain] else err))
           (\<lambda>classified. State_Monad.bind
             (recordActuatorError E c e (ex_IntentID x) (ex_DecisionID x) (ex_Causes x)
               (if err = nil then [ErrActuatorUncertain] else err))
             (\<lambda>recordErr. State_Monad.return (result, intentErr @ classified @ recordErr)))) anyhow"
    for r err
  proof (cases "r \<noteq> None \<and> err = nil")
    case True
    then show ?thesis
      by (auto intro: steps_pre [OF after_send_steps [OF assms]])
  next
    case False
    then show ?thesis
      by (cases r; cases err) (auto intro!: quiets_any step_rules)
  qed
  then show ?thesis
    unfolding transmit_def Let_def
    by (intro steps_bind [OF clear] steps_bind [OF callActuatorSend_steps]) (auto simp: case_prod_unfold)
qed


text \<open>The counters mirror their unbounded counts, every transmitted ordinal was issued, and the
  lease duration is a positive \<^verbatim>\<open>time.Duration\<close>.\<close>

definition numbered :: "world \<Rightarrow> bool" where
  "numbered w \<longleftrightarrow> au_commandSequence w = of_nat (w_issued w) \<and> au_recordSequence w = of_nat (w_recorded w)
     \<and> au_safetyEpoch w = of_nat (w_epochs w) \<and> 0 < au_ttl w \<and> au_ttl w \<le> max_i64
     \<and> (\<forall>n e. TSend n e \<in> set (w_trace w) \<longrightarrow> n \<le> w_issued w)"

lemma idle_epochs:
  assumes "idle fire w w'"
  shows "(au_safetyEpoch w' = au_safetyEpoch w \<and> w_epochs w' = w_epochs w)
    \<or> (au_safetyEpoch w' = au_safetyEpoch w + 1 \<and> w_epochs w' = Suc (w_epochs w))"
  using assms
  by (cases; simp add: cancelLiveApplyIfDecisionChanged_def tighten_def reassert_def Let_def case_prod_unfold)

lemma idle_numbered: "idle fire w w' \<Longrightarrow> numbered w \<Longrightarrow> numbered w'"
  using idle_epochs [of fire w w'] by (auto simp: numbered_def idle_frame)

lemma xstep_numbered: "stable_under (xstep fire live) numbered"
  unfolding stable_under_def
proof (intro allI impI)
  fix w w' assume "xstep fire live w w'" and n: "numbered w"
  then show "numbered w'"
  proof cases
    case quiet
    then show ?thesis
    proof cases
      case idle
      then show ?thesis using n by (rule idle_numbered)
    qed (use n in \<open>auto simp: numbered_def\<close>)
  qed (use n in \<open>auto simp: numbered_def intro: le_SucI\<close>)
qed

text \<open>An execution whose number was just issued, with what it needs to be sent. \<open>dl\<close> is the
  deadline of the context of a live command.\<close>

definition executing :: "execution \<Rightarrow> Decision \<Rightarrow> ctx \<Rightarrow> world \<Rightarrow> bool" where
  "executing x d c w \<longleftrightarrow> 0 < au_ttl w \<and> au_ttl w \<le> max_i64 \<and> ex_Sequence x = of_nat (w_issued w)
     \<and> (\<forall>n e. TSend n e \<in> set (w_trace w) \<longrightarrow> n < w_issued w)
     \<and> (if ex_Fallback x then ex_Applied x = au_safe w
        else intent_evidenced (ex_Applied x) (ex_Sequence x) (ex_DecisionID x) (ex_IntentID x) (w_trace w)
          \<and> (\<exists>dl. cx_Deadline c = Some dl
               \<and> decision_evidenced (au_policy w) (ex_Applied x) dl (ex_DecisionID x) d (w_trace w)))"

lemma quiet_grows: "quiet fire w w' \<Longrightarrow> set (w_trace w) \<subseteq> set (w_trace w')"
  by (rule trace_grows [OF xstep.quiet])

lemma executing_stable: "stable_under (quiet fire) (executing x d c)"
  unfolding stable_under_def executing_def
  by (auto simp: quiet_frame intro: evidence_mono [OF quiet_grows])

lemmas executing_idle = stable_mono [OF executing_stable quiet.idle]

lemma envelope_lease:
  assumes "0 < ac_TTL (envelope_of w c x t)" and "au_ttl w \<le> max_i64" and "ex_Sequence x = of_nat (w_issued w)"
  shows "lease_ok w (envelope_of w c x t)"
proof -
  let ?d = "lease_end c t (au_ttl w) - t"
  have le: "?d \<le> au_ttl w"
    by (cases "cx_Deadline c") (auto simp: lease_end_def)
  have "0 < time_sub (lease_end c t (au_ttl w)) t"
    using assms(1) by (simp add: envelope_of_def)
  then have pos: "0 < ?d"
    by (auto simp: time_sub_def max_i64_def min_i64_def)
  have "time_sub (lease_end c t (au_ttl w)) t = ?d"
    using pos le assms(2) by (intro time_sub_exact) (auto simp: min_i64_def)
  then show ?thesis
    using pos le assms(3) by (simp add: lease_ok_def envelope_of_def)
qed

lemma lease_end_deadline: "cx_Deadline c = Some dl \<Longrightarrow> lease_end c t ttl \<le> dl"
  by (simp add: lease_end_def)

lemma envelope_fields [simp]:
  "ac_Command (envelope_of w c x t) = ex_Applied x" "ac_Fallback (envelope_of w c x t) = ex_Fallback x"
  "ac_Sequence (envelope_of w c x t) = ex_Sequence x" "ac_DecisionID (envelope_of w c x t) = ex_DecisionID x"
  "ac_IntentID (envelope_of w c x t) = ex_IntentID x"
  "ac_ExpiresAt (envelope_of w c x t) = lease_end c t (au_ttl w)"
  by (simp_all add: envelope_of_def)

text \<open>The last preflight: on success the trace starts with the decision it confirmed. What an
  envelope is measured against does not change meanwhile.\<close>

definition settled :: "world \<Rightarrow> nat \<times> duration \<times> session_id \<times> bool" where
  "settled w = (w_issued w, au_ttl w, au_session w, au_policy w)"

definition confirmed :: "Decision \<Rightarrow> (trace_event list \<Rightarrow> nat \<times> duration \<times> session_id \<times> bool \<Rightarrow> bool) \<Rightarrow> world \<Rightarrow> bool" where
  "confirmed d T w \<longleftrightarrow> au_activeSending w
     \<and> (\<exists>current rest. w_trace w = TPreflight d current # rest \<and> sameDecisionInput d current \<and> T rest (settled w))"

lemma settled_stable: "stable_under (idle fire) (\<lambda>w. T (w_trace w) (settled w))"
  by (simp add: stable_under_def settled_def idle_frame)

lemma evaluate_guard_run:
  "steps (idle (e_fire E)) P (evaluate_guard E) (\<lambda>d w. \<exists>g v. guard_Evaluate (e_fire E) g v = (au_guard w, d))"
proof -
  have "\<exists>g v. guard_Evaluate (e_fire E) g v =
      (au_guard (snd (run_state (evaluate_guard E) w)), fst (run_state (evaluate_guard E) w))" for w
    by (simp add: evaluate_guard_def guard_call_def next_tick_def modify_def case_prod_unfold Let_def)
      (metis prod.collapse)
  then show ?thesis
    using evaluate_idle [of E] by (auto simp: steps_def)
qed


lemma preflight_steps:
  "steps (xstep (e_fire E) True) (\<lambda>w. T (w_trace w) (settled w)) (checkBeforeSend E c d True)
     (\<lambda>(current, err) w. err = nil \<longrightarrow> confirmed d T w)"
proof -
  let ?G = "\<lambda>current w. T (w_trace w) (settled w) \<and> (\<exists>g v. guard_Evaluate (e_fire E) g v = (au_guard w, current))"
  have "steps (idle (e_fire E)) (\<lambda>w. True \<and> T (w_trace w) (settled w)) (evaluate_guard E)
      (\<lambda>d w. (\<exists>g v. guard_Evaluate (e_fire E) g v = (au_guard w, d)) \<and> T (w_trace w) (settled w))"
    by (rule steps_frame [OF evaluate_guard_run settled_stable])
  then have evaluated: "steps (xstep (e_fire E) True) (\<lambda>w. T (w_trace w) (settled w)) (evaluate_guard E) ?G"
    by (rule steps_mono [OF steps_conseq]) (auto intro: idle_xstep)
  have ctx: "steps (xstep (e_fire E) True) (?G current) (ctx_err E c) (\<lambda>_. ?G current)" for current
    by (auto simp: steps_def ctx_err_def next_tick_def settled_def intro!: idle_xstep idle.tick)
  have mark: "steps (xstep (e_fire E) True) (?G current)
      (State_Monad.bind (modify (\<lambda>w. w\<lparr>au_activeSending := True\<rparr>))
        (\<lambda>_. State_Monad.bind (emit (TPreflight d current)) (\<lambda>_. State_Monad.return (current, nil))))
      (\<lambda>(current, err) w. err = nil \<longrightarrow> confirmed d T w)" if "sameDecisionInput d current" for current
    using that
    by (auto simp: steps_def emit_def modify_def confirmed_def settled_def intro!: xstep.preflight)
  have stop: "steps (xstep (e_fire E) True) P (State_Monad.return (current, a # err))
      (\<lambda>(current, err) w. err = nil \<longrightarrow> confirmed d T w)" for P current a err
    by (simp add: steps_def)
  have fetch: "steps (xstep (e_fire E) True) (?G current) State_Monad.get (\<lambda>_. ?G current)" for current
    by (simp add: steps_def)
  show ?thesis
    unfolding checkBeforeSend_def if_True
    by (intro idle_bind [OF yield_point_idle settled_stable] steps_bind [OF evaluated] steps_bind [OF ctx]
        steps_bind [OF fetch] steps_if mark) (auto simp: steps_def split: if_splits)
qed

lemma check_idle: "idles E (checkBeforeSend E c d False)"
  unfolding checkBeforeSend_def if_False by (intro step_rules)

lemma deadline_stays: "cx_Deadline c = Some dl \<Longrightarrow> fallback_ctx E c False = State_Monad.return c"
  by (simp add: fallback_ctx_def)

lemma fallback_sendable:
  assumes "executing x d c' w" and "ex_Fallback x" and "0 < ac_TTL (envelope_of w c x t)"
  shows "sendable w (envelope_of w c x t)"
proof -
  have "lease_ok w (envelope_of w c x t)"
    using assms by (intro envelope_lease) (auto simp: executing_def)
  then show ?thesis
    using assms by (auto simp: sendable_def may_send_def executing_def lease_ok_def)
qed

definition issued_live :: "Decision \<Rightarrow> ActuatorCommand \<Rightarrow> world \<Rightarrow> bool" where
  "issued_live d e w \<longleftrightarrow> (\<forall>n e'. TSend n e' \<in> set (w_trace w) \<longrightarrow> n < w_issued w) \<and> lease_ok w e
     \<and> decision_evidenced (au_policy w) (ac_Command e) (ac_ExpiresAt e) (ac_DecisionID e) d (w_trace w)
     \<and> intent_evidenced (ac_Command e) (ac_Sequence e) (ac_DecisionID e) (ac_IntentID e) (w_trace w)"

lemma executing_issued_live:
  assumes "executing x d c w" and "\<not> ex_Fallback x" and "0 < ac_TTL (envelope_of w c x t)"
  shows "issued_live d (envelope_of w c x t) w"
proof -
  have "lease_ok w (envelope_of w c x t)"
    using assms by (intro envelope_lease) (auto simp: executing_def)
  then show ?thesis
    using assms
    by (auto simp: issued_live_def executing_def intro: decision_evidenced_sooner [OF _ lease_end_deadline])
qed


lemma live_preflight_steps:
  assumes "\<not> ac_Fallback e"
  shows "steps (xstep (e_fire E) True) (issued_live d e) (checkBeforeSend E c d True)
    (\<lambda>(current, err) w. err = nil \<longrightarrow> sendable w e)"
proof -
  let ?T = "\<lambda>tr (n, ttl, s, pol). (\<forall>n' e'. TSend n' e' \<in> set tr \<longrightarrow> n' < n) \<and> 0 < ac_TTL e \<and> ac_TTL e \<le> ttl
    \<and> ac_ExpiresAt e = ac_IssuedAt e + ac_TTL e \<and> ac_ControllerSession e = s \<and> ac_Sequence e = of_nat n
    \<and> decision_evidenced pol (ac_Command e) (ac_ExpiresAt e) (ac_DecisionID e) d tr
    \<and> intent_evidenced (ac_Command e) (ac_Sequence e) (ac_DecisionID e) (ac_IntentID e) tr"
  show ?thesis
  proof (rule steps_conseq [OF preflight_steps [of E ?T]])
    show "?T (w_trace w) (settled w)" if "issued_live d e w" for w
      using that by (auto simp: issued_live_def settled_def lease_ok_def)
    show "(\<lambda>(current, err) w. err = nil \<longrightarrow> sendable w e) r w"
      if "(\<lambda>(current, err) w. err = nil \<longrightarrow> confirmed d ?T w) r w" for r :: "Decision \<times> go_error" and w
      using that assms
      by (auto simp: confirmed_def settled_def sendable_def may_send_def lease_ok_def live_justified_def) blast
  qed
qed

lemma not_eqs: "\<not> b \<Longrightarrow> (\<not> b) = True"
  by simp

lemma issue_steps:
  "steps (xstep (e_fire E) (\<not> ex_Fallback x)) (executing x d c) (issue E c x d result issuedAt intentErr) anyhow"
proof -
  have send: "steps (xstep (e_fire E) (\<not> ex_Fallback x)) (\<lambda>w. sendable w (envelope_of w' c' x issuedAt))
      (transmit E c' x (envelope_of w' c' x issuedAt) result intentErr) anyhow" for w' c'
    by (rule transmit_steps) simp
  have expired: "steps (xstep (e_fire E) (\<not> ex_Fallback x)) P (State_Monad.bind
        (recordActuatorError E c' e (ex_IntentID x) (ex_DecisionID x) (ex_Causes x) [ErrActuatorTimeout])
        (\<lambda>recordErr. State_Monad.return (result, intentErr @ [ErrActuatorTimeout] @ recordErr))) anyhow"
    for P e c'
    by (intro quiets_any step_rules)
  show ?thesis
  proof (cases "ex_Fallback x")
    case True
    have lease: "\<not> ac_TTL (envelope_of w c' x issuedAt) \<le> 0 \<Longrightarrow> executing x d c w \<Longrightarrow>
        sendable w (envelope_of w c' x issuedAt)" for w c'
      using True fallback_sendable by force
    show ?thesis
      unfolding issue_def Let_def if_P [OF True]
      by (intro idle_bind [OF fallback_ctx_idle executing_idle] steps_bind [OF steps_fetch] steps_if
          expired steps_pre [OF send]) (auto intro: lease)
  next
    case False
    have check: "steps (xstep (e_fire E) (\<not> ex_Fallback x)) (\<lambda>w. executing x d c w \<and> w' = w)
        (checkBeforeSend E c d True) (\<lambda>(current, err) w. err = nil \<longrightarrow> sendable w (envelope_of w' c x issuedAt))"
      if "\<not> ac_TTL (envelope_of w' c x issuedAt) \<le> 0" for w'
      unfolding not_eqs [OF False]
      by (rule steps_pre [OF live_preflight_steps]) (use that False in \<open>auto intro: executing_issued_live\<close>)
    have rest: "steps (xstep (e_fire E) (\<not> ex_Fallback x)) (case r of (current, err) \<Rightarrow> (\<lambda>w. err = nil \<longrightarrow> sendable w (envelope_of w' c x issuedAt)))
        (case r of (current, err) \<Rightarrow> if err \<noteq> nil then abortUnsent E x (result\<lparr>ar_Decision := current\<rparr>) err
           else transmit E c x (envelope_of w' c x issuedAt) result intentErr) anyhow" for r w'
      by (cases r) (auto intro: quiets_any step_rules send steps_pre [OF send])
    show ?thesis
      unfolding issue_def Let_def if_not_P [OF False] fallback_ctx_def bind_left_identity
      by (intro steps_bind [OF steps_fetch] steps_if expired steps_bind [OF check])
        (use rest in \<open>auto simp: case_prod_unfold\<close>)
  qed
qed

lemma stamp_steps:
  "steps (xstep (e_fire E) (\<not> ex_Fallback x)) (executing x d c) (stamp E c x d result intentErr) anyhow"
  unfolding stamp_def
  by (intro idle_bind [OF fallback_ctx_idle executing_idle] idle_bind [OF currentTime_idle executing_idle]
      idle_bind [OF next_tick_idle executing_idle] steps_case_prod steps_if issue_steps quiets_any
      abortUnsent_quiets)


definition intent_record ::
  "u64 \<Rightarrow> EncodedCommand \<Rightarrow> EncodedCommand \<Rightarrow> EvidenceID \<Rightarrow> EventID list \<Rightarrow> string \<Rightarrow> EvidenceRecord" where
  "intent_record n requested applied decisionID causes reason = (record_of EvidenceIntent)
     \<lparr>er_CommandSequence := n, er_ParentID := decisionID, er_DecisionID := decisionID,
      er_Causes := causes, er_Requested := Some requested, er_Applied := Some applied, er_Detail := reason\<rparr>"

lemma stamped_intent:
  "stamped (intent_record n c c decisionID causes reason) i tr \<Longrightarrow> intent_evidenced c n decisionID i tr"
  unfolding stamped_def intent_evidenced_def intent_record_def record_of_def by fastforce

text \<open>Before an execution: its decision is evidenced when it is live, and a fallback applies the
  engineered safe state.\<close>

definition executable :: "bool \<Rightarrow> EncodedCommand \<Rightarrow> EncodedCommand \<Rightarrow> Decision \<Rightarrow> EvidenceID \<Rightarrow> ctx \<Rightarrow> world \<Rightarrow> bool" where
  "executable fallback requested applied d i c w \<longleftrightarrow> numbered w
     \<and> (if fallback then applied = au_safe w
        else requested = applied
          \<and> (\<exists>dl. cx_Deadline c = Some dl \<and> decision_evidenced (au_policy w) applied dl i d (w_trace w)))"

definition counted :: "bool \<Rightarrow> EncodedCommand \<Rightarrow> EncodedCommand \<Rightarrow> Decision \<Rightarrow> EvidenceID \<Rightarrow> ctx \<Rightarrow> u64 \<Rightarrow> world \<Rightarrow> bool" where
  "counted fallback requested applied d i c n w \<longleftrightarrow> executable fallback requested applied d i c w
     \<and> n = of_nat (w_issued w) \<and> (\<forall>n e. TSend n e \<in> set (w_trace w) \<longrightarrow> n < w_issued w)"

lemma counted_stable: "stable_under (quiet fire) (counted fallback requested applied d i c n)"
proof -
  have "numbered w'" if "quiet fire w w'" "numbered w" for w w'
    using xstep_numbered [of fire live] that by (auto simp: stable_under_def intro: xstep.quiet)
  then show ?thesis
    unfolding stable_under_def counted_def executable_def
    by (auto simp: quiet_frame intro: evidence_mono [OF quiet_grows])
qed

lemma issue_number:
  "steps (xstep fire live) (executable fallback requested applied d i c)
     (modify (\<lambda>w. w\<lparr>au_commandSequence := au_commandSequence w + 1, w_issued := Suc (w_issued w)\<rparr>))
     (\<lambda>_ w. counted fallback requested applied d i c (au_commandSequence w) w)"
proof (rule steps_modify)
  fix w assume x: "executable fallback requested applied d i c w"
  show "xstep fire live w (w\<lparr>au_commandSequence := au_commandSequence w + 1, w_issued := Suc (w_issued w)\<rparr>)"
    by (rule xstep.issue)
  then have "numbered (w\<lparr>au_commandSequence := au_commandSequence w + 1, w_issued := Suc (w_issued w)\<rparr>)"
    using x xstep_numbered [of fire live] unfolding stable_under_def executable_def by blast
  with x show "counted fallback requested applied d i c
      (au_commandSequence (w\<lparr>au_commandSequence := au_commandSequence w + 1, w_issued := Suc (w_issued w)\<rparr>))
      (w\<lparr>au_commandSequence := au_commandSequence w + 1, w_issued := Suc (w_issued w)\<rparr>)"
    by (auto simp: counted_def executable_def numbered_def less_Suc_eq_le)
qed

lemma commit_counted:
  assumes "stable_under (quiet (e_fire E)) P"
  shows "steps (xstep (e_fire E) live) P (commit E c r) (\<lambda>x w. commit_post r x w \<and> P w)"
proof -
  have "steps (quiet (e_fire E)) (\<lambda>w. True \<and> P w) (commit E c r) (\<lambda>x w. commit_post r x w \<and> P w)"
    by (rule steps_frame [OF commit_quiet assms])
  then show ?thesis
    by (rule steps_mono [OF steps_pre]) (auto intro: xstep.quiet)
qed


text \<open>What \<open>executeLocked\<close> does once the intent record has been attempted.\<close>

definition proceed ::
  "env \<Rightarrow> ctx \<Rightarrow> execution \<Rightarrow> Decision \<Rightarrow> ApplyResult \<Rightarrow> go_error \<Rightarrow> (ApplyResult \<times> go_error) act" where
  "proceed E c x d result intentErr =
     (if ex_Fallback x then stamp E c x d result intentErr
      else if intentErr \<noteq> nil then abortUnsent E x result intentErr
      else do {
        (current, err) \<leftarrow> checkBeforeSend E c d False;
        if err \<noteq> nil then abortUnsent E x (result\<lparr>ar_Decision := current\<rparr>) err
        else stamp E c x d result intentErr
      })"

lemma executeLocked_split:
  "executeLocked E c requested applied d decisionID causes fallback reason = do {
     modify (\<lambda>w. w\<lparr>au_commandSequence := au_commandSequence w + 1, w_issued := Suc (w_issued w)\<rparr>);
     w \<leftarrow> fetch;
     intentCtx \<leftarrow> fallback_ctx E c fallback;
     (intentID, intentErr) \<leftarrow> commit E intentCtx
       (intent_record (au_commandSequence w) requested applied decisionID causes reason);
     proceed E c \<lparr>ex_Sequence = au_commandSequence w, ex_Requested = requested, ex_Applied = applied,
           ex_DecisionID = decisionID, ex_IntentID = intentID, ex_Causes = causes,
           ex_Fallback = fallback, ex_Reason = reason\<rparr> d
       (zero_result\<lparr>ar_Decision := d, ar_Requested := requested,
           ar_Applied := applied, ar_Fallback := fallback, ar_CommandSequence := au_commandSequence w,
           ar_DecisionEvidenceID := decisionID, ar_IntentEvidenceID := intentID\<rparr>) intentErr
   }"
  unfolding executeLocked_def proceed_def Let_def intent_record_def by simp

lemma proceed_steps:
  "steps (xstep (e_fire E) (\<not> ex_Fallback x)) (\<lambda>w. ex_Fallback x \<or> intentErr = nil \<longrightarrow> executing x d c w)
    (proceed E c x d result intentErr) anyhow"
proof -
  have check: "steps (xstep (e_fire E) (\<not> ex_Fallback x)) (executing x d c)
      (State_Monad.bind (checkBeforeSend E c d False) (\<lambda>(current, err).
        if err \<noteq> nil then abortUnsent E x (result\<lparr>ar_Decision := current\<rparr>) err
        else stamp E c x d result intentErr)) anyhow"
    by (intro idle_bind [OF check_idle executing_idle] steps_case_prod steps_if quiets_any abortUnsent_quiets
        stamp_steps)
  show ?thesis
    unfolding proceed_def
    by (intro steps_if quiets_any abortUnsent_quiets steps_pre [OF stamp_steps] steps_pre [OF check]) auto
qed

lemma counted_executing:
  assumes "counted fallback requested applied d i c n w"
    and "fallback \<or> stamped (intent_record n requested applied i causes reason) j (w_trace w)"
  shows "executing \<lparr>ex_Sequence = n, ex_Requested = requested, ex_Applied = applied, ex_DecisionID = i,
    ex_IntentID = j, ex_Causes = causes, ex_Fallback = fallback, ex_Reason = reason\<rparr> d c w"
  using assms
  by (auto simp: executing_def counted_def executable_def numbered_def dest: stamped_intent split: if_splits)

lemma executeLocked_steps:
  "steps (xstep (e_fire E) (\<not> fallback)) (executable fallback requested applied d i c)
     (executeLocked E c requested applied d i causes fallback reason) anyhow"
proof -
  let ?C = "counted fallback requested applied d i c"
  have recorded: "steps (xstep (e_fire E) (\<not> fallback)) (?C n) (commit E c' (intent_record n requested applied i causes reason))
      (\<lambda>x w. commit_post (intent_record n requested applied i causes reason) x w \<and> ?C n w)" for n c'
    by (rule commit_counted [OF counted_stable])
  have go: "steps (xstep (e_fire E) (\<not> fallback))
      (\<lambda>w. commit_post (intent_record n requested applied i causes reason) (j, err) w \<and> ?C n w)
      (proceed E c \<lparr>ex_Sequence = n, ex_Requested = requested, ex_Applied = applied, ex_DecisionID = i,
         ex_IntentID = j, ex_Causes = causes, ex_Fallback = fallback, ex_Reason = reason\<rparr> d result err) anyhow"
    for n j err result
    by (rule steps_pre [OF proceed_steps [of E "\<lparr>ex_Sequence = n, ex_Requested = requested, ex_Applied = applied,
          ex_DecisionID = i, ex_IntentID = j, ex_Causes = causes, ex_Fallback = fallback, ex_Reason = reason\<rparr>",
          unfolded execution.simps]]) (auto intro!: counted_executing split: if_splits)
  have rest: "steps (xstep (e_fire E) (\<not> fallback)) (?C n)
      (State_Monad.bind (fallback_ctx E c fallback) (\<lambda>intentCtx. State_Monad.bind
        (commit E intentCtx (intent_record n requested applied i causes reason)) (\<lambda>(intentID, intentErr).
          proceed E c \<lparr>ex_Sequence = n, ex_Requested = requested, ex_Applied = applied, ex_DecisionID = i,
            ex_IntentID = intentID, ex_Causes = causes, ex_Fallback = fallback, ex_Reason = reason\<rparr> d
            (result intentID) intentErr))) anyhow" for n result
    by (intro quiet_bind [OF idles_quiets [OF fallback_ctx_idle] counted_stable] steps_bind [OF recorded]
        steps_case_prod) (use go in auto)
  show ?thesis
    unfolding executeLocked_split
    by (intro steps_bind [OF issue_number] steps_bind [OF steps_fetch] steps_pre [OF rest]) simp
qed

lemma xstep_mono: "xstep fire l w w' \<Longrightarrow> (l \<Longrightarrow> live) \<Longrightarrow> xstep fire live w w'"
  by (erule xstepE) (auto intro: xstep.intros)

lemma executeFallbackLocked_steps:
  "steps (xstep (e_fire E) False) numbered (executeFallbackLocked E d causes reason) anyhow"
proof -
  have stable: "stable_under (quiet fire) numbered" for fire
    using xstep_numbered by (rule stable_mono) (rule xstep.quiet)
  show ?thesis
    unfolding executeFallbackLocked_def
    by (intro quiet_bind [OF idles_quiets [OF safetyContext_idle] stable]
        quiet_bind [OF recordDecision_quiets stable] steps_case_prod steps_bind [OF steps_fetch]
        steps_bind [OF steps_pre [OF executeLocked_steps [where fallback = True, simplified]]])
      (auto simp: executable_def steps_def)
qed


section \<open>Applying a command\<close>

text \<open>Programs that are sequences of execution steps from every numbered state.\<close>

abbreviation executes :: "bool \<Rightarrow> env \<Rightarrow> 'a act \<Rightarrow> bool" where
  "executes live E m \<equiv> steps (xstep (e_fire E) live) numbered m (\<lambda>_. numbered)"

named_theorems exec_rules "rules that decompose a program into execution steps"

lemma steps_numbered: "steps (xstep fire live) P m Q \<Longrightarrow> (\<And>w. numbered w \<Longrightarrow> P w) \<Longrightarrow> steps (xstep fire live) numbered m (\<lambda>_. numbered)"
  using steps_frame [OF _ xstep_numbered [of fire live], of P m Q] by (auto simp: steps_def)

lemma quiets_executes: "quiets E m \<Longrightarrow> executes live E m"
  by (rule steps_numbered [OF quiets_steps]) auto

lemma executes_bind [exec_rules]: "executes live E m \<Longrightarrow> (\<And>r. executes live E (f r)) \<Longrightarrow> executes live E (State_Monad.bind m f)"
  by (rule steps_bind)

lemma executes_ret [exec_rules]: "executes live E (State_Monad.return r)"
  by (simp add: steps_def)

lemma executes_fetch [exec_rules]: "executes live E State_Monad.get"
  by (simp add: steps_def)

lemmas exec_cases [exec_rules] = any_if any_prod any_option any_sum any_Let

lemma executes_fallback [exec_rules]: "executes live E (executeFallbackLocked E d causes reason)"
  by (rule steps_mono [OF steps_numbered [OF executeFallbackLocked_steps]]) (auto intro: xstep_mono)

lemma quiet_executes [exec_rules]:
  "executes live E (yield_point E)" "executes live E (evaluate_guard E)" "executes live E (inhibit E d)"
  "executes live E (safetyContext E)" "executes live E (currentTime E c)" "executes live E (locked_heartbeat E)"
  "executes live E (markActiveFallback E i)" "executes live E (yield_locked E)" "executes live E (heartbeat_guard E)"
  "executes live E (recordPolicyDecision E c dn causes q p detail)" "executes live E (recordDecision E c dn causes detail)"
  "executes live E (commit E c r)" "executes live E (next_tick)" "executes live E (requireReady E)" "executes live E (acquireSafety E)"
  "executes live E (disarm_guard E d)" "executes live E (stop_guard E d)" "executes live E (acquire E c)" "executes live E (validContext E co)"
  "executes live E (callCommandPolicy E c pr)"
  by (intro quiets_executes step_rules)+

lemma apply_recover_executes [exec_rules]: "executes live E (apply_recover E b d causes reason result err)"
  unfolding apply_recover_def by (intro exec_rules)

lemma apply_failed_executes [exec_rules]: "executes live E (apply_failed E i causes d result err)"
  unfolding apply_failed_def by (intro exec_rules)

lemma apply_confirm_executes [exec_rules]: "executes live E (apply_confirm E i causes d result)"
  unfolding apply_confirm_def by (intro exec_rules)

lemma apply_invalid_executes [exec_rules]: "executes live E (apply_invalid E request err)"
  unfolding apply_invalid_def by (intro exec_rules)

lemma apply_refused_executes [exec_rules]: "executes live E (apply_refused E i causes requested d p err)"
  unfolding apply_refused_def by (intro exec_rules)

text \<open>A permitting decision is backed by a permission of the policy where one is configured, and
  the context of the command ends no later than that permission.\<close>

definition backed :: "bool \<Rightarrow> ctx \<Rightarrow> PolicyDecision option \<Rightarrow> bool" where
  "backed pol c po \<longleftrightarrow> (\<exists>dl. cx_Deadline c = Some dl \<and>
     (case po of None \<Rightarrow> \<not> pol
      | Some p \<Rightarrow> pd_Permit p \<and> pd_PolicyID p \<noteq> [] \<and> pd_Subject p \<noteq> [] \<and> pd_Authorization p \<noteq> []
          \<and> dl \<le> pd_ExpiresAt p))"

lemma stamped_decision:
  assumes "stamped ((record_of EvidenceDecision)\<lparr>er_Causes := causes, er_Decision := Some d, er_Policy := po,
      er_Requested := rq, er_Detail := detail\<rparr>) i tr"
    and "pol \<Longrightarrow> rq = Some c \<and> (\<exists>p. po = Some p \<and> pd_Permit p \<and> pd_PolicyID p \<noteq> [] \<and> pd_Subject p \<noteq> []
       \<and> pd_Authorization p \<noteq> [] \<and> dl \<le> pd_ExpiresAt p)"
  shows "decision_evidenced pol c dl i d tr"
proof -
  from assms(1) obtain n s t where r: "TCommitted ((record_of EvidenceDecision)\<lparr>er_Causes := causes,
      er_Decision := Some d, er_Policy := po, er_Requested := rq, er_Detail := detail,
      er_RecordSequence := n, er_ControllerSession := s, er_RecordedAt := t\<rparr>) i \<in> set tr"
    by (auto simp: stamped_def)
  show ?thesis
    unfolding decision_evidenced_def
    by (intro exI conjI, rule r) (use assms(2) in \<open>auto simp: record_of_def policy_backs_def\<close>)
qed

lemma record_decision_post:
  assumes "backed pol c po"
  shows "steps (quiet (e_fire E)) always
    (apply_record E c request causes requested d po)
    (\<lambda>(i, err) w. err = nil \<longrightarrow> (\<exists>dl. cx_Deadline c = Some dl \<and> decision_evidenced pol requested dl i d (w_trace w)))"
proof (cases po)
  case None
  with assms obtain dl where dl: "cx_Deadline c = Some dl" "\<not> pol"
    by (auto simp: backed_def)
  have "(record_of EvidenceDecision)\<lparr>er_Causes := causes, er_Decision := Some d, er_Detail := rq_Detail request\<rparr>
    = (record_of EvidenceDecision)\<lparr>er_Causes := causes, er_Decision := Some d, er_Policy := None,
        er_Requested := None, er_Detail := rq_Detail request\<rparr>"
    by (simp add: record_of_def)
  with None dl show ?thesis
    unfolding apply_record_def recordDecision_def
    by (auto intro!: steps_conseq [OF commit_quiet] intro: stamped_decision)
next
  case (Some p)
  with assms obtain dl where dl: "cx_Deadline c = Some dl" "pd_Permit p" "pd_PolicyID p \<noteq> []" "pd_Subject p \<noteq> []"
    "pd_Authorization p \<noteq> []" "dl \<le> pd_ExpiresAt p"
    by (auto simp: backed_def)
  with Some show ?thesis
    unfolding apply_record_def recordPolicyDecision_def
    by (auto intro!: steps_conseq [OF commit_quiet] intro: stamped_decision)
qed


lemma xstep_frame:
  assumes "xstep fire live w w'"
  shows "au_policy w' = au_policy w" "au_ttl w' = au_ttl w" "au_safe w' = au_safe w" "au_active w' = au_active w"
    "au_bound w' = au_bound w" "au_source w' = au_source w" "au_session w' = au_session w"
    "au_requireApplied w' = au_requireApplied w"
  using assms by (cases; simp add: quiet_frame)+

lemma apply_record_quiets [step_rules]: "quiets E (apply_record E c request causes requested d po)"
  unfolding apply_record_def by (intro step_rules)

lemma apply_unrecorded_executes [exec_rules]: "executes live E (apply_unrecorded E i causes requested d po err)"
  unfolding apply_unrecorded_def by (intro exec_rules)

lemma apply_outcome_executes [exec_rules]: "executes live E (apply_outcome E i causes d result err)"
  unfolding apply_outcome_def by (intro exec_rules)

text \<open>After the decision record: a live command may be executed.\<close>

definition live_ready :: "ctx \<Rightarrow> EncodedCommand \<Rightarrow> Decision \<Rightarrow> EvidenceID \<Rightarrow> world \<Rightarrow> bool" where
  "live_ready c requested d i w \<longleftrightarrow> numbered w \<and> (dec_Permit d \<longrightarrow> (\<exists>dl. cx_Deadline c = Some dl
     \<and> decision_evidenced (au_policy w) requested dl i d (w_trace w)))"

lemma apply_record_steps:
  "steps (xstep (e_fire E) True) (\<lambda>w. numbered w \<and> (dec_Permit d \<longrightarrow> backed (au_policy w) c po))
     (apply_record E c request causes requested d po)
     (\<lambda>r w. numbered w \<and> (snd r = nil \<longrightarrow> live_ready c requested d (fst r) w))"
proof -
  let ?recording = "apply_record E c request causes requested d po"
  have stable: "stable_under (quiet fire) (\<lambda>w. numbered w \<and> au_policy w = pol)" for fire pol
    using xstep_numbered [of fire live] by (auto simp: stable_under_def quiet_frame intro: xstep.quiet)
  have "steps (quiet (e_fire E)) (\<lambda>w. (dec_Permit d \<longrightarrow> backed pol c po) \<and> numbered w \<and> au_policy w = pol)
      ?recording (\<lambda>r w. numbered w \<and> (snd r = nil \<longrightarrow> live_ready c requested d (fst r) w))" for pol
  proof (cases "backed pol c po")
    case True
    from steps_frame [OF record_decision_post [OF True] stable] show ?thesis
      by (rule steps_conseq) (auto simp: live_ready_def)
  next
    case False
    then show ?thesis
      using steps_frame [OF apply_record_quiets [of E c request causes requested d po] stable [of "e_fire E" pol]]
      by (cases "dec_Permit d") (auto simp: steps_def live_ready_def)
  qed
  then have "steps (quiet (e_fire E)) (\<lambda>w. \<exists>pol. (dec_Permit d \<longrightarrow> backed pol c po) \<and> numbered w \<and> au_policy w = pol)
      ?recording (\<lambda>r w. numbered w \<and> (snd r = nil \<longrightarrow> live_ready c requested d (fst r) w))"
    by (rule steps_exists)
  then show ?thesis
    by (rule steps_mono [OF steps_pre]) (auto intro: xstep.quiet)
qed

lemma executeLocked_selected:
  "steps (xstep (e_fire E) True) (\<lambda>w. live_ready c requested d i w \<and> w' = w)
     (executeLocked E c requested (if dec_Permit d then requested else au_safe w') d i causes
       (\<not> dec_Permit d) reason) (\<lambda>_. numbered)"
proof -
  have "steps (xstep (e_fire E) True) (\<lambda>w. live_ready c requested d i w \<and> w' = w)
     (executeLocked E c requested (if dec_Permit d then requested else au_safe w') d i causes
       (\<not> dec_Permit d) reason) anyhow"
    by (rule steps_mono [OF steps_pre [OF executeLocked_steps]])
      (auto simp: executable_def live_ready_def intro: xstep_mono)
  from steps_frame [OF this xstep_numbered] show ?thesis
    by (rule steps_conseq) (auto simp: live_ready_def)
qed

section \<open>What an execution without error returns\<close>

abbreviation yields :: "'a act \<Rightarrow> ('a \<Rightarrow> bool) \<Rightarrow> bool" where
  "yields m R \<equiv> steps (\<lambda>_ _. True) always m (\<lambda>r _. R r)"

lemma yields_any: "steps (\<lambda>_ _. True) P m anyhow"
  by (auto simp: steps_def intro: r_into_rtranclp)

lemma yields_bind: "(\<And>r. yields (f r) R) \<Longrightarrow> yields (State_Monad.bind m f) R"
  by (rule steps_bind [OF yields_any])

lemma yields_ret: "R r \<Longrightarrow> yields (State_Monad.return r) R"
  by (auto simp: steps_def intro: r_into_rtranclp)

lemma yields_after:
  assumes "yields m S" and "\<And>r. S r \<Longrightarrow> yields (f r) R"
  shows "yields (State_Monad.bind m f) R"
  using assms by (auto simp: steps_def case_prod_unfold)

lemma steps_yields:
  assumes "steps rel P m Q" and "yields m R"
  shows "steps rel P m (\<lambda>r w. Q r w \<and> R r)"
  using assms by (auto simp: steps_def)

text \<open>A live command whose outcome is settled: acknowledged, with evidence of the acknowledgement.\<close>

definition settled_live :: "ApplyResult \<Rightarrow> bool" where
  "settled_live result \<longleftrightarrow> \<not> ar_Fallback result \<and> acknowledged result \<and> ar_OutcomeEvidenceID result \<noteq> []"

abbreviation settles :: "ApplyResult \<times> go_error \<Rightarrow> bool" where
  "settles r \<equiv> snd r = nil \<longrightarrow> settled_live (fst r)"

lemma commit_identifies: "yields (commit E c r) (\<lambda>x. snd x = nil \<longrightarrow> fst x \<noteq> [])"
  unfolding commit_def commit_stamped_def Let_def
  by (intro yields_bind steps_if steps_case_prod) (auto simp: steps_def split: prod.splits)

lemma classify_fails: "yields (classifyActuatorError E c err) (\<lambda>e. e \<noteq> nil)"
  unfolding classifyActuatorError_def by (intro yields_bind yields_ret) simp

lemma abort_fails: "cause \<noteq> nil \<Longrightarrow> yields (abortUnsent E x result cause) settles"
  unfolding abortUnsent_def by (intro yields_bind steps_case_prod yields_ret) simp

lemma record_outcome_settles:
  assumes "\<not> ar_Fallback result"
  shows "yields (record_outcome E c x envelope result sentID ack err) settles"
  unfolding record_outcome_def Let_def
  by (intro yields_bind yields_after [OF commit_identifies] steps_case_prod)
    (use assms in \<open>auto simp: steps_def settled_live_def acknowledged_def\<close>)

lemma finish_ack_settles:
  assumes "\<not> ar_Fallback result"
  shows "yields (finish_ack E c x envelope result sentID received err) settles"
  unfolding finish_ack_def
  by (intro steps_if yields_bind yields_after [OF classify_fails] record_outcome_settles [OF assms])
    (simp add: steps_def)

lemma transmit_settles:
  assumes "\<not> ar_Fallback result" and "\<not> ex_Fallback x"
  shows "yields (transmit E c x envelope result err) settles"
proof -
  have sent: "yields (after_send E c x envelope result r e) settles" for r e
    unfolding after_send_def
    using assms(2) by (simp only: if_False simp_thms)
      (intro yields_bind steps_case_prod steps_if finish_ack_settles [OF assms(1)] yields_ret; simp)
  have lost: "yields (State_Monad.bind (classifyActuatorError E c e) (\<lambda>classified.
      State_Monad.bind (recordActuatorError E c envelope p q cs e) (\<lambda>recordErr.
        State_Monad.return (result, err @ classified @ recordErr)))) settles" for e p q cs
    by (intro yields_after [OF classify_fails] yields_bind yields_ret) simp
  show ?thesis
    unfolding transmit_def Let_def
    by (intro yields_bind steps_case_prod) (auto intro: sent lost split: option.splits list.splits)
qed

lemma issue_settles:
  assumes "\<not> ar_Fallback result" and "\<not> ex_Fallback x"
  shows "yields (issue E c x d result t err) settles"
  unfolding issue_def Let_def
  using assms by (intro yields_bind steps_if steps_case_prod transmit_settles abort_fails yields_ret) auto

lemma executeLocked_settles: "yields (executeLocked E c requested applied d i causes False reason) settles"
proof -
  have stamped: "yields (stamp E c x d result err) settles"
    if "\<not> ar_Fallback result" "\<not> ex_Fallback x" for c x result err
    unfolding stamp_def
    by (intro yields_bind steps_case_prod steps_if issue_settles abort_fails that) auto
  show ?thesis
    unfolding executeLocked_def Let_def
    by (intro yields_bind steps_case_prod steps_if abort_fails stamped) auto
qed

lemma selected_settles:
  "yields (executeLocked E c requested (if dec_Permit d then requested else au_safe w) d i causes
     (\<not> dec_Permit d) reason) (\<lambda>r. dec_Permit d \<longrightarrow> settles r)"
  using executeLocked_settles [of E c requested requested d i causes reason] yields_any
  by (cases "dec_Permit d") auto

text \<open>\<open>Q\<close> is what the two ways to end, without evidence of the decision or with the outcome of the
  command, guarantee.\<close>

lemma apply_decided_steps:
  assumes "\<And>result err. (dec_Permit d \<Longrightarrow> settles (result, err)) \<Longrightarrow>
      steps (xstep (e_fire E) True) numbered (apply_outcome E i causes d result err) Q"
    and "\<And>err. steps (xstep (e_fire E) True) numbered (apply_unrecorded E i causes requested d po err) Q"
  shows "steps (xstep (e_fire E) True) (\<lambda>w. numbered w \<and> (dec_Permit d \<longrightarrow> backed (au_policy w) c po))
     (apply_decided E c i request causes requested d po) Q"
  unfolding apply_decided_def
proof (rule steps_bind [OF apply_record_steps], rule steps_case_prod, rule steps_if)
  fix r :: "EvidenceID \<times> go_error" and j err
  assume r: "r = (j, err)" and "\<not> err \<noteq> nil"
  have outcome: "steps (xstep (e_fire E) True) (\<lambda>w. numbered w \<and> (dec_Permit d \<longrightarrow> settles (result, applyErr)))
      (apply_outcome E i causes d (result\<lparr>ar_Policy := po\<rparr>) applyErr) Q" for result applyErr
  proof (cases "dec_Permit d \<longrightarrow> settles (result, applyErr)")
    case True
    then have "dec_Permit d \<Longrightarrow> settles (result\<lparr>ar_Policy := po\<rparr>, applyErr)"
      by (simp add: settled_live_def acknowledged_def)
    then show ?thesis by (rule steps_pre [OF assms(1)]) auto
  next
    case False
    then show ?thesis by (simp add: steps_def)
  qed
  from r \<open>\<not> err \<noteq> nil\<close> show "steps (xstep (e_fire E) True) (\<lambda>w. numbered w \<and> (snd r = nil \<longrightarrow> live_ready c requested d (fst r) w))
      (State_Monad.bind State_Monad.get (\<lambda>w. State_Monad.bind
        (executeLocked E c requested (if dec_Permit d then requested else au_safe w) d j causes
          (\<not> dec_Permit d) (if dec_Permit d then rq_Detail request else decisionReason d))
        (\<lambda>(result, applyErr). apply_outcome E i causes d (result\<lparr>ar_Policy := po\<rparr>) applyErr))) Q"
    by (intro steps_bind [OF steps_fetch] steps_bind [OF steps_pre [OF steps_yields [OF executeLocked_selected selected_settles]]]
        steps_case_prod steps_pre [OF outcome]) auto
next
  show "steps (xstep (e_fire E) True) (\<lambda>w. numbered w \<and> (snd r = nil \<longrightarrow> live_ready c requested d (fst r) w))
      (apply_unrecorded E i causes requested d po err) Q" for r err
    by (rule steps_pre [OF assms(2)]) simp
qed

end
