(* ===== verification/AuthorityOps.thy ===== *)
theory AuthorityOps
  imports AuthorityRefinement
begin

text \<open>
  The whole operations refine the protocol: Apply, Bind, Arm, Reset, Disarm, EmergencyStop
  and Close, and hence every serialized history of them.
\<close>

section \<open>Between operations\<close>

text \<open>Between two operations no live command is being sent.\<close>

definition at_rest :: "world \<Rightarrow> bool" where
  "at_rest w \<longleftrightarrow> numbered w \<and> \<not> au_activeSending w"

abbreviation operates :: "env \<Rightarrow> 'a act \<Rightarrow> bool" where
  "operates E m \<equiv> steps (astep (e_fire E)) at_rest m (\<lambda>_. at_rest)"

lemma astep_numbered: "stable_under (astep fire) numbered"
  unfolding stable_under_def
proof (intro allI impI)
  fix w w' assume "astep fire w w'" and n: "numbered w"
  then show "numbered w'"
  proof cases
    case (exec live)
    with n show ?thesis using xstep_numbered [of fire live] by (auto simp: stable_under_def)
  qed (use n in \<open>auto simp: numbered_def reassert_def\<close>)
qed

lemma fallback_keeps_rest: "stable_under (xstep fire False) at_rest"
  unfolding stable_under_def
proof (intro allI impI)
  fix w w' assume x: "xstep fire False w w'" and r: "at_rest w"
  then have "numbered w'"
    using xstep_numbered [of fire False] by (auto simp: stable_under_def at_rest_def)
  moreover from x r have "\<not> au_activeSending w'"
    by cases (auto simp: quiet_frame at_rest_def)
  ultimately show "at_rest w'" by (simp add: at_rest_def)
qed

lemma exec_steps: "steps (xstep fire live) P m Q \<Longrightarrow> steps (astep fire) P m Q"
  by (erule steps_mono) (rule astep.exec)

lemma executes_operates: "executes False E m \<Longrightarrow> operates E m"
proof -
  assume m: "executes False E m"
  have "steps (xstep (e_fire E) False) at_rest m (\<lambda>_. at_rest)"
    using steps_frame [OF m fallback_keeps_rest] by (rule steps_conseq) (auto simp: at_rest_def)
  then show ?thesis by (rule exec_steps)
qed

lemma operates_bind: "operates E m \<Longrightarrow> (\<And>r. operates E (f r)) \<Longrightarrow> operates E (State_Monad.bind m f)"
  by (rule steps_bind)

section \<open>Apply\<close>

lemma currentTime_executes: "executes live E (currentTime E c)"
  by (intro exec_rules)

lemma evaluatePolicy_steps:
  "steps (xstep (e_fire E) live) numbered (evaluatePolicy E c requested d)
     (\<lambda>(p, err) w. numbered w \<and> (err = nil \<longrightarrow> pd_Permit p \<and> pd_PolicyID p \<noteq> [] \<and> pd_Subject p \<noteq> []
        \<and> pd_Authorization p \<noteq> []))"
proof -
  let ?Q = "\<lambda>(p, err) w. numbered w \<and> (err = nil \<longrightarrow> pd_Permit p \<and> pd_PolicyID p \<noteq> [] \<and> pd_Subject p \<noteq> []
        \<and> pd_Authorization p \<noteq> [])"
  have expire: "executes live E (modify (\<lambda>w. if au_previousLiveExpiry w \<noteq> zero_time \<and> \<not> now < au_previousLiveExpiry w
      then w\<lparr>au_previousApplied := None, au_previouslyAppliedAt := zero_time\<rparr> else w))" for now
  proof -
    have "xstep (e_fire E) live w (w\<lparr>au_previousApplied := None, au_previouslyAppliedAt := zero_time\<rparr>)" for w
      using xstep.clear [of "e_fire E" live w "au_previousLiveExpiry w" zero_time] by simp
    then show ?thesis
      by (auto simp: steps_def modify_def numbered_def)
  qed
  have refused: "steps rel numbered (State_Monad.return (p, a # err)) ?Q" for rel p a err
    by (simp add: steps_def)
  show ?thesis
    unfolding evaluatePolicy_def
    by (intro steps_bind [OF currentTime_executes] steps_case_prod steps_if refused steps_bind [OF expire]
        steps_bind [OF executes_fetch] steps_bind [OF quiet_executes(20)])
      (auto simp: steps_def)
qed

lemma apply_active_steps:
  assumes "cx_Deadline opCtx = Some dl"
    and outcome: "\<And>causes result err. (dec_Permit d \<Longrightarrow> settles (result, err)) \<Longrightarrow>
        steps (xstep (e_fire E) True) numbered (apply_outcome E i causes d result err) Q"
    and unrecorded: "\<And>causes po err. steps (xstep (e_fire E) True) numbered
        (apply_unrecorded E i causes requested d po err) Q"
    and refused: "\<And>causes p err. steps (xstep (e_fire E) True) numbered (apply_refused E i causes requested d p err) Q"
  shows "steps (xstep (e_fire E) True) numbered (apply_active E opCtx i request requested d) Q"
proof -
  note decided = apply_decided_steps [where Q = Q, OF outcome unrecorded]
  have permitted: "steps (xstep (e_fire E) True) (\<lambda>w. numbered w \<and> (err = nil \<longrightarrow> pd_Permit p \<and> pd_PolicyID p \<noteq> []
        \<and> pd_Subject p \<noteq> [] \<and> pd_Authorization p \<noteq> []))
      (if err \<noteq> nil then apply_refused E i causes requested d p err
       else apply_decided E (with_deadline opCtx (pd_ExpiresAt p)) i request causes requested d (Some p)) Q"
    for p err causes
    by (intro steps_if steps_pre [OF refused] steps_pre [OF decided]) (auto simp: backed_def with_deadline_def assms(1))
  have unlimited: "steps (xstep (e_fire E) True) (\<lambda>w. numbered w \<and> (dec_Permit d \<longrightarrow> \<not> au_policy w))
      (apply_decided E opCtx i request causes requested d None) Q" for causes
    by (rule steps_pre [OF decided]) (auto simp: backed_def assms(1))
  show ?thesis
    unfolding apply_active_def Let_def
    by (intro steps_bind [OF steps_fetch] steps_if steps_bind [OF steps_pre [OF evaluatePolicy_steps]]
        steps_case_prod steps_pre [OF unlimited] steps_pre [OF permitted]) auto
qed

lemma apply_active_executes:
  assumes "cx_Deadline opCtx = Some dl"
  shows "steps (xstep (e_fire E) True) numbered (apply_active E opCtx i request requested d) (\<lambda>_. numbered)"
  by (intro apply_active_steps [OF assms] exec_rules)

text \<open>\<open>beginApply\<close> refuses, or starts an active command whose context has a deadline.\<close>

abbreviation begun_post :: "go_error + ctx \<times> Decision \<times> u64 \<Rightarrow> world \<Rightarrow> bool" where
  "begun_post r w \<equiv> (case r of Inl err \<Rightarrow> at_rest w
     | Inr (c, d, i) \<Rightarrow> numbered w \<and> au_active w = i \<and> cx_Deadline c \<noteq> None)"

lemma commandContext_deadline:
  "steps (idle (e_fire E)) always (commandContext E c) (\<lambda>c' w. cx_Deadline c' \<noteq> None)"
  using commandContext_idle [of E c]
  by (auto simp: steps_def commandContext_def with_timeout_def with_deadline_def next_tick_def)

lemma beginApply_steps: "steps (astep (e_fire E)) at_rest (beginApply E c) begun_post"
proof -
  let ?P = "\<lambda>w. at_rest w \<and> \<not> au_closed w \<and> au_bound w"
  have yielded: "operates E (yield_point E)"
    by (rule executes_operates) (intro exec_rules)
  have ctx: "steps (astep (e_fire E)) ?P (commandContext E c) (\<lambda>c' w. ?P w \<and> cx_Deadline c' \<noteq> None)"
    by (auto simp: steps_def commandContext_def with_timeout_def with_deadline_def next_tick_def at_rest_def
        numbered_def intro!: r_into_rtranclp astep.exec xstep.quiet quiet.idle idle.tick)
  have evaluated: "steps (astep (e_fire E)) (\<lambda>w. ?P w \<and> x) (evaluate_guard E) (\<lambda>_ w. ?P w \<and> x)" for x
  proof -
    have "(astep (e_fire E))\<^sup>*\<^sup>* w (snd (run_state (evaluate_guard E) w))" for w
      by (rule stepsD [OF exec_steps [OF idles_steps [OF evaluate_idle, where live = False]]]) simp
    then show ?thesis
      by (auto simp: steps_def evaluate_guard_def guard_call_def next_tick_def modify_def Let_def
          case_prod_unfold at_rest_def numbered_def)
  qed
  have started: "steps (astep (e_fire E)) (\<lambda>w. ?P w \<and> cx_Deadline c' \<noteq> None)
      (State_Monad.bind (modify (\<lambda>w. w\<lparr>au_activeID := au_activeID w + 1, au_active := au_activeID w + 1,
         au_activeLive := dec_Permit d, au_activeSending := False,
         au_activeInput := d, au_activeCancel := True, w_cancelled := False\<rparr>))
        (\<lambda>_. State_Monad.bind State_Monad.get (\<lambda>w. State_Monad.return (Inr (c', d, au_active w)))))
      begun_post" for c' d
    by (auto simp: steps_def modify_def at_rest_def numbered_def intro: astep.begin_apply)
  show ?thesis
    unfolding beginApply_def
    by (intro steps_bind [OF yielded] steps_bind [OF steps_fetch] steps_if
        steps_bind [OF steps_pre [OF ctx]] steps_bind [OF evaluated] started)
      (auto simp: steps_def)
qed

lemma endApply_steps:
  "steps (astep (e_fire E)) (\<lambda>w. numbered w \<and> au_active w = i) (endApply E i) (\<lambda>_. at_rest)"
proof -
  have "steps (xstep (e_fire E) False) (\<lambda>w. numbered w \<and> au_active w = i) (yield_point E)
      (\<lambda>_ w. numbered w \<and> au_active w = i)"
    using steps_frame [OF quiet_executes(1), of E False "\<lambda>w. au_active w = i"]
    by (auto simp: steps_def stable_under_def xstep_frame)
  then have yielded: "steps (astep (e_fire E)) (\<lambda>w. numbered w \<and> au_active w = i) (yield_point E)
      (\<lambda>_ w. numbered w \<and> au_active w = i)"
    by (rule exec_steps)
  show ?thesis
    unfolding endApply_def
    by (rule steps_bind [OF yielded])
      (auto simp: steps_def modify_def at_rest_def numbered_def intro: astep.end_apply)
qed

lemma apply_run_steps:
  "steps (astep (e_fire E)) (begun_post (Inr (c, d, i)))
     (State_Monad.bind (apply_active E c i request requested d)
        (\<lambda>r. State_Monad.bind (endApply E i) (\<lambda>_. State_Monad.return r))) (\<lambda>_. at_rest)"
proof (cases "cx_Deadline c")
  case None
  then show ?thesis by (simp add: steps_def)
next
  case (Some dl)
  have active: "stable_under (xstep (e_fire E) True) (\<lambda>w. au_active w = i)"
    by (auto simp: stable_under_def xstep_frame)
  have "steps (astep (e_fire E)) (begun_post (Inr (c, d, i))) (apply_active E c i request requested d)
      (\<lambda>_ w. numbered w \<and> au_active w = i)"
    by (rule exec_steps [OF steps_pre [OF steps_frame [OF apply_active_executes [OF Some] active]]]) auto
  then show ?thesis
    by (rule steps_bind) (intro steps_bind [OF endApply_steps] steps_ret)
qed

lemma Apply_operates: "operates E (Apply E ctx0 request)"
proof -
  have quiet_ops: "operates E (validContext E co)" "operates E (acquire E c)" for co c
    by (rule executes_operates, intro exec_rules)+
  have invalid: "operates E (apply_invalid E request err)" for err
    by (rule executes_operates) (intro exec_rules)
  have finished: "operates E (State_Monad.return r)" for r
    by (simp add: steps_def)
  have begun: "steps (astep (e_fire E)) (begun_post b)
      (case b of Inl err \<Rightarrow> State_Monad.return (zero_result\<lparr>ar_Requested := requested\<rparr>, err)
       | Inr (c, d, i) \<Rightarrow> State_Monad.bind (apply_active E c i request requested d)
           (\<lambda>r. State_Monad.bind (endApply E i) (\<lambda>_. State_Monad.return r))) (\<lambda>_. at_rest)" for b requested
    using apply_run_steps by (cases b) (auto simp: steps_ret steps_def)
  show ?thesis
    unfolding Apply_def
    by (intro operates_bind [OF quiet_ops(1)] any_option any_if any_sum operates_bind [OF quiet_ops(2)]
        steps_bind [OF beginApply_steps] invalid finished begun)
qed


section \<open>Granting\<close>

text \<open>An operation that found the authority open at safety epoch \<open>n\<close>: only a safety action, which
  advances the epoch, can have closed it since.\<close>

definition open_since :: "nat \<Rightarrow> world \<Rightarrow> bool" where
  "open_since n w \<longleftrightarrow> n \<le> w_epochs w \<and> (w_epochs w = n \<longrightarrow> \<not> au_closed w)"

lemma idle_open: "stable_under (idle fire) (open_since n)"
  unfolding stable_under_def
proof (intro allI impI)
  fix w w' assume "idle fire w w'" and "open_since n w"
  then show "open_since n w'"
    by cases (auto simp: open_since_def cancelLiveApplyIfDecisionChanged_def tighten_def reassert_def Let_def
        case_prod_unfold)
qed

lemma xstep_open: "stable_under (xstep fire live) (open_since n)"
  unfolding stable_under_def
proof (intro allI impI)
  fix w w' assume "xstep fire live w w'" and o: "open_since n w"
  then show "open_since n w'"
  proof cases
    case quiet
    then show ?thesis
    proof cases
      case idle
      with o show ?thesis using idle_open by (auto simp: stable_under_def)
    qed (use o in \<open>auto simp: open_since_def\<close>)
  qed (use o in \<open>auto simp: open_since_def\<close>)
qed

abbreviation granting :: "nat \<Rightarrow> world \<Rightarrow> bool" where
  "granting e0 w \<equiv> at_rest w \<and> (\<exists>n\<ge>e0. open_since n w)"

lemma granting_stable: "stable_under (xstep fire False) (granting e0)"
  using fallback_keeps_rest [of fire] xstep_open [of fire False] unfolding stable_under_def by blast

lemma granting_steps:
  assumes "executes False E m"
  shows "steps (astep (e_fire E)) (granting e0) m (\<lambda>_. granting e0)"
proof -
  from steps_frame [OF assms granting_stable] have
    "steps (xstep (e_fire E) False) (granting e0) m (\<lambda>_. granting e0)"
    by (rule steps_conseq) (auto simp: at_rest_def)
  then show ?thesis by (rule exec_steps)
qed

lemma epochs_le: "stable_under (xstep fire live) (\<lambda>w. e0 \<le> w_epochs w)"
  unfolding stable_under_def
proof (intro allI impI)
  fix w w' assume "xstep fire live w w'" and e: "e0 \<le> w_epochs w"
  then show "e0 \<le> w_epochs w'"
  proof cases
    case quiet
    then show ?thesis
      by cases (use e in \<open>auto dest: idle_epochs\<close>)
  qed (use e in auto)
qed

lemma requireReady_steps:
  "steps (astep (e_fire E)) (\<lambda>w. at_rest w \<and> e0 \<le> w_epochs w) (requireReady E)
     (\<lambda>err w. at_rest w \<and> (err = nil \<longrightarrow> granting e0 w))"
proof -
  have "stable_under (xstep (e_fire E) False) (\<lambda>w. at_rest w \<and> e0 \<le> w_epochs w)"
    by (rule stable_conj [OF fallback_keeps_rest epochs_le])
  from steps_frame [OF quiet_executes(1) this] have
    yielded: "steps (astep (e_fire E)) (\<lambda>w. at_rest w \<and> e0 \<le> w_epochs w) (yield_point E)
      (\<lambda>_ w. at_rest w \<and> e0 \<le> w_epochs w)"
    by (rule exec_steps [OF steps_conseq]) (auto simp: at_rest_def)
  show ?thesis
    unfolding requireReady_def
    by (intro steps_bind [OF yielded] steps_bind [OF steps_fetch]) (auto simp: steps_def open_since_def)
qed

text \<open>When the epoch is still the one read at the beginning, nothing closed the authority.\<close>

lemma same_epoch_open:
  assumes "granting e0 w" and "au_safetyEpoch w = of_nat e0" and "w_epochs w < 2 ^ 64"
  shows "\<not> au_closed w"
proof -
  from assms(1) obtain n where n: "e0 \<le> n" "open_since n w" "au_safetyEpoch w = of_nat (w_epochs w)"
    by (auto simp: at_rest_def numbered_def)
  with assms(2) have "(of_nat e0 :: u64) = of_nat (w_epochs w)" by simp
  moreover from n have "e0 \<le> w_epochs w" by (auto simp: open_since_def)
  ultimately have "e0 = w_epochs w"
    using assms(3) by (simp add: word_of_nat_eq_iff take_bit_nat_eq_self)
  with n show ?thesis by (auto simp: open_since_def)
qed


definition still_open :: "world \<Rightarrow> bool" where
  "still_open w \<longleftrightarrow> (w_epochs w < 2 ^ 64 \<longrightarrow> \<not> au_closed w)"

lemma granting_still_open: "granting e0 w \<Longrightarrow> au_safetyEpoch w = of_nat e0 \<Longrightarrow> still_open w"
  unfolding still_open_def using same_epoch_open by blast

lemma tick_astep: "astep fire w (w\<lparr>w_tick := n\<rparr>)"
  by (intro astep.exec xstep.quiet quiet.idle idle.tick)

lemma next_tick_keeps:
  assumes "\<And>w n. P (w\<lparr>w_tick := n\<rparr>) = P w"
  shows "steps (astep fire) P next_tick (\<lambda>_. P)"
  using tick_astep by (auto simp: steps_def next_tick_def assms)

lemma rest_tick [simp]: "at_rest (w\<lparr>w_tick := n\<rparr>) = at_rest w" "still_open (w\<lparr>w_tick := n\<rparr>) = still_open w"
  by (simp_all add: at_rest_def numbered_def still_open_def)

lemma rest_guard [simp]: "at_rest (w\<lparr>au_guard := g\<rparr>) = at_rest w"
  by (simp add: at_rest_def numbered_def)

lemma guard_call_rest:
  assumes "\<And>w v. still_open w \<Longrightarrow> astep (e_fire E) w (w\<lparr>au_guard := fst (f (au_guard w) v)\<rparr>)"
  shows "steps (astep (e_fire E)) (\<lambda>w. at_rest w \<and> still_open w) (guard_call E f) (\<lambda>_. at_rest)"
proof -
  have "steps (astep (e_fire E)) still_open (guard_call E f) anyhow"
    by (rule guard_call_steps) (auto intro: assms tick_astep)
  then show ?thesis
    by (auto simp: steps_def guard_call_def next_tick_def modify_def Let_def case_prod_unfold at_rest_def numbered_def)
qed

lemma arm_guard_rest: "steps (astep (e_fire E)) (\<lambda>w. at_rest w \<and> still_open w) (arm_guard E) (\<lambda>_. at_rest)"
  unfolding arm_guard_def
proof (intro steps_bind [OF next_tick_keeps] steps_bind [OF guard_call_rest] steps_ret)
  fix t w v
  show "still_open w \<Longrightarrow>
    astep (e_fire E) w (w\<lparr>au_guard := fst (guard_Arm (e_fire E) (au_guard w) v (e_view E t))\<rparr>)"
    using astep.arm [of w "e_fire E" v "e_view E t"] by (simp add: still_open_def)
qed simp

lemma reset_guard_rest: "steps (astep (e_fire E)) (\<lambda>w. at_rest w \<and> still_open w) (reset_guard E d) (\<lambda>_. at_rest)"
  unfolding reset_guard_def
proof (rule guard_call_rest)
  show "still_open w \<Longrightarrow> astep (e_fire E) w (w\<lparr>au_guard := fst (guard_Reset (e_fire E) d (au_guard w) v, ())\<rparr>)"
    for w v
    using astep.reset [of w "e_fire E" d v] by (simp add: still_open_def)
qed

lemma permissive_action_rest:
  "steps (astep (e_fire E)) (\<lambda>w. at_rest w \<and> still_open w) (permissive_action E action detail) (\<lambda>_. at_rest)"
  unfolding permissive_action_def
  by (intro steps_if arm_guard_rest steps_bind [OF reset_guard_rest] steps_ret)

lemma grant_rest:
  "steps (astep (e_fire E)) (granting e0) (grant E action detail (of_nat e0) readinessErr) (\<lambda>_. at_rest)"
proof -
  have yielded: "steps (astep (e_fire E)) (granting e0) (yield_point E) (\<lambda>_. granting e0)"
    by (rule granting_steps) (intro exec_rules)
  have decided: "steps (astep (e_fire E)) (\<lambda>w. granting e0 w \<and> w' = w)
      (if readinessErr \<noteq> nil then State_Monad.return readinessErr
       else if au_safetyEpoch w' \<noteq> of_nat e0 then State_Monad.return [ErrAuthorityRevoked]
       else permissive_action E action detail) (\<lambda>_. at_rest)" for w'
    by (intro steps_if steps_pre [OF permissive_action_rest])
      (auto simp: steps_def intro: granting_still_open)
  have revoked: "operates E (if action = LifecycleArm \<and> err \<noteq> nil
      then State_Monad.bind (yield_locked E) (\<lambda>_. disarm_guard E ''arm attempt failed'')
      else State_Monad.return ())" for err
    by (rule executes_operates) (intro exec_rules)
  show ?thesis
    unfolding grant_def
    by (intro steps_bind [OF yielded] steps_bind [OF steps_fetch] steps_bind [OF decided]
        steps_bind [OF revoked] steps_ret)
qed

lemma fallback_now_executes [exec_rules]: "executes live E (fallback_now E reason)"
  unfolding fallback_now_def by (intro exec_rules)

lemma arm_readiness_executes [exec_rules]: "executes live E (arm_readiness E action)"
  unfolding arm_readiness_def by (intro exec_rules)

lemma permissive_outcome_executes [exec_rules]: "executes live E (permissive_outcome E c action detail attempt err)"
  unfolding permissive_outcome_def by (intro exec_rules)

lemma permissive_serial_rest:
  "steps (astep (e_fire E)) (\<lambda>w. at_rest w \<and> e0 \<le> w_epochs w)
     (permissive_serial E c action detail (of_nat e0)) (\<lambda>_. at_rest)"
proof -
  have attempt: "steps (astep (e_fire E)) (granting e0)
      (commit E c (lifecycle_record EvidenceLifecycleAttempt action detail False)) (\<lambda>_. granting e0)"
    by (rule granting_steps) (intro exec_rules)
  have readiness: "steps (astep (e_fire E)) (granting e0) (arm_readiness E action) (\<lambda>_. granting e0)"
    by (rule granting_steps) (intro exec_rules)
  have outcome: "operates E (permissive_outcome E c action detail attempt err)" for attempt err
    by (rule executes_operates) (intro exec_rules)
  have unrecorded: "operates E (State_Monad.bind (inhibit E ''lifecycle evidence unavailable'')
      (\<lambda>_. State_Monad.bind (fallback_now E ''lifecycle evidence unavailable'')
        (\<lambda>fallbackErr. State_Monad.return (err @ fallbackErr))))" for err
    by (rule executes_operates) (intro exec_rules)
  show ?thesis
    unfolding permissive_serial_def
    by (rule steps_bind [OF requireReady_steps], rule steps_if, simp add: steps_def)
      (intro steps_pre [OF steps_bind [OF attempt]] steps_case_prod steps_if steps_pre [OF unrecorded]
        steps_bind [OF readiness] steps_bind [OF grant_rest] outcome; simp)
qed


lemma permissiveLifecycle_operates: "operates E (permissiveLifecycle E ctx0 action detail)"
proof -
  have quiet_ops: "operates E (validContext E co)" "operates E (yield_point E)" for co
    by (rule executes_operates, intro exec_rules)+
  have "stable_under (xstep (e_fire E) False) (\<lambda>w. at_rest w \<and> n \<le> w_epochs w)" for n
    by (rule stable_conj [OF fallback_keeps_rest epochs_le])
  from steps_frame [OF quiet_executes(18) this] have
    acquired: "steps (astep (e_fire E)) (\<lambda>w. at_rest w \<and> n \<le> w_epochs w) (acquire E c)
      (\<lambda>_ w. at_rest w \<and> n \<le> w_epochs w)" for n c
    by (rule exec_steps [OF steps_conseq]) (auto simp: at_rest_def)
  have serial: "steps (astep (e_fire E)) (\<lambda>w. at_rest w \<and> w' = w)
      (State_Monad.bind (acquire E c) (\<lambda>err. if err \<noteq> nil then State_Monad.return err
        else permissive_serial E c action detail (au_safetyEpoch w'))) (\<lambda>_. at_rest)" for c w'
  proof (cases "au_safetyEpoch w' = of_nat (w_epochs w')")
    case True
    show ?thesis
      unfolding True
      by (intro steps_bind [OF steps_pre [OF acquired [of "w_epochs w'"]]] steps_if permissive_serial_rest)
        (auto simp: steps_def)
  qed (simp add: steps_def at_rest_def numbered_def)
  show ?thesis
    unfolding permissiveLifecycle_def
    by (intro operates_bind [OF quiet_ops(1)] any_option any_if operates_bind [OF quiet_ops(2)]
        steps_bind [OF steps_fetch] serial) (auto simp: steps_def)
qed

section \<open>Tightening\<close>

lemma reassert_operates: "operates E (modify (reassert (e_fire E) action detail cl v))"
proof (rule steps_modify)
  show "astep (e_fire E) w (reassert (e_fire E) action detail cl v w)" for w
    by (rule astep.reassert)
qed (simp add: reassert_def at_rest_def numbered_def)

lemma tighten_operates: "operates E (modify (tighten (e_fire E) action detail cl v))"
proof (rule steps_modify)
  show "astep (e_fire E) w (tighten (e_fire E) action detail cl v w)" for w
    by (intro astep.exec xstep.quiet quiet.idle idle.tighten)
qed (simp add: tighten_def reassert_def at_rest_def numbered_def)

lemma safe_serial_operates: "operates E (safe_serial E action detail cl t err)"
proof -
  have attempt: "operates E (State_Monad.bind (safetyContext E) (\<lambda>safeCtx. State_Monad.bind (commit E safeCtx r)
      (\<lambda>(attempt, attemptErr). State_Monad.bind (commit E safeCtx (r' attempt)) (\<lambda>(_, outcomeErr).
        State_Monad.bind (yield_point E) (\<lambda>_. State_Monad.bind (evaluate_guard E) (\<lambda>decision.
          State_Monad.bind (executeFallbackLocked E decision [] reason) (\<lambda>(_, fallbackErr).
            State_Monad.return (err @ attemptErr @ outcomeErr @ fallbackErr))))))))" for r r' reason
    by (rule executes_operates) (intro exec_rules)
  have quiet_ops: "operates E (yield_point E)" "operates E next_tick"
    by (rule executes_operates, intro exec_rules)+
  show ?thesis
    unfolding safe_serial_def
    by (intro operates_bind [OF quiet_ops(1)] operates_bind [OF quiet_ops(2)] operates_bind [OF reassert_operates] attempt)
qed

lemma safe_request_operates: "operates E (safe_request E action detail cl)"
proof -
  have quiet_ops: "operates E (yield_point E)" "operates E next_tick" "operates E (safetyContext E)"
    "operates E (currentTime E c)" for c
    by (rule executes_operates, intro exec_rules)+
  show ?thesis
    unfolding safe_request_def
    by (intro operates_bind [OF quiet_ops(1)] operates_bind [OF quiet_ops(2)] operates_bind [OF tighten_operates]
        operates_bind [OF quiet_ops(3)] operates_bind [OF quiet_ops(4)] steps_case_prod) (simp add: steps_def)
qed

lemma safe_finish_operates: "operates E (safe_finish E action detail cl occurred)"
proof -
  have "operates E (acquireSafety E)"
    by (rule executes_operates, intro exec_rules)
  then show ?thesis
    unfolding safe_finish_def
    by (intro operates_bind any_if safe_serial_operates) (simp_all add: steps_def)
qed

lemma safeLifecycle_operates: "operates E (safeLifecycle E action detail cl)"
  unfolding safeLifecycle_def
  by (intro operates_bind [OF safe_request_operates] safe_finish_operates)


section \<open>Binding\<close>

lemma terminateBound_operates: "operates E (terminateBound E detail)"
proof -
  have stop: "(\<lambda>w. w\<lparr>au_closed := True,
      au_guard := guard_EmergencyStop (e_fire E) detail (au_guard w) v,
      w_cancelled := (w_cancelled w \<or> au_activeCancel w)\<rparr>)
    = reassert (e_fire E) LifecycleEmergencyStop detail True v" for v
    by (rule ext) (simp add: reassert_def safe_guard_def)
  have quiet_ops: "operates E (yield_point E)" "operates E next_tick"
    by (rule executes_operates, intro exec_rules)+
  show ?thesis
    unfolding terminateBound_def stop
    by (intro operates_bind [OF quiet_ops(1)] operates_bind [OF quiet_ops(2)] reassert_operates)
qed

lemma bind_bootstrap_operates: "operates E (bind_bootstrap E)"
proof -
  have quiet_ops: "operates E (yield_point E)" "operates E (evaluate_guard E)" "operates E (locked_heartbeat E)"
    "operates E (executeFallbackLocked E d [] reason)" for d reason
    by (rule executes_operates, intro exec_rules)+
  have finished: "operates E (State_Monad.return x)" for x
    by (simp add: steps_def)
  show ?thesis
    unfolding bind_bootstrap_def
    by (intro operates_bind [OF quiet_ops(1)] operates_bind [OF quiet_ops(2)] operates_bind [OF quiet_ops(4)]
        steps_case_prod operates_bind any_if quiet_ops(3) terminateBound_operates finished)
qed

abbreviation unbound :: "world \<Rightarrow> bool" where
  "unbound w \<equiv> at_rest w \<and> \<not> au_bound w"

lemma unbound_steps:
  assumes "executes False E m"
  shows "steps (astep (e_fire E)) unbound m (\<lambda>_. unbound)"
proof -
  have "stable_under (xstep (e_fire E) False) unbound"
    using fallback_keeps_rest [of "e_fire E"] by (auto simp: stable_under_def xstep_frame)
  from steps_frame [OF assms this] have "steps (xstep (e_fire E) False) unbound m (\<lambda>_. unbound)"
    by (rule steps_conseq) (auto simp: at_rest_def)
  then show ?thesis by (rule exec_steps)
qed

lemma session_steps: "steps (astep (e_fire E)) unbound (modify (\<lambda>w. w\<lparr>au_session := s\<rparr>)) (\<lambda>_. unbound)"
  by (rule steps_modify) (auto simp: at_rest_def numbered_def intro: astep.session)

lemma clear_session_operates: "steps (astep (e_fire E)) unbound (clear_session E) (\<lambda>_. unbound)"
  unfolding clear_session_def
  by (intro steps_bind [OF unbound_steps] session_steps exec_rules)

lemma bind_guard_steps: "steps (astep (e_fire E)) unbound (bind_guard E src) (\<lambda>_. unbound)"
proof -
  have "steps (astep (e_fire E)) always (bind_guard E src) anyhow"
    unfolding bind_guard_def
  proof (rule guard_call_steps)
    show "astep (e_fire E) w (w\<lparr>au_guard := fst (guard_Bind (au_guard w) (Some src) v)\<rparr>)" for w :: world and v
      using astep.bind_guard [of "e_fire E" w "Some src" v] by simp
  qed (auto intro: tick_astep)
  then show ?thesis
    by (auto simp: steps_def bind_guard_def guard_call_def next_tick_def modify_def Let_def case_prod_unfold
        at_rest_def numbered_def)
qed

definition bind_recorded :: "env \<Rightarrow> ctx \<Rightarrow> session_id \<Rightarrow> EvidenceID \<Rightarrow> go_error \<Rightarrow> go_error act" where
  "bind_recorded E c session attempt bindErr = do {
     (_, outcomeErr) \<leftarrow> commit E c
       ((lifecycle_record EvidenceLifecycleOutcome LifecycleBind (session_String session) (bindErr = nil))
          \<lparr>er_ParentID := attempt, er_Error := bindErr\<rparr>);
     if bindErr \<noteq> nil then do { clear_session E; ret (bindErr @ outcomeErr) }
     else if outcomeErr \<noteq> nil then do {
       terminateBound E ''bind outcome evidence unavailable'';
       yield_point E;
       decision \<leftarrow> evaluate_guard E;
       (_, fallbackErr) \<leftarrow> executeFallbackLocked E decision [] ''bind outcome evidence unavailable'';
       ret (outcomeErr @ fallbackErr)
     }
     else bind_bootstrap E
   }"

lemma bind_recorded_failed:
  assumes "bindErr \<noteq> nil"
  shows "steps (astep (e_fire E)) unbound (bind_recorded E c session attempt bindErr) (\<lambda>_. at_rest)"
  unfolding bind_recorded_def if_P [OF assms]
  by (intro steps_bind [OF unbound_steps] steps_case_prod steps_bind [OF clear_session_operates] exec_rules)
    (simp add: steps_def)

lemma bind_recorded_ok: "operates E (bind_recorded E c session attempt nil)"
proof -
  have quiet_ops: "operates E (commit E c r)" for r
    by (rule executes_operates) (intro exec_rules)
  have tail: "operates E (State_Monad.bind (yield_point E) (\<lambda>_. State_Monad.bind (evaluate_guard E) (\<lambda>decision.
      State_Monad.bind (executeFallbackLocked E decision [] reason) (\<lambda>(_, fallbackErr).
        State_Monad.return (err @ fallbackErr)))))" for reason err
    by (rule executes_operates) (intro exec_rules)
  show ?thesis
    unfolding bind_recorded_def
    by (intro operates_bind [OF quiet_ops] steps_case_prod any_if operates_bind [OF terminateBound_operates] tail
        bind_bootstrap_operates) simp
qed

lemma bind_serial_operates: "operates E (bind_serial E c src session)"
proof -
  have yielded: "operates E (yield_point E)"
    by (rule executes_operates) (intro exec_rules)
  have bound: "steps (astep (e_fire E)) unbound
      (State_Monad.bind (modify (\<lambda>w. if err = nil then w\<lparr>au_source := Some src, au_bound := True\<rparr> else w))
        (\<lambda>_. bind_recorded E c session attempt err)) (\<lambda>_. at_rest)" for err attempt
  proof (cases "err = nil")
    case True
    have "steps (astep (e_fire E)) unbound (modify (\<lambda>w. w\<lparr>au_source := Some src, au_bound := True\<rparr>)) (\<lambda>_. at_rest)"
      by (rule steps_modify) (auto simp: at_rest_def numbered_def intro: astep.bound)
    with True show ?thesis by (auto intro: steps_bind bind_recorded_ok)
  next
    case False
    then have "steps (astep (e_fire E)) unbound
      (modify (\<lambda>w. if err = nil then w\<lparr>au_source := Some src, au_bound := True\<rparr> else w)) (\<lambda>_. unbound)"
      by (simp add: steps_def modify_def)
    with False show ?thesis by (auto intro: steps_bind bind_recorded_failed)
  qed
  have finished: "steps rel unbound (State_Monad.return err) (\<lambda>_. at_rest)" for rel err
    by (simp add: steps_def)
  show ?thesis
    unfolding bind_serial_def bind_recorded_def [symmetric]
    by (intro steps_bind [OF yielded] steps_bind [OF steps_fetch] steps_if
        steps_bind [OF steps_pre [OF session_steps]] steps_bind [OF unbound_steps] steps_case_prod
        steps_bind [OF clear_session_operates] steps_bind [OF bind_guard_steps] bound exec_rules finished)
      (auto simp: steps_def)
qed

lemma Bind_operates: "operates E (Bind E ctx0 src)"
proof -
  have quiet_ops: "operates E (validContext E co)" "operates E (acquire E c)" for co c
    by (rule executes_operates, intro exec_rules)+
  have finished: "operates E (State_Monad.return err)" for err
    by (simp add: steps_def)
  show ?thesis
    unfolding Bind_def
    by (rule operates_bind [OF quiet_ops(1)], cases ctx0; cases src)
      (auto intro!: finished any_if operates_bind [OF quiet_ops(2)] bind_serial_operates)
qed

end
