(* ===== verification/AuthoritySafety.thy ===== *)
theory AuthoritySafety
  imports AuthorityOps
begin

text \<open>
  What the protocol guarantees in every serialized history of an authority, whatever the
  evidence adapter, the actuator, the policy, the clocks and the other goroutines do.
\<close>

section \<open>Histories\<close>

text \<open>The serialization token orders the operations. \<open>DoGrant\<close> and \<open>DoTightened\<close> are the parts of
  \<^verbatim>\<open>permissiveLifecycle\<close> and \<^verbatim>\<open>safeLifecycle\<close> after the token was acquired, for calls whose
  first part ran while other operations held it: \<open>DoGrant\<close> carries the count of safety
  actions it read then.\<close>

datatype authority_op =
    DoBind "ctx option" "source option"
  | DoApply "ctx option" ApplyRequest
  | DoArm "ctx option" string
  | DoReset "ctx option" string
  | DoDisarm string
  | DoEmergencyStop string
  | DoClose
  | DoGrant ctx LifecycleAction string nat
  | DoTightened LifecycleAction string bool timestamp go_error
  | DoOthers

definition discard :: "'a act \<Rightarrow> unit act" where
  "discard m = do { _ \<leftarrow> m; ret () }"

fun perform :: "env \<Rightarrow> authority_op \<Rightarrow> unit act" where
  "perform E (DoBind c src) = discard (Bind E c src)"
| "perform E (DoApply c request) = discard (Apply E c request)"
| "perform E (DoArm c detail) = discard (authority_Arm E c detail)"
| "perform E (DoReset c detail) = discard (authority_Reset E c detail)"
| "perform E (DoDisarm detail) = discard (authority_Disarm E detail)"
| "perform E (DoEmergencyStop detail) = discard (authority_EmergencyStop E detail)"
| "perform E DoClose = discard (authority_Close E)"
| "perform E (DoGrant c action detail n) = do {
     w \<leftarrow> fetch;
     discard (permissive_serial E c action detail (of_nat (min n (w_epochs w))))
   }"
| "perform E (DoTightened action detail cl t err) = discard (safe_serial E action detail cl t err)"
| "perform E DoOthers = yield_point E"

definition history :: "env \<Rightarrow> world \<Rightarrow> authority_op list \<Rightarrow> world" where
  "history E w ops = foldl (\<lambda>w op. snd (run_state (perform E op) w)) w ops"

lemma history_simps [simp]:
  "history E w [] = w"
  "history E w (op # ops) = history E (snd (run_state (perform E op) w)) ops"
  by (simp_all add: history_def)

lemma discard_operates: "operates E m \<Longrightarrow> operates E (discard m)"
  unfolding discard_def by (erule operates_bind) (simp add: steps_def)

lemma perform_operates: "operates E (perform E op)"
proof (cases op)
  case (DoGrant c action detail n)
  have "steps (astep (e_fire E)) (\<lambda>w. at_rest w \<and> w' = w)
      (discard (permissive_serial E c action detail (of_nat (min n (w_epochs w'))))) (\<lambda>_. at_rest)" for w'
    unfolding discard_def
    by (rule steps_bind [OF steps_pre [OF permissive_serial_rest]]) (auto simp: steps_def)
  with DoGrant show ?thesis
    by (auto intro: steps_bind [OF steps_fetch])
next
  case DoOthers
  then show ?thesis by simp (rule executes_operates, intro exec_rules)
qed (auto simp: authority_Arm_def authority_Reset_def authority_Disarm_def authority_EmergencyStop_def
    authority_Close_def intro: discard_operates Bind_operates Apply_operates permissiveLifecycle_operates
    safeLifecycle_operates safe_serial_operates)

lemma history_refines:
  assumes "at_rest w"
  shows "(astep (e_fire E))\<^sup>*\<^sup>* w (history E w ops) \<and> at_rest (history E w ops)"
  using assms
proof (induction ops arbitrary: w)
  case (Cons op ops)
  let ?w = "snd (run_state (perform E op) w)"
  have "(astep (e_fire E))\<^sup>*\<^sup>* w ?w" "at_rest ?w"
    using stepsD [OF perform_operates Cons.prems] steps_post [OF perform_operates Cons.prems] by auto
  with Cons.IH [of ?w] show ?case
    by (auto intro: rtranclp_trans)
qed simp

lemma new_authority_rest:
  assumes "NewAuthorityWithGuard config g ev act = Inr a" and "ac_CommandTTL config \<le> max_i64"
  shows "at_rest (world_of a)"
  using assms
  by (auto simp: NewAuthorityWithGuard_def at_rest_def numbered_def world_of_def authority.defs
      split: option.splits if_splits sum.splits)

text \<open>A property that every step of the protocol keeps holds after every history.\<close>

locale protocol_invariant =
  fixes fire :: gate_fire
    and I :: "world \<Rightarrow> bool"
  assumes step: "astep fire w w' \<Longrightarrow> I w \<Longrightarrow> I w'"
begin

lemma stable: "stable_under (astep fire) I"
  by (simp add: stable_under_def step)

lemma on_history:
  assumes "e_fire E = fire" and "at_rest w" and "I w"
  shows "I (history E w ops)"
  using stable_run [OF stable _ assms(3)] history_refines [OF assms(2), of E ops] assms(1) by simp

lemma on_new:
  assumes "e_fire E = fire" and "NewAuthorityWithGuard config g ev act = Inr a"
    and "ac_CommandTTL config \<le> max_i64" and "I (world_of a)"
  shows "I (history E (world_of a) ops)"
  using on_history [OF assms(1) new_authority_rest [OF assms(2,3)] assms(4)] .

end


section \<open>What a step may add to the trace\<close>

lemma astep_static:
  assumes "astep fire w w'"
  shows "au_safe w' = au_safe w" "au_ttl w' = au_ttl w" "au_policy w' = au_policy w"
    "au_requireApplied w' = au_requireApplied w"
  using assms by (cases; simp add: xstep_frame reassert_def)+

fun allowed :: "gate_fire \<Rightarrow> world \<Rightarrow> trace_event \<Rightarrow> bool" where
  "allowed fire w (TCommitted r i) \<longleftrightarrow> er_RecordSequence r = au_recordSequence w
     \<and> er_ControllerSession r = au_session w \<and> i \<noteq> []"
| "allowed fire w (TPreflight d current) \<longleftrightarrow> sameDecisionInput d current
     \<and> (\<exists>g v. guard_Evaluate fire g v = (au_guard w, current))"
| "allowed fire w (TSend n e) \<longleftrightarrow> n = w_issued w \<and> may_send w e"
| "allowed fire w (TAcknowledged e a) \<longleftrightarrow> last_send (w_trace w) = Some e
     \<and> (\<exists>now. validateAcknowledgment e a now (au_requireApplied w) = nil)"

lemma astep_trace:
  assumes "astep fire w w'"
  obtains (same) "w_trace w' = w_trace w"
  | (more) x where "w_trace w' = x # w_trace w" and "allowed fire w x"
      and "w_issued w' = w_issued w" "w_recorded w' = w_recorded w" "au_recordSequence w' = au_recordSequence w"
        "au_previousApplied w' = au_previousApplied w" "au_guard w' = au_guard w" "au_closed w' = au_closed w"
        "w_epochs w' = w_epochs w"
  using assms
proof cases
  case (exec live)
  then show ?thesis
  proof cases
    case quiet
    then show ?thesis
      by cases (auto intro: same more simp: idle_frame)
  next
    case (preflight g v current d)
    then show ?thesis by (intro more [of "TPreflight d current"]) auto
  next
    case (ack e a now)
    then show ?thesis by (intro more [of "TAcknowledged e a"]) auto
  qed (auto intro: same more)
qed (auto intro: same simp: reassert_def)

section \<open>Transmissions\<close>

text \<open>What is true of the envelope \<open>e\<close> of the \<open>n\<close>-th command when it is handed to the actuator,
  with \<open>pre\<close> the trace before.\<close>

definition send_ok ::
  "EncodedCommand \<Rightarrow> duration \<Rightarrow> bool \<Rightarrow> trace_event list \<Rightarrow> nat \<Rightarrow> ActuatorCommand \<Rightarrow> bool" where
  "send_ok safe ttl pol pre n e \<longleftrightarrow>
     0 < ac_TTL e \<and> ac_TTL e \<le> ttl \<and> ac_ExpiresAt e = ac_IssuedAt e + ac_TTL e \<and> ac_Sequence e = of_nat n
     \<and> (\<forall>n' e'. TSend n' e' \<in> set pre \<longrightarrow> n' < n)
     \<and> (if ac_Fallback e then ac_Command e = safe else live_justified pol pre e)"

fun sends_ok :: "EncodedCommand \<Rightarrow> duration \<Rightarrow> bool \<Rightarrow> trace_event list \<Rightarrow> bool" where
  "sends_ok safe ttl pol [] = True"
| "sends_ok safe ttl pol (TSend n e # tr) = (send_ok safe ttl pol tr n e \<and> sends_ok safe ttl pol tr)"
| "sends_ok safe ttl pol (_ # tr) = sends_ok safe ttl pol tr"

lemma sends_ok_split:
  "sends_ok safe ttl pol (post @ TSend n e # pre) \<Longrightarrow> send_ok safe ttl pol pre n e"
proof (induction post)
  case (Cons x post)
  then show ?case by (cases x) auto
qed simp

lemma sends_ok_step:
  assumes "astep fire w w'" and "sends_ok (au_safe w) (au_ttl w) (au_policy w) (w_trace w)"
  shows "sends_ok (au_safe w') (au_ttl w') (au_policy w') (w_trace w')"
  using assms(1)
proof (cases rule: astep_trace)
  case (more x)
  then show ?thesis
    using assms by (cases x) (auto simp: astep_static may_send_def lease_ok_def send_ok_def)
qed (use assms in \<open>simp add: astep_static\<close>)

interpretation sends: protocol_invariant fire "\<lambda>w. sends_ok (au_safe w) (au_ttl w) (au_policy w) (w_trace w)"
  by unfold_locales (rule sends_ok_step)

lemma static_stable: "stable_under (astep fire) (\<lambda>w. (au_safe w, au_ttl w, au_policy w) = k)"
  by (auto simp: stable_under_def astep_static)

lemma history_static:
  assumes "at_rest w"
  shows "au_safe (history E w ops) = au_safe w" "au_ttl (history E w ops) = au_ttl w"
    "au_policy (history E w ops) = au_policy w"
  using stable_run [OF static_stable conjunct1 [OF history_refines [OF assms, of E ops]],
      of "(au_safe w, au_ttl w, au_policy w)"] by auto

lemma world_of_fields [simp]:
  "w_trace (world_of a) = []" "au_safe (world_of a) = au_safe a" "au_ttl (world_of a) = au_ttl a"
  "au_policy (world_of a) = au_policy a" "au_previousApplied (world_of a) = au_previousApplied a"
  "w_recorded (world_of a) = 0" "w_issued (world_of a) = 0"
  by (simp_all add: world_of_def authority.defs)

text \<open>Every transmission in a history of a new authority.\<close>

lemma history_send_ok:
  assumes "NewAuthorityWithGuard config g ev act = Inr a" and "ac_CommandTTL config \<le> max_i64"
    and "w_trace (history E (world_of a) ops) = post @ TSend n e # pre"
  shows "send_ok (au_safe a) (au_ttl a) (au_policy a) pre n e"
proof -
  note rest = new_authority_rest [OF assms(1,2)]
  have "sends_ok (au_safe a) (au_ttl a) (au_policy a) (w_trace (history E (world_of a) ops))"
    using sends.on_new [OF refl assms(1,2), where E = E and ops = ops] history_static [OF rest, of E ops] by simp
  then show ?thesis
    unfolding assms(3) by (rule sends_ok_split)
qed

text \<open>C1. Every live command handed to the actuator was authorised: immediately before it, the
  guard's last preflight permitted output for the very input the decision was made on
  (same observation number, deep-equal state); the decision and the intent for exactly
  these bytes and this sequence number had already been durably committed; and with a
  policy configured, the committed decision carries its permission with a policy, a
  subject and an authorization, for exactly these bytes, and the lease of the command
  does not outlive it.\<close>

theorem live_send_justified:
  assumes "NewAuthorityWithGuard config g ev act = Inr a" and "ac_CommandTTL config \<le> max_i64"
    and "w_trace (history E (world_of a) ops) = post @ TSend n e # pre" and "\<not> ac_Fallback e"
  shows "\<exists>d current rest intent decision. pre = TPreflight d current # rest
     \<and> dec_Permit current \<and> dec_InputSequence current = dec_InputSequence d
     \<and> deep_equal (dec_Command current) (dec_Command d)
     \<and> TCommitted decision (ac_DecisionID e) \<in> set rest \<and> er_Kind decision = EvidenceDecision
     \<and> er_Decision decision = Some d
     \<and> TCommitted intent (ac_IntentID e) \<in> set rest \<and> er_Kind intent = EvidenceIntent
     \<and> er_CommandSequence intent = ac_Sequence e \<and> er_DecisionID intent = ac_DecisionID e
     \<and> er_Requested intent = Some (ac_Command e) \<and> er_Applied intent = Some (ac_Command e)
     \<and> (ac_Policy config \<longrightarrow> (\<exists>p. er_Policy decision = Some p \<and> pd_Permit p \<and> pd_PolicyID p \<noteq> []
          \<and> pd_Subject p \<noteq> [] \<and> pd_Authorization p \<noteq> [] \<and> er_Requested decision = Some (ac_Command e)
          \<and> ac_ExpiresAt e \<le> pd_ExpiresAt p))"
proof -
  from assms(1) have pol: "au_policy a = ac_Policy config"
    by (auto simp: NewAuthorityWithGuard_def split: option.splits if_splits sum.splits)
  from history_send_ok [OF assms(1-3)] assms(4) have "live_justified (ac_Policy config) pre e"
    by (simp add: send_ok_def pol)
  then show ?thesis
    unfolding live_justified_def decision_evidenced_def intent_evidenced_def policy_backs_def sameDecisionInput_def
    by blast
qed

text \<open>C5. Every fallback carries the bytes of the engineered safe state, and every command, live or
  fallback, carries a positive lease of at most the configured TTL whose expiry is the
  issue time plus that lease.\<close>

theorem fallback_is_safe_state:
  assumes "NewAuthorityWithGuard config g ev act = Inr a" and "ac_CommandTTL config \<le> max_i64"
    and "w_trace (history E (world_of a) ops) = post @ TSend n e # pre"
  shows "encodeCommand (ac_EngineeredSafeState config) = Inr (au_safe a)
     \<and> (ac_Fallback e \<longrightarrow> ac_Command e = au_safe a)
     \<and> 0 < ac_TTL e \<and> ac_TTL e \<le> ac_CommandTTL config \<and> ac_ExpiresAt e = ac_IssuedAt e + ac_TTL e"
  using history_send_ok [OF assms] assms(1)
  by (auto simp: send_ok_def NewAuthorityWithGuard_def split: option.splits if_splits sum.splits)

text \<open>The sequence numbers handed to the actuator strictly increase, so a receiver that
  rejects non-increasing numbers accepts a fallback after anything sent before it. The
  bound says that the 64-bit counter has not wrapped.\<close>

theorem send_sequence_increases:
  assumes "NewAuthorityWithGuard config g ev act = Inr a" and "ac_CommandTTL config \<le> max_i64"
    and "w_trace (history E (world_of a) ops) = later @ TSend n e # mid @ TSend n' e' # pre"
    and "w_issued (history E (world_of a) ops) < 2 ^ 64"
  shows "ac_Sequence e' < ac_Sequence e"
proof -
  let ?w = "history E (world_of a) ops"
  have lt: "n' < n" and e: "ac_Sequence e = of_nat n"
    using history_send_ok [OF assms(1-3)] by (auto simp: send_ok_def)
  have e': "ac_Sequence e' = of_nat n'"
    using history_send_ok [OF assms(1,2), of E ops "later @ TSend n e # mid" n' e' pre] assms(3)
    by (simp add: send_ok_def)
  have "at_rest ?w"
    using history_refines [OF new_authority_rest [OF assms(1,2)]] by blast
  then have "n \<le> w_issued ?w"
    unfolding at_rest_def numbered_def by (simp add: assms(3))
  then have "n < 2 ^ 64" using assms(4) by simp
  with lt show ?thesis
    by (simp add: e e' word_less_nat_alt unat_of_nat)
qed


section \<open>The acknowledged baseline\<close>

text \<open>Acknowledgements in the trace passed validation, and the baseline is the command of the newest
  transmission, positively acknowledged.\<close>

definition baseline_ok :: "world \<Rightarrow> bool" where
  "baseline_ok w \<longleftrightarrow>
     (\<forall>e a. TAcknowledged e a \<in> set (w_trace w) \<longrightarrow>
        (\<exists>now. validateAcknowledgment e a now (au_requireApplied w) = nil))
     \<and> (\<forall>c. au_previousApplied w = Some c \<longrightarrow>
        (\<exists>e a. acked (w_trace w) e a \<and> ack_Accepted a \<and> ack_AppliedAt a \<noteq> zero_time \<and> ac_Command e = c))"

lemma acked_Cons: "acked tr e a \<Longrightarrow> \<not> is_send x \<Longrightarrow> acked (x # tr) e a"
  by (cases x) (auto simp: acked_def)

lemma baseline_more:
  assumes ok: "baseline_ok w" and x: "\<not> is_send x"
    and valid: "\<And>e a. x = TAcknowledged e a \<Longrightarrow> \<exists>now. validateAcknowledgment e a now (au_requireApplied w) = nil"
    and w': "w_trace w' = x # w_trace w" "au_previousApplied w' = au_previousApplied w"
      "au_requireApplied w' = au_requireApplied w"
  shows "baseline_ok w'"
  unfolding baseline_ok_def w'
proof (intro conjI allI impI)
  fix c assume "au_previousApplied w = Some c"
  with ok obtain e a where "acked (w_trace w) e a" "ack_Accepted a" "ack_AppliedAt a \<noteq> zero_time" "ac_Command e = c"
    unfolding baseline_ok_def by blast
  with acked_Cons [OF _ x] show "\<exists>e a. acked (x # w_trace w) e a \<and> ack_Accepted a \<and> ack_AppliedAt a \<noteq> zero_time
      \<and> ac_Command e = c" by blast
next
  fix e a assume "TAcknowledged e a \<in> set (x # w_trace w)"
  with valid ok show "\<exists>now. validateAcknowledgment e a now (au_requireApplied w) = nil"
    unfolding baseline_ok_def by auto
qed

lemma quiet_baseline:
  assumes "quiet fire w w'" and "baseline_ok w"
  shows "baseline_ok w'"
  using assms(1)
proof cases
  case (commit r i)
  then show ?thesis by (intro baseline_more [OF assms(2), of "TCommitted r i"]) auto
qed (use assms(2) in \<open>auto simp: baseline_ok_def idle_frame\<close>)

lemma xstep_baseline:
  assumes "xstep fire live w w'" and "baseline_ok w"
  shows "baseline_ok w'"
  using assms(1)
proof cases
  case quiet
  then show ?thesis using assms(2) by (rule quiet_baseline)
next
  case (preflight g v current d)
  then show ?thesis by (intro baseline_more [OF assms(2), of "TPreflight d current"]) auto
next
  case (ack e a now)
  then show ?thesis by (intro baseline_more [OF assms(2), of "TAcknowledged e a"]) auto
next
  case (send e)
  with assms(2) show ?thesis by (auto simp: baseline_ok_def may_send_def)
qed (use assms(2) in \<open>auto simp: baseline_ok_def\<close>)

interpretation baseline: protocol_invariant fire baseline_ok
proof
  fix w w' assume "astep fire w w'" and b: "baseline_ok w"
  then show "baseline_ok w'"
  proof cases
    case (exec live)
    then show ?thesis using b by (rule xstep_baseline)
  qed (use b in \<open>auto simp: baseline_ok_def reassert_def\<close>)
qed

lemma validated:
  "validateAcknowledgment e a now req = nil \<Longrightarrow>
     ack_ControllerSession a = ac_ControllerSession e \<and> ack_Sequence a = ac_Sequence e
     \<and> (ack_AppliedAt a \<noteq> zero_time \<longrightarrow> ac_IssuedAt e \<le> ack_AppliedAt a \<and> ack_AppliedAt a < ac_ExpiresAt e)"
  by (auto simp: validateAcknowledgment_def not_less split: if_splits)

text \<open>What the policy is given as the previously applied command is never a guess: it is the
  command of the newest transmission, whose acknowledgement matched its session and
  sequence number, was positive, and claimed an application time within its lease.\<close>

theorem previous_applied_acknowledged:
  assumes "NewAuthorityWithGuard config g ev act = Inr a" and "ac_CommandTTL config \<le> max_i64"
    and "au_previousApplied (history E (world_of a) ops) = Some c"
  shows "\<exists>e ack. last_send (w_trace (history E (world_of a) ops)) = Some e \<and> ac_Command e = c
     \<and> TAcknowledged e ack \<in> set (w_trace (history E (world_of a) ops)) \<and> ack_Accepted ack
     \<and> ack_ControllerSession ack = ac_ControllerSession e \<and> ack_Sequence ack = ac_Sequence e
     \<and> ac_IssuedAt e \<le> ack_AppliedAt ack \<and> ack_AppliedAt ack < ac_ExpiresAt e"
proof -
  let ?w = "history E (world_of a) ops"
  have "au_previousApplied a = None"
    using assms(1) by (auto simp: NewAuthorityWithGuard_def split: option.splits if_splits sum.splits)
  then have "baseline_ok (world_of a)"
    by (simp add: baseline_ok_def)
  then have ok: "baseline_ok ?w"
    using baseline.on_new [OF refl assms(1,2)] by blast
  with assms(3) obtain e ack where ack: "acked (w_trace ?w) e ack" "ack_Accepted ack" "ack_AppliedAt ack \<noteq> zero_time"
      "ac_Command e = c"
    by (auto simp: baseline_ok_def)
  then have mem: "TAcknowledged e ack \<in> set (w_trace ?w)"
    by (auto simp: acked_def dest: set_takeWhileD)
  with ok obtain now where "validateAcknowledgment e ack now (au_requireApplied ?w) = nil"
    unfolding baseline_ok_def by blast
  from validated [OF this] ack mem show ?thesis
    by (auto simp: acked_def)
qed

section \<open>A closed authority\<close>

lemma permit_armed:
  assumes "machine_ok fire" and "guard_Evaluate fire g v = (g', d)" and "dec_Permit d"
  shows "g_lifecycle g' = LifecycleArmed"
proof -
  have d: "d = snd (evaluateLocked fire g v)" and g': "g' = fst (evaluateLocked fire g v)"
    using assms(2) by (simp_all add: guard_Evaluate_def)
  have auth: "authorised g v" using assms(3) by (simp add: d evaluate_permit)
  then have "g_source g \<noteq> None" "g_lifecycle g = LifecycleArmed" by (auto simp: authorised_def)
  moreover from this auth have "unmet g v = []" by (simp add: unmet_empty)
  ultimately show ?thesis
    unfolding g' evaluate_lifecycle(1) [OF assms(1)] by (simp add: latches_def)
qed

fun live_sends :: "trace_event list \<Rightarrow> ActuatorCommand list" where
  "live_sends [] = []"
| "live_sends (TSend n e # tr) = (if ac_Fallback e then live_sends tr else e # live_sends tr)"
| "live_sends (_ # tr) = live_sends tr"

text \<open>While the authority is closed (and the epoch counter has not wrapped), the guard is not armed,
  no live command is in flight and none is sent.\<close>

definition shut :: "ActuatorCommand list \<Rightarrow> world \<Rightarrow> bool" where
  "shut sent w \<longleftrightarrow> au_closed w \<and> \<not> au_activeSending w \<and> g_lifecycle (au_guard w) \<noteq> LifecycleArmed
     \<and> live_sends (w_trace w) = sent"

lemma tame_not_armed:
  assumes "machine_ok fire" and "g_lifecycle g \<noteq> LifecycleArmed" and "tame op"
  shows "g_lifecycle (guard_step fire g op) \<noteq> LifecycleArmed"
  using only_arm_arms [OF assms(1,2), of op] assms(3) by (cases op) auto

lemma safe_guard_not_armed:
  assumes "machine_ok fire"
  shows "g_lifecycle (safe_guard fire action detail g v) \<noteq> LifecycleArmed"
  using assms trips_armed
  by (cases "g_lifecycle g")
    (auto simp: safe_guard_def guard_EmergencyStop_def guard_Disarm_def evaluate_lifecycle guard_fire_eq)


abbreviation unarmed :: "world \<Rightarrow> bool" where
  "unarmed w \<equiv> g_lifecycle (au_guard w) \<noteq> LifecycleArmed"

lemma cancel_closed [simp]: "au_closed (cancelLiveApplyIfDecisionChanged fire v w) = au_closed w"
  by (simp add: cancelLiveApplyIfDecisionChanged_def Let_def case_prod_unfold)

lemma idle_unarmed:
  assumes "machine_ok fire" and "idle fire w w'"
  shows "unarmed w \<Longrightarrow> unarmed w'" and "au_closed w' \<Longrightarrow> au_closed w \<or> unarmed w'"
proof -
  show "unarmed w'" if "unarmed w"
    using assms(2)
  proof cases
    case (guard op)
    with tame_not_armed [OF assms(1) that] show ?thesis by simp
  next
    case (cancel v)
    with tame_not_armed [OF assms(1) that, of "OpEvaluate v"] that show ?thesis
      by (auto simp: cancelLiveApplyIfDecisionChanged_def Let_def case_prod_unfold)
  next
    case (tighten a d cl v)
    with safe_guard_not_armed [OF assms(1)] show ?thesis by (simp add: tighten_def reassert_def)
  qed (use that in auto)
  show "au_closed w \<or> unarmed w'" if "au_closed w'"
    using assms(2) that safe_guard_not_armed [OF assms(1)]
    by cases (auto simp: tighten_def reassert_def)
qed

lemma quiet_unarmed:
  assumes "machine_ok fire" and "quiet fire w w'"
  shows "unarmed w \<Longrightarrow> unarmed w'" and "au_closed w' \<Longrightarrow> au_closed w \<or> unarmed w'"
  using assms(2) by (cases; auto dest: idle_unarmed [OF assms(1)])+

lemma xstep_unarmed:
  assumes "machine_ok fire" and "xstep fire live w w'"
  shows "unarmed w \<Longrightarrow> unarmed w'" and "au_closed w' \<Longrightarrow> au_closed w \<or> unarmed w'"
  using assms(2) by (cases; auto dest: quiet_unarmed [OF assms(1)])+

lemma epochs_mono: "astep fire w w' \<Longrightarrow> w_epochs w \<le> w_epochs w'"
proof (erule astep.cases)
  show "xstep fire live v v' \<Longrightarrow> w = v \<Longrightarrow> w' = v' \<Longrightarrow> w_epochs w \<le> w_epochs w'" for live v v'
    using epochs_le [of fire live "w_epochs w"] unfolding stable_under_def by blast
qed (auto simp: reassert_def)

text \<open>Only a grant under an open authority arms the guard.\<close>

definition closed_unarmed :: "gate_fire \<Rightarrow> world \<Rightarrow> bool" where
  "closed_unarmed fire w \<longleftrightarrow> (machine_ok fire \<and> w_epochs w < 2 ^ 64 \<and> au_closed w \<longrightarrow> unarmed w)"

interpretation closing: protocol_invariant fire "closed_unarmed fire"
proof
  fix w w' assume st: "astep fire w w'" and c: "closed_unarmed fire w"
  show "closed_unarmed fire w'"
    unfolding closed_unarmed_def
  proof (intro impI, elim conjE)
    assume m: "machine_ok fire" and e: "w_epochs w' < 2 ^ 64" and cl: "au_closed w'"
    from epochs_mono [OF st] e have "w_epochs w < 2 ^ 64" by simp
    with c m have old: "au_closed w \<Longrightarrow> unarmed w" by (simp add: closed_unarmed_def)
    from st show "unarmed w'"
    proof cases
      case (exec live)
      with xstep_unarmed [OF m] cl old show ?thesis by blast
    next
      case (reset detail v)
      with cl e show ?thesis by simp
    next
      case (bind_guard src v)
      with only_arm_arms [OF m, of "au_guard w" "OpBind src v"] old cl show ?thesis by simp
    next
      case (reassert a d cl v)
      with safe_guard_not_armed [OF m] show ?thesis by (simp add: reassert_def)
    qed (use old cl e in auto)
  qed
qed

lemma live_sends_step:
  assumes "astep fire w w'" and "\<not> au_activeSending w"
  shows "live_sends (w_trace w') = live_sends (w_trace w)"
  using assms(1)
proof (cases rule: astep_trace)
  case (more x)
  then show ?thesis
    using assms(2) by (cases x) (auto simp: may_send_def split: if_splits)
qed simp

interpretation shutting: protocol_invariant fire "\<lambda>w. machine_ok fire \<and> w_epochs w < 2 ^ 64 \<longrightarrow> shut sent w"
proof (unfold_locales, intro impI, elim conjE)
  fix w w'
  assume st: "astep fire w w'" and old: "machine_ok fire \<and> w_epochs w < 2 ^ 64 \<longrightarrow> shut sent w"
    and m: "machine_ok fire" and e: "w_epochs w' < 2 ^ 64"
  from epochs_mono [OF st] e old m have s: "shut sent w" by simp
  have live: "live_sends (w_trace w') = sent"
    using live_sends_step [OF st] s by (simp add: shut_def)
  have closed: "closed_unarmed fire w'"
    using closing.step [OF st] s by (simp add: closed_unarmed_def shut_def)
  have "au_closed w' \<and> \<not> au_activeSending w'"
    using st
  proof cases
    case (exec live)
    then have closed': "au_closed w'"
      using s
      by (cases; auto elim!: quietE idleE simp: shut_def tighten_def reassert_def)
    from exec show ?thesis
    proof cases
      case (preflight g v current d)
      with permit_armed [OF m, of g v "au_guard w" current] s show ?thesis
        by (auto simp: sameDecisionInput_def shut_def)
    qed (use s closed' in \<open>auto simp: shut_def quiet_frame\<close>)
  qed (use s in \<open>auto simp: shut_def reassert_def\<close>)
  with live closed m e show "shut sent w'"
    by (simp add: shut_def closed_unarmed_def)
qed

lemma history_append: "history E w (ops @ ops') = history E (history E w ops) ops'"
  by (simp add: history_def)

text \<open>C2. Once an authority is closed, by Close or by a failed binding, no further operation
  transmits a live command. The bound says that fewer than \<open>2 ^ 64\<close> safety actions were
  requested, so that the epoch an Arm compares has not wrapped.\<close>

theorem closed_sends_nothing_live:
  assumes "machine_ok (e_fire E)" and "NewAuthorityWithGuard config g ev act = Inr a"
    and "ac_CommandTTL config \<le> max_i64" and "au_closed (history E (world_of a) ops)"
    and "w_epochs (history E (world_of a) (ops @ later)) < 2 ^ 64"
  shows "live_sends (w_trace (history E (world_of a) (ops @ later)))
    = live_sends (w_trace (history E (world_of a) ops))"
proof -
  let ?w = "history E (world_of a) ops"
  note rest = history_refines [OF new_authority_rest [OF assms(2,3)], of E ops]
  have "au_closed a = False"
    using assms(2) by (auto simp: NewAuthorityWithGuard_def split: option.splits if_splits sum.splits)
  then have "closed_unarmed (e_fire E) (world_of a)"
    by (simp add: closed_unarmed_def world_of_def authority.defs)
  then have "closed_unarmed (e_fire E) ?w"
    using closing.on_new [OF refl assms(2,3)] by blast
  then have "machine_ok (e_fire E) \<and> w_epochs ?w < 2 ^ 64 \<longrightarrow> shut (live_sends (w_trace ?w)) ?w"
    using assms(4) rest by (simp add: shut_def closed_unarmed_def at_rest_def)
  from shutting.on_history [OF refl _ this] rest assms(1,5) show ?thesis
    by (simp add: history_append shut_def)
qed

end
