(* ===== verification/AuthorityOutcomes.thy ===== *)
theory AuthorityOutcomes
  imports AuthoritySafety
begin

text \<open>
  What single operations leave behind: stops stay stopped, refused grants and failed
  commands leave the guard disarmed.
\<close>

section \<open>Disarming\<close>

text \<open>The guard's lifecycle after each tightening call.\<close>

lemma disarm_lifecycle: "machine_ok fire \<Longrightarrow> g_lifecycle (guard_Disarm fire d g v) \<noteq> LifecycleArmed"
  using safe_guard_not_armed [of fire LifecycleDisarm d g v] by (simp add: safe_guard_def)

lemma stop_lifecycle:
  "machine_ok fire \<Longrightarrow> g_lifecycle (guard_EmergencyStop fire d g v) = LifecycleStopped"
  using trips_armed
  by (cases "g_lifecycle g") (auto simp: guard_EmergencyStop_def evaluate_lifecycle guard_fire_eq latches_def)

lemma guard_call_post:
  assumes "idles E (guard_call E f)" and "\<And>g v. Q (fst (f g v))"
  shows "steps (idle (e_fire E)) always (guard_call E f) (\<lambda>_ w. Q (au_guard w))"
  using assms by (auto simp: steps_def guard_call_def next_tick_def modify_def Let_def case_prod_unfold)

text \<open>Facts about the guard that no execution step undoes.\<close>

definition kept :: "gate_fire \<Rightarrow> (lifecycle \<Rightarrow> bool) \<Rightarrow> bool" where
  "kept fire L \<longleftrightarrow> (\<forall>g op. tame op \<longrightarrow> L (g_lifecycle g) \<longrightarrow> L (g_lifecycle (guard_step fire g op)))
     \<and> (\<forall>action detail g v. L (g_lifecycle g) \<longrightarrow> L (g_lifecycle (safe_guard fire action detail g v)))"

lemma kept_unarmed: "machine_ok fire \<Longrightarrow> kept fire (\<lambda>l. l \<noteq> LifecycleArmed)"
  unfolding kept_def using tame_not_armed safe_guard_not_armed by blast

lemma kept_stopped:
  assumes "machine_ok fire"
  shows "kept fire (\<lambda>l. l = LifecycleStopped)"
  unfolding kept_def
proof (intro conjI allI impI)
  fix g :: guard and op assume "tame op" "g_lifecycle g = LifecycleStopped"
  then show "g_lifecycle (guard_step fire g op) = LifecycleStopped"
    by (intro stop_latches [OF assms]) auto
next
  fix action detail v and g :: guard assume g: "g_lifecycle g = LifecycleStopped"
  then show "g_lifecycle (safe_guard fire action detail g v) = LifecycleStopped"
    using stop_latches [OF assms g, of "OpDisarm detail v"] stop_lifecycle [OF assms]
    by (simp add: safe_guard_def)
qed

abbreviation lifecycle_is :: "(lifecycle \<Rightarrow> bool) \<Rightarrow> world \<Rightarrow> bool" where
  "lifecycle_is L w \<equiv> L (g_lifecycle (au_guard w))"

lemma idle_kept:
  assumes "kept fire L" and "idle fire w w'" and "lifecycle_is L w"
  shows "lifecycle_is L w'"
  using assms(2)
proof cases
  case (guard op)
  with assms show ?thesis by (simp add: kept_def)
next
  case (cancel v)
  have "L (g_lifecycle (guard_step fire (au_guard w) (OpEvaluate v)))"
    using assms(1,3) unfolding kept_def by (metis tame.simps(7))
  with cancel assms(3) show ?thesis
    by (simp add: cancelLiveApplyIfDecisionChanged_def Let_def case_prod_unfold)
next
  case (tighten a d cl v)
  with assms show ?thesis by (simp add: kept_def tighten_def reassert_def)
qed (use assms in auto)

lemma xstep_kept:
  assumes "kept fire L"
  shows "stable_under (xstep fire live) (lifecycle_is L)"
  unfolding stable_under_def
proof (intro allI impI)
  fix w w' assume "xstep fire live w w'" and l: "lifecycle_is L w"
  then show "lifecycle_is L w'"
  proof cases
    case quiet
    then show ?thesis
      by cases (use l in \<open>auto dest: idle_kept [OF assms]\<close>)
  qed (use l in auto)
qed

lemma rest_kept:
  assumes "kept (e_fire E) L" and "executes False E m"
  shows "steps (astep (e_fire E)) (\<lambda>w. at_rest w \<and> lifecycle_is L w) m (\<lambda>_ w. at_rest w \<and> lifecycle_is L w)"
proof -
  have "stable_under (xstep (e_fire E) False) (\<lambda>w. at_rest w \<and> lifecycle_is L w)"
    by (rule stable_conj [OF fallback_keeps_rest xstep_kept [OF assms(1)]])
  from steps_frame [OF assms(2) this] show ?thesis
    by (rule exec_steps [OF steps_conseq]) (auto simp: at_rest_def)
qed

section \<open>Emergency stop\<close>

lemma reassert_kept:
  assumes "\<And>g v. L (g_lifecycle (safe_guard (e_fire E) action detail g v))"
  shows "steps (astep (e_fire E)) at_rest (modify (reassert (e_fire E) action detail cl v))
    (\<lambda>_ w. at_rest w \<and> lifecycle_is L w)"
proof (rule steps_modify)
  show "astep (e_fire E) w (reassert (e_fire E) action detail cl v w)" for w
    by (rule astep.reassert)
qed (simp add: reassert_def at_rest_def numbered_def assms)

lemma safe_serial_kept:
  assumes "kept (e_fire E) L" and "\<And>g v. L (g_lifecycle (safe_guard (e_fire E) action detail g v))"
  shows "steps (astep (e_fire E)) at_rest (safe_serial E action detail cl t err)
    (\<lambda>_ w. at_rest w \<and> lifecycle_is L w)"
proof -
  have tail: "steps (astep (e_fire E)) (\<lambda>w. at_rest w \<and> lifecycle_is L w)
     (State_Monad.bind (safetyContext E) (\<lambda>safeCtx. State_Monad.bind (commit E safeCtx r)
      (\<lambda>(attempt, attemptErr). State_Monad.bind (commit E safeCtx (r' attempt)) (\<lambda>(_, outcomeErr).
        State_Monad.bind (yield_point E) (\<lambda>_. State_Monad.bind (evaluate_guard E) (\<lambda>decision.
          State_Monad.bind (executeFallbackLocked E decision [] reason) (\<lambda>(_, fallbackErr).
            State_Monad.return (err @ attemptErr @ outcomeErr @ fallbackErr))))))))
     (\<lambda>_ w. at_rest w \<and> lifecycle_is L w)" for r r' reason
    by (rule rest_kept [OF assms(1)]) (intro exec_rules)
  have quiet_ops: "operates E (yield_point E)" "operates E next_tick"
    by (rule executes_operates, intro exec_rules)+
  show ?thesis
    unfolding safe_serial_def
    by (intro steps_bind [OF quiet_ops(1)] steps_bind [OF quiet_ops(2)]
        steps_bind [OF reassert_kept [where L = L, OF assms(2)]] tail)
qed

text \<open>What a safety action demands of the guard.\<close>

definition in_force :: "LifecycleAction \<Rightarrow> lifecycle \<Rightarrow> bool" where
  "in_force action l \<longleftrightarrow> (if action = LifecycleEmergencyStop then l = LifecycleStopped else l \<noteq> LifecycleArmed)"

lemma kept_in_force:
  assumes "machine_ok fire"
  shows "kept fire (in_force action)" and "in_force action (g_lifecycle (safe_guard fire action detail g v))"
proof -
  show "kept fire (in_force action)"
    using kept_stopped [OF assms] kept_unarmed [OF assms]
    by (cases "action = LifecycleEmergencyStop") (simp_all add: in_force_def [abs_def])
  show "in_force action (g_lifecycle (safe_guard fire action detail g v))"
    using safe_guard_not_armed [OF assms, of action detail g v] stop_lifecycle [OF assms, of detail g v]
    by (cases "action = LifecycleEmergencyStop") (simp_all add: in_force_def safe_guard_def)
qed

lemma safe_request_kept:
  assumes "kept (e_fire E) L" and "\<And>g v. L (g_lifecycle (safe_guard (e_fire E) action detail g v))"
  shows "steps (astep (e_fire E)) at_rest (safe_request E action detail cl)
    (\<lambda>_ w. at_rest w \<and> lifecycle_is L w)"
proof -
  have quiet_ops: "operates E (yield_point E)" "operates E next_tick"
    by (rule executes_operates, intro exec_rules)+
  have tightened: "steps (astep (e_fire E)) at_rest (modify (tighten (e_fire E) action detail cl v))
      (\<lambda>_ w. at_rest w \<and> lifecycle_is L w)" for v
    using tighten_operates [of E action detail cl v]
    by (auto simp: steps_def modify_def tighten_def reassert_def assms(2))
  have waiting: "steps (astep (e_fire E)) (\<lambda>w. at_rest w \<and> lifecycle_is L w) m (\<lambda>_ w. at_rest w \<and> lifecycle_is L w)"
    if "executes False E m" for m :: "'z act"
    by (rule rest_kept [OF assms(1) that])
  show ?thesis
    unfolding safe_request_def
    by (intro steps_bind [OF quiet_ops(1)] steps_bind [OF quiet_ops(2)] steps_bind [OF tightened] waiting exec_rules)
qed

lemma safe_finish_kept:
  assumes "kept (e_fire E) L" and "\<And>g v. L (g_lifecycle (safe_guard (e_fire E) action detail g v))"
    and "at_rest w" and "fst (run_state (acquireSafety E) w) = nil"
  shows "lifecycle_is L (snd (run_state (safe_finish E action detail cl occurred) w))"
proof -
  let ?a = "run_state (acquireSafety E) w"
  have "operates E (acquireSafety E)"
    by (rule executes_operates) (intro exec_rules)
  from steps_post [OF this assms(3)] have "at_rest (snd ?a)" .
  from steps_post [OF safe_serial_kept [OF assms(1,2)] this] have
    "lifecycle_is L (snd (run_state (safe_serial E action detail cl (fst occurred) (snd occurred)) (snd ?a)))"
    by blast
  with assms(4) show ?thesis
    by (simp add: safe_finish_def case_prod_unfold)
qed



section \<open>Refused grants and failed commands\<close>

abbreviation down :: "world \<Rightarrow> bool" where
  "down w \<equiv> numbered w \<and> unarmed w"

text \<open>Once the guard is not armed, execution steps leave it so; and \<open>inhibit\<close> makes it so.\<close>

lemma down_stable: "machine_ok fire \<Longrightarrow> stable_under (xstep fire live) down"
  by (rule stable_conj [OF xstep_numbered xstep_kept [OF kept_unarmed]])

lemma down_steps:
  assumes "machine_ok (e_fire E)" and "executes live E m"
  shows "steps (xstep (e_fire E) live) down m (\<lambda>_. down)"
  using steps_frame [OF assms(2) down_stable [OF assms(1)]] by (rule steps_conseq) auto

lemma disarm_down:
  assumes "machine_ok (e_fire E)"
  shows "steps (xstep (e_fire E) live) numbered (disarm_guard E d) (\<lambda>_. down)"
proof -
  have "steps (idle (e_fire E)) always (disarm_guard E d) (\<lambda>_ w. unarmed w)"
    unfolding disarm_guard_def
    by (rule guard_call_post) (use disarm_idle [of E d] disarm_lifecycle [OF assms] in \<open>auto simp: disarm_guard_def\<close>)
  then have "steps (xstep (e_fire E) live) always (disarm_guard E d) (\<lambda>_ w. unarmed w)"
    by (rule steps_mono) (rule idle_xstep)
  from steps_frame [OF this xstep_numbered] show ?thesis
    by (rule steps_conseq) auto
qed

lemma inhibit_down:
  assumes "machine_ok (e_fire E)"
  shows "steps (xstep (e_fire E) live) numbered (inhibit E d) (\<lambda>_. down)"
  unfolding inhibit_def
  by (intro steps_bind [OF _ disarm_down [OF assms]] exec_rules)

lemma down_bind:
  assumes "machine_ok (e_fire E)" and "executes live E m" and "\<And>r. steps (xstep (e_fire E) live) down (f r) Q"
  shows "steps (xstep (e_fire E) live) down (State_Monad.bind m f) Q"
  by (rule steps_bind [OF down_steps [OF assms(1,2)] assms(3)])

lemma executes_then:
  assumes "executes live E m" and "\<And>r. steps (xstep (e_fire E) live) numbered (f r) Q"
  shows "steps (xstep (e_fire E) live) numbered (State_Monad.bind m f) Q"
  using assms by (rule steps_bind)

text \<open>The fallback paths of Apply that start by inhibiting.\<close>

lemma apply_refused_down:
  assumes "machine_ok (e_fire E)"
  shows "steps (xstep (e_fire E) live) numbered (apply_refused E i causes requested d p err) (\<lambda>_. down)"
  unfolding apply_refused_def
  by (intro executes_bind steps_bind [OF _ steps_bind [OF inhibit_down [OF assms] down_steps [OF assms]]] exec_rules)

lemma apply_unrecorded_down:
  assumes "machine_ok (e_fire E)"
  shows "steps (xstep (e_fire E) live) numbered (apply_unrecorded E i causes requested d po err) (\<lambda>_. down)"
  unfolding apply_unrecorded_def
  by (intro steps_bind [OF _ steps_bind [OF inhibit_down [OF assms] down_steps [OF assms]]] exec_rules)

text \<open>The failures after which a standing arm may survive: ordinary input superseded the intent before
  any send, the evidence held and the fallback was acknowledged; or the command was acknowledged and
  evidenced (\<open>settled_live\<close>) and the authority changed only then. Every other failure of a command
  leaves the guard disarmed.\<close>

definition superseded_unsent :: "ApplyResult \<Rightarrow> go_error \<Rightarrow> bool" where
  "superseded_unsent result err \<longleftrightarrow> errors_Is err ErrIntentSuperseded \<and> \<not> errors_Is err ErrEvidence
     \<and> \<not> errors_Is err ErrEvidenceIdentity \<and> ar_FallbackAcknowledged result"

definition failed_down :: "ApplyResult \<times> go_error \<Rightarrow> world \<Rightarrow> bool" where
  "failed_down r w \<longleftrightarrow> numbered w \<and> (snd r \<noteq> nil \<and> ar_CommandSequence (fst r) \<noteq> 0
     \<and> \<not> superseded_unsent (fst r) (snd r) \<and> \<not> settled_live (fst r) \<longrightarrow> unarmed w)"

lemma down_failed: "steps rel P m (\<lambda>_. down) \<Longrightarrow> steps rel P m failed_down"
  by (erule steps_conseq) (auto simp: failed_down_def)

lemma apply_recover_failed:
  assumes "machine_ok (e_fire E)"
    and "b \<longleftrightarrow> errors_Is err ErrIntentSuperseded \<and> \<not> errors_Is err ErrEvidence \<and> \<not> errors_Is err ErrEvidenceIdentity"
  shows "steps (xstep (e_fire E) live) numbered (apply_recover E b d causes reason result err) failed_down"
proof (cases b)
  case True
  have closing: "steps (xstep (e_fire E) live) numbered
      (if bad then inhibit E detail else locked_heartbeat E) (\<lambda>_ w. numbered w \<and> (bad \<longrightarrow> unarmed w))" for bad detail
    by (cases bad)
      (auto intro: steps_conseq [OF inhibit_down [OF assms(1)]] quiet_executes(6))
  have finished: "steps (xstep (e_fire E) live)
      (\<lambda>w. numbered w \<and> (safeErr \<noteq> nil \<or> \<not> acknowledged safeResult \<longrightarrow> unarmed w))
      (State_Monad.return (result\<lparr>ar_FallbackSequence := n, ar_FallbackAcknowledged := acknowledged safeResult\<rparr>,
        err @ safeErr)) failed_down" for safeErr safeResult n
    using assms(2) True by (auto simp: steps_def failed_down_def superseded_unsent_def)
  show ?thesis
    unfolding apply_recover_def
    using True
    by (simp only: simp_thms if_False)
      (intro executes_then steps_case_prod steps_bind [OF closing] finished exec_rules)
next
  case False
  then show ?thesis
    unfolding apply_recover_def
    by (intro down_failed)
      (simp, intro steps_bind [OF inhibit_down [OF assms(1)] down_steps [OF assms(1)]] exec_rules)
qed

lemma apply_failed_failed:
  assumes "machine_ok (e_fire E)"
  shows "steps (xstep (e_fire E) live) numbered (apply_failed E i causes d result err) failed_down"
  unfolding apply_failed_def Let_def
  by (intro executes_then apply_recover_failed [OF assms] exec_rules) auto

lemma apply_confirm_failed:
  assumes "settled_live result"
  shows "steps (xstep (e_fire E) live) numbered (apply_confirm E i causes d result) failed_down"
proof -
  have "steps (xstep (e_fire E) live) numbered (apply_confirm E i causes d result) (\<lambda>_. numbered)"
    by (intro exec_rules)
  moreover have "yields (apply_confirm E i causes d result) (\<lambda>r. settled_live (fst r))"
    unfolding apply_confirm_def
    by (intro yields_bind steps_if steps_case_prod yields_ret)
      (use assms in \<open>simp_all add: settled_live_def acknowledged_def\<close>)
  ultimately show ?thesis
    by (rule steps_conseq [OF steps_yields]) (simp_all add: failed_down_def)
qed

lemma apply_outcome_failed:
  assumes "machine_ok (e_fire E)" and "dec_Permit d \<Longrightarrow> settles (result, err)"
  shows "steps (xstep (e_fire E) live) numbered (apply_outcome E i causes d result err) failed_down"
proof -
  have safe: "steps (xstep (e_fire E) live) numbered (State_Monad.bind (inhibit E detail)
      (\<lambda>_. State_Monad.return (result, err))) failed_down" for detail
    by (intro down_failed steps_bind [OF inhibit_down [OF assms(1)]] down_steps [OF assms(1)] exec_rules)
  have beat: "steps (xstep (e_fire E) live) numbered (State_Monad.bind (locked_heartbeat E)
      (\<lambda>_. State_Monad.return (result, nil))) failed_down"
    by (rule steps_bind [where R = "\<lambda>_. numbered"], intro exec_rules) (simp add: steps_def failed_down_def)
  show ?thesis
    unfolding apply_outcome_def Let_def
    using assms(2) by (intro steps_if safe beat apply_failed_failed [OF assms(1)] apply_confirm_failed) auto
qed


lemma apply_active_failed:
  assumes "machine_ok (e_fire E)" and "cx_Deadline c = Some dl"
  shows "steps (xstep (e_fire E) True) (\<lambda>w. numbered w \<and> au_active w = i)
    (apply_active E c i request requested d) (\<lambda>r w. failed_down r w \<and> au_active w = i)"
proof -
  have "stable_under (xstep (e_fire E) True) (\<lambda>w. au_active w = i)"
    by (auto simp: stable_under_def xstep_frame)
  from steps_frame [OF apply_active_steps [OF assms(2)
        apply_outcome_failed [OF assms(1)] down_failed [OF apply_unrecorded_down [OF assms(1)]]
        down_failed [OF apply_refused_down [OF assms(1)]]] this]
  show ?thesis .
qed

lemma endApply_failed:
  assumes "machine_ok (e_fire E)"
  shows "steps (astep (e_fire E)) (\<lambda>w. failed_down r w \<and> au_active w = i) (endApply E i)
    (\<lambda>_ w. failed_down r w)"
proof -
  have "stable_under (xstep (e_fire E) False) (failed_down r)"
    unfolding stable_under_def failed_down_def
    using xstep_numbered [of "e_fire E" False] xstep_kept [OF kept_unarmed [OF assms], of False]
    by (auto simp: stable_under_def)
  from steps_frame [OF quiet_executes(1) this] have
    yielded: "steps (astep (e_fire E)) (failed_down r) (yield_point E) (\<lambda>_. failed_down r)"
    by (rule exec_steps [OF steps_conseq]) (auto simp: failed_down_def)
  have "steps (astep (e_fire E)) (failed_down r)
      (modify (\<lambda>w. if au_active w = i then w\<lparr>au_active := 0, au_activeLive := False, au_activeSending := False,
        au_activeInput := zero_decision, au_activeCancel := False\<rparr> else w)) (\<lambda>_ w. failed_down r w)"
    by (auto simp: steps_def modify_def failed_down_def numbered_def intro: astep.end_apply)
  then show ?thesis
    unfolding endApply_def by (intro steps_pre [OF steps_bind [OF yielded]]) auto
qed

lemma apply_run_failed:
  assumes "machine_ok (e_fire E)"
  shows "steps (astep (e_fire E)) (begun_post (Inr (c, d, i)))
     (State_Monad.bind (apply_active E c i request requested d)
        (\<lambda>r. State_Monad.bind (endApply E i) (\<lambda>_. State_Monad.return r))) failed_down"
proof (cases "cx_Deadline c")
  case None
  then show ?thesis by (simp add: steps_def)
next
  case (Some dl)
  have "steps (astep (e_fire E)) (begun_post (Inr (c, d, i))) (apply_active E c i request requested d)
      (\<lambda>r w. failed_down r w \<and> au_active w = i)"
    by (rule exec_steps [OF steps_pre [OF apply_active_failed [OF assms Some]]]) auto
  then show ?thesis
    by (rule steps_bind) (intro steps_bind [OF endApply_failed [OF assms]] steps_ret)
qed

lemma apply_invalid_failed:
  assumes "machine_ok (e_fire E)"
  shows "steps (xstep (e_fire E) False) numbered (apply_invalid E request err) failed_down"
proof -
  have early: "steps (xstep (e_fire E) False) numbered (State_Monad.return (zero_result, e)) failed_down" for e
    by (simp add: steps_def failed_down_def zero_result_def)
  show ?thesis
    unfolding apply_invalid_def Let_def
    by (intro executes_then quiet_executes steps_if early down_failed steps_bind [OF inhibit_down [OF assms]]
        down_steps [OF assms] exec_rules)
qed

lemma Apply_failed:
  assumes "machine_ok (e_fire E)"
  shows "steps (astep (e_fire E)) at_rest (Apply E ctx0 request) failed_down"
proof -
  have quiet_ops: "operates E (validContext E co)" "operates E (acquire E c)" for co c
    by (rule executes_operates, intro exec_rules)+
  have early: "steps (astep (e_fire E)) at_rest (State_Monad.return (zero_result\<lparr>ar_Requested := q\<rparr>, e)) failed_down"
    "steps (astep (e_fire E)) at_rest (State_Monad.return (zero_result, e)) failed_down" for q e
    by (simp_all add: steps_def failed_down_def zero_result_def at_rest_def)
  have invalid: "steps (astep (e_fire E)) at_rest (apply_invalid E request err) failed_down" for err
    by (rule exec_steps [OF steps_pre [OF apply_invalid_failed [OF assms]]]) (simp add: at_rest_def)
  have begun: "steps (astep (e_fire E)) (begun_post b)
      (case b of Inl err \<Rightarrow> State_Monad.return (zero_result\<lparr>ar_Requested := requested\<rparr>, err)
       | Inr (c, d, i) \<Rightarrow> State_Monad.bind (apply_active E c i request requested d)
           (\<lambda>r. State_Monad.bind (endApply E i) (\<lambda>_. State_Monad.return r))) failed_down" for b requested
    using apply_run_failed [OF assms] early(1) by (cases b) auto
  show ?thesis
    unfolding Apply_def
    by (intro steps_bind [OF quiet_ops(1)] any_option any_if any_sum steps_bind [OF quiet_ops(2)]
        steps_bind [OF beginApply_steps] invalid early begun)
qed

text \<open>C4. A failed Apply that issued a command leaves the guard disarmed, so authority does not
  survive uncertainty. The only exceptions are the two documented ones: ordinary input superseded the
  intent before any send, no evidence failed and the fallback was acknowledged; or the live command had
  been acknowledged, with durable evidence of it, before the change of authority was noticed. A
  revocation noticed before the send is not among them.\<close>

theorem failed_apply_disarms:
  assumes "machine_ok (e_fire E)" and "NewAuthorityWithGuard config g ev act = Inr a"
    and "ac_CommandTTL config \<le> max_i64"
    and "run_state (Apply E ctx0 request) (history E (world_of a) ops) = ((result, err), w')"
    and "err \<noteq> nil" and "ar_CommandSequence result \<noteq> 0"
    and "\<not> (errors_Is err ErrIntentSuperseded \<and> \<not> errors_Is err ErrEvidence
            \<and> \<not> errors_Is err ErrEvidenceIdentity \<and> ar_FallbackAcknowledged result)"
    and "\<not> (acknowledged result \<and> ar_OutcomeEvidenceID result \<noteq> [] \<and> \<not> ar_Fallback result)"
  shows "g_lifecycle (au_guard w') \<noteq> LifecycleArmed"
proof -
  have "at_rest (history E (world_of a) ops)"
    using history_refines [OF new_authority_rest [OF assms(2,3)]] by blast
  from steps_post [OF Apply_failed [OF assms(1)] this, of ctx0 request] assms(4-8) show ?thesis
    unfolding failed_down_def superseded_unsent_def settled_live_def by auto
qed

end
