(* ===== verification/AuthorityWitness.thy ===== *)
theory AuthorityWitness
  imports AuthorityOutcomes
begin

text \<open>
  A concrete authority and environment, in which the hypotheses of the authority's theorems
  hold: a guard without a dead-man control, clocks that stand still, an evidence adapter,
  a policy and an actuator that always succeed.
\<close>

definition demo_ack :: "u64 \<Rightarrow> ActuatorAcknowledgment" where
  "demo_ack n = \<lparr>ack_ControllerSession = 7, ack_Sequence = n, ack_Accepted = True, ack_AppliedAt = 1000,
     ack_Detail = []\<rparr>"

definition demo_permission :: PolicyDecision where
  "demo_permission = \<lparr>pd_Permit = True, pd_PolicyID = ''p'', pd_Subject = ''s'', pd_Authorization = ''g'',
     pd_ExpiresAt = 100000, pd_Detail = [], pd_Proof = []\<rparr>"

definition demo_env_with :: "(receipt \<Rightarrow> ActuatorAcknowledgment) \<Rightarrow> env" where
  "demo_env_with acks = \<lparr>e_fire = table_fire, e_view = (\<lambda>_. demo_view), e_interference = (\<lambda>_. []),
     e_ctx = (\<lambda>_ _. CtxAlive), e_expired_first = (\<lambda>_. False), e_sys = (\<lambda>_. 1000),
     e_now = (\<lambda>_. Finished 1000), e_acquire = (\<lambda>_ _. nil),
     e_commit = (\<lambda>_ _. Finished (''id'', nil)),
     e_send = (\<lambda>_ c. Finished (Some (unat (ac_Sequence c)), nil)),
     e_await = (\<lambda>_ r. Finished (acks r, nil)),
     e_policy = (\<lambda>_ _. Finished (demo_permission, nil)),
     e_quote = (\<lambda>s. s), e_text = (\<lambda>_. ''error'')\<rparr>"

definition demo_env :: env where
  "demo_env = demo_env_with (\<lambda>r. demo_ack (of_nat r))"

definition demo_config :: AuthorityConfig where
  "demo_config = \<lparr>ac_EngineeredSafeState = \<lparr>cmd_Name = ''stop'', cmd_Payload = None\<rparr>, ac_CommandTTL = 500,
     ac_Policy = True, ac_RequireAppliedAcknowledgment = False\<rparr>"

definition demo_authority :: authority where
  "demo_authority = projr (NewAuthorityWithGuard demo_config (Some (newGuard default_options)) True True)"

definition demo_ctx :: ctx where
  "demo_ctx = \<lparr>cx_Caller = True, cx_Op = False, cx_Deadline = None\<rparr>"

definition demo_request :: "string \<Rightarrow> ApplyRequest" where
  "demo_request name = \<lparr>rq_Intent = \<lparr>cmd_Name = name, cmd_Payload = None\<rparr>, rq_Causes = [], rq_Detail = []\<rparr>"

definition demo_ops :: "authority_op list" where
  "demo_ops = [DoBind (Some demo_ctx) (Some demo_source), DoArm (Some demo_ctx) ''go'',
     DoApply (Some demo_ctx) (demo_request ''run'')]"

definition demo_world :: world where
  "demo_world = history demo_env (world_of demo_authority) demo_ops"

lemma demo_new: "NewAuthorityWithGuard demo_config (Some (newGuard default_options)) True True = Inr demo_authority"
  by code_simp

lemma demo_ttl: "ac_CommandTTL demo_config \<le> max_i64"
  by (simp add: demo_config_def max_i64_def)

lemma demo_policy: "ac_Policy demo_config"
  by (simp add: demo_config_def)

lemma demo_machine: "machine_ok (e_fire (demo_env_with acks))" "machine_ok (e_fire demo_env)"
  by (simp_all add: demo_env_def demo_env_with_def machine_ok_table_fire)

text \<open>What the run is used for: it sends a fallback and a live command, and the live command is
  acknowledged as applied.\<close>

definition demo_check :: "world \<Rightarrow> bool" where
  "demo_check w \<longleftrightarrow> length (live_sends (w_trace w)) = 1 \<and> length (filter is_send (w_trace w)) = 2
     \<and> au_previousApplied w = Some \<lparr>enc_Name = ''run'', enc_Payload = []\<rparr> \<and> w_issued w = 2"

lemma demo_run: "demo_check demo_world"
  by code_simp

lemma live_sends_split:
  "live_sends tr \<noteq> [] \<Longrightarrow> \<exists>post n e pre. tr = post @ TSend n e # pre \<and> \<not> ac_Fallback e"
proof (induction tr rule: live_sends.induct)
  case (2 n e tr)
  then show ?case by (cases "ac_Fallback e") (auto, metis append_Cons, metis append_Nil)
qed (auto, (metis append_Cons)+)

lemma two_sends_split:
  assumes "length (filter is_send tr) = 2"
  shows "\<exists>later n e mid n' e' pre. tr = later @ TSend n e # mid @ TSend n' e' # pre"
proof -
  obtain x y where "filter is_send tr = [x, y]"
    using assms by (metis (no_types, lifting) One_nat_def Suc_1 length_0_conv length_Suc_conv)
  then have x: "filter is_send tr = x # [y]" by simp
  from filter_eq_ConsD [OF x] obtain us us' where 1: "tr = us @ x # us'" "is_send x" "[y] = filter is_send us'"
    by blast
  from filter_eq_ConsD [OF 1(3) [symmetric]] obtain vs vs' where 2: "us' = vs @ y # vs'" "is_send y"
    by blast
  from 1(2) 2(2) obtain n e n' e' where "x = TSend n e" "y = TSend n' e'"
    by (cases x; cases y) auto
  with 1(1) 2(1) show ?thesis by blast
qed

lemmas demo_facts = demo_run [unfolded demo_check_def]

theorem live_send_justified_witness:
  "\<exists>post n e d current rest intent decision p.
     w_trace demo_world = post @ TSend n e # TPreflight d current # rest \<and> \<not> ac_Fallback e
     \<and> dec_Permit current \<and> TCommitted decision (ac_DecisionID e) \<in> set rest
     \<and> er_Decision decision = Some d \<and> TCommitted intent (ac_IntentID e) \<in> set rest
     \<and> er_Applied intent = Some (ac_Command e) \<and> er_Policy decision = Some p \<and> pd_Permit p"
proof -
  have "live_sends (w_trace demo_world) \<noteq> []"
    using demo_facts by auto
  then obtain post n e pre where "w_trace demo_world = post @ TSend n e # pre" "\<not> ac_Fallback e"
    using live_sends_split by blast
  with live_send_justified [OF demo_new demo_ttl, of demo_env demo_ops post n e pre] demo_policy show ?thesis
    unfolding demo_world_def by metis
qed

theorem fallback_is_safe_state_witness:
  "\<exists>post n e pre. w_trace demo_world = post @ TSend n e # pre \<and> 0 < ac_TTL e \<and> ac_TTL e \<le> 500"
proof -
  obtain post n e pre where "w_trace demo_world = post @ TSend n e # pre"
    using two_sends_split demo_facts by metis
  with fallback_is_safe_state [OF demo_new demo_ttl, of demo_env demo_ops post n e pre] show ?thesis
    unfolding demo_world_def by (auto simp: demo_config_def)
qed

theorem send_sequence_increases_witness:
  "\<exists>later n e mid n' e' pre. w_trace demo_world = later @ TSend n e # mid @ TSend n' e' # pre
     \<and> ac_Sequence e' < ac_Sequence e"
proof -
  obtain later n e mid n' e' pre where "w_trace demo_world = later @ TSend n e # mid @ TSend n' e' # pre"
    using two_sends_split demo_facts by metis
  with send_sequence_increases [OF demo_new demo_ttl, of demo_env demo_ops later n e mid n' e' pre] demo_facts
  show ?thesis unfolding demo_world_def by fastforce
qed

theorem previous_applied_acknowledged_witness:
  "\<exists>e (ack :: ActuatorAcknowledgment). last_send (w_trace demo_world) = Some e \<and> enc_Name (ac_Command e) = ''run'' \<and> ack_Accepted ack
     \<and> ack_AppliedAt ack < ac_ExpiresAt e"
proof -
  have "au_previousApplied (history demo_env (world_of demo_authority) demo_ops)
      = Some \<lparr>enc_Name = ''run'', enc_Payload = []\<rparr>"
    using demo_facts by (simp add: demo_world_def)
  from previous_applied_acknowledged [OF demo_new demo_ttl this] obtain e :: ActuatorCommand
      and ack :: ActuatorAcknowledgment where
    "last_send (w_trace demo_world) = Some e" "ac_Command e = \<lparr>enc_Name = ''run'', enc_Payload = []\<rparr>"
    "ack_Accepted ack" "ack_AppliedAt ack < ac_ExpiresAt e"
    unfolding demo_world_def by blast
  then show ?thesis by (intro exI [of _ e] exI [of _ ack]) simp
qed

text \<open>An actuator that never acknowledges makes the binding fail, which closes the authority.\<close>

definition demo_silent :: env where
  "demo_silent = demo_env_with (\<lambda>_. zero_ack)"

definition demo_closed :: "authority_op list \<Rightarrow> world" where
  "demo_closed later = history demo_silent (world_of demo_authority)
     (DoBind (Some demo_ctx) (Some demo_source) # later)"

definition demo_closed_check :: "world \<Rightarrow> bool" where
  "demo_closed_check w \<longleftrightarrow> au_closed w \<and> w_epochs w = 0"

lemma demo_closed_run:
  "demo_closed_check (demo_closed [DoApply (Some demo_ctx) (demo_request ''run'')])" "demo_closed_check (demo_closed [])"
  by code_simp+

theorem closed_sends_nothing_live_witness:
  "live_sends (w_trace (demo_closed [DoApply (Some demo_ctx) (demo_request ''run'')]))
   = live_sends (w_trace (demo_closed []))"
  using closed_sends_nothing_live [OF demo_machine(1) demo_new demo_ttl, of "\<lambda>_. zero_ack"
      "[DoBind (Some demo_ctx) (Some demo_source)]" "[DoApply (Some demo_ctx) (demo_request ''run'')]"]
    demo_closed_run
  by (simp add: demo_closed_check_def demo_closed_def demo_silent_def)

text \<open>An EmergencyStop that waits while a Reset that began after its first step holds the token, and then
  gets it.\<close>

definition demo_stopping :: "(timestamp \<times> go_error) \<times> world" where
  "demo_stopping = run_state (safe_request demo_env LifecycleEmergencyStop ''stop'' False) demo_world"

definition demo_reset :: world where
  "demo_reset = history demo_env (snd demo_stopping) [DoReset (Some demo_ctx) ''again'']"

lemma demo_acquires: "fst (run_state (acquireSafety (demo_env_with acks)) w) = nil"
  by (simp add: acquireSafety_def safetyContext_def with_timeout_def acquire_def yield_point_def next_tick_def
      modify_def demo_env_with_def)


text \<open>An actuator that acknowledges only the first command, the safe state of the binding, rejects
  the safe state that an Apply without authority selects.\<close>

definition demo_rejecting :: env where
  "demo_rejecting = demo_env_with (\<lambda>r. if r = 1 then demo_ack 1
     else zero_ack\<lparr>ack_ControllerSession := 7, ack_Sequence := of_nat r\<rparr>)"

definition demo_bound :: world where
  "demo_bound = history demo_rejecting (world_of demo_authority) [DoBind (Some demo_ctx) (Some demo_source)]"

definition demo_failed :: "(ApplyResult \<times> go_error) \<times> world" where
  "demo_failed = run_state (Apply demo_rejecting (Some demo_ctx) (demo_request ''run'')) demo_bound"

definition demo_failed_check :: "ApplyResult \<times> go_error \<Rightarrow> bool" where
  "demo_failed_check r \<longleftrightarrow> snd r = [ErrActuatorRejected] \<and> ar_CommandSequence (fst r) = 2
     \<and> \<not> acknowledged (fst r)"

lemma demo_failed_run: "demo_failed_check (fst demo_failed)"
  by code_simp

theorem failed_apply_disarms_witness:
  "snd (fst demo_failed) = [ErrActuatorRejected]
   \<and> g_lifecycle (au_guard (snd demo_failed)) \<noteq> LifecycleArmed"
proof -
  obtain result err w' where r: "demo_failed = ((result, err), w')"
    by (cases demo_failed) auto
  have "err = [ErrActuatorRejected]" "ar_CommandSequence result = 2" "\<not> acknowledged result"
    using demo_failed_run by (simp_all add: demo_failed_check_def r)
  with failed_apply_disarms [OF demo_machine(1) demo_new demo_ttl
      r [unfolded demo_failed_def demo_bound_def demo_rejecting_def]]
  show ?thesis by (simp add: r)
qed

end
