(* ===== verification/StrictJson.thy ===== *)
theory StrictJson
  imports Prelude
begin

text \<open>
  The ambiguity filter of \<^verbatim>\<open>internal/strictjson/strictjson.go\<close>. The tokenizer of
  \<^verbatim>\<open>encoding/json\<close> is the parameter \<open>tokens\<close>: the token stream of a document, in which a \<open>None\<close> is the
  syntax error \<^verbatim>\<open>Token\<close> reports at that point and the end of the list is \<^verbatim>\<open>io.EOF\<close>.

  \<open>scan\<close> and its loop \<open>scan_members\<close> carry fuel; \<open>Validate\<close> supplies \<open>2 * n + 2\<close> for \<open>n\<close> tokens, which \<open>scan_enough\<close>
  shows to suffice for every document. \<open>json_value\<close> is the grammar they implement.
\<close>

datatype token = Delim char | Text string | Scalar_token

type_synonym decoder = "token option list"

definition rejected :: go_error where
  "rejected = [ErrText ''strictjson'']"

definition next_token :: "decoder \<Rightarrow> go_error + (token \<times> decoder)" where
  "next_token d = (case d of [] \<Rightarrow> Inl [ErrText ''EOF'']
     | None # _ \<Rightarrow> Inl rejected | Some t # d' \<Rightarrow> Inr (t, d'))"

definition more :: "decoder \<Rightarrow> bool" where
  "more d = (case d of [] \<Rightarrow> False
     | Some (Delim c) # _ \<Rightarrow> c \<noteq> CHR '']'' \<and> c \<noteq> CHR ''}'' | _ \<Rightarrow> True)"

definition closes :: "char \<Rightarrow> token \<Rightarrow> bool" where
  "closes delim t \<longleftrightarrow> \<not> (delim = CHR ''{'' \<and> t \<noteq> Delim (CHR ''}''))
     \<and> \<not> (delim = CHR ''['' \<and> t \<noteq> Delim (CHR '']''))"

fun scan :: "nat \<Rightarrow> decoder \<Rightarrow> nat \<Rightarrow> (go_error + decoder) option"
and scan_members :: "nat \<Rightarrow> char \<Rightarrow> string list \<Rightarrow> decoder \<Rightarrow> nat \<Rightarrow> (go_error + decoder) option" where
  "scan 0 d depth = None"
| "scan (Suc fuel) d depth =
     (if depth > 32 then Some (Inl rejected)
      else case next_token d of
        Inl err \<Rightarrow> Some (Inl err)
      | Inr (Delim delim, d') \<Rightarrow>
          if delim \<noteq> CHR ''{'' \<and> delim \<noteq> CHR ''['' then Some (Inl rejected)
          else scan_members fuel delim [] d' depth
      | Inr (_, d') \<Rightarrow> Some (Inr d'))"
| "scan_members 0 delim seen d depth = None"
| "scan_members (Suc fuel) delim seen d depth =
     (if more d then
        (if delim = CHR ''{'' then
           (case next_token d of
              Inl err \<Rightarrow> Some (Inl err)
            | Inr (Text name, d') \<Rightarrow>
                if name \<in> set seen then Some (Inl rejected)
                else (case scan fuel d' (depth + 1) of
                    None \<Rightarrow> None | Some (Inl err) \<Rightarrow> Some (Inl err)
                  | Some (Inr d'') \<Rightarrow> scan_members fuel delim (name # seen) d'' depth)
            | Inr (_, d') \<Rightarrow> Some (Inl rejected))
         else (case scan fuel d (depth + 1) of
             None \<Rightarrow> None | Some (Inl err) \<Rightarrow> Some (Inl err)
           | Some (Inr d'') \<Rightarrow> scan_members fuel delim seen d'' depth))
      else (case next_token d of
          Inl err \<Rightarrow> Some (Inl err)
        | Inr (t, d') \<Rightarrow> if closes delim t then Some (Inr d') else Some (Inl rejected)))"

definition Validate :: "(string \<Rightarrow> decoder) \<Rightarrow> (string \<Rightarrow> bool) \<Rightarrow> string \<Rightarrow> int \<Rightarrow> go_error" where
  "Validate tokens utf8_valid data maximum =
     (if data = [] \<or> int (length data) > maximum \<or> \<not> utf8_valid data then rejected
      else case scan (2 * length (tokens data) + 2) (tokens data) 0 of
        None \<Rightarrow> rejected
      | Some (Inl err) \<Rightarrow> err
      | Some (Inr d) \<Rightarrow> if d = [] then nil else rejected)"

text \<open>\<open>Object\<close>: the parsed fields must be exactly the named ones, none of them \<^verbatim>\<open>null\<close>. A raw
  value that \<^verbatim>\<open>json.Unmarshal\<close> returns begins and ends with an ASCII byte, so that \<^verbatim>\<open>bytes.TrimSpace\<close> can
  only remove ASCII spaces.\<close>

definition is_space :: "char \<Rightarrow> bool" where
  "is_space c \<longleftrightarrow> c \<in> {CHR 0x09, CHR 0x0A, CHR 0x0B, CHR 0x0C, CHR 0x0D, CHR '' ''}"

definition trim_space :: "string \<Rightarrow> string" where
  "trim_space s = rev (dropWhile is_space (rev (dropWhile is_space s)))"

definition Object ::
  "(string \<Rightarrow> (string, string) fmap option) \<Rightarrow> string \<Rightarrow> string list \<Rightarrow> go_error + (string, string) fmap" where
  "Object unmarshal data names = (case unmarshal data of
     None \<Rightarrow> Inl rejected
   | Some fields \<Rightarrow>
       if map_len fields \<noteq> length names then Inl rejected
       else if list_all (\<lambda>name. case fmlookup fields name of
           None \<Rightarrow> False | Some value \<Rightarrow> trim_space value \<noteq> ''null'') names
       then Inr fields else Inl rejected)"

subsection \<open>The fuel is enough\<close>

lemma next_token_shorter: "next_token d = Inr (t, d') \<Longrightarrow> length d = Suc (length d')"
  by (auto simp: next_token_def split: list.splits option.splits)

definition settles :: "nat \<Rightarrow> (go_error + decoder) option \<Rightarrow> bool" where
  "settles n r \<longleftrightarrow> (case r of None \<Rightarrow> False | Some (Inl _) \<Rightarrow> True | Some (Inr d) \<Rightarrow> length d < n)"

lemma settles_error [simp]: "settles n (Some (Inl e))"
  by (simp add: settles_def)

lemma settles_rest [simp]: "settles n (Some (Inr d)) \<longleftrightarrow> length d < n"
  by (simp add: settles_def)

lemma settles_bind:
  assumes "settles n r" and "\<And>d. length d < n \<Longrightarrow> settles m (f d)"
  shows "settles m (case r of None \<Rightarrow> None | Some (Inl e) \<Rightarrow> Some (Inl e) | Some (Inr d) \<Rightarrow> f d)"
  using assms by (cases r) (auto simp: settles_def split: sum.splits)

lemma settles_mono: "settles n r \<Longrightarrow> n \<le> m \<Longrightarrow> settles m r"
  by (auto simp: settles_def split: option.splits sum.splits)

text \<open>Scanning ends, and what is left is shorter than what it began with.\<close>

lemma scan_enough:
  "(2 * length d + 1 \<le> fuel \<longrightarrow> settles (length d) (scan fuel d depth))
   \<and> (2 * length d + 2 \<le> fuel \<longrightarrow> settles (length d) (scan_members fuel delim seen d depth))"
proof (induction fuel arbitrary: d depth delim seen)
  case (Suc fuel)
  have "settles (length d) (scan (Suc fuel) d depth)" if "2 * length d + 1 \<le> Suc fuel"
  proof (cases "next_token d")
    case (Inr r)
    then obtain t d' where r: "next_token d = Inr (t, d')" by (cases r) auto
    from next_token_shorter [OF this] that
    have "settles (length d) (scan_members fuel delim [] d' depth)" for delim
      using Suc.IH [of d' depth delim "[]"] by (auto elim: settles_mono)
    then show ?thesis using r next_token_shorter [OF r] by (auto split: token.split)
  qed auto
  moreover have "settles (length d) (scan_members (Suc fuel) delim seen d depth)" if f: "2 * length d + 2 \<le> Suc fuel"
  proof -
    have rec: "settles (length d) (case scan fuel d1 (depth + 1) of None \<Rightarrow> None | Some (Inl e) \<Rightarrow> Some (Inl e)
        | Some (Inr d2) \<Rightarrow> scan_members fuel delim seen' d2 depth)" if "length d1 \<le> length d" for d1 seen'
    proof (rule settles_bind [where n = "length d1"])
      show "settles (length d1) (scan fuel d1 (depth + 1))"
        using Suc.IH [of d1 "depth + 1"] f that by simp
      show "settles (length d) (scan_members fuel delim seen' d2 depth)" if "length d2 < length d1" for d2
        using Suc.IH [of d2 depth delim seen'] f that \<open>length d1 \<le> length d\<close> by (auto elim: settles_mono)
    qed
    show ?thesis
    proof (cases "next_token d")
      case (Inl e)
      then show ?thesis using rec [of d] by simp
    next
      case (Inr r)
      then obtain t d' where r: "next_token d = Inr (t, d')" by (cases r) auto
      from next_token_shorter [OF this] show ?thesis
        using rec [of d] rec [of d'] r by (auto split: token.split)
    qed
  qed
  ultimately show ?case by blast
qed simp

declare scan.simps(2) [simp del] scan_members.simps(2) [simp del]

subsection \<open>The grammar\<close>

text \<open>
  A value starting at nesting \<open>depth\<close>, the members of an object with the names already \<open>seen\<close>, and the
  elements of an array, each up to and including the closing delimiter.
\<close>

inductive json_value :: "nat \<Rightarrow> decoder \<Rightarrow> decoder \<Rightarrow> bool"
  and json_members :: "nat \<Rightarrow> string set \<Rightarrow> decoder \<Rightarrow> decoder \<Rightarrow> bool"
  and json_elements :: "nat \<Rightarrow> decoder \<Rightarrow> decoder \<Rightarrow> bool" where
  scalar: "depth \<le> 32 \<Longrightarrow> (\<And>c. t \<noteq> Delim c) \<Longrightarrow> json_value depth (Some t # d) d"
| object: "depth \<le> 32 \<Longrightarrow> json_members depth {} d d' \<Longrightarrow> json_value depth (Some (Delim (CHR ''{'')) # d) d'"
| array: "depth \<le> 32 \<Longrightarrow> json_elements depth d d' \<Longrightarrow> json_value depth (Some (Delim (CHR ''['')) # d) d'"
| no_member: "json_members depth seen (Some (Delim (CHR ''}'')) # d) d"
| member: "name \<notin> seen \<Longrightarrow> json_value (Suc depth) d d' \<Longrightarrow> json_members depth (insert name seen) d' d''
    \<Longrightarrow> json_members depth seen (Some (Text name) # d) d''"
| no_element: "json_elements depth (Some (Delim (CHR '']'')) # d) d"
| element: "json_value (Suc depth) d d' \<Longrightarrow> json_elements depth d' d'' \<Longrightarrow> json_elements depth d d''"

inductive_cases json_value_cases: "json_value depth d d'"

lemma value_starts: "json_value depth d d' \<Longrightarrow> more d \<and> d \<noteq> []"
  by (erule json_value_cases) (auto simp: more_def split: token.splits)

lemma next_token_Inr: "next_token d = Inr (t, d') \<longleftrightarrow> d = Some t # d'"
  by (auto simp: next_token_def split: list.splits option.splits)

lemma scan_Suc_Inr:
  "scan (Suc fuel) d depth = Some (Inr d') \<longleftrightarrow> depth \<le> 32 \<and> (\<exists>t d1. d = Some t # d1 \<and>
     (case t of Delim c \<Rightarrow> (c = CHR ''{'' \<or> c = CHR ''['') \<and> scan_members fuel c [] d1 depth = Some (Inr d')
      | _ \<Rightarrow> d' = d1))"
  by (cases d) (auto simp: scan.simps(2) next_token_def split: option.splits token.splits)

lemma members_Suc_Inr:
  "scan_members (Suc fuel) delim seen d depth = Some (Inr d') \<longleftrightarrow>
     (if more d then
        if delim = CHR ''{'' then
          \<exists>name d1 d2. d = Some (Text name) # d1 \<and> name \<notin> set seen \<and> scan fuel d1 (Suc depth) = Some (Inr d2)
            \<and> scan_members fuel delim (name # seen) d2 depth = Some (Inr d')
        else \<exists>d2. scan fuel d (Suc depth) = Some (Inr d2) \<and> scan_members fuel delim seen d2 depth = Some (Inr d')
      else \<exists>t. d = Some t # d' \<and> closes delim t)"
  by (cases d) (auto simp: scan_members.simps(2) next_token_def more_def split: sum.splits token.splits option.splits)

lemmas grammar_intros = json_value_json_members_json_elements.intros

lemma scan_sound:
  "(scan fuel d depth = Some (Inr d') \<longrightarrow> json_value depth d d')
   \<and> (scan_members fuel (CHR ''{'') seen d depth = Some (Inr d') \<longrightarrow> json_members depth (set seen) d d')
   \<and> (scan_members fuel (CHR ''['') [] d depth = Some (Inr d') \<longrightarrow> json_elements depth d d')"
proof (induction fuel arbitrary: d depth seen d')
  case (Suc fuel)
  have "json_value depth d d'" if "scan (Suc fuel) d depth = Some (Inr d')"
  proof -
    from that obtain t d1 where d: "depth \<le> 32" "d = Some t # d1" and t: "case t of
        Delim c \<Rightarrow> (c = CHR ''{'' \<or> c = CHR ''['') \<and> scan_members fuel c [] d1 depth = Some (Inr d') | _ \<Rightarrow> d' = d1"
      by (auto simp: scan_Suc_Inr)
    from Suc.IH [where d = d1 and depth = depth and seen = "[]" and d' = d'] have
      "scan_members fuel (CHR ''{'') [] d1 depth = Some (Inr d') \<Longrightarrow> json_members depth {} d1 d'"
      "scan_members fuel (CHR ''['') [] d1 depth = Some (Inr d') \<Longrightarrow> json_elements depth d1 d'" by auto
    with d t show ?thesis by (cases t) (auto intro: grammar_intros)
  qed
  moreover have "json_members depth (set seen) d d'"
    if "scan_members (Suc fuel) (CHR ''{'') seen d depth = Some (Inr d')"
  proof (cases "more d")
    case True
    with that obtain name d1 d2 where d: "d = Some (Text name) # d1" "name \<notin> set seen"
      and sub: "scan fuel d1 (Suc depth) = Some (Inr d2)"
        "scan_members fuel (CHR ''{'') (name # seen) d2 depth = Some (Inr d')"
      by (auto simp: members_Suc_Inr)
    from sub Suc.IH have "json_value (Suc depth) d1 d2" "json_members depth (set (name # seen)) d2 d'" by blast+
    with d show ?thesis by (auto intro: grammar_intros)
  next
    case False
    with that show ?thesis by (auto simp: members_Suc_Inr closes_def intro: grammar_intros)
  qed
  moreover have "json_elements depth d d'"
    if "scan_members (Suc fuel) (CHR ''['') [] d depth = Some (Inr d')"
  proof (cases "more d")
    case True
    with that obtain d2 where "scan fuel d (Suc depth) = Some (Inr d2)"
      "scan_members fuel (CHR ''['') [] d2 depth = Some (Inr d')"
      by (auto simp: members_Suc_Inr)
    with Suc.IH have "json_value (Suc depth) d d2" "json_elements depth d2 d'" by blast+
    then show ?thesis by (rule grammar_intros)
  next
    case False
    with that show ?thesis by (auto simp: members_Suc_Inr closes_def intro: grammar_intros)
  qed
  ultimately show ?case by blast
qed simp

lemma scan_more_fuel:
  "(scan fuel d depth = Some r \<longrightarrow> scan (Suc fuel) d depth = Some r)
   \<and> (scan_members fuel delim seen d depth = Some r \<longrightarrow> scan_members (Suc fuel) delim seen d depth = Some r)"
proof (induction fuel arbitrary: d depth delim seen r)
  case (Suc fuel)
  have "scan (Suc (Suc fuel)) d depth = Some r" if "scan (Suc fuel) d depth = Some r"
    using that Suc.IH unfolding scan.simps(2) [of "Suc fuel"] scan.simps(2) [of fuel]
    by (auto split: if_splits sum.splits token.splits)
  moreover have "scan_members (Suc (Suc fuel)) delim seen d depth = Some r"
    if "scan_members (Suc fuel) delim seen d depth = Some r"
  proof -
    have rec: "(case scan (Suc fuel) d1 (depth + 1) of None \<Rightarrow> None | Some (Inl e) \<Rightarrow> Some (Inl e)
        | Some (Inr d2) \<Rightarrow> scan_members (Suc fuel) delim seen' d2 depth) = Some r"
      if "(case scan fuel d1 (depth + 1) of None \<Rightarrow> None | Some (Inl e) \<Rightarrow> Some (Inl e)
        | Some (Inr d2) \<Rightarrow> scan_members fuel delim seen' d2 depth) = Some r" for d1 seen'
      using that Suc.IH by (cases "scan fuel d1 (depth + 1)") (auto split: sum.splits)
    show ?thesis
    proof (cases "next_token d")
      case (Inl e)
      with that rec [where ?d1.0 = d] show ?thesis by (auto simp: scan_members.simps(2) split: if_splits)
    next
      case (Inr x)
      then obtain t d1 where "next_token d = Inr (t, d1)" by (cases x) auto
      with that rec [where ?d1.0 = d] rec [where ?d1.0 = d1] show ?thesis
        by (cases t) (auto simp: scan_members.simps(2) split: if_splits)
    qed
  qed
  ultimately show ?case by blast
qed simp

lemma scan_fuel_mono:
  "fuel \<le> fuel' \<Longrightarrow> scan fuel d depth = Some r \<Longrightarrow> scan fuel' d depth = Some r"
  "fuel \<le> fuel' \<Longrightarrow> scan_members fuel delim seen d depth = Some r
    \<Longrightarrow> scan_members fuel' delim seen d depth = Some r"
  by (induction rule: dec_induct) (use scan_more_fuel in blast)+

lemma scan_complete:
  "json_value depth d d' \<Longrightarrow> \<exists>fuel. scan fuel d depth = Some (Inr d')"
  "json_members depth seen d d' \<Longrightarrow> \<forall>ns. set ns = seen \<longrightarrow> (\<exists>fuel. scan_members fuel (CHR ''{'') ns d depth = Some (Inr d'))"
  "json_elements depth d d' \<Longrightarrow> \<exists>fuel. scan_members fuel (CHR ''['') [] d depth = Some (Inr d')"
proof (induction rule: json_value_json_members_json_elements.inducts)
  case (scalar depth t d)
  then have "scan (Suc 0) (Some t # d) depth = Some (Inr d)"
    by (auto simp: scan_Suc_Inr split: token.splits)
  then show ?case ..
next
  case (object depth d d')
  then obtain fuel where "scan_members fuel (CHR ''{'') [] d depth = Some (Inr d')" by auto
  with object(1) have "scan (Suc fuel) (Some (Delim (CHR ''{'')) # d) depth = Some (Inr d')"
    by (simp add: scan_Suc_Inr)
  then show ?case ..
next
  case (array depth d d')
  then obtain fuel where "scan_members fuel (CHR ''['') [] d depth = Some (Inr d')" by auto
  with array(1) have "scan (Suc fuel) (Some (Delim (CHR ''['')) # d) depth = Some (Inr d')"
    by (simp add: scan_Suc_Inr)
  then show ?case ..
next
  case (no_member depth seen d)
  have "scan_members (Suc 0) (CHR ''{'') ns (Some (Delim (CHR ''}'')) # d) depth = Some (Inr d)" for ns
    by (simp add: members_Suc_Inr more_def closes_def)
  then show ?case by blast
next
  case (member name seen depth d d' d'')
  show ?case
  proof (intro allI impI)
    fix ns assume ns: "set ns = seen"
    from member ns obtain a b where a: "scan a d (Suc depth) = Some (Inr d')"
      and b: "scan_members b (CHR ''{'') (name # ns) d' depth = Some (Inr d'')"
      by (metis list.simps(15))
    have "scan_members (Suc (max a b)) (CHR ''{'') ns (Some (Text name) # d) depth = Some (Inr d'')"
      using scan_fuel_mono(1) [OF _ a, of "max a b"] scan_fuel_mono(2) [OF _ b, of "max a b"] member(1) ns
      by (simp add: members_Suc_Inr more_def)
    then show "\<exists>fuel. scan_members fuel (CHR ''{'') ns (Some (Text name) # d) depth = Some (Inr d'')" ..
  qed
next
  case (no_element depth d)
  have "scan_members (Suc 0) (CHR ''['') [] (Some (Delim (CHR '']'')) # d) depth = Some (Inr d)"
    by (simp add: members_Suc_Inr more_def closes_def)
  then show ?case ..
next
  case (element depth d d' d'')
  then obtain a b where a: "scan a d (Suc depth) = Some (Inr d')"
    and b: "scan_members b (CHR ''['') [] d' depth = Some (Inr d'')" by blast
  have "scan_members (Suc (max a b)) (CHR ''['') [] d depth = Some (Inr d'')"
    using scan_fuel_mono(1) [OF _ a, of "max a b"] scan_fuel_mono(2) [OF _ b, of "max a b"]
      value_starts [OF element(1)]
    by (simp add: members_Suc_Inr)
  then show ?case ..
qed

lemma scan_error_not_nil:
  "(scan fuel d depth = Some (Inl e) \<longrightarrow> e \<noteq> nil)
   \<and> (scan_members fuel delim seen d depth = Some (Inl e) \<longrightarrow> e \<noteq> nil)"
proof (induction fuel arbitrary: d depth delim seen e)
  case (Suc fuel)
  have IH: "scan fuel d depth \<noteq> Some (Inl nil)" "scan_members fuel delim seen d depth \<noteq> Some (Inl nil)"
    for d depth delim seen using Suc.IH by blast+
  have token: "next_token d = Inl e \<Longrightarrow> e \<noteq> nil" for d :: decoder and e
    by (auto simp: next_token_def rejected_def split: list.splits option.splits)
  have "e \<noteq> nil" if "scan (Suc fuel) d depth = Some (Inl e)"
    using that IH token by (auto simp: scan.simps(2) rejected_def split: if_splits sum.splits token.splits)
  moreover have "e \<noteq> nil" if "scan_members (Suc fuel) delim seen d depth = Some (Inl e)"
    using that IH token
    by (auto simp: scan_members.simps(2) rejected_def split: if_splits sum.splits token.splits option.splits)
  ultimately show ?case by blast
qed simp

text \<open>
  C32. \<open>Validate\<close> always returns, and accepts exactly the non-empty UTF-8 documents within the size limit
  whose tokens are one JSON value, nested at most 32 levels deep, in which no object repeats a field name.
\<close>

theorem validate_iff_grammar:
  "Validate tokens utf8_valid data maximum = nil \<longleftrightarrow>
     data \<noteq> [] \<and> int (length data) \<le> maximum \<and> utf8_valid data \<and> json_value 0 (tokens data) []"
proof -
  let ?d = "tokens data" and ?fuel = "2 * length (tokens data) + 2"
  have "settles (length ?d) (scan ?fuel ?d 0)" using scan_enough [of ?d ?fuel] by simp
  then obtain r where r: "scan ?fuel ?d 0 = Some r" by (auto simp: settles_def split: option.splits)
  have "r = Inr [] \<longleftrightarrow> json_value 0 ?d []"
  proof
    assume "json_value 0 ?d []"
    then obtain fuel where "scan fuel ?d 0 = Some (Inr [])" using scan_complete(1) by blast
    then have "scan (max fuel ?fuel) ?d 0 = Some (Inr [])" by (rule scan_fuel_mono(1) [rotated]) simp
    moreover from r have "scan (max fuel ?fuel) ?d 0 = Some r" by (rule scan_fuel_mono(1) [rotated]) simp
    ultimately show "r = Inr []" by simp
  qed (use r scan_sound in blast)
  moreover have "err \<noteq> nil" if "r = Inl err" for err
    using r that scan_error_not_nil by blast
  ultimately show ?thesis using r
    by (auto simp: Validate_def rejected_def split: sum.splits)
qed

end
