(* ===== verification/Policy.thy ===== *)
theory Policy
  imports Authority StrictJson
begin

text \<open>
  The default-deny command policy of \<^verbatim>\<open>policy/policy.go\<close> and the operator grants of
  \<^verbatim>\<open>policy/grant.go\<close>: the construction and validation of a policy, strict decoding of command
  payloads, the static envelope, grants, and the evaluation the authority and the receiver call.

  \<^verbatim>\<open>encoding/json\<close>, \<^verbatim>\<open>crypto/sha256\<close> and \<^verbatim>\<open>crypto/ed25519\<close> are the fields of the parameter \<open>library\<close>; no theorem
  assumes anything of them but what its statement says. A Go map is a finite map. Where the code returns from inside a loop over
  a map, which of several failing entries it reports depends on Go's iteration order; here
  the error is the same for all of them.
\<close>

record Scalar =
  sc_Value :: fp
  sc_Unit :: string

record ScalarCommand =
  co_Actuator :: string
  co_Mode :: string
  co_Values :: "(string, Scalar) fmap"

record Limit =
  li_Unit :: string
  li_Minimum :: fp
  li_Maximum :: fp
  li_MaximumRate :: fp

record Rule =
  ru_Actuator :: string
  ru_Mode :: string
  ru_Fields :: "(string, Limit) fmap"
  ru_From :: "string list"

record PolicyConfig =
  pc_ID :: string
  pc_AuthorityKey :: string
  pc_MaximumGrantTTL :: duration
  pc_Rules :: "(string, Rule) fmap"

record Policy =
  po_config :: PolicyConfig
  po_identity :: string

record Scope =
  so_Command :: string
  so_Actuator :: string
  so_Mode :: string

record Grant =
  gr_ID :: string
  gr_Subject :: string
  gr_Session :: session_id
  gr_NotBefore :: timestamp
  gr_ExpiresAt :: timestamp
  gr_Scopes :: "Scope list"

record SignedGrant =
  sg_Grant :: Grant
  sg_Signature :: string

record library =
  lib_tokens :: "string \<Rightarrow> decoder"
  lib_utf8 :: "string \<Rightarrow> bool"
  lib_fields :: "string \<Rightarrow> (string, string) fmap option"
  lib_float :: "string \<Rightarrow> fp option"
  lib_put_float :: "fp \<Rightarrow> string option"
  lib_command :: "string \<Rightarrow> ScalarCommand option"
  lib_put_config :: "PolicyConfig \<Rightarrow> string option"
  lib_config :: "string \<Rightarrow> PolicyConfig option"
  lib_put_grant :: "Grant \<Rightarrow> string option"
  lib_put_signed :: "SignedGrant \<Rightarrow> string option"
  lib_sha256_hex :: "string \<Rightarrow> string"
  lib_verify :: "string \<Rightarrow> string \<Rightarrow> string \<Rightarrow> bool"
  lib_sign :: "string \<Rightarrow> string \<Rightarrow> string"
  lib_public :: "string \<Rightarrow> string"
  lib_text :: "go_error \<Rightarrow> string"

text \<open>The error of a failed library call: which one it is, and its text, are not modelled.\<close>

definition library_error :: go_error where "library_error = [ErrText ''library'']"

definition maximumPayload :: int where "maximumPayload = 64 * 1024"
definition PublicKeySize :: nat where "PublicKeySize = 32"
definition PrivateKeySize :: nat where "PrivateKeySize = 64"

definition refuse :: "string \<Rightarrow> go_error" where "refuse s = [ErrText s]"

definition fp_finite :: "fp \<Rightarrow> bool" where
  "fp_finite value \<longleftrightarrow> \<not> is_nan value \<and> \<not> is_inf value"

subsection \<open>Construction\<close>

definition valid_limit :: "string \<Rightarrow> Limit \<Rightarrow> bool" where
  "valid_limit field limit \<longleftrightarrow> \<not> (field = [] \<or> li_Unit limit = []
     \<or> fp_lt (li_Maximum limit) (li_Minimum limit) \<or> fp_lt (li_MaximumRate limit) (Fin 0)
     \<or> \<not> fp_finite (li_Minimum limit) \<or> \<not> fp_finite (li_Maximum limit) \<or> \<not> fp_finite (li_MaximumRate limit))"

definition valid_transition :: "PolicyConfig \<Rightarrow> Rule \<Rightarrow> string \<Rightarrow> bool" where
  "valid_transition config rule from = (case fmlookup (pc_Rules config) from of
     None \<Rightarrow> False
   | Some previous \<Rightarrow> ru_Actuator previous = ru_Actuator rule
       \<and> fmpred (\<lambda>field limit. fp_lt (Fin 0) (li_MaximumRate limit) \<longrightarrow>
           (case fmlookup (ru_Fields previous) field of
              None \<Rightarrow> False | Some baseline \<Rightarrow> li_Unit baseline = li_Unit limit)) (ru_Fields rule))"

definition valid_rule :: "PolicyConfig \<Rightarrow> string \<Rightarrow> Rule \<Rightarrow> bool" where
  "valid_rule config name rule \<longleftrightarrow>
     \<not> (name = [] \<or> ru_Actuator rule = [] \<or> ru_Mode rule = [] \<or> map_len (ru_Fields rule) = 0
        \<or> map_len (ru_Fields rule) > 64 \<or> ru_From rule = [])
     \<and> fmpred valid_limit (ru_Fields rule)
     \<and> list_all (valid_transition config rule) (ru_From rule)"

definition Policy_New :: "library \<Rightarrow> PolicyConfig \<Rightarrow> go_error + Policy" where
  "Policy_New L config =
     (if pc_ID config = [] \<or> length (pc_AuthorityKey config) \<noteq> PublicKeySize
         \<or> pc_MaximumGrantTTL config \<le> 0 \<or> map_len (pc_Rules config) = 0 \<or> map_len (pc_Rules config) > 256
      then Inl (refuse ''policy: invalid identity, key, grant TTL or rules'')
      else case lib_put_config L config of
        None \<Rightarrow> Inl library_error
      | Some encoded \<Rightarrow>
          if int (length encoded) > maximumPayload then Inl (refuse ''policy: configuration too large'')
          else case lib_config L encoded of
            None \<Rightarrow> Inl library_error
          | Some frozen \<Rightarrow>
              if \<not> fmpred (valid_rule frozen) (pc_Rules frozen) then Inl (refuse ''policy: invalid rule'')
              else Inr \<lparr>po_config = frozen,
                po_identity = pc_ID config @ '':sha256:'' @ lib_sha256_hex L encoded\<rparr>)"

subsection \<open>Strict decoding\<close>

definition canonical_scalar :: "library \<Rightarrow> string \<Rightarrow> bool" where
  "canonical_scalar L scalar = (case Object (lib_fields L) scalar [''unit'', ''value''] of
     Inl err \<Rightarrow> False
   | Inr obj \<Rightarrow> (case fmlookup obj ''value'' of
       None \<Rightarrow> False
     | Some raw \<Rightarrow> (case lib_float L raw of
         None \<Rightarrow> False
       | Some numeric \<Rightarrow> (case lib_put_float L numeric of
           None \<Rightarrow> False | Some canonical \<Rightarrow> trim_space raw = canonical))))"

definition Decode :: "library \<Rightarrow> string \<Rightarrow> go_error + ScalarCommand" where
  "Decode L encoded =
     (let err = Validate (lib_tokens L) (lib_utf8 L) encoded maximumPayload in
      if err \<noteq> nil then Inl err
      else case Object (lib_fields L) encoded [''actuator'', ''mode'', ''values''] of
        Inl err \<Rightarrow> Inl err
      | Inr obj \<Rightarrow> (case fmlookup obj ''values'' of
          None \<Rightarrow> Inl rejected
        | Some raw \<Rightarrow> (case lib_fields L raw of
            None \<Rightarrow> Inl library_error
          | Some values \<Rightarrow>
              if map_len values = 0 \<or> map_len values > 64 then Inl (refuse ''policy: invalid scalar count'')
              else if \<not> fmpred (\<lambda>_. canonical_scalar L) values
              then Inl (refuse ''policy: scalar must be canonical finite float64 JSON'')
              else case lib_command L encoded of None \<Rightarrow> Inl library_error | Some command \<Rightarrow> Inr command)))"

subsection \<open>Envelope\<close>

definition within_limit :: "ScalarCommand \<Rightarrow> string \<Rightarrow> Limit \<Rightarrow> bool" where
  "within_limit decoded name limit = (case fmlookup (co_Values decoded) name of
     None \<Rightarrow> False
   | Some value \<Rightarrow> \<not> (sc_Unit value \<noteq> li_Unit limit \<or> \<not> fp_finite (sc_Value value)
       \<or> fp_lt (sc_Value value) (li_Minimum limit) \<or> fp_lt (li_Maximum limit) (sc_Value value)))"

definition policy_validate :: "library \<Rightarrow> Policy \<Rightarrow> EncodedCommand \<Rightarrow> go_error + (ScalarCommand \<times> Rule)" where
  "policy_validate L p command = (case fmlookup (pc_Rules (po_config p)) (enc_Name command) of
     None \<Rightarrow> Inl (refuse ''unknown command'')
   | Some rule \<Rightarrow> (case Decode L (enc_Payload command) of
       Inl err \<Rightarrow> Inl err
     | Inr decoded \<Rightarrow>
         if co_Actuator decoded \<noteq> ru_Actuator rule \<or> co_Mode decoded \<noteq> ru_Mode rule
            \<or> map_len (co_Values decoded) \<noteq> map_len (ru_Fields rule)
         then Inl (refuse ''actuator, mode or scalar set mismatch'')
         else if \<not> fmpred (within_limit decoded) (ru_Fields rule) then Inl (refuse ''scalar outside envelope'')
         else Inr (decoded, rule)))"

definition ValidateEnvelope :: "library \<Rightarrow> Policy \<Rightarrow> EncodedCommand \<Rightarrow> go_error" where
  "ValidateEnvelope L p command = (case policy_validate L p command of Inl err \<Rightarrow> err | Inr _ \<Rightarrow> nil)"

subsection \<open>Grants\<close>

definition grantBytes :: "library \<Rightarrow> Grant \<Rightarrow> go_error + string" where
  "grantBytes L g =
     (if gr_ID g = [] \<or> gr_Subject g = [] \<or> gr_Session g = 0 \<or> gr_NotBefore g = zero_time
         \<or> \<not> gr_ExpiresAt g > gr_NotBefore g \<or> gr_Scopes g = [] \<or> length (gr_Scopes g) > 256
      then Inl (refuse ''policy: incomplete grant'')
      else if list_ex (\<lambda>s. so_Command s = [] \<or> so_Actuator s = [] \<or> so_Mode s = []) (gr_Scopes g)
      then Inl (refuse ''policy: incomplete scope'')
      else case lib_put_grant L g of
        None \<Rightarrow> Inl library_error
      | Some encoded \<Rightarrow>
          if int (length encoded) > maximumPayload then Inl (refuse ''policy: grant too large'')
          else Inr (''teleop/operator-grant/v1'' @ [CHR 0x00] @ encoded))"

definition SignGrant :: "library \<Rightarrow> string \<Rightarrow> Grant \<Rightarrow> go_error + SignedGrant" where
  "SignGrant L private g =
     (if length private \<noteq> PrivateKeySize then Inl (refuse ''policy: invalid signing key'')
      else case grantBytes L g of
        Inl err \<Rightarrow> Inl err
      | Inr encoded \<Rightarrow> Inr \<lparr>sg_Grant = g, sg_Signature = lib_sign L private encoded\<rparr>)"

definition verifyGrant :: "library \<Rightarrow> Policy \<Rightarrow> SignedGrant \<Rightarrow> session_id \<Rightarrow> timestamp \<Rightarrow> Scope \<Rightarrow> go_error" where
  "verifyGrant L p credential session now scope = (case grantBytes L (sg_Grant credential) of
     Inl err \<Rightarrow> err
   | Inr encoded \<Rightarrow>
       if \<not> lib_verify L (pc_AuthorityKey (po_config p)) encoded (sg_Signature credential)
       then refuse ''operator grant signature invalid''
       else let g = sg_Grant credential in
         if gr_Session g \<noteq> session \<or> now < gr_NotBefore g \<or> \<not> now < gr_ExpiresAt g
            \<or> time_sub (gr_ExpiresAt g) (gr_NotBefore g) > pc_MaximumGrantTTL (po_config p)
            \<or> scope \<notin> set (gr_Scopes g)
         then refuse ''operator grant outside session, time or scope''
         else nil)"

subsection \<open>Evaluation\<close>

text \<open>What \<open>Evaluate\<close> reads of its context: its error and the grant it carries.\<close>

record grant_ctx =
  gx_Err :: go_error
  gx_Grant :: "SignedGrant option"

text \<open>\<^verbatim>\<open>Duration.Seconds\<close>: whole seconds plus the rest divided by \<open>1e9\<close>, each in float64.\<close>

definition duration_seconds :: "duration \<Rightarrow> fp" where
  "duration_seconds d =
     (let sec = sgn d * (\<bar>d\<bar> div 1000000000); nsec = d - sec * 1000000000
      in fp_add f64 (round_fp f64 (of_int sec)) (fp_div f64 (round_fp f64 (of_int nsec)) (Fin 1000000000)))"

definition value_of :: "ScalarCommand \<Rightarrow> string \<Rightarrow> fp" where
  "value_of c field = (case fmlookup (co_Values c) field of None \<Rightarrow> Fin 0 | Some s \<Rightarrow> sc_Value s)"

definition within_slew :: "ScalarCommand \<Rightarrow> ScalarCommand \<Rightarrow> fp \<Rightarrow> string \<Rightarrow> Limit \<Rightarrow> bool" where
  "within_slew command previous seconds field limit \<longleftrightarrow>
     fp_eq (li_MaximumRate limit) (Fin 0)
     \<or> (case fmlookup (co_Values previous) field of
          None \<Rightarrow> False
        | Some baseline \<Rightarrow> \<not> (sc_Unit baseline \<noteq> li_Unit limit
            \<or> fp_lt seconds (fp_div f64 (fp_abs (fp_sub f64 (value_of command field) (sc_Value baseline)))
                (li_MaximumRate limit))))"

definition Policy_Evaluate ::
  "library \<Rightarrow> Policy \<Rightarrow> grant_ctx \<Rightarrow> PolicyRequest \<Rightarrow> PolicyDecision \<times> go_error" where
  "Policy_Evaluate L p c request =
     (let decision = zero_policy\<lparr>pd_PolicyID := po_identity p\<rparr>;
          deny = \<lambda>d err. (d\<lparr>pd_Detail := lib_text L err\<rparr>, [ErrCommandPolicy] @ err)
      in if gx_Err c \<noteq> nil then deny decision (gx_Err c)
      else if \<not> dec_Permit (pr_Input request) \<or> pr_EvaluatedAt request = zero_time \<or> pr_ControllerSession request = 0
      then deny decision (refuse ''missing interlock or session/time identity'')
      else case policy_validate L p (pr_Command request) of
        Inl err \<Rightarrow> deny decision err
      | Inr (command, rule) \<Rightarrow> (case gx_Grant c of
          None \<Rightarrow> deny decision (refuse ''operator grant missing'')
        | Some credential \<Rightarrow>
            let decision = decision\<lparr>pd_Subject := gr_Subject (sg_Grant credential),
                  pd_Authorization := gr_ID (sg_Grant credential), pd_ExpiresAt := gr_ExpiresAt (sg_Grant credential)\<rparr>
            in case lib_put_signed L credential of
              None \<Rightarrow> deny decision library_error
            | Some encoded \<Rightarrow>
                let decision = decision\<lparr>pd_Proof := encoded\<rparr>;
                    err = verifyGrant L p credential (pr_ControllerSession request) (pr_EvaluatedAt request)
                      \<lparr>so_Command = enc_Name (pr_Command request), so_Actuator = co_Actuator command,
                       so_Mode = co_Mode command\<rparr>
                in if err \<noteq> nil then deny decision err
                else case pr_PreviousApplied request of
                  None \<Rightarrow> deny decision (refuse ''acknowledged baseline missing or from the future'')
                | Some baseline \<Rightarrow>
                    if pr_PreviouslyAppliedAt request = zero_time
                       \<or> pr_PreviouslyAppliedAt request > pr_EvaluatedAt request
                    then deny decision (refuse ''acknowledged baseline missing or from the future'')
                    else case policy_validate L p baseline of
                      Inl err \<Rightarrow> deny decision err
                    | Inr (previous, _) \<Rightarrow>
                        if enc_Name baseline \<notin> set (ru_From rule)
                        then deny decision (refuse ''mode/command transition forbidden'')
                        else if \<not> fmpred (within_slew command previous
                            (duration_seconds (time_sub (pr_EvaluatedAt request) (pr_PreviouslyAppliedAt request))))
                            (ru_Fields rule)
                        then deny decision (refuse ''scalar exceeds slew limit'')
                        else (decision\<lparr>pd_Permit := True\<rparr>, nil)))"

end
