(* ===== verification/PolicySafety.thy ===== *)
theory PolicySafety
  imports Policy
begin

text \<open>
  What the command policy guarantees: a policy that \<open>New\<close> accepts is well formed
  (\<open>policy_ok\<close>), \<open>Evaluate\<close> permits exactly the commands its specification names, every permitted value lies
  within its configured limits, and a refusal never permits.
\<close>

subsection \<open>The envelope\<close>

text \<open>The command is the one its rule describes, with exactly the rule's scalars, each in range.\<close>

definition in_envelope :: "library \<Rightarrow> Policy \<Rightarrow> EncodedCommand \<Rightarrow> ScalarCommand \<Rightarrow> Rule \<Rightarrow> bool" where
  "in_envelope L p e command rule \<longleftrightarrow>
     fmlookup (pc_Rules (po_config p)) (enc_Name e) = Some rule
     \<and> Decode L (enc_Payload e) = Inr command
     \<and> co_Actuator command = ru_Actuator rule \<and> co_Mode command = ru_Mode rule
     \<and> fmdom (co_Values command) = fmdom (ru_Fields rule)
     \<and> (\<forall>field limit. fmlookup (ru_Fields rule) field = Some limit \<longrightarrow>
          (\<exists>v. fmlookup (co_Values command) field = Some v \<and> sc_Unit v = li_Unit limit
             \<and> fp_finite (sc_Value v) \<and> \<not> fp_lt (sc_Value v) (li_Minimum limit)
             \<and> \<not> fp_lt (li_Maximum limit) (sc_Value v)))"

lemma fmpredD: "fmpred P m \<longleftrightarrow> (\<forall>k v. fmlookup m k = Some v \<longrightarrow> P k v)"
  by (auto simp: fmpred_iff)

lemma within_limit_iff:
  "within_limit c field limit \<longleftrightarrow> (\<exists>v. fmlookup (co_Values c) field = Some v \<and> sc_Unit v = li_Unit limit
     \<and> fp_finite (sc_Value v) \<and> \<not> fp_lt (sc_Value v) (li_Minimum limit) \<and> \<not> fp_lt (li_Maximum limit) (sc_Value v))"
  by (auto simp: within_limit_def split: option.splits)

text \<open>As many scalars as the rule has fields, and one for each field: then there is no other scalar.\<close>

lemma same_fields:
  assumes "map_len m = map_len m'" and "\<And>k v. fmlookup m' k = Some v \<Longrightarrow> fmlookup m k \<noteq> None"
  shows "fmdom m = fmdom m'"
proof -
  from assms(2) have "fmdom m' |\<subseteq>| fmdom m"
    by (metis fmdomI fmdom_notD fsubsetI fmlookup_dom_iff not_None_eq)
  moreover have "fcard (fmdom m) \<le> fcard (fmdom m')" using assms(1) by (simp add: map_len_def)
  ultimately show ?thesis by (metis fcard_seteq)
qed

lemma policy_validate_iff:
  "policy_validate L p e = Inr (command, rule) \<longleftrightarrow> in_envelope L p e command rule"
proof
  assume "policy_validate L p e = Inr (command, rule)"
  then have v: "fmlookup (pc_Rules (po_config p)) (enc_Name e) = Some rule" "Decode L (enc_Payload e) = Inr command"
    "co_Actuator command = ru_Actuator rule" "co_Mode command = ru_Mode rule"
    "map_len (co_Values command) = map_len (ru_Fields rule)" "fmpred (within_limit command) (ru_Fields rule)"
    by (auto simp: policy_validate_def split: option.splits sum.splits if_splits)
  from v(6) have fields: "\<And>field limit. fmlookup (ru_Fields rule) field = Some limit \<Longrightarrow> within_limit command field limit"
    by (simp add: fmpredD)
  from v(5) have "fmdom (co_Values command) = fmdom (ru_Fields rule)"
    by (rule same_fields) (use fields within_limit_iff in fastforce)
  with v fields show "in_envelope L p e command rule"
    by (simp add: in_envelope_def within_limit_iff)
next
  assume "in_envelope L p e command rule"
  then show "policy_validate L p e = Inr (command, rule)"
    by (auto simp: in_envelope_def policy_validate_def map_len_def fmpredD within_limit_iff)
qed

subsection \<open>Well-formed policies\<close>

definition policy_ok :: "PolicyConfig \<Rightarrow> bool" where
  "policy_ok config \<longleftrightarrow> (\<forall>name rule. fmlookup (pc_Rules config) name = Some rule \<longrightarrow>
     (\<forall>field limit. fmlookup (ru_Fields rule) field = Some limit \<longrightarrow>
        (\<exists>lo hi rate. li_Minimum limit = Fin lo \<and> li_Maximum limit = Fin hi \<and> li_MaximumRate limit = Fin rate
           \<and> lo \<le> hi \<and> 0 \<le> rate))
     \<and> (\<forall>from\<in>set (ru_From rule). \<exists>previous. fmlookup (pc_Rules config) from = Some previous
          \<and> ru_Actuator previous = ru_Actuator rule
          \<and> (\<forall>field limit. fmlookup (ru_Fields rule) field = Some limit \<longrightarrow> li_MaximumRate limit \<noteq> Fin 0 \<longrightarrow>
               (\<exists>baseline. fmlookup (ru_Fields previous) field = Some baseline
                  \<and> li_Unit baseline = li_Unit limit))))"

lemma fp_finite_Fin: "fp_finite x \<longleftrightarrow> (\<exists>q. x = Fin q)"
  by (cases x) (auto simp: fp_finite_def)

lemma valid_transition_iff:
  "valid_transition config rule from \<longleftrightarrow> (\<exists>previous. fmlookup (pc_Rules config) from = Some previous
     \<and> ru_Actuator previous = ru_Actuator rule
     \<and> (\<forall>field limit. fmlookup (ru_Fields rule) field = Some limit \<longrightarrow> fp_lt (Fin 0) (li_MaximumRate limit) \<longrightarrow>
          (\<exists>baseline. fmlookup (ru_Fields previous) field = Some baseline \<and> li_Unit baseline = li_Unit limit)))"
proof -
  have "(case x of None \<Rightarrow> False | Some b \<Rightarrow> li_Unit b = u) \<longleftrightarrow> (\<exists>b. x = Some b \<and> li_Unit b = u)"
    for x :: "Limit option" and u by (cases x) auto
  then show ?thesis by (auto simp: valid_transition_def fmpredD split: option.splits)
qed

lemma Policy_New_ok:
  assumes "Policy_New L config = Inr p"
  shows "policy_ok (po_config p)"
proof -
  from assms have rules: "fmlookup (pc_Rules (po_config p)) name = Some rule \<Longrightarrow> valid_rule (po_config p) name rule" for name rule
    by (auto simp: Policy_New_def fmpredD split: if_splits option.splits)
  show ?thesis unfolding policy_ok_def
  proof (intro allI impI)
    fix name rule assume "fmlookup (pc_Rules (po_config p)) name = Some rule"
    from rules [OF this] have limits: "\<And>field limit. fmlookup (ru_Fields rule) field = Some limit \<Longrightarrow> valid_limit field limit"
      and trans: "\<And>from. from \<in> set (ru_From rule) \<Longrightarrow> valid_transition (po_config p) rule from"
      by (auto simp: valid_rule_def fmpredD list_all_iff)
    have finite: "\<exists>lo hi rate. li_Minimum limit = Fin lo \<and> li_Maximum limit = Fin hi \<and> li_MaximumRate limit = Fin rate
         \<and> lo \<le> hi \<and> 0 \<le> rate" if "fmlookup (ru_Fields rule) field = Some limit" for field limit
      using limits [OF that] by (auto simp: valid_limit_def fp_finite_Fin not_less)
    show "(\<forall>field limit. fmlookup (ru_Fields rule) field = Some limit \<longrightarrow>
        (\<exists>lo hi rate. li_Minimum limit = Fin lo \<and> li_Maximum limit = Fin hi \<and> li_MaximumRate limit = Fin rate
           \<and> lo \<le> hi \<and> 0 \<le> rate))
      \<and> (\<forall>from\<in>set (ru_From rule). \<exists>previous. fmlookup (pc_Rules (po_config p)) from = Some previous
          \<and> ru_Actuator previous = ru_Actuator rule
          \<and> (\<forall>field limit. fmlookup (ru_Fields rule) field = Some limit \<longrightarrow> li_MaximumRate limit \<noteq> Fin 0 \<longrightarrow>
               (\<exists>baseline. fmlookup (ru_Fields previous) field = Some baseline
                  \<and> li_Unit baseline = li_Unit limit)))"
    proof (intro conjI allI impI ballI)
      fix "from" assume "from \<in> set (ru_From rule)"
      from trans [OF this] obtain previous where prev: "fmlookup (pc_Rules (po_config p)) from = Some previous"
        "ru_Actuator previous = ru_Actuator rule"
        "\<And>field limit. fmlookup (ru_Fields rule) field = Some limit \<Longrightarrow> fp_lt (Fin 0) (li_MaximumRate limit) \<Longrightarrow>
           (\<exists>baseline. fmlookup (ru_Fields previous) field = Some baseline \<and> li_Unit baseline = li_Unit limit)"
        by (auto simp: valid_transition_iff)
      have "fp_lt (Fin 0) (li_MaximumRate limit)"
        if "fmlookup (ru_Fields rule) field = Some limit" "li_MaximumRate limit \<noteq> Fin 0" for field limit
        using finite [OF that(1)] that(2) by auto
      with prev show "\<exists>previous. fmlookup (pc_Rules (po_config p)) from = Some previous
          \<and> ru_Actuator previous = ru_Actuator rule
          \<and> (\<forall>field limit. fmlookup (ru_Fields rule) field = Some limit \<longrightarrow> li_MaximumRate limit \<noteq> Fin 0 \<longrightarrow>
               (\<exists>baseline. fmlookup (ru_Fields previous) field = Some baseline \<and> li_Unit baseline = li_Unit limit))"
        by blast
    qed (rule finite)
  qed
qed

subsection \<open>Grants\<close>

lemma grantBytes_not_nil: "grantBytes L g \<noteq> Inl nil"
  by (auto simp: grantBytes_def refuse_def library_error_def split: option.splits)

definition granted :: "library \<Rightarrow> Policy \<Rightarrow> SignedGrant \<Rightarrow> session_id \<Rightarrow> timestamp \<Rightarrow> Scope \<Rightarrow> bool" where
  "granted L p credential session now scope \<longleftrightarrow> (\<exists>message.
     grantBytes L (sg_Grant credential) = Inr message
     \<and> lib_verify L (pc_AuthorityKey (po_config p)) message (sg_Signature credential)
     \<and> gr_Session (sg_Grant credential) = session \<and> scope \<in> set (gr_Scopes (sg_Grant credential))
     \<and> gr_NotBefore (sg_Grant credential) \<le> now \<and> now < gr_ExpiresAt (sg_Grant credential)
     \<and> time_sub (gr_ExpiresAt (sg_Grant credential)) (gr_NotBefore (sg_Grant credential))
         \<le> pc_MaximumGrantTTL (po_config p))"

lemma verifyGrant_iff:
  "verifyGrant L p credential session now scope = nil \<longleftrightarrow> granted L p credential session now scope"
  using grantBytes_not_nil [of L "sg_Grant credential"]
  by (auto simp: verifyGrant_def granted_def refuse_def Let_def split: sum.splits)

subsection \<open>Evaluation\<close>

text \<open>The command may follow the acknowledged baseline: the transition is listed and every slew limit is kept.\<close>

definition may_follow :: "Policy \<Rightarrow> library \<Rightarrow> PolicyRequest \<Rightarrow> ScalarCommand \<Rightarrow> Rule \<Rightarrow> bool" where
  "may_follow p L q command rule \<longleftrightarrow> (\<exists>baseline previous rule'.
     pr_PreviousApplied q = Some baseline
     \<and> pr_PreviouslyAppliedAt q \<noteq> zero_time \<and> pr_PreviouslyAppliedAt q \<le> pr_EvaluatedAt q
     \<and> in_envelope L p baseline previous rule' \<and> enc_Name baseline \<in> set (ru_From rule)
     \<and> (\<forall>field limit. fmlookup (ru_Fields rule) field = Some limit \<longrightarrow>
          within_slew command previous
            (duration_seconds (time_sub (pr_EvaluatedAt q) (pr_PreviouslyAppliedAt q))) field limit))"

definition command_scope :: "PolicyRequest \<Rightarrow> ScalarCommand \<Rightarrow> Scope" where
  "command_scope q command = \<lparr>so_Command = enc_Name (pr_Command q), so_Actuator = co_Actuator command,
     so_Mode = co_Mode command\<rparr>"

text \<open>What follows the grant check.\<close>

definition follow_up ::
  "library \<Rightarrow> Policy \<Rightarrow> PolicyRequest \<Rightarrow> ScalarCommand \<Rightarrow> Rule \<Rightarrow> PolicyDecision \<Rightarrow> PolicyDecision \<times> go_error" where
  "follow_up L p request command rule decision =
     (let deny = \<lambda>err. (decision\<lparr>pd_Detail := lib_text L err\<rparr>, [ErrCommandPolicy] @ err) in
      case pr_PreviousApplied request of
        None \<Rightarrow> deny (refuse ''acknowledged baseline missing or from the future'')
      | Some baseline \<Rightarrow>
          if pr_PreviouslyAppliedAt request = zero_time \<or> pr_PreviouslyAppliedAt request > pr_EvaluatedAt request
          then deny (refuse ''acknowledged baseline missing or from the future'')
          else case policy_validate L p baseline of
            Inl err \<Rightarrow> deny err
          | Inr (previous, _) \<Rightarrow>
              if enc_Name baseline \<notin> set (ru_From rule) then deny (refuse ''mode/command transition forbidden'')
              else if \<not> fmpred (within_slew command previous
                  (duration_seconds (time_sub (pr_EvaluatedAt request) (pr_PreviouslyAppliedAt request))))
                  (ru_Fields rule)
              then deny (refuse ''scalar exceeds slew limit'')
              else (decision\<lparr>pd_Permit := True\<rparr>, nil))"

lemma follow_up_permits:
  assumes "\<not> pd_Permit d"
  shows "pd_Permit (fst (follow_up L p q command rule d)) \<longleftrightarrow> may_follow p L q command rule"
    and "snd (follow_up L p q command rule d) = nil \<longleftrightarrow> may_follow p L q command rule"
    and "may_follow p L q command rule \<Longrightarrow> fst (follow_up L p q command rule d) = d\<lparr>pd_Permit := True\<rparr>"
    and "errors_Is (snd (follow_up L p q command rule d)) ErrCommandPolicy \<longleftrightarrow> \<not> may_follow p L q command rule"
  using assms
  by (auto simp: follow_up_def may_follow_def fmpredD not_less simp flip: policy_validate_iff
      split: option.splits sum.splits)

lemma Policy_Evaluate_cases:
  obtains (deny) d err where "Policy_Evaluate L p c q = (d, [ErrCommandPolicy] @ err)" "\<not> pd_Permit d"
      "\<not> (gx_Err c = nil \<and> dec_Permit (pr_Input q) \<and> pr_EvaluatedAt q \<noteq> zero_time \<and> pr_ControllerSession q \<noteq> 0
         \<and> (\<exists>command rule credential evidence. in_envelope L p (pr_Command q) command rule
              \<and> gx_Grant c = Some credential \<and> lib_put_signed L credential = Some evidence
              \<and> granted L p credential (pr_ControllerSession q) (pr_EvaluatedAt q) (command_scope q command)))"
    | (grant) command rule credential evidence where
      "gx_Err c = nil" "dec_Permit (pr_Input q)" "pr_EvaluatedAt q \<noteq> zero_time" "pr_ControllerSession q \<noteq> 0"
      "in_envelope L p (pr_Command q) command rule" "gx_Grant c = Some credential"
      "lib_put_signed L credential = Some evidence"
      "granted L p credential (pr_ControllerSession q) (pr_EvaluatedAt q) (command_scope q command)"
      "Policy_Evaluate L p c q = follow_up L p q command rule
         (zero_policy\<lparr>pd_PolicyID := po_identity p, pd_Subject := gr_Subject (sg_Grant credential),
            pd_Authorization := gr_ID (sg_Grant credential), pd_ExpiresAt := gr_ExpiresAt (sg_Grant credential),
            pd_Proof := evidence\<rparr>)"
proof -
  have inl: "policy_validate L p e = Inl err \<Longrightarrow> \<not> in_envelope L p e command' rule'" for e err command' rule'
    by (metis policy_validate_iff sum.distinct(1))
  have inr: "policy_validate L p e = Inr x \<Longrightarrow> in_envelope L p e a b \<longleftrightarrow> x = (a, b)" for e x a b
    by (metis policy_validate_iff sum.inject(2))
  show ?thesis
  proof (cases "gx_Err c = nil \<and> dec_Permit (pr_Input q) \<and> pr_EvaluatedAt q \<noteq> zero_time \<and> pr_ControllerSession q \<noteq> 0")
    case False
    then show ?thesis
      by (intro deny [of "fst (Policy_Evaluate L p c q)" "tl (snd (Policy_Evaluate L p c q))"])
        (auto simp: Policy_Evaluate_def Let_def zero_policy_def)
  next
    case pre: True
    show ?thesis
    proof (cases "policy_validate L p (pr_Command q)")
      case (Inl err)
      then show ?thesis using pre inl [OF Inl]
        by (intro deny [of "fst (Policy_Evaluate L p c q)" err])
          (auto simp: Policy_Evaluate_def Let_def zero_policy_def)
    next
      case (Inr x)
      then obtain command rule where x: "policy_validate L p (pr_Command q) = Inr (command, rule)" by (cases x) auto
      then have env: "in_envelope L p (pr_Command q) a b \<longleftrightarrow> a = command \<and> b = rule" for a b
        by (auto simp: inr)
      consider (none) "gx_Grant c = None" | (unmarshalled) credential where "gx_Grant c = Some credential" "lib_put_signed L credential = None"
        | (some) credential evidence where "gx_Grant c = Some credential" "lib_put_signed L credential = Some evidence"
        by fastforce
      then show ?thesis
      proof cases
        case none
        then show ?thesis using pre x env
          by (intro deny [of "fst (Policy_Evaluate L p c q)" "tl (snd (Policy_Evaluate L p c q))"])
            (auto simp: Policy_Evaluate_def Let_def zero_policy_def)
      next
        case unmarshalled
        then show ?thesis using pre x env
          by (intro deny [of "fst (Policy_Evaluate L p c q)" "tl (snd (Policy_Evaluate L p c q))"])
            (auto simp: Policy_Evaluate_def Let_def zero_policy_def)
      next
        case some
        let ?scope = "command_scope q command"
        show ?thesis
        proof (cases "granted L p credential (pr_ControllerSession q) (pr_EvaluatedAt q) ?scope")
          case True
          then have "verifyGrant L p credential (pr_ControllerSession q) (pr_EvaluatedAt q)
            \<lparr>so_Command = enc_Name (pr_Command q), so_Actuator = co_Actuator command, so_Mode = co_Mode command\<rparr> = nil"
            by (simp add: verifyGrant_iff command_scope_def)
          then show ?thesis
            using pre x some True env
            by (intro grant [of command rule credential evidence])
              (simp_all add: Policy_Evaluate_def follow_up_def Let_def)
        next
          case False
          then have "verifyGrant L p credential (pr_ControllerSession q) (pr_EvaluatedAt q)
            \<lparr>so_Command = enc_Name (pr_Command q), so_Actuator = co_Actuator command, so_Mode = co_Mode command\<rparr> \<noteq> nil"
            by (simp add: verifyGrant_iff command_scope_def)
          with pre x some show ?thesis
            by (intro deny [of "fst (Policy_Evaluate L p c q)" "tl (snd (Policy_Evaluate L p c q))"])
              (use False env some in \<open>auto simp: Policy_Evaluate_def Let_def zero_policy_def\<close>)
        qed
      qed
    qed
  qed
qed

text \<open>
  C27. \<open>Evaluate\<close> permits a command exactly when its context is alive, the interlock permits, the
  request names a time and a session, the command lies in the envelope of its rule (exactly the rule's
  scalars, each in range), a grant signed by the policy's authority covers this command, session and time, and the
  command may follow the acknowledged baseline. Everything else is refused with \<open>ErrCommandPolicy\<close>,
  and a refusal never carries a permit.
\<close>

theorem policy_permits_iff:
  "(pd_Permit (fst (Policy_Evaluate L p c q)) \<longleftrightarrow>
     gx_Err c = nil \<and> dec_Permit (pr_Input q) \<and> pr_EvaluatedAt q \<noteq> zero_time \<and> pr_ControllerSession q \<noteq> 0
     \<and> (\<exists>command rule credential evidence. in_envelope L p (pr_Command q) command rule
          \<and> gx_Grant c = Some credential \<and> lib_put_signed L credential = Some evidence
          \<and> granted L p credential (pr_ControllerSession q) (pr_EvaluatedAt q) (command_scope q command)
          \<and> may_follow p L q command rule))
   \<and> (snd (Policy_Evaluate L p c q) = nil \<longleftrightarrow> pd_Permit (fst (Policy_Evaluate L p c q)))
   \<and> (errors_Is (snd (Policy_Evaluate L p c q)) ErrCommandPolicy \<longleftrightarrow> \<not> pd_Permit (fst (Policy_Evaluate L p c q)))"
proof (cases rule: Policy_Evaluate_cases [of L p c q])
  case (deny d err)
  then show ?thesis by auto
next
  case (grant command rule credential evidence)
  have unique: "a = command \<and> b = rule" if "in_envelope L p (pr_Command q) a b" for a b
    using that grant(5) unfolding in_envelope_def by auto
  have "\<not> pd_Permit (zero_policy\<lparr>pd_PolicyID := po_identity p, pd_Subject := gr_Subject (sg_Grant credential),
            pd_Authorization := gr_ID (sg_Grant credential), pd_ExpiresAt := gr_ExpiresAt (sg_Grant credential),
            pd_Proof := evidence\<rparr>)"
    by (simp add: zero_policy_def)
  note permits = follow_up_permits [OF this, where L = L and p = p and q = q and command = command and rule = rule, folded grant(9)]
  show ?thesis unfolding permits using grant(1-8) unique by blast
qed

text \<open>
  C28. Under a policy that \<open>New\<close> accepted, a permitted command carries exactly the scalars of its rule, in the
  configured units, each a finite number between the configured minimum and maximum; and the permission
  ends with the operator's grant, later than the evaluation.
\<close>

theorem permitted_values_in_range:
  assumes "Policy_New L config = Inr p" and "pd_Permit (fst (Policy_Evaluate L p c q))"
  shows "\<exists>command rule. Decode L (enc_Payload (pr_Command q)) = Inr command
    \<and> fmlookup (pc_Rules (po_config p)) (enc_Name (pr_Command q)) = Some rule
    \<and> fmdom (co_Values command) = fmdom (ru_Fields rule)
    \<and> (\<forall>field v. fmlookup (co_Values command) field = Some v \<longrightarrow>
         (\<exists>limit lo hi x. fmlookup (ru_Fields rule) field = Some limit \<and> sc_Unit v = li_Unit limit
            \<and> li_Minimum limit = Fin lo \<and> li_Maximum limit = Fin hi \<and> sc_Value v = Fin x \<and> lo \<le> x \<and> x \<le> hi))
    \<and> pr_EvaluatedAt q < pd_ExpiresAt (fst (Policy_Evaluate L p c q))"
proof -
  note ok = Policy_New_ok [OF assms(1)]
  from assms(2) obtain command rule credential evidence where
    env: "in_envelope L p (pr_Command q) command rule"
    and g: "granted L p credential (pr_ControllerSession q) (pr_EvaluatedAt q) (command_scope q command)"
    and e: "Policy_Evaluate L p c q = follow_up L p q command rule
         (zero_policy\<lparr>pd_PolicyID := po_identity p, pd_Subject := gr_Subject (sg_Grant credential),
            pd_Authorization := gr_ID (sg_Grant credential), pd_ExpiresAt := gr_ExpiresAt (sg_Grant credential),
            pd_Proof := evidence\<rparr>)"
    by (cases rule: Policy_Evaluate_cases [of L p c q]) auto
  then have "may_follow p L q command rule"
    using assms(2) follow_up_permits(1) by (simp add: zero_policy_def)
  then have "pd_ExpiresAt (fst (Policy_Evaluate L p c q)) = gr_ExpiresAt (sg_Grant credential)"
    by (simp add: e follow_up_permits(3) zero_policy_def)
  moreover from g have "pr_EvaluatedAt q < gr_ExpiresAt (sg_Grant credential)"
    by (auto simp: granted_def)
  ultimately have expiry: "pr_EvaluatedAt q < pd_ExpiresAt (fst (Policy_Evaluate L p c q))" by simp
  have "\<exists>limit lo hi x. fmlookup (ru_Fields rule) field = Some limit \<and> sc_Unit v = li_Unit limit
            \<and> li_Minimum limit = Fin lo \<and> li_Maximum limit = Fin hi \<and> sc_Value v = Fin x \<and> lo \<le> x \<and> x \<le> hi"
    if "fmlookup (co_Values command) field = Some v" for field v
  proof -
    from that env obtain limit where limit: "fmlookup (ru_Fields rule) field = Some limit"
      unfolding in_envelope_def by (metis fmdomE fmdomI)
    with env obtain v' where "fmlookup (co_Values command) field = Some v'" "sc_Unit v' = li_Unit limit"
      "fp_finite (sc_Value v')" "\<not> fp_lt (sc_Value v') (li_Minimum limit)" "\<not> fp_lt (li_Maximum limit) (sc_Value v')"
      unfolding in_envelope_def by blast
    with that have v: "sc_Unit v = li_Unit limit" "fp_finite (sc_Value v)"
      "\<not> fp_lt (sc_Value v) (li_Minimum limit)" "\<not> fp_lt (li_Maximum limit) (sc_Value v)"
      by auto
    from env have "fmlookup (pc_Rules (po_config p)) (enc_Name (pr_Command q)) = Some rule"
      by (simp add: in_envelope_def)
    with ok limit obtain lo hi where "li_Minimum limit = Fin lo" "li_Maximum limit = Fin hi"
      unfolding policy_ok_def by blast
    with v limit show ?thesis by (auto simp: fp_finite_Fin)
  qed
  with env expiry show ?thesis unfolding in_envelope_def by blast
qed

text \<open>
  C21. Under a policy that \<open>New\<close> accepted, the slew check never lacks its reference: whenever a listed
  transition is checked from a baseline in its envelope, the baseline carries every rate-limited scalar of the new
  command, in the same unit, and drives the same actuator.
\<close>

theorem slew_baseline_present:
  assumes "Policy_New L config = Inr p"
    and "policy_validate L p command = Inr (decoded, rule)"
    and "policy_validate L p baseline = Inr (previous, rule')"
    and "enc_Name baseline \<in> set (ru_From rule)"
  shows "co_Actuator previous = co_Actuator decoded
    \<and> (\<forall>field limit. fmlookup (ru_Fields rule) field = Some limit \<longrightarrow> li_MaximumRate limit \<noteq> Fin 0 \<longrightarrow>
         (\<exists>b. fmlookup (co_Values previous) field = Some b \<and> sc_Unit b = li_Unit limit))"
proof -
  note env = assms(2,3) [unfolded policy_validate_iff in_envelope_def]
  from Policy_New_ok [OF assms(1)] env(1) assms(4) obtain r where
    r: "fmlookup (pc_Rules (po_config p)) (enc_Name baseline) = Some r" "ru_Actuator r = ru_Actuator rule"
      "\<And>field limit. fmlookup (ru_Fields rule) field = Some limit \<Longrightarrow> li_MaximumRate limit \<noteq> Fin 0 \<Longrightarrow>
         \<exists>b. fmlookup (ru_Fields r) field = Some b \<and> li_Unit b = li_Unit limit"
    unfolding policy_ok_def by meson
  from r(1) env(2) have "r = rule'" by simp
  with r env show ?thesis by metis
qed

text \<open>
  A grant signed with the key whose public half the policy trusts is accepted exactly for its own
  session and scopes, inside its window, and only when the window is not longer than the policy allows; the only
  property of Ed25519 used is that a genuine signature verifies.
\<close>

theorem signed_grant_verifies:
  assumes "\<And>m. lib_verify L (lib_public L private) m (lib_sign L private m)"
    and "SignGrant L private g = Inr credential" and "pc_AuthorityKey (po_config p) = lib_public L private"
  shows "verifyGrant L p credential session now scope = nil \<longleftrightarrow>
    gr_Session g = session \<and> scope \<in> set (gr_Scopes g) \<and> gr_NotBefore g \<le> now \<and> now < gr_ExpiresAt g
    \<and> time_sub (gr_ExpiresAt g) (gr_NotBefore g) \<le> pc_MaximumGrantTTL (po_config p)"
proof -
  from assms(2) obtain message where "grantBytes L g = Inr message"
    "credential = \<lparr>sg_Grant = g, sg_Signature = lib_sign L private message\<rparr>"
    by (auto simp: SignGrant_def split: if_splits sum.splits)
  with assms(1,3) show ?thesis by (auto simp: verifyGrant_iff granted_def)
qed

subsection \<open>Witnesses\<close>

definition demo_rule :: Rule where
  "demo_rule = \<lparr>ru_Actuator = ''rudder'', ru_Mode = ''manual'',
     ru_Fields = fmap_of_list [(''x'', \<lparr>li_Unit = ''deg'', li_Minimum = Fin 0, li_Maximum = Fin 2, li_MaximumRate = Fin 1\<rparr>)],
     ru_From = [''steer'']\<rparr>"

definition demo_policy_config :: PolicyConfig where
  "demo_policy_config = \<lparr>pc_ID = ''p'', pc_AuthorityKey = replicate 32 (CHR ''k''), pc_MaximumGrantTTL = 100,
     pc_Rules = fmap_of_list [(''steer'', demo_rule)]\<rparr>"

definition demo_library :: library where
  "demo_library = \<lparr>lib_tokens = \<lambda>_. [Some Scalar_token], lib_utf8 = \<lambda>_. True,
     lib_fields = \<lambda>s. Some (if s = ''s'' then fmap_of_list [(''unit'', ''u''), (''value'', ''1'')]
        else if s = ''v'' then fmap_of_list [(''x'', ''s'')]
        else fmap_of_list [(''actuator'', ''a''), (''mode'', ''m''), (''values'', ''v'')]),
     lib_float = \<lambda>_. Some (Fin 1), lib_put_float = \<lambda>_. Some ''1'',
     lib_command = \<lambda>_. Some \<lparr>co_Actuator = ''rudder'', co_Mode = ''manual'',
        co_Values = fmap_of_list [(''x'', \<lparr>sc_Value = Fin 1, sc_Unit = ''deg''\<rparr>)]\<rparr>,
     lib_put_config = \<lambda>_. Some ''c'', lib_config = \<lambda>_. Some demo_policy_config,
     lib_put_grant = \<lambda>_. Some ''g'', lib_put_signed = \<lambda>_. Some ''sg'', lib_sha256_hex = \<lambda>_. ''00'',
     lib_verify = \<lambda>key m s. s = m @ key, lib_sign = \<lambda>private m. m @ take 32 private, lib_public = take 32,
     lib_text = \<lambda>_. ''e''\<rparr>"

definition demo_policy :: Policy where
  "demo_policy = \<lparr>po_config = demo_policy_config, po_identity = ''p:sha256:00''\<rparr>"

definition demo_grant :: Grant where
  "demo_grant = \<lparr>gr_ID = ''g1'', gr_Subject = ''op'', gr_Session = 7, gr_NotBefore = 10, gr_ExpiresAt = 60,
     gr_Scopes = [\<lparr>so_Command = ''steer'', so_Actuator = ''rudder'', so_Mode = ''manual''\<rparr>]\<rparr>"

definition demo_private :: string where "demo_private = replicate 64 (CHR ''k'')"

definition demo_credential :: SignedGrant where
  "demo_credential = \<lparr>sg_Grant = demo_grant,
     sg_Signature = lib_sign demo_library demo_private (''teleop/operator-grant/v1'' @ [CHR 0x00] @ ''g'')\<rparr>"

definition demo_command :: EncodedCommand where
  "demo_command = \<lparr>enc_Name = ''steer'', enc_Payload = ''payload''\<rparr>"

definition demo_request :: PolicyRequest where
  "demo_request = \<lparr>pr_ControllerSession = 7, pr_EvaluatedAt = 20, pr_Command = demo_command,
     pr_Input = zero_decision\<lparr>dec_Permit := True\<rparr>, pr_PreviousApplied = Some demo_command,
     pr_PreviouslyAppliedAt = 20\<rparr>"

definition demo_context :: grant_ctx where
  "demo_context = \<lparr>gx_Err = nil, gx_Grant = Some demo_credential\<rparr>"

lemma demo_policy_new: "Policy_New demo_library demo_policy_config = Inr demo_policy"
  by code_simp

lemma demo_signed: "SignGrant demo_library demo_private demo_grant = Inr demo_credential"
  by code_simp

lemma demo_validated:
  "policy_validate demo_library demo_policy demo_command =
     Inr (the (lib_command demo_library []), demo_rule)"
  by code_simp

lemma demo_verified:
  "verifyGrant demo_library demo_policy demo_credential 7 20
     \<lparr>so_Command = ''steer'', so_Actuator = ''rudder'', so_Mode = ''manual''\<rparr> = nil"
  by code_simp

lemma round_zero: "round_fp f64 0 = Fin 0"
  by (simp add: round_fp_def round_val_def rne_def to_fp_def f64_def)

lemma no_time: "duration_seconds (time_sub t t) = Fin 0"
  by (simp add: duration_seconds_def time_sub_def min_i64_def max_i64_def round_zero fp_div_def)

lemma demo_slew:
  "fmpred (within_slew (the (lib_command demo_library [])) (the (lib_command demo_library [])) (Fin 0)) (ru_Fields demo_rule)"
  by (simp add: fmpredD demo_rule_def fmlookup_of_list demo_library_def within_slew_def value_of_def fp_sub_def
      round_zero fp_div_def)

lemma demo_permitted: "pd_Permit (fst (Policy_Evaluate demo_library demo_policy demo_context demo_request))"
proof -
  have "lib_put_signed demo_library c = Some ''sg''" "co_Actuator (the (lib_command demo_library [])) = ''rudder''"
    "co_Mode (the (lib_command demo_library [])) = ''manual''" for c
    by (simp_all add: demo_library_def)
  then show ?thesis
    using demo_validated demo_verified demo_slew no_time
    by (simp add: Policy_Evaluate_def Let_def demo_context_def demo_request_def demo_rule_def demo_command_def zero_decision_def)
qed

theorem permitted_values_in_range_witness:
  "\<exists>command rule. Decode demo_library ''payload'' = Inr command
    \<and> fmlookup (pc_Rules (po_config demo_policy)) ''steer'' = Some rule
    \<and> fmdom (co_Values command) = fmdom (ru_Fields rule)
    \<and> (\<forall>field v. fmlookup (co_Values command) field = Some v \<longrightarrow>
         (\<exists>limit lo hi x. fmlookup (ru_Fields rule) field = Some limit \<and> sc_Unit v = li_Unit limit
            \<and> li_Minimum limit = Fin lo \<and> li_Maximum limit = Fin hi \<and> sc_Value v = Fin x \<and> lo \<le> x \<and> x \<le> hi))
    \<and> 20 < pd_ExpiresAt (fst (Policy_Evaluate demo_library demo_policy demo_context demo_request))"
  using permitted_values_in_range [OF demo_policy_new demo_permitted]
  unfolding demo_request_def demo_command_def by simp

theorem slew_baseline_present_witness:
  "\<exists>b. fmlookup (co_Values (the (lib_command demo_library []))) ''x'' = Some b \<and> sc_Unit b = ''deg''"
proof -
  have "enc_Name demo_command \<in> set (ru_From demo_rule)"
    by (simp add: demo_command_def demo_rule_def)
  from slew_baseline_present [OF demo_policy_new demo_validated demo_validated this]
  have "\<And>limit. fmlookup (ru_Fields demo_rule) ''x'' = Some limit \<Longrightarrow> li_MaximumRate limit \<noteq> Fin 0 \<Longrightarrow>
      \<exists>b. fmlookup (co_Values (the (lib_command demo_library []))) ''x'' = Some b \<and> sc_Unit b = li_Unit limit"
    by blast
  then show ?thesis by (simp add: demo_rule_def fmlookup_of_list)
qed

theorem signed_grant_verifies_witness:
  "verifyGrant demo_library demo_policy demo_credential 7 20
     \<lparr>so_Command = ''steer'', so_Actuator = ''rudder'', so_Mode = ''manual''\<rparr> = nil"
proof -
  have key: "pc_AuthorityKey (po_config demo_policy) = lib_public demo_library demo_private"
    by (simp add: demo_policy_def demo_policy_config_def demo_library_def demo_private_def)
  have "lib_verify demo_library (lib_public demo_library demo_private) m (lib_sign demo_library demo_private m)" for m
    by (simp add: demo_library_def)
  from signed_grant_verifies [OF this demo_signed key] show ?thesis
    by (simp add: demo_grant_def time_sub_def min_i64_def max_i64_def demo_policy_def demo_policy_config_def)
qed

end
