(* ===== verification/Receiver.thy ===== *)
theory Receiver
  imports PolicySafety
begin

text \<open>
  The reference receiver of \<^verbatim>\<open>simulation/receiver.go\<close>: signed command messages, the boot in the safe
  state, the clock driver \<open>Advance\<close>, admission of messages by \<open>Receive\<close>, and the in-process actuator.

  The JSON encoding of a message is the parameter \<open>put\<close>; the other library calls are those of
  \<open>library\<close>. The three moments at which \<open>Receive\<close> can find its context ended (on entry, under the lock, in the policy)
  are the fields of \<open>receive_ctx\<close>. Copies made against aliasing have no counterpart: values are immutable.
\<close>

record ReceiverConfig =
  rc_Start :: timestamp
  rc_SenderKey :: string
  rc_Policy :: "Policy option"
  rc_SafeState :: EncodedCommand
  rc_MaximumLease :: duration
  rc_MaximumClockSkew :: duration

record SignedCommand =
  sm_Epoch :: string
  sm_Envelope :: ActuatorCommand
  sm_Grant :: "SignedGrant option"
  sm_Signature :: string

record ReceiverState =
  rs_Now :: timestamp
  rs_Session :: session_id
  rs_HighestSequence :: u64
  rs_Command :: EncodedCommand
  rs_Fallback :: bool
  rs_AppliedAt :: timestamp
  rs_ExpiresAt :: timestamp
  rs_Reason :: string

record Receiver =
  rv_config :: ReceiverConfig
  rv_epoch :: string
  rv_state :: ReceiverState

type_synonym message_encoding = "SignedCommand \<Rightarrow> string \<Rightarrow> string option"

definition without_payload :: "ActuatorCommand \<Rightarrow> ActuatorCommand" where
  "without_payload e = e\<lparr>ac_Command := (ac_Command e)\<lparr>enc_Payload := []\<rparr>\<rparr>"

definition signedBytes :: "message_encoding \<Rightarrow> SignedCommand \<Rightarrow> go_error + string" where
  "signedBytes put message =
     (case put (message\<lparr>sm_Signature := [], sm_Envelope := without_payload (sm_Envelope message)\<rparr>)
             (enc_Payload (ac_Command (sm_Envelope message))) of
        None \<Rightarrow> Inl library_error
      | Some encoded \<Rightarrow>
          if int (length encoded) > 128 * 1024 then Inl (refuse ''simulation: command too large'')
          else Inr (''teleop/receiver-model/v1'' @ [CHR 0x00] @ encoded))"

definition SignCommand ::
  "library \<Rightarrow> message_encoding \<Rightarrow> string \<Rightarrow> string \<Rightarrow> ActuatorCommand \<Rightarrow> SignedGrant option \<Rightarrow> go_error + SignedCommand" where
  "SignCommand L put key epoch command credential =
     (if length key \<noteq> PrivateKeySize then Inl (refuse ''simulation: invalid signing key'')
      else let message = \<lparr>sm_Epoch = epoch, sm_Envelope = command, sm_Grant = credential, sm_Signature = []\<rparr>
        in case signedBytes put message of
          Inl err \<Rightarrow> Inl err
        | Inr encoded \<Rightarrow> Inr (message\<lparr>sm_Signature := lib_sign L key encoded\<rparr>))"

definition safeAt :: "ReceiverConfig \<Rightarrow> timestamp \<Rightarrow> string \<Rightarrow> ReceiverState \<Rightarrow> ReceiverState" where
  "safeAt config t reason s = s\<lparr>rs_Command := rc_SafeState config, rs_Fallback := True,
     rs_AppliedAt := t, rs_ExpiresAt := zero_time, rs_Reason := reason\<rparr>"

text \<open>\<open>epoch\<close> is what \<^verbatim>\<open>rand.Read\<close> fills in, or its failure.\<close>

definition NewReceiver :: "library \<Rightarrow> ReceiverConfig \<Rightarrow> string option \<Rightarrow> go_error + Receiver" where
  "NewReceiver L config epoch = (case rc_Policy config of
     None \<Rightarrow> Inl (refuse ''simulation: invalid receiver configuration'')
   | Some p \<Rightarrow>
       if rc_Start config = zero_time \<or> length (rc_SenderKey config) \<noteq> PublicKeySize
          \<or> rc_MaximumLease config \<le> 0 \<or> rc_MaximumClockSkew config < 0
          \<or> rc_MaximumClockSkew config \<ge> rc_MaximumLease config
       then Inl (refuse ''simulation: invalid receiver configuration'')
       else let err = ValidateEnvelope L p (rc_SafeState config) in
         if err \<noteq> nil then Inl err
         else case epoch of
           None \<Rightarrow> Inl library_error
         | Some random \<Rightarrow> Inr \<lparr>rv_config = config, rv_epoch = random,
             rv_state = safeAt config (rc_Start config) ''receiver boot''
               \<lparr>rs_Now = rc_Start config, rs_Session = 0, rs_HighestSequence = 0, rs_Command = zero_command,
                rs_Fallback = False, rs_AppliedAt = zero_time, rs_ExpiresAt = zero_time, rs_Reason = []\<rparr>\<rparr>)"

definition Snapshot :: "Receiver \<Rightarrow> ReceiverState" where
  "Snapshot r = rv_state r"

definition receiver_Advance :: "Receiver \<Rightarrow> duration \<Rightarrow> Receiver \<times> go_error" where
  "receiver_Advance r elapsed =
     (if elapsed < 0 then (r, refuse ''simulation: clock cannot move backward'')
      else let s = rv_state r; later = rs_Now s + elapsed;
               s = (if rs_ExpiresAt s \<noteq> zero_time \<and> \<not> later < rs_ExpiresAt s
                    then safeAt (rv_config r) (rs_ExpiresAt s) ''lease expired'' s else s)
        in (r\<lparr>rv_state := s\<lparr>rs_Now := later\<rparr>\<rparr>, nil))"

record receive_ctx =
  rx_Entry :: go_error
  rx_Locked :: go_error
  rx_Policy :: go_error

definition zero_ack :: ActuatorAcknowledgment where
  "zero_ack = \<lparr>ack_ControllerSession = 0, ack_Sequence = 0, ack_Accepted = False, ack_AppliedAt = zero_time,
     ack_Detail = []\<rparr>"

text \<open>The lease of a newer authentic command, judged by the receiver's clock.\<close>

definition bad_lease :: "ReceiverConfig \<Rightarrow> timestamp \<Rightarrow> ActuatorCommand \<Rightarrow> bool" where
  "bad_lease config now command \<longleftrightarrow> ac_TTL command \<le> 0 \<or> ac_TTL command > rc_MaximumLease config
     \<or> time_sub (ac_ExpiresAt command) (ac_IssuedAt command) \<noteq> ac_TTL command
     \<or> ac_IssuedAt command > now + rc_MaximumClockSkew config
     \<or> \<not> ac_ExpiresAt command > now + rc_MaximumClockSkew config"

definition live_request :: "ReceiverState \<Rightarrow> ActuatorCommand \<Rightarrow> PolicyRequest" where
  "live_request s command = \<lparr>pr_ControllerSession = ac_ControllerSession command, pr_EvaluatedAt = rs_Now s,
     pr_Command = ac_Command command, pr_Input = zero_decision\<lparr>dec_Permit := True\<rparr>,
     pr_PreviousApplied = Some (rs_Command s), pr_PreviouslyAppliedAt = rs_AppliedAt s\<rparr>"

text \<open>
  The part of \<open>Receive\<close> under the lock, after authentication, sequence and session checks: \<open>s\<close> already
  has the new highest sequence. The result says whether the command was accepted.
\<close>

definition admit ::
  "library \<Rightarrow> ReceiverConfig \<Rightarrow> receive_ctx \<Rightarrow> SignedCommand \<Rightarrow> ReceiverState \<Rightarrow> ReceiverState \<times> string option" where
  "admit L config c message s =
     (let command = sm_Envelope message; now = rs_Now s in
      if bad_lease config now command
      then (safeAt config now ''invalid or expired newer lease'' s, Some ''invalid or expired lease'')
      else if ac_Fallback command then
        (if enc_Name (ac_Command command) \<noteq> enc_Name (rc_SafeState config)
            \<or> enc_Payload (ac_Command command) \<noteq> enc_Payload (rc_SafeState config)
         then (safeAt config now ''invalid safe command'' s, Some ''fallback does not match approved safe bytes'')
         else (safeAt config now ''acknowledged safe state'' (s\<lparr>rs_Session := ac_ControllerSession command\<rparr>), None))
      else if ac_DecisionID command = [] \<or> ac_IntentID command = [] \<or> sm_Grant message = None
      then (safeAt config now ''missing live proof'' s, Some ''missing evidence identity or operator grant'')
      else case rc_Policy config of
        None \<Rightarrow> (s, Some ''no policy'')
      | Some p \<Rightarrow>
          (case Policy_Evaluate L p \<lparr>gx_Err = rx_Policy c, gx_Grant = sm_Grant message\<rparr> (live_request s command) of
             (decision, policyErr) \<Rightarrow>
               if policyErr \<noteq> nil \<or> \<not> pd_Permit decision \<or> ac_ExpiresAt command > pd_ExpiresAt decision
               then (safeAt config now ''live policy refused'' s,
                 Some ''live command outside independently checked policy/grant'')
               else (s\<lparr>rs_Command := ac_Command command, rs_Fallback := False, rs_AppliedAt := now,
                       rs_ExpiresAt := ac_ExpiresAt command - rc_MaximumClockSkew config,
                       rs_Reason := ''simulated live output''\<rparr>, None)))"

definition Receive ::
  "library \<Rightarrow> message_encoding \<Rightarrow> receive_ctx \<Rightarrow> Receiver \<Rightarrow> SignedCommand
     \<Rightarrow> Receiver \<times> ActuatorAcknowledgment \<times> go_error" where
  "Receive L put c r message =
     (if rx_Entry c \<noteq> nil then (r, zero_ack, rx_Entry c)
      else let config = rv_config r; s = rv_state r; command = sm_Envelope message;
               ack = zero_ack\<lparr>ack_ControllerSession := ac_ControllerSession command, ack_Sequence := ac_Sequence command\<rparr>;
               reject = \<lambda>detail. (ack\<lparr>ack_Detail := detail\<rparr>, [ErrReceiverRejected])
      in case signedBytes put message of
        Inl err \<Rightarrow> (r, zero_ack, [ErrReceiverRejected])
      | Inr bytesToVerify \<Rightarrow>
          if sm_Epoch message \<noteq> rv_epoch r
             \<or> \<not> lib_verify L (rc_SenderKey config) bytesToVerify (sm_Signature message)
          then (r, zero_ack, [ErrReceiverRejected])
          else if rx_Locked c \<noteq> nil then (r, zero_ack, rx_Locked c)
          else if ac_ControllerSession command = 0 \<or> ac_Sequence command = 0
             \<or> ac_Sequence command \<le> rs_HighestSequence s
          then (r, reject ''invalid session or sequence'')
          else if rs_Session s \<noteq> 0 \<and> ac_ControllerSession command \<noteq> rs_Session s
          then (r, reject ''receiver already owned by another session'')
          else if rs_Session s = 0 \<and> (\<not> ac_Fallback command \<or> ac_Sequence command \<noteq> 1)
          then (r, reject ''new session requires sequence-one safe bootstrap'')
          else case admit L config c message (s\<lparr>rs_HighestSequence := ac_Sequence command\<rparr>) of
            (s', Some detail) \<Rightarrow> (r\<lparr>rv_state := s'\<rparr>, reject detail)
          | (s', None) \<Rightarrow> (r\<lparr>rv_state := s'\<rparr>,
              ack\<lparr>ack_Accepted := True, ack_AppliedAt := rs_Now s,
                  ack_Detail := ''simulated receiver state; not physical feedback''\<rparr>, nil))"

text \<open>The in-process actuator: sign the authority's command with the grant of its context, and deliver it.\<close>

definition receiver_Actuator_send ::
  "library \<Rightarrow> message_encoding \<Rightarrow> string \<Rightarrow> receive_ctx \<Rightarrow> SignedGrant option \<Rightarrow> Receiver \<Rightarrow> ActuatorCommand
     \<Rightarrow> Receiver \<times> (go_error + ActuatorAcknowledgment)" where
  "receiver_Actuator_send L put key c credential r command =
     (case SignCommand L put key (rv_epoch r) command credential of
        Inl err \<Rightarrow> (r, Inl err)
      | Inr message \<Rightarrow> (case Receive L put c r message of
          (r', ack, err) \<Rightarrow> (r', if err \<noteq> nil then Inl err else Inr ack)))"

definition receiver_Actuator :: "library \<Rightarrow> Receiver \<Rightarrow> string \<Rightarrow> go_error" where
  "receiver_Actuator L r key =
     (if length key \<noteq> PrivateKeySize \<or> lib_public L key \<noteq> rc_SenderKey (rv_config r)
      then refuse ''simulation: sender key does not match receiver trust'' else nil)"

subsection \<open>What an admission does\<close>

text \<open>The live branch of \<open>admit\<close> that accepts.\<close>

definition live_admitted ::
  "library \<Rightarrow> ReceiverConfig \<Rightarrow> receive_ctx \<Rightarrow> SignedCommand \<Rightarrow> ReceiverState \<Rightarrow> bool" where
  "live_admitted L config c message s \<longleftrightarrow> \<not> ac_Fallback (sm_Envelope message)
     \<and> ac_DecisionID (sm_Envelope message) \<noteq> [] \<and> ac_IntentID (sm_Envelope message) \<noteq> []
     \<and> sm_Grant message \<noteq> None
     \<and> (\<exists>p d. rc_Policy config = Some p
          \<and> Policy_Evaluate L p \<lparr>gx_Err = rx_Policy c, gx_Grant = sm_Grant message\<rparr>
              (live_request s (sm_Envelope message)) = (d, nil)
          \<and> pd_Permit d \<and> ac_ExpiresAt (sm_Envelope message) \<le> pd_ExpiresAt d)"

lemma admit_cases:
  assumes "admit L config c message s = (s', detail)" and "rc_Policy config \<noteq> None"
  obtains (rejected) reason why where "detail = Some why" "s' = safeAt config (rs_Now s) reason s"
    | (safe) "detail = None" "\<not> bad_lease config (rs_Now s) (sm_Envelope message)" "ac_Fallback (sm_Envelope message)"
        "ac_Command (sm_Envelope message) = rc_SafeState config"
        "s' = safeAt config (rs_Now s) ''acknowledged safe state''
           (s\<lparr>rs_Session := ac_ControllerSession (sm_Envelope message)\<rparr>)"
    | (live) "detail = None" "\<not> bad_lease config (rs_Now s) (sm_Envelope message)" "live_admitted L config c message s"
        "s' = s\<lparr>rs_Command := ac_Command (sm_Envelope message), rs_Fallback := False, rs_AppliedAt := rs_Now s,
                rs_ExpiresAt := ac_ExpiresAt (sm_Envelope message) - rc_MaximumClockSkew config,
                rs_Reason := ''simulated live output''\<rparr>"
proof -
  have eq: "a = b" if "enc_Name a = enc_Name b" "enc_Payload a = enc_Payload b" for a b :: EncodedCommand
    using that by simp
  show ?thesis
    using assms that
    by (auto simp: admit_def Let_def live_admitted_def not_less intro: eq
        split: if_splits option.splits prod.splits)
qed

end
