(* ===== verification/ReceiverSafety.thy ===== *)
theory ReceiverSafety
  imports Receiver
begin

text \<open>
  The receiver as a transition system: \<open>rstep\<close> is one call of \<open>Advance\<close> or \<open>Receive\<close>, with the message it
  accepted, if any; \<open>reached\<close> are the receivers that any sequence of calls leads to from a boot, with
  the accepted messages, newest first. The caller, the network and the contexts are arbitrary.
\<close>

inductive rstep :: "library \<Rightarrow> message_encoding \<Rightarrow> Receiver \<Rightarrow> SignedCommand option \<Rightarrow> Receiver \<Rightarrow> bool"
  for L put where
  advance: "receiver_Advance r d = (r', err) \<Longrightarrow> rstep L put r None r'"
| refused: "Receive L put c r m = (r', ack, err) \<Longrightarrow> err \<noteq> nil \<Longrightarrow> rstep L put r None r'"
| accepted: "Receive L put c r m = (r', ack, nil) \<Longrightarrow> rstep L put r (Some m) r'"

inductive reached :: "library \<Rightarrow> message_encoding \<Rightarrow> ReceiverConfig \<Rightarrow> SignedCommand list \<Rightarrow> Receiver \<Rightarrow> bool"
  for L put config where
  boot: "NewReceiver L config epoch = Inr r \<Longrightarrow> reached L put config [] r"
| step: "reached L put config taken r \<Longrightarrow> rstep L put r accepted r'
    \<Longrightarrow> reached L put config (case accepted of None \<Rightarrow> taken | Some m \<Rightarrow> m # taken) r'"

inductive_cases rstep_None: "rstep L put r None r'"
inductive_cases rstep_Some: "rstep L put r (Some m) r'"

subsection \<open>One call\<close>

text \<open>The message carries this boot's epoch and the trusted sender's signature.\<close>

definition authentic :: "library \<Rightarrow> message_encoding \<Rightarrow> Receiver \<Rightarrow> SignedCommand \<Rightarrow> bool" where
  "authentic L put r m \<longleftrightarrow> sm_Epoch m = rv_epoch r
     \<and> (\<exists>bytes. signedBytes put m = Inr bytes \<and> lib_verify L (rc_SenderKey (rv_config r)) bytes (sm_Signature m))"

text \<open>The message is newer than everything admitted, and from the session that owns the receiver.\<close>

definition admissible :: "Receiver \<Rightarrow> SignedCommand \<Rightarrow> bool" where
  "admissible r m \<longleftrightarrow> ac_ControllerSession (sm_Envelope m) \<noteq> 0
     \<and> rs_HighestSequence (rv_state r) < ac_Sequence (sm_Envelope m)
     \<and> (if rs_Session (rv_state r) = 0 then ac_Fallback (sm_Envelope m) \<and> ac_Sequence (sm_Envelope m) = 1
        else ac_ControllerSession (sm_Envelope m) = rs_Session (rv_state r))"

definition numbered_state :: "Receiver \<Rightarrow> SignedCommand \<Rightarrow> ReceiverState" where
  "numbered_state r m = (rv_state r)\<lparr>rs_HighestSequence := ac_Sequence (sm_Envelope m)\<rparr>"

lemma Receive_cases:
  assumes "Receive L put c r m = (r', ack, err)"
  obtains (ignored) "r' = r" "err \<noteq> nil" "\<not> ack_Accepted ack"
      "\<not> (rx_Entry c = nil \<and> authentic L put r m \<and> rx_Locked c = nil \<and> admissible r m)"
    | (judged) s' detail where "rx_Entry c = nil" "rx_Locked c = nil" "authentic L put r m" "admissible r m"
      "admit L (rv_config r) c m (numbered_state r m) = (s', detail)" "r' = r\<lparr>rv_state := s'\<rparr>"
      "err = nil \<longleftrightarrow> detail = None" "ack_Accepted ack \<longleftrightarrow> detail = None"
      "ack_ControllerSession ack = ac_ControllerSession (sm_Envelope m)" "ack_Sequence ack = ac_Sequence (sm_Envelope m)"
      "detail = None \<Longrightarrow> ack_AppliedAt ack = rs_Now (rv_state r)"
proof (cases "rx_Entry c = nil \<and> authentic L put r m \<and> rx_Locked c = nil \<and> admissible r m")
  case False
  have nz: "q \<noteq> 0 \<longleftrightarrow> 0 < q" for q :: u64 by (simp add: word_neq_0_conv)
  have "r' = r \<and> err \<noteq> nil \<and> \<not> ack_Accepted ack"
    using assms False
    by (auto simp: Receive_def Let_def authentic_def admissible_def zero_ack_def not_le
        split: if_splits sum.splits prod.splits option.splits)
  with False show ?thesis by (intro ignored) auto
next
  case True
  obtain s' detail where a: "admit L (rv_config r) c m (numbered_state r m) = (s', detail)"
    by (cases "admit L (rv_config r) c m (numbered_state r m)")
  have "ac_Sequence (sm_Envelope m) \<noteq> 0"
    using True by (auto simp: admissible_def)
  with True assms a show ?thesis
    by (intro judged [of s' detail])
      (auto simp: Receive_def Let_def authentic_def admissible_def zero_ack_def numbered_state_def not_le
        split: if_splits option.splits)
qed

text \<open>Admission keeps the clock and the numbering, and gives the receiver a session only with a safe bootstrap.\<close>

lemma admit_frame:
  assumes "admit L config c m s = (s', detail)" and "rc_Policy config \<noteq> None"
  shows "rs_Now s' = rs_Now s" and "rs_HighestSequence s' = rs_HighestSequence s"
    and "rs_Session s' = (if detail = None \<and> ac_Fallback (sm_Envelope m)
           then ac_ControllerSession (sm_Envelope m) else rs_Session s)"
  using assms(1)
  by (cases rule: admit_cases [OF assms], auto simp: safeAt_def live_admitted_def)+

subsection \<open>The invariant\<close>

definition output_ok :: "ReceiverConfig \<Rightarrow> SignedCommand list \<Rightarrow> ReceiverState \<Rightarrow> bool" where
  "output_ok config taken s \<longleftrightarrow>
     (if rs_Fallback s then rs_Command s = rc_SafeState config \<and> rs_ExpiresAt s = zero_time
      else 0 < rs_AppliedAt s \<and> rs_AppliedAt s \<le> rs_Now s \<and> rs_Now s < rs_ExpiresAt s
        \<and> rs_ExpiresAt s \<le> rs_AppliedAt s + rc_MaximumLease config
        \<and> (\<exists>m\<in>set taken. \<not> ac_Fallback (sm_Envelope m) \<and> ac_Command (sm_Envelope m) = rs_Command s
             \<and> rs_ExpiresAt s = ac_ExpiresAt (sm_Envelope m) - rc_MaximumClockSkew config))"

definition taken_ok :: "SignedCommand list \<Rightarrow> ReceiverState \<Rightarrow> bool" where
  "taken_ok taken s \<longleftrightarrow>
     sorted_wrt (\<lambda>m m'. ac_Sequence (sm_Envelope m') < ac_Sequence (sm_Envelope m)) taken
     \<and> (\<forall>m\<in>set taken. ac_ControllerSession (sm_Envelope m) = rs_Session s
          \<and> ac_Sequence (sm_Envelope m) \<le> rs_HighestSequence s)
     \<and> (taken \<noteq> [] \<longrightarrow> rs_Session s \<noteq> 0)"

definition receiver_inv :: "ReceiverConfig \<Rightarrow> SignedCommand list \<Rightarrow> Receiver \<Rightarrow> bool" where
  "receiver_inv config taken r \<longleftrightarrow> rv_config r = config \<and> rc_Policy config \<noteq> None
     \<and> 0 < rs_Now (rv_state r) \<and> output_ok config taken (rv_state r) \<and> taken_ok taken (rv_state r)"

text \<open>A lease the receiver admits ends after its own clock and within the maximum lease.\<close>

lemma good_lease:
  assumes "\<not> bad_lease config now command" and "rc_MaximumLease config < max_i64"
  shows "now < ac_ExpiresAt command - rc_MaximumClockSkew config"
    and "ac_ExpiresAt command - rc_MaximumClockSkew config \<le> now + rc_MaximumLease config"
proof -
  have ttl: "time_sub (ac_ExpiresAt command) (ac_IssuedAt command) < max_i64"
    "time_sub (ac_ExpiresAt command) (ac_IssuedAt command) \<le> rc_MaximumLease config"
    "0 < time_sub (ac_ExpiresAt command) (ac_IssuedAt command)"
    using assms by (auto simp: bad_lease_def)
  from ttl(1,3) have "time_sub (ac_ExpiresAt command) (ac_IssuedAt command) = ac_ExpiresAt command - ac_IssuedAt command"
    by (auto simp: time_sub_def min_def max_def min_i64_def split: if_splits)
  with ttl(2) assms(1) show "now < ac_ExpiresAt command - rc_MaximumClockSkew config"
    "ac_ExpiresAt command - rc_MaximumClockSkew config \<le> now + rc_MaximumLease config"
    by (auto simp: bad_lease_def)
qed

lemma Receive_accepted:
  assumes "Receive L put c r m = (r', ack, nil)"
  obtains s' where "authentic L put r m" "admissible r m"
    "admit L (rv_config r) c m (numbered_state r m) = (s', None)" "r' = r\<lparr>rv_state := s'\<rparr>"
    "ack_Accepted ack" "ack_ControllerSession ack = ac_ControllerSession (sm_Envelope m)"
    "ack_Sequence ack = ac_Sequence (sm_Envelope m)" "ack_AppliedAt ack = rs_Now (rv_state r)"
  using assms by (rule Receive_cases) (auto intro: that)

lemma receiver_inv_boot:
  assumes "NewReceiver L config epoch = Inr r" and "0 < rc_Start config"
  shows "receiver_inv config [] r"
  using assms
  by (auto simp: NewReceiver_def Let_def receiver_inv_def output_ok_def taken_ok_def safeAt_def
      split: option.splits if_splits)

lemma receiver_inv_advance:
  assumes "receiver_inv config taken r" and "receiver_Advance r d = (r', err)"
  shows "receiver_inv config taken r'"
  using assms
  by (auto simp: receiver_Advance_def Let_def receiver_inv_def output_ok_def taken_ok_def safeAt_def
      split: if_splits)

lemma receiver_inv_refused:
  assumes "receiver_inv config taken r" and "Receive L put c r m = (r', ack, err)" and "err \<noteq> nil"
  shows "receiver_inv config taken r'"
  using assms(2)
proof (cases rule: Receive_cases)
  case ignored
  then show ?thesis using assms(1) by simp
next
  case (judged s' detail)
  from assms(1) have r: "rv_config r = config" "rc_Policy config \<noteq> None" by (auto simp: receiver_inv_def)
  from judged(4) have newer: "rs_HighestSequence (rv_state r) \<le> ac_Sequence (sm_Envelope m)"
    by (auto simp: admissible_def)
  from judged(5)[unfolded r(1)] r(2) obtain reason where s': "s' = safeAt config (rs_Now (rv_state r)) reason (numbered_state r m)"
    by (rule admit_cases) (use judged(7) assms(3) in \<open>auto simp: numbered_state_def\<close>)
  show ?thesis
    using assms(1) newer unfolding judged(6) s'
    by (auto simp: receiver_inv_def output_ok_def taken_ok_def safeAt_def numbered_state_def)
qed

lemma receiver_inv_accepted:
  assumes "receiver_inv config taken r" and "Receive L put c r m = (r', ack, nil)"
    and "rc_MaximumLease config < max_i64"
  shows "receiver_inv config (m # taken) r'"
  using assms(2)
proof (rule Receive_accepted)
  fix s' assume adm: "admissible r m" and a: "admit L (rv_config r) c m (numbered_state r m) = (s', None)"
    and r': "r' = r\<lparr>rv_state := s'\<rparr>"
  from assms(1) have r: "rv_config r = config" "rc_Policy config \<noteq> None" by (auto simp: receiver_inv_def)
  from assms(1) have taken: "taken_ok taken (rv_state r)" and now: "0 < rs_Now (rv_state r)"
    by (auto simp: receiver_inv_def)
  from a r have a': "admit L config c m (numbered_state r m) = (s', None)" by simp
  note frame = admit_frame [OF a' r(2)]
  have session: "rs_Session s' = ac_ControllerSession (sm_Envelope m)"
    using adm frame(3) by (auto simp: admissible_def numbered_state_def split: if_splits)
  have same: "ac_ControllerSession (sm_Envelope m) = rs_Session (rv_state r)" if "taken \<noteq> []"
    using that taken adm by (auto simp: taken_ok_def admissible_def)
  have "taken_ok (m # taken) s'"
    using taken adm session same frame(2)
    by (auto simp: taken_ok_def admissible_def numbered_state_def)
  moreover have "output_ok config (m # taken) s'"
    using a' r(2)
  proof (cases rule: admit_cases)
    case live
    with good_lease [OF live(2) assms(3)] now show ?thesis
      by (auto simp: output_ok_def numbered_state_def live_admitted_def)
  qed (auto simp: output_ok_def safeAt_def)
  ultimately show ?thesis
    using r now frame(1) unfolding r' by (simp add: receiver_inv_def numbered_state_def)
qed

lemma receiver_inv_reached:
  assumes "reached L put config taken r" and "0 < rc_Start config" and "rc_MaximumLease config < max_i64"
  shows "receiver_inv config taken r"
  using assms
proof (induction rule: reached.induct)
  case (boot epoch r)
  from boot(1,2) show ?case by (rule receiver_inv_boot)
next
  case (step taken r accepted r')
  from step(2) step.IH [OF step.prems] step.prems(2) show ?case
    by (cases rule: rstep.cases)
      (auto intro: receiver_inv_advance receiver_inv_refused receiver_inv_accepted)
qed

subsection \<open>Unattended\<close>

text \<open>\<open>unattended L put r t r'\<close>: calls that let \<open>t\<close> pass without any live command being accepted.\<close>

inductive unattended :: "library \<Rightarrow> message_encoding \<Rightarrow> Receiver \<Rightarrow> duration \<Rightarrow> Receiver \<Rightarrow> bool"
  for L put r where
  start: "unattended L put r 0 r"
| passes: "unattended L put r t r1 \<Longrightarrow> receiver_Advance r1 d = (r2, nil) \<Longrightarrow> unattended L put r (t + d) r2"
| ignores: "unattended L put r t r1 \<Longrightarrow> Receive L put c r1 m = (r2, ack, err)
    \<Longrightarrow> \<not> (err = nil \<and> \<not> ac_Fallback (sm_Envelope m)) \<Longrightarrow> unattended L put r t r2"

definition same_lease :: "Receiver \<Rightarrow> duration \<Rightarrow> Receiver \<Rightarrow> bool" where
  "same_lease r t r' \<longleftrightarrow> rs_Fallback (rv_state r') \<or>
     (\<not> rs_Fallback (rv_state r) \<and> rs_ExpiresAt (rv_state r') = rs_ExpiresAt (rv_state r)
      \<and> rs_AppliedAt (rv_state r') = rs_AppliedAt (rv_state r)
      \<and> rs_Now (rv_state r') = rs_Now (rv_state r) + t)"

lemma Receive_no_live:
  assumes "receiver_inv config taken r1" and "Receive L put c r1 m = (r2, ack, err)"
    and "\<not> (err = nil \<and> \<not> ac_Fallback (sm_Envelope m))"
  shows "r2 = r1 \<or> rs_Fallback (rv_state r2)"
  using assms(2)
proof (cases rule: Receive_cases)
  case (judged s' detail)
  from assms(1) have "rc_Policy (rv_config r1) \<noteq> None" by (simp add: receiver_inv_def)
  with judged(5) show ?thesis
    by (rule admit_cases) (use judged(6,7) assms(3) in \<open>auto simp: safeAt_def live_admitted_def\<close>)
qed simp

lemma unattended_same_lease:
  assumes "unattended L put r t r'" and "receiver_inv config taken r" and "rc_MaximumLease config < max_i64"
  shows "same_lease r t r' \<and> (\<exists>taken. receiver_inv config taken r')"
  using assms
proof (induction rule: unattended.induct)
  case start
  then show ?case by (auto simp: same_lease_def)
next
  case (passes t r1 d r2)
  then obtain taken' where inv: "same_lease r t r1" "receiver_inv config taken' r1" by blast
  have "same_lease r (t + d) r2"
    using inv(1) passes(2)
    by (auto simp: same_lease_def receiver_Advance_def Let_def safeAt_def refuse_def split: if_splits)
  with receiver_inv_advance [OF inv(2) passes(2)] show ?case by blast
next
  case (ignores t r1 c m r2 ack err)
  then obtain taken' where inv: "same_lease r t r1" "receiver_inv config taken' r1" by blast
  from Receive_no_live [OF inv(2) ignores(2,3)] inv(1) have "same_lease r t r2"
    by (auto simp: same_lease_def)
  moreover have "\<exists>taken. receiver_inv config taken r2"
    using receiver_inv_refused [OF inv(2) ignores(2)] receiver_inv_accepted [OF inv(2) _ ignores.prems(2)] ignores(2)
    by (cases "err = nil") blast+
  ultimately show ?case by blast
qed

subsection \<open>Promises\<close>

text \<open>
  C30. At every moment the receiver drives either the approved safe state, with no expiry, or one of the
  live commands it accepted, and then its own clock is before the expiry of that command's lease less the allowed
  clock skew, which is at most \<open>MaximumLease\<close> after the moment the command was applied.
\<close>

theorem live_output_leased:
  assumes "reached L put config taken r" and "0 < rc_Start config" and "rc_MaximumLease config < max_i64"
  shows "if rs_Fallback (Snapshot r)
    then rs_Command (Snapshot r) = rc_SafeState config \<and> rs_ExpiresAt (Snapshot r) = zero_time
    else rs_AppliedAt (Snapshot r) \<le> rs_Now (Snapshot r) \<and> rs_Now (Snapshot r) < rs_ExpiresAt (Snapshot r)
      \<and> rs_ExpiresAt (Snapshot r) \<le> rs_AppliedAt (Snapshot r) + rc_MaximumLease config
      \<and> (\<exists>m. m \<in> set taken \<and> \<not> ac_Fallback (sm_Envelope m) \<and> ac_Command (sm_Envelope m) = rs_Command (Snapshot r)
           \<and> rs_ExpiresAt (Snapshot r) = ac_ExpiresAt (sm_Envelope m) - rc_MaximumClockSkew config)"
  using receiver_inv_reached [OF assms]
  by (auto simp: receiver_inv_def output_ok_def Snapshot_def)

text \<open>
  C29. The watchdog: whatever messages arrive, once the receiver's clock has moved by \<open>MaximumLease\<close> without
  a live command being accepted, it drives the approved safe state.
\<close>

theorem watchdog_forces_safe:
  assumes "reached L put config taken r" and "0 < rc_Start config" and "rc_MaximumLease config < max_i64"
    and "unattended L put r t r'" and "rc_MaximumLease config \<le> t"
  shows "rs_Fallback (Snapshot r') \<and> rs_Command (Snapshot r') = rc_SafeState config"
proof -
  note inv = receiver_inv_reached [OF assms(1-3)]
  from unattended_same_lease [OF assms(4) inv assms(3)] obtain taken' where
    same: "same_lease r t r'" and inv': "receiver_inv config taken' r'" by blast
  have "rs_Fallback (rv_state r')"
  proof (rule ccontr)
    assume "\<not> rs_Fallback (rv_state r')"
    with same inv inv' assms(5) show False
      by (auto simp: same_lease_def receiver_inv_def output_ok_def)
  qed
  with inv' show ?thesis by (simp add: receiver_inv_def output_ok_def Snapshot_def)
qed

text \<open>
  C31. No replay and a single owner: in any history the accepted messages have strictly increasing
  sequence numbers, so none is accepted twice, and all of them belong to the session that owns the receiver.
\<close>

theorem accepted_once_in_order:
  assumes "reached L put config taken r" and "0 < rc_Start config" and "rc_MaximumLease config < max_i64"
  shows "sorted_wrt (\<lambda>m m'. ac_Sequence (sm_Envelope m') < ac_Sequence (sm_Envelope m)) taken
    \<and> distinct taken
    \<and> (\<forall>m. m \<in> set taken \<longrightarrow> ac_ControllerSession (sm_Envelope m) = rs_Session (Snapshot r)
         \<and> ac_Sequence (sm_Envelope m) \<le> rs_HighestSequence (Snapshot r))"
proof -
  from receiver_inv_reached [OF assms] have ok: "taken_ok taken (rv_state r)" by (simp add: receiver_inv_def)
  have "distinct taken"
    if "sorted_wrt (\<lambda>m m'. ac_Sequence (sm_Envelope m') < ac_Sequence (sm_Envelope m)) taken"
    using that by (induction taken) auto
  with ok show ?thesis by (auto simp: taken_ok_def Snapshot_def)
qed

text \<open>
  A message is accepted only if it carries this boot's epoch and the trusted sender's signature,
  is newer than everything admitted, belongs to the owning session (or is the sequence-one safe
  bootstrap), and has a live lease; a fallback must be the approved safe bytes, and a live command must carry its
  evidence, and be permitted by the receiver's own policy evaluation against the output it is driving, under a
  grant that outlasts the lease.
\<close>

theorem accepted_message_justified:
  assumes "Receive L put c r m = (r', ack, nil)" and "rc_Policy (rv_config r) = Some p"
  shows "ack_Accepted ack \<and> ack_Sequence ack = ac_Sequence (sm_Envelope m)
    \<and> authentic L put r m \<and> admissible r m
    \<and> \<not> bad_lease (rv_config r) (rs_Now (Snapshot r)) (sm_Envelope m)
    \<and> rs_HighestSequence (Snapshot r') = ac_Sequence (sm_Envelope m)
    \<and> rs_Command (Snapshot r') = ac_Command (sm_Envelope m)
    \<and> (if ac_Fallback (sm_Envelope m) then rs_Fallback (Snapshot r') \<and> ac_Command (sm_Envelope m) = rc_SafeState (rv_config r)
       else ac_DecisionID (sm_Envelope m) \<noteq> [] \<and> ac_IntentID (sm_Envelope m) \<noteq> [] \<and> \<not> rs_Fallback (Snapshot r')
         \<and> (\<exists>d. Policy_Evaluate L p \<lparr>gx_Err = rx_Policy c, gx_Grant = sm_Grant m\<rparr>
                  (live_request (Snapshot r) (sm_Envelope m)) = (d, nil)
              \<and> pd_Permit d \<and> ac_ExpiresAt (sm_Envelope m) \<le> pd_ExpiresAt d))"
  using assms(1)
proof (rule Receive_accepted)
  fix s' assume a: "authentic L put r m" "admissible r m" "ack_Accepted ack" "ack_Sequence ack = ac_Sequence (sm_Envelope m)"
    and adm: "admit L (rv_config r) c m (numbered_state r m) = (s', None)" and r': "r' = r\<lparr>rv_state := s'\<rparr>"
  have request: "live_request (numbered_state r m) e = live_request (Snapshot r) e" for e
    by (simp add: live_request_def numbered_state_def Snapshot_def)
  have now: "rs_Now (numbered_state r m) = rs_Now (Snapshot r)"
    by (simp add: numbered_state_def Snapshot_def)
  have p: "rc_Policy (rv_config r) \<noteq> None" using assms(2) by simp
  from adm p show ?thesis
  proof (cases rule: admit_cases)
    case safe
    then show ?thesis using a unfolding r'
      by (simp add: safeAt_def numbered_state_def Snapshot_def)
  next
    case live
    then show ?thesis using a assms(2) unfolding r'
      by (auto simp: live_admitted_def request now) (auto simp: numbered_state_def Snapshot_def)
  qed simp
qed

text \<open>
  A message that is not authentic, not newer, or from a foreign session changes nothing: it cannot
  revoke or replace the output the receiver is driving, and it is refused.
\<close>

theorem foreign_message_ignored:
  assumes "Receive L put c r m = (r', ack, err)" and "\<not> (authentic L put r m \<and> admissible r m)"
  shows "r' = r \<and> err \<noteq> nil \<and> \<not> ack_Accepted ack"
  using assms(1) by (cases rule: Receive_cases) (use assms(2) in auto)

subsection \<open>Witnesses\<close>

definition demo_receiver_config :: ReceiverConfig where
  "demo_receiver_config = \<lparr>rc_Start = 20, rc_SenderKey = replicate 32 (CHR ''k''), rc_Policy = Some demo_policy,
     rc_SafeState = demo_command, rc_MaximumLease = 40, rc_MaximumClockSkew = 0\<rparr>"

definition demo_envelope :: "u64 \<Rightarrow> bool \<Rightarrow> ActuatorCommand" where
  "demo_envelope n fallback = \<lparr>ac_ControllerSession = 7, ac_Sequence = n, ac_Command = demo_command, ac_IssuedAt = 20,
     ac_ExpiresAt = 50, ac_TTL = 30, ac_Fallback = fallback, ac_Reason = (if fallback then ''bind bootstrap'' else []), ac_DecisionID = ''d'', ac_IntentID = ''i''\<rparr>"

text \<open>An encoding of every message: the epoch, the sequence in unary, the payload and the kind.\<close>

definition demo_put :: message_encoding where
  "demo_put m payload = Some (sm_Epoch m @ replicate (unat (ac_Sequence (sm_Envelope m))) (CHR ''#'')
     @ payload @ [if ac_Fallback (sm_Envelope m) then CHR ''s'' else CHR ''l''])"

definition demo_bytes :: "u64 \<Rightarrow> bool \<Rightarrow> string" where
  "demo_bytes n fallback = ''teleop/receiver-model/v1'' @ [CHR 0x00] @ ''e'' @ replicate (unat n) (CHR ''#'')
     @ ''payload'' @ [if fallback then CHR ''s'' else CHR ''l'']"

definition demo_signature :: "u64 \<Rightarrow> bool \<Rightarrow> string" where
  "demo_signature n fallback = demo_bytes n fallback @ replicate 32 (CHR ''k'')"

definition demo_message :: "u64 \<Rightarrow> bool \<Rightarrow> SignedCommand" where
  "demo_message n fallback = \<lparr>sm_Epoch = ''e'', sm_Envelope = demo_envelope n fallback,
     sm_Grant = Some demo_credential, sm_Signature = demo_signature n fallback\<rparr>"

definition demo_alive :: receive_ctx where
  "demo_alive = \<lparr>rx_Entry = nil, rx_Locked = nil, rx_Policy = nil\<rparr>"

definition demo_state :: "session_id \<Rightarrow> u64 \<Rightarrow> bool \<Rightarrow> timestamp \<Rightarrow> string \<Rightarrow> ReceiverState" where
  "demo_state session n fallback expires reason = \<lparr>rs_Now = 20, rs_Session = session, rs_HighestSequence = n,
     rs_Command = demo_command, rs_Fallback = fallback, rs_AppliedAt = 20, rs_ExpiresAt = expires, rs_Reason = reason\<rparr>"

definition demo_receiver :: "ReceiverState \<Rightarrow> Receiver" where
  "demo_receiver s = \<lparr>rv_config = demo_receiver_config, rv_epoch = ''e'', rv_state = s\<rparr>"

abbreviation (input) "demo_booted \<equiv> demo_receiver (demo_state 0 0 True 0 ''receiver boot'')"
abbreviation (input) "demo_safe \<equiv> demo_receiver (demo_state 7 1 True 0 ''acknowledged safe state'')"
abbreviation (input) "demo_live \<equiv> demo_receiver (demo_state 7 2 False 50 ''simulated live output'')"

definition demo_ack :: "u64 \<Rightarrow> ActuatorAcknowledgment" where
  "demo_ack n = \<lparr>ack_ControllerSession = 7, ack_Sequence = n, ack_Accepted = True, ack_AppliedAt = 20,
     ack_Detail = ''simulated receiver state; not physical feedback''\<rparr>"

lemmas demo_receiver_defs = demo_receiver_def demo_state_def demo_receiver_config_def demo_message_def demo_envelope_def
  demo_alive_def demo_ack_def

lemma demo_boot: "NewReceiver demo_library demo_receiver_config (Some ''e'') = Inr demo_booted"
  by (simp add: NewReceiver_def ValidateEnvelope_def demo_validated demo_receiver_defs PublicKeySize_def safeAt_def)

lemma demo_signed_bytes:
  "signedBytes demo_put (demo_message 1 f) = Inr (demo_bytes 1 f)"
  "signedBytes demo_put (demo_message 2 f) = Inr (demo_bytes 2 f)"
  by (simp_all add: signedBytes_def demo_put_def demo_message_def without_payload_def demo_envelope_def demo_command_def demo_bytes_def)

lemma demo_signature_ok:
  "lib_verify demo_library (replicate 32 (CHR ''k'')) (demo_bytes n f) (demo_signature n f)"
  by (simp add: demo_library_def demo_signature_def)

lemma demo_lease: "time_sub 50 20 = 30"
  by (simp add: time_sub_def min_i64_def max_i64_def)

lemma demo_fields:
  "sm_Envelope (demo_message n f) = demo_envelope n f" "sm_Grant (demo_message n f) = Some demo_credential"
  "sm_Epoch (demo_message n f) = ''e''" "sm_Signature (demo_message n f) = demo_signature n f"
  "ac_ControllerSession (demo_envelope n f) = 7" "ac_Sequence (demo_envelope n f) = n"
  "ac_Command (demo_envelope n f) = demo_command" "ac_IssuedAt (demo_envelope n f) = 20"
  "ac_ExpiresAt (demo_envelope n f) = 50" "ac_TTL (demo_envelope n f) = 30" "ac_Fallback (demo_envelope n f) = f"
  "ac_DecisionID (demo_envelope n f) = ''d''" "ac_IntentID (demo_envelope n f) = ''i''"
  by (simp_all add: demo_message_def demo_envelope_def)

lemma demo_bootstrap:
  "Receive demo_library demo_put demo_alive demo_booted (demo_message 1 True) = (demo_safe, demo_ack 1, nil)"
  by (simp add: Receive_def Let_def demo_signed_bytes demo_signature_ok admit_def bad_lease_def safeAt_def zero_ack_def
      demo_lease demo_fields demo_receiver_def demo_state_def demo_receiver_config_def demo_alive_def demo_ack_def
      del: append_Cons replicate.simps)

lemma demo_live_request:
  "live_request (demo_state 7 2 True 0 ''acknowledged safe state'') (demo_envelope 2 False) = demo_request"
  by (simp add: live_request_def demo_request_def demo_envelope_def demo_state_def)

lemma demo_live_permitted:
  obtains d where "Policy_Evaluate demo_library demo_policy \<lparr>gx_Err = nil, gx_Grant = Some demo_credential\<rparr> demo_request = (d, nil)"
    "pd_Permit d" "pd_ExpiresAt d = 60"
proof -
  let ?c = "\<lparr>gx_Err = nil, gx_Grant = Some demo_credential\<rparr>"
  have permit: "pd_Permit (fst (Policy_Evaluate demo_library demo_policy ?c demo_request))"
    using demo_permitted by (simp add: demo_context_def)
  show ?thesis
  proof (cases rule: Policy_Evaluate_cases [of demo_library demo_policy ?c demo_request])
    case (deny d err)
    with permit show ?thesis by simp
  next
    case (grant command rule credential evidence)
    let ?d = "zero_policy\<lparr>pd_PolicyID := po_identity demo_policy, pd_Subject := gr_Subject (sg_Grant credential),
      pd_Authorization := gr_ID (sg_Grant credential), pd_ExpiresAt := gr_ExpiresAt (sg_Grant credential),
      pd_Proof := evidence\<rparr>"
    have "\<not> pd_Permit ?d" by (simp add: zero_policy_def)
    note follow = follow_up_permits [OF this, where L = demo_library and p = demo_policy and q = demo_request
      and command = command and rule = rule, folded grant(9)]
    from permit follow(1) have may: "may_follow demo_policy demo_library demo_request command rule" by blast
    have "gr_ExpiresAt (sg_Grant credential) = 60"
      using grant(6) by (auto simp: demo_credential_def demo_grant_def)
    with follow(2,3) may show ?thesis
      by (intro that [of "fst (Policy_Evaluate demo_library demo_policy ?c demo_request)"])
        (simp_all add: prod_eq_iff permit)
  qed
qed

lemma demo_admit_live:
  "admit demo_library demo_receiver_config demo_alive (demo_message 2 False) (demo_state 7 2 True 0 ''acknowledged safe state'')
     = (demo_state 7 2 False 50 ''simulated live output'', None)"
proof -
  obtain d where d: "Policy_Evaluate demo_library demo_policy \<lparr>gx_Err = nil, gx_Grant = Some demo_credential\<rparr> demo_request = (d, nil)"
    "pd_Permit d" "pd_ExpiresAt d = 60"
    by (rule demo_live_permitted)
  have lease: "\<not> bad_lease demo_receiver_config (rs_Now (demo_state 7 2 True 0 ''acknowledged safe state'')) (demo_envelope 2 False)"
    by (simp add: bad_lease_def demo_fields demo_lease demo_state_def demo_receiver_config_def)
  have p: "rc_Policy demo_receiver_config = Some demo_policy" "rx_Policy demo_alive = nil"
    "rc_MaximumClockSkew demo_receiver_config = 0"
    by (simp_all add: demo_receiver_config_def demo_alive_def)
  show ?thesis
    by (simp add: admit_def Let_def demo_fields lease p demo_live_request d) (simp add: demo_state_def)
qed

lemma demo_accept_live:
  "Receive demo_library demo_put demo_alive demo_safe (demo_message 2 False) = (demo_live, demo_ack 2, nil)"
proof -
  have s: "(demo_state 7 1 True 0 ''acknowledged safe state'')\<lparr>rs_HighestSequence := 2\<rparr>
      = demo_state 7 2 True 0 ''acknowledged safe state''"
    "rs_HighestSequence (demo_state 7 1 True 0 ''acknowledged safe state'') = 1"
    "rs_Session (demo_state 7 1 True 0 ''acknowledged safe state'') = 7"
    "rs_Now (demo_state 7 1 True 0 ''acknowledged safe state'') = 20"
    by (simp_all add: demo_state_def)
  have key: "rc_SenderKey demo_receiver_config = replicate 32 (CHR ''k'')" "rx_Entry demo_alive = nil" "rx_Locked demo_alive = nil"
    by (simp_all add: demo_receiver_config_def demo_alive_def)
  have newer: "\<not> (2::u64) \<le> 1" by code_simp
  show ?thesis
    by (simp add: newer Receive_def Let_def demo_signed_bytes demo_fields demo_receiver_def s key demo_signature_ok
        demo_admit_live zero_ack_def demo_ack_def del: append_Cons replicate.simps)
qed

lemma demo_reached_safe: "reached demo_library demo_put demo_receiver_config [demo_message 1 True] demo_safe"
  using reached.step [OF reached.boot [OF demo_boot] rstep.accepted [OF demo_bootstrap]] by simp

lemma demo_reached_live:
  "reached demo_library demo_put demo_receiver_config [demo_message 2 False, demo_message 1 True] demo_live"
  using reached.step [OF demo_reached_safe rstep.accepted [OF demo_accept_live]] by simp

lemma demo_bounds: "0 < rc_Start demo_receiver_config" "rc_MaximumLease demo_receiver_config < max_i64"
  by (simp_all add: demo_receiver_config_def max_i64_def)

theorem live_output_leased_witness:
  "\<not> rs_Fallback (Snapshot demo_live) \<and> rs_AppliedAt (Snapshot demo_live) \<le> rs_Now (Snapshot demo_live)
    \<and> rs_Now (Snapshot demo_live) < rs_ExpiresAt (Snapshot demo_live)
    \<and> rs_ExpiresAt (Snapshot demo_live) \<le> rs_AppliedAt (Snapshot demo_live) + 40"
  using live_output_leased [OF demo_reached_live demo_bounds]
  by (simp add: Snapshot_def demo_receiver_def demo_state_def demo_receiver_config_def)

theorem watchdog_forces_safe_witness:
  "rs_Fallback (Snapshot (fst (receiver_Advance demo_live 40)))
    \<and> rs_Command (Snapshot (fst (receiver_Advance demo_live 40))) = demo_command"
proof -
  have "snd (receiver_Advance demo_live 40) = nil" by (simp add: receiver_Advance_def Let_def)
  then have "unattended demo_library demo_put demo_live (0 + 40) (fst (receiver_Advance demo_live 40))"
    by (intro unattended.passes [OF unattended.start]) (simp add: prod_eq_iff)
  from watchdog_forces_safe [OF demo_reached_live demo_bounds this] show ?thesis
    by (simp add: demo_receiver_config_def)
qed

theorem accepted_once_in_order_witness:
  "sorted_wrt (\<lambda>m m'. ac_Sequence (sm_Envelope m') < ac_Sequence (sm_Envelope m)) [demo_message 2 False, demo_message 1 True]
    \<and> distinct [demo_message 2 False, demo_message 1 True]
    \<and> ac_ControllerSession (sm_Envelope (demo_message 2 False)) = rs_Session (Snapshot demo_live)"
  using accepted_once_in_order [OF demo_reached_live demo_bounds] by simp

theorem accepted_message_justified_witness:
  "authentic demo_library demo_put demo_safe (demo_message 2 False) \<and> admissible demo_safe (demo_message 2 False)
    \<and> (\<exists>d. Policy_Evaluate demo_library demo_policy \<lparr>gx_Err = rx_Policy demo_alive, gx_Grant = sm_Grant (demo_message 2 False)\<rparr>
          (live_request (Snapshot demo_safe) (sm_Envelope (demo_message 2 False))) = (d, nil) \<and> pd_Permit d)"
proof -
  have "rc_Policy (rv_config demo_safe) = Some demo_policy"
    by (simp add: demo_receiver_def demo_receiver_config_def)
  moreover have "\<not> ac_Fallback (sm_Envelope (demo_message 2 False))"
    by (simp add: demo_message_def demo_envelope_def)
  ultimately show ?thesis
    using accepted_message_justified [OF demo_accept_live] by auto
qed

theorem foreign_message_ignored_witness:
  "fst (Receive demo_library demo_put demo_alive demo_live (demo_message 1 True)) = demo_live"
proof -
  obtain r' ack err where r: "Receive demo_library demo_put demo_alive demo_live (demo_message 1 True) = (r', ack, err)"
    by (cases "Receive demo_library demo_put demo_alive demo_live (demo_message 1 True)")
  have "\<not> admissible demo_live (demo_message 1 True)"
    by (simp add: admissible_def demo_receiver_defs)
  then have "\<not> (authentic demo_library demo_put demo_live (demo_message 1 True) \<and> admissible demo_live (demo_message 1 True))"
    by simp
  from foreign_message_ignored [OF r this] r show ?thesis by simp
qed

end
