(* ===== verification/EndToEnd.thy ===== *)
theory EndToEnd
  imports AuthorityWitness ReceiverSafety
begin

text \<open>
  The two ends of the command link together: an authority that hands signed envelopes to an actuator, and the receiver
  that takes them. What ties them is stated as hypotheses on the messages the receiver took: \<open>unforged\<close>, that those whose
  signatures verify under the sender's key carry bytes that were signed for a command the authority handed to its actuator,
  and \<open>unambiguous\<close>, that the encoding did not write two different commands as these bytes. Nothing is assumed of other messages
  or signatures. Delivery is otherwise arbitrary: messages may be lost, delayed, reordered, repeated or invented.
\<close>

definition sent_commands :: "env \<Rightarrow> world \<Rightarrow> authority_op list \<Rightarrow> ActuatorCommand set" where
  "sent_commands E w ops = {e. \<exists>n. TSend n e \<in> set (w_trace (history E w ops))}"

definition unforged :: "library \<Rightarrow> message_encoding \<Rightarrow> string \<Rightarrow> ActuatorCommand set \<Rightarrow> SignedCommand list \<Rightarrow> bool" where
  "unforged L put key commands taken \<longleftrightarrow> (\<forall>m \<in> set taken. \<forall>bytes. signedBytes put m = Inr bytes
     \<longrightarrow> lib_verify L key bytes (sm_Signature m) \<longrightarrow> (\<exists>m'. sm_Envelope m' \<in> commands \<and> signedBytes put m' = Inr bytes))"

definition unambiguous :: "message_encoding \<Rightarrow> ActuatorCommand set \<Rightarrow> SignedCommand list \<Rightarrow> bool" where
  "unambiguous put commands taken \<longleftrightarrow> (\<forall>m \<in> set taken. \<forall>m'. sm_Envelope m' \<in> commands
     \<longrightarrow> signedBytes put m' = signedBytes put m \<longrightarrow> sm_Envelope m' = sm_Envelope m)"

lemma reached_signed:
  assumes "reached L put rc taken r"
  shows "rv_config r = rc \<and> (\<forall>m \<in> set taken. \<exists>bytes. signedBytes put m = Inr bytes \<and> lib_verify L (rc_SenderKey rc) bytes (sm_Signature m))"
  using assms
proof (induction rule: reached.induct)
  case (boot epoch r)
  then show ?case by (auto simp: NewReceiver_def Let_def split: option.splits if_splits)
next
  case (step taken r accepted r')
  from step(2) show ?case
  proof cases
    case (advance d err)
    then show ?thesis using step.IH by (auto simp: receiver_Advance_def Let_def split: if_splits)
  next
    case (refused c m ack err)
    then show ?thesis using step.IH by (auto elim!: Receive_cases)
  next
    case (accepted c m ack)
    from accepted(2) obtain s' where auth: "authentic L put r m" and r': "r' = r\<lparr>rv_state := s'\<rparr>"
      by (rule Receive_accepted)
    with accepted(1) step.IH show ?thesis by (auto simp: authentic_def)
  qed
qed

lemma taken_sent:
  assumes "reached L put rc taken r" and "unforged L put (rc_SenderKey rc) commands taken"
    and "unambiguous put commands taken" and "m \<in> set taken"
  shows "sm_Envelope m \<in> commands"
proof -
  obtain bytes where "signedBytes put m = Inr bytes" "lib_verify L (rc_SenderKey rc) bytes (sm_Signature m)"
    using reached_signed [OF assms(1)] assms(4) by blast
  with assms(2-4) show ?thesis
    unfolding unforged_def unambiguous_def by metis
qed

text \<open>
  C14. End to end: whatever the network does, and whatever happens on the authority's side, a receiver that trusts the
  authority's key drives either its approved safe state, or a command that the authority handed out
  under a preflight that permitted output on the very input it had decided on, with the decision and the intent for these bytes
  already durably committed, and (with a policy configured) for which the policy's
  permission is still in force by the receiver's clock, with the whole clock skew to spare. Nobody else signed
  what it took, and the encoding did not confuse it with another command: both are required of the messages taken only.
\<close>

theorem driven_output_authorised:
  assumes "NewAuthorityWithGuard config g ev act = Inr a" and "ac_CommandTTL config \<le> max_i64"
    and "reached L put rc taken r" and "0 < rc_Start rc" and "rc_MaximumLease rc < max_i64"
    and "unforged L put (rc_SenderKey rc) (sent_commands E (world_of a) ops) taken"
    and "unambiguous put (sent_commands E (world_of a) ops) taken"
  shows "if rs_Fallback (Snapshot r) then rs_Command (Snapshot r) = rc_SafeState rc
    else \<exists>post n e d current rest intent decision. w_trace (history E (world_of a) ops) = post @ TSend n e # TPreflight d current # rest
      \<and> ac_Command e = rs_Command (Snapshot r) \<and> rs_Now (Snapshot r) + rc_MaximumClockSkew rc < ac_ExpiresAt e
      \<and> dec_Permit current \<and> dec_InputSequence current = dec_InputSequence d \<and> deep_equal (dec_Command current) (dec_Command d)
      \<and> TCommitted decision (ac_DecisionID e) \<in> set rest \<and> er_Decision decision = Some d
      \<and> TCommitted intent (ac_IntentID e) \<in> set rest \<and> er_Applied intent = Some (rs_Command (Snapshot r))
      \<and> (ac_Policy config \<longrightarrow> (\<exists>p. er_Policy decision = Some p \<and> pd_Permit p \<and> pd_Authorization p \<noteq> []
           \<and> er_Requested decision = Some (rs_Command (Snapshot r))
           \<and> rs_Now (Snapshot r) + rc_MaximumClockSkew rc < pd_ExpiresAt p))"
proof (cases "rs_Fallback (Snapshot r)")
  case True
  with receiver_inv_reached [OF assms(3-5)] show ?thesis by (auto simp: receiver_inv_def output_ok_def Snapshot_def)
next
  case False
  from receiver_inv_reached [OF assms(3-5)] False obtain m where m: "m \<in> set taken" "\<not> ac_Fallback (sm_Envelope m)"
    "ac_Command (sm_Envelope m) = rs_Command (Snapshot r)"
    and lease: "rs_Now (Snapshot r) < ac_ExpiresAt (sm_Envelope m) - rc_MaximumClockSkew rc"
    by (auto simp: receiver_inv_def output_ok_def Snapshot_def)
  from taken_sent [OF assms(3,6,7) m(1)] obtain n where
    "TSend n (sm_Envelope m) \<in> set (w_trace (history E (world_of a) ops))" by (auto simp: sent_commands_def)
  then obtain post pre where tr: "w_trace (history E (world_of a) ops) = post @ TSend n (sm_Envelope m) # pre"
    by (blast dest: split_list)
  from assms(1) have pol: "au_policy a = ac_Policy config"
    by (auto simp: NewAuthorityWithGuard_def split: option.splits if_splits sum.splits)
  from history_send_ok [OF assms(1,2) tr] m(2) have "live_justified (ac_Policy config) pre (sm_Envelope m)"
    by (simp add: send_ok_def pol)
  then obtain d current rest intent decision where pre: "pre = TPreflight d current # rest"
    and live: "dec_Permit current" "dec_InputSequence current = dec_InputSequence d" "deep_equal (dec_Command current) (dec_Command d)"
      "TCommitted decision (ac_DecisionID (sm_Envelope m)) \<in> set rest" "er_Decision decision = Some d"
      "TCommitted intent (ac_IntentID (sm_Envelope m)) \<in> set rest" "er_Applied intent = Some (ac_Command (sm_Envelope m))"
      "ac_Policy config \<longrightarrow> (\<exists>p. er_Policy decision = Some p \<and> pd_Permit p \<and> pd_Authorization p \<noteq> []
         \<and> er_Requested decision = Some (ac_Command (sm_Envelope m)) \<and> ac_ExpiresAt (sm_Envelope m) \<le> pd_ExpiresAt p)"
    unfolding live_justified_def decision_evidenced_def intent_evidenced_def policy_backs_def sameDecisionInput_def
    by blast
  have "ac_Policy config \<longrightarrow> (\<exists>p. er_Policy decision = Some p \<and> pd_Permit p \<and> pd_Authorization p \<noteq> []
         \<and> er_Requested decision = Some (rs_Command (Snapshot r)) \<and> rs_Now (Snapshot r) + rc_MaximumClockSkew rc < pd_ExpiresAt p)"
    using live(8) lease m(3) by force
  with False live(1-7) lease tr m(3) show ?thesis
    unfolding pre
    by (intro if_not_P [THEN iffD2, OF False] exI conjI) (assumption | simp | linarith)+
qed

subsection \<open>A fallback that arrives\<close>

text \<open>What the sender's side of the link must be for \<open>e\<close>: a key of the trusted pair, and an encoding within bounds.\<close>

definition link_ok :: "library \<Rightarrow> message_encoding \<Rightarrow> string \<Rightarrow> Receiver \<Rightarrow> ActuatorCommand \<Rightarrow> SignedGrant option \<Rightarrow> bool" where
  "link_ok L put key r e credential \<longleftrightarrow> length key = PrivateKeySize
     \<and> (\<exists>bytes. signedBytes put \<lparr>sm_Epoch = rv_epoch r, sm_Envelope = e, sm_Grant = credential, sm_Signature = []\<rparr> = Inr bytes
          \<and> lib_verify L (rc_SenderKey (rv_config r)) bytes (lib_sign L key bytes))"

lemma signedBytes_unsigned: "signedBytes put (m\<lparr>sm_Signature := x\<rparr>) = signedBytes put m"
  by (simp add: signedBytes_def)

lemma SignCommand_link:
  assumes "link_ok L put key r e credential"
  obtains m where "SignCommand L put key (rv_epoch r) e credential = Inr m" "authentic L put r m" "sm_Envelope m = e"
proof -
  from assms obtain bytes where bytes: "length key = PrivateKeySize"
    "signedBytes put \<lparr>sm_Epoch = rv_epoch r, sm_Envelope = e, sm_Grant = credential, sm_Signature = []\<rparr> = Inr bytes"
    "lib_verify L (rc_SenderKey (rv_config r)) bytes (lib_sign L key bytes)" by (auto simp: link_ok_def)
  let ?m = "\<lparr>sm_Epoch = rv_epoch r, sm_Envelope = e, sm_Grant = credential, sm_Signature = lib_sign L key bytes\<rparr>"
  have "signedBytes put ?m = Inr bytes"
    using bytes(2) signedBytes_unsigned [where put = put and m = ?m and x = "[]"] by simp
  with bytes that [of ?m] show ?thesis by (simp add: SignCommand_def Let_def authentic_def)
qed

lemma time_sub_lease: "0 < t \<Longrightarrow> t \<le> max_i64 \<Longrightarrow> time_sub (i + t) i = t"
  by (auto simp: time_sub_def min_def max_def min_i64_def)

text \<open>
  C15. The safe state gets through: a fallback that the authority handed to its actuator is accepted by a
  receiver that was approved for the same safe state and for leases as long as the authority's, whenever it arrives before anything
  newer, from the owning session (or as the sequence-one bootstrap), with the receiver's clock neither before the
  issue time nor within the skew of the expiry. The receiver then drives the safe state, and as long as the lease lasts the
  authority accepts the acknowledgment it returns.
\<close>

theorem fallback_gets_through:
  assumes "NewAuthorityWithGuard config g ev act = Inr a" and "ac_CommandTTL config \<le> max_i64"
    and "w_trace (history E (world_of a) ops) = post @ TSend n e # pre" and "ac_Fallback e"
    and "reached L put rc taken r" and "rc_SafeState rc = au_safe a" and "ac_CommandTTL config \<le> rc_MaximumLease rc"
    and "0 < rc_Start rc" and "rc_MaximumLease rc < max_i64"
    and "link_ok L put key r e credential" and "rx_Entry c = nil" and "rx_Locked c = nil"
    and "ac_ControllerSession e \<noteq> 0" and "rs_HighestSequence (Snapshot r) < ac_Sequence e"
    and "if rs_Session (Snapshot r) = 0 then n = 1 else rs_Session (Snapshot r) = ac_ControllerSession e"
    and "ac_IssuedAt e \<le> rs_Now (Snapshot r)" and "rs_Now (Snapshot r) + rc_MaximumClockSkew rc < ac_ExpiresAt e"
    and "rs_Now (Snapshot r) \<le> now" and "now < ac_ExpiresAt e"
  shows "case receiver_Actuator_send L put key c credential r e of
      (r', Inr ack) \<Rightarrow> rs_Fallback (Snapshot r') \<and> rs_Command (Snapshot r') = au_safe a
        \<and> rs_Session (Snapshot r') = ac_ControllerSession e
        \<and> validateAcknowledgment e ack now (ac_RequireAppliedAcknowledgment config) = nil
    | (r', Inl err) \<Rightarrow> False"
proof -
  note inv = receiver_inv_reached [OF assms(5,8,9)]
  then have rc: "rv_config r = rc" "rc_Policy rc \<noteq> None" and now: "0 < rs_Now (rv_state r)" by (auto simp: receiver_inv_def)
  from history_send_ok [OF assms(1-3)] assms(1,4) have e: "ac_Sequence e = of_nat n" "0 < ac_TTL e" "ac_TTL e \<le> ac_CommandTTL config"
    "ac_ExpiresAt e = ac_IssuedAt e + ac_TTL e" "ac_Command e = au_safe a"
    by (auto simp: send_ok_def NewAuthorityWithGuard_def split: option.splits if_splits sum.splits)
  have skew: "0 \<le> rc_MaximumClockSkew rc"
    using assms(5) by (induction rule: reached.induct) (auto simp: NewReceiver_def Let_def not_less split: option.splits if_splits)
  from assms(10) obtain m where m: "SignCommand L put key (rv_epoch r) e credential = Inr m" "authentic L put r m" "sm_Envelope m = e"
    by (rule SignCommand_link)
  have adm: "admissible r m"
    using assms(4,13-15) m(3) e(1) by (auto simp: admissible_def Snapshot_def split: if_splits)
  obtain r' ack err where receive: "Receive L put c r m = (r', ack, err)" by (cases "Receive L put c r m") auto
  have lease: "\<not> bad_lease rc (rs_Now (numbered_state r m)) (sm_Envelope m)"
    using e(2-4) assms(2,7,16,17) skew time_sub_lease [of "ac_TTL e" "ac_IssuedAt e"]
    by (simp add: bad_lease_def m(3) numbered_state_def Snapshot_def)
  have "admit L rc c m (numbered_state r m) = (safeAt rc (rs_Now (rv_state r)) ''acknowledged safe state''
      ((numbered_state r m)\<lparr>rs_Session := ac_ControllerSession e\<rparr>), None)"
    using lease assms(4,6) e(5) by (simp add: admit_def Let_def m(3)) (simp add: numbered_state_def)
  with receive m(2) adm assms(11,12) rc(1) have
    got: "err = nil" "r' = r\<lparr>rv_state := safeAt rc (rs_Now (rv_state r)) ''acknowledged safe state''
        ((numbered_state r m)\<lparr>rs_Session := ac_ControllerSession e\<rparr>)\<rparr>"
      "ack_Accepted ack" "ack_ControllerSession ack = ac_ControllerSession e" "ack_Sequence ack = ac_Sequence e"
      "ack_AppliedAt ack = rs_Now (rv_state r)"
    by (auto elim!: Receive_cases simp: m(3))
  have "validateAcknowledgment e ack now (ac_RequireAppliedAcknowledgment config) = nil"
    using got(3-6) now assms(16-19) skew by (simp add: validateAcknowledgment_def Snapshot_def)
  with got(1,2) show ?thesis
    using assms(6) by (simp add: receiver_Actuator_send_def m(1) receive safeAt_def Snapshot_def)
qed

subsection \<open>A link\<close>

text \<open>An authority whose two commands, the fallback of its binding and a live command, are those the receiver of
  \<open>ReceiverSafety\<close> is shown to accept.\<close>

definition link_config :: AuthorityConfig where
  "link_config = \<lparr>ac_EngineeredSafeState = \<lparr>cmd_Name = ''steer'', cmd_Payload = Some (Marshals ''payload'')\<rparr>,
     ac_CommandTTL = 30, ac_Policy = True, ac_RequireAppliedAcknowledgment = True\<rparr>"

definition link_env :: env where
  "link_env = demo_env\<lparr>e_view := \<lambda>_. GuardSafety.demo_view, e_sys := \<lambda>_. 20, e_now := \<lambda>_. Finished 20,
     e_commit := \<lambda>_ r. Finished (if er_Kind r = EvidenceIntent then ''i'' else ''d'', nil),
     e_await := \<lambda>_ n. Finished (ReceiverSafety.demo_ack (of_nat n), nil)\<rparr>"

definition link_authority :: authority where
  "link_authority = projr (NewAuthorityWithGuard link_config (Some (newGuard default_options)) True True)"

definition link_ops :: "authority_op list" where
  "link_ops = [DoBind (Some demo_ctx) (Some GuardSafety.demo_source), DoArm (Some demo_ctx) ''go'',
     DoApply (Some demo_ctx) \<lparr>rq_Intent = ac_EngineeredSafeState link_config, rq_Causes = [], rq_Detail = []\<rparr>]"

definition link_world :: world where
  "link_world = history link_env (world_of link_authority) link_ops"

fun sends_of :: "trace_event list \<Rightarrow> (nat \<times> ActuatorCommand) list" where
  "sends_of [] = []"
| "sends_of (TSend n e # tr) = (n, e) # sends_of tr"
| "sends_of (_ # tr) = sends_of tr"

lemma sends_of_in: "(n, e) \<in> set (sends_of tr) \<longleftrightarrow> TSend n e \<in> set tr"
  by (induction tr rule: sends_of.induct) auto

lemma sends_of_split: "(n, e) \<in> set (sends_of tr) \<Longrightarrow> \<exists>post pre. tr = post @ TSend n e # pre"
  by (simp add: sends_of_in split_list)

lemma link_new: "NewAuthorityWithGuard link_config (Some (newGuard default_options)) True True = Inr link_authority"
  by code_simp

lemma link_ttl: "ac_CommandTTL link_config \<le> max_i64"
  by (simp add: link_config_def max_i64_def)

lemma link_sends: "sends_of (w_trace link_world) = [(2, demo_envelope 2 False), (1, demo_envelope 1 True)]"
  by code_simp

lemma link_safe: "au_safe link_authority = demo_command"
  by code_simp

lemma link_commands:
  "sent_commands link_env (world_of link_authority) link_ops = {demo_envelope 1 True, demo_envelope 2 False}"
  using link_sends
  by (auto simp: sent_commands_def link_world_def simp flip: sends_of_in)

abbreviation demo_taken :: "SignedCommand list" where
  "demo_taken \<equiv> [demo_message 2 False, demo_message 1 True]"

lemma link_unforged:
  "unforged demo_library demo_put (rc_SenderKey demo_receiver_config) (sent_commands link_env (world_of link_authority) link_ops) demo_taken"
proof -
  have "\<exists>m'. sm_Envelope m' \<in> {demo_envelope 1 True, demo_envelope 2 False} \<and> signedBytes demo_put m' = Inr bytes"
    if "m \<in> set demo_taken" "signedBytes demo_put m = Inr bytes" for m bytes
    using that by (intro exI [of _ m]) (auto simp: demo_fields)
  then show ?thesis unfolding unforged_def link_commands by blast
qed

lemma link_unambiguous:
  "unambiguous demo_put (sent_commands link_env (world_of link_authority) link_ops) demo_taken"
  unfolding unambiguous_def link_commands
  by (auto simp: demo_signed_bytes)
    (auto simp: signedBytes_def demo_put_def without_payload_def demo_fields demo_bytes_def split: if_splits)

theorem driven_output_authorised_witness:
  "\<exists>post n e d current rest intent. w_trace link_world = post @ TSend n e # TPreflight d current # rest
     \<and> ac_Command e = rs_Command (Snapshot demo_live) \<and> rs_Now (Snapshot demo_live) < ac_ExpiresAt e \<and> dec_Permit current
     \<and> TCommitted intent (ac_IntentID e) \<in> set rest \<and> er_Applied intent = Some (rs_Command (Snapshot demo_live))"
proof -
  have live: "\<not> rs_Fallback (Snapshot demo_live)" and skew: "rc_MaximumClockSkew demo_receiver_config = 0"
    by (simp_all add: Snapshot_def demo_receiver_def demo_state_def demo_receiver_config_def)
  show ?thesis
    using driven_output_authorised [OF link_new link_ttl demo_reached_live demo_bounds link_unforged link_unambiguous]
    unfolding link_world_def if_not_P [OF live] skew add_0_right by blast
qed

theorem fallback_gets_through_witness:
  "case receiver_Actuator_send demo_library demo_put (replicate 64 (CHR ''k'')) demo_alive (Some demo_credential) demo_booted
      (demo_envelope 1 True) of
      (r', Inr ack) \<Rightarrow> rs_Fallback (Snapshot r') \<and> rs_Command (Snapshot r') = au_safe link_authority
        \<and> rs_Session (Snapshot r') = ac_ControllerSession (demo_envelope 1 True)
        \<and> validateAcknowledgment (demo_envelope 1 True) ack 30 (ac_RequireAppliedAcknowledgment link_config) = nil
    | (r', Inl err) \<Rightarrow> False"
proof -
  obtain post pre where tr: "w_trace (history link_env (world_of link_authority) link_ops) = post @ TSend 1 (demo_envelope 1 True) # pre"
    using sends_of_split [of 1 "demo_envelope 1 True" "w_trace link_world"] link_sends by (auto simp: link_world_def)
  have booted: "reached demo_library demo_put demo_receiver_config [] demo_booted"
    by (rule reached.boot [OF demo_boot])
  have config: "rc_SafeState demo_receiver_config = au_safe link_authority" "ac_CommandTTL link_config \<le> rc_MaximumLease demo_receiver_config"
    by (simp_all add: link_safe) (simp_all add: demo_receiver_config_def link_config_def)
  have "\<lparr>sm_Epoch = rv_epoch demo_booted, sm_Envelope = demo_envelope 1 True, sm_Grant = Some demo_credential, sm_Signature = []\<rparr>
      = (demo_message 1 True)\<lparr>sm_Signature := []\<rparr>"
    by (simp add: demo_message_def demo_receiver_def)
  then have link: "link_ok demo_library demo_put (replicate 64 (CHR ''k'')) demo_booted (demo_envelope 1 True) (Some demo_credential)"
    unfolding link_ok_def
    by (auto simp: signedBytes_unsigned demo_signed_bytes PrivateKeySize_def demo_library_def demo_receiver_def demo_receiver_config_def
        simp del: append_Cons)
  have state: "rs_HighestSequence (Snapshot demo_booted) = 0" "rs_Session (Snapshot demo_booted) = 0" "rs_Now (Snapshot demo_booted) = 20"
    "rc_MaximumClockSkew demo_receiver_config = 0" "rx_Entry demo_alive = nil" "rx_Locked demo_alive = nil"
    by (simp_all add: Snapshot_def demo_receiver_def demo_state_def demo_receiver_config_def demo_alive_def)
  show ?thesis
    by (rule fallback_gets_through [OF link_new link_ttl tr _ booted config demo_bounds link])
      (simp_all add: state demo_fields)
qed

end
