(* ===== verification/AuditRecord.thy ===== *)
theory AuditRecord
  imports Events Merkle StrictJson
begin

text \<open>
  The record of the audit log (\<^verbatim>\<open>diskRecord\<close> of \<^verbatim>\<open>audit/recorder.go\<close>), the inputs of its hash chain in the three
  format versions, and the wire schema of \<^verbatim>\<open>audit/wire.go\<close> that a line must satisfy before it is decoded.

  Code that is not of the repository is the record \<open>audit_library\<close>: SHA-256, HMAC, Ed25519 verification, the RFC 3339
  form of a time and the encoder and decoder of \<^verbatim>\<open>encoding/json\<close>. JSON text and the strings in it are \<open>string\<close>s of bytes;
  keys, digests and hash inputs are \<open>bytes\<close>.
\<close>

subsection \<open>Data\<close>

datatype any_json =
    JNull
  | JBool bool
  | JNumber string
  | JString string
  | JArray "any_json list"
  | JObject "(string \<times> any_json) list"

record Provenance =
  pv_Module :: string
  pv_Revision :: string
  pv_Modified :: bool
  pv_BuildVersion :: string
  pv_GoVersion :: string
  pv_OS :: string
  pv_Arch :: string
  pv_Host :: string
  pv_PID :: int
  pv_Application :: string
  pv_ApplicationVersion :: string
  pv_Operator :: string
  pv_Authorization :: string
  pv_Config :: "(string \<times> any_json) list"
  pv_Platform :: "(string \<times> string) list"

record diskRecord =
  dr_Version :: int
  dr_RecordType :: string
  dr_RecordedAt :: timestamp
  dr_Kind :: string
  dr_Header :: "Header option"
  dr_Payload :: string
  dr_EventCount :: u64
  dr_PreviousHash :: string
  dr_Hash :: string
  dr_Chain :: string
  dr_ControlSchema :: string
  dr_Durability :: string
  dr_EncodingError :: string
  dr_Session :: "session_id option"
  dr_TreeSize :: u64
  dr_TreeRoot :: string
  dr_Signature :: string
  dr_KeyID :: string
  dr_PublicKey :: string
  dr_Provenance :: "Provenance option"
  dr_Reason :: string
  dr_provenanceRaw :: "string option"

definition zero_record :: diskRecord where
  "zero_record = \<lparr>dr_Version = 0, dr_RecordType = [], dr_RecordedAt = 0, dr_Kind = [], dr_Header = None, dr_Payload = [],
     dr_EventCount = 0, dr_PreviousHash = [], dr_Hash = [], dr_Chain = [], dr_ControlSchema = [], dr_Durability = [],
     dr_EncodingError = [], dr_Session = None, dr_TreeSize = 0, dr_TreeRoot = [], dr_Signature = [], dr_KeyID = [],
     dr_PublicKey = [], dr_Provenance = None, dr_Reason = [], dr_provenanceRaw = None\<rparr>"

text \<open>\<open>al_envelope\<close> decodes the \<^verbatim>\<open>header\<close> field of a payload; \<open>None\<close> is a decoding error, \<open>Some None\<close> an absent or null
  field. \<open>al_int\<close>, \<open>al_record\<close> and \<open>al_provenance\<close> decode into \<^verbatim>\<open>int\<close>, \<^verbatim>\<open>diskRecord\<close> and, without
  unknown fields, \<^verbatim>\<open>Provenance\<close>; \<open>al_MarshalV1\<close> encodes the fields of \<^verbatim>\<open>v1Record\<close>; \<open>al_compact\<close> is
  the form in which an encoder writes a \<^verbatim>\<open>json.RawMessage\<close>.\<close>

record audit_library =
  al_sha256 :: digest
  al_hmac :: "bytes \<Rightarrow> digest"
  al_ed25519 :: "bytes \<Rightarrow> bytes \<Rightarrow> bytes \<Rightarrow> bool"
  al_RFC3339Nano :: "timestamp \<Rightarrow> string"
  al_Marshal :: "diskRecord \<Rightarrow> string option"
  al_MarshalV1 :: "diskRecord \<Rightarrow> string option"
  al_MarshalProvenance :: "Provenance \<Rightarrow> string option"
  al_MarshalHeader :: "Header \<Rightarrow> string option"
  al_utf8 :: "string \<Rightarrow> bool"
  al_valid :: "string \<Rightarrow> bool"
  al_tokens :: "string \<Rightarrow> decoder"
  al_fields :: "string \<Rightarrow> (string, string) fmap option"
  al_int :: "string \<Rightarrow> int option"
  al_record :: "string \<Rightarrow> diskRecord option"
  al_provenance :: "string \<Rightarrow> Provenance option"
  al_envelope :: "string \<Rightarrow> Header option option"
  al_compact :: "string \<Rightarrow> string"

definition FormatVersion :: int where "FormatVersion = 3"
definition ControlSchemaVersion :: string where "ControlSchemaVersion = ''teleop.controls.v1''"
definition MaxRecordSize :: int where "MaxRecordSize = 16 * 1024 * 1024"
definition DefaultMaxPendingBytes :: int where "DefaultMaxPendingBytes = 64 * 1024 * 1024"
definition MaxEventStreamsPerSession :: int where "MaxEventStreamsPerSession = 4096"

definition chainNone :: string where "chainNone = ''none''"
definition chainSHA256 :: string where "chainSHA256 = ''sha256''"
definition chainHMAC :: string where "chainHMAC = ''hmac-sha256''"

text \<open>A stage of the recorder or of the verifier returns the state it leaves and an error; the next one runs unless that
  failed.\<close>

definition and_then :: "'s \<times> go_error \<Rightarrow> ('s \<Rightarrow> 's \<times> go_error) \<Rightarrow> 's \<times> go_error" where
  "and_then result f = (case result of (v, err) \<Rightarrow> if err \<noteq> nil then (v, err) else f v)"

lemma and_then_nilD: "and_then x f = (y, nil) \<Longrightarrow> \<exists>v. x = (v, nil) \<and> f v = (y, nil)"
  by (cases x) (auto simp: and_then_def split: if_splits)

definition fail_if :: "bool \<Rightarrow> go_error \<Rightarrow> 's \<Rightarrow> 's \<times> go_error" where
  "fail_if refused err v = (if refused then (v, err) else (v, nil))"

subsection \<open>Bytes and text\<close>

definition text_bytes :: "string \<Rightarrow> bytes" where
  "text_bytes s = map (\<lambda>c. of_nat (of_char c)) s"

definition hex_EncodeToString :: "bytes \<Rightarrow> string" where
  "hex_EncodeToString bs = concat (map (\<lambda>b. hex_digits 2 (unat b)) bs)"

fun hex_DecodeString :: "string \<Rightarrow> bytes option" where
  "hex_DecodeString [] = Some []"
| "hex_DecodeString [_] = None"
| "hex_DecodeString (a # b # cs) = (case (hex_value a, hex_value b, hex_DecodeString cs) of
     (Some x, Some y, Some bs) \<Rightarrow> Some (of_nat (16 * x + y) # bs)
   | _ \<Rightarrow> None)"

text \<open>\<^verbatim>\<open>strconv.FormatUint\<close> and \<^verbatim>\<open>strconv.Itoa\<close>, base ten.\<close>

fun FormatUint :: "nat \<Rightarrow> string" where
  "FormatUint n = (if n < 10 then [hex_digit n] else FormatUint (n div 10) @ [hex_digit (n mod 10)])"

declare FormatUint.simps [simp del]

definition Itoa :: "int \<Rightarrow> string" where
  "Itoa i = (if i < 0 then CHR ''-'' # FormatUint (nat (- i)) else FormatUint (nat i))"

text \<open>\<^verbatim>\<open>binary.BigEndian.PutUint64\<close>.\<close>

definition be64 :: "u64 \<Rightarrow> bytes" where
  "be64 n = map (\<lambda>i. ucast (drop_bit (8 * (7 - i)) n)) [0..<8]"

definition hash_field :: "bytes \<Rightarrow> bytes" where
  "hash_field v = be64 (of_nat (length v)) @ v"

definition text_field :: "string \<Rightarrow> bytes" where
  "text_field s = hash_field (text_bytes s)"

subsection \<open>The hash of a record\<close>

definition newChainDigest :: "audit_library \<Rightarrow> string \<Rightarrow> bytes \<Rightarrow> go_error + digest" where
  "newChainDigest L chain key =
     (if chain = chainSHA256 then Inr (al_sha256 L)
      else if chain = chainHMAC then (if length key = 0 then Inl [ErrAuthenticationRequired] else Inr (al_hmac L key))
      else Inl [ErrText ''unsupported chain''])"

definition v2_fields :: "audit_library \<Rightarrow> diskRecord \<Rightarrow> string list" where
  "v2_fields L r = [Itoa (dr_Version r), dr_RecordType r, al_RFC3339Nano L (dr_RecordedAt r), dr_Kind r, dr_Payload r,
     FormatUint (unat (dr_EventCount r)), dr_PreviousHash r, dr_Chain r, dr_ControlSchema r, dr_Durability r, dr_EncodingError r]"

definition recordHashV2 :: "audit_library \<Rightarrow> diskRecord \<Rightarrow> string \<Rightarrow> bytes \<Rightarrow> go_error + string" where
  "recordHashV2 L r chain key = (case newChainDigest L chain key of
     Inl err \<Rightarrow> Inl err
   | Inr digest \<Rightarrow> Inr (hex_EncodeToString (digest (concat (map text_field (''teleop-audit-v2'' # v2_fields L r))))))"

text \<open>The bytes hashed for the provenance: those on the wire when verifying, its encoding when recording.\<close>

definition provenance_bytes :: "audit_library \<Rightarrow> diskRecord \<Rightarrow> string option" where
  "provenance_bytes L r = (case dr_provenanceRaw r of
     Some raw \<Rightarrow> Some raw
   | None \<Rightarrow> (case dr_Provenance r of None \<Rightarrow> Some [] | Some p \<Rightarrow> al_MarshalProvenance L p))"

definition v3_fields :: "audit_library \<Rightarrow> diskRecord \<Rightarrow> string list" where
  "v3_fields L r = v2_fields L r
     @ [case dr_Session r of None \<Rightarrow> [] | Some s \<Rightarrow> session_String s, FormatUint (unat (dr_TreeSize r)), dr_TreeRoot r,
        dr_KeyID r, dr_PublicKey r, dr_Reason r]"

definition v3_input :: "audit_library \<Rightarrow> diskRecord \<Rightarrow> string \<Rightarrow> bytes" where
  "v3_input L r provenance = concat (map text_field (''teleop-audit-v3'' # v3_fields L r @ [provenance]))"

definition recordHashV3 :: "audit_library \<Rightarrow> diskRecord \<Rightarrow> string \<Rightarrow> bytes \<Rightarrow> go_error + string" where
  "recordHashV3 L r chain key = (case newChainDigest L chain key of
     Inl err \<Rightarrow> Inl err
   | Inr digest \<Rightarrow> (case provenance_bytes L r of
       None \<Rightarrow> Inl [ErrText ''marshal provenance for hashing'']
     | Some provenance \<Rightarrow> Inr (hex_EncodeToString (digest (v3_input L r provenance)))))"

definition recordHashV1 :: "audit_library \<Rightarrow> diskRecord \<Rightarrow> go_error + string" where
  "recordHashV1 L r = (case al_MarshalV1 L (r\<lparr>dr_Hash := []\<rparr>) of
     None \<Rightarrow> Inl [ErrText ''marshal v1 audit hash input'']
   | Some encoded \<Rightarrow> Inr (hex_EncodeToString (al_sha256 L (text_bytes encoded))))"

subsection \<open>Duplicate fields\<close>

text \<open>\<open>scan_json\<close> and its loop carry fuel, as in \<open>StrictJson\<close>; unlike there, the depth is not bounded.\<close>

fun scan_json :: "nat \<Rightarrow> decoder \<Rightarrow> (go_error + decoder) option"
and scan_json_members :: "nat \<Rightarrow> char \<Rightarrow> string list \<Rightarrow> decoder \<Rightarrow> (go_error + decoder) option" where
  "scan_json 0 d = None"
| "scan_json (Suc fuel) d = (case next_token d of
     Inl err \<Rightarrow> Some (Inl err)
   | Inr (Delim delim, d') \<Rightarrow>
       if delim \<noteq> CHR ''{'' \<and> delim \<noteq> CHR ''['' then Some (Inl rejected) else scan_json_members fuel delim [] d'
   | Inr (_, d') \<Rightarrow> Some (Inr d'))"
| "scan_json_members 0 delim seen d = None"
| "scan_json_members (Suc fuel) delim seen d =
     (if StrictJson.more d then
        (if delim = CHR ''{'' then
           (case next_token d of
              Inl err \<Rightarrow> Some (Inl err)
            | Inr (Text name, d') \<Rightarrow>
                if name \<in> set seen then Some (Inl rejected)
                else (case scan_json fuel d' of
                    None \<Rightarrow> None | Some (Inl err) \<Rightarrow> Some (Inl err)
                  | Some (Inr d'') \<Rightarrow> scan_json_members fuel delim (name # seen) d'')
            | Inr (_, d') \<Rightarrow> Some (Inl rejected))
         else (case scan_json fuel d of
             None \<Rightarrow> None | Some (Inl err) \<Rightarrow> Some (Inl err)
           | Some (Inr d'') \<Rightarrow> scan_json_members fuel delim seen d''))
      else (case next_token d of
          Inl err \<Rightarrow> Some (Inl err)
        | Inr (t, d') \<Rightarrow> if closes delim t then Some (Inr d') else Some (Inl rejected)))"

lemma scan_json_enough:
  "(2 * length d + 1 \<le> fuel \<longrightarrow> settles (length d) (scan_json fuel d))
   \<and> (2 * length d + 2 \<le> fuel \<longrightarrow> settles (length d) (scan_json_members fuel delim seen d))"
proof (induction fuel arbitrary: d delim seen)
  case (Suc fuel)
  have "settles (length d) (scan_json (Suc fuel) d)" if "2 * length d + 1 \<le> Suc fuel"
  proof (cases "next_token d")
    case (Inr r)
    then obtain t d' where r: "next_token d = Inr (t, d')" by (cases r) auto
    from next_token_shorter [OF this] that
    have "settles (length d) (scan_json_members fuel delim [] d')" for delim
      using Suc.IH [of d' delim "[]"] by (auto elim: settles_mono)
    then show ?thesis using r next_token_shorter [OF r] by (auto split: token.split)
  qed auto
  moreover have "settles (length d) (scan_json_members (Suc fuel) delim seen d)" if f: "2 * length d + 2 \<le> Suc fuel"
  proof -
    have rec: "settles (length d) (case scan_json fuel d1 of None \<Rightarrow> None | Some (Inl e) \<Rightarrow> Some (Inl e)
        | Some (Inr d2) \<Rightarrow> scan_json_members fuel delim seen' d2)" if "length d1 \<le> length d" for d1 seen'
    proof (rule settles_bind [where n = "length d1"])
      show "settles (length d1) (scan_json fuel d1)"
        using Suc.IH [of d1] f that by simp
      show "settles (length d) (scan_json_members fuel delim seen' d2)" if "length d2 < length d1" for d2
        using Suc.IH [of d2 delim seen'] f that \<open>length d1 \<le> length d\<close> by (auto elim: settles_mono)
    qed
    show ?thesis
    proof (cases "next_token d")
      case (Inl e)
      then show ?thesis using rec [of d] by simp
    next
      case (Inr r)
      then obtain t d' where r: "next_token d = Inr (t, d')" by (cases r) auto
      from next_token_shorter [OF this] show ?thesis
        using rec [of d] rec [of d'] r by (auto split: token.split)
    qed
  qed
  ultimately show ?case by blast
qed simp

definition rejectDuplicateJSONFields :: "audit_library \<Rightarrow> string \<Rightarrow> go_error" where
  "rejectDuplicateJSONFields L encoded =
     (case scan_json (2 * length (al_tokens L encoded) + 2) (al_tokens L encoded) of
        None \<Rightarrow> rejected
      | Some (Inl err) \<Rightarrow> err
      | Some (Inr d) \<Rightarrow> if d = [] then nil else rejected)"

subsection \<open>The wire schema\<close>

definition diskFieldAllowed :: "int \<Rightarrow> string \<Rightarrow> bool" where
  "diskFieldAllowed version name =
     (if name \<in> {''version'', ''record_type'', ''recorded_at'', ''kind'', ''payload'', ''event_count'', ''previous_hash'', ''hash''}
      then True
      else if name = ''header'' then version = 1
      else if name \<in> {''chain'', ''control_schema'', ''durability'', ''encoding_error''} then version \<ge> 2
      else if name \<in> {''session'', ''tree_size'', ''tree_root'', ''signature'', ''key_id'', ''public_key'', ''provenance'', ''reason''}
      then version \<ge> 3
      else False)"

definition allowedForType :: "string \<Rightarrow> string \<Rightarrow> bool" where
  "allowedForType recordType name \<longleftrightarrow> name \<notin>
     (if recordType = ''manifest'' then {''kind'', ''payload'', ''event_count'', ''encoding_error'', ''reason''}
      else if recordType = ''event'' then
        {''event_count'', ''chain'', ''control_schema'', ''durability'', ''session'', ''tree_root'', ''signature'',
         ''key_id'', ''public_key'', ''provenance'', ''reason''}
      else if recordType = ''checkpoint'' then
        {''kind'', ''payload'', ''chain'', ''control_schema'', ''durability'', ''encoding_error'', ''session'',
         ''key_id'', ''public_key'', ''provenance''}
      else if recordType = ''footer'' then
        {''kind'', ''payload'', ''chain'', ''control_schema'', ''durability'', ''encoding_error'', ''session'',
         ''key_id'', ''public_key'', ''provenance'', ''reason''}
      else {})"

definition zero_fields :: "diskRecord \<Rightarrow> (string \<times> bool) list" where
  "zero_fields r = [(''kind'', dr_Kind r = []), (''payload'', length (dr_Payload r) = 0), (''event_count'', dr_EventCount r = 0),
     (''previous_hash'', dr_PreviousHash r = []), (''hash'', dr_Hash r = []), (''chain'', dr_Chain r = []),
     (''control_schema'', dr_ControlSchema r = []), (''durability'', dr_Durability r = []),
     (''encoding_error'', dr_EncodingError r = []), (''session'', dr_Session r = None), (''tree_root'', dr_TreeRoot r = []),
     (''signature'', dr_Signature r = []), (''key_id'', dr_KeyID r = []), (''public_key'', dr_PublicKey r = []),
     (''provenance'', dr_Provenance r = None), (''reason'', dr_Reason r = [])]"

definition rejectPresentZeroFields :: "diskRecord \<Rightarrow> (string, string) fmap \<Rightarrow> go_error" where
  "rejectPresentZeroFields r present =
     (if list_ex (\<lambda>(name, isZero). fmlookup present name \<noteq> None \<and> isZero) (zero_fields r)
      then [ErrText ''audit record field must be omitted when empty''] else nil)"

definition validateCurrentRecordShape :: "diskRecord \<Rightarrow> (string, string) fmap \<Rightarrow> go_error" where
  "validateCurrentRecordShape r present =
     (if \<not> list_all (\<lambda>required. fmlookup present required \<noteq> None) [''version'', ''record_type'', ''recorded_at'', ''tree_size'']
      then [ErrText ''audit record field is required'']
      else if rejectPresentZeroFields r present \<noteq> nil then rejectPresentZeroFields r present
      else if \<not> fBall (fmdom present) (allowedForType (dr_RecordType r))
      then [ErrText ''audit record field is not valid on record type'']
      else nil)"

definition decodeDiskRecord :: "audit_library \<Rightarrow> string \<Rightarrow> go_error + diskRecord" where
  "decodeDiskRecord L encoded =
     (if \<not> al_utf8 L encoded then Inl [ErrText ''audit record is not valid UTF-8'']
      else if rejectDuplicateJSONFields L encoded \<noteq> nil then Inl (rejectDuplicateJSONFields L encoded)
      else case al_fields L encoded of
        None \<Rightarrow> Inl [ErrText ''decode'']
      | Some present \<Rightarrow> (case fmlookup present ''version'' of
          None \<Rightarrow> Inl [ErrText ''version is required'']
        | Some rawVersion \<Rightarrow> (case al_int L rawVersion of
            None \<Rightarrow> Inl [ErrText ''decode version'']
          | Some version \<Rightarrow>
              if 1 \<le> version \<and> version \<le> FormatVersion \<and> \<not> fBall (fmdom present) (diskFieldAllowed version)
              then Inl [ErrText ''field is not valid in format version'']
              else case al_record L encoded of
                None \<Rightarrow> Inl [ErrText ''decode'']
              | Some r \<Rightarrow>
                  if version = FormatVersion \<and> validateCurrentRecordShape r present \<noteq> nil
                  then Inl (validateCurrentRecordShape r present)
                  else case fmlookup present ''provenance'' of
                    None \<Rightarrow> Inr r
                  | Some raw \<Rightarrow>
                      if trim_space raw \<noteq> ''null'' \<and> al_provenance L raw = None then Inl [ErrText ''decode audit provenance'']
                      else Inr (r\<lparr>dr_provenanceRaw := Some raw\<rparr>))))"

subsection \<open>Events on disk\<close>

definition eventHeader :: "audit_library \<Rightarrow> diskRecord \<Rightarrow> go_error + Header" where
  "eventHeader L r = (case (dr_Version r = 1, dr_Header r) of
     (True, Some h) \<Rightarrow> Inr h
   | _ \<Rightarrow> (case al_envelope L (dr_Payload r) of
       None \<Rightarrow> Inl [ErrText ''decode event header'']
     | Some None \<Rightarrow> Inr zero_header
     | Some (Some h) \<Rightarrow> Inr h))"

record Record =
  re_Version :: int
  re_RecordedAt :: timestamp
  re_Kind :: string
  re_Header :: Header
  re_Payload :: string
  re_PreviousHash :: string
  re_Hash :: string
  re_EncodingError :: string

end
