(* ===== verification/AuditSign.thy ===== *)
theory AuditSign
  imports AuditRecord
begin

text \<open>
  Signed tree heads (\<^verbatim>\<open>audit/sign.go\<close>), the checkpoints published outside the log (\<^verbatim>\<open>Checkpoint\<close> and
  \<^verbatim>\<open>VerifyCheckpoint\<close> of \<^verbatim>\<open>audit/anchor.go\<close>) and their comparison with a log (\<^verbatim>\<open>audit/witness_verify.go\<close>).

  A \<^verbatim>\<open>crypto.Signer\<close> is the record \<open>signer\<close>: its public key, \<open>None\<close> when that is no Ed25519 key, and the answer to the
  \<open>n\<close>-th signing call. Both callbacks may panic.
\<close>

definition ed25519_PublicKeySize :: nat where "ed25519_PublicKeySize = 32"
definition ed25519_SignatureSize :: nat where "ed25519_SignatureSize = 64"

definition signatureDomain :: string where "signatureDomain = ''teleop.audit.sth.v1''"
definition SignatureAlgorithmEd25519 :: string where "SignatureAlgorithmEd25519 = ''ed25519''"

definition KeyID :: "audit_library \<Rightarrow> bytes \<Rightarrow> string" where
  "KeyID L public = hex_EncodeToString (take 8 (al_sha256 L public))"

subsection \<open>Signing keys\<close>

record signer =
  sg_Public :: "bytes option outcome"
  sg_Sign :: "nat \<Rightarrow> bytes \<Rightarrow> (go_error + bytes) outcome"

record signingKey =
  sk_signer :: "signer option"
  sk_public :: bytes
  sk_id :: string

definition newSigningKey :: "audit_library \<Rightarrow> signer \<Rightarrow> go_error + signingKey" where
  "newSigningKey L s = (case sg_Public s of
     Panicked \<Rightarrow> Inl [ErrCallbackPanic]
   | Returned None \<Rightarrow> Inl [ErrSignature]
   | Returned (Some public) \<Rightarrow>
       if length public \<noteq> ed25519_PublicKeySize then Inl [ErrSignature]
       else Inr \<lparr>sk_signer = Some s, sk_public = public, sk_id = KeyID L public\<rparr>)"

definition key_sign :: "audit_library \<Rightarrow> signingKey \<Rightarrow> nat \<Rightarrow> bytes \<Rightarrow> go_error + string" where
  "key_sign L k n message = (case sk_signer k of
     None \<Rightarrow> Inl [ErrSignature]
   | Some s \<Rightarrow> (case sg_Sign s n message of
       Panicked \<Rightarrow> Inl [ErrCallbackPanic]
     | Returned (Inl err) \<Rightarrow> Inl (ErrText ''sign audit record'' # err)
     | Returned (Inr signature) \<Rightarrow>
         if length signature \<noteq> ed25519_SignatureSize then Inl [ErrSignature]
         else if \<not> al_ed25519 L (sk_public k) message signature then Inl [ErrSignature]
         else Inr (hex_EncodeToString signature)))"

subsection \<open>Tree heads\<close>

record TreeHead =
  th_Version :: int
  th_RecordType :: string
  th_Session :: session_id
  th_Size :: u64
  th_Root :: bytes
  th_ChainHead :: string
  th_EventCount :: u64
  th_RecordedAt :: timestamp

text \<open>\<^verbatim>\<open>Session[:]\<close>, the 16 bytes of a session identity.\<close>

definition session_bytes :: "session_id \<Rightarrow> bytes" where
  "session_bytes s = map (\<lambda>i. ucast (drop_bit (8 * (15 - i)) s)) [0..<16]"

definition signingBytes :: "audit_library \<Rightarrow> TreeHead \<Rightarrow> bytes" where
  "signingBytes L h = text_field signatureDomain @ text_field (Itoa (th_Version h)) @ text_field (th_RecordType h)
     @ hash_field (session_bytes (th_Session h)) @ hash_field (be64 (th_Size h)) @ hash_field (th_Root h)
     @ text_field (th_ChainHead h) @ hash_field (be64 (th_EventCount h)) @ text_field (al_RFC3339Nano L (th_RecordedAt h))"

definition VerifyTreeHead :: "audit_library \<Rightarrow> bytes \<Rightarrow> TreeHead \<Rightarrow> string \<Rightarrow> go_error" where
  "VerifyTreeHead L public head signature =
     (if length public \<noteq> ed25519_PublicKeySize then [ErrSignature]
      else case hex_DecodeString signature of
        None \<Rightarrow> [ErrSignature]
      | Some raw \<Rightarrow>
          if length raw \<noteq> ed25519_SignatureSize then [ErrSignature]
          else if \<not> al_ed25519 L public (signingBytes L head) raw then [ErrSignature]
          else nil)"

definition decodePublicKey :: "string \<Rightarrow> go_error + bytes" where
  "decodePublicKey encoded = (case hex_DecodeString encoded of
     None \<Rightarrow> Inl [ErrSignature]
   | Some raw \<Rightarrow> if length raw \<noteq> ed25519_PublicKeySize then Inl [ErrSignature] else Inr raw)"

subsection \<open>Checkpoints\<close>

record Checkpoint =
  cp_Version :: int
  cp_RecordType :: string
  cp_SignatureAlgorithm :: string
  cp_Session :: session_id
  cp_Size :: u64
  cp_Root :: string
  cp_ChainHead :: string
  cp_EventCount :: u64
  cp_RecordedAt :: timestamp
  cp_KeyID :: string
  cp_PublicKey :: string
  cp_Signature :: string

definition head_types :: "string set" where
  "head_types = {''manifest'', ''checkpoint'', ''footer''}"

definition declared_key_error :: "bytes \<Rightarrow> string \<Rightarrow> go_error" where
  "declared_key_error public declared =
     (if declared = [] then nil
      else case decodePublicKey declared of
        Inl err \<Rightarrow> err
      | Inr key \<Rightarrow> if key \<noteq> public then [ErrUntrustedKey] else nil)"

definition VerifyCheckpoint :: "audit_library \<Rightarrow> bytes \<Rightarrow> Checkpoint \<Rightarrow> go_error" where
  "VerifyCheckpoint L public c =
     (if length public \<noteq> ed25519_PublicKeySize then [ErrSignature]
      else if cp_Version c \<noteq> FormatVersion then [ErrSignature]
      else if cp_RecordType c \<notin> head_types then [ErrSignature]
      else if cp_Session c = 0 \<and> (cp_RecordType c = ''checkpoint'' \<or> cp_EventCount c > 0) then [ErrSessionRequired]
      else if cp_SignatureAlgorithm c \<noteq> SignatureAlgorithmEd25519 then [ErrSignature]
      else if declared_key_error public (cp_PublicKey c) \<noteq> nil then declared_key_error public (cp_PublicKey c)
      else if cp_KeyID c \<noteq> [] \<and> cp_KeyID c \<noteq> KeyID L public then [ErrUntrustedKey]
      else case hex_DecodeString (cp_Root c) of
        None \<Rightarrow> [ErrSignature]
      | Some headRoot \<Rightarrow>
          if length headRoot \<noteq> HashSize then [ErrSignature]
          else case hex_DecodeString (cp_ChainHead c) of
            None \<Rightarrow> [ErrSignature]
          | Some chainHead \<Rightarrow>
              if length chainHead \<noteq> HashSize then [ErrSignature]
              else VerifyTreeHead L public
                \<lparr>th_Version = cp_Version c, th_RecordType = cp_RecordType c, th_Session = cp_Session c, th_Size = cp_Size c,
                 th_Root = headRoot, th_ChainHead = cp_ChainHead c, th_EventCount = cp_EventCount c,
                 th_RecordedAt = cp_RecordedAt c\<rparr> (cp_Signature c))"

subsection \<open>Retained checkpoints\<close>

record VerifyOptions =
  vo_Witnesses :: "Checkpoint list"
  vo_RequireWitness :: bool
  vo_RequireFooter :: bool
  vo_AllowUnverified :: bool
  vo_RequireAuthentication :: bool
  vo_HMACKey :: bytes
  vo_PublicKey :: bytes
  vo_RequireSignature :: bool
  vo_MaxPendingBytes :: u64

definition same_statement :: "Checkpoint \<Rightarrow> Checkpoint \<Rightarrow> bool" where
  "same_statement a b \<longleftrightarrow> cp_Session a = cp_Session b \<and> cp_RecordType a = cp_RecordType b \<and> cp_Root a = cp_Root b
     \<and> cp_ChainHead a = cp_ChainHead b \<and> cp_EventCount a = cp_EventCount b \<and> cp_RecordedAt a = cp_RecordedAt b"

fun collect_witnesses ::
  "audit_library \<Rightarrow> bytes \<Rightarrow> Checkpoint list \<Rightarrow> (u64, Checkpoint) fmap \<Rightarrow> go_error + (u64, Checkpoint) fmap" where
  "collect_witnesses L public [] result = Inr result"
| "collect_witnesses L public (w # ws) result =
     (if VerifyCheckpoint L public w \<noteq> nil then Inl (VerifyCheckpoint L public w)
      else case fmlookup result (cp_Size w) of
        Some previous \<Rightarrow>
          if \<not> same_statement previous w then Inl [ErrWitnessMismatch]
          else collect_witnesses L public ws (fmupd (cp_Size w) w result)
      | None \<Rightarrow> collect_witnesses L public ws (fmupd (cp_Size w) w result))"

definition prepareWitnessVerification :: "audit_library \<Rightarrow> VerifyOptions \<Rightarrow> go_error + (u64, Checkpoint) fmap" where
  "prepareWitnessVerification L options =
     (if vo_RequireWitness options \<and> vo_Witnesses options = [] then Inl [ErrWitnessRequired]
      else if vo_Witnesses options \<noteq> [] \<and> length (vo_PublicKey options) \<noteq> ed25519_PublicKeySize then Inl [ErrUntrustedKey]
      else collect_witnesses L (vo_PublicKey options) (vo_Witnesses options) fmempty)"

text \<open>\<^verbatim>\<open>strings.EqualFold\<close> on hexadecimal text.\<close>

definition lower_char :: "char \<Rightarrow> char" where
  "lower_char c = (let n = of_char c :: nat in if 65 \<le> n \<and> n \<le> 90 then char_of (n + 32) else c)"

definition EqualFold :: "string \<Rightarrow> string \<Rightarrow> bool" where
  "EqualFold a b \<longleftrightarrow> map lower_char a = map lower_char b"

definition witnessMatchesRecord :: "Checkpoint \<Rightarrow> diskRecord \<Rightarrow> session_id \<Rightarrow> bool" where
  "witnessMatchesRecord w r session \<longleftrightarrow>
     cp_Version w = dr_Version r \<and> cp_RecordType w = dr_RecordType r \<and> cp_Session w = session \<and> cp_Size w = dr_TreeSize r
     \<and> cp_Root w = dr_TreeRoot r \<and> cp_ChainHead w = dr_Hash r \<and> cp_EventCount w = dr_EventCount r
     \<and> cp_RecordedAt w = dr_RecordedAt r \<and> EqualFold (cp_Signature w) (dr_Signature r)"

end
