(* ===== verification/Anchor.thy ===== *)
theory Anchor
  imports AuditSign
begin

text \<open>
  The asynchronous publisher of \<^verbatim>\<open>audit/anchor.go\<close>: a bounded queue of checkpoints, a worker that hands them to the
  \<^verbatim>\<open>Anchor\<close> adapter one at a time, and the accounting a recorder and its callers consult. The recorder's side is
  \<open>anchor_publish\<close>; the worker's goroutine is two steps, \<open>anchor_take\<close> and \<open>anchor_finish\<close>, between which anything may
  be published; what the adapter does with a checkpoint is a \<open>publication\<close>.
\<close>

record WitnessReceipt =
  wr_Checkpoint :: Checkpoint
  wr_AcknowledgedAt :: timestamp

record anchorRunner =
  an_depth :: nat
  an_queue :: "Checkpoint list"
  an_active :: "Checkpoint option"
  an_failure :: go_error
  an_failures :: u64
  an_dropped :: u64
  an_sent :: u64
  an_lastReceipt :: "WitnessReceipt option"
  an_lastFailureCheckpoint :: "Checkpoint option"
  an_lastFailureErr :: go_error
  an_lastDroppedCheckpoint :: "Checkpoint option"
  an_circuitOpen :: bool
  an_stopped :: bool

definition newAnchorRunner :: "int \<Rightarrow> anchorRunner" where
  "newAnchorRunner depth = \<lparr>an_depth = nat (if depth \<le> 0 then 8 else depth), an_queue = [], an_active = None, an_failure = nil,
     an_failures = 0, an_dropped = 0, an_sent = 0, an_lastReceipt = None, an_lastFailureCheckpoint = None,
     an_lastFailureErr = nil, an_lastDroppedCheckpoint = None, an_circuitOpen = False, an_stopped = False\<rparr>"

definition anchor_drop :: "Checkpoint \<Rightarrow> anchorRunner \<Rightarrow> anchorRunner" where
  "anchor_drop c a = a\<lparr>an_dropped := an_dropped a + 1, an_lastDroppedCheckpoint := Some c\<rparr>"

definition anchor_publish :: "Checkpoint \<Rightarrow> anchorRunner \<Rightarrow> anchorRunner" where
  "anchor_publish c a =
     (if length (an_queue a) < an_depth a then a\<lparr>an_queue := an_queue a @ [c]\<rparr>
      else case an_queue a of
        [] \<Rightarrow> a
      | oldest # later \<Rightarrow> (anchor_drop oldest a)\<lparr>an_queue := later @ [c]\<rparr>)"

datatype publication =
    Acknowledged timestamp
  | PublishFailed go_error
  | PublishPanicked
  | TimedOut

definition anchor_take :: "anchorRunner \<Rightarrow> anchorRunner" where
  "anchor_take a = (case (an_active a, an_queue a) of
     (None, c # later) \<Rightarrow>
       (if an_circuitOpen a then anchor_drop c (a\<lparr>an_queue := later\<rparr>)
        else a\<lparr>an_queue := later, an_active := Some c\<rparr>)
   | _ \<Rightarrow> a)"

definition anchor_failed :: "Checkpoint \<Rightarrow> go_error \<Rightarrow> bool \<Rightarrow> anchorRunner \<Rightarrow> anchorRunner" where
  "anchor_failed c err timedOut a = a\<lparr>an_active := None, an_circuitOpen := an_circuitOpen a \<or> timedOut,
     an_failures := an_failures a + 1, an_failure := (if an_failure a = nil then err else an_failure a),
     an_lastFailureCheckpoint := Some c, an_lastFailureErr := err\<rparr>"

text \<open>An adapter that reports failure returns a non-nil error.\<close>

definition anchor_finish :: "publication \<Rightarrow> anchorRunner \<Rightarrow> anchorRunner" where
  "anchor_finish p a = (case an_active a of
     None \<Rightarrow> a
   | Some c \<Rightarrow> (case p of
       Acknowledged t \<Rightarrow> a\<lparr>an_active := None, an_sent := an_sent a + 1,
           an_lastReceipt := Some \<lparr>wr_Checkpoint = c, wr_AcknowledgedAt = t\<rparr>\<rparr>
     | PublishFailed err \<Rightarrow> anchor_failed c (if err = nil then [ErrText ''publish''] else err) False a
     | PublishPanicked \<Rightarrow> anchor_failed c [ErrCallbackPanic] False a
     | TimedOut \<Rightarrow> anchor_failed c [CtxDeadlineExceeded] True a))"

text \<open>\<open>stop\<close> closes the queue and waits for the worker: every checkpoint still queued gets its outcome from \<open>ps\<close>, in
  order; where the list is shorter, the adapter times out.\<close>

fun anchor_drain :: "nat \<Rightarrow> publication list \<Rightarrow> anchorRunner \<Rightarrow> anchorRunner" where
  "anchor_drain 0 ps a = a"
| "anchor_drain (Suc n) ps a = (let a = anchor_take a in
     if an_active a = None then anchor_drain n ps a
     else anchor_drain n (tl ps) (anchor_finish (if ps = [] then TimedOut else hd ps) a))"

definition anchor_stop :: "publication list \<Rightarrow> anchorRunner \<Rightarrow> anchorRunner" where
  "anchor_stop ps a = (anchor_drain (Suc (length (an_queue a))) ps a)\<lparr>an_stopped := True\<rparr>"

subsection \<open>What the recorder asks\<close>

definition checkpointWitnessCovers :: "Checkpoint \<Rightarrow> Checkpoint \<Rightarrow> bool" where
  "checkpointWitnessCovers receipt target =
     (if cp_Session receipt \<noteq> cp_Session target \<or> cp_EventCount receipt < cp_EventCount target then False
      else if cp_ChainHead target \<noteq> [] \<and> cp_ChainHead receipt = cp_ChainHead target then True
      else cp_Size receipt > cp_Size target)"

definition sameCheckpoint :: "Checkpoint option \<Rightarrow> Checkpoint \<Rightarrow> bool" where
  "sameCheckpoint candidate target = (case candidate of
     None \<Rightarrow> False
   | Some c \<Rightarrow> cp_RecordType c = cp_RecordType target \<and> cp_Session c = cp_Session target \<and> cp_Size c = cp_Size target
       \<and> cp_ChainHead c = cp_ChainHead target \<and> cp_EventCount c = cp_EventCount target)"

datatype anchorRetryState = RetryPending | RetryAcknowledged | RetryEligible | RetryTerminal

definition retryState :: "Checkpoint \<Rightarrow> anchorRunner \<Rightarrow> anchorRetryState" where
  "retryState target a =
     (if (case an_lastReceipt a of None \<Rightarrow> False | Some r \<Rightarrow> checkpointWitnessCovers (wr_Checkpoint r) target) then RetryAcknowledged
      else if sameCheckpoint (an_lastFailureCheckpoint a) target then
        (if an_circuitOpen a \<or> errors_Is (an_lastFailureErr a) ErrCallbackPanic then RetryTerminal else RetryEligible)
      else if sameCheckpoint (an_lastDroppedCheckpoint a) target then
        (if an_circuitOpen a then RetryTerminal else RetryEligible)
      else if an_stopped a then RetryTerminal else RetryPending)"

record AnchorStats =
  as_Published :: u64
  as_Failed :: u64
  as_Dropped :: u64
  as_Err :: go_error
  as_LastReceipt :: "WitnessReceipt option"

definition anchor_stats :: "anchorRunner \<Rightarrow> AnchorStats" where
  "anchor_stats a = \<lparr>as_Published = an_sent a, as_Failed = an_failures a, as_Dropped = an_dropped a, as_Err = an_failure a,
     as_LastReceipt = an_lastReceipt a\<rparr>"

text \<open>Waiting is a function of the observations the waiter makes, one after every change, and of what its context
  reports if none of them settles it.\<close>

fun anchor_wait :: "u64 \<Rightarrow> (AnchorStats \<times> bool) list \<Rightarrow> go_error \<Rightarrow> go_error + WitnessReceipt" where
  "anchor_wait eventCount [] ctxErr = Inl ctxErr"
| "anchor_wait eventCount ((stats, stopped) # later) ctxErr =
     (case as_LastReceipt stats of
        Some r \<Rightarrow>
          if cp_EventCount (wr_Checkpoint r) \<ge> eventCount then Inr r
          else if as_Failed stats > 0 then Inl (ErrWitnessRequired # as_Err stats)
          else if as_Dropped stats > 0 then Inl [ErrWitnessRequired]
          else if stopped then Inl [ErrWitnessRequired]
          else anchor_wait eventCount later ctxErr
      | None \<Rightarrow>
          if as_Failed stats > 0 then Inl (ErrWitnessRequired # as_Err stats)
          else if as_Dropped stats > 0 then Inl [ErrWitnessRequired]
          else if stopped then Inl [ErrWitnessRequired]
          else anchor_wait eventCount later ctxErr)"

fun waitForCheckpointWitness ::
  "Checkpoint \<Rightarrow> AnchorStats \<Rightarrow> (AnchorStats \<times> bool) list \<Rightarrow> go_error \<Rightarrow> go_error + WitnessReceipt" where
  "waitForCheckpointWitness target baseline [] ctxErr = Inl ctxErr"
| "waitForCheckpointWitness target baseline ((stats, stopped) # later) ctxErr =
     (if as_Failed stats > as_Failed baseline then Inl (ErrWitnessRequired # as_Err stats)
      else if as_Dropped stats > as_Dropped baseline then Inl [ErrWitnessRequired]
      else case as_LastReceipt stats of
        Some r \<Rightarrow>
          if checkpointWitnessCovers (wr_Checkpoint r) target then Inr r
          else if stopped then Inl [ErrWitnessRequired]
          else waitForCheckpointWitness target baseline later ctxErr
      | None \<Rightarrow>
          if stopped then Inl [ErrWitnessRequired] else waitForCheckpointWitness target baseline later ctxErr)"

end
