(* ===== verification/AuditVerify.thy ===== *)
theory AuditVerify
  imports AuditSign EventOrder
begin

text \<open>
  The streaming verifier \<^verbatim>\<open>Verify\<close> of \<^verbatim>\<open>audit/recorder.go\<close>, over the bytes of a log and the error, if any, that
  the reader ends with. Each line runs through the stages of the loop body in the order of the code: the first line's declarations, the
  hash chain, the tree head, the retained witness, the Merkle leaf, and what the record's type asks for. A stage
  returns the state it leaves and an error, since a caller sees the \<^verbatim>\<open>Verification\<close> of a failed call too.

  The consumer is a function of the records it has been given; \<open>vs_consumed\<close> lists them, the last one being the one it
  failed on, if any.
\<close>

record Verification =
  vf_MatchedWitnesses :: nat
  vf_WitnessedEvents :: u64
  vf_WitnessedTreeSize :: u64
  vf_Version :: int
  vf_Chain :: string
  vf_Integrity :: bool
  vf_Authenticated :: bool
  vf_Complete :: bool
  vf_EventCount :: u64
  vf_Durability :: string
  vf_Signed :: bool
  vf_Trusted :: bool
  vf_SignedTreeSize :: u64
  vf_TrustedTreeSize :: u64
  vf_KeyID :: string
  vf_PublicKey :: "bytes option"
  vf_TreeSize :: u64
  vf_TreeRoot :: bytes
  vf_Checkpoints :: u64
  vf_Provenance :: "Provenance option"
  vf_Session :: session_id

definition zero_verification :: Verification where
  "zero_verification = \<lparr>vf_MatchedWitnesses = 0, vf_WitnessedEvents = 0, vf_WitnessedTreeSize = 0, vf_Version = 0,
     vf_Chain = [], vf_Integrity = False, vf_Authenticated = False, vf_Complete = False, vf_EventCount = 0, vf_Durability = [],
     vf_Signed = False, vf_Trusted = False, vf_SignedTreeSize = 0, vf_TrustedTreeSize = 0, vf_KeyID = [], vf_PublicKey = None,
     vf_TreeSize = 0, vf_TreeRoot = [], vf_Checkpoints = 0, vf_Provenance = None, vf_Session = 0\<rparr>"

type_synonym consumer = "Record list \<Rightarrow> Record \<Rightarrow> go_error"

record vstate =
  vs_out :: Verification
  vs_previous :: string
  vs_line :: nat
  vs_footer :: bool
  vs_published :: "highwater option"
  vs_session :: "session_id option"
  vs_tree :: tree
  vs_trusted :: "bytes option"
  vs_headSession :: "session_id option"
  vs_signedThrough :: u64
  vs_trustedThrough :: u64
  vs_pending :: "Record list"
  vs_pendingBytes :: u64
  vs_witnesses :: "(u64, Checkpoint) fmap"
  vs_consumed :: "Record list"

definition start_verifying :: "(u64, Checkpoint) fmap \<Rightarrow> vstate" where
  "start_verifying witnesses = \<lparr>vs_out = zero_verification, vs_previous = [], vs_line = 0, vs_footer = False,
     vs_published = Some (HighWater_New MaxEventStreamsPerSession), vs_session = None, vs_tree = empty_tree, vs_trusted = None,
     vs_headSession = None, vs_signedThrough = 0, vs_trustedThrough = 0, vs_pending = [], vs_pendingBytes = 0,
     vs_witnesses = witnesses, vs_consumed = []\<rparr>"

definition head_session :: "vstate \<Rightarrow> session_id" where
  "head_session v = (case vs_headSession v of None \<Rightarrow> 0 | Some s \<Rightarrow> s)"

definition signatureRequired :: "VerifyOptions \<Rightarrow> bool" where
  "signatureRequired options \<longleftrightarrow> vo_RequireSignature options \<or> length (vo_PublicKey options) > 0"

definition updateCoverage :: "VerifyOptions \<Rightarrow> vstate \<Rightarrow> vstate" where
  "updateCoverage options v = v\<lparr>vs_out := (vs_out v)\<lparr>
     vf_SignedTreeSize := vs_signedThrough v, vf_TrustedTreeSize := vs_trustedThrough v,
     vf_Signed := tree_Size (vs_tree v) > 0 \<and> vs_signedThrough v = tree_Size (vs_tree v),
     vf_Trusted := tree_Size (vs_tree v) > 0 \<and> length (vo_PublicKey options) > 0
       \<and> vs_trustedThrough v = tree_Size (vs_tree v)\<rparr>\<rparr>"

fun deliver :: "consumer option \<Rightarrow> Record list \<Rightarrow> vstate \<Rightarrow> vstate \<times> go_error" where
  "deliver consume [] v = (v, nil)"
| "deliver consume (r # rs) v = (case consume of
     None \<Rightarrow> deliver consume rs v
   | Some f \<Rightarrow>
       let err = f (vs_consumed v) r; v = v\<lparr>vs_consumed := vs_consumed v @ [r]\<rparr>
       in if err \<noteq> nil then (v, err) else deliver consume rs v)"

definition releasePending :: "consumer option \<Rightarrow> vstate \<Rightarrow> vstate \<times> go_error" where
  "releasePending consume v = (case deliver consume (vs_pending v) v of
     (v, err) \<Rightarrow> if err \<noteq> nil then (v, err) else (v\<lparr>vs_pending := [], vs_pendingBytes := 0\<rparr>, nil))"

definition bad_line :: go_error where
  "bad_line = [ErrText ''audit line'']"

subsection \<open>The first line\<close>

text \<open>The declarations of a manifest (format versions 2 and 3).\<close>

definition manifest_key :: "audit_library \<Rightarrow> diskRecord \<Rightarrow> vstate \<Rightarrow> vstate \<times> go_error" where
  "manifest_key L disk v =
     (if dr_PublicKey disk \<noteq> [] then
        (case decodePublicKey (dr_PublicKey disk) of
           Inl err \<Rightarrow> (v, err)
         | Inr public \<Rightarrow>
             if dr_KeyID disk = [] \<or> dr_KeyID disk \<noteq> KeyID L public then (v, [ErrUntrustedKey])
             else (v\<lparr>vs_out := (vs_out v)\<lparr>vf_PublicKey := Some public, vf_KeyID := dr_KeyID disk\<rparr>\<rparr>, nil))
      else fail_if (dr_KeyID disk \<noteq> []) [ErrUntrustedKey] v)"

definition manifest_session :: "diskRecord \<Rightarrow> vstate \<Rightarrow> vstate \<times> go_error" where
  "manifest_session disk v = (case dr_Session disk of
     None \<Rightarrow> (v, nil)
   | Some s \<Rightarrow>
       if s = 0 then (v\<lparr>vs_headSession := None\<rparr>, [ErrSessionRequired])
       else (v\<lparr>vs_headSession := Some s, vs_out := (vs_out v)\<lparr>vf_Session := s\<rparr>\<rparr>, nil))"

definition manifest_declarations :: "audit_library \<Rightarrow> diskRecord \<Rightarrow> vstate \<Rightarrow> vstate \<times> go_error" where
  "manifest_declarations L disk v =
     (if dr_RecordType disk \<noteq> ''manifest'' then (v, bad_line)
      else if dr_ControlSchema disk \<noteq> ControlSchemaVersion then (v, bad_line)
      else and_then (manifest_session disk (v\<lparr>vs_out := (vs_out v)\<lparr>vf_Chain := dr_Chain disk,
          vf_Durability := dr_Durability disk, vf_Provenance := dr_Provenance disk\<rparr>\<rparr>)) (manifest_key L disk))"

text \<open>Which key the signatures must verify under.\<close>

definition select_key :: "VerifyOptions \<Rightarrow> vstate \<Rightarrow> vstate \<times> go_error" where
  "select_key options v =
     (if length (vo_PublicKey options) > 0 then
        (case vf_PublicKey (vs_out v) of
           None \<Rightarrow> (v, [ErrSignatureRequired])
         | Some public \<Rightarrow>
             if public \<noteq> vo_PublicKey options then (v, [ErrUntrustedKey])
             else (v\<lparr>vs_trusted := Some (vo_PublicKey options)\<rparr>, nil))
      else (v\<lparr>vs_trusted := (case vf_PublicKey (vs_out v) of None \<Rightarrow> vs_trusted v | Some k \<Rightarrow> Some k)\<rparr>, nil))"

definition first_line :: "audit_library \<Rightarrow> VerifyOptions \<Rightarrow> diskRecord \<Rightarrow> vstate \<Rightarrow> vstate \<times> go_error" where
  "first_line L options disk v =
     (let v = v\<lparr>vs_out := (vs_out v)\<lparr>vf_Version := dr_Version disk\<rparr>\<rparr> in
      if signatureRequired options \<and> dr_Version disk < 3 then (v, [ErrSignatureRequired])
      else and_then
        (if dr_Version disk = 1 then (v\<lparr>vs_out := (vs_out v)\<lparr>vf_Chain := chainSHA256\<rparr>\<rparr>, nil)
         else manifest_declarations L disk v)
        (\<lambda>v. let chain = vf_Chain (vs_out v) in
          if vo_RequireAuthentication options \<and> chain \<noteq> chainHMAC then (v, [ErrUnauthenticated])
          else if chain = chainNone \<and> \<not> vo_AllowUnverified options then (v, [ErrUnverified])
          else if chain = chainHMAC \<and> length (vo_HMACKey options) = 0 then (v, [ErrAuthenticationRequired])
          else and_then (select_key options v) (\<lambda>v.
            if vf_PublicKey (vs_out v) \<noteq> None \<and> chain = chainNone then (v, [ErrSignature])
            else fail_if (signatureRequired options \<and> vs_trusted v = None) [ErrSignatureRequired] v)))"

subsection \<open>The chain, the tree head and the witness\<close>

definition expected_hash :: "audit_library \<Rightarrow> VerifyOptions \<Rightarrow> string \<Rightarrow> diskRecord \<Rightarrow> go_error + string" where
  "expected_hash L options chain disk =
     (if dr_Version disk = 1 then recordHashV1 L disk
      else if dr_Version disk = 2 then recordHashV2 L disk chain (vo_HMACKey options)
      else recordHashV3 L disk chain (vo_HMACKey options))"

definition check_chain :: "audit_library \<Rightarrow> VerifyOptions \<Rightarrow> diskRecord \<Rightarrow> vstate \<Rightarrow> vstate \<times> go_error" where
  "check_chain L options disk v =
     (if vf_Chain (vs_out v) \<noteq> chainNone then
        (if dr_Hash disk = [] then (v, bad_line)
         else if dr_PreviousHash disk \<noteq> vs_previous v then (v, bad_line)
         else case expected_hash L options (vf_Chain (vs_out v)) disk of
           Inl err \<Rightarrow> (v, err)
         | Inr expected \<Rightarrow>
             if dr_Hash disk \<noteq> expected then (v, [ErrHashMismatch]) else (v\<lparr>vs_previous := dr_Hash disk\<rparr>, nil))
      else fail_if (dr_Hash disk \<noteq> [] \<or> dr_PreviousHash disk \<noteq> []) bad_line v)"

definition is_head :: "diskRecord \<Rightarrow> bool" where
  "is_head disk \<longleftrightarrow> dr_RecordType disk \<noteq> ''event''"

definition record_head :: "diskRecord \<Rightarrow> session_id \<Rightarrow> bytes \<Rightarrow> TreeHead" where
  "record_head disk session headRoot = \<lparr>th_Version = dr_Version disk, th_RecordType = dr_RecordType disk, th_Session = session,
     th_Size = dr_TreeSize disk, th_Root = headRoot, th_ChainHead = dr_Hash disk, th_EventCount = dr_EventCount disk,
     th_RecordedAt = dr_RecordedAt disk\<rparr>"

text \<open>Whether the head of a chained version 3 record carries a signature that was checked.\<close>

definition head_verified :: "diskRecord \<Rightarrow> vstate \<Rightarrow> bool" where
  "head_verified disk v \<longleftrightarrow> is_head disk \<and> dr_Version disk \<ge> 3 \<and> vf_Chain (vs_out v) \<noteq> chainNone \<and> vs_trusted v \<noteq> None"

definition check_head :: "audit_library \<Rightarrow> VerifyOptions \<Rightarrow> diskRecord \<Rightarrow> vstate \<Rightarrow> vstate \<times> go_error" where
  "check_head L options disk v =
     (if is_head disk \<and> dr_Version disk \<ge> 3 \<and> vs_trusted v = None \<and> dr_Signature disk \<noteq> [] then (v, [ErrSignature])
      else if \<not> (is_head disk \<and> dr_Version disk \<ge> 3 \<and> vf_Chain (vs_out v) \<noteq> chainNone) then (v, nil)
      else if dr_TreeSize disk \<noteq> tree_Size (vs_tree v) then (v, [ErrTreeMismatch])
      else case tree_Root (al_sha256 L) (vs_tree v) of
        Panicked \<Rightarrow> (v, [GoPanic])
      | Returned headRoot \<Rightarrow>
          if dr_TreeRoot disk \<noteq> hex_EncodeToString headRoot then (v, [ErrTreeMismatch])
          else case vs_trusted v of
            None \<Rightarrow> (v, nil)
          | Some trusted \<Rightarrow>
              if dr_Signature disk = [] then (v, [ErrSignatureRequired])
              else case hex_DecodeString (dr_TreeRoot disk) of
                None \<Rightarrow> (v, bad_line)
              | Some headRoot \<Rightarrow>
                  let sigErr = VerifyTreeHead L trusted (record_head disk (head_session v) headRoot) (dr_Signature disk) in
                  if sigErr \<noteq> nil then (v, sigErr)
                  else (v\<lparr>vs_signedThrough := tree_Size (vs_tree v) + 1,
                          vs_trustedThrough := (if length (vo_PublicKey options) > 0 then tree_Size (vs_tree v) + 1
                            else vs_trustedThrough v)\<rparr>, nil))"

definition check_witness :: "diskRecord \<Rightarrow> vstate \<Rightarrow> vstate \<times> go_error" where
  "check_witness disk v = (case fmlookup (vs_witnesses v) (tree_Size (vs_tree v)) of
     None \<Rightarrow> (v, nil)
   | Some w \<Rightarrow>
       if \<not> head_verified disk v \<or> \<not> witnessMatchesRecord w disk (head_session v) then (v, [ErrWitnessMismatch])
       else (v\<lparr>vs_out := (vs_out v)\<lparr>vf_MatchedWitnesses := vf_MatchedWitnesses (vs_out v) + 1,
                 vf_WitnessedEvents := max (vf_WitnessedEvents (vs_out v)) (cp_EventCount w),
                 vf_WitnessedTreeSize := max (vf_WitnessedTreeSize (vs_out v)) (tree_Size (vs_tree v) + 1)\<rparr>,
               vs_witnesses := fmdrop (tree_Size (vs_tree v)) (vs_witnesses v)\<rparr>, nil))"

definition append_leaf :: "audit_library \<Rightarrow> VerifyOptions \<Rightarrow> diskRecord \<Rightarrow> vstate \<Rightarrow> vstate \<times> go_error" where
  "append_leaf L options disk v =
     (if \<not> (dr_Version disk \<ge> 3 \<and> vf_Chain (vs_out v) \<noteq> chainNone) then (v, nil)
      else case hex_DecodeString (dr_Hash disk) of
        None \<Rightarrow> (v, bad_line)
      | Some raw \<Rightarrow> (case tree_Append (al_sha256 L) (vs_tree v) (HashLeaf (al_sha256 L) raw) of
          Panicked \<Rightarrow> (v, [GoPanic])
        | Returned tree \<Rightarrow>
            (updateCoverage options (v\<lparr>vs_tree := tree, vs_out := (vs_out v)\<lparr>vf_TreeSize := tree_Size tree\<rparr>\<rparr>), nil)))"

subsection \<open>Records by type\<close>

definition release_if_verified :: "VerifyOptions \<Rightarrow> consumer option \<Rightarrow> bool \<Rightarrow> vstate \<Rightarrow> vstate \<times> go_error" where
  "release_if_verified options consume verified v =
     (if signatureRequired options \<and> verified then releasePending consume v else (v, nil))"

definition event_identity :: "Header \<Rightarrow> diskRecord \<Rightarrow> vstate \<Rightarrow> vstate \<times> go_error" where
  "event_identity header disk v =
     (let session = id_Session (hd_ID header) in
      if dr_Version disk \<ge> 3 \<and> vs_headSession v = None then (v, [ErrSessionRequired])
      else if dr_Version disk \<ge> 3 \<and> session \<noteq> head_session v then (v, bad_line)
      else case vs_session v of
        None \<Rightarrow> (v\<lparr>vs_session := Some session,
            vs_out := (vs_out v)\<lparr>vf_Session := (if vf_Session (vs_out v) = 0 then session else vf_Session (vs_out v))\<rparr>\<rparr>, nil)
      | Some s \<Rightarrow> fail_if (session \<noteq> s) bad_line v)"

text \<open>The same checks as the recorder's \<^verbatim>\<open>validateEventOrderLocked\<close>, by the index of published identities.\<close>

definition out_of_order :: "highwater option \<Rightarrow> Header \<Rightarrow> bool" where
  "out_of_order published header \<longleftrightarrow> id_Stream (hd_ID header) = [] \<or> id_Sequence (hd_ID header) = 0
     \<or> Expected published (id_Stream (hd_ID header)) = 0
     \<or> id_Sequence (hd_ID header) \<noteq> Expected published (id_Stream (hd_ID header))
     \<or> list_ex (\<lambda>cause. id_Session cause \<noteq> id_Session (hd_ID header)
          \<or> \<not> Contains published (id_Stream cause) (id_Sequence cause)) (hd_Causes header)"

definition event_order :: "Header \<Rightarrow> vstate \<Rightarrow> vstate \<times> go_error" where
  "event_order header v =
     (if out_of_order (vs_published v) header then (v, bad_line)
      else case Advance (vs_published v) (id_Stream (hd_ID header)) (id_Sequence (hd_ID header)) of
        Panicked \<Rightarrow> (v, [GoPanic])
      | Returned (published, ok) \<Rightarrow>
          if \<not> ok then (v\<lparr>vs_published := published\<rparr>, bad_line)
          else (v\<lparr>vs_published := published,
                  vs_out := (vs_out v)\<lparr>vf_EventCount := vf_EventCount (vs_out v) + 1\<rparr>\<rparr>, nil))"

definition decoded_event :: "Header \<Rightarrow> diskRecord \<Rightarrow> Record" where
  "decoded_event header disk = \<lparr>re_Version = dr_Version disk, re_RecordedAt = dr_RecordedAt disk, re_Kind = dr_Kind disk,
     re_Header = header, re_Payload = dr_Payload disk, re_PreviousHash = dr_PreviousHash disk, re_Hash = dr_Hash disk,
     re_EncodingError = (if dr_Version disk \<ge> 2 then dr_EncodingError disk else [])\<rparr>"

definition max_pending :: "VerifyOptions \<Rightarrow> u64" where
  "max_pending options = (if vo_MaxPendingBytes options = 0 then of_int DefaultMaxPendingBytes else vo_MaxPendingBytes options)"

definition accept_event :: "VerifyOptions \<Rightarrow> consumer option \<Rightarrow> nat \<Rightarrow> Record \<Rightarrow> vstate \<Rightarrow> vstate \<times> go_error" where
  "accept_event options consume lineSize record v =
     (if signatureRequired options then
        (if consume = None then (v, nil)
         else let recordBytes = of_nat lineSize :: u64 in
           if recordBytes > max_pending options \<or> vs_pendingBytes v > max_pending options - recordBytes
           then (v, [ErrPendingLimit])
           else (v\<lparr>vs_pendingBytes := vs_pendingBytes v + recordBytes, vs_pending := vs_pending v @ [record]\<rparr>, nil))
      else deliver consume [record] v)"

definition verify_event :: "audit_library \<Rightarrow> VerifyOptions \<Rightarrow> consumer option \<Rightarrow> nat \<Rightarrow> diskRecord \<Rightarrow> vstate \<Rightarrow> vstate \<times> go_error" where
  "verify_event L options consume lineSize disk v =
     (if dr_Kind disk = [] then (v, bad_line)
      else case eventHeader L disk of
        Inl err \<Rightarrow> (v, err)
      | Inr header \<Rightarrow>
          and_then (and_then (event_identity header disk v) (event_order header))
            (accept_event options consume lineSize (decoded_event header disk)))"

definition by_type ::
  "audit_library \<Rightarrow> VerifyOptions \<Rightarrow> consumer option \<Rightarrow> nat \<Rightarrow> diskRecord \<Rightarrow> bool \<Rightarrow> vstate \<Rightarrow> vstate \<times> go_error" where
  "by_type L options consume lineSize disk verified v =
     (if dr_RecordType disk = ''manifest'' then
        (if vf_Version (vs_out v) = 1 \<or> vs_line v \<noteq> 1 then (v, bad_line)
         else release_if_verified options consume verified v)
      else if dr_RecordType disk = ''checkpoint'' then
        (if dr_Version disk < 3 then (v, bad_line)
         else if dr_EventCount disk \<noteq> vf_EventCount (vs_out v) then (v, bad_line)
         else release_if_verified options consume verified
           (v\<lparr>vs_out := (vs_out v)\<lparr>vf_Checkpoints := vf_Checkpoints (vs_out v) + 1\<rparr>\<rparr>))
      else if dr_RecordType disk = ''footer'' then
        (if dr_EventCount disk \<noteq> vf_EventCount (vs_out v) then (v, bad_line)
         else release_if_verified options consume verified
           (v\<lparr>vs_footer := True, vs_out := (vs_out v)\<lparr>vf_Complete := True\<rparr>\<rparr>))
      else if dr_RecordType disk = ''event'' then verify_event L options consume lineSize disk v
      else (v, bad_line))"

subsection \<open>The loop\<close>

definition verify_record ::
  "audit_library \<Rightarrow> VerifyOptions \<Rightarrow> consumer option \<Rightarrow> nat \<Rightarrow> diskRecord \<Rightarrow> vstate \<Rightarrow> vstate \<times> go_error" where
  "verify_record L options consume lineSize disk v =
     (if dr_Version disk < 1 \<or> dr_Version disk > FormatVersion then (v, bad_line)
      else and_then
        (if vs_line v = 1 then first_line L options disk v
         else fail_if (dr_Version disk \<noteq> vf_Version (vs_out v)) bad_line v)
        (\<lambda>v. if vs_footer v then (v, bad_line)
          else and_then (check_chain L options disk v) (\<lambda>v.
            and_then (check_head L options disk v) (\<lambda>v.
              let verified = head_verified disk v in
              and_then (and_then (check_witness disk v) (append_leaf L options disk))
                (by_type L options consume lineSize disk verified)))))"

definition verify_line :: "audit_library \<Rightarrow> VerifyOptions \<Rightarrow> consumer option \<Rightarrow> string \<Rightarrow> vstate \<Rightarrow> vstate \<times> go_error" where
  "verify_line L options consume line v =
     (let v = v\<lparr>vs_line := vs_line v + 1\<rparr> in
      case decodeDiskRecord L line of
        Inl err \<Rightarrow> (v, err)
      | Inr disk \<Rightarrow> verify_record L options consume (length line) disk v)"

text \<open>The lines of a log, and what follows the last newline.\<close>

definition newline :: char where "newline = CHR 0x0A"

fun split_lines :: "string \<Rightarrow> string list \<times> string" where
  "split_lines [] = ([], [])"
| "split_lines (c # cs) = (case split_lines cs of (lines, rest) \<Rightarrow>
     if c = newline then ([] # lines, rest)
     else (case lines of [] \<Rightarrow> ([], c # rest) | line # lines \<Rightarrow> ((c # line) # lines, rest)))"

text \<open>\<open>nextLine\<close> refuses a line of more than \<open>MaxRecordSize\<close> bytes with its newline.\<close>

fun verify_lines ::
  "audit_library \<Rightarrow> VerifyOptions \<Rightarrow> consumer option \<Rightarrow> string list \<Rightarrow> vstate \<Rightarrow> vstate \<times> go_error" where
  "verify_lines L options consume [] v = (v, nil)"
| "verify_lines L options consume (line # lines) v =
     (if int (length line) + 1 > MaxRecordSize then (v, [ErrRecordTooLarge])
      else and_then (verify_line L options consume line v) (verify_lines L options consume lines))"

definition verify_rest :: "VerifyOptions \<Rightarrow> string \<Rightarrow> go_error \<Rightarrow> vstate \<Rightarrow> vstate \<times> go_error" where
  "verify_rest options rest readErr v =
     (if int (length rest) > MaxRecordSize then (v, [ErrRecordTooLarge])
      else if readErr \<noteq> nil then (v, readErr)
      else if rest = [] then (v, nil)
      else fail_if (vo_RequireFooter options) [ErrIncomplete] (v\<lparr>vs_line := vs_line v + 1\<rparr>))"

definition conclude :: "audit_library \<Rightarrow> VerifyOptions \<Rightarrow> vstate \<Rightarrow> vstate \<times> go_error" where
  "conclude L options v =
     (if vf_Version (vs_out v) = 0 then (v, [ErrText ''audit log is empty''])
      else if vo_RequireFooter options \<and> \<not> vs_footer v then (v, [ErrIncomplete])
      else case tree_Root (al_sha256 L) (vs_tree v) of
        Panicked \<Rightarrow> (v, [GoPanic])
      | Returned headRoot \<Rightarrow>
          let chain = vf_Chain (vs_out v);
              v = updateCoverage options (v\<lparr>vs_out := (vs_out v)\<lparr>vf_Integrity := chain = chainSHA256 \<or> chain = chainHMAC,
                vf_Authenticated := chain = chainHMAC, vf_TreeSize := tree_Size (vs_tree v), vf_TreeRoot := headRoot\<rparr>\<rparr>)
          in if signatureRequired options \<and> \<not> vf_Signed (vs_out v) then (v, [ErrSignatureRequired])
             else fail_if (map_len (vs_witnesses v) > 0) [ErrWitnessMismatch] v)"

definition Verify ::
  "audit_library \<Rightarrow> VerifyOptions \<Rightarrow> consumer option \<Rightarrow> string \<Rightarrow> go_error \<Rightarrow> vstate \<times> go_error" where
  "Verify L options consume input readErr = (case prepareWitnessVerification L options of
     Inl err \<Rightarrow> (start_verifying fmempty, err)
   | Inr witnesses \<Rightarrow>
       if length (vo_PublicKey options) > 0 \<and> length (vo_PublicKey options) \<noteq> ed25519_PublicKeySize
       then (start_verifying fmempty, [ErrSignature])
       else (case split_lines input of (lines, rest) \<Rightarrow>
         and_then (and_then (verify_lines L options consume lines (start_verifying witnesses))
             (verify_rest options rest readErr)) (conclude L options)))"

text \<open>\<open>Read\<close> collects the records; its wrappers fix the options.\<close>

definition collect :: consumer where
  "collect given record = nil"

definition Read :: "audit_library \<Rightarrow> string \<Rightarrow> go_error \<Rightarrow> VerifyOptions \<Rightarrow> Record list \<times> Verification \<times> go_error" where
  "Read L input readErr options = (case Verify L options (Some collect) input readErr of
     (v, err) \<Rightarrow> (vs_consumed v, vs_out v, err))"

definition no_options :: VerifyOptions where
  "no_options = \<lparr>vo_Witnesses = [], vo_RequireWitness = False, vo_RequireFooter = False, vo_AllowUnverified = False,
     vo_RequireAuthentication = False, vo_HMACKey = [], vo_PublicKey = [], vo_RequireSignature = False, vo_MaxPendingBytes = 0\<rparr>"

definition ReadAll :: "audit_library \<Rightarrow> string \<Rightarrow> go_error \<Rightarrow> Record list \<times> go_error" where
  "ReadAll L input readErr = (case Read L input readErr (no_options\<lparr>vo_RequireFooter := True\<rparr>) of (rs, v, err) \<Rightarrow> (rs, err))"

definition ReadAuthenticated :: "audit_library \<Rightarrow> string \<Rightarrow> go_error \<Rightarrow> bytes \<Rightarrow> Record list \<times> Verification \<times> go_error" where
  "ReadAuthenticated L input readErr key =
     Read L input readErr (no_options\<lparr>vo_RequireFooter := True, vo_RequireAuthentication := True, vo_HMACKey := key\<rparr>)"

definition ReadTrusted :: "audit_library \<Rightarrow> string \<Rightarrow> go_error \<Rightarrow> bytes \<Rightarrow> Record list \<times> Verification \<times> go_error" where
  "ReadTrusted L input readErr public =
     (if length public \<noteq> ed25519_PublicKeySize then ([], zero_verification, [ErrSignature])
      else case Read L input readErr (no_options\<lparr>vo_RequireFooter := True, vo_RequireSignature := True, vo_PublicKey := public\<rparr>) of
        (rs, v, err) \<Rightarrow> if err \<noteq> nil then ([], v, err) else (rs, v, nil))"

definition ReadPartial :: "audit_library \<Rightarrow> string \<Rightarrow> go_error \<Rightarrow> Record list \<times> go_error" where
  "ReadPartial L input readErr = (case Read L input readErr no_options of (rs, v, err) \<Rightarrow> (rs, err))"

end
