(* ===== verification/AuditRecorder.thy ===== *)
theory AuditRecorder
  imports Anchor AuditVerify
begin

text \<open>
  The recorder of \<^verbatim>\<open>audit/recorder.go\<close>: \<^verbatim>\<open>Record\<close>, \<^verbatim>\<open>RecordCanonical\<close>, \<^verbatim>\<open>Checkpoint\<close>,
  \<^verbatim>\<open>CheckpointAndWait\<close>, the checkpoint timer, \<^verbatim>\<open>Close\<close> and \<^verbatim>\<open>EvidenceStatus\<close>, with the freezing of events of
  \<^verbatim>\<open>canonical.go\<close>.

  Every operation holds the recorder's mutex, so each is one function on \<open>recorder\<close>. The clock, the writer and the signer
  are callbacks: \<open>audit_env\<close> and \<open>signer\<close> answer the call made at a given \<open>rc_tick\<close>. \<open>rc_out\<close> lists the bytes the buffered
  writer has taken, whether or not they have been flushed.
\<close>

subsection \<open>Frozen events\<close>

record CanonicalEvent =
  ce_header :: Header
  ce_kind :: string
  ce_payload :: string

text \<open>A Go value of type \<^verbatim>\<open>teleop.Event\<close>: nil, a canonical event or a pointer to one, or another implementation, whose
  three callbacks may panic.\<close>

datatype go_event =
    NilEvent
  | CanonicalValue CanonicalEvent
  | CanonicalPointer "CanonicalEvent option"
  | OtherEvent "Header outcome" "string outcome" "(go_error + string) outcome"

definition equalHeaders :: "Header \<Rightarrow> Header \<Rightarrow> bool" where
  "equalHeaders a b \<longleftrightarrow> hd_ID a = hd_ID b \<and> hd_DeviceID a = hd_DeviceID b \<and> hd_ObservedAt a = hd_ObservedAt b
     \<and> hd_ReceivedAt a = hd_ReceivedAt b \<and> hd_PublishedAt a = hd_PublishedAt b \<and> hd_Monotonic a = hd_Monotonic b
     \<and> hd_ReceivedMonotonic a = hd_ReceivedMonotonic b \<and> hd_DeviceTimestamp a = hd_DeviceTimestamp b
     \<and> hd_Causes a = hd_Causes b \<and> hd_Synthetic a = hd_Synthetic b"

definition freeze_payload :: "audit_library \<Rightarrow> Header \<Rightarrow> string \<Rightarrow> string \<Rightarrow> go_error + CanonicalEvent" where
  "freeze_payload L header kind payload =
     (if \<not> al_valid L payload then Inl [ErrInvalidState]
      else case al_envelope L payload of
        None \<Rightarrow> Inl [ErrText ''decode event header'']
      | Some None \<Rightarrow> Inl [ErrInvalidState]
      | Some (Some envelope) \<Rightarrow>
          if \<not> equalHeaders header envelope then Inl [ErrInvalidState]
          else Inr \<lparr>ce_header = header, ce_kind = kind, ce_payload = payload\<rparr>)"

definition FreezeEvent :: "audit_library \<Rightarrow> go_event \<Rightarrow> go_error + CanonicalEvent" where
  "FreezeEvent L event = (case event of
     NilEvent \<Rightarrow> Inl [ErrInvalidState]
   | CanonicalValue c \<Rightarrow> if ce_payload c = [] then Inl [ErrInvalidState] else Inr c
   | CanonicalPointer None \<Rightarrow> Inl [ErrInvalidState]
   | CanonicalPointer (Some c) \<Rightarrow> if ce_payload c = [] then Inl [ErrInvalidState] else Inr c
   | OtherEvent header kind encoding \<Rightarrow> (case (header, kind) of
       (Returned h, Returned k) \<Rightarrow>
         if k = [] then Inl [ErrInvalidState]
         else (case encoding of
             Panicked \<Rightarrow> Inl [ErrCallbackPanic]
           | Returned (Inl err) \<Rightarrow> Inl (ErrText ''marshal event'' # err)
           | Returned (Inr payload) \<Rightarrow> freeze_payload L h k payload)
     | _ \<Rightarrow> Inl [ErrCallbackPanic]))"

subsection \<open>Options\<close>

record Options =
  ao_HashChain :: bool
  ao_FlushEveryEvent :: bool
  ao_HMACKey :: "bytes option"
  ao_Signer :: "signer option"
  ao_Anchor :: bool
  ao_AnchorQueue :: int
  ao_RequireWitness :: bool
  ao_CheckpointInterval :: duration
  ao_CheckpointEvery :: u64
  ao_Provenance :: "Provenance option"

definition default_audit_options :: Options where
  "default_audit_options = \<lparr>ao_HashChain = True, ao_FlushEveryEvent = True, ao_HMACKey = None, ao_Signer = None, ao_Anchor = False,
     ao_AnchorQueue = 0, ao_RequireWitness = False, ao_CheckpointInterval = 10000000000, ao_CheckpointEvery = 10000,
     ao_Provenance = None\<rparr>"

definition WithHashChain :: "bool \<Rightarrow> Options \<Rightarrow> Options" where
  "WithHashChain enabled o1 = o1\<lparr>ao_HashChain := enabled\<rparr>"
definition WithFlushEveryEvent :: "bool \<Rightarrow> Options \<Rightarrow> Options" where
  "WithFlushEveryEvent enabled o1 = o1\<lparr>ao_FlushEveryEvent := enabled\<rparr>"
definition WithHMAC :: "bytes \<Rightarrow> Options \<Rightarrow> Options" where
  "WithHMAC key o1 = o1\<lparr>ao_HMACKey := Some key, ao_HashChain := True\<rparr>"
definition WithSigner :: "signer option \<Rightarrow> Options \<Rightarrow> Options" where
  "WithSigner s o1 = (if s \<noteq> None then o1\<lparr>ao_Signer := s, ao_HashChain := True\<rparr> else o1)"
definition WithAnchor :: "bool \<Rightarrow> Options \<Rightarrow> Options" where
  "WithAnchor present o1 = (if present then o1\<lparr>ao_Anchor := True, ao_HashChain := True\<rparr> else o1)"
definition WithRequiredWitness :: "bool \<Rightarrow> Options \<Rightarrow> Options" where
  "WithRequiredWitness required o1 = o1\<lparr>ao_RequireWitness := required\<rparr>"
definition WithCheckpoints :: "duration \<Rightarrow> u64 \<Rightarrow> Options \<Rightarrow> Options" where
  "WithCheckpoints interval every o1 = o1\<lparr>ao_CheckpointInterval := interval, ao_CheckpointEvery := every\<rparr>"
definition WithProvenance :: "Provenance \<Rightarrow> Options \<Rightarrow> Options" where
  "WithProvenance p o1 = o1\<lparr>ao_Provenance := Some p\<rparr>"

text \<open>\<^verbatim>\<open>freezeProvenance\<close> passes the provenance through its JSON once.\<close>

definition freezeProvenance :: "audit_library \<Rightarrow> Provenance \<Rightarrow> go_error + Provenance" where
  "freezeProvenance L p = (case al_MarshalProvenance L p of
     None \<Rightarrow> Inl [ErrText ''marshal audit provenance'']
   | Some encoded \<Rightarrow> (case al_provenance L encoded of
       None \<Rightarrow> Inl [ErrText ''normalize audit provenance'']
     | Some frozen \<Rightarrow> Inr frozen))"

subsection \<open>The recorder\<close>

datatype write_answer = Wrote | WriteFails nat go_error | WritePanics nat

text \<open>\<open>ae_sync\<close> is \<open>None\<close> when the writer has no \<^verbatim>\<open>Sync\<close> method.\<close>

record audit_env =
  ae_now :: "nat \<Rightarrow> timestamp outcome"
  ae_write :: "nat \<Rightarrow> write_answer"
  ae_flush :: "nat \<Rightarrow> (go_error option) outcome"
  ae_sync :: "(nat \<Rightarrow> (go_error option) outcome) option"

record recorder =
  rc_options :: Options
  rc_out :: string
  rc_previous :: string
  rc_count :: u64
  rc_started :: bool
  rc_closed :: bool
  rc_failure :: go_error
  rc_closeErr :: go_error
  rc_closeDone :: bool
  rc_key :: "signingKey option"
  rc_keyErr :: go_error
  rc_provenanceErr :: go_error
  rc_tree :: tree
  rc_anchors :: "anchorRunner option"
  rc_session :: session_id
  rc_lastCheckpoint :: timestamp
  rc_sinceCheckpoint :: u64
  rc_checkpointsRecorded :: u64
  rc_published :: "highwater option"
  rc_durableCount :: u64
  rc_lastAnchorAttempt :: "Checkpoint option"
  rc_witnessRetryCount :: nat
  rc_witnessRetryCoverage :: u64
  rc_timerStarted :: bool
  rc_timerStopping :: bool
  rc_tick :: nat

definition maxIdleWitnessRetries :: nat where "maxIdleWitnessRetries = 1"

definition NewRecorder :: "audit_library \<Rightarrow> (Options \<Rightarrow> Options) list \<Rightarrow> recorder" where
  "NewRecorder L opts =
     (let configured = fold (\<lambda>f o1. f o1) opts default_audit_options;
          frozen = (case ao_Provenance configured of None \<Rightarrow> Inr None | Some p \<Rightarrow>
            (case freezeProvenance L p of Inl err \<Rightarrow> Inl err | Inr q \<Rightarrow> Inr (Some q)));
          configured = configured\<lparr>ao_Provenance := (case frozen of Inl _ \<Rightarrow> None | Inr p \<Rightarrow> p)\<rparr>;
          configured = (if ao_Signer configured \<noteq> None \<or> ao_Anchor configured
            then configured\<lparr>ao_HashChain := True\<rparr> else configured);
          key = (case ao_Signer configured of None \<Rightarrow> Inr None | Some s \<Rightarrow>
            (case newSigningKey L s of Inl err \<Rightarrow> Inl err | Inr k \<Rightarrow> Inr (Some k)))
      in \<lparr>rc_options = configured, rc_out = [], rc_previous = [], rc_count = 0, rc_started = False, rc_closed = False,
          rc_failure = nil, rc_closeErr = nil, rc_closeDone = False,
          rc_key = (case key of Inl _ \<Rightarrow> None | Inr k \<Rightarrow> k),
          rc_keyErr = (case key of Inl err \<Rightarrow> err | Inr _ \<Rightarrow> nil),
          rc_provenanceErr = (case frozen of Inl err \<Rightarrow> err | Inr _ \<Rightarrow> nil),
          rc_tree = empty_tree,
          rc_anchors = (if ao_Anchor configured then Some (newAnchorRunner (ao_AnchorQueue configured)) else None),
          rc_session = 0, rc_lastCheckpoint = 0, rc_sinceCheckpoint = 0, rc_checkpointsRecorded = 0,
          rc_published = Some (HighWater_New MaxEventStreamsPerSession), rc_durableCount = 0, rc_lastAnchorAttempt = None,
          rc_witnessRetryCount = 0, rc_witnessRetryCoverage = 0, rc_timerStarted = False, rc_timerStopping = False,
          rc_tick = 0\<rparr>)"

definition recorder_PublicKey :: "recorder \<Rightarrow> bytes option" where
  "recorder_PublicKey r = map_option sk_public (rc_key r)"

definition chain :: "recorder \<Rightarrow> string" where
  "chain r = (if ao_HMACKey (rc_options r) \<noteq> None then chainHMAC
     else if ao_HashChain (rc_options r) then chainSHA256 else chainNone)"

definition hmac_key :: "recorder \<Rightarrow> bytes" where
  "hmac_key r = (case ao_HMACKey (rc_options r) of None \<Rightarrow> [] | Some k \<Rightarrow> k)"

definition syncCapable :: "audit_env \<Rightarrow> bool" where
  "syncCapable E \<longleftrightarrow> ae_sync E \<noteq> None"

definition durability :: "audit_env \<Rightarrow> recorder \<Rightarrow> string" where
  "durability E r = (if \<not> ao_FlushEveryEvent (rc_options r) then ''buffered''
     else if syncCapable E then ''fsync-every-record'' else ''flush-every-record'')"

definition clearKeyMaterialLocked :: "recorder \<Rightarrow> recorder" where
  "clearKeyMaterialLocked r = r\<lparr>rc_options := (rc_options r)\<lparr>ao_HMACKey := None, ao_Signer := None\<rparr>,
     rc_key := map_option (\<lambda>k. k\<lparr>sk_signer := None\<rparr>) (rc_key r)\<rparr>"

definition failLocked :: "go_error \<Rightarrow> recorder \<Rightarrow> recorder \<times> go_error" where
  "failLocked err r =
     (let r = clearKeyMaterialLocked (r\<lparr>rc_failure := (if rc_failure r = nil then err else rc_failure r)\<rparr>)
      in (r, ErrAuditFailed # rc_failure r))"

text \<open>\<open>unless_failed\<close>: an operation whose body failed makes the failure sticky.\<close>

definition sticky :: "recorder \<times> go_error \<Rightarrow> recorder \<times> go_error" where
  "sticky result = (case result of (r, err) \<Rightarrow> if err \<noteq> nil then failLocked err r else (r, nil))"

definition audit_now :: "audit_env \<Rightarrow> recorder \<Rightarrow> recorder \<times> (go_error + timestamp)" where
  "audit_now E r = (r\<lparr>rc_tick := rc_tick r + 1\<rparr>,
     case ae_now E (rc_tick r) of Panicked \<Rightarrow> Inl [ErrCallbackPanic] | Returned t \<Rightarrow> Inr t)"

subsection \<open>Writing a record\<close>

definition put :: "audit_env \<Rightarrow> string \<Rightarrow> recorder \<Rightarrow> recorder \<times> go_error" where
  "put E text r = (let tick = rc_tick r; r = r\<lparr>rc_tick := tick + 1\<rparr> in
     case ae_write E tick of
       Wrote \<Rightarrow> (r\<lparr>rc_out := rc_out r @ text\<rparr>, nil)
     | WriteFails n err \<Rightarrow> (r\<lparr>rc_out := rc_out r @ take n text\<rparr>, ErrText ''write audit record'' # err)
     | WritePanics n \<Rightarrow> (r\<lparr>rc_out := rc_out r @ take n text\<rparr>, [ErrCallbackPanic]))"

definition callback_error :: "string \<Rightarrow> (go_error option) outcome \<Rightarrow> go_error" where
  "callback_error what answer = (case answer of
     Panicked \<Rightarrow> [ErrCallbackPanic] | Returned None \<Rightarrow> nil | Returned (Some err) \<Rightarrow> ErrText what # err)"

definition flushAndSync :: "audit_env \<Rightarrow> recorder \<Rightarrow> recorder \<times> go_error" where
  "flushAndSync E r =
     (let err = callback_error ''flush audit log'' (ae_flush E (rc_tick r)); r = r\<lparr>rc_tick := rc_tick r + 1\<rparr> in
      if err \<noteq> nil then (r, err)
      else case ae_sync E of
        None \<Rightarrow> (r, nil)
      | Some sync \<Rightarrow> (r\<lparr>rc_tick := rc_tick r + 1\<rparr>, callback_error ''sync audit log'' (sync (rc_tick r))))"

definition treeHead :: "recorder \<Rightarrow> diskRecord \<Rightarrow> TreeHead" where
  "treeHead r d = record_head d (rc_session r) (case hex_DecodeString (dr_TreeRoot d) of None \<Rightarrow> [] | Some raw \<Rightarrow> raw)"

text \<open>The three derived parts of a record, in the order of the code: the tree head, the chain hash over it and the
  signature over both.\<close>

definition with_head :: "audit_library \<Rightarrow> recorder \<Rightarrow> diskRecord \<Rightarrow> go_error + diskRecord" where
  "with_head L r d =
     (if is_head d then
        (case tree_Root (al_sha256 L) (rc_tree r) of
           Panicked \<Rightarrow> Inl [ErrCallbackPanic]
         | Returned headRoot \<Rightarrow> Inr (d\<lparr>dr_TreeSize := tree_Size (rc_tree r), dr_TreeRoot := hex_EncodeToString headRoot\<rparr>))
      else Inr d)"

definition with_hash :: "audit_library \<Rightarrow> recorder \<Rightarrow> diskRecord \<Rightarrow> go_error + diskRecord" where
  "with_hash L r d =
     (if chain r \<noteq> chainNone then
        (let d = d\<lparr>dr_PreviousHash := rc_previous r\<rparr> in
         case recordHashV3 L d (chain r) (hmac_key r) of Inl err \<Rightarrow> Inl err | Inr h \<Rightarrow> Inr (d\<lparr>dr_Hash := h\<rparr>))
      else Inr d)"

definition with_signature :: "audit_library \<Rightarrow> recorder \<Rightarrow> diskRecord \<Rightarrow> go_error + diskRecord" where
  "with_signature L r d = (case (is_head d, rc_key r) of
     (True, Some k) \<Rightarrow>
       (case key_sign L k (rc_tick r) (signingBytes L (treeHead r d)) of
          Inl err \<Rightarrow> Inl err | Inr s \<Rightarrow> Inr (d\<lparr>dr_Signature := s\<rparr>))
   | _ \<Rightarrow> Inr d)"

definition and_next :: "go_error + 'a \<Rightarrow> ('a \<Rightarrow> go_error + 'b) \<Rightarrow> go_error + 'b" where
  "and_next x f = (case x of Inl err \<Rightarrow> Inl err | Inr y \<Rightarrow> f y)"

definition seal_record :: "audit_library \<Rightarrow> recorder \<Rightarrow> diskRecord \<Rightarrow> go_error + diskRecord" where
  "seal_record L r d = and_next (and_next (with_head L r (d\<lparr>dr_PreviousHash := [], dr_Hash := [], dr_Signature := []\<rparr>))
     (with_hash L r)) (with_signature L r)"

text \<open>After the bytes are out, the record becomes the tail of the chain and a leaf of the tree.\<close>

definition link_record :: "audit_library \<Rightarrow> diskRecord \<Rightarrow> recorder \<Rightarrow> recorder \<times> go_error" where
  "link_record L d r =
     (if chain r \<noteq> chainNone then
        (let r = r\<lparr>rc_previous := dr_Hash d\<rparr> in
         case hex_DecodeString (dr_Hash d) of
           None \<Rightarrow> (r, [ErrText ''decode audit record hash''])
         | Some raw \<Rightarrow> (case tree_Append (al_sha256 L) (rc_tree r) (HashLeaf (al_sha256 L) raw) of
             Panicked \<Rightarrow> (r, [ErrCallbackPanic])
           | Returned t \<Rightarrow> (r\<lparr>rc_tree := t\<rparr>, nil)))
      else (r, nil))"

definition write_sealed :: "audit_library \<Rightarrow> audit_env \<Rightarrow> diskRecord \<Rightarrow> recorder \<Rightarrow> recorder \<times> go_error" where
  "write_sealed L E d r = (case al_Marshal L d of
     None \<Rightarrow> (r, [ErrText ''marshal audit record''])
   | Some encoded \<Rightarrow>
       if int (length encoded) + 1 > MaxRecordSize then (r, [ErrRecordTooLarge])
       else and_then (and_then (and_then (put E encoded r) (put E [newline]))
              (\<lambda>r. if ao_FlushEveryEvent (rc_options r) then flushAndSync E r else (r, nil)))
            (link_record L d))"

text \<open>\<open>writeLocked\<close> fills in the record it is given; the second component is that record once it is on its way.\<close>

definition writeLocked ::
  "audit_library \<Rightarrow> audit_env \<Rightarrow> diskRecord \<Rightarrow> recorder \<Rightarrow> recorder \<times> (go_error + diskRecord)" where
  "writeLocked L E d r = (case seal_record L r d of
     Inl err \<Rightarrow> (r\<lparr>rc_tick := rc_tick r + 1\<rparr>, Inl err)
   | Inr d \<Rightarrow> (case write_sealed L E d (r\<lparr>rc_tick := rc_tick r + 1\<rparr>) of
       (r, err) \<Rightarrow> (r, if err \<noteq> nil then Inl err else Inr d)))"

definition publishAnchorLocked :: "diskRecord \<Rightarrow> recorder \<Rightarrow> recorder \<times> Checkpoint" where
  "publishAnchorLocked d r =
     (let c = \<lparr>cp_Version = dr_Version d, cp_RecordType = dr_RecordType d,
            cp_SignatureAlgorithm = (if rc_key r = None then [] else SignatureAlgorithmEd25519),
            cp_Session = rc_session r, cp_Size = dr_TreeSize d, cp_Root = dr_TreeRoot d, cp_ChainHead = dr_Hash d,
            cp_EventCount = dr_EventCount d, cp_RecordedAt = dr_RecordedAt d,
            cp_KeyID = (case rc_key r of None \<Rightarrow> [] | Some k \<Rightarrow> sk_id k),
            cp_PublicKey = (case rc_key r of None \<Rightarrow> [] | Some k \<Rightarrow> hex_EncodeToString (sk_public k)),
            cp_Signature = dr_Signature d\<rparr>
      in case rc_anchors r of
        None \<Rightarrow> (r, c)
      | Some a \<Rightarrow>
          let r = (if cp_RecordType c = ''checkpoint'' then
                (let r = (if cp_EventCount c \<noteq> rc_witnessRetryCoverage r
                   then r\<lparr>rc_witnessRetryCoverage := cp_EventCount c, rc_witnessRetryCount := 0\<rparr> else r)
                 in r\<lparr>rc_lastAnchorAttempt := Some c\<rparr>)
              else r)
          in (r\<lparr>rc_anchors := Some (anchor_publish c a)\<rparr>, c))"

subsection \<open>Manifest, events and checkpoints\<close>

definition manifest_record :: "audit_env \<Rightarrow> recorder \<Rightarrow> timestamp \<Rightarrow> diskRecord" where
  "manifest_record E r now = zero_record\<lparr>dr_Version := FormatVersion, dr_RecordType := ''manifest'', dr_RecordedAt := now,
     dr_Chain := chain r, dr_ControlSchema := ControlSchemaVersion, dr_Durability := durability E r,
     dr_Provenance := ao_Provenance (rc_options r),
     dr_Session := (if rc_session r = 0 then None else Some (rc_session r)),
     dr_KeyID := (case rc_key r of None \<Rightarrow> [] | Some k \<Rightarrow> sk_id k),
     dr_PublicKey := (case rc_key r of None \<Rightarrow> [] | Some k \<Rightarrow> hex_EncodeToString (sk_public k))\<rparr>"

definition startLocked :: "audit_library \<Rightarrow> audit_env \<Rightarrow> recorder \<Rightarrow> recorder \<times> go_error" where
  "startLocked L E r =
     (if rc_started r then (r, nil)
      else if rc_keyErr r \<noteq> nil then (r, rc_keyErr r)
      else if rc_provenanceErr r \<noteq> nil then (r, rc_provenanceErr r)
      else case audit_now E r of
        (r, Inl err) \<Rightarrow> (r, err)
      | (r, Inr now) \<Rightarrow> (case writeLocked L E (manifest_record E r now) (r\<lparr>rc_started := True, rc_lastCheckpoint := now\<rparr>) of
          (r, Inl err) \<Rightarrow> (r, err)
        | (r, Inr d) \<Rightarrow> (fst (publishAnchorLocked d r), nil)))"

definition validateEventSnapshot :: "audit_library \<Rightarrow> CanonicalEvent \<Rightarrow> go_error" where
  "validateEventSnapshot L e =
     (if ce_kind e = [] then [ErrInvalidEvent]
      else if length (ce_payload e) = 0 \<or> \<not> al_valid L (ce_payload e) then [ErrInvalidEvent]
      else if rejectDuplicateJSONFields L (ce_payload e) \<noteq> nil then [ErrInvalidEvent]
      else case al_envelope L (ce_payload e) of
        None \<Rightarrow> [ErrInvalidEvent]
      | Some None \<Rightarrow> [ErrInvalidEvent]
      | Some (Some h) \<Rightarrow> (case (al_MarshalHeader L (ce_header e), al_MarshalHeader L h) of
          (Some expected, Some actual) \<Rightarrow> if expected \<noteq> actual then [ErrInvalidEvent] else nil
        | _ \<Rightarrow> [ErrInvalidEvent]))"

definition validateEventOrderLocked :: "Header \<Rightarrow> recorder \<Rightarrow> go_error" where
  "validateEventOrderLocked header r =
     (let id = hd_ID header; want = Expected (rc_published r) (id_Stream id) in
      if id_Session id = 0 then [ErrSessionRequired]
      else if id_Stream id = [] \<or> id_Sequence id = 0 then [ErrInvalidEvent]
      else if want = 0 then [ErrInvalidEvent]
      else if id_Sequence id \<noteq> want then [ErrInvalidEvent]
      else if list_ex (\<lambda>cause. id_Session cause \<noteq> id_Session id
             \<or> \<not> Contains (rc_published r) (id_Stream cause) (id_Sequence cause)) (hd_Causes header)
      then [ErrInvalidEvent] else nil)"

definition rejectEvent :: "go_error \<Rightarrow> recorder \<Rightarrow> recorder \<times> go_error" where
  "rejectEvent err r =
     (if rc_closed r then (r, [ErrAuditClosed])
      else if rc_failure r \<noteq> nil then (r, ErrAuditFailed # rc_failure r)
      else failLocked err r)"

definition checkpointDueLocked :: "timestamp \<Rightarrow> recorder \<Rightarrow> bool" where
  "checkpointDueLocked now r =
     (if ao_CheckpointEvery (rc_options r) > 0 \<and> rc_sinceCheckpoint r \<ge> ao_CheckpointEvery (rc_options r) then True
      else if ao_CheckpointInterval (rc_options r) > 0 \<and> rc_lastCheckpoint r \<noteq> zero_time
      then time_sub now (rc_lastCheckpoint r) \<ge> ao_CheckpointInterval (rc_options r)
      else False)"

definition writeCheckpointLocked ::
  "audit_library \<Rightarrow> audit_env \<Rightarrow> string \<Rightarrow> recorder \<Rightarrow> recorder \<times> (go_error + Checkpoint)" where
  "writeCheckpointLocked L E reason r = (case audit_now E r of
     (r, Inl err) \<Rightarrow> (r, Inl err)
   | (r, Inr now) \<Rightarrow>
       (case writeLocked L E (zero_record\<lparr>dr_Version := FormatVersion, dr_RecordType := ''checkpoint'', dr_RecordedAt := now,
            dr_EventCount := rc_count r, dr_Reason := reason\<rparr>) r of
          (r, Inl err) \<Rightarrow> (r, Inl err)
        | (r, Inr d) \<Rightarrow>
            (case publishAnchorLocked d (r\<lparr>rc_checkpointsRecorded := rc_checkpointsRecorded r + 1, rc_sinceCheckpoint := 0,
                rc_lastCheckpoint := dr_RecordedAt d\<rparr>) of (r, c) \<Rightarrow> (r, Inr c))))"

definition checkpointLocked :: "audit_library \<Rightarrow> audit_env \<Rightarrow> string \<Rightarrow> recorder \<Rightarrow> recorder \<times> go_error" where
  "checkpointLocked L E reason r = (case writeCheckpointLocked L E reason r of
     (r, Inl err) \<Rightarrow> (r, err) | (r, Inr _) \<Rightarrow> (r, nil))"

definition startCheckpointTimer :: "recorder \<Rightarrow> recorder" where
  "startCheckpointTimer r =
     (if ao_CheckpointInterval (rc_options r) \<le> 0 \<or> rc_timerStarted r \<or> rc_timerStopping r then r
      else r\<lparr>rc_timerStarted := True\<rparr>)"

text \<open>A context is what its successive \<^verbatim>\<open>Err()\<close> calls return; \<open>None\<close> is the nil context.\<close>

type_synonym context_errors = "(nat \<Rightarrow> go_error) option"

definition event_record :: "CanonicalEvent \<Rightarrow> timestamp \<Rightarrow> diskRecord" where
  "event_record e now = zero_record\<lparr>dr_Version := FormatVersion, dr_RecordType := ''event'', dr_RecordedAt := now,
     dr_Kind := ce_kind e, dr_Payload := ce_payload e\<rparr>"

text \<open>The part of \<^verbatim>\<open>RecordCanonical\<close> that binds the session and writes the manifest.\<close>

definition bind_session :: "audit_library \<Rightarrow> audit_env \<Rightarrow> Header \<Rightarrow> recorder \<Rightarrow> recorder \<times> go_error" where
  "bind_session L E header r =
     (let session = id_Session (hd_ID header) in
      if session = 0 then (r, [ErrSessionRequired])
      else if \<not> rc_started r then startLocked L E (r\<lparr>rc_session := session\<rparr>)
      else if session \<noteq> rc_session r then (r, [ErrText ''event session changed''])
      else startLocked L E r)"

definition admit_event :: "audit_env \<Rightarrow> Header \<Rightarrow> recorder \<Rightarrow> recorder \<times> go_error" where
  "admit_event E header r =
     (case Advance (rc_published r) (id_Stream (hd_ID header)) (id_Sequence (hd_ID header)) of
        Panicked \<Rightarrow> (r, [GoPanic])
      | Returned (published, ok) \<Rightarrow>
          if \<not> ok then (r\<lparr>rc_published := published\<rparr>, [ErrInvalidEvent])
          else (r\<lparr>rc_published := published, rc_count := rc_count r + 1,
                  rc_durableCount := (if ao_FlushEveryEvent (rc_options r) \<and> syncCapable E then rc_count r + 1
                    else rc_durableCount r),
                  rc_sinceCheckpoint := rc_sinceCheckpoint r + 1\<rparr>, nil))"

definition append_event :: "audit_library \<Rightarrow> audit_env \<Rightarrow> CanonicalEvent \<Rightarrow> recorder \<Rightarrow> recorder \<times> go_error" where
  "append_event L E e r = (case audit_now E r of
     (r, Inl err) \<Rightarrow> (r, err)
   | (r, Inr now) \<Rightarrow> (case writeLocked L E (event_record e now) r of
       (r, Inl err) \<Rightarrow> (r, err)
     | (r, Inr _) \<Rightarrow> and_then (admit_event E (ce_header e) r)
         (\<lambda>r. if checkpointDueLocked now r then checkpointLocked L E ''interval'' r else (r, nil))))"

definition RecordCanonical ::
  "audit_library \<Rightarrow> audit_env \<Rightarrow> context_errors \<Rightarrow> CanonicalEvent \<Rightarrow> recorder \<Rightarrow> recorder \<times> go_error" where
  "RecordCanonical L E ctx e r = (case ctx of
     None \<Rightarrow> (r, [ErrInvalidState])
   | Some ctxErr \<Rightarrow>
       if ctxErr 0 \<noteq> nil then (r, ctxErr 0)
       else if validateEventSnapshot L e \<noteq> nil then rejectEvent (validateEventSnapshot L e) r
       else if rc_closed r then (r, [ErrAuditClosed])
       else if rc_failure r \<noteq> nil then (r, ErrAuditFailed # rc_failure r)
       else if ctxErr 1 \<noteq> nil then (r, ctxErr 1)
       else and_then (sticky (and_then (and_then (r, validateEventOrderLocked (ce_header e) r)
              (bind_session L E (ce_header e))) (append_event L E e)))
            (\<lambda>r. (startCheckpointTimer r, nil)))"

definition Record ::
  "audit_library \<Rightarrow> audit_env \<Rightarrow> context_errors \<Rightarrow> go_event \<Rightarrow> recorder \<Rightarrow> recorder \<times> go_error" where
  "Record L E ctx event r = (case ctx of
     None \<Rightarrow> (r, [ErrInvalidState])
   | Some ctxErr \<Rightarrow>
       if ctxErr 0 \<noteq> nil then (r, ctxErr 0)
       else case FreezeEvent L event of
         Inl err \<Rightarrow> rejectEvent (ErrInvalidEvent # err) r
       | Inr e \<Rightarrow> RecordCanonical L E (Some (\<lambda>n. ctxErr (n + 1))) e r)"

definition recorder_Checkpoint :: "audit_library \<Rightarrow> audit_env \<Rightarrow> string \<Rightarrow> recorder \<Rightarrow> recorder \<times> go_error" where
  "recorder_Checkpoint L E reason r =
     (if rc_closed r then (r, [ErrAuditClosed])
      else if rc_failure r \<noteq> nil then (r, ErrAuditFailed # rc_failure r)
      else if \<not> rc_started r then (r, [ErrSessionRequired])
      else sticky (and_then (startLocked L E r) (checkpointLocked L E reason)))"

text \<open>The local part of \<^verbatim>\<open>CheckpointAndWait\<close>, and the whole of it over what the waiter then observes.\<close>

definition barrier :: "audit_library \<Rightarrow> audit_env \<Rightarrow> go_error \<Rightarrow> string \<Rightarrow> recorder \<Rightarrow> recorder \<times> (go_error + Checkpoint)" where
  "barrier L E ctxErr reason r =
     (if rc_closed r then (r, Inl [ErrAuditClosed])
      else if rc_failure r \<noteq> nil then (r, Inl (ErrAuditFailed # rc_failure r))
      else if \<not> rc_started r then (r, Inl [ErrSessionRequired])
      else if ctxErr \<noteq> nil then (r, Inl ctxErr)
      else case startLocked L E r of (r, err) \<Rightarrow>
        if err \<noteq> nil then (case failLocked err r of (r, err) \<Rightarrow> (r, Inl err))
        else (case writeCheckpointLocked L E reason r of
            (r, Inl err) \<Rightarrow> (case failLocked err r of (r, err) \<Rightarrow> (r, Inl err))
          | (r, Inr c) \<Rightarrow> (r, Inr c)))"

definition CheckpointAndWait ::
  "audit_library \<Rightarrow> audit_env \<Rightarrow> context_errors \<Rightarrow> (AnchorStats \<times> bool) list \<Rightarrow> go_error \<Rightarrow> string \<Rightarrow> recorder
     \<Rightarrow> recorder \<times> (go_error + WitnessReceipt)" where
  "CheckpointAndWait L E ctx observed doneErr reason r = (case ctx of
     None \<Rightarrow> (r, Inl [ErrInvalidState])
   | Some ctxErr \<Rightarrow>
       if ctxErr 0 \<noteq> nil then (r, Inl (ctxErr 0))
       else (case barrier L E (ctxErr 1) reason r of
           (r', Inl err) \<Rightarrow> (r', Inl err)
         | (r', Inr target) \<Rightarrow> (case rc_anchors r of
             None \<Rightarrow> (r', Inl [ErrWitnessRequired])
           | Some a \<Rightarrow> (r', waitForCheckpointWitness target (anchor_stats a) observed doneErr))))"

subsection \<open>The timer\<close>

definition shouldRetryWitnessLocked :: "recorder \<Rightarrow> bool" where
  "shouldRetryWitnessLocked r = (case (rc_anchors r, rc_lastAnchorAttempt r) of
     (Some a, Some attempt) \<Rightarrow>
       (if rc_witnessRetryCount r \<ge> maxIdleWitnessRetries \<or> cp_EventCount attempt \<noteq> rc_count r then False
        else retryState attempt a = RetryEligible)
   | _ \<Rightarrow> False)"

definition timer_tick :: "audit_library \<Rightarrow> audit_env \<Rightarrow> recorder \<Rightarrow> recorder" where
  "timer_tick L E r =
     (if rc_closed r \<or> rc_failure r \<noteq> nil \<or> \<not> rc_started r then r
      else if rc_sinceCheckpoint r > 0 then fst (sticky (checkpointLocked L E ''interval'' r))
      else if shouldRetryWitnessLocked r
      then fst (sticky (checkpointLocked L E ''witness retry'' (r\<lparr>rc_witnessRetryCount := rc_witnessRetryCount r + 1\<rparr>)))
      else r)"

subsection \<open>Closing\<close>

definition requiredWitnessErrorLocked :: "diskRecord option \<Rightarrow> recorder \<Rightarrow> go_error" where
  "requiredWitnessErrorLocked footer r = (case rc_anchors r of
     None \<Rightarrow> [ErrWitnessRequired]
   | Some a \<Rightarrow>
       let stats = anchor_stats a in
       if as_Failed stats > 0 \<or> as_Dropped stats > 0 then ErrWitnessRequired # as_Err stats
       else (case (footer, as_LastReceipt stats) of
           (Some f, Some receipt) \<Rightarrow>
             let acknowledged = wr_Checkpoint receipt in
             if cp_RecordType acknowledged \<noteq> ''footer'' \<or> cp_Session acknowledged \<noteq> rc_session r
                \<or> cp_EventCount acknowledged \<noteq> rc_count r \<or> cp_ChainHead acknowledged \<noteq> dr_Hash f
             then [ErrWitnessRequired] else nil
         | _ \<Rightarrow> [ErrWitnessRequired]))"

text \<open>The footer: written, published and brought to the medium.\<close>

definition footer_record :: "recorder \<Rightarrow> timestamp \<Rightarrow> diskRecord" where
  "footer_record r now = zero_record\<lparr>dr_Version := FormatVersion, dr_RecordType := ''footer'', dr_RecordedAt := now,
     dr_EventCount := rc_count r\<rparr>"

definition finish_footer :: "audit_env \<Rightarrow> diskRecord \<Rightarrow> recorder \<Rightarrow> recorder" where
  "finish_footer E d r = (case flushAndSync E (fst (publishAnchorLocked d r)) of (r, err) \<Rightarrow>
     if err \<noteq> nil then fst (failLocked err r)
     else if syncCapable E then r\<lparr>rc_durableCount := rc_count r\<rparr> else r)"

definition write_footer :: "audit_library \<Rightarrow> audit_env \<Rightarrow> recorder \<Rightarrow> recorder \<times> diskRecord option" where
  "write_footer L E r =
     (if rc_failure r \<noteq> nil then (r, None)
      else case startLocked L E r of (r, err) \<Rightarrow>
        if err \<noteq> nil then (fst (failLocked err r), None)
        else (case audit_now E r of
            (r, Inl err) \<Rightarrow> (fst (failLocked err r), None)
          | (r, Inr now) \<Rightarrow> (case writeLocked L E (footer_record r now) r of
              (r, Inl err) \<Rightarrow> (fst (failLocked err r), None)
            | (r, Inr d) \<Rightarrow> (finish_footer E d r, Some d))))"

definition closeInternal :: "audit_library \<Rightarrow> audit_env \<Rightarrow> publication list \<Rightarrow> recorder \<Rightarrow> recorder" where
  "closeInternal L E ps r =
     (case write_footer L E (r\<lparr>rc_timerStopping := True, rc_closed := True\<rparr>) of (r, footer) \<Rightarrow>
        let r = r\<lparr>rc_anchors := map_option (anchor_stop ps) (rc_anchors r)\<rparr>;
            result = (if rc_failure r \<noteq> nil then ErrAuditFailed # rc_failure r else nil)
              @ (if ao_RequireWitness (rc_options r) then requiredWitnessErrorLocked footer r else nil)
        in (clearKeyMaterialLocked r)\<lparr>rc_closeErr := result, rc_closeDone := True\<rparr>)"

definition Close :: "audit_library \<Rightarrow> audit_env \<Rightarrow> publication list \<Rightarrow> recorder \<Rightarrow> recorder \<times> go_error" where
  "Close L E ps r = (let r = (if rc_closeDone r then r else closeInternal L E ps r) in (r, rc_closeErr r))"

subsection \<open>Status\<close>

record EvidenceStatus =
  es_AcceptedEvents :: u64
  es_LocallyDurableEvents :: u64
  es_WitnessedEvents :: u64
  es_WitnessedTreeSize :: u64
  es_Durability :: string
  es_WitnessConfigured :: bool
  es_WitnessRequired :: bool
  es_LastWitness :: "WitnessReceipt option"
  es_Closed :: bool
  es_Err :: go_error

definition recorder_AnchorStats :: "recorder \<Rightarrow> AnchorStats" where
  "recorder_AnchorStats r = (case rc_anchors r of
     None \<Rightarrow> \<lparr>as_Published = 0, as_Failed = 0, as_Dropped = 0, as_Err = nil, as_LastReceipt = None\<rparr>
   | Some a \<Rightarrow> anchor_stats a)"

definition evidence_status :: "audit_env \<Rightarrow> recorder \<Rightarrow> EvidenceStatus" where
  "evidence_status E r =
     (let stats = recorder_AnchorStats r in
      \<lparr>es_AcceptedEvents = rc_count r, es_LocallyDurableEvents = rc_durableCount r,
       es_WitnessedEvents = (case as_LastReceipt stats of None \<Rightarrow> 0 | Some w \<Rightarrow> cp_EventCount (wr_Checkpoint w)),
       es_WitnessedTreeSize = (case as_LastReceipt stats of None \<Rightarrow> 0 | Some w \<Rightarrow> cp_Size (wr_Checkpoint w) + 1),
       es_Durability = durability E r, es_WitnessConfigured = rc_anchors r \<noteq> None,
       es_WitnessRequired = ao_RequireWitness (rc_options r), es_LastWitness = as_LastReceipt stats,
       es_Closed = rc_closeDone r,
       es_Err = rc_keyErr r @ rc_provenanceErr r @ rc_failure r @ rc_closeErr r
         @ (if as_Failed stats > 0 \<or> as_Dropped stats > 0 then ErrWitnessRequired # as_Err stats else nil)\<rparr>)"

definition WaitForWitness :: "bool \<Rightarrow> u64 \<Rightarrow> (AnchorStats \<times> bool) list \<Rightarrow> go_error \<Rightarrow> recorder \<Rightarrow> go_error + WitnessReceipt" where
  "WaitForWitness nilContext eventCount observed doneErr r =
     (if nilContext then Inl [ErrText ''nil witness context'']
      else if rc_anchors r = None then Inl [ErrWitnessRequired]
      else anchor_wait eventCount observed doneErr)"

end
