(* ===== verification/AuditTrail.thy ===== *)
theory AuditTrail
  imports AuditRecorder
begin

text \<open>
  What the recorder of \<^verbatim>\<open>audit/recorder.go\<close> writes, its verifier accepts. A simulation runs the verifier beside the
  recorder: \<open>in_step\<close> relates their states, each kind of record keeps it, and so it holds along every run of
  \<open>Record\<close>, \<open>Checkpoint\<close>, timer and anchor steps until the recorder is closed.

  What the argument needs of \<^verbatim>\<open>encoding/json\<close> and the hashes is \<open>faithful_library\<close>: decoding undoes encoding on records all
  of whose strings are valid UTF-8 and whose payload is compact, has no duplicate field and leaves room in the nesting
  that the decoder accepts; an encoded record has exactly the fields that are not empty; digests are 32 bytes. That the
  recorder writes no other records is shown here: the strings it makes are ASCII, and \<open>validateEventSnapshot\<close> refuses
  payloads with duplicate fields.
\<close>

subsection \<open>The wire\<close>

definition wire_fields :: "diskRecord \<Rightarrow> string set" where
  "wire_fields d = {''version'', ''record_type'', ''recorded_at'', ''tree_size''}
     \<union> {name. (name, False) \<in> set (zero_fields d)} \<union> (if dr_Header d = None then {} else {''header''})"

text \<open>How deeply the arrays and objects of a text are nested; \<^verbatim>\<open>encoding/json\<close> decodes down to 10000 levels, of which
  the record itself is one.\<close>

fun deepest :: "nat \<Rightarrow> decoder \<Rightarrow> nat" where
  "deepest n [] = n"
| "deepest n (Some (Delim c) # ts) = max n (deepest (if c = CHR ''{'' \<or> c = CHR ''['' then Suc n else n - 1) ts)"
| "deepest n (_ # ts) = deepest n ts"

definition shallow :: "audit_library \<Rightarrow> string \<Rightarrow> bool" where
  "shallow L text \<longleftrightarrow> deepest 0 (al_tokens L text) < 10000"

definition record_texts :: "diskRecord \<Rightarrow> string list" where
  "record_texts d = [dr_RecordType d, dr_Kind d, dr_Payload d, dr_PreviousHash d, dr_Hash d, dr_Chain d, dr_ControlSchema d,
     dr_Durability d, dr_EncodingError d, dr_TreeRoot d, dr_Signature d, dr_KeyID d, dr_PublicKey d, dr_Reason d]"

definition embeddable :: "audit_library \<Rightarrow> string \<Rightarrow> bool" where
  "embeddable L payload \<longleftrightarrow> al_compact L payload = payload \<and> rejectDuplicateJSONFields L payload = nil \<and> shallow L payload"

definition shallow_provenance :: "audit_library \<Rightarrow> Provenance option \<Rightarrow> bool" where
  "shallow_provenance L q \<longleftrightarrow> (\<forall>p raw. q = Some p \<longrightarrow> al_MarshalProvenance L p = Some raw \<longrightarrow> shallow L raw)"

definition plain_record :: "audit_library \<Rightarrow> diskRecord \<Rightarrow> bool" where
  "plain_record L d \<longleftrightarrow> list_all (al_utf8 L) (record_texts d) \<and> (dr_Payload d = [] \<or> embeddable L (dr_Payload d))
     \<and> (\<forall>p. dr_Provenance d = Some p \<longrightarrow> (\<exists>enc. al_provenance L enc = Some p)) \<and> shallow_provenance L (dr_Provenance d)
     \<and> dr_Header d = None \<and> dr_provenanceRaw d = None"

definition decodes_to :: "audit_library \<Rightarrow> string \<Rightarrow> diskRecord \<Rightarrow> bool" where
  "decodes_to L line d \<longleftrightarrow> al_utf8 L line \<and> rejectDuplicateJSONFields L line = nil \<and> newline \<notin> set line
     \<and> (case (al_fields L line, al_record L line) of
          (Some present, Some r) \<Rightarrow>
            fset (fmdom present) = wire_fields d
            \<and> (case fmlookup present ''version'' of None \<Rightarrow> False | Some raw \<Rightarrow> al_int L raw = Some (dr_Version d))
            \<and> (case dr_Provenance d of
                 None \<Rightarrow> r = d
               | Some p \<Rightarrow> fmlookup present ''provenance'' = al_MarshalProvenance L p
                   \<and> (case al_MarshalProvenance L p of None \<Rightarrow> False | Some raw \<Rightarrow> al_provenance L raw \<noteq> None)
                   \<and> dr_Provenance r \<noteq> None \<and> r\<lparr>dr_Provenance := Some p\<rparr> = d)
        | _ \<Rightarrow> False)"

definition ascii :: "string \<Rightarrow> bool" where
  "ascii s \<longleftrightarrow> list_all (\<lambda>c. of_char c < (128::nat)) s"

definition faithful_library :: "audit_library \<Rightarrow> bool" where
  "faithful_library L \<longleftrightarrow> (\<forall>s. ascii s \<longrightarrow> al_utf8 L s)
     \<and> (\<forall>x. length (al_sha256 L x) = 32) \<and> (\<forall>k x. length (al_hmac L k x) = 32)
     \<and> (\<forall>d line. plain_record L d \<longrightarrow> al_Marshal L d = Some line \<longrightarrow> decodes_to L line d)"

lemma faithful_utf8: "faithful_library L \<Longrightarrow> ascii s \<Longrightarrow> al_utf8 L s"
  by (simp add: faithful_library_def)

lemma faithful_ascii:
  "faithful_library L \<Longrightarrow> al_utf8 L [] \<and> al_utf8 L ''interval'' \<and> al_utf8 L ''witness retry''"
  by (simp add: faithful_utf8 ascii_def)

lemma hex_value_ascii: "hex_value c = Some n \<Longrightarrow> of_char c < (128::nat)"
  by (auto simp: hex_value_def Let_def split: if_splits)

lemma hex_text_ascii: "hex_DecodeString s = Some bs \<Longrightarrow> ascii s"
  by (induction s arbitrary: bs rule: hex_DecodeString.induct)
    (auto simp: ascii_def dest: hex_value_ascii split: option.splits)

text \<open>A record as the verifier sees it again: the provenance is what its JSON decodes to, with the bytes kept for the hash.\<close>

definition reread :: "audit_library \<Rightarrow> diskRecord \<Rightarrow> diskRecord \<Rightarrow> bool" where
  "reread L d d' \<longleftrightarrow> d' = d\<lparr>dr_Provenance := dr_Provenance d', dr_provenanceRaw := dr_provenanceRaw d'\<rparr>
     \<and> provenance_bytes L d' = provenance_bytes L d"

definition well_shaped :: "diskRecord \<Rightarrow> bool" where
  "well_shaped d \<longleftrightarrow> dr_Version d = FormatVersion \<and> list_all (\<lambda>(name, isZero). isZero \<or> allowedForType (dr_RecordType d) name) (zero_fields d)
     \<and> dr_RecordType d \<in> {''manifest'', ''event'', ''checkpoint'', ''footer''}"

lemma always_allowed:
  "allowedForType t ''version'' \<and> allowedForType t ''record_type'' \<and> allowedForType t ''recorded_at''
   \<and> allowedForType t ''tree_size''"
  by (simp add: allowedForType_def)

lemma zero_fields_names:
  "set (map fst (zero_fields d)) \<subseteq> {''kind'', ''payload'', ''event_count'', ''previous_hash'', ''hash'', ''chain'', ''control_schema'',
     ''durability'', ''encoding_error'', ''session'', ''tree_root'', ''signature'', ''key_id'', ''public_key'', ''provenance'', ''reason''}"
  by (simp add: zero_fields_def)

lemma zero_fields_reread: "zero_fields (d\<lparr>dr_Provenance := p, dr_provenanceRaw := q\<rparr>)
    = map (\<lambda>(n, z). (n, if n = ''provenance'' then p = None else z)) (zero_fields d)"
  by (simp add: zero_fields_def)

lemma provenance_zero_field: "(''provenance'', z) \<in> set (zero_fields d) \<longleftrightarrow> z = (dr_Provenance d = None)"
  by (auto simp: zero_fields_def)

lemma zero_fields_distinct: "distinct (map fst (zero_fields d))"
  by (simp add: zero_fields_def)

lemma zero_fields_functional: "(n, True) \<in> set (zero_fields d) \<Longrightarrow> (n, False) \<notin> set (zero_fields d)"
  using eq_key_imp_eq_value [OF zero_fields_distinct] by blast

lemma always_present_names:
  "{''version'', ''record_type'', ''recorded_at'', ''tree_size''} \<inter> set (map fst (zero_fields d)) = {}"
  by (simp add: zero_fields_def)

lemma current_field_allowed: "name \<in> wire_fields d \<Longrightarrow> dr_Header d = None \<Longrightarrow> diskFieldAllowed FormatVersion name"
proof -
  assume a: "name \<in> wire_fields d" "dr_Header d = None"
  have "diskFieldAllowed FormatVersion n" if "n \<in> set (map fst (zero_fields d))" for n
    using subsetD [OF zero_fields_names that]
    by (elim insertE emptyE) (simp_all add: diskFieldAllowed_def FormatVersion_def)
  moreover have "name \<in> {''version'', ''record_type'', ''recorded_at'', ''tree_size''} \<or> name \<in> set (map fst (zero_fields d))"
    using a by (force simp: wire_fields_def)
  moreover have "diskFieldAllowed FormatVersion n"
    if "n \<in> {''version'', ''record_type'', ''recorded_at'', ''tree_size''}" for n
    using that by (elim insertE emptyE) (simp_all add: diskFieldAllowed_def FormatVersion_def)
  ultimately show ?thesis by blast
qed

lemma current_shape:
  assumes "fset (fmdom present) = wire_fields d" and "well_shaped d" and "dr_Header d = None"
    and "zero_fields r = zero_fields d" and "dr_RecordType r = dr_RecordType d"
  shows "validateCurrentRecordShape r present = nil"
proof -
  have field: "fmlookup present n \<noteq> None \<longleftrightarrow> n \<in> wire_fields d" for n
    unfolding assms(1) [symmetric] by (auto simp: fmlookup_dom_iff)
  have "rejectPresentZeroFields r present = nil"
  proof -
    have "n \<notin> wire_fields d" if "(n, True) \<in> set (zero_fields d)" for n
    proof -
      from that have "n \<in> set (map fst (zero_fields d))" by force
      then have "n \<notin> {''version'', ''record_type'', ''recorded_at'', ''tree_size''}"
        using always_present_names [of d] by blast
      then show ?thesis using zero_fields_functional [OF that] by (simp add: wire_fields_def assms(3))
    qed
    then have "\<not> list_ex (\<lambda>(name, isZero). fmlookup present name \<noteq> None \<and> isZero) (zero_fields r)"
      unfolding list_ex_iff assms(4) using field by auto
    then show ?thesis by (simp only: rejectPresentZeroFields_def if_False)
  qed
  moreover have "fBall (fmdom present) (allowedForType (dr_RecordType d))"
    using assms(2) always_allowed
    by (auto simp: assms(1,3) wire_fields_def well_shaped_def list_all_iff)
  ultimately show ?thesis
    using assms(5) field by (simp add: validateCurrentRecordShape_def wire_fields_def del: not_None_eq)
qed

lemma decode_marshalled:
  assumes "faithful_library L" and "plain_record L d" and "well_shaped d" and "al_Marshal L d = Some line"
  shows "newline \<notin> set line \<and> (\<exists>d'. decodeDiskRecord L line = Inr d' \<and> reread L d d')"
proof -
  from assms have dec: "decodes_to L line d" by (auto simp: faithful_library_def)
  then obtain present r raw where p: "al_fields L line = Some present" "al_record L line = Some r"
      "fset (fmdom present) = wire_fields d" "fmlookup present ''version'' = Some raw" "al_int L raw = Some (dr_Version d)"
    by (auto simp: decodes_to_def split: option.splits)
  have header: "dr_Header d = None" and raw: "dr_provenanceRaw d = None" using assms(2) by (auto simp: plain_record_def)
  have ver: "dr_Version d = FormatVersion" using assms(3) by (simp add: well_shaped_def)
  have allowed: "fBall (fmdom present) (diskFieldAllowed FormatVersion)"
    using current_field_allowed [OF _ header] p(3) by blast
  have r: "r = d \<or> (\<exists>q. dr_Provenance d \<noteq> None \<and> q \<noteq> None \<and> r = d\<lparr>dr_Provenance := q\<rparr>)"
  proof (cases "dr_Provenance d")
    case None
    then show ?thesis using dec p by (simp add: decodes_to_def)
  next
    case (Some q)
    then have "dr_Provenance r \<noteq> None" "r\<lparr>dr_Provenance := Some q\<rparr> = d" using dec p by (simp_all add: decodes_to_def)
    moreover from this(2) have "r = d\<lparr>dr_Provenance := dr_Provenance r\<rparr>" by auto
    ultimately show ?thesis using Some by blast
  qed
  then have "zero_fields r = zero_fields d" "dr_RecordType r = dr_RecordType d"
    by (auto simp: zero_fields_def)
  then have shape: "validateCurrentRecordShape r present = nil"
    using current_shape [OF p(3) assms(3) header] by simp
  show ?thesis
  proof (cases "dr_Provenance d")
    case None
    then have "''provenance'' \<notin> wire_fields d" by (simp add: wire_fields_def provenance_zero_field header)
    then have "fmlookup present ''provenance'' = None" using p(3) by (metis fmdom_notI fmdom_notD)
    moreover have "r = d" using dec p None by (simp add: decodes_to_def)
    ultimately have "decodeDiskRecord L line = Inr d"
      using dec p ver allowed shape by (simp add: decodeDiskRecord_def decodes_to_def FormatVersion_def)
    then show ?thesis using dec by (auto simp: decodes_to_def reread_def)
  next
    case (Some q)
    then obtain raw' where t: "fmlookup present ''provenance'' = Some raw'" "al_MarshalProvenance L q = Some raw'"
        "al_provenance L raw' \<noteq> None" "dr_Provenance r \<noteq> None" "r\<lparr>dr_Provenance := Some q\<rparr> = d"
      using dec p by (auto simp: decodes_to_def split: option.splits)
    then have "decodeDiskRecord L line = Inr (r\<lparr>dr_provenanceRaw := Some raw'\<rparr>)"
      using dec p ver allowed shape by (simp add: decodeDiskRecord_def decodes_to_def FormatVersion_def)
    moreover have "reread L d (r\<lparr>dr_provenanceRaw := Some raw'\<rparr>)"
      using t(2,5) raw Some by (auto simp: reread_def provenance_bytes_def)
    ultimately show ?thesis using dec by (auto simp: decodes_to_def)
  qed
qed

subsection \<open>Sealing\<close>

lemma hex_byte: "hex_digits 2 n = [hex_digit (n div 16 mod 16), hex_digit (n mod 16)]"
  by (simp add: numeral_2_eq_2)

lemma hex_roundtrip: "hex_DecodeString (hex_EncodeToString bs) = Some bs"
proof (induction bs)
  case (Cons b bs)
  have "unat b < 16 * 16" using unsigned_less [of b, where ?'a = nat] by simp
  then have "unat b div 16 < 16" by (simp add: less_mult_imp_div_less)
  then have d: "hex_value (hex_digit (unat b div 16 mod 16)) = Some (unat b div 16)"
      "hex_value (hex_digit (unat b mod 16)) = Some (unat b mod 16)"
    by (simp_all add: hex_value_digit)
  have b: "(of_nat (16 * (unat b div 16) + unat b mod 16) :: 8 word) = b"
    by (simp only: mult_div_mod_eq) simp
  from Cons show ?case
    unfolding hex_EncodeToString_def by (simp only: list.map concat.simps hex_byte append.simps
      hex_DecodeString.simps d b option.case prod.case)
qed (simp add: hex_EncodeToString_def)

lemma length_hex_encode [simp]: "length (hex_EncodeToString bs) = 2 * length bs"
  by (induction bs) (simp_all add: hex_EncodeToString_def)

lemma hex_encode_nonempty: "hex_EncodeToString bs = [] \<longleftrightarrow> bs = []"
  using length_hex_encode [of bs] by (metis length_0_conv mult_eq_0_iff zero_neq_numeral)

text \<open>What sealing does to a record: \<open>sealed\<close> lists the facts the verifier will check.\<close>

definition seal_of :: "diskRecord \<Rightarrow> diskRecord \<Rightarrow> bool" where
  "seal_of d d' \<longleftrightarrow> d' = d\<lparr>dr_TreeSize := dr_TreeSize d', dr_TreeRoot := dr_TreeRoot d', dr_PreviousHash := dr_PreviousHash d',
     dr_Hash := dr_Hash d', dr_Signature := dr_Signature d'\<rparr>"

definition head_sealed :: "audit_library \<Rightarrow> recorder \<Rightarrow> diskRecord \<Rightarrow> bool" where
  "head_sealed L r d \<longleftrightarrow> (\<exists>headRoot. dr_TreeSize d = tree_Size (rc_tree r)
     \<and> tree_Root (al_sha256 L) (rc_tree r) = Returned headRoot \<and> dr_TreeRoot d = hex_EncodeToString headRoot
     \<and> (case rc_key r of None \<Rightarrow> dr_Signature d = []
        | Some k \<Rightarrow> dr_Signature d \<noteq> [] \<and> VerifyTreeHead L (sk_public k) (record_head d (rc_session r) headRoot) (dr_Signature d) = nil))"

definition sealed :: "audit_library \<Rightarrow> recorder \<Rightarrow> diskRecord \<Rightarrow> bool" where
  "sealed L r d \<longleftrightarrow>
     (if chain r \<noteq> chainNone then dr_PreviousHash d = rc_previous r \<and> recordHashV3 L d (chain r) (hmac_key r) = Inr (dr_Hash d)
      else dr_PreviousHash d = [] \<and> dr_Hash d = [])
     \<and> (if is_head d then head_sealed L r d else dr_Signature d = [] \<and> dr_TreeRoot d = [])"

lemma recordHashV3_cong:
  assumes "v3_fields L d = v3_fields L d'" and "provenance_bytes L d = provenance_bytes L d'"
  shows "recordHashV3 L d c k = recordHashV3 L d' c k"
  using assms by (simp add: recordHashV3_def v3_input_def cong: option.case_cong sum.case_cong)

lemma v3_fields_unsealed:
  "v3_fields L (d\<lparr>dr_Hash := h, dr_Signature := s\<rparr>) = v3_fields L d"
  "v3_fields L (d\<lparr>dr_Hash := h\<rparr>) = v3_fields L d"
  "v3_fields L (d\<lparr>dr_Signature := s\<rparr>) = v3_fields L d"
  by (simp_all add: v3_fields_def v2_fields_def)

lemma provenance_unsealed:
  "provenance_bytes L (d\<lparr>dr_Hash := h\<rparr>) = provenance_bytes L d"
  "provenance_bytes L (d\<lparr>dr_Signature := s\<rparr>) = provenance_bytes L d"
  by (simp_all add: provenance_bytes_def cong: option.case_cong)

lemma key_sign_verifies:
  assumes "key_sign L k n (signingBytes L h) = Inr s"
    and "length (sk_public k) = ed25519_PublicKeySize"
  shows "VerifyTreeHead L (sk_public k) h s = nil \<and> s \<noteq> []"
  using assms by (auto simp: key_sign_def VerifyTreeHead_def hex_roundtrip hex_encode_nonempty ed25519_SignatureSize_def
      split: option.splits outcome.splits sum.splits if_splits)

lemma with_head_facts:
  assumes "with_head L r d = Inr d'"
  shows "if is_head d then \<exists>headRoot. tree_Root (al_sha256 L) (rc_tree r) = Returned headRoot
       \<and> d' = d\<lparr>dr_TreeSize := tree_Size (rc_tree r), dr_TreeRoot := hex_EncodeToString headRoot\<rparr> else d' = d"
  using assms by (auto simp: with_head_def split: if_splits outcome.splits)

lemma with_hash_facts:
  assumes "with_hash L r d = Inr d'"
  shows "if chain r \<noteq> chainNone then \<exists>h. d' = d\<lparr>dr_PreviousHash := rc_previous r, dr_Hash := h\<rparr>
       \<and> recordHashV3 L d' (chain r) (hmac_key r) = Inr h
     else d' = d"
proof (cases "chain r \<noteq> chainNone")
  case True
  then obtain h where h: "recordHashV3 L (d\<lparr>dr_PreviousHash := rc_previous r\<rparr>) (chain r) (hmac_key r) = Inr h"
      "d' = d\<lparr>dr_PreviousHash := rc_previous r, dr_Hash := h\<rparr>"
    using assms(1) by (auto simp: with_hash_def Let_def split: sum.splits)
  then have "recordHashV3 L d' (chain r) (hmac_key r) = Inr h"
    using recordHashV3_cong [of L d' "d\<lparr>dr_PreviousHash := rc_previous r\<rparr>"]
    by (simp add: v3_fields_def v2_fields_def provenance_bytes_def cong: option.case_cong)
  then show ?thesis using True h by simp
qed (use assms in \<open>simp add: with_hash_def\<close>)

lemma with_signature_facts:
  assumes "with_signature L r d = Inr d'"
    and "\<forall>k. rc_key r = Some k \<longrightarrow> length (sk_public k) = ed25519_PublicKeySize"
  shows "if is_head d then (case rc_key r of None \<Rightarrow> d' = d
       | Some k \<Rightarrow> \<exists>s. d' = d\<lparr>dr_Signature := s\<rparr> \<and> s \<noteq> [] \<and> VerifyTreeHead L (sk_public k) (treeHead r d) s = nil)
     else d' = d"
proof (cases "is_head d")
  case True
  show ?thesis
  proof (cases "rc_key r")
    case None
    with True assms(1) show ?thesis by (simp add: with_signature_def)
  next
    case (Some k)
    with True assms(1) obtain s where s: "key_sign L k (rc_tick r) (signingBytes L (treeHead r d)) = Inr s"
        "d' = d\<lparr>dr_Signature := s\<rparr>"
      by (auto simp: with_signature_def split: sum.splits)
    have "length (sk_public k) = ed25519_PublicKeySize" using assms(2) Some by blast
    from key_sign_verifies [OF s(1) this] s(2) True Some show ?thesis by auto
  qed
qed (use assms(1) in \<open>simp add: with_signature_def\<close>)

lemma seal_record_sealed:
  assumes "seal_record L r d = Inr d'" and "dr_TreeRoot d = []"
    and "\<forall>k. rc_key r = Some k \<longrightarrow> length (sk_public k) = ed25519_PublicKeySize"
  shows "seal_of d d' \<and> sealed L r d'"
proof -
  let ?d0 = "d\<lparr>dr_PreviousHash := [], dr_Hash := [], dr_Signature := []\<rparr>"
  obtain d1 d2 where s: "with_head L r ?d0 = Inr d1" "with_hash L r d1 = Inr d2" "with_signature L r d2 = Inr d'"
    using assms(1) by (auto simp: seal_record_def and_next_def split: sum.splits)
  note h = with_head_facts [OF s(1)]
  note c = with_hash_facts [OF s(2)]
  note g = with_signature_facts [OF s(3) assms(3)]
  have hash: "recordHashV3 L (d2\<lparr>dr_Signature := x\<rparr>) k m = recordHashV3 L d2 k m" for x k m
    by (rule recordHashV3_cong) (simp_all add: v3_fields_unsealed provenance_unsealed)
  have blank: "dr_PreviousHash d1 = [] \<and> dr_Hash d1 = []"
    using h by (cases "is_head ?d0") (clarsimp, simp)
  obtain p q where pq: "d2 = d1\<lparr>dr_PreviousHash := p, dr_Hash := q\<rparr>"
      and chained: "if chain r \<noteq> chainNone then p = rc_previous r \<and> recordHashV3 L d2 (chain r) (hmac_key r) = Inr q
        else p = [] \<and> q = []"
  proof (cases "chain r \<noteq> chainNone")
    case True
    then show ?thesis using c that by auto
  next
    case False
    then have "d2 = d1\<lparr>dr_PreviousHash := [], dr_Hash := []\<rparr>" using c blank by simp
    then show ?thesis using False that by simp
  qed
  show ?thesis
  proof (cases "is_head d")
    case False
    then have "d1 = ?d0" using h by (simp add: is_head_def)
    then have d2: "\<not> is_head d2" "seal_of d d2" "dr_PreviousHash d2 = p" "dr_Hash d2 = q" "dr_Signature d2 = []" "dr_TreeRoot d2 = []"
      using False pq assms(2) by (simp_all add: is_head_def seal_of_def)
    from this(1) have "d' = d2" using g by simp
    then show ?thesis using chained d2 by (simp add: sealed_def)
  next
    case True
    then obtain headRoot where root: "tree_Root (al_sha256 L) (rc_tree r) = Returned headRoot"
        "d1 = ?d0\<lparr>dr_TreeSize := tree_Size (rc_tree r), dr_TreeRoot := hex_EncodeToString headRoot\<rparr>"
      using h by (auto simp: is_head_def)
    then have d2: "is_head d2" "dr_TreeSize d2 = tree_Size (rc_tree r)" "dr_TreeRoot d2 = hex_EncodeToString headRoot"
        "dr_Signature d2 = []" "seal_of d d2" "dr_PreviousHash d2 = p" "dr_Hash d2 = q"
      using pq True by (simp_all add: is_head_def seal_of_def)
    have same: "treeHead r d2 = record_head (d2\<lparr>dr_Signature := x\<rparr>) (rc_session r) headRoot" for x
      using d2 by (simp add: treeHead_def record_head_def hex_roundtrip)
    show ?thesis
    proof (cases "rc_key r")
      case None
      then have "d' = d2" using g d2 by simp
      then show ?thesis using None d2 root(1) chained by (simp add: sealed_def head_sealed_def)
    next
      case (Some k)
      then obtain x where x: "d' = d2\<lparr>dr_Signature := x\<rparr>" "x \<noteq> []"
          "VerifyTreeHead L (sk_public k) (record_head (d2\<lparr>dr_Signature := x\<rparr>) (rc_session r) headRoot) x = nil"
        using g d2(1) same by auto
      have "is_head d'" "seal_of d d'" using d2 x(1) by (simp_all add: is_head_def seal_of_def)
      moreover have "head_sealed L r d'" using Some d2 root(1) x by (simp add: head_sealed_def)
      ultimately show ?thesis using chained d2 x(1) hash by (simp add: sealed_def)
    qed
  qed
qed

text \<open>Everything that sealing adds to a record is hexadecimal text.\<close>

lemma hex_encode_ascii: "ascii (hex_EncodeToString bs)"
  using hex_text_ascii [OF hex_roundtrip] .

lemma recordHashV3_ascii: "recordHashV3 L d c k = Inr h \<Longrightarrow> ascii h"
  by (auto simp: recordHashV3_def hex_encode_ascii split: sum.splits option.splits)

lemma sealed_ascii:
  assumes "sealed L r d" and "ascii (rc_previous r)"
  shows "ascii (dr_TreeRoot d) \<and> ascii (dr_PreviousHash d) \<and> ascii (dr_Hash d) \<and> ascii (dr_Signature d)"
proof -
  have empty: "ascii []" by (simp add: ascii_def)
  have "ascii (dr_PreviousHash d) \<and> ascii (dr_Hash d)"
    using assms empty by (auto simp: sealed_def dest: recordHashV3_ascii split: if_splits)
  moreover have "ascii s" if "VerifyTreeHead L k h s = nil" for k h s
    using that by (auto simp: VerifyTreeHead_def dest: hex_text_ascii split: option.splits if_splits)
  then have "ascii (dr_TreeRoot d) \<and> ascii (dr_Signature d)"
    using assms(1) empty
    by (auto simp: sealed_def head_sealed_def hex_encode_ascii split: if_splits option.splits)
  ultimately show ?thesis by blast
qed

subsection \<open>The verifier beside the recorder\<close>

text \<open>The options under which a recorder's log should verify: its HMAC key, its public key or none, and no retained
  checkpoints.\<close>

definition matching :: "audit_library \<Rightarrow> VerifyOptions \<Rightarrow> recorder \<Rightarrow> bool" where
  "matching L O1 r \<longleftrightarrow> vo_Witnesses O1 = [] \<and> \<not> vo_RequireWitness O1
     \<and> (vo_RequireAuthentication O1 \<longrightarrow> chain r = chainHMAC) \<and> (chain r = chainNone \<longleftrightarrow> vo_AllowUnverified O1)
     \<and> (chain r = chainHMAC \<longrightarrow> vo_HMACKey O1 = hmac_key r)
     \<and> (case rc_key r of
          None \<Rightarrow> vo_PublicKey O1 = [] \<and> \<not> vo_RequireSignature O1
        | Some k \<Rightarrow> (vo_PublicKey O1 = [] \<or> vo_PublicKey O1 = sk_public k) \<and> chain r \<noteq> chainNone
            \<and> length (sk_public k) = ed25519_PublicKeySize \<and> sk_id k = KeyID L (sk_public k))"

text \<open>What the verification of a line leaves alone unless the record's type says otherwise.\<close>

definition core :: "vstate \<Rightarrow> nat \<times> bool \<times> highwater option \<times> session_id option \<times> session_id option \<times> bytes option
    \<times> Record list \<times> u64 \<times> Record list \<times> (u64, Checkpoint) fmap \<times> int \<times> string \<times> u64" where
  "core v = (vs_line v, vs_footer v, vs_published v, vs_session v, vs_headSession v, vs_trusted v, vs_pending v, vs_pendingBytes v,
     vs_consumed v, vs_witnesses v, vf_Version (vs_out v), vf_Chain (vs_out v), vf_EventCount (vs_out v))"

definition chained_to :: "recorder \<Rightarrow> vstate \<Rightarrow> bool" where
  "chained_to r v \<longleftrightarrow> vs_previous v = rc_previous r \<and> vs_tree v = rc_tree r \<and> ascii (rc_previous r)"

definition in_step :: "recorder \<Rightarrow> vstate \<Rightarrow> bool" where
  "in_step r v \<longleftrightarrow> chained_to r v \<and> \<not> vs_footer v \<and> vs_trusted v = map_option sk_public (rc_key r)
     \<and> vs_headSession v = (if rc_session r = 0 then None else Some (rc_session r))
     \<and> vs_witnesses v = fmempty \<and> vf_Version (vs_out v) = FormatVersion \<and> vf_Chain (vs_out v) = chain r"

lemma and_then_nil [simp]: "and_then (v, nil) f = f v"
  by (simp add: and_then_def)

lemma and_then_ok: "snd x = nil \<Longrightarrow> and_then x f = f (fst x)"
  by (cases x) (simp add: and_then_def)

lemma fail_if_ok [simp]: "\<not> b \<Longrightarrow> fail_if b err v = (v, nil)"
  by (simp add: fail_if_def)

lemma reread_eq:
  assumes "reread L d d'"
  shows "dr_Version d' = dr_Version d \<and> dr_RecordType d' = dr_RecordType d \<and> dr_RecordedAt d' = dr_RecordedAt d
    \<and> dr_Kind d' = dr_Kind d \<and> dr_Header d' = dr_Header d \<and> dr_Payload d' = dr_Payload d \<and> dr_EventCount d' = dr_EventCount d
    \<and> dr_PreviousHash d' = dr_PreviousHash d \<and> dr_Hash d' = dr_Hash d \<and> dr_Chain d' = dr_Chain d
    \<and> dr_ControlSchema d' = dr_ControlSchema d \<and> dr_Durability d' = dr_Durability d \<and> dr_EncodingError d' = dr_EncodingError d
    \<and> dr_Session d' = dr_Session d \<and> dr_TreeSize d' = dr_TreeSize d \<and> dr_TreeRoot d' = dr_TreeRoot d
    \<and> dr_Signature d' = dr_Signature d \<and> dr_KeyID d' = dr_KeyID d \<and> dr_PublicKey d' = dr_PublicKey d
    \<and> dr_Reason d' = dr_Reason d \<and> provenance_bytes L d' = provenance_bytes L d"
proof -
  obtain p q where "d' = d\<lparr>dr_Provenance := p, dr_provenanceRaw := q\<rparr>" and "provenance_bytes L d' = provenance_bytes L d"
    using assms unfolding reread_def by blast
  then show ?thesis by simp
qed

lemma reread_hash: "reread L d d' \<Longrightarrow> recordHashV3 L d' c k = recordHashV3 L d c k"
  using reread_eq [of L d d'] by (intro recordHashV3_cong) (simp_all add: v3_fields_def v2_fields_def)

lemma hash_length:
  assumes "faithful_library L" and "recordHashV3 L d c k = Inr h"
  shows "h \<noteq> []"
proof -
  obtain digest x where "h = hex_EncodeToString (digest x)" and "digest = al_sha256 L \<or> digest = al_hmac L k"
    using assms(2) by (auto simp: recordHashV3_def newChainDigest_def split: sum.splits option.splits if_splits)
  moreover from this(2) assms(1) have "length (digest x) = 32" by (auto simp: faithful_library_def)
  ultimately show ?thesis by (metis hex_encode_nonempty list.size(3) zero_neq_numeral)
qed

definition sealed_view :: "audit_library \<Rightarrow> recorder \<Rightarrow> diskRecord \<Rightarrow> diskRecord \<Rightarrow> bool" where
  "sealed_view L r d d' \<longleftrightarrow> sealed L r d \<and> reread L d d' \<and> dr_Version d = FormatVersion"

lemma check_chain_sealed:
  assumes "faithful_library L" and "matching L O1 r" and "in_step r v" and "sealed_view L r d d'"
  shows "check_chain L O1 d' v = (if chain r \<noteq> chainNone then v\<lparr>vs_previous := dr_Hash d\<rparr> else v, nil)"
proof (cases "chain r = chainNone")
  case True
  then show ?thesis using assms reread_eq [of L d d']
    by (simp add: check_chain_def in_step_def sealed_view_def sealed_def fail_if_def)
next
  case False
  then have h: "recordHashV3 L d (chain r) (hmac_key r) = Inr (dr_Hash d)" "dr_PreviousHash d = rc_previous r"
    using assms(4) by (simp_all add: sealed_view_def sealed_def)
  have key: "recordHashV3 L d (chain r) (vo_HMACKey O1) = recordHashV3 L d (chain r) (hmac_key r)"
  proof (cases "chain r = chainHMAC")
    case True
    then show ?thesis using assms(2) by (simp add: matching_def)
  next
    case other: False
    then have "chain r = chainSHA256" using False by (auto simp: chain_def split: if_splits)
    then show ?thesis by (simp add: recordHashV3_def newChainDigest_def)
  qed
  have "expected_hash L O1 (chain r) d' = Inr (dr_Hash d)"
    using assms(4) h key reread_hash [of L d d'] reread_eq [of L d d']
    by (simp add: expected_hash_def sealed_view_def FormatVersion_def)
  moreover have "dr_Hash d \<noteq> []" using hash_length [OF assms(1) h(1)] .
  ultimately show ?thesis using assms False h reread_eq [of L d d']
    by (simp add: check_chain_def in_step_def chained_to_def sealed_view_def)
qed

lemma is_head_reread: "reread L d d' \<Longrightarrow> is_head d' = is_head d"
  using reread_eq [of L d d'] by (simp add: is_head_def)

lemma head_session_in_step: "in_step r v \<Longrightarrow> head_session v = rc_session r"
  by (simp add: in_step_def head_session_def)

text \<open>The coverage after a head of which the signature was checked.\<close>

definition covered :: "VerifyOptions \<Rightarrow> u64 \<Rightarrow> vstate \<Rightarrow> vstate" where
  "covered O1 n v = v\<lparr>vs_signedThrough := n, vs_trustedThrough := (if length (vo_PublicKey O1) > 0 then n else vs_trustedThrough v)\<rparr>"

definition signed_head :: "recorder \<Rightarrow> diskRecord \<Rightarrow> bool" where
  "signed_head r d \<longleftrightarrow> is_head d \<and> rc_key r \<noteq> None"

lemma check_head_sealed:
  assumes "matching L O1 r" and "sealed_view L r d d'"
    and "vs_trusted v = map_option sk_public (rc_key r)" and "vf_Chain (vs_out v) = chain r"
    and "vs_tree v = rc_tree r" and "head_session v = rc_session r"
  shows "check_head L O1 d' v = (if signed_head r d then covered O1 (tree_Size (rc_tree r) + 1) v else v, nil)"
proof -
  have re: "reread L d d'" and ver: "dr_Version d' = 3" and sealed: "sealed L r d"
    using assms(2) reread_eq [of L d d'] by (simp_all add: sealed_view_def FormatVersion_def)
  note same = reread_eq [OF re]
  show ?thesis
  proof (cases "is_head d \<and> chain r \<noteq> chainNone")
    case False
    then have "\<not> signed_head r d" using assms(1) by (auto simp: signed_head_def matching_def split: option.splits)
    moreover have "rc_key r = None \<Longrightarrow> is_head d \<Longrightarrow> dr_Signature d = []"
      using sealed by (auto simp: sealed_def head_sealed_def)
    ultimately show ?thesis
      using False assms(3,4) is_head_reread [OF re] same by (auto simp: check_head_def signed_head_def)
  next
    case True
    then obtain headRoot where h: "dr_TreeSize d = tree_Size (rc_tree r)"
        "tree_Root (al_sha256 L) (rc_tree r) = Returned headRoot" "dr_TreeRoot d = hex_EncodeToString headRoot"
        "case rc_key r of None \<Rightarrow> dr_Signature d = []
         | Some k \<Rightarrow> dr_Signature d \<noteq> [] \<and> VerifyTreeHead L (sk_public k) (record_head d (rc_session r) headRoot) (dr_Signature d) = nil"
      using sealed by (auto simp: sealed_def head_sealed_def)
    have head: "record_head d' s x = record_head d s x" for s x using same by (simp add: record_head_def)
    show ?thesis
    proof (cases "rc_key r")
      case None
      then show ?thesis using True h same assms(3-5) is_head_reread [OF re] ver
        by (simp add: check_head_def signed_head_def)
    next
      case (Some k)
      then show ?thesis using True h same assms(3-6) is_head_reread [OF re] ver
        by (simp add: check_head_def signed_head_def hex_roundtrip head covered_def)
    qed
  qed
qed

text \<open>The stages every record passes, when the recorder has written it and linked it into its chain.\<close>

definition linked :: "recorder \<Rightarrow> recorder \<Rightarrow> bool" where
  "linked r r' \<longleftrightarrow> rc_key r' = rc_key r \<and> rc_session r' = rc_session r \<and> rc_options r' = rc_options r
     \<and> rc_published r' = rc_published r \<and> rc_count r' = rc_count r
     \<and> (chain r \<noteq> chainNone \<longrightarrow> tree_Size (rc_tree r') = tree_Size (rc_tree r) + 1)"

lemma linked_chain: "linked r r' \<Longrightarrow> chain r' = chain r \<and> hmac_key r' = hmac_key r"
  by (simp add: linked_def chain_def hmac_key_def)

definition passed :: "VerifyOptions \<Rightarrow> recorder \<Rightarrow> recorder \<Rightarrow> diskRecord \<Rightarrow> vstate \<Rightarrow> vstate \<Rightarrow> bool" where
  "passed O1 r r' d v v' \<longleftrightarrow> core v' = core v \<and> chained_to r' v'
     \<and> vs_signedThrough v' = (if signed_head r d then tree_Size (rc_tree r) + 1 else vs_signedThrough v)
     \<and> (signed_head r d \<longrightarrow> length (vo_PublicKey O1) > 0 \<longrightarrow> vs_trustedThrough v' = tree_Size (rc_tree r) + 1)"

lemma core_simps [simp]:
  "core (v\<lparr>vs_previous := x\<rparr>) = core v" "core (v\<lparr>vs_tree := t\<rparr>) = core v"
  "core (updateCoverage O1 v) = core v" "core (covered O1 n v) = core v"
  "core (v\<lparr>vs_tree := t, vs_out := (vs_out v)\<lparr>vf_TreeSize := n\<rparr>\<rparr>) = core v"
  by (simp_all add: core_def updateCoverage_def covered_def)

lemma updateCoverage_fields [simp]:
  "vs_previous (updateCoverage O1 v) = vs_previous v" "vs_tree (updateCoverage O1 v) = vs_tree v"
  "vs_signedThrough (updateCoverage O1 v) = vs_signedThrough v" "vs_trustedThrough (updateCoverage O1 v) = vs_trustedThrough v"
  by (simp_all add: updateCoverage_def)

lemma covered_fields [simp]:
  "vs_trusted (covered O1 n v) = vs_trusted v" "vs_out (covered O1 n v) = vs_out v" "vs_tree (covered O1 n v) = vs_tree v"
  "vs_witnesses (covered O1 n v) = vs_witnesses v" "vs_previous (covered O1 n v) = vs_previous v"
  "vs_signedThrough (covered O1 n v) = n"
  "length (vo_PublicKey O1) > 0 \<Longrightarrow> vs_trustedThrough (covered O1 n v) = n"
  by (simp_all add: covered_def)

lemma stages_pass:
  assumes "faithful_library L" and "matching L O1 r" and "in_step r v" and "sealed_view L r d d'"
    and "link_record L d r1 = (r', nil)"
    and "rc_tree r1 = rc_tree r \<and> rc_options r1 = rc_options r \<and> rc_previous r1 = rc_previous r"
  obtains v' where "and_then (check_chain L O1 d' v) (\<lambda>v. and_then (check_head L O1 d' v) (\<lambda>v.
              let verified = head_verified d' v in
              and_then (and_then (check_witness d' v) (append_leaf L O1 d')) (f verified))) = f (signed_head r d) v'"
    and "passed O1 r r' d v v'"
proof -
  let ?v1 = "if chain r \<noteq> chainNone then v\<lparr>vs_previous := dr_Hash d\<rparr> else v"
  let ?v2 = "if signed_head r d then covered O1 (tree_Size (rc_tree r) + 1) ?v1 else ?v1"
  have re: "reread L d d'" and ver: "dr_Version d' = 3"
    using assms(4) reread_eq [of L d d'] by (simp_all add: sealed_view_def FormatVersion_def)
  note same = reread_eq [OF re]
  have chain: "chain r1 = chain r" using assms(6) by (simp add: chain_def)
  have v1: "vs_trusted ?v1 = map_option sk_public (rc_key r)" "vf_Chain (vs_out ?v1) = chain r" "vs_tree ?v1 = rc_tree r"
      "head_session ?v1 = rc_session r" "vs_witnesses ?v1 = fmempty"
    using assms(3) head_session_in_step [OF assms(3)] by (simp_all add: in_step_def chained_to_def head_session_def)
  have v2: "vs_trusted ?v2 = map_option sk_public (rc_key r)" "vf_Chain (vs_out ?v2) = chain r" "vs_tree ?v2 = rc_tree r"
      "vs_witnesses ?v2 = fmempty" "core ?v2 = core v" "vs_previous ?v2 = vs_previous ?v1"
    using v1 by simp_all
  have verified: "head_verified d' ?v2 = signed_head r d"
    using v2(1,2) ver is_head_reread [OF re] assms(2)
    by (auto simp: head_verified_def signed_head_def matching_def split: option.splits)
  have witness: "check_witness d' ?v2 = (?v2, nil)"
    unfolding check_witness_def v2(4) by simp
  have run: "and_then (check_chain L O1 d' v) (\<lambda>v. and_then (check_head L O1 d' v) (\<lambda>v.
              let verified = head_verified d' v in
              and_then (and_then (check_witness d' v) (append_leaf L O1 d')) (f verified)))
      = and_then (append_leaf L O1 d' ?v2) (f (signed_head r d))"
    unfolding check_chain_sealed [OF assms(1-4)] and_then_nil check_head_sealed [OF assms(2,4) v1(1-4)] Let_def
      verified witness ..
  show ?thesis
  proof (cases "chain r = chainNone")
    case True
    then have "append_leaf L O1 d' ?v2 = (?v2, nil)" using v2(2) by (simp add: append_leaf_def)
    moreover have "r' = r1" using assms(5) chain True by (simp add: link_record_def)
    then have "chained_to r' ?v2" using True assms(3,6) v2 by (auto simp: chained_to_def in_step_def)
    ultimately show ?thesis using run v2(5) by (intro that [of ?v2]) (simp_all add: passed_def)
  next
    case False
    then obtain raw t where raw: "hex_DecodeString (dr_Hash d) = Some raw"
        "tree_Append (al_sha256 L) (rc_tree r) (HashLeaf (al_sha256 L) raw) = Returned t"
        "r' = r1\<lparr>rc_previous := dr_Hash d, rc_tree := t\<rparr>"
      using assms(5,6) chain by (auto simp: link_record_def Let_def split: option.splits outcome.splits)
    let ?v3 = "updateCoverage O1 (?v2\<lparr>vs_tree := t, vs_out := (vs_out ?v2)\<lparr>vf_TreeSize := tree_Size t\<rparr>\<rparr>)"
    have "append_leaf L O1 d' ?v2 = (?v3, nil)"
      using raw(1,2) False v2(2,3) ver same by (simp add: append_leaf_def)
    moreover have "chained_to r' ?v3"
      using False raw(1,3) v2(6) by (simp add: chained_to_def hex_text_ascii)
    moreover have "core ?v3 = core v" using v2(5) by (simp only: core_simps)
    ultimately show ?thesis using run by (intro that [of ?v3]) (simp_all add: passed_def)
  qed
qed

subsection \<open>What a write does\<close>

definition unlines :: "string list \<Rightarrow> string" where
  "unlines lines = concat (map (\<lambda>l. l @ [newline]) lines)"

lemma unlines_append [simp]: "unlines (xs @ ys) = unlines xs @ unlines ys"
  by (simp add: unlines_def)

lemma flushAndSync_effect: "\<exists>t. fst (flushAndSync E r) = r\<lparr>rc_tick := t\<rparr>"
  by (auto simp: flushAndSync_def Let_def split: option.splits)

text \<open>A successful \<open>writeLocked\<close> seals, puts one line out and links it; nothing else of the recorder changes.\<close>

lemma writeLocked_effect:
  assumes "writeLocked L E d r = (r', Inr d')"
  obtains line t where "seal_record L r d = Inr d'" and "al_Marshal L d' = Some line"
    and "int (length line) + 1 \<le> MaxRecordSize"
    and "link_record L d' (r\<lparr>rc_out := rc_out r @ unlines [line], rc_tick := t\<rparr>) = (r', nil)"
proof -
  let ?r = "r\<lparr>rc_tick := rc_tick r + 1\<rparr>"
  obtain d1 where d1: "seal_record L r d = Inr d1" using assms by (auto simp: writeLocked_def split: sum.splits)
  with assms have w: "write_sealed L E d1 ?r = (r', nil)" and d': "d' = d1"
    by (auto simp: writeLocked_def split: prod.splits if_splits)
  then obtain line where line: "al_Marshal L d1 = Some line" "int (length line) + 1 \<le> MaxRecordSize"
    by (auto simp: write_sealed_def split: option.splits if_splits)
  let ?flush = "\<lambda>r. if ao_FlushEveryEvent (rc_options r) then flushAndSync E r else (r, nil)"
  have w': "and_then (and_then (and_then (put E line ?r) (put E [newline])) ?flush) (link_record L d1) = (r', nil)"
    using w line by (simp add: write_sealed_def)
  obtain r3 where r3: "and_then (and_then (put E line ?r) (put E [newline])) ?flush = (r3, nil)" "link_record L d1 r3 = (r', nil)"
    using and_then_nilD [OF w'] by blast
  obtain r2 where r2: "and_then (put E line ?r) (put E [newline]) = (r2, nil)" and fl: "?flush r2 = (r3, nil)"
    using and_then_nilD [OF r3(1)] by blast
  obtain r1 where r1: "put E line ?r = (r1, nil)" and nl: "put E [newline] r1 = (r2, nil)"
    using and_then_nilD [OF r2] by blast
  have "\<exists>t. r2 = r\<lparr>rc_out := rc_out r @ unlines [line], rc_tick := t\<rparr>"
    using r1 nl by (intro exI [of _ "rc_tick r2"]) (auto simp: put_def Let_def unlines_def split: write_answer.splits)
  then obtain t where "r2 = r\<lparr>rc_out := rc_out r @ unlines [line], rc_tick := t\<rparr>" ..
  moreover have "\<exists>t. r3 = r2\<lparr>rc_tick := t\<rparr>"
    using fl flushAndSync_effect [of E r2] by (cases "ao_FlushEveryEvent (rc_options r2)") (auto intro: exI [of _ "rc_tick r2"])
  ultimately obtain t where "r3 = r\<lparr>rc_out := rc_out r @ unlines [line], rc_tick := t\<rparr>" by auto
  then show ?thesis using that [of line t] d1 d' line r3(2) by simp
qed

lemma link_record_effect:
  assumes "link_record L d r = (r', nil)"
  shows "\<exists>p t. r' = r\<lparr>rc_previous := p, rc_tree := t\<rparr> \<and> (if chain r \<noteq> chainNone then
      tree_Size t = tree_Size (rc_tree r) + 1 \<and> (\<exists>leaf. tree_Append (al_sha256 L) (rc_tree r) leaf = Returned t) else t = rc_tree r)"
proof (cases "chain r = chainNone")
  case True
  then have "r' = r\<lparr>rc_previous := rc_previous r, rc_tree := rc_tree r\<rparr>" using assms by (simp add: link_record_def)
  then show ?thesis using True by metis
next
  case False
  then obtain raw t where "tree_Append (al_sha256 L) (rc_tree r) (HashLeaf (al_sha256 L) raw) = Returned t"
      and "r' = r\<lparr>rc_previous := dr_Hash d, rc_tree := t\<rparr>"
    using assms by (auto simp: link_record_def Let_def split: option.splits outcome.splits)
  moreover from this(1) have "tree_Size t = tree_Size (rc_tree r) + 1"
    by (auto simp: tree_Append_def Let_def tree_Size_def split: outcome.splits)
  ultimately show ?thesis using False by auto
qed

subsection \<open>A line more\<close>

text \<open>\<open>trail\<close>: the lines written so far verify, and leave the verifier in step with the recorder; \<open>es\<close> are the events accepted.\<close>

definition heard :: "Record \<Rightarrow> CanonicalEvent" where
  "heard re = \<lparr>ce_header = re_Header re, ce_kind = re_Kind re, ce_payload = re_Payload re\<rparr>"

definition same_order :: "recorder \<Rightarrow> vstate \<Rightarrow> bool" where
  "same_order r v \<longleftrightarrow> vs_published v = rc_published r \<and> vf_EventCount (vs_out v) = rc_count r
     \<and> (vs_session v = None \<or> vs_session v = Some (rc_session r))"

definition delivered :: "VerifyOptions \<Rightarrow> CanonicalEvent list \<Rightarrow> string \<Rightarrow> vstate \<Rightarrow> bool" where
  "delivered O1 es out v \<longleftrightarrow> map heard (vs_consumed v @ vs_pending v) = es
     \<and> (\<not> signatureRequired O1 \<longrightarrow> vs_pending v = []) \<and> unat (vs_pendingBytes v) \<le> length out"

definition trail ::
  "audit_library \<Rightarrow> VerifyOptions \<Rightarrow> recorder \<Rightarrow> CanonicalEvent list \<Rightarrow> string list \<Rightarrow> vstate \<Rightarrow> bool" where
  "trail L O1 r es lines v \<longleftrightarrow>
     verify_lines L O1 (Some collect) lines (start_verifying fmempty) = (v, nil)
     \<and> rc_out r = unlines lines \<and> (\<forall>l \<in> set lines. newline \<notin> set l) \<and> lines \<noteq> [] \<and> vs_line v = length lines
     \<and> in_step r v \<and> same_order r v \<and> delivered O1 es (rc_out r) v
     \<and> (chain r \<noteq> chainNone \<longrightarrow> tree_Size (rc_tree r) = of_nat (length lines))"

lemma verify_lines_append:
  "verify_lines L O1 c (xs @ ys) v = and_then (verify_lines L O1 c xs v) (verify_lines L O1 c ys)"
proof (induction xs arbitrary: v)
  case (Cons x xs)
  then show ?case by (auto simp: and_then_def split: prod.splits)
qed simp

lemma verify_lines_snoc:
  assumes "verify_lines L O1 c lines v0 = (v, nil)" and "int (length line) + 1 \<le> MaxRecordSize"
    and "decodeDiskRecord L line = Inr d"
  shows "verify_lines L O1 c (lines @ [line]) v0 = verify_record L O1 c (length line) d (v\<lparr>vs_line := vs_line v + 1\<rparr>)"
  using assms by (auto simp: verify_lines_append verify_line_def and_then_def split: prod.splits)

lemma in_step_line [simp]: "in_step r (v\<lparr>vs_line := n\<rparr>) = in_step r v"
  by (simp add: in_step_def chained_to_def)

text \<open>Every record but the first: up to its type.\<close>

lemma later_record:
  assumes "faithful_library L" and "matching L O1 r" and "in_step r v" and "sealed_view L r d d'"
    and "link_record L d r1 = (r', nil)"
    and "rc_tree r1 = rc_tree r \<and> rc_options r1 = rc_options r \<and> rc_previous r1 = rc_previous r"
    and "vs_line v \<noteq> 1"
  obtains v' where "verify_record L O1 c n d' v = by_type L O1 c n d' (signed_head r d) v'"
    and "passed O1 r r' d v v'"
proof -
  obtain v' where v': "and_then (check_chain L O1 d' v) (\<lambda>v. and_then (check_head L O1 d' v) (\<lambda>v.
              let verified = head_verified d' v in
              and_then (and_then (check_witness d' v) (append_leaf L O1 d')) (by_type L O1 c n d' verified)))
      = by_type L O1 c n d' (signed_head r d) v'" "passed O1 r r' d v v'"
    by (rule stages_pass [OF assms(1-6)])
  have "dr_Version d' = 3" using assms(4) reread_eq [of L d d'] by (simp add: sealed_view_def FormatVersion_def)
  moreover have "vf_Version (vs_out v) = 3" "\<not> vs_footer v" using assms(3) by (simp_all add: in_step_def FormatVersion_def)
  ultimately have "verify_record L O1 c n d' v = by_type L O1 c n d' (signed_head r d) v'"
    using assms(7) v'(1) by (simp add: verify_record_def FormatVersion_def)
  then show ?thesis using v'(2) that by blast
qed

lemma deliver_collect: "deliver (Some collect) rs v = (v\<lparr>vs_consumed := vs_consumed v @ rs\<rparr>, nil)"
  by (induction rs arbitrary: v) (simp_all add: collect_def Let_def)

lemma release_collect:
  "release_if_verified O1 (Some collect) s v =
     (if signatureRequired O1 \<and> s
      then v\<lparr>vs_consumed := vs_consumed v @ vs_pending v, vs_pending := [], vs_pendingBytes := 0\<rparr> else v, nil)"
  by (simp add: release_if_verified_def releasePending_def deliver_collect)

text \<open>What any further record adds to a trail, before its type is looked at.\<close>

lemma unlines_snoc_length: "length (unlines (lines @ [line])) = length (unlines lines) + length line + 1"
  by (simp add: unlines_def)

lemma unlines_length: "length lines \<le> length (unlines lines)"
  by (induction lines) (auto simp: unlines_def)

lemma in_step_passed:
  assumes "in_step r v" and "core v' = core v" and "chained_to r' v'" and "linked r r'"
  shows "in_step r' v'"
  using assms linked_chain [OF assms(4)] by (simp add: in_step_def core_def linked_def)

definition rewritten :: "recorder \<Rightarrow> string \<Rightarrow> recorder \<Rightarrow> bool" where
  "rewritten r out r' \<longleftrightarrow> (\<exists>p t k. r' = r\<lparr>rc_out := out, rc_tick := k, rc_previous := p, rc_tree := t\<rparr>)"

lemma further_line:
  assumes lib: "faithful_library L" and ok: "matching L O1 r" and tr: "trail L O1 r es lines v"
    and w: "writeLocked L E d r = (r', Inr d')"
    and d: "dr_TreeRoot d = []" "plain_record L d'" "well_shaped d'"
  obtains line view v' where "rewritten r (rc_out r @ unlines [line]) r'" and "newline \<notin> set line"
    and "verify_lines L O1 (Some collect) (lines @ [line]) (start_verifying fmempty)
      = by_type L O1 (Some collect) (length line) view (signed_head r d') v'"
    and "passed O1 r r' d' (v\<lparr>vs_line := vs_line v + 1\<rparr>) v'" and "linked r r'" and "in_step r' v'" and "reread L d' view"
    and "seal_of d d'"
proof -
  have key: "\<forall>k. rc_key r = Some k \<longrightarrow> length (sk_public k) = ed25519_PublicKeySize"
    using ok by (auto simp: matching_def)
  obtain line t where line: "seal_record L r d = Inr d'" "al_Marshal L d' = Some line" "int (length line) + 1 \<le> MaxRecordSize"
      "link_record L d' (r\<lparr>rc_out := rc_out r @ unlines [line], rc_tick := t\<rparr>) = (r', nil)"
    by (rule writeLocked_effect [OF w])
  let ?r1 = "r\<lparr>rc_out := rc_out r @ unlines [line], rc_tick := t\<rparr>"
  from seal_record_sealed [OF line(1) d(1) key] have seal: "seal_of d d'" "sealed L r d'" by auto
  obtain view where view: "newline \<notin> set line" "decodeDiskRecord L line = Inr view" "reread L d' view"
    using decode_marshalled [OF lib d(2,3) line(2)] by blast
  have sv: "sealed_view L r d' view" using seal(2) view(3) d(3) by (simp add: sealed_view_def well_shaped_def)
  obtain p u where link: "r' = ?r1\<lparr>rc_previous := p, rc_tree := u\<rparr>" "if chain ?r1 \<noteq> chainNone then
      tree_Size u = tree_Size (rc_tree ?r1) + 1 \<and> (\<exists>leaf. tree_Append (al_sha256 L) (rc_tree ?r1) leaf = Returned u) else u = rc_tree ?r1"
    using link_record_effect [OF line(4)] by blast
  have chain1: "chain ?r1 = chain r" by (simp add: chain_def)
  have linked: "linked r r'" using link unfolding chain1 by (auto simp: linked_def split: if_splits)
  let ?v = "v\<lparr>vs_line := vs_line v + 1\<rparr>"
  have step: "in_step r ?v" using tr by (simp add: trail_def)
  have tail: "vs_line ?v \<noteq> 1" using tr by (simp add: trail_def)
  obtain v' where v': "verify_record L O1 (Some collect) (length line) view ?v
        = by_type L O1 (Some collect) (length line) view (signed_head r d') v'" "passed O1 r r' d' ?v v'"
    by (rule later_record [OF lib ok step sv line(4) _ tail, where c = "Some collect" and n = "length line"]) auto
  have "rewritten r (rc_out r @ unlines [line]) r'" using link(1) by (auto simp: rewritten_def)
  moreover have "verify_lines L O1 (Some collect) (lines @ [line]) (start_verifying fmempty)
      = by_type L O1 (Some collect) (length line) view (signed_head r d') v'"
    using tr v'(1) by (subst verify_lines_snoc [OF _ line(3) view(2)]) (auto simp: trail_def)
  moreover have "in_step r' v'"
    using v'(2) in_step_passed [OF step _ _ linked] by (simp add: passed_def)
  ultimately show ?thesis using that view v'(2) linked seal(1) by blast
qed

subsection \<open>Checkpoints\<close>

lemma seal_of_cases:
  assumes "seal_of d d'"
  obtains n root prev h s where "d' = d\<lparr>dr_TreeSize := n, dr_TreeRoot := root, dr_PreviousHash := prev, dr_Hash := h, dr_Signature := s\<rparr>"
  using assms by (auto simp: seal_of_def)

lemmas record_fields = zero_record_def well_shaped_def zero_fields_def allowedForType_def plain_record_def FormatVersion_def

definition checkpoint_record :: "recorder \<Rightarrow> timestamp \<Rightarrow> string \<Rightarrow> diskRecord" where
  "checkpoint_record r now reason = zero_record\<lparr>dr_Version := FormatVersion, dr_RecordType := ''checkpoint'', dr_RecordedAt := now,
     dr_EventCount := rc_count r, dr_Reason := reason\<rparr>"

text \<open>A record sealed by a recorder whose chain is hexadecimal: what the caller put into it decides whether it is plain.\<close>

definition sealed_by :: "audit_library \<Rightarrow> recorder \<Rightarrow> diskRecord \<Rightarrow> diskRecord \<Rightarrow> bool" where
  "sealed_by L r d d' \<longleftrightarrow> seal_of d d' \<and> sealed L r d' \<and> ascii (rc_previous r)"

lemma sealed_by_cases:
  assumes "sealed_by L r d d'" and "faithful_library L"
  obtains n root prev h s where "d' = d\<lparr>dr_TreeSize := n, dr_TreeRoot := root, dr_PreviousHash := prev, dr_Hash := h, dr_Signature := s\<rparr>"
    and "al_utf8 L root" "al_utf8 L prev" "al_utf8 L h" "al_utf8 L s"
proof -
  have a: "al_utf8 L (dr_TreeRoot d')" "al_utf8 L (dr_PreviousHash d')" "al_utf8 L (dr_Hash d')" "al_utf8 L (dr_Signature d')"
    using sealed_ascii [of L r d'] assms by (simp_all add: sealed_by_def faithful_utf8)
  obtain n root prev h s where
    d: "d' = d\<lparr>dr_TreeSize := n, dr_TreeRoot := root, dr_PreviousHash := prev, dr_Hash := h, dr_Signature := s\<rparr>"
    using assms(1) unfolding sealed_by_def by (elim conjE seal_of_cases)
  show ?thesis using that [OF d] a unfolding d by simp
qed

lemmas text_fields = record_texts_def shallow_provenance_def

lemma checkpoint_shape:
  assumes "sealed_by L r (checkpoint_record r now reason) d" and "faithful_library L" and "al_utf8 L reason"
  shows "well_shaped d \<and> plain_record L d \<and> dr_RecordType d = ''checkpoint'' \<and> dr_EventCount d = rc_count r \<and> dr_Version d = 3"
proof -
  have u: "al_utf8 L ''checkpoint''" "al_utf8 L []" using assms(2) by (simp_all add: faithful_utf8 ascii_def)
  show ?thesis
    by (rule sealed_by_cases [OF assms(1,2)]) (use assms(3) u in \<open>simp add: record_fields text_fields checkpoint_record_def\<close>)
qed

lemma footer_shape:
  assumes "sealed_by L r (footer_record r now) d" and "faithful_library L"
  shows "well_shaped d \<and> plain_record L d \<and> dr_RecordType d = ''footer'' \<and> dr_EventCount d = rc_count r \<and> dr_Version d = 3"
proof -
  have u: "al_utf8 L ''footer''" "al_utf8 L []" using assms(2) by (simp_all add: faithful_utf8 ascii_def)
  show ?thesis
    by (rule sealed_by_cases [OF assms(1,2)]) (use u in \<open>simp add: record_fields text_fields footer_record_def\<close>)
qed

lemma event_shape:
  assumes "sealed_by L r (event_record e now) d" and "faithful_library L"
    and "al_utf8 L (ce_kind e)" and "al_utf8 L (ce_payload e)" and "embeddable L (ce_payload e)"
    and "dr_TreeRoot d = []" and "dr_Signature d = []"
  shows "well_shaped d \<and> plain_record L d \<and> dr_RecordType d = ''event'' \<and> dr_Kind d = ce_kind e \<and> dr_Payload d = ce_payload e
     \<and> dr_Version d = 3"
proof -
  have u: "al_utf8 L ''event''" "al_utf8 L []" using assms(2) by (simp_all add: faithful_utf8 ascii_def)
  show ?thesis
    by (rule sealed_by_cases [OF assms(1,2)]) (use assms(3-) u in \<open>simp add: record_fields text_fields event_record_def\<close>)
qed

lemma sealed_seal_of:
  assumes "matching L O1 r" and "writeLocked L E d r = (r', Inr d')" and "dr_TreeRoot d = []"
  shows "seal_of d d' \<and> sealed L r d'"
proof -
  have "\<forall>k. rc_key r = Some k \<longrightarrow> length (sk_public k) = ed25519_PublicKeySize"
    using assms(1) by (auto simp: matching_def)
  moreover obtain line t where "seal_record L r d = Inr d'" by (rule writeLocked_effect [OF assms(2)])
  ultimately show ?thesis using seal_record_sealed assms(3) by blast
qed

lemma required_has_key: "matching L O1 r \<Longrightarrow> signatureRequired O1 \<Longrightarrow> rc_key r \<noteq> None"
  by (auto simp: matching_def signatureRequired_def split: option.splits)

lemma matching_cong:
  assumes "rc_options r' = rc_options r" and "rc_key r' = rc_key r"
  shows "matching L O1 r' = matching L O1 r" and "chain r' = chain r" and "hmac_key r' = hmac_key r"
proof -
  show c: "chain r' = chain r" "hmac_key r' = hmac_key r" using assms(1) by (simp_all add: chain_def hmac_key_def)
  show "matching L O1 r' = matching L O1 r" unfolding matching_def c assms(2) ..
qed

lemma rewritten_fields:
  assumes "rewritten r out r'"
  shows "rc_out r' = out \<and> rc_count r' = rc_count r \<and> rc_published r' = rc_published r \<and> rc_session r' = rc_session r
     \<and> rc_options r' = rc_options r \<and> rc_key r' = rc_key r \<and> rc_failure r' = rc_failure r \<and> rc_closed r' = rc_closed r
     \<and> rc_started r' = rc_started r \<and> chain r' = chain r \<and> matching L O1 r' = matching L O1 r"
proof -
  have o: "rc_options r' = rc_options r" "rc_key r' = rc_key r" using assms by (auto simp: rewritten_def)
  note same = matching_cong [OF o]
  show ?thesis unfolding same using assms by (auto simp: rewritten_def)
qed

lemma core_iff:
  "core v' = core v \<longleftrightarrow> vs_line v' = vs_line v \<and> vs_footer v' = vs_footer v \<and> vs_published v' = vs_published v
     \<and> vs_session v' = vs_session v \<and> vs_headSession v' = vs_headSession v \<and> vs_trusted v' = vs_trusted v
     \<and> vs_pending v' = vs_pending v \<and> vs_pendingBytes v' = vs_pendingBytes v \<and> vs_consumed v' = vs_consumed v
     \<and> vs_witnesses v' = vs_witnesses v \<and> vf_Version (vs_out v') = vf_Version (vs_out v)
     \<and> vf_Chain (vs_out v') = vf_Chain (vs_out v) \<and> vf_EventCount (vs_out v') = vf_EventCount (vs_out v)"
  by (simp add: core_def)

lemma trail_sealed_by:
  assumes "matching L O1 r" and "trail L O1 r es lines v" and "writeLocked L E d r = (r', Inr d')" and "dr_TreeRoot d = []"
  shows "sealed_by L r d d'"
  using sealed_seal_of [OF assms(1,3,4)] assms(2) by (simp add: sealed_by_def trail_def in_step_def chained_to_def)

lemma checkpoint_trail:
  assumes lib: "faithful_library L" and ok: "matching L O1 r" and tr: "trail L O1 r es lines v"
    and w: "writeLocked L E (checkpoint_record r now reason) r = (r', Inr d')" and "al_utf8 L reason"
  shows "\<exists>line v'. trail L O1 r' es (lines @ [line]) v' \<and> rewritten r (rc_out r @ unlines [line]) r'"
proof -
  have seal: "sealed_by L r (checkpoint_record r now reason) d'"
    by (rule trail_sealed_by [OF ok tr w]) (simp add: checkpoint_record_def zero_record_def)
  note sh = checkpoint_shape [OF seal lib \<open>al_utf8 L reason\<close>]
  obtain line view v' where f: "rewritten r (rc_out r @ unlines [line]) r'" "newline \<notin> set line"
      "verify_lines L O1 (Some collect) (lines @ [line]) (start_verifying fmempty)
        = by_type L O1 (Some collect) (length line) view (signed_head r d') v'"
      "passed O1 r r' d' (v\<lparr>vs_line := vs_line v + 1\<rparr>) v'" "linked r r'" "in_step r' v'" "reread L d' view"
    by (rule further_line [OF lib ok tr w]) (use sh in \<open>auto simp: checkpoint_record_def zero_record_def\<close>)
  note same = reread_eq [OF f(7)] and rw = rewritten_fields [OF f(1), of L O1]
  have pass: "core v' = core (v\<lparr>vs_line := vs_line v + 1\<rparr>)" using f(4) by (simp add: passed_def)
  have t: "vs_line v = length lines" "same_order r v" "delivered O1 es (rc_out r) v" using tr by (auto simp: trail_def)
  have count: "vf_EventCount (vs_out v') = rc_count r" using pass t(2) by (simp add: core_iff same_order_def)
  let ?u = "v'\<lparr>vs_out := (vs_out v')\<lparr>vf_Checkpoints := vf_Checkpoints (vs_out v') + 1\<rparr>\<rparr>"
  let ?w = "if signatureRequired O1 \<and> signed_head r d'
    then ?u\<lparr>vs_consumed := vs_consumed v' @ vs_pending v', vs_pending := [], vs_pendingBytes := 0\<rparr> else ?u"
  have "verify_lines L O1 (Some collect) (lines @ [line]) (start_verifying fmempty) = (?w, nil)"
    unfolding f(3) using sh same count by (simp add: by_type_def release_collect)
  moreover have "in_step r' ?w" using f(6) by (simp add: in_step_def chained_to_def)
  moreover have "same_order r' ?w" using t(2) pass rw by (simp add: same_order_def core_iff)
  moreover have "delivered O1 es (rc_out r') ?w" using t(3) pass rw by (simp add: delivered_def core_iff)
  moreover have "vs_line ?w = length (lines @ [line])" using pass t(1) by (simp add: core_iff)
  moreover have "chain r' \<noteq> chainNone \<longrightarrow> tree_Size (rc_tree r') = of_nat (length (lines @ [line]))"
    using tr f(5) rw by (simp add: linked_def trail_def)
  ultimately have "trail L O1 r' es (lines @ [line]) ?w"
    using tr f(2) rw by (simp add: trail_def)
  then show ?thesis using f(1) by blast
qed

subsection \<open>Events\<close>

text \<open>What freezing guarantees of an event, when its encoding is that of \<^verbatim>\<open>json.Marshal\<close>, its text is valid UTF-8 and
  it is not nested to the decoder's limit.\<close>

definition genuine :: "audit_library \<Rightarrow> CanonicalEvent \<Rightarrow> bool" where
  "genuine L e \<longleftrightarrow> al_envelope L (ce_payload e) = Some (Some (ce_header e)) \<and> al_compact L (ce_payload e) = ce_payload e
     \<and> al_utf8 L (ce_payload e) \<and> al_utf8 L (ce_kind e) \<and> shallow L (ce_payload e)"

lemma ordered_in_recorder:
  assumes "validateEventOrderLocked h r = nil"
  shows "\<not> out_of_order (rc_published r) h \<and> id_Session (hd_ID h) \<noteq> 0"
  using assms by (auto simp: validateEventOrderLocked_def out_of_order_def Let_def split: if_splits)

lemma event_identity_ok:
  assumes "vs_headSession v = Some s" and "s \<noteq> 0" and "id_Session (hd_ID h) = s" and "vs_session v = None \<or> vs_session v = Some s"
  shows "\<exists>x. event_identity h d v = (v\<lparr>vs_session := Some s, vs_out := (vs_out v)\<lparr>vf_Session := x\<rparr>\<rparr>, nil)"
  using assms(4)
proof
  assume "vs_session v = None"
  then show ?thesis using assms(1-3)
    by (intro exI [of _ "if vf_Session (vs_out v) = 0 then s else vf_Session (vs_out v)"])
      (simp add: event_identity_def head_session_def)
next
  assume a: "vs_session v = Some s"
  then have "event_identity h d v = (v, nil)" using assms(1-3) by (simp add: event_identity_def head_session_def)
  then show ?thesis using a by (intro exI [of _ "vf_Session (vs_out v)"]) simp
qed

lemma admit_effect:
  assumes "admit_event E h r = (r', nil)"
  obtains published d s where "Advance (rc_published r) (id_Stream (hd_ID h)) (id_Sequence (hd_ID h)) = Returned (published, True)"
    and "r' = r\<lparr>rc_published := published, rc_count := rc_count r + 1, rc_durableCount := d, rc_sinceCheckpoint := s\<rparr>"
proof -
  let ?d = "if ao_FlushEveryEvent (rc_options r) \<and> syncCapable E then rc_count r + 1 else rc_durableCount r"
  obtain published where "Advance (rc_published r) (id_Stream (hd_ID h)) (id_Sequence (hd_ID h)) = Returned (published, True)"
      "r' = r\<lparr>rc_published := published, rc_count := rc_count r + 1, rc_durableCount := ?d,
        rc_sinceCheckpoint := rc_sinceCheckpoint r + 1\<rparr>"
    using assms unfolding admit_event_def by (cases "Advance (rc_published r) (id_Stream (hd_ID h)) (id_Sequence (hd_ID h))")
      (simp_all add: case_prod_beta prod_eq_iff split: if_splits)
  then show ?thesis by (rule that)
qed

lemma event_order_ok:
  assumes "\<not> out_of_order (vs_published v) h"
    and "Advance (vs_published v) (id_Stream (hd_ID h)) (id_Sequence (hd_ID h)) = Returned (published, True)"
  shows "event_order h v = (v\<lparr>vs_published := published,
      vs_out := (vs_out v)\<lparr>vf_EventCount := vf_EventCount (vs_out v) + 1\<rparr>\<rparr>, nil)"
  using assms by (simp add: event_order_def)

lemma accept_ok:
  assumes "\<not> signatureRequired O1 \<longrightarrow> vs_pending v = []" and "unat (vs_pendingBytes v) + n \<le> unat (max_pending O1)"
  shows "\<exists>w. accept_event O1 (Some collect) n rec v = (w, nil) \<and> (\<exists>c p b. w = v\<lparr>vs_consumed := c, vs_pending := p, vs_pendingBytes := b\<rparr>)
    \<and> vs_consumed w @ vs_pending w = vs_consumed v @ vs_pending v @ [rec]
    \<and> (\<not> signatureRequired O1 \<longrightarrow> vs_pending w = []) \<and> unat (vs_pendingBytes w) \<le> unat (vs_pendingBytes v) + n"
proof (cases "signatureRequired O1")
  case False
  let ?w = "v\<lparr>vs_consumed := vs_consumed v @ [rec]\<rparr>"
  have "accept_event O1 (Some collect) n rec v = (?w, nil)"
    using False by (simp only: accept_event_def if_False deliver_collect)
  moreover have "?w = v\<lparr>vs_consumed := vs_consumed v @ [rec], vs_pending := vs_pending v, vs_pendingBytes := vs_pendingBytes v\<rparr>"
    by simp
  then have "\<exists>c p b. ?w = v\<lparr>vs_consumed := c, vs_pending := p, vs_pendingBytes := b\<rparr>" by blast
  ultimately show ?thesis using False assms(1) by (intro exI [of _ ?w]) simp
next
  case True
  let ?n = "of_nat n :: u64"
  have "n < 2 ^ 64" using assms(2) unsigned_less [of "max_pending O1", where ?'a = nat] by simp
  then have n: "unat ?n = n" by (simp add: unsigned_of_nat take_bit_nat_eq_self)
  then have le: "?n \<le> max_pending O1" using assms(2) by (simp add: word_le_nat_alt)
  then have "unat (max_pending O1 - ?n) = unat (max_pending O1) - n" using n by (simp add: unat_sub)
  then have "\<not> max_pending O1 < ?n" "\<not> vs_pendingBytes v > max_pending O1 - ?n"
    using le assms(2) by (simp_all add: word_less_nat_alt word_le_nat_alt)
  moreover have "unat (vs_pendingBytes v + ?n) \<le> unat (vs_pendingBytes v) + n"
    using n by (metis unat_plus_simple word_arith_nat_add unat_of_nat mod_less_eq_dividend)
  moreover have "v\<lparr>vs_pendingBytes := vs_pendingBytes v + ?n, vs_pending := vs_pending v @ [rec]\<rparr>
      = v\<lparr>vs_consumed := vs_consumed v, vs_pending := vs_pending v @ [rec], vs_pendingBytes := vs_pendingBytes v + ?n\<rparr>" by simp
  then have "\<exists>c p b. v\<lparr>vs_pendingBytes := vs_pendingBytes v + ?n, vs_pending := vs_pending v @ [rec]\<rparr>
      = v\<lparr>vs_consumed := c, vs_pending := p, vs_pendingBytes := b\<rparr>" by blast
  ultimately show ?thesis using True
    by (intro exI [of _ "v\<lparr>vs_pendingBytes := vs_pendingBytes v + ?n, vs_pending := vs_pending v @ [rec]\<rparr>"])
      (simp add: accept_event_def Let_def)
qed

lemma event_trail:
  assumes lib: "faithful_library L" and ok: "matching L O1 r" and tr: "trail L O1 r es lines v"
    and e: "genuine L e" "ce_kind e \<noteq> [] \<and> rejectDuplicateJSONFields L (ce_payload e) = nil"
      "validateEventOrderLocked (ce_header e) r = nil" "id_Session (hd_ID (ce_header e)) = rc_session r"
    and w: "writeLocked L E (event_record e now) r = (r1, Inr d')" and adm: "admit_event E (ce_header e) r1 = (r', nil)"
    and room: "length (rc_out r') \<le> unat (max_pending O1)"
  shows "\<exists>line v'. trail L O1 r' (es @ [e]) (lines @ [line]) v'"
proof -
  let ?h = "ce_header e"
  have seal: "seal_of (event_record e now) d'" "sealed L r d'"
    using sealed_seal_of [OF ok w] by (simp_all add: event_record_def zero_record_def)
  have plain: "dr_TreeRoot d' = []" "dr_Signature d' = []"
  proof -
    have "\<not> is_head d'" using seal(1) by (elim seal_of_cases) (simp add: event_record_def zero_record_def is_head_def)
    then show "dr_TreeRoot d' = []" "dr_Signature d' = []" using seal(2) by (simp_all add: sealed_def)
  qed
  have written: "sealed_by L r (event_record e now) d'"
    by (rule trail_sealed_by [OF ok tr w]) (simp add: event_record_def zero_record_def)
  have sh: "well_shaped d' \<and> plain_record L d' \<and> dr_RecordType d' = ''event'' \<and> dr_Kind d' = ce_kind e
      \<and> dr_Payload d' = ce_payload e \<and> dr_Version d' = 3"
    by (rule event_shape [OF written lib _ _ _ plain]) (use e(1,2) in \<open>simp_all add: genuine_def embeddable_def\<close>)
  obtain line view v1 where f: "rewritten r (rc_out r @ unlines [line]) r1" "newline \<notin> set line"
      "verify_lines L O1 (Some collect) (lines @ [line]) (start_verifying fmempty)
        = by_type L O1 (Some collect) (length line) view (signed_head r d') v1"
      "passed O1 r r1 d' (v\<lparr>vs_line := vs_line v + 1\<rparr>) v1" "linked r r1" "in_step r1 v1" "reread L d' view"
    by (rule further_line [OF lib ok tr w]) (use sh in \<open>auto simp: event_record_def zero_record_def\<close>)
  note same = reread_eq [OF f(7)] and rw = rewritten_fields [OF f(1), of L O1]
  obtain published dc sc where a: "Advance (rc_published r1) (id_Stream (hd_ID ?h)) (id_Sequence (hd_ID ?h)) = Returned (published, True)"
      "r' = r1\<lparr>rc_published := published, rc_count := rc_count r1 + 1, rc_durableCount := dc, rc_sinceCheckpoint := sc\<rparr>"
    by (rule admit_effect [OF adm])
  have pass: "core v1 = core (v\<lparr>vs_line := vs_line v + 1\<rparr>)" using f(4) by (simp add: passed_def)
  have t: "vs_line v = length lines" "same_order r v" "delivered O1 es (rc_out r) v" using tr by (auto simp: trail_def)
  have order: "\<not> out_of_order (rc_published r) ?h" "rc_session r \<noteq> 0"
    using ordered_in_recorder [OF e(3)] e(4) by auto
  have v1: "vs_published v1 = rc_published r" "vf_EventCount (vs_out v1) = rc_count r"
      "vs_session v1 = None \<or> vs_session v1 = Some (rc_session r)" "vs_headSession v1 = Some (rc_session r)"
      "vs_pending v1 = vs_pending v" "vs_pendingBytes v1 = vs_pendingBytes v" "vs_consumed v1 = vs_consumed v"
      "vs_line v1 = length lines + 1"
    using pass t f(6) rw order(2) by (simp_all add: core_iff same_order_def in_step_def)
  obtain x where x: "event_identity ?h view v1
      = (v1\<lparr>vs_session := Some (rc_session r), vs_out := (vs_out v1)\<lparr>vf_Session := x\<rparr>\<rparr>, nil)"
    using event_identity_ok [OF v1(4) order(2) e(4) v1(3)] by blast
  let ?v2 = "v1\<lparr>vs_session := Some (rc_session r), vs_out := (vs_out v1)\<lparr>vf_Session := x\<rparr>\<rparr>"
  let ?v3 = "?v2\<lparr>vs_published := published, vs_out := (vs_out ?v2)\<lparr>vf_EventCount := vf_EventCount (vs_out ?v2) + 1\<rparr>\<rparr>"
  have o: "event_order ?h ?v2 = (?v3, nil)"
    by (rule event_order_ok) (use order v1 a(1) rw in simp_all)
  have fits: "unat (vs_pendingBytes ?v3) + length line \<le> unat (max_pending O1)"
    using t(3) room rw a(2) v1(6) by (simp add: delivered_def unlines_def)
  have empty: "\<not> signatureRequired O1 \<longrightarrow> vs_pending ?v3 = []" using t(3) v1(5) by (simp add: delivered_def)
  obtain w where acc: "accept_event O1 (Some collect) (length line) (decoded_event ?h view) ?v3 = (w, nil)"
      "\<exists>c p b. w = ?v3\<lparr>vs_consumed := c, vs_pending := p, vs_pendingBytes := b\<rparr>"
      "vs_consumed w @ vs_pending w = vs_consumed ?v3 @ vs_pending ?v3 @ [decoded_event ?h view]"
      "\<not> signatureRequired O1 \<longrightarrow> vs_pending w = []" "unat (vs_pendingBytes w) \<le> unat (vs_pendingBytes ?v3) + length line"
    using accept_ok [OF empty fits, of "decoded_event ?h view"] by blast
  have header: "eventHeader L view = Inr ?h"
    using e(1) same sh by (simp add: eventHeader_def genuine_def split: bool.split option.split)
  have "verify_lines L O1 (Some collect) (lines @ [line]) (start_verifying fmempty) = (w, nil)"
    unfolding f(3) using sh same e(2) header x o acc(1) by (simp add: by_type_def verify_event_def)
  moreover obtain c p b where w: "w = ?v3\<lparr>vs_consumed := c, vs_pending := p, vs_pendingBytes := b\<rparr>" using acc(2) by blast
  have "in_step r' w" using f(6) a(2) unfolding w by (simp add: in_step_def chained_to_def chain_def)
  moreover have "same_order r' w" using a(2) v1 rw unfolding w by (simp add: same_order_def)
  moreover have "heard (decoded_event ?h view) = e" using sh same by (simp add: heard_def decoded_event_def)
  then have "delivered O1 (es @ [e]) (rc_out r') w"
    using t(3) acc(3-5) v1 rw a(2) by (simp add: delivered_def unlines_def)
  moreover have "vs_line w = length (lines @ [line])" using v1(8) unfolding w by simp
  moreover have "chain r' \<noteq> chainNone \<longrightarrow> tree_Size (rc_tree r') = of_nat (length (lines @ [line]))"
    using tr f(5) rw a(2) by (simp add: linked_def trail_def chain_def)
  ultimately have "trail L O1 r' (es @ [e]) (lines @ [line]) w"
    using tr f(2) rw a(2) by (simp add: trail_def)
  then show ?thesis by blast
qed

subsection \<open>The manifest\<close>

definition blank :: "recorder \<Rightarrow> bool" where
  "blank r \<longleftrightarrow> rc_out r = [] \<and> rc_previous r = [] \<and> rc_tree r = empty_tree \<and> rc_count r = 0
     \<and> rc_published r = Some (HighWater_New MaxEventStreamsPerSession)"

definition frozen_provenance :: "audit_library \<Rightarrow> recorder \<Rightarrow> bool" where
  "frozen_provenance L r \<longleftrightarrow> (\<forall>p. ao_Provenance (rc_options r) = Some p \<longrightarrow> (\<exists>enc. al_provenance L enc = Some p))
     \<and> shallow_provenance L (ao_Provenance (rc_options r))"

lemma manifest_shape:
  assumes "sealed_by L r (manifest_record E r now) d" and "faithful_library L" and "frozen_provenance L r" and "matching L O1 r"
  shows "well_shaped d \<and> plain_record L d \<and> dr_RecordType d = ''manifest'' \<and> dr_Chain d = chain r
     \<and> dr_ControlSchema d = ControlSchemaVersion \<and> dr_Version d = 3
     \<and> dr_Session d = (if rc_session r = 0 then None else Some (rc_session r))
     \<and> dr_KeyID d = (case rc_key r of None \<Rightarrow> [] | Some k \<Rightarrow> sk_id k)
     \<and> dr_PublicKey d = (case rc_key r of None \<Rightarrow> [] | Some k \<Rightarrow> hex_EncodeToString (sk_public k))"
proof -
  obtain kid where kid: "(case rc_key r of None \<Rightarrow> [] | Some k \<Rightarrow> sk_id k) = kid" by blast
  obtain pub where pub: "(case rc_key r of None \<Rightarrow> [] | Some k \<Rightarrow> hex_EncodeToString (sk_public k)) = pub" by blast
  obtain sess where sess: "(if rc_session r = 0 then None else Some (rc_session r)) = sess" by blast
  have p: "\<forall>p. ao_Provenance (rc_options r) = Some p \<longrightarrow> (\<exists>enc. al_provenance L enc = Some p)"
      "shallow_provenance L (ao_Provenance (rc_options r))"
    using assms(3) by (simp_all add: frozen_provenance_def)
  have "ascii kid" "ascii pub"
    using assms(4) kid pub hex_encode_ascii
    by (auto simp: matching_def KeyID_def ascii_def split: option.splits)
  moreover have "ascii (chain r)" "ascii (durability E r)" "ascii []" "ascii ''manifest''" "ascii ControlSchemaVersion"
    by (simp_all add: ascii_def chain_def durability_def chainNone_def chainHMAC_def chainSHA256_def ControlSchemaVersion_def)
  ultimately have u: "al_utf8 L kid" "al_utf8 L pub" "al_utf8 L (chain r)" "al_utf8 L (durability E r)" "al_utf8 L []"
      "al_utf8 L ''manifest''" "al_utf8 L ControlSchemaVersion"
    using assms(2) by (simp_all add: faithful_utf8)
  obtain n root prev h s where "d = (manifest_record E r now)\<lparr>dr_TreeSize := n, dr_TreeRoot := root, dr_PreviousHash := prev,
      dr_Hash := h, dr_Signature := s\<rparr>" and added: "al_utf8 L root" "al_utf8 L prev" "al_utf8 L h" "al_utf8 L s"
    by (rule sealed_by_cases [OF assms(1,2)])
  then have d: "d = \<lparr>dr_Version = 3, dr_RecordType = ''manifest'', dr_RecordedAt = now, dr_Kind = [], dr_Header = None,
      dr_Payload = [], dr_EventCount = 0, dr_PreviousHash = prev, dr_Hash = h, dr_Chain = chain r,
      dr_ControlSchema = ControlSchemaVersion, dr_Durability = durability E r, dr_EncodingError = [], dr_Session = sess,
      dr_TreeSize = n, dr_TreeRoot = root, dr_Signature = s, dr_KeyID = kid, dr_PublicKey = pub,
      dr_Provenance = ao_Provenance (rc_options r), dr_Reason = [], dr_provenanceRaw = None\<rparr>"
    unfolding manifest_record_def kid pub sess by (simp add: zero_record_def FormatVersion_def)
  have "well_shaped d" unfolding d
    by (simp add: well_shaped_def zero_fields_def allowedForType_def FormatVersion_def)
  moreover have "plain_record L d" unfolding d using p u added by (simp add: plain_record_def record_texts_def)
  ultimately show ?thesis unfolding kid pub sess by (simp add: d)
qed

lemma manifest_key_ok:
  assumes "faithful_library L" and "matching L O1 r"
    and "dr_KeyID d = (case rc_key r of None \<Rightarrow> [] | Some k \<Rightarrow> sk_id k)"
    and "dr_PublicKey d = (case rc_key r of None \<Rightarrow> [] | Some k \<Rightarrow> hex_EncodeToString (sk_public k))"
    and "vf_PublicKey (vs_out v) = None"
  shows "\<exists>x. manifest_key L d v = (v\<lparr>vs_out := (vs_out v)\<lparr>vf_PublicKey := map_option sk_public (rc_key r), vf_KeyID := x\<rparr>\<rparr>, nil)"
proof (cases "rc_key r")
  case None
  then have "manifest_key L d v = (v, nil)" using assms(3,4) by (simp add: manifest_key_def)
  then show ?thesis using None assms(5) by (intro exI [of _ "vf_KeyID (vs_out v)"]) simp
next
  case (Some k)
  then have k: "length (sk_public k) = 32" "sk_id k = KeyID L (sk_public k)"
    using assms(2) by (simp_all add: matching_def ed25519_PublicKeySize_def)
  have "length (al_sha256 L (sk_public k)) = 32" using assms(1) by (simp add: faithful_library_def)
  then have "KeyID L (sk_public k) \<noteq> []" by (auto simp: KeyID_def hex_encode_nonempty)
  moreover have "hex_EncodeToString (sk_public k) \<noteq> []" using k(1) by (auto simp: hex_encode_nonempty)
  moreover have "decodePublicKey (hex_EncodeToString (sk_public k)) = Inr (sk_public k)"
    using k(1) by (simp add: decodePublicKey_def hex_roundtrip ed25519_PublicKeySize_def)
  ultimately show ?thesis using Some assms(3,4) k(2)
    by (intro exI [of _ "sk_id k"]) (simp add: manifest_key_def)
qed

lemma select_key_ok:
  assumes "matching L O1 r" and "vf_PublicKey (vs_out v) = map_option sk_public (rc_key r)" and "vs_trusted v = None"
  shows "select_key O1 v = (v\<lparr>vs_trusted := map_option sk_public (rc_key r)\<rparr>, nil)"
  using assms by (cases "rc_key r") (auto simp: select_key_def matching_def)

lemma chain_names: "chainNone \<noteq> chainHMAC \<and> chainNone \<noteq> chainSHA256 \<and> chainHMAC \<noteq> chainSHA256"
  by (simp add: chainNone_def chainHMAC_def chainSHA256_def)

text \<open>The first line leaves the verifier in step with the recorder that is about to write it.\<close>

lemma first_line_ok:
  assumes lib: "faithful_library L" and ok: "matching L O1 r" and b: "blank r"
    and d: "dr_RecordType d = ''manifest'' \<and> dr_Chain d = chain r \<and> dr_ControlSchema d = ControlSchemaVersion \<and> dr_Version d = 3
     \<and> dr_Session d = (if rc_session r = 0 then None else Some (rc_session r))
     \<and> dr_KeyID d = (case rc_key r of None \<Rightarrow> [] | Some k \<Rightarrow> sk_id k)
     \<and> dr_PublicKey d = (case rc_key r of None \<Rightarrow> [] | Some k \<Rightarrow> hex_EncodeToString (sk_public k))"
    and key: "chain r = chainHMAC \<longrightarrow> hmac_key r \<noteq> []"
  shows "\<exists>v. first_line L O1 d ((start_verifying fmempty)\<lparr>vs_line := 1\<rparr>) = (v, nil) \<and> in_step r v \<and> same_order r v
    \<and> vs_line v = 1 \<and> vs_consumed v = [] \<and> vs_pending v = [] \<and> vs_pendingBytes v = 0"
proof -
  let ?v0 = "(start_verifying fmempty)\<lparr>vs_line := 1\<rparr>"
  let ?v1 = "?v0\<lparr>vs_out := (vs_out ?v0)\<lparr>vf_Version := 3\<rparr>\<rparr>"
  let ?v2 = "?v1\<lparr>vs_out := (vs_out ?v1)\<lparr>vf_Chain := dr_Chain d, vf_Durability := dr_Durability d, vf_Provenance := dr_Provenance d\<rparr>\<rparr>"
  let ?head = "if rc_session r = 0 then None else Some (rc_session r)"
  let ?v3 = "?v2\<lparr>vs_headSession := ?head, vs_out := (vs_out ?v2)\<lparr>vf_Session := rc_session r\<rparr>\<rparr>"
  have session: "manifest_session d ?v2 = (?v3, nil)"
    using d by (simp add: manifest_session_def start_verifying_def zero_verification_def)
  have noKey: "vf_PublicKey (vs_out ?v3) = None" by (simp add: start_verifying_def zero_verification_def)
  obtain x where x: "manifest_key L d ?v3
      = (?v3\<lparr>vs_out := (vs_out ?v3)\<lparr>vf_PublicKey := map_option sk_public (rc_key r), vf_KeyID := x\<rparr>\<rparr>, nil)"
    using manifest_key_ok [OF lib ok _ _ noKey, of d] d by blast
  let ?v4 = "?v3\<lparr>vs_out := (vs_out ?v3)\<lparr>vf_PublicKey := map_option sk_public (rc_key r), vf_KeyID := x\<rparr>\<rparr>"
  have decl: "manifest_declarations L d ?v1 = (?v4, nil)"
    using d session x by (simp add: manifest_declarations_def)
  have sel: "select_key O1 ?v4 = (?v4\<lparr>vs_trusted := map_option sk_public (rc_key r)\<rparr>, nil)"
    by (rule select_key_ok [OF ok]) (simp_all add: start_verifying_def)
  let ?v5 = "?v4\<lparr>vs_trusted := map_option sk_public (rc_key r)\<rparr>"
  have chain: "vf_Chain (vs_out ?v4) = chain r" using d by simp
  have "rc_key r = None \<or> chain r \<noteq> chainNone" using ok by (auto simp: matching_def)
  then have "first_line L O1 d ?v0 = (?v5, nil)"
    using d decl sel chain ok key required_has_key [OF ok] chain_names
    by (simp add: first_line_def Let_def matching_def)
  moreover have "in_step r ?v5" using b chain
    by (simp add: in_step_def chained_to_def blank_def start_verifying_def zero_verification_def FormatVersion_def ascii_def)
  moreover have "same_order r ?v5" using b by (simp add: same_order_def blank_def start_verifying_def zero_verification_def)
  ultimately show ?thesis by (intro exI [of _ ?v5]) (simp add: start_verifying_def)
qed

lemma manifest_trail:
  assumes lib: "faithful_library L" and ok: "matching L O1 r" and b: "blank r" and prov: "frozen_provenance L r"
    and w: "writeLocked L E (manifest_record E r now) r = (r', Inr d')"
  shows "\<exists>line v. trail L O1 r' [] [line] v \<and> rewritten r (unlines [line]) r'"
proof -
  have seal: "seal_of (manifest_record E r now) d'" "sealed L r d'"
    using sealed_seal_of [OF ok w] by (simp_all add: manifest_record_def zero_record_def)
  have "sealed_by L r (manifest_record E r now) d'" using seal b by (simp add: sealed_by_def blank_def ascii_def)
  note sh = manifest_shape [OF this lib prov ok]
  obtain line t where line: "al_Marshal L d' = Some line" "int (length line) + 1 \<le> MaxRecordSize"
      "link_record L d' (r\<lparr>rc_out := rc_out r @ unlines [line], rc_tick := t\<rparr>) = (r', nil)"
    by (rule writeLocked_effect [OF w])
  let ?r1 = "r\<lparr>rc_out := rc_out r @ unlines [line], rc_tick := t\<rparr>"
  obtain view where view: "newline \<notin> set line" "decodeDiskRecord L line = Inr view" "reread L d' view"
    using decode_marshalled [OF lib _ _ line(1)] sh by blast
  note same = reread_eq [OF view(3)]
  have sv: "sealed_view L r d' view" using seal(2) view(3) sh by (simp add: sealed_view_def FormatVersion_def)
  have key: "chain r = chainHMAC \<longrightarrow> hmac_key r \<noteq> []"
  proof
    assume c: "chain r = chainHMAC"
    then have "\<exists>h. recordHashV3 L d' chainHMAC (hmac_key r) = Inr h"
      using seal(2) chain_names by (auto simp: sealed_def)
    then show "hmac_key r \<noteq> []" using chain_names by (auto simp: recordHashV3_def newChainDigest_def)
  qed
  have decl: "dr_RecordType view = ''manifest'' \<and> dr_Chain view = chain r \<and> dr_ControlSchema view = ControlSchemaVersion
     \<and> dr_Version view = 3 \<and> dr_Session view = (if rc_session r = 0 then None else Some (rc_session r))
     \<and> dr_KeyID view = (case rc_key r of None \<Rightarrow> [] | Some k \<Rightarrow> sk_id k)
     \<and> dr_PublicKey view = (case rc_key r of None \<Rightarrow> [] | Some k \<Rightarrow> hex_EncodeToString (sk_public k))"
    using sh same by simp
  obtain v where v: "first_line L O1 view ((start_verifying fmempty)\<lparr>vs_line := 1\<rparr>) = (v, nil)" "in_step r v" "same_order r v"
      "vs_line v = 1" "vs_consumed v = []" "vs_pending v = []" "vs_pendingBytes v = 0"
    using first_line_ok [OF lib ok b decl key] by blast
  obtain v' where v': "and_then (check_chain L O1 view v) (\<lambda>v. and_then (check_head L O1 view v) (\<lambda>v.
              let verified = head_verified view v in
              and_then (and_then (check_witness view v) (append_leaf L O1 view)) (by_type L O1 (Some collect) (length line) view verified)))
      = by_type L O1 (Some collect) (length line) view (signed_head r d') v'" "passed O1 r r' d' v v'"
    by (rule stages_pass [OF lib ok v(2) sv line(3)]) auto
  obtain p u where link: "r' = ?r1\<lparr>rc_previous := p, rc_tree := u\<rparr>" "if chain ?r1 \<noteq> chainNone then
      tree_Size u = tree_Size (rc_tree ?r1) + 1 \<and> (\<exists>leaf. tree_Append (al_sha256 L) (rc_tree ?r1) leaf = Returned u) else u = rc_tree ?r1"
    using link_record_effect [OF line(3)] by blast
  have rw: "rewritten r (unlines [line]) r'" using link(1) b by (auto simp: rewritten_def blank_def)
  note rwf = rewritten_fields [OF rw, of L O1]
  have linked: "linked r r'" using link rwf by (auto simp: linked_def chain_def split: if_splits)
  have pass: "core v' = core v" using v'(2) by (simp add: passed_def)
  let ?w = "if signatureRequired O1 \<and> signed_head r d'
    then v'\<lparr>vs_consumed := vs_consumed v' @ vs_pending v', vs_pending := [], vs_pendingBytes := 0\<rparr> else v'"
  have "verify_lines L O1 (Some collect) [line] (start_verifying fmempty)
      = verify_record L O1 (Some collect) (length line) view ((start_verifying fmempty)\<lparr>vs_line := 1\<rparr>)"
    using verify_lines_snoc [of L O1 "Some collect" "[]" "start_verifying fmempty" _ line view] line(2) view(2)
    by (simp add: start_verifying_def)
  also have "\<dots> = by_type L O1 (Some collect) (length line) view (signed_head r d') v'"
    using v v' decl by (simp add: verify_record_def in_step_def FormatVersion_def)
  also have "\<dots> = (?w, nil)"
    using decl pass v by (simp add: by_type_def release_collect core_iff in_step_def FormatVersion_def)
  finally have "verify_lines L O1 (Some collect) [line] (start_verifying fmempty) = (?w, nil)" .
  moreover have "in_step r' v'" using in_step_passed [OF v(2) pass _ linked] v'(2) by (simp add: passed_def)
  then have "in_step r' ?w" by (simp add: in_step_def chained_to_def)
  moreover have "same_order r' ?w" using v(3) pass rwf by (simp add: same_order_def core_iff)
  moreover have "delivered O1 [] (rc_out r') ?w" using pass v by (simp add: delivered_def core_iff)
  moreover have "vs_line ?w = length [line]" using pass v(4) by (simp add: core_iff)
  moreover have "chain r' \<noteq> chainNone \<longrightarrow> tree_Size (rc_tree r') = of_nat (length [line])"
    using linked rwf b by (simp add: linked_def blank_def empty_tree_def tree_Size_def)
  ultimately have "trail L O1 r' [] [line] ?w"
    using view(1) rwf by (simp add: trail_def)
  then show ?thesis using rw by blast
qed

end
