(* ===== verification/AuditLog.thy ===== *)
theory AuditLog
  imports AuditTrail
begin

text \<open>
  From single records to runs of a recorder: \<open>good\<close> is the invariant that a recorder which has neither failed nor been
  closed has written a log that verifies so far. The main result is that when \<open>Close\<close> reports no error, the verifier
  accepts the whole log, complete, and hands over exactly the events that were accepted, in their order.
\<close>

subsection \<open>The invariant of an open recorder\<close>

definition rview :: "recorder \<Rightarrow> string \<times> string \<times> u64 \<times> tree \<times> session_id \<times> highwater option \<times> Options \<times> signingKey option
    \<times> bool" where
  "rview r = (rc_out r, rc_previous r, rc_count r, rc_tree r, rc_session r, rc_published r, rc_options r, rc_key r, rc_started r)"

definition status :: "recorder \<Rightarrow> go_error \<times> bool \<times> bool \<times> go_error" where
  "status r = (rc_failure r, rc_closed r, rc_closeDone r, rc_closeErr r)"

definition good :: "audit_library \<Rightarrow> VerifyOptions \<Rightarrow> recorder \<Rightarrow> CanonicalEvent list \<Rightarrow> bool" where
  "good L O1 r es \<longleftrightarrow> matching L O1 r \<and> frozen_provenance L r
     \<and> (if rc_started r then length (rc_out r) \<le> unat (max_pending O1) \<longrightarrow> (\<exists>lines v. trail L O1 r es lines v)
        else blank r \<and> es = [])"

lemma trail_cong:
  assumes "rview r' = rview r"
  shows "trail L O1 r' es lines v = trail L O1 r es lines v"
proof -
  have o: "rc_options r' = rc_options r" "rc_key r' = rc_key r" using assms by (simp_all add: rview_def)
  show ?thesis using assms unfolding trail_def in_step_def chained_to_def same_order_def matching_cong(2) [OF o]
    by (simp add: rview_def)
qed

lemma good_cong:
  assumes "rview r' = rview r"
  shows "good L O1 r' es = good L O1 r es"
proof -
  have o: "rc_options r' = rc_options r" "rc_key r' = rc_key r" using assms by (simp_all add: rview_def)
  show ?thesis using assms unfolding good_def matching_cong(1) [OF o] trail_cong [OF assms]
    by (simp add: rview_def frozen_provenance_def blank_def)
qed

lemma publish_view: "rview (fst (publishAnchorLocked d r)) = rview r \<and> status (fst (publishAnchorLocked d r)) = status r"
  by (simp add: publishAnchorLocked_def Let_def rview_def status_def split: option.split)

lemma audit_now_view: "rview (fst (audit_now E r)) = rview r \<and> status (fst (audit_now E r)) = status r"
  by (simp add: audit_now_def rview_def status_def)

lemma rewritten_view:
  assumes "rewritten r out r'"
  shows "status r' = status r \<and> rc_started r' = rc_started r \<and> rc_options r' = rc_options r \<and> rc_key r' = rc_key r
    \<and> rc_out r' = out \<and> rc_session r' = rc_session r \<and> rc_published r' = rc_published r"
  using assms unfolding rewritten_def by (elim exE) (simp add: status_def)

lemma good_started_intro:
  assumes "good L O1 r es" and "rewritten r out r'" and "rc_started r" and "length (rc_out r) \<le> length out"
    and "\<And>lines v. trail L O1 r es lines v \<Longrightarrow> length out \<le> unat (max_pending O1) \<Longrightarrow> \<exists>lines v. trail L O1 r' es' lines v"
  shows "good L O1 r' es'"
proof -
  note rw = rewritten_view [OF assms(2)]
  have "matching L O1 r' = matching L O1 r" using rw by (intro matching_cong(1)) simp_all
  then show ?thesis using assms rw unfolding good_def frozen_provenance_def by auto
qed

lemma frozen_provenance_cong: "rc_options r' = rc_options r \<Longrightarrow> frozen_provenance L r' = frozen_provenance L r"
  by (simp add: frozen_provenance_def)

lemma manifest_record_cong:
  assumes "rc_options r' = rc_options r" and "rc_key r' = rc_key r" and "rc_session r' = rc_session r"
  shows "manifest_record E r' now = manifest_record E r now"
  using assms matching_cong(2) [OF assms(1,2)] by (simp add: manifest_record_def durability_def)

subsection \<open>Errors are errors\<close>

lemma audit_now_error: "audit_now E r = (r', Inl err) \<Longrightarrow> err \<noteq> nil"
  by (auto simp: audit_now_def split: outcome.splits)

lemma key_sign_error: "key_sign L k n m = Inl err \<Longrightarrow> err \<noteq> nil"
  by (auto simp: key_sign_def split: option.splits outcome.splits sum.splits if_splits)

lemma recordHashV3_error: "recordHashV3 L d c k = Inl err \<Longrightarrow> err \<noteq> nil"
  by (auto simp: recordHashV3_def newChainDigest_def split: option.splits sum.splits if_splits)

lemma seal_record_error: "seal_record L r d = Inl err \<Longrightarrow> err \<noteq> nil"
  by (auto simp: seal_record_def and_next_def with_head_def with_hash_def with_signature_def Let_def
      split: sum.splits outcome.splits if_splits option.splits bool.splits dest: key_sign_error recordHashV3_error)

lemma writeLocked_error: "writeLocked L E d r = (r', Inl err) \<Longrightarrow> err \<noteq> nil"
  by (auto simp: writeLocked_def split: sum.splits prod.splits if_splits dest: seal_record_error)

lemma writeCheckpoint_error: "writeCheckpointLocked L E reason r = (r', Inl err) \<Longrightarrow> err \<noteq> nil"
  by (auto simp: writeCheckpointLocked_def split: sum.splits prod.splits dest: audit_now_error writeLocked_error)

subsection \<open>The operations keep it\<close>

lemma startLocked_good:
  assumes "faithful_library L" and "good L O1 r es" and "startLocked L E r = (r', nil)"
  shows "good L O1 r' es \<and> rc_started r' \<and> status r' = status r \<and> rc_session r' = rc_session r
    \<and> rc_published r' = rc_published r \<and> (rc_started r \<longrightarrow> r' = r)"
proof (cases "rc_started r")
  case True
  then show ?thesis using assms(2,3) by (simp add: startLocked_def)
next
  case False
  then obtain r1 now where n: "audit_now E r = (r1, Inr now)"
    using assms(3) by (auto simp: startLocked_def split: prod.splits sum.splits if_splits dest: audit_now_error)
  let ?r2 = "r1\<lparr>rc_started := True, rc_lastCheckpoint := now\<rparr>"
  have w0: "\<exists>r3 d. writeLocked L E (manifest_record E r1 now) ?r2 = (r3, Inr d) \<and> r' = fst (publishAnchorLocked d r3)"
    using assms(3) False n
    by (auto simp: startLocked_def split: prod.splits sum.splits if_splits dest: audit_now_error writeLocked_error)
  then obtain r3 d where w: "writeLocked L E (manifest_record E r1 now) ?r2 = (r3, Inr d)" "r' = fst (publishAnchorLocked d r3)"
    by blast
  have now: "rview r1 = rview r" "status r1 = status r" using audit_now_view [of E r] n by simp_all
  have m: "manifest_record E r1 now = manifest_record E ?r2 now" by (rule manifest_record_cong) simp_all
  have ok: "matching L O1 ?r2" "frozen_provenance L ?r2" "blank ?r2"
  proof -
    have o: "rc_options ?r2 = rc_options r" "rc_key ?r2 = rc_key r" using now by (simp_all add: rview_def)
    show "matching L O1 ?r2" "frozen_provenance L ?r2" "blank ?r2"
      using assms(2) False now matching_cong(1) [OF o] frozen_provenance_cong [OF o(1)]
      by (simp_all add: good_def blank_def rview_def)
  qed
  obtain line v where t: "trail L O1 r3 [] [line] v" "rewritten ?r2 (unlines [line]) r3"
    using manifest_trail [OF assms(1) ok(1,3,2)] w(1) m by metis
  note rw = rewritten_view [OF t(2)]
  have o: "rc_options r3 = rc_options ?r2" "rc_key r3 = rc_key ?r2" using rw by simp_all
  have "good L O1 r3 es"
    using t(1) rw ok matching_cong(1) [OF o] frozen_provenance_cong [OF o(1)] assms(2) False by (auto simp: good_def)
  moreover have "rview r' = rview r3" "status r' = status r3" using publish_view [of d r3] w(2) by simp_all
  ultimately show ?thesis using good_cong [of r' r3] rw now False by (simp add: rview_def status_def)
qed

lemma writeCheckpoint_good:
  assumes "faithful_library L" and "good L O1 r es" and "rc_started r" and "al_utf8 L reason"
    and "writeCheckpointLocked L E reason r = (r', Inr c)"
  shows "good L O1 r' es \<and> rc_started r' \<and> status r' = status r"
proof -
  obtain r1 now where n: "audit_now E r = (r1, Inr now)"
    using assms(5) by (auto simp: writeCheckpointLocked_def split: prod.splits sum.splits)
  let ?upd = "\<lambda>r d. r\<lparr>rc_checkpointsRecorded := rc_checkpointsRecorded r + 1, rc_sinceCheckpoint := 0,
                rc_lastCheckpoint := dr_RecordedAt d\<rparr>"
  have "\<exists>r2 d. writeLocked L E (checkpoint_record r1 now reason) r1 = (r2, Inr d) \<and> r' = fst (publishAnchorLocked d (?upd r2 d))"
    using assms(5) n unfolding checkpoint_record_def
    by (auto simp: writeCheckpointLocked_def split: prod.splits sum.splits)
  then obtain r2 d where w: "writeLocked L E (checkpoint_record r1 now reason) r1 = (r2, Inr d)"
      "r' = fst (publishAnchorLocked d (?upd r2 d))" by blast
  have now: "rview r1 = rview r" "status r1 = status r" using audit_now_view [of E r] n by simp_all
  have g1: "good L O1 r1 es" "rc_started r1" using assms(2,3) good_cong [OF now(1)] now by (simp_all add: rview_def)
  obtain line t where line: "link_record L d (r1\<lparr>rc_out := rc_out r1 @ unlines [line], rc_tick := t\<rparr>) = (r2, nil)"
    by (rule writeLocked_effect [OF w(1)])
  have rw: "rewritten r1 (rc_out r1 @ unlines [line]) r2"
    using link_record_effect [OF line] by (auto simp: rewritten_def)
  have "matching L O1 r1" using g1(1) by (simp add: good_def)
  then have "good L O1 r2 es"
    using checkpoint_trail [OF assms(1) _ _ w(1) assms(4)]
    by (intro good_started_intro [OF g1(1) rw g1(2)]) (simp, blast)
  moreover have "rview r' = rview r2" "status r' = status r2"
    using publish_view [of d "?upd r2 d"] w(2) by (simp_all add: rview_def status_def)
  ultimately show ?thesis using good_cong [of r' r2] rewritten_view [OF rw] now g1(2) by (simp add: rview_def)
qed

lemma checkpointLocked_good:
  assumes "faithful_library L" and "good L O1 r es" and "rc_started r" and "al_utf8 L reason"
    and "checkpointLocked L E reason r = (r', nil)"
  shows "good L O1 r' es \<and> rc_started r' \<and> status r' = status r"
  using assms(5) writeCheckpoint_good [OF assms(1-4)]
  by (auto simp: checkpointLocked_def split: prod.splits sum.splits dest: writeCheckpoint_error)

lemma validateEventOrder_cong:
  "rc_published r' = rc_published r \<Longrightarrow> validateEventOrderLocked h r' = validateEventOrderLocked h r"
  by (simp only: validateEventOrderLocked_def)

lemma append_event_good:
  assumes lib: "faithful_library L" and g: "good L O1 r es" "rc_started r"
    and e: "genuine L e" "validateEventSnapshot L e = nil" "validateEventOrderLocked (ce_header e) r = nil"
      "id_Session (hd_ID (ce_header e)) = rc_session r"
    and a: "append_event L E e r = (r', nil)"
  shows "good L O1 r' (es @ [e]) \<and> rc_started r' \<and> status r' = status r"
proof -
  obtain r1 now where n: "audit_now E r = (r1, Inr now)"
    using a by (auto simp: append_event_def split: prod.splits sum.splits dest: audit_now_error)
  then obtain r2 d where w: "writeLocked L E (event_record e now) r1 = (r2, Inr d)"
      and rest: "and_then (admit_event E (ce_header e) r2)
         (\<lambda>r. if checkpointDueLocked now r then checkpointLocked L E ''interval'' r else (r, nil)) = (r', nil)"
    using a by (auto simp: append_event_def split: prod.splits sum.splits dest: writeLocked_error)
  obtain r3 where adm: "admit_event E (ce_header e) r2 = (r3, nil)"
      and tl: "(if checkpointDueLocked now r3 then checkpointLocked L E ''interval'' r3 else (r3, nil)) = (r', nil)"
    using and_then_nilD [OF rest] by blast
  have now: "rview r1 = rview r" "status r1 = status r" using audit_now_view [of E r] n by simp_all
  have g1: "good L O1 r1 es" "rc_started r1" using g good_cong [OF now(1)] now by (simp_all add: rview_def)
  have ord: "validateEventOrderLocked (ce_header e) r1 = nil" "id_Session (hd_ID (ce_header e)) = rc_session r1"
    using e(3,4) now(1) validateEventOrder_cong [of r1 r] by (simp_all add: rview_def)
  have kind: "ce_kind e \<noteq> [] \<and> rejectDuplicateJSONFields L (ce_payload e) = nil"
    using e(2) by (auto simp: validateEventSnapshot_def split: if_splits)
  obtain line t where line: "link_record L d (r1\<lparr>rc_out := rc_out r1 @ unlines [line], rc_tick := t\<rparr>) = (r2, nil)"
    by (rule writeLocked_effect [OF w])
  have rw: "rewritten r1 (rc_out r1 @ unlines [line]) r2"
    using link_record_effect [OF line] by (auto simp: rewritten_def)
  obtain published dc sc where r3: "r3 = r2\<lparr>rc_published := published, rc_count := rc_count r2 + 1, rc_durableCount := dc,
      rc_sinceCheckpoint := sc\<rparr>"
    by (rule admit_effect [OF adm])
  have same3: "rc_options r3 = rc_options r1" "rc_key r3 = rc_key r1" "rc_started r3" "rc_out r3 = rc_out r1 @ unlines [line]"
      "status r3 = status r1"
    using r3 rewritten_view [OF rw] g1(2) by (simp_all add: status_def)
  have m: "matching L O1 r1" "frozen_provenance L r1" using g1(1) by (simp_all add: good_def)
  have "\<exists>lines v. trail L O1 r3 (es @ [e]) lines v" if room: "length (rc_out r3) \<le> unat (max_pending O1)"
  proof -
    from room same3(4) have "length (rc_out r1) \<le> unat (max_pending O1)" by simp
    then obtain lines v where "trail L O1 r1 es lines v" using g1 by (auto simp: good_def)
    from event_trail [OF lib m(1) this e(1) kind ord w adm room] show ?thesis by blast
  qed
  then have g3: "good L O1 r3 (es @ [e])"
    using m same3 matching_cong(1) [OF same3(1,2)] frozen_provenance_cong [OF same3(1)] by (simp add: good_def)
  show ?thesis
  proof (cases "checkpointDueLocked now r3")
    case True
    then have "checkpointLocked L E ''interval'' r3 = (r', nil)" using tl by simp
    from checkpointLocked_good [OF lib g3 same3(3) _ this] faithful_ascii [OF lib] show ?thesis using same3(5) now(2) by simp
  next
    case False
    then show ?thesis using tl g3 same3 now by simp
  qed
qed

subsection \<open>Runs\<close>

datatype audit_op =
    OfferEvent context_errors go_event
  | OfferCanonical context_errors CanonicalEvent
  | ForceCheckpoint string
  | CheckpointBarrier go_error string
  | TimerFires
  | AnchorTakes
  | AnchorAnswers publication

text \<open>One operation: the recorder after it and the events it made part of the log.\<close>

definition audit_step :: "audit_library \<Rightarrow> audit_env \<Rightarrow> audit_op \<Rightarrow> recorder \<Rightarrow> recorder \<times> CanonicalEvent list" where
  "audit_step L E op r = (case op of
     OfferEvent ctx event \<Rightarrow> (case Record L E ctx event r of (r', err) \<Rightarrow>
       (r', if err \<noteq> nil then [] else case FreezeEvent L event of Inl _ \<Rightarrow> [] | Inr e \<Rightarrow> [e]))
   | OfferCanonical ctx e \<Rightarrow> (case RecordCanonical L E ctx e r of (r', err) \<Rightarrow> (r', if err \<noteq> nil then [] else [e]))
   | ForceCheckpoint reason \<Rightarrow> (fst (recorder_Checkpoint L E reason r), [])
   | CheckpointBarrier ctxErr reason \<Rightarrow> (fst (barrier L E ctxErr reason r), [])
   | TimerFires \<Rightarrow> (timer_tick L E r, [])
   | AnchorTakes \<Rightarrow> (r\<lparr>rc_anchors := map_option anchor_take (rc_anchors r)\<rparr>, [])
   | AnchorAnswers p \<Rightarrow> (r\<lparr>rc_anchors := map_option (anchor_finish p) (rc_anchors r)\<rparr>, []))"

fun audit_run :: "audit_library \<Rightarrow> audit_env \<Rightarrow> audit_op list \<Rightarrow> recorder \<Rightarrow> recorder \<times> CanonicalEvent list" where
  "audit_run L E [] r = (r, [])"
| "audit_run L E (op # ops) r = (case audit_step L E op r of (r, es) \<Rightarrow>
     (case audit_run L E ops r of (r, es') \<Rightarrow> (r, es @ es')))"

text \<open>The text the caller supplies is valid UTF-8 and no event is nested to the decoder's limit, and canonical events are those \<^verbatim>\<open>FreezeEvent\<close> makes.\<close>

definition op_ok :: "audit_library \<Rightarrow> audit_op \<Rightarrow> bool" where
  "op_ok L op = (case op of
     OfferEvent ctx event \<Rightarrow> (case FreezeEvent L event of Inl _ \<Rightarrow> True | Inr e \<Rightarrow> genuine L e)
   | OfferCanonical ctx e \<Rightarrow> genuine L e
   | ForceCheckpoint reason \<Rightarrow> al_utf8 L reason
   | CheckpointBarrier ctxErr reason \<Rightarrow> al_utf8 L reason
   | _ \<Rightarrow> True)"

definition open_recorder :: "recorder \<Rightarrow> bool" where
  "open_recorder r \<longleftrightarrow> rc_failure r = nil \<and> \<not> rc_closed r"

lemma sticky_open:
  assumes "sticky x = (r', err)" and "open_recorder r'"
  shows "x = (r', nil) \<and> err = nil"
  using assms by (auto simp: sticky_def failLocked_def Let_def open_recorder_def clearKeyMaterialLocked_def
      split: prod.splits if_splits)

lemma status_open: "status r' = status r \<Longrightarrow> open_recorder r' = open_recorder r"
  by (simp add: status_def open_recorder_def)

lemma failLocked_not_open: "err \<noteq> nil \<Longrightarrow> \<not> open_recorder (fst (failLocked err r))"
  by (simp add: failLocked_def Let_def open_recorder_def clearKeyMaterialLocked_def)

lemma rejectEvent_not_open: "err \<noteq> nil \<Longrightarrow> \<not> open_recorder (fst (rejectEvent err r)) \<and> snd (rejectEvent err r) \<noteq> nil"
  using failLocked_not_open [of err r]
  by (auto simp: rejectEvent_def open_recorder_def failLocked_def Let_def)

lemma bind_session_good:
  assumes "faithful_library L" and "good L O1 r es" and "bind_session L E h r = (r', nil)"
  shows "good L O1 r' es \<and> rc_started r' \<and> status r' = status r \<and> id_Session (hd_ID h) = rc_session r'
    \<and> rc_published r' = rc_published r"
proof (cases "rc_started r")
  case True
  then have "id_Session (hd_ID h) = rc_session r" "startLocked L E r = (r', nil)"
    using assms(3) by (simp_all add: bind_session_def Let_def split: if_splits)
  then show ?thesis using startLocked_good [OF assms(1,2)] by simp
next
  case False
  let ?r = "r\<lparr>rc_session := id_Session (hd_ID h)\<rparr>"
  have o: "rc_options ?r = rc_options r" "rc_key ?r = rc_key r" by simp_all
  have "good L O1 ?r es"
    using assms(2) False matching_cong(1) [OF o] frozen_provenance_cong [OF o(1)] by (simp add: good_def blank_def)
  moreover have "startLocked L E ?r = (r', nil)"
    using assms(3) False by (simp add: bind_session_def Let_def split: if_splits)
  ultimately have "good L O1 r' es \<and> rc_started r' \<and> status r' = status ?r \<and> rc_session r' = rc_session ?r
      \<and> rc_published r' = rc_published ?r" using startLocked_good [OF assms(1)] by blast
  then show ?thesis by (simp add: status_def)
qed

lemma startCheckpointTimer_view: "rview (startCheckpointTimer r) = rview r \<and> status (startCheckpointTimer r) = status r"
  by (simp add: startCheckpointTimer_def rview_def status_def)

lemma RecordCanonical_good:
  assumes lib: "faithful_library L" and g: "open_recorder r \<longrightarrow> good L O1 r es" and e: "genuine L e"
    and a: "RecordCanonical L E ctx e r = (r', err)" and o: "open_recorder r'"
  shows "open_recorder r \<and> good L O1 r' (if err \<noteq> nil then es else es @ [e])"
proof (cases "r' = r \<and> err \<noteq> nil")
  case True
  then show ?thesis using g o by simp
next
  case False
  then obtain ctxErr where c: "ctx = Some ctxErr" "ctxErr 0 = nil" using a by (auto simp: RecordCanonical_def split: option.splits if_splits)
  have v: "validateEventSnapshot L e = nil"
    using a c o rejectEvent_not_open [of "validateEventSnapshot L e" r] by (auto simp: RecordCanonical_def split: if_splits)
  let ?X = "and_then (and_then (r, validateEventOrderLocked (ce_header e) r) (bind_session L E (ce_header e))) (append_event L E e)"
  have main: "open_recorder r" "and_then (sticky ?X) (\<lambda>r. (startCheckpointTimer r, nil)) = (r', err)"
    using a c v False by (auto simp: RecordCanonical_def open_recorder_def split: if_splits)
  obtain r1 where s: "sticky ?X = (r1, nil)" "r' = startCheckpointTimer r1" "err = nil"
  proof (cases "snd (sticky ?X) = nil")
    case True
    then show ?thesis using main(2) that [of "fst (sticky ?X)"] by (cases "sticky ?X") auto
  next
    case bad: False
    then have "sticky ?X = (r', err)" using main(2) by (cases "sticky ?X") (simp add: and_then_def)
    then show ?thesis using sticky_open [OF _ o] bad by auto
  qed
  have o1: "open_recorder r1" using o s(2) status_open startCheckpointTimer_view by metis
  have X: "?X = (r1, nil)" using sticky_open [OF s(1) o1] by simp
  obtain r2 where r2: "and_then (r, validateEventOrderLocked (ce_header e) r) (bind_session L E (ce_header e)) = (r2, nil)"
      and ap: "append_event L E e r2 = (r1, nil)"
    using and_then_nilD [OF X] by blast
  have ord: "validateEventOrderLocked (ce_header e) r = nil" and bd: "bind_session L E (ce_header e) r = (r2, nil)"
    using and_then_nilD [OF r2] by auto
  have b: "good L O1 r2 es \<and> rc_started r2 \<and> status r2 = status r \<and> id_Session (hd_ID (ce_header e)) = rc_session r2
      \<and> rc_published r2 = rc_published r"
    using bind_session_good [OF lib _ bd] g main(1) by blast
  have "good L O1 r1 (es @ [e])"
    using append_event_good [OF lib _ _ e v _ _ ap] b ord validateEventOrder_cong [of r2 r] by auto
  then show ?thesis using s main(1) good_cong [of r' r1] startCheckpointTimer_view by simp
qed

lemma Record_good:
  assumes lib: "faithful_library L" and g: "open_recorder r \<longrightarrow> good L O1 r es"
    and e: "\<forall>e. FreezeEvent L event = Inr e \<longrightarrow> genuine L e"
    and a: "Record L E ctx event r = (r', err)" and o: "open_recorder r'"
  shows "open_recorder r \<and> good L O1 r' (es @ (if err \<noteq> nil then [] else case FreezeEvent L event of Inl _ \<Rightarrow> [] | Inr e \<Rightarrow> [e]))"
proof (cases "r' = r \<and> err \<noteq> nil")
  case True
  then show ?thesis using g o by simp
next
  case False
  then obtain ctxErr where c: "ctx = Some ctxErr" "ctxErr 0 = nil" using a by (auto simp: Record_def split: option.splits if_splits)
  show ?thesis
  proof (cases "FreezeEvent L event")
    case (Inl x)
    then show ?thesis using a c o rejectEvent_not_open [of "ErrInvalidEvent # x" r] by (auto simp: Record_def)
  next
    case (Inr f)
    then have "RecordCanonical L E (Some (\<lambda>n. ctxErr (n + 1))) f r = (r', err)" using a c by (simp add: Record_def)
    from RecordCanonical_good [OF lib g _ this o] e Inr show ?thesis by auto
  qed
qed

lemma sticky_checkpoint_good:
  assumes lib: "faithful_library L" and g: "good L O1 r es" "rc_started r" and u: "al_utf8 L reason"
    and a: "sticky (checkpointLocked L E reason r) = (r', err)" and o: "open_recorder r'"
  shows "good L O1 r' es \<and> rc_started r' \<and> status r' = status r"
  using checkpointLocked_good [OF lib g u] sticky_open [OF a o] by blast

lemma Checkpoint_good:
  assumes lib: "faithful_library L" and g: "open_recorder r \<longrightarrow> good L O1 r es" and u: "al_utf8 L reason"
    and o: "open_recorder (fst (recorder_Checkpoint L E reason r))"
  shows "open_recorder r \<and> good L O1 (fst (recorder_Checkpoint L E reason r)) es"
proof (cases "open_recorder r \<and> rc_started r")
  case False
  then have "fst (recorder_Checkpoint L E reason r) = r" by (auto simp: recorder_Checkpoint_def open_recorder_def)
  then show ?thesis using g o by simp
next
  case True
  then have "recorder_Checkpoint L E reason r = sticky (checkpointLocked L E reason r)"
    by (simp add: recorder_Checkpoint_def open_recorder_def startLocked_def)
  moreover obtain r' err where s: "sticky (checkpointLocked L E reason r) = (r', err)" by (cases "sticky (checkpointLocked L E reason r)")
  ultimately show ?thesis using sticky_checkpoint_good [OF lib _ _ u s] g True o by simp
qed

lemma barrier_good:
  assumes lib: "faithful_library L" and g: "open_recorder r \<longrightarrow> good L O1 r es" and u: "al_utf8 L reason"
    and o: "open_recorder (fst (barrier L E ctxErr reason r))"
  shows "open_recorder r \<and> good L O1 (fst (barrier L E ctxErr reason r)) es"
proof (cases "open_recorder r \<and> rc_started r \<and> ctxErr = nil")
  case False
  then have "fst (barrier L E ctxErr reason r) = r" by (auto simp: barrier_def open_recorder_def)
  then show ?thesis using g o by simp
next
  case True
  show ?thesis
  proof (cases "writeCheckpointLocked L E reason r")
    case (Pair r1 x)
    then have b: "fst (barrier L E ctxErr reason r) = (case x of Inl err \<Rightarrow> fst (failLocked err r1) | Inr c \<Rightarrow> r1)"
      using True by (simp add: barrier_def open_recorder_def startLocked_def failLocked_def Let_def split: sum.split)
    show ?thesis
    proof (cases x)
      case (Inl err)
      then show ?thesis using b o failLocked_not_open [of err r1] writeCheckpoint_error Pair by auto
    next
      case (Inr c)
      then show ?thesis using b writeCheckpoint_good [OF lib _ _ u, of O1 r es E r1 c] Pair g True by auto
    qed
  qed
qed

lemma timer_good:
  assumes lib: "faithful_library L" and g: "open_recorder r \<longrightarrow> good L O1 r es" and o: "open_recorder (timer_tick L E r)"
  shows "open_recorder r \<and> good L O1 (timer_tick L E r) es"
proof (cases "timer_tick L E r = r")
  case True
  then show ?thesis using g o by simp
next
  case False
  let ?r = "r\<lparr>rc_witnessRetryCount := rc_witnessRetryCount r + 1\<rparr>"
  have op: "open_recorder r" "rc_started r"
    using False by (auto simp: timer_tick_def open_recorder_def split: if_splits)
  have g': "good L O1 r es" "good L O1 ?r es" using g op(1) good_cong [of ?r r] by (simp_all add: rview_def)
  have "timer_tick L E r = fst (sticky (checkpointLocked L E ''interval'' r))
      \<or> timer_tick L E r = fst (sticky (checkpointLocked L E ''witness retry'' ?r))"
    using False by (simp add: timer_tick_def split: if_splits)
  moreover have "good L O1 (fst (sticky (checkpointLocked L E reason q))) es"
    if "good L O1 q es" "rc_started q" "al_utf8 L reason" "open_recorder (fst (sticky (checkpointLocked L E reason q)))" for q reason
  proof -
    obtain r' err where s: "sticky (checkpointLocked L E reason q) = (r', err)"
      by (cases "sticky (checkpointLocked L E reason q)")
    show ?thesis using sticky_checkpoint_good [OF lib that(1-3) s] that(4) s by simp
  qed
  ultimately show ?thesis using g' op o faithful_ascii [OF lib] by auto
qed

lemma audit_step_good:
  assumes lib: "faithful_library L" and ok: "op_ok L op" and g: "open_recorder r \<longrightarrow> good L O1 r es"
    and a: "audit_step L E op r = (r', new)" and o: "open_recorder r'"
  shows "good L O1 r' (es @ new)"
proof (cases op)
  case (OfferEvent ctx event)
  obtain q err where q: "Record L E ctx event r = (q, err)" by (cases "Record L E ctx event r")
  have "\<forall>e. FreezeEvent L event = Inr e \<longrightarrow> genuine L e" using ok OfferEvent by (simp add: op_ok_def split: sum.splits)
  from Record_good [OF lib g this q] a o OfferEvent q show ?thesis by (auto simp: audit_step_def)
next
  case (OfferCanonical ctx e)
  obtain q err where q: "RecordCanonical L E ctx e r = (q, err)" by (cases "RecordCanonical L E ctx e r")
  have "genuine L e" using ok OfferCanonical by (simp add: op_ok_def)
  from RecordCanonical_good [OF lib g this q] a o OfferCanonical q show ?thesis by (auto simp: audit_step_def)
next
  case (ForceCheckpoint reason)
  then show ?thesis using Checkpoint_good [OF lib g] a o ok by (auto simp: audit_step_def op_ok_def)
next
  case (CheckpointBarrier ctxErr reason)
  then show ?thesis using barrier_good [OF lib g] a o ok by (auto simp: audit_step_def op_ok_def)
next
  case TimerFires
  then show ?thesis using timer_good [OF lib g] a o by (auto simp: audit_step_def)
next
  case AnchorTakes
  then have r': "rview r' = rview r" "status r' = status r" "new = []" using a by (auto simp: audit_step_def rview_def status_def)
  then show ?thesis using g o status_open [OF r'(2)] good_cong [OF r'(1)] by simp
next
  case (AnchorAnswers p)
  then have r': "rview r' = rview r" "status r' = status r" "new = []" using a by (auto simp: audit_step_def rview_def status_def)
  then show ?thesis using g o status_open [OF r'(2)] good_cong [OF r'(1)] by simp
qed

lemma audit_run_good:
  assumes lib: "faithful_library L" and "list_all (op_ok L) ops" and "open_recorder r \<longrightarrow> good L O1 r es"
    and "audit_run L E ops r = (r', new)"
  shows "open_recorder r' \<longrightarrow> good L O1 r' (es @ new)"
  using assms(2-)
proof (induction ops arbitrary: r es new)
  case (Cons op ops)
  obtain r1 n1 where s: "audit_step L E op r = (r1, n1)" by (cases "audit_step L E op r")
  obtain n2 where n: "audit_run L E ops r1 = (r', n2)" "new = n1 @ n2" using Cons.prems(3) s by (auto split: prod.splits)
  have "open_recorder r1 \<longrightarrow> good L O1 r1 (es @ n1)"
    using audit_step_good [OF lib _ Cons.prems(2) s] Cons.prems(1) by simp
  from Cons.IH [OF _ this n(1)] Cons.prems(1) n(2) show ?case by simp
qed simp

subsection \<open>A new recorder\<close>

definition reader_options :: "recorder \<Rightarrow> bool \<Rightarrow> u64 \<Rightarrow> VerifyOptions" where
  "reader_options r trusted pending = no_options\<lparr>vo_RequireFooter := True, vo_AllowUnverified := chain r = chainNone,
     vo_HMACKey := hmac_key r, vo_PublicKey := (if trusted then case rc_key r of None \<Rightarrow> [] | Some k \<Rightarrow> sk_public k else []),
     vo_MaxPendingBytes := pending\<rparr>"

lemma freezeProvenance_frozen: "freezeProvenance L p = Inr q \<Longrightarrow> \<exists>enc. al_provenance L enc = Some q"
  by (auto simp: freezeProvenance_def split: option.splits)

lemma newSigningKey_ok:
  "newSigningKey L s = Inr k \<Longrightarrow> length (sk_public k) = ed25519_PublicKeySize \<and> sk_id k = KeyID L (sk_public k)"
  by (auto simp: newSigningKey_def split: outcome.splits option.splits if_splits)

lemma NewRecorder_key:
  assumes "rc_key (NewRecorder L opts) = Some k"
  shows "length (sk_public k) = ed25519_PublicKeySize \<and> sk_id k = KeyID L (sk_public k) \<and> chain (NewRecorder L opts) \<noteq> chainNone"
  using assms newSigningKey_ok [of L _ k] chain_names
  by (auto simp: NewRecorder_def Let_def chain_def split: option.splits sum.splits if_splits)

lemma NewRecorder_provenance:
  "ao_Provenance (rc_options (NewRecorder L opts)) = Some p \<Longrightarrow> \<exists>enc. al_provenance L enc = Some p"
  using freezeProvenance_frozen [of L]
  by (auto simp: NewRecorder_def Let_def split: option.splits sum.splits if_splits)

lemma NewRecorder_blank: "blank (NewRecorder L opts) \<and> \<not> rc_started (NewRecorder L opts) \<and> open_recorder (NewRecorder L opts)
    \<and> \<not> rc_closeDone (NewRecorder L opts)"
  by (simp add: blank_def NewRecorder_def Let_def open_recorder_def)

lemma NewRecorder_good:
  assumes "shallow_provenance L (ao_Provenance (rc_options (NewRecorder L opts)))"
  shows "good L (reader_options (NewRecorder L opts) trusted pending) (NewRecorder L opts) []"
proof -
  have "matching L (reader_options (NewRecorder L opts) trusted pending) (NewRecorder L opts)"
    using NewRecorder_key [of L opts] by (auto simp: matching_def reader_options_def no_options_def split: option.split)
  then show ?thesis using assms NewRecorder_provenance NewRecorder_blank by (simp add: good_def frozen_provenance_def)
qed

subsection \<open>Only Close closes\<close>

definition closing :: "recorder \<Rightarrow> bool \<times> bool \<times> go_error" where
  "closing r = (rc_closed r, rc_closeDone r, rc_closeErr r)"

named_theorems closing_rules "operations that leave the recorder open"

lemma closing_and_then:
  assumes "closing (fst x) = c" and "\<And>v. closing v = c \<Longrightarrow> closing (fst (f v)) = c"
  shows "closing (fst (and_then x f)) = c"
  using assms by (cases x) (simp add: and_then_def)

lemma closing_put [closing_rules]: "closing (fst (put E l r)) = closing r"
  by (simp add: put_def Let_def closing_def split: write_answer.split)

lemma closing_flush [closing_rules]: "closing (fst (flushAndSync E r)) = closing r"
  using flushAndSync_effect [of E r] by (auto simp: closing_def)

lemma closing_link [closing_rules]: "closing (fst (link_record L d r)) = closing r"
  by (simp add: link_record_def Let_def closing_def split: option.split outcome.split)

lemma closing_now [closing_rules]: "closing (fst (audit_now E r)) = closing r"
  by (simp add: audit_now_def closing_def)

lemma closing_fail [closing_rules]: "closing (fst (failLocked err r)) = closing r"
  by (simp add: failLocked_def Let_def closing_def clearKeyMaterialLocked_def)

lemma closing_sticky: "closing (fst (sticky x)) = closing (fst x)"
  by (cases x) (simp add: sticky_def closing_fail)

lemma closing_write_sealed [closing_rules]: "closing (fst (write_sealed L E d r)) = closing r"
  by (simp add: write_sealed_def closing_and_then closing_rules split: option.split)

lemma closing_write [closing_rules]: "closing (fst (writeLocked L E d r)) = closing r"
proof -
  have "closing (r\<lparr>rc_tick := t\<rparr>) = closing r" for t by (simp add: closing_def)
  then show ?thesis
    by (simp add: writeLocked_def case_prod_beta closing_rules split: sum.split)
qed

lemma closing_publish [closing_rules]: "closing (fst (publishAnchorLocked d r)) = closing r"
  using publish_view [of d r] by (simp add: closing_def status_def)

lemma closing_start [closing_rules]: "closing (fst (startLocked L E r)) = closing r"
proof -
  have "closing (r\<lparr>rc_started := b, rc_lastCheckpoint := t\<rparr>) = closing r" for r b t by (simp add: closing_def)
  then show ?thesis
    using closing_now [of E r]
    by (simp add: startLocked_def case_prod_beta closing_rules split: sum.split)
qed

lemma closing_writeCheckpoint [closing_rules]: "closing (fst (writeCheckpointLocked L E reason r)) = closing r"
proof -
  have "closing (r\<lparr>rc_checkpointsRecorded := a, rc_sinceCheckpoint := b, rc_lastCheckpoint := c\<rparr>) = closing r" for r a b c
    by (simp add: closing_def)
  then show ?thesis
    using closing_now [of E r]
    by (simp add: writeCheckpointLocked_def case_prod_beta closing_rules split: sum.split)
qed

lemma closing_checkpoint [closing_rules]: "closing (fst (checkpointLocked L E reason r)) = closing r"
  using closing_writeCheckpoint [of L E reason r]
  by (simp add: checkpointLocked_def case_prod_beta split: sum.split)

lemma closing_reject [closing_rules]: "closing (fst (rejectEvent err r)) = closing r"
  by (simp add: rejectEvent_def closing_rules)

lemma closing_bind [closing_rules]: "closing (fst (bind_session L E h r)) = closing r"
  by (simp add: bind_session_def Let_def closing_rules) (simp add: closing_def)

lemma closing_admit [closing_rules]: "closing (fst (admit_event E h r)) = closing r"
  by (simp add: admit_event_def case_prod_beta split: outcome.split) (simp add: closing_def)

lemma closing_append [closing_rules]: "closing (fst (append_event L E e r)) = closing r"
  using closing_now [of E r] closing_write [of L E _ "fst (audit_now E r)"]
  by (auto simp: append_event_def case_prod_beta closing_rules intro!: closing_and_then split: sum.split)

lemma closing_RecordCanonical [closing_rules]: "closing (fst (RecordCanonical L E ctx e r)) = closing r"
proof -
  have t: "closing (startCheckpointTimer v) = closing v" for v by (simp add: startCheckpointTimer_def closing_def)
  show ?thesis
    by (auto simp: RecordCanonical_def closing_rules closing_sticky t intro!: closing_and_then split: option.split)
qed

lemma closing_step: "closing (fst (audit_step L E op r)) = closing r"
proof -
  have tick: "closing (r\<lparr>rc_witnessRetryCount := n\<rparr>) = closing r" "closing (r\<lparr>rc_anchors := a\<rparr>) = closing r" for n a
    by (simp_all add: closing_def)
  have rec: "closing (fst (Record L E ctx event r)) = closing r" for ctx event
    by (simp add: Record_def closing_rules split: option.split sum.split)
  have chk: "closing (fst (recorder_Checkpoint L E reason r)) = closing r" for reason
    by (simp add: recorder_Checkpoint_def closing_sticky closing_and_then closing_rules)
  have bar: "closing (fst (barrier L E ctxErr reason r)) = closing r" for ctxErr reason
    using closing_start [of L E r] closing_writeCheckpoint [of L E reason "fst (startLocked L E r)"]
    by (simp add: barrier_def case_prod_beta closing_rules split: sum.split)
  show ?thesis
    by (cases op) (simp_all add: audit_step_def case_prod_beta rec chk bar tick closing_rules closing_sticky timer_tick_def)
qed

lemma closing_run: "closing (fst (audit_run L E ops r)) = closing r"
  by (induction ops arbitrary: r) (simp_all add: case_prod_beta closing_step)

subsection \<open>Closing\<close>

lemma split_lines_unlines:
  "(\<forall>l \<in> set lines. newline \<notin> set l) \<Longrightarrow> split_lines (unlines lines @ rest) = (lines @ fst (split_lines rest), snd (split_lines rest))"
proof (induction lines)
  case (Cons l lines)
  have one: "newline \<notin> set l \<Longrightarrow> split_lines (l @ newline # tl) = (l # fst (split_lines tl), snd (split_lines tl))" for tl
    by (induction l) (auto simp: case_prod_beta)
  from Cons show ?case by (simp add: unlines_def one)
qed (simp add: unlines_def)

lemma tree_Append_subtrees:
  assumes "tree_Append sha t leaf = Returned t'"
  shows "t_subtrees t' \<noteq> []"
proof -
  have "merge_subtrees sha n ts = Returned us \<Longrightarrow> ts \<noteq> [] \<Longrightarrow> us \<noteq> []" for n ts us
  proof (induction sha n ts arbitrary: us rule: merge_subtrees.induct)
    case (1 sha n ts)
    show ?case
    proof (cases "length ts \<le> n")
      case True
      then show ?thesis using "1.prems" by (simp add: merge_subtrees.simps)
    next
      case False
      with "1.prems" have "\<not> length ts < 2" by (auto simp: merge_subtrees.simps [of sha n ts])
      with False "1.prems"(1) have "merge_subtrees sha n (take (length ts - 2) ts
          @ [hashNode sha (ts ! (length ts - 2)) (ts ! (length ts - 1))]) = Returned us"
        by (simp add: merge_subtrees.simps [of sha n ts] Let_def)
      then show ?thesis using "1.IH" [OF False \<open>\<not> length ts < 2\<close> refl refl] by simp
    qed
  qed
  with assms show ?thesis by (auto simp: tree_Append_def Let_def split: outcome.splits)
qed

definition finished ::
  "audit_library \<Rightarrow> VerifyOptions \<Rightarrow> recorder \<Rightarrow> CanonicalEvent list \<Rightarrow> string list \<Rightarrow> vstate \<Rightarrow> bool" where
  "finished L O1 r es lines v \<longleftrightarrow>
     verify_lines L O1 (Some collect) lines (start_verifying fmempty) = (v, nil)
     \<and> rc_out r = unlines lines \<and> (\<forall>l \<in> set lines. newline \<notin> set l) \<and> vs_footer v \<and> vf_Complete (vs_out v)
     \<and> map heard (vs_consumed v) = es \<and> vs_witnesses v = fmempty \<and> vf_Version (vs_out v) = FormatVersion
     \<and> vf_Chain (vs_out v) = chain r
     \<and> (\<exists>x. tree_Root (al_sha256 L) (vs_tree v) = Returned x)
     \<and> (rc_key r \<noteq> None \<longrightarrow> tree_Size (vs_tree v) \<noteq> 0 \<and> vs_signedThrough v = tree_Size (vs_tree v)
          \<and> (length (vo_PublicKey O1) > 0 \<longrightarrow> vs_trustedThrough v = tree_Size (vs_tree v)))"

lemma footer_finishes:
  assumes lib: "faithful_library L" and ok: "matching L O1 r" and tr: "trail L O1 r es lines v"
    and w: "writeLocked L E (footer_record r now) r = (r', Inr d')"
    and room: "length (rc_out r') \<le> unat (max_pending O1)"
  shows "\<exists>lines w. finished L O1 r' es lines w"
proof -
  have seal: "sealed_by L r (footer_record r now) d'"
    by (rule trail_sealed_by [OF ok tr w]) (simp add: footer_record_def zero_record_def)
  note sh = footer_shape [OF seal lib]
  have d: "dr_TreeRoot (footer_record r now) = []" by (simp add: footer_record_def zero_record_def)
  obtain line view v' where f: "rewritten r (rc_out r @ unlines [line]) r'" "newline \<notin> set line"
      "verify_lines L O1 (Some collect) (lines @ [line]) (start_verifying fmempty)
        = by_type L O1 (Some collect) (length line) view (signed_head r d') v'"
      "passed O1 r r' d' (v\<lparr>vs_line := vs_line v + 1\<rparr>) v'" "linked r r'" "in_step r' v'" "reread L d' view"
    by (rule further_line [OF lib ok tr w d]) (use sh in auto)
  obtain line' t where li: "link_record L d' (r\<lparr>rc_out := rc_out r @ unlines [line'], rc_tick := t\<rparr>) = (r', nil)"
    by (rule writeLocked_effect [OF w])
  note same = reread_eq [OF f(7)] and rw = rewritten_fields [OF f(1), of L O1]
  have head: "signed_head r d' \<longleftrightarrow> rc_key r \<noteq> None" using sh by (simp add: signed_head_def is_head_def)
  have pass: "core v' = core (v\<lparr>vs_line := vs_line v + 1\<rparr>)" using f(4) by (simp add: passed_def)
  have t: "same_order r v" "delivered O1 es (rc_out r) v" "rc_out r = unlines lines" "\<forall>l\<in>set lines. newline \<notin> set l"
    using tr by (auto simp: trail_def)
  have count: "vf_EventCount (vs_out v') = rc_count r" using pass t(1) by (simp add: core_iff same_order_def)
  let ?u = "v'\<lparr>vs_footer := True, vs_out := (vs_out v')\<lparr>vf_Complete := True\<rparr>\<rparr>"
  let ?w = "if signatureRequired O1 \<and> signed_head r d'
    then ?u\<lparr>vs_consumed := vs_consumed v' @ vs_pending v', vs_pending := [], vs_pendingBytes := 0\<rparr> else ?u"
  have run: "verify_lines L O1 (Some collect) (lines @ [line]) (start_verifying fmempty) = (?w, nil)"
    unfolding f(3) using sh same count by (simp add: by_type_def release_collect)
  have consumed: "map heard (vs_consumed ?w) = es"
    using t(2) pass required_has_key [OF ok] head by (auto simp: delivered_def core_iff)
  have tree: "vs_tree ?w = rc_tree r'" using f(4) by (simp add: passed_def chained_to_def)
  have ch: "chain (r\<lparr>rc_out := a, rc_tick := b\<rparr>) = chain r" for a b by (simp add: chain_def)
  note le = link_record_effect [OF li, unfolded ch]
  have root: "\<exists>x. tree_Root (al_sha256 L) (rc_tree r') = Returned x"
  proof (cases "chain r \<noteq> chainNone")
    case True
    then obtain leaf where "tree_Append (al_sha256 L) (rc_tree r) leaf = Returned (rc_tree r')"
      using le by auto
    from tree_Append_subtrees [OF this] show ?thesis by (simp add: tree_Root_def)
  next
    case False
    then have "rc_tree r' = rc_tree r" using le by auto
    moreover obtain x where "tree_Root (al_sha256 L) (rc_tree r) = Returned x"
      using sealed_seal_of [OF ok w] sh d by (auto simp: sealed_def head_sealed_def is_head_def)
    ultimately show ?thesis by simp
  qed
  have size: "tree_Size (rc_tree r') \<noteq> 0 \<and> vs_signedThrough ?w = tree_Size (rc_tree r')
      \<and> (length (vo_PublicKey O1) > 0 \<longrightarrow> vs_trustedThrough ?w = tree_Size (rc_tree r'))" if "rc_key r \<noteq> None"
  proof -
    from that ok have ch: "chain r \<noteq> chainNone" by (auto simp: matching_def)
    then have s: "tree_Size (rc_tree r') = tree_Size (rc_tree r) + 1" using f(5) by (simp add: linked_def)
    have "length (lines @ [line]) \<le> length (rc_out r')" using rw t(3) unlines_length [of "lines @ [line]"] by simp
    then have "length (lines @ [line]) < 2 ^ 64" using room unsigned_less [of "max_pending O1", where ?'a = nat] by simp
    moreover have "unat (of_nat n :: u64) = n" if "n < 2 ^ 64" for n
      using that by (simp add: unsigned_of_nat take_bit_nat_eq_self)
    ultimately have "unat (of_nat (length (lines @ [line])) :: u64) = length (lines @ [line])" by blast
    moreover have "tree_Size (rc_tree r') = of_nat (length (lines @ [line]))"
      using s tr ch by (simp add: trail_def)
    ultimately have "tree_Size (rc_tree r') \<noteq> 0" by (metis length_append_singleton nat.distinct(1) unat_0)
    then show ?thesis using s f(4) head that by (simp add: passed_def)
  qed
  have "finished L O1 r' es (lines @ [line]) ?w"
    using run consumed tree root size rw t(3,4) f(2,6) by (auto simp: finished_def in_step_def)
  then show ?thesis by blast
qed

lemma finished_verifies:
  assumes "matching L O1 r" and "finished L O1 r es lines v"
  shows "\<exists>w. Verify L O1 (Some collect) (rc_out r) nil = (w, nil) \<and> vf_Complete (vs_out w) \<and> map heard (vs_consumed w) = es
    \<and> vf_Integrity (vs_out w) = (chain r \<noteq> chainNone) \<and> vf_Authenticated (vs_out w) = (chain r = chainHMAC)
    \<and> (length (vo_PublicKey O1) > 0 \<longrightarrow> vf_Trusted (vs_out w))"
proof -
  obtain x where x: "tree_Root (al_sha256 L) (vs_tree v) = Returned x" using assms(2) by (auto simp: finished_def)
  have prep: "prepareWitnessVerification L O1 = Inr fmempty"
    using assms(1) by (simp add: prepareWitnessVerification_def matching_def)
  have size: "\<not> (length (vo_PublicKey O1) > 0 \<and> length (vo_PublicKey O1) \<noteq> ed25519_PublicKeySize)"
    using assms(1) by (auto simp: matching_def split: option.splits)
  have sp: "split_lines (rc_out r) = (lines, [])"
    using assms(2) split_lines_unlines [of lines "[]"] by (simp add: finished_def)
  let ?v = "updateCoverage O1 (v\<lparr>vs_out := (vs_out v)\<lparr>vf_Integrity := chain r = chainSHA256 \<or> chain r = chainHMAC,
                vf_Authenticated := chain r = chainHMAC, vf_TreeSize := tree_Size (vs_tree v), vf_TreeRoot := x\<rparr>\<rparr>)"
  have key: "signatureRequired O1 \<longrightarrow> rc_key r \<noteq> None" "length (vo_PublicKey O1) > 0 \<longrightarrow> signatureRequired O1"
    using required_has_key [OF assms(1)] by (auto simp: signatureRequired_def)
  have signed: "signatureRequired O1 \<longrightarrow> vf_Signed (vs_out ?v)" "length (vo_PublicKey O1) > 0 \<longrightarrow> vf_Trusted (vs_out ?v)"
    using key assms(2) by (auto simp: finished_def updateCoverage_def word_gt_0)
  have run: "verify_lines L O1 (Some collect) lines (start_verifying fmempty) = (v, nil)" using assms(2) by (simp add: finished_def)
  have rest: "verify_rest O1 [] nil v = (v, nil)" by (simp add: verify_rest_def MaxRecordSize_def)
  have concl: "conclude L O1 v = (?v, nil)"
    using assms(2) x signed(1) by (simp add: conclude_def finished_def Let_def FormatVersion_def updateCoverage_def)
  have "Verify L O1 (Some collect) (rc_out r) nil = (?v, nil)"
    using size by (simp add: Verify_def prep sp run rest concl)
  moreover have "(chain r = chainSHA256 \<or> chain r = chainHMAC) = (chain r \<noteq> chainNone)"
    using chain_names by (auto simp: chain_def)
  ultimately show ?thesis using assms(2) signed(2) by (simp add: finished_def updateCoverage_def)
qed

lemma write_footer_finishes:
  assumes lib: "faithful_library L" and g: "good L O1 r es" and f: "rc_failure r = nil"
    and w: "write_footer L E r = (r', footer)" and ok: "rc_failure r' = nil" and room: "length (rc_out r') \<le> unat (max_pending O1)"
  shows "\<exists>lines v. finished L O1 r' es lines v \<and> matching L O1 r'"
proof -
  obtain r1 err1 where s: "startLocked L E r = (r1, err1)" by (cases "startLocked L E r")
  have fail: "rc_failure (fst (failLocked err q)) \<noteq> nil" if "err \<noteq> nil" for err q
    using that by (simp add: failLocked_def Let_def clearKeyMaterialLocked_def)
  have "err1 = nil" using w f s ok fail [of err1 r1] by (auto simp: write_footer_def split: if_splits)
  note g1 = startLocked_good [OF lib g s [unfolded this]]
  obtain r2 x where n: "audit_now E r1 = (r2, x)" by (cases "audit_now E r1")
  obtain now where now: "x = Inr now"
    using w f s \<open>err1 = nil\<close> n ok fail audit_now_error [of E r1 r2] by (cases x) (auto simp: write_footer_def)
  obtain r3 y where wr: "writeLocked L E (footer_record r2 now) r2 = (r3, y)" by (cases "writeLocked L E (footer_record r2 now) r2")
  obtain d where d: "y = Inr d"
    using w f s \<open>err1 = nil\<close> n now wr ok fail writeLocked_error [of L E _ r2 r3] by (cases y) (auto simp: write_footer_def)
  have r': "r' = finish_footer E d r3" using w f s \<open>err1 = nil\<close> n now wr d by (simp add: write_footer_def)
  obtain r4 err4 where fl: "flushAndSync E (fst (publishAnchorLocked d r3)) = (r4, err4)"
    by (cases "flushAndSync E (fst (publishAnchorLocked d r3))")
  have "err4 = nil" using r' fl ok fail [of err4 r4] by (auto simp: finish_footer_def split: if_splits)
  then have r'': "r' = r4 \<or> r' = r4\<lparr>rc_durableCount := rc_count r4\<rparr>" using r' fl by (auto simp: finish_footer_def)
  have v4: "rview r4 = rview r3"
    using flushAndSync_effect [of E "fst (publishAnchorLocked d r3)"] fl publish_view [of d r3] by (auto simp: rview_def)
  have v: "rview r' = rview r3" using r'' v4 by (auto simp: rview_def)
  have g2: "good L O1 r2 es" "rc_started r2" using g1 good_cong [of r2 r1] audit_now_view [of E r1] n by (simp_all add: rview_def)
  have m2: "matching L O1 r2" using g2(1) by (simp add: good_def)
  obtain line t where li: "link_record L d (r2\<lparr>rc_out := rc_out r2 @ unlines [line], rc_tick := t\<rparr>) = (r3, nil)"
    by (rule writeLocked_effect [OF wr [unfolded d]])
  have rw: "rewritten r2 (rc_out r2 @ unlines [line]) r3" using link_record_effect [OF li] by (auto simp: rewritten_def)
  have room3: "length (rc_out r3) \<le> unat (max_pending O1)" using room v by (simp add: rview_def)
  then have "length (rc_out r2) \<le> unat (max_pending O1)" using rewritten_view [OF rw] by simp
  then obtain lines u where "trail L O1 r2 es lines u" using g2 by (auto simp: good_def)
  from footer_finishes [OF lib m2 this wr [unfolded d] room3] obtain lines w where "finished L O1 r3 es lines w" by blast
  moreover have o: "rc_options r' = rc_options r3" "rc_key r' = rc_key r3" using v by (simp_all add: rview_def)
  moreover have o2: "rc_options r3 = rc_options r2" "rc_key r3 = rc_key r2" using rewritten_view [OF rw] by simp_all
  ultimately have "finished L O1 r' es lines w"
    using v matching_cong(2) [OF o] by (simp add: finished_def rview_def)
  moreover have "matching L O1 r'" using m2 matching_cong(1) [OF o] matching_cong(1) [OF o2] by simp
  ultimately show ?thesis by blast
qed

end
