(* ===== verification/AuditSafety.thy ===== *)
theory AuditSafety
  imports AuditLog
begin

text \<open>
  The properties of the audit package beyond the agreement of writer and reader: what a nil result of \<^verbatim>\<open>Close\<close> means when an
  external witness is required, the accounting of the anchor's queue, and a concrete recorder with its log.
\<close>

subsection \<open>A concrete library\<close>

definition zeros :: "nat \<Rightarrow> string" where
  "zeros n = replicate n CHR ''0''"

definition demo_header :: Header where
  "demo_header = zero_header\<lparr>hd_ID := \<lparr>id_Session = 7, id_Stream = ''s'', id_Sequence = 1\<rparr>\<rparr>"

definition demo_event :: CanonicalEvent where
  "demo_event = \<lparr>ce_header = demo_header, ce_kind = ''input.button'', ce_payload = ''{}''\<rparr>"

definition demo_of :: "string \<Rightarrow> diskRecord" where
  "demo_of t =
     (if t = ''manifest'' then zero_record\<lparr>dr_Version := 3, dr_RecordType := t, dr_Chain := chainSHA256,
        dr_ControlSchema := ControlSchemaVersion, dr_Durability := ''flush-every-record'', dr_Session := Some 7,
        dr_Hash := zeros 64, dr_TreeRoot := zeros 64, dr_Signature := zeros 128, dr_KeyID := zeros 16,
        dr_PublicKey := zeros 64\<rparr>
      else if t = ''event'' then zero_record\<lparr>dr_Version := 3, dr_RecordType := t, dr_Kind := ''input.button'',
        dr_Payload := ''{}'', dr_PreviousHash := zeros 64, dr_Hash := zeros 64\<rparr>
      else zero_record\<lparr>dr_Version := 3, dr_RecordType := t, dr_EventCount := 1, dr_PreviousHash := zeros 64,
        dr_Hash := zeros 64, dr_TreeSize := 2, dr_TreeRoot := zeros 64, dr_Signature := zeros 128\<rparr>)"

definition wire_list :: "diskRecord \<Rightarrow> string list" where
  "wire_list d = [''version'', ''record_type'', ''recorded_at'', ''tree_size'']
     @ map fst (filter (\<lambda>x. \<not> snd x) (zero_fields d))"

text \<open>Its digests and signatures are constants, and a record's line is its type.\<close>

definition demo_library :: audit_library where
  "demo_library = \<lparr>al_sha256 = (\<lambda>_. replicate 32 0), al_hmac = (\<lambda>_ _. replicate 32 0), al_ed25519 = (\<lambda>_ _ _. True),
     al_RFC3339Nano = (\<lambda>_. []),
     al_Marshal = (\<lambda>d. if d = demo_of (dr_RecordType d) \<and> newline \<notin> set (dr_RecordType d) then Some (dr_RecordType d) else None),
     al_MarshalV1 = (\<lambda>_. None), al_MarshalProvenance = (\<lambda>_. None), al_MarshalHeader = (\<lambda>_. Some []), al_utf8 = (\<lambda>_. True),
     al_valid = (\<lambda>_. True), al_tokens = (\<lambda>_. [Some (Text [])]),
     al_fields = (\<lambda>line. Some (fmap_of_list (map (\<lambda>n. (n, [])) (wire_list (demo_of line))))),
     al_int = (\<lambda>_. Some 3), al_record = (\<lambda>line. Some (demo_of line)), al_provenance = (\<lambda>_. None),
     al_envelope = (\<lambda>_. Some (Some demo_header)), al_compact = (\<lambda>s. s)\<rparr>"

definition demo_signer :: signer where
  "demo_signer = \<lparr>sg_Public = Returned (Some (replicate 32 0)), sg_Sign = (\<lambda>_ _. Returned (Inr (replicate 64 0)))\<rparr>"

definition demo_env :: audit_env where
  "demo_env = \<lparr>ae_now = (\<lambda>_. Returned 0), ae_write = (\<lambda>_. Wrote), ae_flush = (\<lambda>_. Returned None), ae_sync = None\<rparr>"

lemma wire_list_fields: "dr_Header d = None \<Longrightarrow> set (wire_list d) = wire_fields d"
  by (auto simp: wire_list_def wire_fields_def image_iff)

lemma demo_of_shape: "dr_Header (demo_of t) = None \<and> dr_Provenance (demo_of t) = None \<and> dr_Version (demo_of t) = 3"
  by (simp add: demo_of_def zero_record_def)

lemma demo_library_faithful: "faithful_library demo_library"
proof -
  have "decodes_to demo_library line d" if a: "al_Marshal demo_library d = Some line" for d line
  proof -
    have d: "d = demo_of line" "newline \<notin> set line"
      using a by (auto simp: demo_library_def split: if_splits)
    have "fset (fmdom (fmap_of_list (map (\<lambda>n. (n, [] :: string)) (wire_list d)))) = wire_fields d"
      using wire_list_fields [of d] demo_of_shape [of line] d(1)
      by (simp add: fmdom_fmap_of_list fset_of_list.rep_eq image_image)
    moreover have "rejectDuplicateJSONFields demo_library line = nil"
      by (simp add: rejectDuplicateJSONFields_def demo_library_def numeral_eq_Suc next_token_def)
    moreover have "fmlookup (fmap_of_list (map (\<lambda>n. (n, [] :: string)) (wire_list d))) ''version'' = Some []"
      by (simp add: fmlookup_of_list wire_list_def)
    ultimately show ?thesis using d demo_of_shape [of line]
      by (simp add: decodes_to_def demo_library_def)
  qed
  then show ?thesis by (simp add: faithful_library_def) (simp add: demo_library_def)
qed

definition demo_recorder :: recorder where
  "demo_recorder = NewRecorder demo_library [WithSigner (Some demo_signer), WithCheckpoints 0 0]"

definition demo_ops :: "audit_op list" where
  "demo_ops = [OfferCanonical (Some (\<lambda>_. nil)) demo_event]"

lemma demo_ops_ok: "list_all (op_ok demo_library) demo_ops"
  by (simp add: demo_ops_def op_ok_def genuine_def shallow_def demo_library_def demo_event_def)

lemma recorded_run:
  "snd (audit_run demo_library demo_env demo_ops demo_recorder) = [demo_event]
   \<and> snd (Close demo_library demo_env [] (fst (audit_run demo_library demo_env demo_ops demo_recorder))) = nil
   \<and> rc_out (fst (Close demo_library demo_env [] (fst (audit_run demo_library demo_env demo_ops demo_recorder))))
      = unlines [''manifest'', ''event'', ''footer'']"
  by code_simp

subsection \<open>A way around the wire schema\<close>

text \<open>The schema is chosen by the field whose name is exactly \<open>version\<close>; \<^verbatim>\<open>encoding/json\<close> decodes
  \<open>Version\<close> into the record too. Where the two differ, no field is checked, whatever version the record ends up with.\<close>

lemma foreign_version_skips_schema:
  assumes "al_utf8 L line" and "rejectDuplicateJSONFields L line = nil" and "al_fields L line = Some present"
    and "fmlookup present ''version'' = Some raw" and "al_int L raw = Some n" and "n > FormatVersion"
    and "al_record L line = Some d" and "fmlookup present ''provenance'' = None"
  shows "decodeDiskRecord L line = Inr d"
  using assms by (simp add: decodeDiskRecord_def)

subsection \<open>The log of a closed recorder\<close>



subsection \<open>Required witnesses\<close>

text \<open>A footer that is on its way is the tail of the chain.\<close>

lemma written_tail:
  assumes "writeLocked L E d r = (r', Inr d')"
  shows "(chain r \<noteq> chainNone \<longrightarrow> rc_previous r' = dr_Hash d') \<and> rc_options r' = rc_options r"
proof -
  obtain line t where "link_record L d' (r\<lparr>rc_out := rc_out r @ unlines [line], rc_tick := t\<rparr>) = (r', nil)"
    by (rule writeLocked_effect [OF assms])
  then show ?thesis
    by (auto simp: link_record_def Let_def chain_def split: option.splits outcome.splits if_splits)
qed

lemma startLocked_options: "startLocked L E r = (r', nil) \<Longrightarrow> rc_options r' = rc_options r"
proof (cases "rc_started r")
  case False
  assume a: "startLocked L E r = (r', nil)"
  obtain r1 x where n: "audit_now E r = (r1, x)" by (cases "audit_now E r")
  obtain now where now: "x = Inr now"
    using a False n audit_now_error [of E r r1] by (cases x) (auto simp: startLocked_def split: if_splits)
  let ?r2 = "r1\<lparr>rc_started := True, rc_lastCheckpoint := now\<rparr>"
  obtain r3 y where w: "writeLocked L E (manifest_record E r1 now) ?r2 = (r3, y)"
    by (cases "writeLocked L E (manifest_record E r1 now) ?r2")
  obtain d where d: "y = Inr d"
    using a False n now w writeLocked_error [of L E _ ?r2 r3] by (cases y) (auto simp: startLocked_def split: if_splits)
  have "r' = fst (publishAnchorLocked d r3)" using a False n now w d by (simp add: startLocked_def split: if_splits)
  then have "rc_options r' = rc_options r3" using publish_view [of d r3] by (simp add: rview_def)
  moreover have "rc_options r1 = rc_options r" using audit_now_view [of E r] n by (simp add: rview_def)
  moreover have "rc_options r3 = rc_options ?r2" using written_tail w d by blast
  ultimately show ?thesis by simp
qed (simp add: startLocked_def)

lemma write_footer_tail:
  assumes f: "rc_failure r = nil" and w: "write_footer L E r = (r', footer)" and ok: "rc_failure r' = nil"
  shows "rc_options r' = rc_options r \<and> (\<exists>d. footer = Some d \<and> (chain r \<noteq> chainNone \<longrightarrow> rc_previous r' = dr_Hash d))"
proof -
  have fail: "rc_failure (fst (failLocked err q)) \<noteq> nil" if "err \<noteq> nil" for err q
    using that by (simp add: failLocked_def Let_def clearKeyMaterialLocked_def)
  obtain r1 err1 where s: "startLocked L E r = (r1, err1)" by (cases "startLocked L E r")
  have e1: "err1 = nil" using w f s ok fail [of err1 r1] by (auto simp: write_footer_def split: if_splits)
  obtain r2 x where n: "audit_now E r1 = (r2, x)" by (cases "audit_now E r1")
  obtain now where now: "x = Inr now"
    using w f s e1 n ok fail audit_now_error [of E r1 r2] by (cases x) (auto simp: write_footer_def)
  obtain r3 y where wr: "writeLocked L E (footer_record r2 now) r2 = (r3, y)" by (cases "writeLocked L E (footer_record r2 now) r2")
  obtain d where d: "y = Inr d"
    using w f s e1 n now wr ok fail writeLocked_error [of L E _ r2 r3] by (cases y) (auto simp: write_footer_def)
  have r': "r' = finish_footer E d r3" "footer = Some d" using w f s e1 n now wr d by (simp_all add: write_footer_def)
  obtain r4 err4 where fl: "flushAndSync E (fst (publishAnchorLocked d r3)) = (r4, err4)"
    by (cases "flushAndSync E (fst (publishAnchorLocked d r3))")
  have "err4 = nil" using r' fl ok fail [of err4 r4] by (auto simp: finish_footer_def split: if_splits)
  then have "r' = r4 \<or> r' = r4\<lparr>rc_durableCount := rc_count r4\<rparr>" using r' fl by (auto simp: finish_footer_def)
  moreover have "rview r4 = rview r3"
    using flushAndSync_effect [of E "fst (publishAnchorLocked d r3)"] fl publish_view [of d r3] by (auto simp: rview_def)
  ultimately have v: "rc_options r' = rc_options r3" "rc_previous r' = rc_previous r3" by (auto simp: rview_def)
  have o: "rc_options r2 = rc_options r1" using audit_now_view [of E r1] n by (simp add: rview_def)
  have o1: "rc_options r1 = rc_options r" using startLocked_options s e1 by blast
  then have "chain r2 = chain r" using o by (simp add: chain_def)
  then show ?thesis using v r'(2) written_tail [OF wr [unfolded d]] o o1 by simp
qed

lemma witness_satisfied:
  assumes "requiredWitnessErrorLocked (Some d) r = nil" and "rc_anchors r = Some a"
  shows "an_failures a = 0 \<and> an_dropped a = 0 \<and> (\<exists>w. an_lastReceipt a = Some w
    \<and> cp_RecordType (wr_Checkpoint w) = ''footer'' \<and> cp_Session (wr_Checkpoint w) = rc_session r
    \<and> cp_EventCount (wr_Checkpoint w) = rc_count r \<and> cp_ChainHead (wr_Checkpoint w) = dr_Hash d)"
  using assms by (auto simp: requiredWitnessErrorLocked_def anchor_stats_def Let_def word_gt_0 split: if_splits option.splits)

text \<open>
  C17. With \<^verbatim>\<open>WithRequiredWitness\<close>, a nil result of \<^verbatim>\<open>Close\<close> means that no publication failed or was
  dropped, and that the last acknowledged checkpoint is the footer of this session, with all its events and with the tail
  of the hash chain as its chain head.
\<close>

theorem required_witness_acknowledged:
  assumes "ao_RequireWitness (rc_options r)" and "\<not> rc_closeDone r" and "rc_failure r = nil"
    and "Close L E ps r = (r', nil)"
  shows "\<exists>a w. rc_anchors r' = Some a \<and> an_failures a = 0 \<and> an_dropped a = 0 \<and> an_lastReceipt a = Some w
    \<and> cp_RecordType (wr_Checkpoint w) = ''footer'' \<and> cp_Session (wr_Checkpoint w) = rc_session r'
    \<and> cp_EventCount (wr_Checkpoint w) = rc_count r'
    \<and> (chain r \<noteq> chainNone \<longrightarrow> cp_ChainHead (wr_Checkpoint w) = rc_previous r')"
proof -
  let ?r = "r\<lparr>rc_timerStopping := True, rc_closed := True\<rparr>"
  obtain f footer where f: "write_footer L E ?r = (f, footer)" by (cases "write_footer L E ?r")
  let ?f = "f\<lparr>rc_anchors := map_option (anchor_stop ps) (rc_anchors f)\<rparr>"
  have r': "r' = (clearKeyMaterialLocked ?f)\<lparr>rc_closeErr := nil, rc_closeDone := True\<rparr>" and ok: "rc_failure f = nil"
      and req: "ao_RequireWitness (rc_options f) \<longrightarrow> requiredWitnessErrorLocked footer ?f = nil"
    using assms(2,4) f by (auto simp: Close_def Let_def closeInternal_def split: if_splits)
  obtain d where d: "rc_options f = rc_options r" "footer = Some d" "chain r \<noteq> chainNone \<longrightarrow> rc_previous f = dr_Hash d"
  proof -
    have ch: "chain ?r = chain r" by (simp add: chain_def)
    show ?thesis using write_footer_tail [OF _ f ok] assms(3) that unfolding ch by auto
  qed
  have q: "requiredWitnessErrorLocked (Some d) ?f = nil" using req d(1,2) assms(1) by simp
  then obtain a where a: "rc_anchors ?f = Some a" by (cases "rc_anchors ?f") (auto simp: requiredWitnessErrorLocked_def)
  from witness_satisfied [OF q this] obtain w where w: "an_failures a = 0" "an_dropped a = 0" "an_lastReceipt a = Some w"
      "cp_RecordType (wr_Checkpoint w) = ''footer''" "cp_Session (wr_Checkpoint w) = rc_session f"
      "cp_EventCount (wr_Checkpoint w) = rc_count f" "cp_ChainHead (wr_Checkpoint w) = dr_Hash d" by auto
  moreover have "rc_anchors r' = Some a" "rc_session r' = rc_session f" "rc_count r' = rc_count f" "rc_previous r' = rc_previous f"
    using a r' by (simp_all add: clearKeyMaterialLocked_def)
  ultimately show ?thesis using w d(3) by auto
qed

definition witnessed_recorder :: recorder where
  "witnessed_recorder = fst (audit_run demo_library demo_env demo_ops
     (NewRecorder demo_library [WithSigner (Some demo_signer), WithCheckpoints 0 0, WithAnchor True, WithRequiredWitness True]))"

lemma witnessed_run:
  "ao_RequireWitness (rc_options witnessed_recorder) \<and> \<not> rc_closeDone witnessed_recorder \<and> rc_failure witnessed_recorder = nil
   \<and> snd (Close demo_library demo_env [Acknowledged 1, Acknowledged 2] witnessed_recorder) = nil
   \<and> rc_count (fst (Close demo_library demo_env [Acknowledged 1, Acknowledged 2] witnessed_recorder)) = 1
   \<and> chain witnessed_recorder \<noteq> chainNone"
  unfolding witnessed_recorder_def by code_simp

theorem required_witness_acknowledged_witness:
  "\<exists>a w. rc_anchors (fst (Close demo_library demo_env [Acknowledged 1, Acknowledged 2] witnessed_recorder)) = Some a
    \<and> an_failures a = 0 \<and> an_lastReceipt a = Some w \<and> cp_RecordType (wr_Checkpoint w) = ''footer''
    \<and> cp_EventCount (wr_Checkpoint w) = 1"
proof -
  have c: "Close demo_library demo_env [Acknowledged 1, Acknowledged 2] witnessed_recorder
      = (fst (Close demo_library demo_env [Acknowledged 1, Acknowledged 2] witnessed_recorder), nil)"
    using witnessed_run by (simp add: prod_eq_iff)
  show ?thesis using required_witness_acknowledged [OF _ _ _ c] witnessed_run by auto
qed

subsection \<open>The anchor's accounts\<close>

datatype anchor_event = Publish Checkpoint | Take | Answer publication

fun anchor_act :: "anchor_event \<Rightarrow> anchorRunner \<Rightarrow> anchorRunner" where
  "anchor_act (Publish c) a = anchor_publish c a"
| "anchor_act Take a = anchor_take a"
| "anchor_act (Answer p) a = anchor_finish p a"

definition published_count :: "anchor_event list \<Rightarrow> nat" where
  "published_count acts = length (filter (\<lambda>x. case x of Publish _ \<Rightarrow> True | _ \<Rightarrow> False) acts)"

definition in_hand :: "anchorRunner \<Rightarrow> nat" where
  "in_hand a = length (an_queue a) + (case an_active a of None \<Rightarrow> 0 | Some _ \<Rightarrow> 1)"

definition accounted :: "anchorRunner \<Rightarrow> u64" where
  "accounted a = an_sent a + an_failures a + an_dropped a + of_nat (in_hand a)"

definition queue_bounded :: "anchorRunner \<Rightarrow> bool" where
  "queue_bounded a \<longleftrightarrow> 0 < an_depth a \<and> length (an_queue a) \<le> an_depth a"

lemmas anchor_defs = accounted_def in_hand_def queue_bounded_def anchor_drop_def anchor_failed_def

lemma publish_accounts: "queue_bounded a \<Longrightarrow> accounted (anchor_publish c a) = accounted a + 1 \<and> queue_bounded (anchor_publish c a)"
  by (cases "an_queue a") (auto simp: anchor_publish_def anchor_defs split: option.split)

lemma take_accounts: "accounted (anchor_take a) = accounted a \<and> (queue_bounded a \<longrightarrow> queue_bounded (anchor_take a))
    \<and> (an_active (anchor_take a) = None \<longrightarrow> length (an_queue (anchor_take a)) = length (an_queue a) - 1)
    \<and> (an_active a = None \<longrightarrow> length (an_queue (anchor_take a)) = length (an_queue a) - 1)
    \<and> (an_active a \<noteq> None \<longrightarrow> anchor_take a = a)"
  by (cases "an_queue a"; cases "an_active a") (auto simp: anchor_take_def anchor_defs)

lemma finish_accounts: "accounted (anchor_finish p a) = accounted a \<and> (queue_bounded a \<longrightarrow> queue_bounded (anchor_finish p a))
    \<and> an_active (anchor_finish p a) = None \<and> an_queue (anchor_finish p a) = an_queue a"
  by (cases "an_active a"; cases p) (auto simp: anchor_finish_def anchor_defs)

lemma drain_accounts:
  "accounted (anchor_drain n ps a) = accounted a \<and> (queue_bounded a \<longrightarrow> queue_bounded (anchor_drain n ps a))"
  by (induction n arbitrary: ps a) (simp_all add: Let_def take_accounts finish_accounts)

lemma drain_empties:
  "in_hand a \<le> n \<Longrightarrow> an_queue (anchor_drain n ps a) = [] \<and> an_active (anchor_drain n ps a) = None"
proof (induction n arbitrary: ps a)
  case (Suc n)
  let ?t = "anchor_take a"
  let ?f = "anchor_finish (if ps = [] then TimedOut else hd ps) ?t"
  note t = take_accounts [of a] and f = finish_accounts [of "if ps = [] then TimedOut else hd ps" ?t]
  show ?case
  proof (cases "an_active ?t = None")
    case True
    then have "in_hand ?t = in_hand a - 1" using t by (cases "an_active a") (auto simp: in_hand_def)
    show ?thesis
    proof (cases "in_hand a = 0")
      case True
      then have "a = ?t" by (auto simp: in_hand_def anchor_take_def split: option.splits)
      moreover have "anchor_drain m ps a = a" for m ps
        using True by (induction m) (auto simp: Let_def in_hand_def anchor_take_def split: option.splits)
      ultimately show ?thesis using True by (auto simp: in_hand_def split: option.splits)
    next
      case False
      then have "in_hand ?t \<le> n" using \<open>in_hand ?t = in_hand a - 1\<close> Suc.prems by simp
      with Suc.IH [OF this] True show ?thesis by (simp add: Let_def)
    qed
  next
    case False
    have "in_hand ?f \<le> n"
      using Suc.prems f t False by (cases "an_active a") (auto simp: in_hand_def)
    with Suc.IH [OF this] show ?thesis by (simp add: Let_def False del: not_None_eq)
  qed
qed (auto simp: in_hand_def split: option.splits)

lemma acts_account:
  "queue_bounded a \<Longrightarrow> accounted (fold anchor_act acts a) = accounted a + of_nat (published_count acts)
    \<and> queue_bounded (fold anchor_act acts a)"
proof (induction acts arbitrary: a)
  case (Cons x acts)
  have "accounted (anchor_act x a) = accounted a + of_nat (published_count [x]) \<and> queue_bounded (anchor_act x a)"
    using Cons.prems publish_accounts take_accounts finish_accounts
    by (cases x) (auto simp: published_count_def)
  then show ?case using Cons.IH [of "anchor_act x a"] by (cases x) (auto simp: published_count_def)
qed (simp add: published_count_def)

text \<open>
  C19. No checkpoint is lost without a trace: however publications, the worker's steps and the adapter's answers interleave,
  the queue never exceeds its depth and every published checkpoint is counted as acknowledged, failed or dropped, or is
  still queued or in the adapter's hands; once the runner has been stopped, nothing is left and the three counters add up.
\<close>

theorem anchor_accounts:
  "case fold anchor_act acts (newAnchorRunner depth) of a \<Rightarrow>
     length (an_queue a) \<le> an_depth a
     \<and> an_sent a + an_failures a + an_dropped a + of_nat (in_hand a) = of_nat (published_count acts)
     \<and> an_queue (anchor_stop ps a) = [] \<and> an_active (anchor_stop ps a) = None
     \<and> an_sent (anchor_stop ps a) + an_failures (anchor_stop ps a) + an_dropped (anchor_stop ps a) = of_nat (published_count acts)"
proof -
  let ?a = "fold anchor_act acts (newAnchorRunner depth)"
  have "queue_bounded (newAnchorRunner depth)" "accounted (newAnchorRunner depth) = 0"
    by (simp_all add: newAnchorRunner_def anchor_defs)
  then have a: "accounted ?a = of_nat (published_count acts)" "queue_bounded ?a" using acts_account by simp_all
  have "in_hand ?a \<le> Suc (length (an_queue ?a))" by (simp add: in_hand_def split: option.split)
  note d = drain_empties [OF this, of ps]
  have "accounted (anchor_drain (Suc (length (an_queue ?a))) ps ?a) = of_nat (published_count acts)"
    using drain_accounts a(1) by (simp del: anchor_drain.simps)
  then show ?thesis using a d unfolding anchor_stop_def by (simp add: anchor_defs del: anchor_drain.simps)
qed

end
