(* ===== verification/AuditWitness.thy ===== *)
theory AuditWitness
  imports AuditSafety
begin

text \<open>
  What a retained checkpoint proves. Two logs that verify against the same checkpoint agree, in everything the hash chain
  covers, on every record up to and including the checkpoint's own, unless two of the byte strings hashed in them
  collide. The chain may be plain (SHA-256) or keyed (HMAC), in either log.
\<close>

subsection \<open>The chain of a verified log\<close>

text \<open>What the hash of a version 3 record covers, as a list of fields, and as the bytes that are hashed.\<close>

definition covered_fields :: "audit_library \<Rightarrow> diskRecord \<Rightarrow> string list" where
  "covered_fields L d = v3_fields L d @ [case provenance_bytes L d of None \<Rightarrow> [] | Some p \<Rightarrow> p]"

definition hashed_bytes :: "audit_library \<Rightarrow> diskRecord \<Rightarrow> bytes" where
  "hashed_bytes L d = concat (map text_field (''teleop-audit-v3'' # covered_fields L d))"

text \<open>The digest of a chain, and the hash of a record under it.\<close>

definition digest_under :: "audit_library \<Rightarrow> bytes \<Rightarrow> string \<Rightarrow> digest" where
  "digest_under L key c = (if c = chainHMAC then al_hmac L key else al_sha256 L)"

definition hash_of :: "audit_library \<Rightarrow> digest \<Rightarrow> diskRecord \<Rightarrow> string" where
  "hash_of L D d = hex_EncodeToString (D (hashed_bytes L d))"

fun hash_chain :: "audit_library \<Rightarrow> digest \<Rightarrow> string \<Rightarrow> diskRecord list \<Rightarrow> bool" where
  "hash_chain L D previous [] = True"
| "hash_chain L D previous (d # ds) \<longleftrightarrow>
     dr_PreviousHash d = previous \<and> dr_Hash d = hash_of L D d \<and> hash_chain L D (dr_Hash d) ds"

lemma recordHashV3_hash: "recordHashV3 L d c k = Inr h \<Longrightarrow> h = hash_of L (digest_under L k c) d"
  by (auto simp: recordHashV3_def newChainDigest_def hash_of_def digest_under_def hashed_bytes_def covered_fields_def v3_input_def
      chainSHA256_def chainHMAC_def split: option.splits if_splits)

lemma bad_line_error [simp]: "bad_line \<noteq> nil"
  by (simp add: bad_line_def)

lemma recordHashV3_error': "recordHashV3 L d c k = Inl err \<Longrightarrow> err \<noteq> nil"
  by (auto simp: recordHashV3_def newChainDigest_def split: option.splits sum.splits if_splits)

lemma decode_error: "decodeDiskRecord L line = Inl err \<Longrightarrow> err \<noteq> nil"
  by (auto simp: decodeDiskRecord_def split: if_splits option.splits)

subsection \<open>What the stages leave\<close>

text \<open>The part of the verifier's state that the chain, the tree and the retained checkpoints make up.\<close>

definition ledger :: "vstate \<Rightarrow> string \<times> u64 \<times> (u64, Checkpoint) fmap \<times> int \<times> string \<times> nat" where
  "ledger v = (vs_previous v, tree_Size (vs_tree v), vs_witnesses v, vf_Version (vs_out v), vf_Chain (vs_out v), vs_line v)"

lemma ledger_deliver: "ledger (fst (deliver c rs v)) = ledger v"
  by (induction c rs v rule: deliver.induct) (auto simp: ledger_def Let_def split: option.split)

lemma ledger_release: "ledger (fst (release_if_verified O1 c s v)) = ledger v"
  using ledger_deliver [of c "vs_pending v" v]
  by (auto simp: release_if_verified_def releasePending_def ledger_def split: prod.split)

lemma ledger_and_then:
  "ledger (fst x) = l \<Longrightarrow> (\<And>v. ledger v = l \<Longrightarrow> ledger (fst (f v)) = l) \<Longrightarrow> ledger (fst (and_then x f)) = l"
  by (cases x) (simp add: and_then_def)

lemma ledger_event: "ledger (fst (verify_event L O1 c n d v)) = ledger v"
proof -
  have i: "ledger (fst (event_identity h d v)) = ledger v" for h v
    by (auto simp: event_identity_def ledger_def fail_if_def Let_def split: option.split)
  have o: "ledger (fst (event_order h v)) = ledger v" for h v
    by (auto simp: event_order_def ledger_def split: outcome.split prod.split)
  have a: "ledger (fst (accept_event O1 c n r v)) = ledger v" for r v
    using ledger_deliver [of c "[r]" v] by (auto simp: accept_event_def ledger_def Let_def)
  show ?thesis unfolding verify_event_def
    by (auto split: sum.split intro!: ledger_and_then simp: i o a)
qed

lemma ledger_by_type: "ledger (fst (by_type L O1 c n d s v)) = ledger v"
proof -
  have "ledger (v\<lparr>vs_out := (vs_out v)\<lparr>vf_Checkpoints := x\<rparr>\<rparr>) = ledger v"
    "ledger (v\<lparr>vs_footer := b, vs_out := (vs_out v)\<lparr>vf_Complete := b\<rparr>\<rparr>) = ledger v" for x b
    by (simp_all add: ledger_def)
  then show ?thesis by (simp add: by_type_def ledger_release ledger_event)
qed

text \<open>The digest under which a verifier with these options follows a chain.\<close>

abbreviation follows :: "audit_library \<Rightarrow> VerifyOptions \<Rightarrow> string \<Rightarrow> digest" where
  "follows L O1 c \<equiv> digest_under L (vo_HMACKey O1) c"

lemma check_chain_ok:
  assumes "check_chain L O1 d v = (v1, nil)" and "dr_Version d = 3" and "vf_Chain (vs_out v) \<noteq> chainNone"
  shows "dr_PreviousHash d = vs_previous v \<and> dr_Hash d = hash_of L (follows L O1 (vf_Chain (vs_out v))) d
    \<and> v1 = v\<lparr>vs_previous := dr_Hash d\<rparr>"
proof -
  from assms have "recordHashV3 L d (vf_Chain (vs_out v)) (vo_HMACKey O1) = Inr (dr_Hash d)" "dr_PreviousHash d = vs_previous v"
      "v1 = v\<lparr>vs_previous := dr_Hash d\<rparr>"
    by (auto simp: check_chain_def expected_hash_def split: if_splits sum.splits dest: recordHashV3_error')
  then show ?thesis using recordHashV3_hash by metis
qed

lemma check_head_ok:
  assumes "check_head L O1 d v = (v1, nil)"
  shows "ledger v1 = ledger v \<and> vs_tree v1 = vs_tree v \<and> vs_previous v1 = vs_previous v \<and> vs_witnesses v1 = vs_witnesses v"
  using assms by (auto simp: check_head_def Let_def ledger_def split: if_splits outcome.splits option.splits)

lemma check_witness_ok:
  assumes "check_witness d v = (v1, nil)"
  shows "ledger v1 = (case ledger v of (p, n, ws, x) \<Rightarrow> (p, n, fmdrop n ws, x)) \<and> vs_tree v1 = vs_tree v
    \<and> (\<forall>w. fmlookup (vs_witnesses v) (tree_Size (vs_tree v)) = Some w \<longrightarrow> cp_ChainHead w = dr_Hash d)"
proof (cases "fmlookup (vs_witnesses v) (tree_Size (vs_tree v))")
  case None
  then have "fmdrop (tree_Size (vs_tree v)) (vs_witnesses v) = vs_witnesses v"
    by (intro fmap_ext) simp
  then show ?thesis using None assms by (simp add: check_witness_def ledger_def)
next
  case (Some w)
  then show ?thesis using assms
    by (auto simp: check_witness_def ledger_def witnessMatchesRecord_def split: if_splits)
qed

lemma append_leaf_ok:
  assumes "append_leaf L O1 d v = (v1, nil)" and "dr_Version d = 3" and "vf_Chain (vs_out v) \<noteq> chainNone"
  shows "ledger v1 = (case ledger v of (p, n, x) \<Rightarrow> (p, n + 1, x))"
  using assms by (auto simp: append_leaf_def ledger_def updateCoverage_def tree_Append_def Let_def tree_Size_def
      split: if_splits option.splits outcome.splits)

lemma stages_ok:
  assumes r: "and_then (check_chain L O1 d v) (\<lambda>v. and_then (check_head L O1 d v) (\<lambda>v.
              let verified = head_verified d v in
              and_then (and_then (check_witness d v) (append_leaf L O1 d)) (by_type L O1 c n d verified))) = (v', nil)"
    and "dr_Version d = 3" and "vf_Chain (vs_out v) \<noteq> chainNone"
  shows "dr_PreviousHash d = vs_previous v \<and> dr_Hash d = hash_of L (follows L O1 (vf_Chain (vs_out v))) d
    \<and> (\<forall>w. fmlookup (vs_witnesses v) (tree_Size (vs_tree v)) = Some w \<longrightarrow> cp_ChainHead w = dr_Hash d)
    \<and> ledger v' = (case ledger v of (p, k, ws, x) \<Rightarrow> (dr_Hash d, k + 1, fmdrop k ws, x))"
proof -
  obtain v1 where c: "check_chain L O1 d v = (v1, nil)"
      and r1: "and_then (check_head L O1 d v1) (\<lambda>v. let verified = head_verified d v in
              and_then (and_then (check_witness d v) (append_leaf L O1 d)) (by_type L O1 c n d verified)) = (v', nil)"
    using and_then_nilD [OF r] by blast
  obtain v2 where h: "check_head L O1 d v1 = (v2, nil)"
      and r2: "and_then (and_then (check_witness d v2) (append_leaf L O1 d)) (by_type L O1 c n d (head_verified d v2)) = (v', nil)"
    using and_then_nilD [OF r1] by (auto simp: Let_def)
  obtain v4 where r3: "and_then (check_witness d v2) (append_leaf L O1 d) = (v4, nil)"
      and t: "by_type L O1 c n d (head_verified d v2) v4 = (v', nil)"
    using and_then_nilD [OF r2] by blast
  obtain v3 where w: "check_witness d v2 = (v3, nil)" and a: "append_leaf L O1 d v3 = (v4, nil)"
    using and_then_nilD [OF r3] by blast
  note c' = check_chain_ok [OF c assms(2,3)] and h' = check_head_ok [OF h] and w' = check_witness_ok [OF w]
  have l1: "ledger v1 = (case ledger v of (p, k, ws, x) \<Rightarrow> (dr_Hash d, k, ws, x))" using c' by (simp add: ledger_def)
  have l3: "ledger v3 = (case ledger v of (p, k, ws, x) \<Rightarrow> (dr_Hash d, k, fmdrop k ws, x))"
    using w' h' l1 by (simp add: ledger_def)
  then have "vf_Chain (vs_out v3) = vf_Chain (vs_out v)" by (simp add: ledger_def)
  then have "ledger v4 = (case ledger v of (p, k, ws, x) \<Rightarrow> (dr_Hash d, k + 1, fmdrop k ws, x))"
    using append_leaf_ok [OF a assms(2)] assms(3) l3 by (simp add: ledger_def)
  moreover have "ledger v' = ledger v4" using ledger_by_type [of L O1 c n d "head_verified d v2" v4] t by simp
  moreover have "vs_tree v2 = vs_tree v" "vs_witnesses v2 = vs_witnesses v" using c' h' by simp_all
  ultimately show ?thesis using c' w' by simp
qed

text \<open>A line after the first, of a chained version 3 log.\<close>

lemma later_line_ok:
  assumes "verify_line L O1 c line v = (v', nil)" and "vs_line v \<noteq> 0" and "vf_Version (vs_out v) = 3"
    and "vf_Chain (vs_out v) = ch" and "ch \<noteq> chainNone"
  obtains d where "decodeDiskRecord L line = Inr d" and "dr_PreviousHash d = vs_previous v"
    and "dr_Hash d = hash_of L (follows L O1 ch) d"
    and "\<forall>w. fmlookup (vs_witnesses v) (tree_Size (vs_tree v)) = Some w \<longrightarrow> cp_ChainHead w = dr_Hash d"
    and "ledger v' = (dr_Hash d, tree_Size (vs_tree v) + 1, fmdrop (tree_Size (vs_tree v)) (vs_witnesses v), 3, ch,
      vs_line v + 1)"
proof -
  let ?v = "v\<lparr>vs_line := vs_line v + 1\<rparr>"
  obtain d where d: "decodeDiskRecord L line = Inr d"
    using assms(1) decode_error [of L line] by (cases "decodeDiskRecord L line") (auto simp: verify_line_def)
  then have r: "verify_record L O1 c (length line) d ?v = (v', nil)" using assms(1) by (simp add: verify_line_def)
  then have ver: "dr_Version d = 3"
    using assms(2,3) by (auto simp: verify_record_def bad_line_def and_then_def fail_if_def split: if_splits)
  have "and_then (check_chain L O1 d ?v) (\<lambda>v. and_then (check_head L O1 d v) (\<lambda>v.
              let verified = head_verified d v in
              and_then (and_then (check_witness d v) (append_leaf L O1 d)) (by_type L O1 c (length line) d verified))) = (v', nil)"
    using r assms(2,3) ver by (auto simp: verify_record_def bad_line_def FormatVersion_def split: if_splits)
  from stages_ok [OF this ver] assms(3-5)
  show ?thesis by (intro that [OF d]) (auto simp: ledger_def)
qed

subsection \<open>The whole log\<close>

text \<open>Every retained checkpoint that was ticked off was met by the record of its position.\<close>

definition ticked_off :: "u64 \<Rightarrow> (u64, Checkpoint) fmap \<Rightarrow> (u64, Checkpoint) fmap \<Rightarrow> diskRecord list \<Rightarrow> bool" where
  "ticked_off n before after ds \<longleftrightarrow> (\<forall>k w. fmlookup before k = Some w \<longrightarrow> fmlookup after k = None \<longrightarrow>
     (\<exists>i < length ds. k = n + of_nat i \<and> cp_ChainHead w = dr_Hash (ds ! i)))"

lemma ticked_off_Cons:
  assumes "\<forall>w. fmlookup ws n = Some w \<longrightarrow> cp_ChainHead w = dr_Hash d" and "ticked_off (n + 1) (fmdrop n ws) after ds"
  shows "ticked_off n ws after (d # ds)"
  unfolding ticked_off_def
proof (intro allI impI)
  fix k w assume k: "fmlookup ws k = Some w" "fmlookup after k = None"
  show "\<exists>i < length (d # ds). k = n + of_nat i \<and> cp_ChainHead w = dr_Hash ((d # ds) ! i)"
  proof (cases "k = n")
    case True
    then show ?thesis using assms(1) k(1) by (intro exI [of _ 0]) simp
  next
    case False
    then have "fmlookup (fmdrop n ws) k = Some w" using k(1) by simp
    then obtain i where "i < length ds" "k = n + 1 + of_nat i" "cp_ChainHead w = dr_Hash (ds ! i)"
      using assms(2) k(2) unfolding ticked_off_def by blast
    then show ?thesis by (intro exI [of _ "Suc i"]) simp
  qed
qed

lemma chain_of_lines:
  assumes "verify_lines L O1 c lines v = (v', nil)" and "vs_line v \<noteq> 0" and "vf_Version (vs_out v) = 3"
    and "vf_Chain (vs_out v) = ch" and "ch \<noteq> chainNone"
  shows "\<exists>ds. map (decodeDiskRecord L) lines = map Inr ds \<and> hash_chain L (follows L O1 ch) (vs_previous v) ds
    \<and> ticked_off (tree_Size (vs_tree v)) (vs_witnesses v) (vs_witnesses v') ds"
  using assms
proof (induction lines arbitrary: v)
  case (Cons line lines)
  have "\<not> int (length line) + 1 > MaxRecordSize" using Cons.prems(1) by (auto split: if_splits)
  then obtain v1 where v1: "verify_line L O1 c line v = (v1, nil)" "verify_lines L O1 c lines v1 = (v', nil)"
    using Cons.prems(1) and_then_nilD [of "verify_line L O1 c line v" "verify_lines L O1 c lines" v'] by auto
  obtain d where d: "decodeDiskRecord L line = Inr d" "dr_PreviousHash d = vs_previous v" "dr_Hash d = hash_of L (follows L O1 ch) d"
      "\<forall>w. fmlookup (vs_witnesses v) (tree_Size (vs_tree v)) = Some w \<longrightarrow> cp_ChainHead w = dr_Hash d"
      "ledger v1 = (dr_Hash d, tree_Size (vs_tree v) + 1, fmdrop (tree_Size (vs_tree v)) (vs_witnesses v), 3, ch,
        vs_line v + 1)"
    by (rule later_line_ok [OF v1(1) Cons.prems(2-5)])
  have l: "vs_previous v1 = dr_Hash d" "tree_Size (vs_tree v1) = tree_Size (vs_tree v) + 1"
      "vs_witnesses v1 = fmdrop (tree_Size (vs_tree v)) (vs_witnesses v)" "vf_Version (vs_out v1) = 3"
      "vf_Chain (vs_out v1) = ch" "vs_line v1 \<noteq> 0"
    using d(5) by (simp_all add: ledger_def)
  obtain ds where "map (decodeDiskRecord L) lines = map Inr ds" "hash_chain L (follows L O1 ch) (dr_Hash d) ds"
      "ticked_off (tree_Size (vs_tree v) + 1) (fmdrop (tree_Size (vs_tree v)) (vs_witnesses v)) (vs_witnesses v') ds"
    using Cons.IH [OF v1(2) l(6,4,5) Cons.prems(5)] l(1-3) by auto
  then show ?case using d(1-3) ticked_off_Cons [OF d(4)] by (intro exI [of _ "d # ds"]) simp
qed (simp add: ticked_off_def)

lemma first_line_ledger:
  assumes "first_line L O1 d v = (v', nil)" and "length (vo_PublicKey O1) > 0"
  shows "3 \<le> dr_Version d \<and> vf_Version (vs_out v') = dr_Version d \<and> vf_Chain (vs_out v') = dr_Chain d \<and> dr_Chain d \<noteq> chainNone
    \<and> vs_previous v' = vs_previous v \<and> vs_tree v' = vs_tree v \<and> vs_witnesses v' = vs_witnesses v \<and> vs_line v' = vs_line v"
proof -
  let ?keep = "\<lambda>u. (vs_previous u, vs_tree u, vs_witnesses u, vs_line u, vf_Version (vs_out u))"
  have sig: "signatureRequired O1" using assms(2) by (simp add: signatureRequired_def)
  have ms: "?keep (fst (manifest_session d u)) = ?keep u \<and> vf_Chain (vs_out (fst (manifest_session d u))) = vf_Chain (vs_out u)" for u by (auto simp: manifest_session_def split: option.split)
  have mk: "?keep (fst (manifest_key L d u)) = ?keep u \<and> vf_Chain (vs_out (fst (manifest_key L d u))) = vf_Chain (vs_out u)" for u
    by (auto simp: manifest_key_def fail_if_def split: sum.split)
  have sk: "?keep (fst (select_key O1 u)) = ?keep u \<and> vf_Chain (vs_out (fst (select_key O1 u))) = vf_Chain (vs_out u)" for u
    by (auto simp: select_key_def split: option.split)
  have md: "?keep u' = ?keep u \<and> vf_Chain (vs_out u') = dr_Chain d" if "manifest_declarations L d u = (u', nil)" for u u'
  proof -
    let ?u1 = "u\<lparr>vs_out := (vs_out u)\<lparr>vf_Chain := dr_Chain d, vf_Durability := dr_Durability d, vf_Provenance := dr_Provenance d\<rparr>\<rparr>"
    from that obtain u2 where u2: "manifest_session d ?u1 = (u2, nil)" "manifest_key L d u2 = (u', nil)"
      using and_then_nilD [of "manifest_session d ?u1" "manifest_key L d" u']
      by (auto simp: manifest_declarations_def split: if_splits)
    show ?thesis using ms [of ?u1] mk [of u2] u2 by simp
  qed
  let ?v0 = "v\<lparr>vs_out := (vs_out v)\<lparr>vf_Version := dr_Version d\<rparr>\<rparr>"
  have ver: "3 \<le> dr_Version d" using assms(1) sig by (auto simp: first_line_def Let_def split: if_splits)
  have late: "\<not> (signatureRequired O1 \<and> dr_Version d < 3)" using ver by simp
  let ?decl = "if dr_Version d = 1 then (?v0\<lparr>vs_out := (vs_out ?v0)\<lparr>vf_Chain := chainSHA256\<rparr>\<rparr>, nil)
         else manifest_declarations L d ?v0"
  let ?rest = "\<lambda>v1. let chain = vf_Chain (vs_out v1) in
          if vo_RequireAuthentication O1 \<and> chain \<noteq> chainHMAC then (v1, [ErrUnauthenticated])
          else if chain = chainNone \<and> \<not> vo_AllowUnverified O1 then (v1, [ErrUnverified])
          else if chain = chainHMAC \<and> length (vo_HMACKey O1) = 0 then (v1, [ErrAuthenticationRequired])
          else and_then (select_key O1 v1) (\<lambda>v.
            if vf_PublicKey (vs_out v) \<noteq> None \<and> chain = chainNone then (v, [ErrSignature])
            else fail_if (signatureRequired O1 \<and> vs_trusted v = None) [ErrSignatureRequired] v)"
  have "and_then ?decl ?rest = (v', nil)"
    using assms(1) unfolding first_line_def Let_def if_not_P [OF late] .
  then have "\<exists>v1. ?decl = (v1, nil) \<and> ?rest v1 = (v', nil)" by (rule and_then_nilD)
  then obtain v1 where v1: "?decl = (v1, nil)" and rest: "?rest v1 = (v', nil)" by (elim exE conjE)
  have k1: "?keep v1 = ?keep ?v0" "vf_Chain (vs_out v1) = dr_Chain d" using md [of ?v0 v1] v1 ver by simp_all
  let ?last = "\<lambda>v. if vf_PublicKey (vs_out v) \<noteq> None \<and> vf_Chain (vs_out v1) = chainNone then (v, [ErrSignature])
            else fail_if (signatureRequired O1 \<and> vs_trusted v = None) [ErrSignatureRequired] v"
  have "and_then (select_key O1 v1) ?last = (v', nil)"
    using rest by (simp only: Let_def split: if_splits) auto
  then have "\<exists>v2. select_key O1 v1 = (v2, nil) \<and> ?last v2 = (v', nil)" by (rule and_then_nilD)
  then obtain v2 where v2: "select_key O1 v1 = (v2, nil)" "?last v2 = (v', nil)" by (elim exE conjE)
  have "vf_PublicKey (vs_out v2) \<noteq> None"
    using v2(1) assms(2) by (auto simp: select_key_def split: option.splits if_splits)
  then have chain: "vf_Chain (vs_out v1) \<noteq> chainNone" "v' = v2"
    using v2(2) by (auto simp: fail_if_def split: if_splits)
  then show ?thesis using sk [of v1] k1 v2(1) ver by simp
qed

lemma first_line_ok':
  assumes "verify_line L O1 c line (start_verifying ws) = (v', nil)" and "length (vo_PublicKey O1) > 0"
  obtains d where "decodeDiskRecord L line = Inr d" and "dr_PreviousHash d = []" and "dr_Chain d \<noteq> chainNone"
    and "dr_Hash d = hash_of L (follows L O1 (dr_Chain d)) d"
    and "\<forall>w. fmlookup ws 0 = Some w \<longrightarrow> cp_ChainHead w = dr_Hash d"
    and "ledger v' = (dr_Hash d, 1, fmdrop 0 ws, 3, dr_Chain d, 1)"
proof -
  let ?v = "(start_verifying ws)\<lparr>vs_line := vs_line (start_verifying ws) + 1\<rparr>"
  obtain d where d: "decodeDiskRecord L line = Inr d"
    using assms(1) decode_error [of L line] by (cases "decodeDiskRecord L line") (auto simp: verify_line_def)
  then have r: "verify_record L O1 c (length line) d ?v = (v', nil)" using assms(1) by (simp add: verify_line_def)
  let ?stages = "\<lambda>v. and_then (check_chain L O1 d v) (\<lambda>v. and_then (check_head L O1 d v) (\<lambda>v.
              let verified = head_verified d v in
              and_then (and_then (check_witness d v) (append_leaf L O1 d)) (by_type L O1 c (length line) d verified)))"
  have line: "vs_line ?v = 1" by (simp add: start_verifying_def)
  have bounds: "dr_Version d \<le> 3" and r1: "and_then (first_line L O1 d ?v) (\<lambda>v. if vs_footer v then (v, bad_line) else ?stages v) = (v', nil)"
    using r line by (auto simp: verify_record_def FormatVersion_def split: if_splits)
  have "\<exists>v1. first_line L O1 d ?v = (v1, nil) \<and> (if vs_footer v1 then (v1, bad_line) else ?stages v1) = (v', nil)"
    using and_then_nilD [OF r1] .
  then obtain v1 where v1: "first_line L O1 d ?v = (v1, nil)" "(if vs_footer v1 then (v1, bad_line) else ?stages v1) = (v', nil)"
    by (elim exE conjE)
  note f = first_line_ledger [OF v1(1) assms(2)]
  have ver: "dr_Version d = 3" using f bounds by simp
  have "?stages v1 = (v', nil)" using v1(2) by (cases "vs_footer v1") simp_all
  from stages_ok [OF this ver] f ver
  show ?thesis
    by (intro that [OF d]) (auto simp: ledger_def start_verifying_def empty_tree_def tree_Size_def)
qed

text \<open>Collecting keeps, for every size, a checkpoint with the same statement.\<close>

lemma collect_error: "collect_witnesses L k ws m = Inl err \<Longrightarrow> err \<noteq> nil"
  by (induction L k ws m rule: collect_witnesses.induct) (auto split: if_splits option.splits)

lemma prepare_error: "prepareWitnessVerification L O1 = Inl err \<Longrightarrow> err \<noteq> nil"
  by (auto simp: prepareWitnessVerification_def dest: collect_error split: if_splits)

lemma collect_keeps:
  assumes "collect_witnesses L k ws m = Inr r" and "fmlookup m n = Some w"
  shows "\<exists>w'. fmlookup r n = Some w' \<and> cp_ChainHead w' = cp_ChainHead w"
  using assms
proof (induction ws arbitrary: m w)
  case (Cons x ws)
  show ?case
  proof (cases "fmlookup m (cp_Size x)")
    case None
    then have "collect_witnesses L k ws (fmupd (cp_Size x) x m) = Inr r" using Cons.prems(1) by (auto split: if_splits)
    moreover have "fmlookup (fmupd (cp_Size x) x m) n = Some w" using None Cons.prems(2) by auto
    ultimately show ?thesis by (rule Cons.IH)
  next
    case (Some p)
    then have c: "collect_witnesses L k ws (fmupd (cp_Size x) x m) = Inr r" "same_statement p x"
      using Cons.prems(1) by (auto split: if_splits)
    show ?thesis
    proof (cases "cp_Size x = n")
      case True
      then have "fmlookup (fmupd (cp_Size x) x m) n = Some x" by simp
      from Cons.IH [OF c(1) this] Some True Cons.prems(2) c(2) show ?thesis by (auto simp: same_statement_def)
    next
      case False
      then have "fmlookup (fmupd (cp_Size x) x m) n = Some w" using Cons.prems(2) by simp
      from Cons.IH [OF c(1) this] show ?thesis .
    qed
  qed
qed simp

lemma collected:
  assumes "collect_witnesses L k ws m = Inr r" and "w \<in> set ws"
  shows "\<exists>w'. fmlookup r (cp_Size w) = Some w' \<and> cp_ChainHead w' = cp_ChainHead w"
  using assms
proof (induction ws arbitrary: m)
  case (Cons x ws)
  have c: "collect_witnesses L k ws (fmupd (cp_Size x) x m) = Inr r" using Cons.prems(1) by (auto split: if_splits option.splits)
  show ?case
  proof (cases "w = x")
    case True
    then show ?thesis using collect_keeps [OF c, of "cp_Size x" x] by simp
  next
    case False
    then show ?thesis using Cons.IH [OF c] Cons.prems(2) by simp
  qed
qed simp

definition log_records :: "audit_library \<Rightarrow> string \<Rightarrow> diskRecord list" where
  "log_records L input = map (\<lambda>l. case decodeDiskRecord L l of Inr d \<Rightarrow> d | Inl _ \<Rightarrow> zero_record) (fst (split_lines input))"

text \<open>The digest of the chain that a log declares in its first record.\<close>

definition log_digest :: "audit_library \<Rightarrow> VerifyOptions \<Rightarrow> string \<Rightarrow> digest" where
  "log_digest L O1 input = digest_under L (vo_HMACKey O1) (dr_Chain (hd (log_records L input)))"

lemma log_records_eq: "map (decodeDiskRecord L) (fst (split_lines input)) = map Inr ds \<Longrightarrow> log_records L input = ds"
proof -
  assume a: "map (decodeDiskRecord L) (fst (split_lines input)) = map Inr ds"
  have "log_records L input = map (\<lambda>x. case x of Inr d \<Rightarrow> d | Inl _ \<Rightarrow> zero_record) (map (decodeDiskRecord L) (fst (split_lines input)))"
    by (simp add: log_records_def)
  then show ?thesis by (simp add: a comp_def)
qed

text \<open>The records of a version 3 log that verifies with retained checkpoints.\<close>

lemma verified_records:
  assumes "Verify L O1 c input nil = (v, nil)" and "w \<in> set (vo_Witnesses O1)"
  shows "\<exists>ds i. map (decodeDiskRecord L) (fst (split_lines input)) = map Inr ds \<and> hash_chain L (log_digest L O1 input) [] ds
    \<and> i < length ds \<and> cp_Size w = of_nat i \<and> cp_ChainHead w = dr_Hash (ds ! i)"
proof -
  obtain ws where ws: "prepareWitnessVerification L O1 = Inr ws"
    using assms(1) prepare_error [of L O1] by (cases "prepareWitnessVerification L O1") (auto simp: Verify_def)
  have pk: "length (vo_PublicKey O1) = ed25519_PublicKeySize"
    using ws assms(2) by (auto simp: prepareWitnessVerification_def split: if_splits)
  then have sig: "length (vo_PublicKey O1) > 0" by (simp add: ed25519_PublicKeySize_def)
  obtain w0 where w0: "fmlookup ws (cp_Size w) = Some w0" "cp_ChainHead w0 = cp_ChainHead w"
    using collected [of L "vo_PublicKey O1" "vo_Witnesses O1" fmempty ws w] ws assms(2)
    by (auto simp: prepareWitnessVerification_def split: if_splits)
  obtain lines rest where sp: "split_lines input = (lines, rest)" by (cases "split_lines input")
  have "and_then (and_then (verify_lines L O1 c lines (start_verifying ws)) (verify_rest O1 rest nil)) (conclude L O1) = (v, nil)"
    using assms(1) ws pk sp by (simp add: Verify_def)
  note run = and_then_nilD [OF this]
  from run obtain v2 where v2: "and_then (verify_lines L O1 c lines (start_verifying ws)) (verify_rest O1 rest nil) = (v2, nil)"
      and cl: "conclude L O1 v2 = (v, nil)" by (elim exE conjE)
  obtain v1 where v1: "verify_lines L O1 c lines (start_verifying ws) = (v1, nil)" and rs: "verify_rest O1 rest nil v1 = (v2, nil)"
    using and_then_nilD [OF v2] by blast
  have keep: "vs_witnesses v2 = vs_witnesses v1 \<and> vf_Version (vs_out v2) = vf_Version (vs_out v1)"
    using rs by (auto simp: verify_rest_def fail_if_def split: if_splits)
  have "map_len (vs_witnesses v2) = 0"
    using cl by (auto simp: conclude_def Let_def fail_if_def updateCoverage_def split: if_splits outcome.splits)
  then have empty: "fmlookup (vs_witnesses v1) k = None" for k
    using keep by (simp add: map_len_def fmdom_notD)
  have "lines \<noteq> []"
  proof
    assume "lines = []"
    then have "vf_Version (vs_out v2) = 0" using v1 keep by (auto simp: start_verifying_def zero_verification_def)
    then show False using cl by (simp add: conclude_def)
  qed
  then obtain line lines' where ls: "lines = line # lines'" by (cases lines) auto
  have "\<not> int (length line) + 1 > MaxRecordSize" using v1 ls by (auto split: if_splits)
  then obtain u where u: "verify_line L O1 c line (start_verifying ws) = (u, nil)" "verify_lines L O1 c lines' u = (v1, nil)"
    using v1 ls and_then_nilD [of "verify_line L O1 c line (start_verifying ws)" "verify_lines L O1 c lines'" v1] by auto
  obtain d where d: "decodeDiskRecord L line = Inr d" "dr_PreviousHash d = []" "dr_Hash d = hash_of L (follows L O1 (dr_Chain d)) d"
      "\<forall>w. fmlookup ws 0 = Some w \<longrightarrow> cp_ChainHead w = dr_Hash d"
      "ledger u = (dr_Hash d, 1, fmdrop 0 ws, 3, dr_Chain d, 1)" "dr_Chain d \<noteq> chainNone"
    by (rule first_line_ok' [OF u(1) sig])
  have l: "vs_previous u = dr_Hash d" "tree_Size (vs_tree u) = 1" "vs_witnesses u = fmdrop 0 ws" "vf_Version (vs_out u) = 3"
      "vf_Chain (vs_out u) = dr_Chain d" "vs_line u \<noteq> 0"
    using d(5) by (simp_all add: ledger_def)
  obtain ds where ds: "map (decodeDiskRecord L) lines' = map Inr ds" "hash_chain L (follows L O1 (dr_Chain d)) (dr_Hash d) ds"
      "ticked_off 1 (fmdrop 0 ws) (vs_witnesses v1) ds"
    using chain_of_lines [OF u(2) l(6,4,5) d(6)] l(1-3) by auto
  have "ticked_off 0 ws (vs_witnesses v1) (d # ds)" using ticked_off_Cons [of ws 0 d "vs_witnesses v1" ds] d(4) ds(3) by simp
  then have "\<exists>i < length (d # ds). cp_Size w = 0 + of_nat i \<and> cp_ChainHead w0 = dr_Hash ((d # ds) ! i)"
    using w0(1) empty unfolding ticked_off_def by blast
  then obtain i where "i < length (d # ds)" "cp_Size w = of_nat i" "cp_ChainHead w = dr_Hash ((d # ds) ! i)"
    using w0(2) by (elim exE conjE) simp
  moreover have "hash_chain L (follows L O1 (dr_Chain d)) [] (d # ds)" using d(2,3) ds(2) by simp
  moreover have m: "map (decodeDiskRecord L) (fst (split_lines input)) = map Inr (d # ds)" using sp ls d(1) ds(1) by simp
  moreover have "log_digest L O1 input = follows L O1 (dr_Chain d)" by (simp add: log_digest_def log_records_eq [OF m])
  ultimately show ?thesis by metis
qed

subsection \<open>From a hash back to the fields\<close>

lemma be64_inject: "be64 a = be64 b \<longleftrightarrow> a = b"
proof
  assume e: "be64 a = be64 b"
  have byte: "(ucast (drop_bit (8 * (7 - i)) a) :: 8 word) = ucast (drop_bit (8 * (7 - i)) b)" if "i < 8" for i
    using arg_cong [OF e, of "\<lambda>xs. xs ! i"] that by (simp add: be64_def)
  show "a = b"
  proof (rule bit_word_eqI)
    fix k assume "k < LENGTH(64)"
    then have k: "k div 8 < 8" by simp
    have "bit (ucast (drop_bit (8 * (7 - (7 - k div 8))) x) :: 8 word) (k mod 8) = bit x k" for x :: u64
      using k \<open>k < LENGTH(64)\<close> by (simp add: bit_ucast_iff bit_drop_bit_eq)
    moreover have "(ucast (drop_bit (8 * (7 - (7 - k div 8))) a) :: 8 word) = ucast (drop_bit (8 * (7 - (7 - k div 8))) b)"
      by (rule byte) simp
    ultimately show "bit a k = bit b k" by metis
  qed
qed simp

lemma text_bytes_inject: "text_bytes s = text_bytes t \<longleftrightarrow> s = t"
proof -
  have "inj (\<lambda>c. of_nat (of_char c) :: 8 word)"
  proof (rule injI)
    fix c d :: char assume "(of_nat (of_char c) :: 8 word) = of_nat (of_char d)"
    then have "unat (of_nat (of_char c) :: 8 word) = unat (of_nat (of_char d) :: 8 word)" by simp
    then show "c = d" by (simp add: unsigned_of_nat take_bit_nat_eq_self of_char_of)
  qed
  then show ?thesis unfolding text_bytes_def by (simp add: inj_map_eq_map)
qed

definition short :: "string \<Rightarrow> bool" where
  "short s \<longleftrightarrow> length s < 2 ^ 64"

lemma text_field_inject:
  assumes "text_field s @ x = text_field t @ y" and "short s" and "short t"
  shows "s = t \<and> x = y"
proof -
  let ?n = "\<lambda>s. of_nat (length (text_bytes s)) :: u64"
  have "be64 (?n s) = be64 (?n t)" and tl: "text_bytes s @ x = text_bytes t @ y"
    using assms(1) by (auto simp: text_field_def hash_field_def be64_def append_eq_append_conv)
  then have "unat (?n s) = unat (?n t)" by (simp add: be64_inject)
  then have "length (text_bytes s) = length (text_bytes t)"
    using assms(2,3) by (simp add: short_def text_bytes_def unsigned_of_nat take_bit_nat_eq_self)
  with tl show ?thesis by (simp add: append_eq_append_conv text_bytes_inject)
qed

lemma fields_inject:
  assumes "length xs = length ys" and "concat (map text_field xs) = concat (map text_field ys)"
    and "list_all short xs" and "list_all short ys"
  shows "xs = ys"
  using assms
proof (induction rule: list_induct2)
  case (Cons x xs y ys)
  then show ?case using text_field_inject [of x "concat (map text_field xs)" y "concat (map text_field ys)"] by simp
qed simp

lemma covered_length: "length (covered_fields L d) = 18"
  by (simp add: covered_fields_def v3_fields_def v2_fields_def)

text \<open>No two of the byte strings hashed in two lists of records, each with its digest, collide.\<close>

definition no_collision :: "audit_library \<Rightarrow> digest \<Rightarrow> diskRecord list \<Rightarrow> digest \<Rightarrow> diskRecord list \<Rightarrow> bool" where
  "no_collision L D ds D' es \<longleftrightarrow> list_all (\<lambda>d. list_all (\<lambda>e. D (hashed_bytes L d) = D' (hashed_bytes L e)
     \<longrightarrow> hashed_bytes L d = hashed_bytes L e) es) ds"

lemma same_hash_same_fields:
  assumes "no_collision L D ds D' es" and "d \<in> set ds" and "e \<in> set es" and "hash_of L D d = hash_of L D' e"
    and "\<forall>d \<in> set (ds @ es). list_all short (covered_fields L d)"
  shows "covered_fields L d = covered_fields L e"
proof -
  have "D (hashed_bytes L d) = D' (hashed_bytes L e)"
    using arg_cong [OF assms(4), of hex_DecodeString] by (simp add: hash_of_def hex_roundtrip)
  then have "hashed_bytes L d = hashed_bytes L e" using assms(1-3) by (auto simp: no_collision_def list_all_iff)
  moreover have "short ''teleop-audit-v3''" by (simp add: short_def)
  ultimately have "''teleop-audit-v3'' # covered_fields L d = ''teleop-audit-v3'' # covered_fields L e"
    using assms(2,3,5) by (intro fields_inject) (simp_all add: covered_length hashed_bytes_def)
  then show ?thesis by simp
qed

lemma covered_contents:
  assumes "covered_fields L d = covered_fields L e"
  shows "dr_PreviousHash d = dr_PreviousHash e \<and> dr_RecordType d = dr_RecordType e \<and> dr_Kind d = dr_Kind e
    \<and> dr_Payload d = dr_Payload e"
  using assms by (simp add: covered_fields_def v3_fields_def v2_fields_def)

lemma hash_chain_nth:
  "hash_chain L D p ds \<Longrightarrow> i < length ds \<Longrightarrow>
     dr_Hash (ds ! i) = hash_of L D (ds ! i) \<and> dr_PreviousHash (ds ! i) = (if i = 0 then p else dr_Hash (ds ! (i - 1)))"
proof (induction ds arbitrary: p i)
  case (Cons d ds)
  show ?case
  proof (cases i)
    case (Suc j)
    then show ?thesis using Cons.IH [of "dr_Hash d" j] Cons.prems by (cases j) auto
  qed (use Cons.prems in simp)
qed simp

lemma chains_agree:
  assumes "hash_chain L D p ds" and "hash_chain L D' p es" and "no_collision L D ds D' es"
    and "\<forall>d \<in> set (ds @ es). list_all short (covered_fields L d)"
    and "i < length ds" and "i < length es" and "dr_Hash (ds ! i) = dr_Hash (es ! i)"
  shows "j \<le> i \<Longrightarrow> covered_fields L (ds ! j) = covered_fields L (es ! j)"
  using assms(5-)
proof (induction i)
  case 0
  have "hash_of L D (ds ! 0) = hash_of L D' (es ! 0)"
    using 0 hash_chain_nth [OF assms(1) 0(2)] hash_chain_nth [OF assms(2) 0(3)] by simp
  then show ?case using same_hash_same_fields [OF assms(3) _ _ _ assms(4), of "ds ! 0" "es ! 0"] 0 by simp
next
  case (Suc i)
  have "hash_of L D (ds ! Suc i) = hash_of L D' (es ! Suc i)"
    using Suc.prems hash_chain_nth [OF assms(1), of "Suc i"] hash_chain_nth [OF assms(2), of "Suc i"] by simp
  then have c: "covered_fields L (ds ! Suc i) = covered_fields L (es ! Suc i)"
    using same_hash_same_fields [OF assms(3) _ _ _ assms(4), of "ds ! Suc i" "es ! Suc i"] Suc.prems by simp
  then have "dr_Hash (ds ! i) = dr_Hash (es ! i)"
    using covered_contents [OF c] Suc.prems hash_chain_nth [OF assms(1), of "Suc i"] hash_chain_nth [OF assms(2), of "Suc i"] by simp
  then show ?case using Suc.IH Suc.prems c by (cases "j = Suc i") auto
qed

lemma split_lines_length: "length (fst (split_lines s)) \<le> length s"
proof (induction s)
  case (Cons c s)
  then show ?case by (auto split: prod.split list.split)
qed simp

text \<open>
  C18. A retained checkpoint pins the history before it. If two logs, possibly written and rewritten by whoever holds the
  signing key, both verify against the same retained checkpoint, then up to and including the checkpoint's record they agree,
  record by record, in every field the hash of a record covers, type, event kind and payload among them (not in
  the signatures, nor in how a line is written), unless two of the byte strings hashed in them collide under the
  digests of their chains, SHA-256 or HMAC with the reader's key. The logs and the covered fields are shorter than
  \<open>2 ^ 64\<close> bytes, the range of the length prefixes.
\<close>

theorem retained_checkpoint_pins_history:
  assumes "Verify L O1 c1 log1 nil = (v1, nil)" and "Verify L O2 c2 log2 nil = (v2, nil)"
    and "w \<in> set (vo_Witnesses O1)" and "w \<in> set (vo_Witnesses O2)"
    and "length log1 < 2 ^ 64" and "length log2 < 2 ^ 64"
    and "no_collision L (log_digest L O1 log1) (log_records L log1) (log_digest L O2 log2) (log_records L log2)"
    and "\<forall>d \<in> set (log_records L log1 @ log_records L log2). list_all short (covered_fields L d)"
  shows "\<exists>n. cp_Size w = of_nat n \<and> n < length (log_records L log1) \<and> n < length (log_records L log2)
    \<and> (\<forall>j \<le> n. covered_fields L (log_records L log1 ! j) = covered_fields L (log_records L log2 ! j)
        \<and> dr_RecordType (log_records L log1 ! j) = dr_RecordType (log_records L log2 ! j)
        \<and> dr_Kind (log_records L log1 ! j) = dr_Kind (log_records L log2 ! j)
        \<and> dr_Payload (log_records L log1 ! j) = dr_Payload (log_records L log2 ! j))"
proof -
  obtain ds i where ds: "map (decodeDiskRecord L) (fst (split_lines log1)) = map Inr ds" "hash_chain L (log_digest L O1 log1) [] ds"
      "i < length ds" "cp_Size w = of_nat i" "cp_ChainHead w = dr_Hash (ds ! i)"
    using verified_records [OF assms(1,3)] by blast
  obtain es k where es: "map (decodeDiskRecord L) (fst (split_lines log2)) = map Inr es" "hash_chain L (log_digest L O2 log2) [] es"
      "k < length es" "cp_Size w = of_nat k" "cp_ChainHead w = dr_Hash (es ! k)"
    using verified_records [OF assms(2,4)] by blast
  have logs: "log_records L log1 = ds" "log_records L log2 = es" using ds(1) es(1) log_records_eq by blast+
  have "length ds \<le> length log1" "length es \<le> length log2"
    using arg_cong [OF ds(1), of length] arg_cong [OF es(1), of length] split_lines_length by (metis length_map)+
  then have "i < 2 ^ 64" "k < 2 ^ 64" using ds(3) es(3) assms(5,6) by simp_all
  moreover have "unat (of_nat i :: u64) = unat (of_nat k :: u64)" using ds(4) es(4) by simp
  ultimately have k: "k = i" by (simp add: unsigned_of_nat take_bit_nat_eq_self)
  have "covered_fields L (ds ! j) = covered_fields L (es ! j)" if "j \<le> i" for j
    using chains_agree [OF ds(2) es(2) _ _ ds(3) _ _ that] assms(7,8) logs k es(3,5) ds(5) by simp
  then show ?thesis using covered_contents k ds(3,4) es(3) logs by (intro exI [of _ i]) blast
qed

text \<open>Two logs that share a manifest, one of them closed, and the manifest's checkpoint, retained by both readers. The
  digest is one byte of its input, the one that tells a manifest from a footer.\<close>

definition pinned_manifest :: diskRecord where
  "pinned_manifest = demo_of ''manifest''\<lparr>dr_KeyID := zeros 16, dr_Hash := ''08'' @ zeros 62\<rparr>"

definition pinned_footer :: diskRecord where
  "pinned_footer = demo_of ''footer''\<lparr>dr_EventCount := 0, dr_TreeSize := 1, dr_PreviousHash := ''08'' @ zeros 62,
     dr_Hash := ''06'' @ zeros 62\<rparr>"

definition pinned_of :: "string \<Rightarrow> diskRecord" where
  "pinned_of line = (if line = ''manifest'' then pinned_manifest else pinned_footer)"

definition pinned_library :: audit_library where
  "pinned_library = demo_library\<lparr>al_sha256 := (\<lambda>xs. (case drop 39 xs of [] \<Rightarrow> 0 | b # _ \<Rightarrow> b) # replicate 31 0),
     al_fields := (\<lambda>line. Some (fmap_of_list (map (\<lambda>n. (n, [])) (wire_list (pinned_of line))))),
     al_record := (\<lambda>line. Some (pinned_of line))\<rparr>"

definition pinned_checkpoint :: Checkpoint where
  "pinned_checkpoint = \<lparr>cp_Version = 3, cp_RecordType = ''manifest'', cp_SignatureAlgorithm = ''ed25519'', cp_Session = 7,
     cp_Size = 0, cp_Root = zeros 64, cp_ChainHead = dr_Hash pinned_manifest, cp_EventCount = 0, cp_RecordedAt = 0,
     cp_KeyID = [], cp_PublicKey = [], cp_Signature = zeros 128\<rparr>"

definition pinned_options :: VerifyOptions where
  "pinned_options = no_options\<lparr>vo_Witnesses := [pinned_checkpoint], vo_PublicKey := replicate 32 0\<rparr>"

lemma pinned_prepared:
  "prepareWitnessVerification pinned_library pinned_options = Inr (fmupd 0 pinned_checkpoint fmempty)"
proof -
  have "VerifyCheckpoint pinned_library (replicate 32 0) pinned_checkpoint = nil" by code_simp
  then show ?thesis
    by (simp add: prepareWitnessVerification_def pinned_options_def no_options_def ed25519_PublicKeySize_def pinned_checkpoint_def)
qed

lemma pinned_lines:
  "split_lines (unlines [''manifest'']) = ([''manifest''], [])"
  "split_lines (unlines [''manifest'', ''footer'']) = ([''manifest'', ''footer''], [])"
  "length (vo_PublicKey pinned_options) = ed25519_PublicKeySize"
  by code_simp+

lemma pinned_manifest_verifies: "snd (Verify pinned_library pinned_options None (unlines [''manifest'']) nil) = nil"
  unfolding Verify_def pinned_prepared pinned_lines by code_simp

lemma pinned_log_verifies: "snd (Verify pinned_library pinned_options None (unlines [''manifest'', ''footer'']) nil) = nil"
  unfolding Verify_def pinned_prepared pinned_lines by code_simp

lemma pinned_records:
  "log_records pinned_library (unlines [''manifest'']) = [pinned_manifest]"
  "log_records pinned_library (unlines [''manifest'', ''footer'']) = [pinned_manifest, pinned_footer]"
proof -
  have "decodeDiskRecord pinned_library ''manifest'' = Inr (pinned_of ''manifest'')"
    and "decodeDiskRecord pinned_library ''footer'' = Inr (pinned_of ''footer'')" by code_simp+
  then show "log_records pinned_library (unlines [''manifest'']) = [pinned_manifest]"
    and "log_records pinned_library (unlines [''manifest'', ''footer'']) = [pinned_manifest, pinned_footer]"
    by (simp_all add: log_records_def pinned_lines pinned_of_def)
qed

lemma pinned_digest: "log_digest pinned_library pinned_options input = al_sha256 pinned_library"
  if "hd (log_records pinned_library input) = pinned_manifest"
  using that by (simp add: log_digest_def digest_under_def pinned_manifest_def demo_of_def zero_record_def chainSHA256_def chainHMAC_def)

lemma pinned_hashes:
  "no_collision pinned_library (al_sha256 pinned_library) [pinned_manifest] (al_sha256 pinned_library) [pinned_manifest, pinned_footer]"
proof -
  let ?h = "\<lambda>d. al_sha256 pinned_library (hashed_bytes pinned_library d)"
  have "?h pinned_manifest \<noteq> ?h pinned_footer" by code_simp
  then show ?thesis by (auto simp: no_collision_def)
qed

lemma pinned_fields:
  "list_all (\<lambda>d. list_all (\<lambda>s. length s \<le> 64) (covered_fields pinned_library d)) [pinned_manifest, pinned_footer]"
  by code_simp

theorem retained_checkpoint_pins_history_witness:
  "\<exists>n. cp_Size pinned_checkpoint = of_nat n
    \<and> n < length (log_records pinned_library (unlines [''manifest'']))
    \<and> n < length (log_records pinned_library (unlines [''manifest'', ''footer'']))"
proof -
  let ?a = "unlines [''manifest'']" and ?b = "unlines [''manifest'', ''footer'']"
  have v: "Verify pinned_library pinned_options None ?a nil = (fst (Verify pinned_library pinned_options None ?a nil), nil)"
    "Verify pinned_library pinned_options None ?b nil = (fst (Verify pinned_library pinned_options None ?b nil), nil)"
    using pinned_manifest_verifies pinned_log_verifies by (simp_all add: prod_eq_iff)
  have u: "pinned_checkpoint \<in> set (vo_Witnesses pinned_options)"
    by (simp add: pinned_options_def no_options_def)
  have n: "length ?a < 2 ^ 64" "length ?b < 2 ^ 64" by (simp_all add: unlines_def)
  have "\<forall>d \<in> set (log_records pinned_library ?a @ log_records pinned_library ?b). list_all short (covered_fields pinned_library d)"
    using pinned_fields unfolding pinned_records list_all_iff short_def by fastforce
  note pinned = retained_checkpoint_pins_history [OF v u u n _ this]
  have "no_collision pinned_library (log_digest pinned_library pinned_options ?a) (log_records pinned_library ?a)
      (log_digest pinned_library pinned_options ?b) (log_records pinned_library ?b)"
    using pinned_hashes pinned_digest [of ?a] pinned_digest [of ?b] by (simp add: pinned_records)
  from pinned [OF this] show ?thesis by blast
qed

end
