(* ===== verification/Subscription.thy ===== *)
theory Subscription
  imports Events "HOL-Library.Sublist"
begin

text \<open>
  A subscriber's bounded event queue, \<^verbatim>\<open>eventSubscription\<close> of \<^verbatim>\<open>controller.go\<close>: a ring buffer under a mutex, with the two
  delivery policies, its statistics and the notification of waiting readers. The main results relate it to a plain list of
  events and account for every event offered to it.

  The channel \<^verbatim>\<open>notify\<close>, which is closed and replaced at every broadcast, is a generation number: a reader that waits on
  generation \<open>g\<close> is awake as soon as the number differs from \<open>g\<close>.
\<close>

datatype DeliveryPolicy = DeliveryLossless | DeliveryLatest | DeliveryOther nat

record subscription =
  sb_policy :: DeliveryPolicy
  sb_limit :: nat
  sb_queue :: "Event option list"
  sb_head :: nat
  sb_size :: nat
  sb_notify :: nat
  sb_closed :: bool
  sb_err :: go_error
  sb_enqueued :: u64
  sb_delivered :: u64
  sb_dropped :: u64

definition newEventSubscription :: "DeliveryPolicy \<Rightarrow> nat \<Rightarrow> subscription" where
  "newEventSubscription policy limit = \<lparr>sb_policy = policy, sb_limit = limit, sb_queue = replicate limit None, sb_head = 0,
     sb_size = 0, sb_notify = 0, sb_closed = False, sb_err = nil, sb_enqueued = 0, sb_delivered = 0, sb_dropped = 0\<rparr>"

definition broadcastLocked :: "subscription \<Rightarrow> subscription" where
  "broadcastLocked s = s\<lparr>sb_notify := sb_notify s + 1\<rparr>"

text \<open>The last part of \<^verbatim>\<open>enqueue\<close>, once there is room.\<close>

definition sub_put :: "Event \<Rightarrow> subscription \<Rightarrow> subscription" where
  "sub_put event s = broadcastLocked (s\<lparr>sb_queue := (sb_queue s)[(sb_head s + sb_size s) mod sb_limit s := Some event],
     sb_size := sb_size s + 1, sb_enqueued := sb_enqueued s + 1\<rparr>)"

definition sub_enqueue :: "Event \<Rightarrow> subscription \<Rightarrow> subscription \<times> u64 \<times> bool" where
  "sub_enqueue event s =
     (if sb_closed s then (s, 0, False)
      else if sb_size s = sb_limit s then
        (if sb_policy s = DeliveryLatest then
           let dropped = of_nat (sb_size s) in
           (sub_put event (s\<lparr>sb_dropped := sb_dropped s + dropped, sb_queue := map (\<lambda>_. None) (sb_queue s), sb_head := 0,
              sb_size := 0\<rparr>), dropped, False)
         else (broadcastLocked (s\<lparr>sb_closed := True, sb_err := [ErrSubscriptionOverflow], sb_dropped := sb_dropped s + 1\<rparr>),
           1, True))
      else (sub_put event s, 0, False))"

text \<open>One turn of the loop of \<^verbatim>\<open>Next\<close>: it takes an event, ends with an error, or waits on the current generation.\<close>

datatype next_result = Got "Event option" | Ended go_error | Waits nat

definition sub_Next :: "go_error \<Rightarrow> subscription \<Rightarrow> subscription \<times> next_result" where
  "sub_Next ctxErr s =
     (if ctxErr \<noteq> nil then (s, Ended ctxErr)
      else if sb_size s > 0 then
        (s\<lparr>sb_queue := (sb_queue s)[sb_head s := None], sb_head := (sb_head s + 1) mod sb_limit s, sb_size := sb_size s - 1,
           sb_delivered := sb_delivered s + 1\<rparr>, Got (sb_queue s ! sb_head s))
      else if sb_closed s then (s, Ended (if sb_err s = nil then [ErrClosed] else sb_err s))
      else (s, Waits (sb_notify s)))"

definition sub_terminate :: "go_error \<Rightarrow> subscription \<Rightarrow> subscription" where
  "sub_terminate err s = broadcastLocked (if sb_closed s then s else s\<lparr>sb_closed := True, sb_err := err\<rparr>)"

record SubscriptionStats =
  stats_Enqueued :: u64
  stats_Delivered :: u64
  stats_Dropped :: u64
  stats_Buffered :: nat
  stats_Closed :: bool
  stats_Err :: go_error

definition sub_Stats :: "subscription \<Rightarrow> SubscriptionStats" where
  "sub_Stats s = \<lparr>stats_Enqueued = sb_enqueued s, stats_Delivered = sb_delivered s, stats_Dropped = sb_dropped s,
     stats_Buffered = sb_size s, stats_Closed = sb_closed s, stats_Err = sb_err s\<rparr>"

subsection \<open>The queue as a list\<close>

definition slot :: "subscription \<Rightarrow> nat \<Rightarrow> nat" where
  "slot s i = (sb_head s + i) mod sb_limit s"

definition contents :: "subscription \<Rightarrow> Event list" where
  "contents s = map (\<lambda>i. the (sb_queue s ! slot s i)) [0..<sb_size s]"

text \<open>Exactly the slots of the queued events are in use: nothing delivered is retained.\<close>

definition sub_inv :: "subscription \<Rightarrow> bool" where
  "sub_inv s \<longleftrightarrow> 0 < sb_limit s \<and> length (sb_queue s) = sb_limit s \<and> sb_head s < sb_limit s \<and> sb_size s \<le> sb_limit s
     \<and> (\<forall>i < sb_limit s. (sb_queue s ! slot s i \<noteq> None) = (i < sb_size s))"

lemma length_contents [simp]: "length (contents s) = sb_size s"
  by (simp add: contents_def)

lemma mod_inj:
  assumes "i < n" and "j < n" and "(h + i) mod n = (h + j) mod (n :: nat)"
  shows "i = j"
proof -
  have "(int h + int i) mod int n = (int h + int j) mod int n"
    using arg_cong [OF assms(3), of int] by (simp add: zmod_int)
  then have "int n dvd int i - int j" by (simp add: mod_eq_dvd_iff)
  then have "int i - int j = 0 \<or> \<bar>int n\<bar> \<le> \<bar>int i - int j\<bar>" using dvd_imp_le_int by blast
  then show ?thesis using assms(1,2) by linarith
qed

lemma slot_less: "sub_inv s \<Longrightarrow> slot s i < length (sb_queue s)"
  by (simp add: slot_def sub_inv_def)

lemma slot_inject: "sub_inv s \<Longrightarrow> i < sb_limit s \<Longrightarrow> j < sb_limit s \<Longrightarrow> slot s i = slot s j \<longleftrightarrow> i = j"
  using mod_inj by (auto simp: slot_def)

text \<open>Putting and taking, in terms of the list.\<close>

lemma contents_put:
  assumes "sub_inv s" and "sb_size s < sb_limit s"
  shows "contents (sub_put e s) = contents s @ [e]"
proof -
  let ?s = "sub_put e s"
  have slot: "slot ?s i = slot s i" for i by (simp add: slot_def sub_put_def broadcastLocked_def)
  have "sb_queue ?s = (sb_queue s)[slot s (sb_size s) := Some e]" "sb_size ?s = Suc (sb_size s)"
    by (simp_all add: sub_put_def broadcastLocked_def slot_def)
  then show ?thesis using slot_less [OF assms(1)] slot_inject [OF assms(1)] assms(2) slot
    by (auto simp: contents_def)
qed

lemma put_inv:
  assumes "sub_inv s" and "sb_size s < sb_limit s"
  shows "sub_inv (sub_put e s)"
  using assms slot_less [OF assms(1)] slot_inject [OF assms(1)]
  by (auto simp: sub_inv_def sub_put_def broadcastLocked_def slot_def nth_list_update less_Suc_eq)

lemma contents_Nil: "contents s = [] \<longleftrightarrow> sb_size s = 0"
  by (simp add: contents_def)

definition sub_take :: "subscription \<Rightarrow> subscription" where
  "sub_take s = fst (sub_Next nil s)"

lemma take_eq:
  assumes "sb_size s > 0"
  shows "sub_take s = s\<lparr>sb_queue := (sb_queue s)[sb_head s := None], sb_head := (sb_head s + 1) mod sb_limit s,
    sb_size := sb_size s - 1, sb_delivered := sb_delivered s + 1\<rparr>"
  using assms by (simp add: sub_take_def sub_Next_def)

lemma take_fields:
  assumes "sb_size s > 0"
  shows "sb_queue (sub_take s) = (sb_queue s)[sb_head s := None]" and "sb_size (sub_take s) = sb_size s - 1"
    and "sb_limit (sub_take s) = sb_limit s" and "sb_head (sub_take s) = (sb_head s + 1) mod sb_limit s"
  by (simp_all add: take_eq [OF assms])

lemma slot_take: "0 < sb_size s \<Longrightarrow> slot (sub_take s) i = slot s (Suc i)"
  by (simp add: slot_def take_eq mod_add_left_eq)

lemma slot_0: "sub_inv s \<Longrightarrow> slot s 0 = sb_head s"
  by (simp add: slot_def sub_inv_def)

lemma slot_Suc_head: "sub_inv s \<Longrightarrow> Suc i < sb_limit s \<Longrightarrow> slot s (Suc i) \<noteq> sb_head s"
  using slot_inject [of s "Suc i" 0] slot_0 [of s] by simp

lemma take_contents:
  assumes "sub_inv s" and "0 < sb_size s"
  shows "contents s = the (sb_queue s ! sb_head s) # contents (sub_take s)" and "sb_queue s ! sb_head s \<noteq> None"
proof -
  have "the (sb_queue s ! slot s (Suc i)) = the (sb_queue (sub_take s) ! slot (sub_take s) i)" if "i < sb_size s - 1" for i
  proof -
    have "Suc i < sb_limit s" using that assms(1) by (auto simp: sub_inv_def)
    then have "sb_head s \<noteq> slot s (Suc i)" using slot_Suc_head [OF assms(1)] by metis
    then show ?thesis by (simp add: slot_take [OF assms(2)] take_fields [OF assms(2)])
  qed
  then have "map (\<lambda>i. the (sb_queue s ! slot s (Suc i))) [0..<sb_size s - 1] = contents (sub_take s)"
    by (simp add: contents_def take_fields [OF assms(2)])
  moreover have "[0..<sb_size s] = 0 # map Suc [0..<sb_size s - 1]"
    using assms(2) by (simp add: map_Suc_upt upt_conv_Cons)
  ultimately show "contents s = the (sb_queue s ! sb_head s) # contents (sub_take s)"
    using slot_0 [OF assms(1)] by (simp add: contents_def comp_def)
  show "sb_queue s ! sb_head s \<noteq> None"
    using assms slot_0 [OF assms(1)] by (auto simp: sub_inv_def)
qed

lemma take_inv:
  assumes "sub_inv s" and "0 < sb_size s"
  shows "sub_inv (sub_take s)"
proof -
  have "(sb_queue (sub_take s) ! slot (sub_take s) i \<noteq> None) = (i < sb_size (sub_take s))" if "i < sb_limit s" for i
  proof (cases "Suc i = sb_limit s")
    case True
    then have "slot s (Suc i) = sb_head s" using assms(1) by (simp add: slot_def sub_inv_def)
    then show ?thesis using True assms by (auto simp: slot_take [OF assms(2)] take_fields [OF assms(2)] sub_inv_def)
  next
    case False
    then have i: "Suc i < sb_limit s" using that by simp
    then show ?thesis using i assms slot_less [OF assms(1)] slot_Suc_head [OF assms(1) i]
      by (auto simp: slot_take [OF assms(2)] take_fields [OF assms(2)] nth_list_update sub_inv_def)
  qed
  then show ?thesis using assms by (auto simp: sub_inv_def take_fields [OF assms(2)])
qed

text \<open>What an \<^verbatim>\<open>enqueue\<close> does to the list, case by case.\<close>

lemma broadcast_same [simp]:
  "contents (broadcastLocked s) = contents s" "sub_inv (broadcastLocked s) = sub_inv s"
  "sb_closed (broadcastLocked s) = sb_closed s" "sb_policy (broadcastLocked s) = sb_policy s"
  "sb_size (broadcastLocked s) = sb_size s" "sb_enqueued (broadcastLocked s) = sb_enqueued s"
  "sb_delivered (broadcastLocked s) = sb_delivered s" "sb_dropped (broadcastLocked s) = sb_dropped s"
  "sb_limit (broadcastLocked s) = sb_limit s" "sb_err (broadcastLocked s) = sb_err s"
  by (simp_all add: broadcastLocked_def contents_def sub_inv_def slot_def)

lemma put_fields [simp]:
  "sb_closed (sub_put e s) = sb_closed s" "sb_policy (sub_put e s) = sb_policy s" "sb_size (sub_put e s) = sb_size s + 1"
  "sb_enqueued (sub_put e s) = sb_enqueued s + 1" "sb_delivered (sub_put e s) = sb_delivered s"
  "sb_dropped (sub_put e s) = sb_dropped s" "sb_limit (sub_put e s) = sb_limit s" "sb_err (sub_put e s) = sb_err s"
  by (simp_all add: sub_put_def)

definition emptied :: "subscription \<Rightarrow> subscription" where
  "emptied s = s\<lparr>sb_dropped := sb_dropped s + of_nat (sb_size s), sb_queue := map (\<lambda>_. None) (sb_queue s), sb_head := 0,
     sb_size := 0\<rparr>"

lemma emptied_fields [simp]:
  "contents (emptied s) = []" "sb_closed (emptied s) = sb_closed s" "sb_policy (emptied s) = sb_policy s"
  "sb_size (emptied s) = 0" "sb_enqueued (emptied s) = sb_enqueued s" "sb_delivered (emptied s) = sb_delivered s"
  "sb_dropped (emptied s) = sb_dropped s + of_nat (sb_size s)" "sb_limit (emptied s) = sb_limit s"
  "sub_inv s \<Longrightarrow> sub_inv (emptied s)" "sb_err (emptied s) = sb_err s"
  by (simp_all add: emptied_def contents_def sub_inv_def slot_def)

definition overflowed :: "subscription \<Rightarrow> subscription" where
  "overflowed s = broadcastLocked
     (s\<lparr>sb_closed := True, sb_err := [ErrSubscriptionOverflow], sb_dropped := sb_dropped s + 1\<rparr>)"

lemma overflowed_fields [simp]:
  "contents (overflowed s) = contents s" "sb_closed (overflowed s)" "sb_policy (overflowed s) = sb_policy s"
  "sb_size (overflowed s) = sb_size s" "sb_enqueued (overflowed s) = sb_enqueued s"
  "sb_delivered (overflowed s) = sb_delivered s" "sb_dropped (overflowed s) = sb_dropped s + 1"
  "sub_inv (overflowed s) = sub_inv s" "sb_err (overflowed s) = [ErrSubscriptionOverflow]"
  unfolding overflowed_def broadcast_same by (simp_all add: contents_def sub_inv_def slot_def)

lemma enqueue_cases:
  assumes "sub_inv s"
  obtains (refused) "sb_closed s" "sub_enqueue e s = (s, 0, False)"
  | (stored) "\<not> sb_closed s" "sb_size s < sb_limit s" "sub_enqueue e s = (sub_put e s, 0, False)"
  | (coalesced) "\<not> sb_closed s" "sb_size s = sb_limit s" "sb_policy s = DeliveryLatest"
      "sub_enqueue e s = (sub_put e (emptied s), of_nat (sb_size s), False)"
  | (overflow) "\<not> sb_closed s" "sb_size s = sb_limit s" "sb_policy s \<noteq> DeliveryLatest"
      "sub_enqueue e s = (overflowed s, 1, True)"
proof -
  consider "sb_closed s" | "\<not> sb_closed s" "sb_size s < sb_limit s"
    | "\<not> sb_closed s" "sb_size s = sb_limit s" "sb_policy s = DeliveryLatest"
    | "\<not> sb_closed s" "sb_size s = sb_limit s" "sb_policy s \<noteq> DeliveryLatest"
    using assms unfolding sub_inv_def le_less by blast
  then show thesis
  proof cases
    case 1 then show thesis by (intro refused) (simp_all add: sub_enqueue_def)
  next
    case 2 then show thesis by (intro stored) (simp_all add: sub_enqueue_def)
  next
    case 3 then show thesis by (intro coalesced) (simp_all add: sub_enqueue_def emptied_def Let_def)
  next
    case 4 then show thesis by (intro overflow) (simp_all add: sub_enqueue_def overflowed_def)
  qed
qed

lemma emptied_room: "sub_inv s \<Longrightarrow> sb_size (emptied s) < sb_limit (emptied s)"
  by (simp add: sub_inv_def)

lemma enqueue_inv:
  assumes "sub_inv s" shows "sub_inv (fst (sub_enqueue e s))"
proof (cases rule: enqueue_cases [OF assms, where e = e])
  case 3
  then show ?thesis using put_inv [OF _ emptied_room] assms by simp
next
  case 2
  then show ?thesis using put_inv [OF assms] by simp
qed (use assms in simp_all)

subsection \<open>Accounting\<close>

datatype sub_op = Offer Event | ReadNext go_error | EndWith go_error

text \<open>A history: the queue, the events it accepted, those it refused by overflow, and those read from it.\<close>

record sub_history =
  sh_sub :: subscription
  sh_accepted :: "Event list"
  sh_refused :: "Event list"
  sh_read :: "Event list"

definition fresh_history :: "DeliveryPolicy \<Rightarrow> nat \<Rightarrow> sub_history" where
  "fresh_history policy limit = \<lparr>sh_sub = newEventSubscription policy limit, sh_accepted = [], sh_refused = [], sh_read = []\<rparr>"

fun sub_step :: "sub_op \<Rightarrow> sub_history \<Rightarrow> sub_history" where
  "sub_step (Offer e) h = (case sub_enqueue e (sh_sub h) of (s, n, overflow) \<Rightarrow>
     h\<lparr>sh_sub := s, sh_accepted := sh_accepted h @ (if sb_closed s then [] else [e]),
       sh_refused := sh_refused h @ (if overflow then [e] else [])\<rparr>)"
| "sub_step (ReadNext ctxErr) h = (case sub_Next ctxErr (sh_sub h) of (s, r) \<Rightarrow>
     h\<lparr>sh_sub := s, sh_read := sh_read h @ (case r of Got (Some e) \<Rightarrow> [e] | _ \<Rightarrow> [])\<rparr>)"
| "sub_step (EndWith err) h = h\<lparr>sh_sub := sub_terminate err (sh_sub h)\<rparr>"

definition sub_run :: "sub_op list \<Rightarrow> sub_history \<Rightarrow> sub_history" where
  "sub_run ops h = foldl (\<lambda>h x. sub_step x h) h ops"

definition accounted :: "DeliveryPolicy \<Rightarrow> sub_history \<Rightarrow> bool" where
  "accounted policy h \<longleftrightarrow> (let s = sh_sub h; kept = sh_read h @ contents s in
     sub_inv s \<and> sb_policy s = policy
     \<and> sb_enqueued s = of_nat (length (sh_accepted h)) \<and> sb_delivered s = of_nat (length (sh_read h))
     \<and> subseq kept (sh_accepted h) \<and> (policy \<noteq> DeliveryLatest \<longrightarrow> kept = sh_accepted h)
     \<and> sb_dropped s = of_nat (length (sh_accepted h) - length kept + length (sh_refused h))
     \<and> (sh_refused h \<noteq> [] \<longrightarrow> sb_closed s \<and> policy \<noteq> DeliveryLatest))"

lemma accounted_fresh: "0 < limit \<Longrightarrow> accounted policy (fresh_history policy limit)"
  by (simp add: accounted_def fresh_history_def newEventSubscription_def Let_def sub_inv_def contents_def slot_def)

lemma Next_cases:
  assumes "sub_inv s"
  obtains (took) x where "contents s = x # contents (sub_take s)" "sub_Next c s = (sub_take s, Got (Some x))" "0 < sb_size s"
  | (idle) r where "sub_Next c s = (s, r)" "\<And>e. r \<noteq> Got e"
proof (cases "c = nil \<and> 0 < sb_size s")
  case True
  then have "sub_Next c s = (sub_take s, Got (sb_queue s ! sb_head s))" by (simp add: sub_take_def sub_Next_def)
  then show thesis using took take_contents [OF assms, OF conjunct2, OF True] True by (cases "sb_queue s ! sb_head s") auto
next
  case False
  then show thesis by (intro idle [of "snd (sub_Next c s)"]) (auto simp: sub_Next_def)
qed

lemma take_counters [simp]:
  "0 < sb_size s \<Longrightarrow> sb_policy (sub_take s) = sb_policy s" "0 < sb_size s \<Longrightarrow> sb_enqueued (sub_take s) = sb_enqueued s"
  "0 < sb_size s \<Longrightarrow> sb_delivered (sub_take s) = sb_delivered s + 1" "0 < sb_size s \<Longrightarrow> sb_dropped (sub_take s) = sb_dropped s"
  "0 < sb_size s \<Longrightarrow> sb_closed (sub_take s) = sb_closed s"
  by (simp_all add: take_eq)

lemma terminate_same [simp]:
  "contents (sub_terminate err s) = contents s" "sub_inv (sub_terminate err s) = sub_inv s"
  "sb_policy (sub_terminate err s) = sb_policy s" "sb_enqueued (sub_terminate err s) = sb_enqueued s"
  "sb_delivered (sub_terminate err s) = sb_delivered s" "sb_dropped (sub_terminate err s) = sb_dropped s"
  "sb_closed (sub_terminate err s)" "sb_size (sub_terminate err s) = sb_size s"
  by (simp_all add: sub_terminate_def) (simp_all add: contents_def sub_inv_def slot_def)

lemma accounted_offer:
  assumes "accounted policy h"
  shows "accounted policy (sub_step (Offer e) h)"
proof -
  let ?s = "sh_sub h" and ?kept = "sh_read h @ contents (sh_sub h)"
  have inv: "sub_inv ?s" and pol: "sb_policy ?s = policy" and sub: "subseq ?kept (sh_accepted h)"
    and rest: "sb_enqueued ?s = of_nat (length (sh_accepted h))" "sb_delivered ?s = of_nat (length (sh_read h))"
      "policy \<noteq> DeliveryLatest \<Longrightarrow> ?kept = sh_accepted h"
      "sb_dropped ?s = of_nat (length (sh_accepted h) - length ?kept + length (sh_refused h))"
      "sh_refused h \<noteq> [] \<Longrightarrow> sb_closed ?s \<and> policy \<noteq> DeliveryLatest"
    using assms by (simp_all add: accounted_def Let_def)
  have len: "length ?kept \<le> length (sh_accepted h)" using sub by (rule list_emb_length)
  show ?thesis
  proof (cases rule: enqueue_cases [OF inv, where e = e])
    case 1
    then show ?thesis using assms by (simp add: accounted_def Let_def)
  next
    case 2
    then show ?thesis using inv pol rest sub len put_inv [OF inv] contents_put [OF inv] list_emb_append_mono [OF sub, of "[e]" "[e]"]
      by (auto simp: accounted_def Let_def)
  next
    case 3
    have "subseq (sh_read h) ?kept" by (simp add: list_emb_prefix)
    then have "subseq (sh_read h @ [e]) (sh_accepted h @ [e])"
      using sub by (intro list_emb_append_mono) (auto intro: subseq_order.trans)
    moreover have none: "sh_refused h = []" using rest(5) 3 by auto
    moreover have "length (sh_accepted h) - length (sh_read h) = length (sh_accepted h) - length ?kept + sb_size ?s"
      using len by simp
    ultimately show ?thesis using 3 inv pol rest put_inv [OF _ emptied_room, of ?s] contents_put [OF _ emptied_room, of ?s]
      by (simp add: accounted_def Let_def flip: of_nat_add)
  next
    case 4
    moreover from 4 have "length (sh_read h) + sb_size ?s = length (sh_accepted h)"
      using arg_cong [OF rest(3), of length] pol by simp
    ultimately show ?thesis using inv pol rest sub len by (simp add: accounted_def Let_def)
  qed
qed

lemma accounted_read:
  assumes "accounted policy h"
  shows "accounted policy (sub_step (ReadNext c) h)"
proof -
  have inv: "sub_inv (sh_sub h)" using assms by (simp add: accounted_def Let_def)
  show ?thesis
  proof (cases rule: Next_cases [OF inv, where c = c])
    case (1 x)
    then have "length (contents (sh_sub h)) = Suc (length (contents (sub_take (sh_sub h))))" by simp
    then show ?thesis using 1 assms take_inv [OF inv] by (simp add: accounted_def Let_def take_fields)
  next
    case (2 r)
    then have "(case r of Got (Some e) \<Rightarrow> [e] | _ \<Rightarrow> []) = []" by (cases r) auto
    then show ?thesis using 2 assms by (simp add: accounted_def Let_def)
  qed
qed

lemma accounted_run: "accounted policy h \<Longrightarrow> accounted policy (sub_run ops h)"
proof (induction ops arbitrary: h)
  case (Cons x ops)
  have "accounted policy (sub_step x h)"
  proof (cases x)
    case (EndWith err)
    then show ?thesis using Cons.prems by (simp add: accounted_def Let_def)
  qed (use Cons.prems accounted_offer accounted_read in simp_all)
  then show ?case using Cons.IH by (simp add: sub_run_def)
qed (simp add: sub_run_def)

text \<open>
  C20. A subscription loses nothing silently. Whatever a subscriber and the controller do with it, what has been read from it
  and what is still queued are events it accepted, in their order; under the lossless policy they are all of them, and
  an overflow closes the queue and keeps what is in it. Its statistics count exactly this: accepted, read, buffered, and
  as dropped every accepted event that is neither read nor buffered and every refused one.
\<close>

theorem subscription_accounts:
  assumes "0 < limit"
  shows "let h = sub_run ops (fresh_history policy limit); s = sh_sub h; stats = sub_Stats s in
    subseq (sh_read h @ contents s) (sh_accepted h)
    \<and> (policy \<noteq> DeliveryLatest \<longrightarrow> sh_read h @ contents s = sh_accepted h)
    \<and> (sh_refused h \<noteq> [] \<longrightarrow> policy \<noteq> DeliveryLatest \<and> stats_Closed stats)
    \<and> stats_Enqueued stats = of_nat (length (sh_accepted h))
    \<and> stats_Delivered stats = of_nat (length (sh_read h))
    \<and> stats_Buffered stats = length (contents s) \<and> stats_Buffered stats \<le> sb_limit s
    \<and> stats_Dropped stats = of_nat (length (sh_accepted h) - length (sh_read h @ contents s) + length (sh_refused h))"
proof -
  have "accounted policy (sub_run ops (fresh_history policy limit))" using assms by (intro accounted_run accounted_fresh)
  then show ?thesis by (simp add: accounted_def Let_def sub_Stats_def sub_inv_def)
qed

definition demo_offers :: "sub_op list" where
  "demo_offers = map (\<lambda>k. Offer (DerivedEvent zero_header k)) [''a'', ''b'', ''c''] @ [ReadNext nil]"

theorem subscription_accounts_witness:
  "let h = sub_run demo_offers (fresh_history DeliveryLatest 2); s = sh_sub h in
     sh_read h = [DerivedEvent zero_header ''c''] \<and> contents s = [] \<and> subseq (sh_read h) (sh_accepted h)
     \<and> stats_Dropped (sub_Stats s) = 2"
proof -
  let ?h = "sub_run demo_offers (fresh_history DeliveryLatest 2)"
  have "sh_read ?h = [DerivedEvent zero_header ''c'']" "contents (sh_sub ?h) = []" "length (sh_accepted ?h) = 3"
    "length (sh_refused ?h) = 0" "sb_size (sh_sub ?h) = 0" by code_simp+
  then show ?thesis using subscription_accounts [of 2 demo_offers DeliveryLatest] by (simp add: Let_def)
qed

subsection \<open>No lost wake-up\<close>

definition parked :: "subscription \<Rightarrow> bool" where
  "parked s \<longleftrightarrow> sb_size s = 0 \<and> \<not> sb_closed s"

lemma parked_waits: "parked s \<longleftrightarrow> sub_Next nil s = (s, Waits (sb_notify s))"
  by (simp add: parked_def sub_Next_def)

lemma step_notify: "sb_notify (sh_sub h) \<le> sb_notify (sh_sub (sub_step x h))"
  by (cases x) (auto simp: sub_enqueue_def sub_put_def broadcastLocked_def sub_Next_def sub_terminate_def Let_def
      split: prod.split)

lemma step_wakes:
  "parked (sh_sub h) \<Longrightarrow> sb_notify (sh_sub (sub_step x h)) = sb_notify (sh_sub h) \<Longrightarrow> parked (sh_sub (sub_step x h))"
  by (cases x) (auto simp: parked_def sub_enqueue_def sub_put_def broadcastLocked_def sub_Next_def sub_terminate_def Let_def
      split: if_splits)

text \<open>
  C15. A waiting reader is always woken. If a \<^verbatim>\<open>Next\<close> found the queue empty and open and waits on the notification
  channel it saw, then whatever happens until that channel is closed, there is still nothing for it to do: once an event
  is queued or the subscription ends, its channel has been closed.
\<close>

theorem waiting_reader_woken:
  assumes "sub_Next nil (sh_sub h) = (sh_sub h, Waits g)" and "sb_notify (sh_sub (sub_run ops h)) = g"
  shows "sub_Next nil (sh_sub (sub_run ops h)) = (sh_sub (sub_run ops h), Waits g)"
proof -
  have mono: "sb_notify (sh_sub h) \<le> sb_notify (sh_sub (sub_run ops h))" for ops h
  proof (induction ops arbitrary: h)
    case (Cons x ops)
    then show ?case using step_notify [of h x] by (auto simp: sub_run_def intro: le_trans)
  qed (simp add: sub_run_def)
  have "parked (sh_sub h) \<Longrightarrow> sb_notify (sh_sub (sub_run ops h)) = sb_notify (sh_sub h) \<Longrightarrow> parked (sh_sub (sub_run ops h))"
    for ops h
  proof (induction ops arbitrary: h)
    case (Cons x ops)
    then have "sb_notify (sh_sub (sub_step x h)) = sb_notify (sh_sub h)"
      using step_notify [of h x] mono [of "sub_step x h" ops] by (simp add: sub_run_def)
    with Cons step_wakes [of h x] show ?case by (simp add: sub_run_def)
  qed (simp add: sub_run_def)
  moreover have "parked (sh_sub h)" "g = sb_notify (sh_sub h)"
    using assms(1) by (auto simp: sub_Next_def parked_def split: if_splits)
  ultimately show ?thesis using assms(2) parked_waits by metis
qed

theorem waiting_reader_woken_witness:
  "sub_Next nil (sh_sub (sub_run [ReadNext nil, ReadNext [CtxCanceled]] (fresh_history DeliveryLossless 1)))
   = (sh_sub (sub_run [ReadNext nil, ReadNext [CtxCanceled]] (fresh_history DeliveryLossless 1)), Waits 0)"
  using waiting_reader_woken [of "fresh_history DeliveryLossless 1" 0 "[ReadNext nil, ReadNext [CtxCanceled]]"]
  by (simp add: fresh_history_def newEventSubscription_def sub_Next_def sub_run_def)

end
