(* ===== verification/Pipeline.thy ===== *)
theory Pipeline
  imports Prelude
begin

text \<open>
  The options a controller is opened with (\<^verbatim>\<open>source.go\<close>, \<^verbatim>\<open>NewController\<close>) and the attestation that a provider applied
  the required ones and nothing else (\<^verbatim>\<open>pipeline_attestation.go\<close>).

  A callback is known by what reflection can tell of it: nothing for a nil interface, a type and an address for a pointer.
  An option is a value of a datatype, since only the package itself can construct one: the exported options, the seal of
  the attestation in question, and the seal of any other attestation.
\<close>

datatype callback = NilCallback | PointerTo string nat | ValueOf string

datatype go_context = BackgroundContext | OtherContext nat
datatype go_clock = SystemClock | OtherClock nat

definition defaultIngestBuffer :: int where "defaultIngestBuffer = 512"
definition defaultSinkBuffer :: int where "defaultSinkBuffer = 2048"
definition defaultCallbackTimeout :: duration where "defaultCallbackTimeout = 2 * 1000000000"
definition defaultShutdownTimeout :: duration where "defaultShutdownTimeout = 1000000000"
definition advanceInterval :: duration where "advanceInterval = 25 * 1000000"

record controllerOptions =
  co_sinks :: "callback list"
  co_processors :: "callback list"
  co_context :: go_context
  co_clock :: go_clock
  co_ingestBuffer :: int
  co_sinkBuffer :: int
  co_livenessInterval :: duration
  co_staleAfter :: duration
  co_callbackTimeout :: duration
  co_shutdownTimeout :: duration
  co_clockStepThreshold :: duration
  co_neutralizeOnStale :: bool
  co_synchronousAudit :: bool
  co_deferredStart :: bool
  co_replayBackpressure :: bool
  co_pipelineNonce :: "256 word"

definition default_open_options :: controllerOptions where
  "default_open_options = \<lparr>co_sinks = [], co_processors = [], co_context = BackgroundContext, co_clock = SystemClock,
     co_ingestBuffer = defaultIngestBuffer, co_sinkBuffer = defaultSinkBuffer, co_livenessInterval = 0, co_staleAfter = 0,
     co_callbackTimeout = defaultCallbackTimeout, co_shutdownTimeout = defaultShutdownTimeout, co_clockStepThreshold = 0,
     co_neutralizeOnStale = False, co_synchronousAudit = False, co_deferredStart = False, co_replayBackpressure = False,
     co_pipelineNonce = 0\<rparr>"

subsection \<open>Attestations\<close>

type_synonym pipelineCallbackIdentity = "string \<times> nat"

record pipelineSnapshot =
  ps_sinks :: "pipelineCallbackIdentity list"
  ps_processors :: "pipelineCallbackIdentity list"
  ps_defaultContext :: bool
  ps_systemClock :: bool
  ps_ingestBuffer :: int
  ps_sinkBuffer :: int
  ps_livenessInterval :: duration
  ps_staleAfter :: duration
  ps_callbackTimeout :: duration
  ps_shutdownTimeout :: duration
  ps_clockStepThreshold :: duration
  ps_neutralizeOnStale :: bool
  ps_synchronousAudit :: bool
  ps_deferredStart :: bool
  ps_replayBackpressure :: bool

record PipelineAttestation =
  pa_nonce :: "256 word"
  pa_sinks :: "pipelineCallbackIdentity list"
  pa_processors :: "pipelineCallbackIdentity list"
  pa_synchronousAudit :: bool
  pa_livenessInterval :: duration
  pa_shutdownTimeout :: duration
  pa_sealed :: "pipelineSnapshot option"

record PipelineRequirements =
  pr_AuditSinks :: "callback list"
  pr_Processors :: "callback list"
  pr_SynchronousAudit :: bool
  pr_LivenessInterval :: duration
  pr_ShutdownTimeout :: duration

definition pipelineIdentity :: "callback \<Rightarrow> pipelineCallbackIdentity option" where
  "pipelineIdentity c = (case c of
     NilCallback \<Rightarrow> None
   | ValueOf t \<Rightarrow> None
   | PointerTo t p \<Rightarrow> if p = 0 then None else Some (t, p))"

fun pipelineIdentities :: "callback list \<Rightarrow> pipelineCallbackIdentity list option" where
  "pipelineIdentities [] = Some []"
| "pipelineIdentities (c # cs) = (case pipelineIdentity c of
     None \<Rightarrow> None
   | Some identity \<Rightarrow> map_option ((#) identity) (pipelineIdentities cs))"

text \<open>The nonce is drawn until it is not zero; a draw is \<^verbatim>\<open>None\<close> where the random source fails.\<close>

partial_function (option) draw_nonce :: "(nat \<Rightarrow> (256 word) option) \<Rightarrow> nat \<Rightarrow> (go_error + 256 word) option" where
  "draw_nonce draws n = (case draws n of
     None \<Rightarrow> Some (Inl [ErrPipelineAttestation])
   | Some w \<Rightarrow> if w = 0 then draw_nonce draws (n + 1) else Some (Inr w))"

definition NewPipelineAttestation ::
  "(nat \<Rightarrow> (256 word) option) \<Rightarrow> PipelineRequirements \<Rightarrow> (go_error + PipelineAttestation) option" where
  "NewPipelineAttestation draws req =
     (if pr_LivenessInterval req < 0 then Some (Inl [ErrPipelineAttestation])
      else if pr_ShutdownTimeout req \<le> 0 then Some (Inl [ErrPipelineAttestation])
      else case pipelineIdentities (pr_AuditSinks req) of
        None \<Rightarrow> Some (Inl [ErrPipelineAttestation])
      | Some sinks \<Rightarrow> (case pipelineIdentities (pr_Processors req) of
          None \<Rightarrow> Some (Inl [ErrPipelineAttestation])
        | Some processors \<Rightarrow> (case draw_nonce draws 0 of
            None \<Rightarrow> None
          | Some (Inl err) \<Rightarrow> Some (Inl err)
          | Some (Inr nonce) \<Rightarrow> Some (Inr \<lparr>pa_nonce = nonce, pa_sinks = sinks, pa_processors = processors,
              pa_synchronousAudit = pr_SynchronousAudit req, pa_livenessInterval = pr_LivenessInterval req,
              pa_shutdownTimeout = pr_ShutdownTimeout req, pa_sealed = None\<rparr>))))"

definition snapshotPipeline :: "controllerOptions \<Rightarrow> pipelineSnapshot option" where
  "snapshotPipeline options = (case pipelineIdentities (co_sinks options) of
     None \<Rightarrow> None
   | Some sinks \<Rightarrow> (case pipelineIdentities (co_processors options) of
       None \<Rightarrow> None
     | Some processors \<Rightarrow> Some \<lparr>ps_sinks = sinks, ps_processors = processors,
         ps_defaultContext = (co_context options = BackgroundContext), ps_systemClock = (co_clock options = SystemClock),
         ps_ingestBuffer = co_ingestBuffer options, ps_sinkBuffer = co_sinkBuffer options,
         ps_livenessInterval = co_livenessInterval options, ps_staleAfter = co_staleAfter options,
         ps_callbackTimeout = co_callbackTimeout options, ps_shutdownTimeout = co_shutdownTimeout options,
         ps_clockStepThreshold = co_clockStepThreshold options, ps_neutralizeOnStale = co_neutralizeOnStale options,
         ps_synchronousAudit = co_synchronousAudit options, ps_deferredStart = co_deferredStart options,
         ps_replayBackpressure = co_replayBackpressure options\<rparr>))"

definition attestation_accepts :: "PipelineAttestation \<Rightarrow> pipelineSnapshot \<Rightarrow> bool" where
  "attestation_accepts a s \<longleftrightarrow> ps_defaultContext s \<and> ps_systemClock s \<and> ps_ingestBuffer s = defaultIngestBuffer
     \<and> ps_sinkBuffer s = defaultSinkBuffer \<and> ps_livenessInterval s = pa_livenessInterval a \<and> ps_staleAfter s = 0
     \<and> ps_callbackTimeout s = defaultCallbackTimeout \<and> ps_shutdownTimeout s = pa_shutdownTimeout a
     \<and> ps_clockStepThreshold s = 0 \<and> \<not> ps_neutralizeOnStale s \<and> ps_synchronousAudit s = pa_synchronousAudit a
     \<and> \<not> ps_deferredStart s \<and> \<not> ps_replayBackpressure s \<and> ps_sinks s = pa_sinks a \<and> ps_processors s = pa_processors a"

text \<open>The attestation's option, and the later check of a controller's options.\<close>

definition seal_option :: "PipelineAttestation \<Rightarrow> controllerOptions \<Rightarrow> PipelineAttestation \<times> controllerOptions" where
  "seal_option a options =
     (let options = options\<lparr>co_pipelineNonce := 0\<rparr> in
      case snapshotPipeline options of
        None \<Rightarrow> (a, options)
      | Some s \<Rightarrow>
          if \<not> attestation_accepts a s \<or> pa_sealed a \<noteq> None then (a, options)
          else (a\<lparr>pa_sealed := Some s\<rparr>, options\<lparr>co_pipelineNonce := pa_nonce a\<rparr>))"

definition AttestPipeline :: "PipelineAttestation \<Rightarrow> controllerOptions \<Rightarrow> go_error" where
  "AttestPipeline a options =
     (if co_pipelineNonce options \<noteq> pa_nonce a then [ErrPipelineAttestation]
      else case snapshotPipeline options of
        None \<Rightarrow> [ErrPipelineAttestation]
      | Some current \<Rightarrow> (case pa_sealed a of
          None \<Rightarrow> [ErrPipelineAttestation]
        | Some sealed \<Rightarrow>
            if sealed \<noteq> current \<or> \<not> attestation_accepts a current then [ErrPipelineAttestation] else nil))"

subsection \<open>Options\<close>

datatype open_option =
    WithAuditSink callback | WithSynchronousAudit | WithProcessor callback | WithContext "go_context option"
  | WithDeferredStart | WithReplayBackpressure | WithClock "go_clock option" | WithPipelineBuffers int int
  | WithLiveness duration duration | WithNeutralizeOnStale bool | WithCallbackTimeout duration
  | WithClockStepThreshold duration | WithShutdownTimeout duration
  | NilOption | Seal | OtherSeal "256 word"

text \<open>\<^verbatim>\<open>WithLiveness\<close> panics, when it is constructed, on a negative argument; such an option does not exist.\<close>

definition liveness_ok :: "open_option \<Rightarrow> bool" where
  "liveness_ok x \<longleftrightarrow> (case x of WithLiveness i s \<Rightarrow> 0 \<le> i \<and> 0 \<le> s | _ \<Rightarrow> True)"

definition apply_open_option ::
  "open_option \<Rightarrow> PipelineAttestation \<times> controllerOptions \<Rightarrow> PipelineAttestation \<times> controllerOptions" where
  "apply_open_option x ao = (case ao of (a, c) \<Rightarrow> case x of
     WithAuditSink s \<Rightarrow> (a, if s \<noteq> NilCallback then c\<lparr>co_sinks := co_sinks c @ [s]\<rparr> else c)
   | WithSynchronousAudit \<Rightarrow> (a, c\<lparr>co_synchronousAudit := True\<rparr>)
   | WithProcessor p \<Rightarrow> (a, if p \<noteq> NilCallback then c\<lparr>co_processors := co_processors c @ [p]\<rparr> else c)
   | WithContext ctx \<Rightarrow> (a, case ctx of None \<Rightarrow> c | Some ctx \<Rightarrow> c\<lparr>co_context := ctx\<rparr>)
   | WithDeferredStart \<Rightarrow> (a, c\<lparr>co_deferredStart := True\<rparr>)
   | WithReplayBackpressure \<Rightarrow> (a, c\<lparr>co_replayBackpressure := True\<rparr>)
   | WithClock clock \<Rightarrow> (a, case clock of None \<Rightarrow> c | Some k \<Rightarrow> c\<lparr>co_clock := k\<rparr>)
   | WithPipelineBuffers ingest sink \<Rightarrow>
       (a, let c = (if ingest > 0 then c\<lparr>co_ingestBuffer := ingest\<rparr> else c)
           in if sink > 0 then c\<lparr>co_sinkBuffer := sink\<rparr> else c)
   | WithLiveness interval stale \<Rightarrow> (a, c\<lparr>co_livenessInterval := interval, co_staleAfter := stale\<rparr>)
   | WithNeutralizeOnStale enabled \<Rightarrow> (a, c\<lparr>co_neutralizeOnStale := enabled\<rparr>)
   | WithCallbackTimeout t \<Rightarrow> (a, if t > 0 then c\<lparr>co_callbackTimeout := t\<rparr> else c)
   | WithClockStepThreshold t \<Rightarrow> (a, if t > 0 then c\<lparr>co_clockStepThreshold := t\<rparr> else c)
   | WithShutdownTimeout t \<Rightarrow> (a, if t > 0 then c\<lparr>co_shutdownTimeout := t\<rparr> else c)
   | NilOption \<Rightarrow> (a, c)
   | Seal \<Rightarrow> seal_option a c
   | OtherSeal n \<Rightarrow> (a, c\<lparr>co_pipelineNonce := n\<rparr>))"

text \<open>The option loop of \<^verbatim>\<open>NewController\<close>.\<close>

definition apply_open_options ::
  "open_option list \<Rightarrow> PipelineAttestation \<Rightarrow> PipelineAttestation \<times> controllerOptions" where
  "apply_open_options xs a = foldl (\<lambda>ao x. apply_open_option x ao) (a, default_open_options) xs"

subsection \<open>What an attestation proves\<close>

lemma identity_inject: "pipelineIdentity c = Some i \<Longrightarrow> pipelineIdentity d = Some i \<Longrightarrow> c = d"
  by (auto simp: pipelineIdentity_def split: callback.splits if_splits)

lemma identities_inject: "pipelineIdentities cs = Some xs \<Longrightarrow> pipelineIdentities ds = Some xs \<Longrightarrow> cs = ds"
proof (induction cs arbitrary: ds xs)
  case Nil
  then show ?case by (cases ds) (auto split: option.splits)
next
  case (Cons c cs)
  obtain i rest where c: "pipelineIdentity c = Some i" "pipelineIdentities cs = Some rest" "xs = i # rest"
    using Cons.prems(1) by (auto split: option.split_asm)
  then obtain d ds' where d: "ds = d # ds'" using Cons.prems(2) by (cases ds) auto
  then have "pipelineIdentity d = Some i" "pipelineIdentities ds' = Some rest"
    using Cons.prems(2) c(3) by (auto split: option.split_asm)
  then show ?case using identity_inject [OF c(1)] Cons.IH [OF c(2)] d by simp
qed

text \<open>An attestation made for the requirements, sealed or not.\<close>

definition attests :: "PipelineRequirements \<Rightarrow> PipelineAttestation \<Rightarrow> bool" where
  "attests req a \<longleftrightarrow> pipelineIdentities (pr_AuditSinks req) = Some (pa_sinks a)
     \<and> pipelineIdentities (pr_Processors req) = Some (pa_processors a)
     \<and> pa_synchronousAudit a = pr_SynchronousAudit req \<and> pa_livenessInterval a = pr_LivenessInterval req
     \<and> pa_shutdownTimeout a = pr_ShutdownTimeout req \<and> pa_nonce a \<noteq> 0
     \<and> 0 \<le> pr_LivenessInterval req \<and> 0 < pr_ShutdownTimeout req"

lemma draw_nonce_zero:
  assumes ret: "draw_nonce draws n = Some r"
  shows "r \<noteq> Inr 0"
proof (rule draw_nonce.raw_induct [where P = "\<lambda>_ _ r. r \<noteq> Inr 0", OF _ ret])
  fix f and draws :: "nat \<Rightarrow> 256 word option" and n r
  assume IH: "\<And>draws n r. f draws n = Some r \<Longrightarrow> r \<noteq> Inr 0"
    and eq: "(case draws n of None \<Rightarrow> Some (Inl [ErrPipelineAttestation])
      | Some w \<Rightarrow> if w = 0 then f draws (n + 1) else Some (Inr w)) = Some r"
  show "r \<noteq> Inr 0"
  proof (cases "draws n")
    case (Some w)
    then show ?thesis using eq IH [of draws "n + 1"] by (cases "w = 0") auto
  qed (use eq in auto)
qed

lemma draw_nonce_returns: "draws (n + k) \<noteq> Some 0 \<Longrightarrow> draw_nonce draws n \<noteq> None"
proof (induction k arbitrary: n)
  case (Suc k)
  then show ?case using Suc.IH [of "n + 1"] by (subst draw_nonce.simps) (auto split: option.splits)
qed (subst draw_nonce.simps, auto split: option.splits)

lemma new_attests: "NewPipelineAttestation draws req = Some (Inr a) \<Longrightarrow> attests req a \<and> pa_sealed a = None"
  proof -
  assume a: "NewPipelineAttestation draws req = Some (Inr a)"
  then have bounds: "0 \<le> pr_LivenessInterval req" "0 < pr_ShutdownTimeout req"
    by (auto simp: NewPipelineAttestation_def split: if_split_asm)
  then obtain sinks processors where ids: "pipelineIdentities (pr_AuditSinks req) = Some sinks"
      "pipelineIdentities (pr_Processors req) = Some processors"
    using a by (auto simp: NewPipelineAttestation_def split: option.split_asm)
  then obtain nonce where "draw_nonce draws 0 = Some (Inr nonce)"
    using a bounds by (auto simp: NewPipelineAttestation_def split: option.split_asm sum.split_asm)
  then show ?thesis using a bounds ids draw_nonce_zero [of draws 0 "Inr nonce"]
    by (auto simp: NewPipelineAttestation_def attests_def)
qed

lemma seal_keeps: "attests req a \<Longrightarrow> attests req (fst (seal_option a c))"
  by (auto simp: seal_option_def attests_def Let_def split: option.splits)

lemma apply_keeps: "attests req (fst ao) \<Longrightarrow> attests req (fst (apply_open_option x ao))"
  using seal_keeps by (cases x) (auto simp: apply_open_option_def split: prod.splits option.splits)

lemma apply_nonce [simp]: "pa_nonce (fst (apply_open_option x ao)) = pa_nonce (fst ao)"
  by (cases ao; cases x) (auto simp: apply_open_option_def seal_option_def Let_def split: option.splits)

text \<open>The options a controller that attests must have.\<close>

definition required_options :: "PipelineRequirements \<Rightarrow> controllerOptions" where
  "required_options req = default_open_options\<lparr>co_sinks := pr_AuditSinks req, co_processors := pr_Processors req,
     co_livenessInterval := pr_LivenessInterval req, co_shutdownTimeout := pr_ShutdownTimeout req,
     co_synchronousAudit := pr_SynchronousAudit req\<rparr>"

lemma accepted_options:
  assumes "attests req a" and "snapshotPipeline c = Some s" and "attestation_accepts a s"
  shows "c = (required_options req)\<lparr>co_pipelineNonce := co_pipelineNonce c\<rparr>"
proof -
  have "co_sinks c = pr_AuditSinks req" "co_processors c = pr_Processors req"
    using assms identities_inject
    by (auto simp: attests_def snapshotPipeline_def attestation_accepts_def split: option.splits)
  moreover have "co_context c = BackgroundContext \<and> co_clock c = SystemClock \<and> co_ingestBuffer c = defaultIngestBuffer
      \<and> co_sinkBuffer c = defaultSinkBuffer \<and> co_livenessInterval c = pr_LivenessInterval req \<and> co_staleAfter c = 0
      \<and> co_callbackTimeout c = defaultCallbackTimeout \<and> co_shutdownTimeout c = pr_ShutdownTimeout req
      \<and> co_clockStepThreshold c = 0 \<and> \<not> co_neutralizeOnStale c \<and> co_synchronousAudit c = pr_SynchronousAudit req
      \<and> \<not> co_deferredStart c \<and> \<not> co_replayBackpressure c"
    using assms by (auto simp: attests_def snapshotPipeline_def attestation_accepts_def split: option.splits)
  ultimately show ?thesis by (simp add: required_options_def default_open_options_def)
qed

text \<open>
  C21. An attested controller has exactly the required options. Whatever options a provider applies, in whatever order, if
  the controller it opened passes \<^verbatim>\<open>AttestPipeline\<close> then its sinks and processors are the required instances in the
  required order, its audit mode, liveness interval and shutdown timeout are the required ones, and every other setting has
  its default.
\<close>

theorem attested_options:
  assumes "NewPipelineAttestation draws req = Some (Inr a)" and "apply_open_options xs a = (a', c)" and "AttestPipeline a' c = nil"
  shows "c = (required_options req)\<lparr>co_pipelineNonce := pa_nonce a\<rparr>"
proof -
  have "attests req (fst (foldl (\<lambda>ao x. apply_open_option x ao) ao xs)) \<and>
      pa_nonce (fst (foldl (\<lambda>ao x. apply_open_option x ao) ao xs)) = pa_nonce (fst ao)" if "attests req (fst ao)" for ao
    using that apply_keeps by (induction xs arbitrary: ao) auto
  from this [of "(a, default_open_options)"] have a': "attests req a'" "pa_nonce a' = pa_nonce a"
    using assms(2) new_attests [OF assms(1)] by (simp_all add: apply_open_options_def)
  obtain s where "snapshotPipeline c = Some s" "attestation_accepts a' s" "co_pipelineNonce c = pa_nonce a'"
    using assms(3) by (auto simp: AttestPipeline_def split: if_splits option.splits)
  then show ?thesis using accepted_options [OF a'(1)] a'(2) by metis
qed

text \<open>The options \<^verbatim>\<open>assured\<close> opens its controllers with.\<close>

definition required_list :: "PipelineRequirements \<Rightarrow> open_option list" where
  "required_list req = map WithAuditSink (pr_AuditSinks req) @ (if pr_SynchronousAudit req then [WithSynchronousAudit] else [])
     @ map WithProcessor (pr_Processors req)
     @ [WithLiveness (pr_LivenessInterval req) 0, WithShutdownTimeout (pr_ShutdownTimeout req), WithContext (Some BackgroundContext)]"

lemma apply_simps:
  "apply_open_option (WithAuditSink s) (a, c) = (a, if s \<noteq> NilCallback then c\<lparr>co_sinks := co_sinks c @ [s]\<rparr> else c)"
  "apply_open_option WithSynchronousAudit (a, c) = (a, c\<lparr>co_synchronousAudit := True\<rparr>)"
  "apply_open_option (WithProcessor p) (a, c) = (a, if p \<noteq> NilCallback then c\<lparr>co_processors := co_processors c @ [p]\<rparr> else c)"
  "apply_open_option (WithLiveness i t) (a, c) = (a, c\<lparr>co_livenessInterval := i, co_staleAfter := t\<rparr>)"
  "apply_open_option (WithShutdownTimeout d) (a, c) = (a, if d > 0 then c\<lparr>co_shutdownTimeout := d\<rparr> else c)"
  "apply_open_option (WithContext (Some x)) (a, c) = (a, c\<lparr>co_context := x\<rparr>)"
  "apply_open_option Seal (a, c) = seal_option a c"
  by (simp_all add: apply_open_option_def)

lemma fold_sinks:
  "NilCallback \<notin> set cs \<Longrightarrow> foldl (\<lambda>ao x. apply_open_option x ao) (a, c) (map WithAuditSink cs)
     = (a, c\<lparr>co_sinks := co_sinks c @ cs\<rparr>)"
  by (induction cs arbitrary: c) (auto simp: apply_simps)

lemma fold_processors:
  "NilCallback \<notin> set cs \<Longrightarrow> foldl (\<lambda>ao x. apply_open_option x ao) (a, c) (map WithProcessor cs)
     = (a, c\<lparr>co_processors := co_processors c @ cs\<rparr>)"
  by (induction cs arbitrary: c) (auto simp: apply_simps)

lemma identities_present: "pipelineIdentities cs = Some xs \<Longrightarrow> NilCallback \<notin> set cs"
  by (induction cs arbitrary: xs) (auto simp: pipelineIdentity_def split: option.splits)

lemma required_list_options:
  assumes "attests req a"
  shows "apply_open_options (required_list req) a = (a, required_options req)"
proof -
  have "NilCallback \<notin> set (pr_AuditSinks req)" "NilCallback \<notin> set (pr_Processors req)"
    using assms identities_present by (auto simp: attests_def)
  then show ?thesis using assms
    by (simp add: apply_open_options_def required_list_def fold_sinks fold_processors apply_simps required_options_def
        default_open_options_def attests_def)
qed

lemma seal_required:
  assumes "attests req a" and "pa_sealed a = None"
  shows "\<exists>s. seal_option a (required_options req) = (a\<lparr>pa_sealed := Some s\<rparr>, (required_options req)\<lparr>co_pipelineNonce := pa_nonce a\<rparr>)
    \<and> snapshotPipeline ((required_options req)\<lparr>co_pipelineNonce := pa_nonce a\<rparr>) = Some s \<and> attestation_accepts a s"
  using assms by (simp add: seal_option_def attests_def snapshotPipeline_def required_options_def default_open_options_def Let_def
      attestation_accepts_def)

text \<open>
  The seal is complete and can be used once. The required options followed by the seal attest; and once a seal has
  been used, no controller opened later attests with it, whatever options it is opened with, unless another attestation
  drew the same random nonce.
\<close>

theorem seal_single_use:
  assumes "NewPipelineAttestation draws req = Some (Inr a)" and "apply_open_options (required_list req @ [Seal]) a = (a', c)"
    and "OtherSeal (pa_nonce a) \<notin> set xs" and "apply_open_options xs a' = (a'', c')"
  shows "AttestPipeline a' c = nil \<and> AttestPipeline a'' c' \<noteq> nil"
proof -
  note new = new_attests [OF assms(1)]
  obtain s where s: "a' = a\<lparr>pa_sealed := Some s\<rparr>" "c = (required_options req)\<lparr>co_pipelineNonce := pa_nonce a\<rparr>"
      "snapshotPipeline c = Some s" "attestation_accepts a s"
    using seal_required [of req a] new assms(2) required_list_options [of req a]
    by (auto simp: apply_open_options_def apply_simps)
  have "AttestPipeline a' c = nil"
    using s by (simp add: AttestPipeline_def) (simp add: attestation_accepts_def)
  moreover have "AttestPipeline a'' c' \<noteq> nil"
  proof -
    let ?ok = "\<lambda>ao. pa_sealed (fst ao) \<noteq> None \<and> pa_nonce (fst ao) = pa_nonce a \<and> co_pipelineNonce (snd ao) \<noteq> pa_nonce a"
    have step: "?ok (apply_open_option x ao)" if "?ok ao" "x \<noteq> OtherSeal (pa_nonce a)" for x ao
    proof -
      have "pa_nonce a \<noteq> 0" using new by (simp add: attests_def)
      then show ?thesis using that
        by (cases ao; cases x) (auto simp: apply_open_option_def seal_option_def Let_def split: option.splits)
    qed
    have "?ok (foldl (\<lambda>ao x. apply_open_option x ao) ao xs)" if "?ok ao" "OtherSeal (pa_nonce a) \<notin> set xs" for ao xs
      using that
    proof (induction xs arbitrary: ao)
      case (Cons x xs)
      have "?ok (apply_open_option x ao)" using step [of ao x] Cons.prems by auto
      then show ?case using Cons.IH [of "apply_open_option x ao"] Cons.prems(2) by simp
    qed simp
    from this [of "(a', default_open_options)" xs] show ?thesis using new assms(3,4) s(1)
      by (simp add: apply_open_options_def attests_def default_open_options_def AttestPipeline_def)
  qed
  ultimately show ?thesis by blast
qed

definition demo_requirements :: PipelineRequirements where
  "demo_requirements = \<lparr>pr_AuditSinks = [PointerTo ''*audit.Recorder'' 8], pr_Processors = [PointerTo ''*safety.processor'' 9],
     pr_SynchronousAudit = True, pr_LivenessInterval = 5, pr_ShutdownTimeout = 7\<rparr>"

definition demo_attestation :: PipelineAttestation where
  "demo_attestation = \<lparr>pa_nonce = 3, pa_sinks = [(''*audit.Recorder'', 8)], pa_processors = [(''*safety.processor'', 9)],
     pa_synchronousAudit = True, pa_livenessInterval = 5, pa_shutdownTimeout = 7, pa_sealed = None\<rparr>"

lemma demo_attestation_new: "NewPipelineAttestation (\<lambda>n. if n = 0 then Some 0 else Some 3) demo_requirements = Some (Inr demo_attestation)"
proof -
  have "draw_nonce (\<lambda>n. if n = 0 then Some 0 else Some 3) 0 = Some (Inr 3)"
    by (simp add: draw_nonce.simps)
  then show ?thesis
    by (simp add: NewPipelineAttestation_def demo_requirements_def demo_attestation_def pipelineIdentity_def)
qed

theorem attested_options_witness:
  "snd (apply_open_options (required_list demo_requirements @ [Seal]) demo_attestation)
     = (required_options demo_requirements)\<lparr>co_pipelineNonce := 3\<rparr>"
proof -
  let ?ac = "apply_open_options (required_list demo_requirements @ [Seal]) demo_attestation"
  have "AttestPipeline (fst ?ac) (snd ?ac) = nil" by code_simp
  then show ?thesis using attested_options [OF demo_attestation_new, of "required_list demo_requirements @ [Seal]" "fst ?ac" "snd ?ac"]
    by (simp add: demo_attestation_def)
qed

theorem seal_single_use_witness:
  "let (a', c) = apply_open_options (required_list demo_requirements @ [Seal]) demo_attestation;
       (a'', c') = apply_open_options (required_list demo_requirements @ [Seal]) a'
   in AttestPipeline a' c = nil \<and> AttestPipeline a'' c' \<noteq> nil"
proof -
  let ?ac = "apply_open_options (required_list demo_requirements @ [Seal]) demo_attestation"
  have "OtherSeal (pa_nonce demo_attestation) \<notin> set (required_list demo_requirements @ [Seal])"
    by (simp add: required_list_def demo_requirements_def)
  from seal_single_use [OF demo_attestation_new surjective_pairing this surjective_pairing]
  show ?thesis by (simp add: Let_def case_prod_unfold)
qed

end
