(* ===== verification/Clock.thy ===== *)
theory Clock
  imports Prelude
begin

text \<open>
  \<^verbatim>\<open>clock.go\<close>: the detection of wall-clock steps, over clock readings that carry, as a Go \<^verbatim>\<open>time.Time\<close> does, a wall reading
  and possibly a monotonic one.
\<close>

record instant =
  in_wall :: timestamp
  in_mono :: "duration option"

definition zero_instant :: instant where
  "zero_instant = \<lparr>in_wall = 0, in_mono = None\<rparr>"

text \<open>\<^verbatim>\<open>IsZero\<close>, \<^verbatim>\<open>Round(0)\<close> and \<^verbatim>\<open>Sub\<close>, which prefers the monotonic readings where both sides have one.\<close>

definition instant_IsZero :: "instant \<Rightarrow> bool" where
  "instant_IsZero t \<longleftrightarrow> in_wall t = 0"

definition wall_only :: "instant \<Rightarrow> instant" where
  "wall_only t = t\<lparr>in_mono := None\<rparr>"

definition instant_Sub :: "instant \<Rightarrow> instant \<Rightarrow> duration" where
  "instant_Sub t u = (case (in_mono t, in_mono u) of
     (Some a, Some b) \<Rightarrow> time_sub a b
   | _ \<Rightarrow> time_sub (in_wall t) (in_wall u))"

definition DefaultClockStepThreshold :: duration where
  "DefaultClockStepThreshold = 250 * 1000000"

record clockSample =
  cs_Wall :: instant
  cs_Monotonic :: duration
  cs_Step :: duration
  cs_Stepped :: bool

record clockMonitor =
  cm_base :: instant
  cm_lastWall :: instant
  cm_lastMono :: duration
  cm_threshold :: duration
  cm_steps :: u64
  cm_started :: bool

definition newClockMonitor :: "instant \<Rightarrow> duration \<Rightarrow> clockMonitor" where
  "newClockMonitor base threshold = \<lparr>cm_base = base, cm_lastWall = zero_instant, cm_lastMono = 0,
     cm_threshold = (if threshold \<le> 0 then DefaultClockStepThreshold else threshold), cm_steps = 0, cm_started = False\<rparr>"

definition clock_since :: "clockMonitor \<Rightarrow> instant \<Rightarrow> duration" where
  "clock_since m now = instant_Sub now (cm_base m)"

definition clock_observe :: "instant \<Rightarrow> clockMonitor \<Rightarrow> clockMonitor \<times> clockSample" where
  "clock_observe now m =
     (let monotonic = clock_since m now;
          sample = \<lparr>cs_Wall = now, cs_Monotonic = monotonic, cs_Step = 0, cs_Stepped = False\<rparr>
      in if \<not> cm_started m then (m\<lparr>cm_started := True, cm_lastWall := now, cm_lastMono := monotonic\<rparr>, sample)
      else let wallDelta = instant_Sub (wall_only now) (wall_only (cm_lastWall m));
               monoDelta = i64 (monotonic - cm_lastMono m);
               divergence = i64 (wallDelta - monoDelta);
               stepped = duration_abs divergence \<ge> cm_threshold m
           in (m\<lparr>cm_steps := (if stepped then cm_steps m + 1 else cm_steps m), cm_lastWall := now, cm_lastMono := monotonic\<rparr>,
               if stepped then sample\<lparr>cs_Step := divergence, cs_Stepped := True\<rparr> else sample))"

definition stepCount :: "clockMonitor \<Rightarrow> u64" where
  "stepCount m = cm_steps m"

subsection \<open>What a step is\<close>

text \<open>A monitor that has read \<open>t\<close> last.\<close>

definition last_read :: "instant \<Rightarrow> clockMonitor \<Rightarrow> bool" where
  "last_read t m \<longleftrightarrow> cm_started m \<and> cm_lastWall m = t \<and> cm_lastMono m = clock_since m t \<and> 0 < cm_threshold m"

lemma observe_last_read: "0 < cm_threshold m \<Longrightarrow> last_read now (fst (clock_observe now m))"
  by (simp add: clock_observe_def last_read_def clock_since_def Let_def)

lemma observe_base [simp]:
  "cm_base (fst (clock_observe now m)) = cm_base m" "cm_threshold (fst (clock_observe now m)) = cm_threshold m"
  by (simp_all add: clock_observe_def Let_def)

lemma new_monitor_threshold [simp]: "0 < cm_threshold (newClockMonitor base threshold)"
  by (simp add: newClockMonitor_def DefaultClockStepThreshold_def)

text \<open>Readings no further apart than a \<^verbatim>\<open>Duration\<close> can express, with some room for the differences taken.\<close>

definition close_by :: "int \<Rightarrow> int \<Rightarrow> bool" where
  "close_by a b \<longleftrightarrow> \<bar>a - b\<bar> < 2 ^ 61"

lemma time_sub_close: "close_by a b \<Longrightarrow> time_sub a b = a - b"
  by (rule time_sub_exact) (auto simp: close_by_def min_i64_def max_i64_def)

lemma i64_small: "\<bar>x\<bar> < 2 ^ 63 \<Longrightarrow> i64 x = x"
  by (rule i64_id) (auto simp: min_i64_def max_i64_def)

lemma duration_abs_small: "\<bar>x\<bar> < 2 ^ 63 \<Longrightarrow> duration_abs x = \<bar>x\<bar>"
  by (auto simp: duration_abs_def min_i64_def)

text \<open>
  C22. A step is reported exactly when the wall clock moved, between two consecutive readings, at least the threshold more
  or less than the monotonic clock did, and it is reported with its exact size; ordinary progress of both clocks, at any
  rate, reports nothing.
\<close>

theorem clock_step_exact:
  assumes "last_read t m" and "in_mono (cm_base m) = Some b" and "in_mono t = Some p" and "in_mono now = Some q"
    and "close_by p b" and "close_by q b" and "close_by q p" and "close_by (in_wall now) (in_wall t)"
  shows "let divergence = (in_wall now - in_wall t) - (q - p); (m', sample) = clock_observe now m in
    cs_Stepped sample = (\<bar>divergence\<bar> \<ge> cm_threshold m)
    \<and> cs_Step sample = (if \<bar>divergence\<bar> \<ge> cm_threshold m then divergence else 0)
    \<and> stepCount m' = stepCount m + (if \<bar>divergence\<bar> \<ge> cm_threshold m then 1 else 0)
    \<and> cs_Monotonic sample = q - b"
proof -
  let ?d = "(in_wall now - in_wall t) - (q - p)"
  have "\<bar>?d\<bar> < 2 ^ 63" and "\<bar>q - p\<bar> < 2 ^ 63" using assms(7,8) by (auto simp: close_by_def)
  moreover have "q - b - (p - b) = q - p" by simp
  ultimately show ?thesis using assms
    by (simp add: clock_observe_def last_read_def clock_since_def instant_Sub_def wall_only_def Let_def stepCount_def
        time_sub_close i64_small duration_abs_small)
qed

theorem clock_step_exact_witness:
  "let m = fst (clock_observe \<lparr>in_wall = 10, in_mono = Some 5\<rparr> (newClockMonitor \<lparr>in_wall = 10, in_mono = Some 5\<rparr> 3));
       (m', sample) = clock_observe \<lparr>in_wall = 5, in_mono = Some 6\<rparr> m
   in cs_Stepped sample \<and> cs_Step sample = - 6 \<and> stepCount m' = stepCount m + 1"
proof -
  let ?t = "\<lparr>in_wall = 10, in_mono = Some 5\<rparr>" and ?now = "\<lparr>in_wall = 5, in_mono = Some 6\<rparr>"
  let ?m = "fst (clock_observe ?t (newClockMonitor ?t 3))"
  have "last_read ?t ?m" by (rule observe_last_read) simp
  moreover have "cm_base ?m = ?t" "cm_threshold ?m = 3" by (simp_all add: newClockMonitor_def)
  ultimately show ?thesis using clock_step_exact [of ?t ?m 5 5 ?now 6] by (simp add: close_by_def Let_def case_prod_unfold)
qed

text \<open>Without monotonic readings both movements are the wall clock's, and nothing is ever reported.\<close>

lemma no_monotonic_no_step:
  assumes "last_read t m" and "in_mono now = None" and "in_mono t = None"
    and "close_by (in_wall now) (in_wall t)" and "close_by (in_wall now) (in_wall (cm_base m))"
    and "close_by (in_wall t) (in_wall (cm_base m))"
  shows "\<not> cs_Stepped (snd (clock_observe now m))"
proof -
  let ?b = "in_wall (cm_base m)"
  have "\<bar>in_wall now - in_wall t\<bar> < 2 ^ 63" using assms(4) by (auto simp: close_by_def)
  moreover have "in_wall now - ?b - (in_wall t - ?b) = in_wall now - in_wall t" by simp
  ultimately show ?thesis using assms
    by (simp add: clock_observe_def last_read_def clock_since_def instant_Sub_def wall_only_def Let_def
        time_sub_close i64_small duration_abs_small)
qed

end
