(* ===== verification/Controller.thy ===== *)
theory Controller
  imports Subscription Pipeline Clock Tracker AuditRecorder
begin

text \<open>
  The controller pipeline: \<^verbatim>\<open>controller.go\<close> and \<^verbatim>\<open>command.go\<close>. One goroutine, the run loop, owns the pipeline; its turns are
  functions on the controller. The others (the source reader, one worker for every sink, the application) meet it at its
  queues and mutexes; their steps are \<open>outside_step\<close>, and the environment chooses which of them run between the loop's turns
  and, inside an event's dispatch, before it, after the sinks have it, and before the subscribers get it.

  Clock readings, sinks, processors, the health source and the encoding of events are functions of the environment, so that
  they may answer anything, time out or panic. A processor's call is a \<open>processor_call\<close>: it may ask the controller for
  headers before it answers.

  The lists \<open>sr_admitted\<close>, \<open>sr_recorded\<close>, \<open>ct_log\<close>, \<open>ct_shown\<close>, \<open>ct_commands\<close> and \<open>ct_accepted\<close> record what happened and are never read.
\<close>

subsection \<open>Data\<close>

record StateMeta =
  sm_ObservedAt :: timestamp
  sm_ReceivedAt :: instant
  sm_PublishedAt :: timestamp
  sm_ReceivedMonotonic :: duration
  sm_Sequence :: u64
  sm_Connected :: bool
  sm_Stale :: bool
  sm_Synthetic :: bool
  sm_Invalid :: bool
  sm_LastStateChangeMonotonic :: duration
  sm_LastTransportCheckMonotonic :: duration
  sm_TransportCheckSequence :: u64
  sm_TransportSilenceVerifiable :: bool

definition zero_meta :: StateMeta where
  "zero_meta = \<lparr>sm_ObservedAt = 0, sm_ReceivedAt = zero_instant, sm_PublishedAt = 0, sm_ReceivedMonotonic = 0, sm_Sequence = 0,
     sm_Connected = False, sm_Stale = False, sm_Synthetic = False, sm_Invalid = False, sm_LastStateChangeMonotonic = 0,
     sm_LastTransportCheckMonotonic = 0, sm_TransportCheckSequence = 0, sm_TransportSilenceVerifiable = False\<rparr>"

record Observation =
  ob_State :: State
  ob_ObservedAt :: instant
  ob_DeviceTimestamp :: int
  ob_Native :: NativeInput
  ob_Gap :: "(u64 \<times> string) option"

record TransportHealth =
  tp_Sequence :: u64
  tp_CheckedAt :: instant
  tp_Connected :: bool
  tp_SilenceVerifiable :: bool

record sourceResult =
  so_observation :: Observation
  so_receivedAt :: instant
  so_err :: go_error

text \<open>A command's payload is what \<^verbatim>\<open>json.Marshal\<close> made of it; \<open>None\<close> is the nil payload.\<close>

record Command =
  cd_Name :: string
  cd_Payload :: "(go_error + 8 word list) option"
  cd_Authorized :: bool
  cd_Reason :: string
  cd_Causes :: "EventID list"

record commandRequest =
  cq_command :: Command
  cq_payload :: "8 word list"
  cq_issuedAt :: instant
  cq_response :: "nat option"

record sinkRecord =
  sq_event :: Event
  sq_canonical :: "CanonicalEvent option"

record sinkRunner =
  sr_canonical :: bool
  sr_queue :: "sinkRecord list"
  sr_err :: go_error
  sr_calls :: nat
  sr_admitted :: "Event list"
  sr_recorded :: "Event list"

definition newSinkRunner :: "bool \<Rightarrow> sinkRunner" where
  "newSinkRunner canonical = \<lparr>sr_canonical = canonical, sr_queue = [], sr_err = nil, sr_calls = 0, sr_admitted = [],
     sr_recorded = []\<rparr>"

text \<open>How a call of user code ends: \<^verbatim>\<open>callGuarded\<close> and \<^verbatim>\<open>sinkRunner.record\<close> run it with a deadline and recover its panics.\<close>

datatype 'a callback_result = Answered 'a | CallbackPanicked | DeadlinePassed | Cancelled

datatype processor_call =
    Ask string timestamp int "EventID list" "Header \<Rightarrow> processor_call"
  | Finish "(Event option list \<times> go_error) callback_result"

record controller =
  ct_session :: session_id
  ct_device :: device_id
  ct_backend :: string
  ct_capability :: Capabilities
  ct_options :: controllerOptions
  ct_advancing :: "bool list"
  ct_hasHealth :: bool
  ct_clocks :: clockMonitor
  ct_state :: State
  ct_meta :: StateMeta
  ct_allocated :: highwater
  ct_published :: highwater
  ct_subs :: "subscription list"
  ct_subscribers :: "nat list"
  ct_terminalErr :: go_error
  ct_connection :: "Event option"
  ct_capabilities :: "Event option"
  ct_observation :: "Event option"
  ct_sinks :: "sinkRunner list"
  ct_disabled :: "bool list"
  ct_lastLiveness :: instant
  ct_startedAt :: instant
  ct_healthSequence :: u64
  ct_healthMonotonic :: duration
  ct_silenceVerifiable :: bool
  ct_reading :: bool
  ct_ingest :: "sourceResult list"
  ct_external :: "commandRequest list"
  ct_fatal :: "go_error list"
  ct_accepting :: bool
  ct_responses :: "(nat \<times> EventID \<times> go_error) list"
  ct_sourceDone :: bool
  ct_done :: bool
  ct_tick :: nat
  ct_log :: "Event list"
  ct_shown :: "Event list"
  ct_accepted :: "commandRequest list"
  ct_commands :: "(commandRequest \<times> Event) list"

datatype outside =
    Subscribing DeliveryPolicy int
  | Receiving nat go_error
  | Unsubscribing nat
  | SinkWorks nat
  | AttemptCommand commandRequest
  | SourceReads sourceResult
  | LateHeader string
  | CancelsSource

record ctl_env =
  en_library :: audit_library
  en_encode :: "Event \<Rightarrow> (go_error + string) outcome"
  en_now :: "nat \<Rightarrow> instant"
  en_sink :: "nat \<Rightarrow> nat \<Rightarrow> sinkRecord \<Rightarrow> go_error callback_result"
  en_process :: "nat \<Rightarrow> nat \<Rightarrow> Event option \<Rightarrow> processor_call"
  en_advance :: "nat \<Rightarrow> nat \<Rightarrow> instant \<Rightarrow> processor_call"
  en_panics :: "Event \<Rightarrow> bool"
  en_health :: "nat \<Rightarrow> TransportHealth outcome"
  en_outside :: "nat \<Rightarrow> outside list"
  en_drains :: "nat \<Rightarrow> bool"
  en_closes :: "go_error callback_result"
  en_error_text :: "go_error \<Rightarrow> string"
  en_canonical :: "callback \<Rightarrow> bool"
  en_advancing :: "callback \<Rightarrow> bool"

subsection \<open>Headers\<close>

definition read_clock :: "ctl_env \<Rightarrow> controller \<Rightarrow> controller \<times> instant" where
  "read_clock E c = (c\<lparr>ct_tick := ct_tick c + 1\<rparr>, en_now E (ct_tick c))"

definition allocate :: "string \<Rightarrow> controller \<Rightarrow> controller \<times> u64" where
  "allocate stream c =
     (let sequence = Expected (Some (ct_allocated c)) stream in
      if sequence = 0 then (c, 0)
      else case Advance (Some (ct_allocated c)) stream sequence of
        Returned (Some h, True) \<Rightarrow> (c\<lparr>ct_allocated := h\<rparr>, sequence)
      | _ \<Rightarrow> (c, 0))"

definition nextHeaderAt ::
  "ctl_env \<Rightarrow> string \<Rightarrow> timestamp \<Rightarrow> instant \<Rightarrow> int \<Rightarrow> EventID list \<Rightarrow> bool \<Rightarrow> controller \<Rightarrow> controller \<times> Header" where
  "nextHeaderAt E stream observedAt receivedAt deviceTimestamp causes synthetic c =
     (let (c, sequence) = allocate stream c;
          (c, receivedAt) = (if instant_IsZero receivedAt then read_clock E c else (c, receivedAt));
          (c, publishedAt) = read_clock E c
      in (c, \<lparr>hd_ID = \<lparr>id_Session = ct_session c, id_Stream = stream, id_Sequence = sequence\<rparr>, hd_DeviceID = ct_device c,
              hd_ObservedAt = observedAt, hd_ReceivedAt = in_wall receivedAt, hd_PublishedAt = in_wall publishedAt,
              hd_Monotonic = clock_since (ct_clocks c) publishedAt, hd_ReceivedMonotonic = clock_since (ct_clocks c) receivedAt,
              hd_DeviceTimestamp = deviceTimestamp, hd_Causes = causes, hd_Synthetic = synthetic\<rparr>))"

definition NewHeader :: "ctl_env \<Rightarrow> string \<Rightarrow> timestamp \<Rightarrow> int \<Rightarrow> EventID list \<Rightarrow> controller \<Rightarrow> controller \<times> Header" where
  "NewHeader E stream observedAt deviceTimestamp causes c =
     (let (c, now) = read_clock E c
      in nextHeaderAt E (if stream = [] then ''derived'' else stream) observedAt now deviceTimestamp causes False c)"

definition validateNextPublished :: "EventID \<Rightarrow> controller \<Rightarrow> go_error" where
  "validateNextPublished i c =
     (if id_Session i \<noteq> ct_session c then [ErrInvalidState]
      else let want = Expected (Some (ct_published c)) (id_Stream i) in
        if id_Stream i = [] \<or> id_Sequence i = 0 then [ErrInvalidState]
        else if want = 0 then [ErrInvalidState]
        else if id_Sequence i \<noteq> want then [ErrInvalidState]
        else nil)"

definition markPublished :: "Event \<Rightarrow> controller \<Rightarrow> controller \<times> go_error" where
  "markPublished event c =
     (let i = hd_ID (event_header event) in
      if id_Session i \<noteq> ct_session c then (c, [ErrInvalidState])
      else case Advance (Some (ct_published c)) (id_Stream i) (id_Sequence i) of
        Returned (Some h, True) \<Rightarrow> (c\<lparr>ct_published := h, ct_log := ct_log c @ [event]\<rparr>, nil)
      | _ \<Rightarrow> (c, [ErrInvalidState]))"

subsection \<open>Sinks\<close>

definition requestFatal :: "go_error \<Rightarrow> controller \<Rightarrow> controller" where
  "requestFatal err c =
     (if err = nil then c
      else if length (ct_fatal c) < length (ct_sinks c) + 2 then c\<lparr>ct_fatal := ct_fatal c @ [err]\<rparr> else c)"

text \<open>\<^verbatim>\<open>sinkRunner.enqueue\<close> and one turn of the loop of \<^verbatim>\<open>sinkRunner.run\<close>, which gives the error to a synchronous record's
  waiter.\<close>

definition sink_enqueue :: "controllerOptions \<Rightarrow> sinkRecord \<Rightarrow> sinkRunner \<Rightarrow> sinkRunner \<times> go_error" where
  "sink_enqueue options record r =
     (if sr_err r \<noteq> nil then (r, sr_err r)
      else if int (length (sr_queue r)) < co_sinkBuffer options then
        (r\<lparr>sr_queue := sr_queue r @ [record], sr_admitted := sr_admitted r @ [sq_event record]\<rparr>, nil)
      else (r, [ErrPipelineOverflow]))"

definition sink_record :: "ctl_env \<Rightarrow> nat \<Rightarrow> sinkRecord \<Rightarrow> sinkRunner \<Rightarrow> sinkRunner \<times> go_error" where
  "sink_record E i record r =
     (let r' = r\<lparr>sr_calls := sr_calls r + 1\<rparr> in
      case en_sink E i (sr_calls r) record of
        Answered err \<Rightarrow> (if err = nil then r'\<lparr>sr_recorded := sr_recorded r @ [sq_event record]\<rparr> else r', err)
      | CallbackPanicked \<Rightarrow> (r', [ErrCallbackPanic])
      | DeadlinePassed \<Rightarrow> (r', [ErrCallbackTimeout])
      | Cancelled \<Rightarrow> (r', [ErrClosed]))"

definition sink_work :: "ctl_env \<Rightarrow> nat \<Rightarrow> controller \<Rightarrow> controller \<times> go_error" where
  "sink_work E i c = (case sr_queue (ct_sinks c ! i) of
     [] \<Rightarrow> (c, nil)
   | record # rest \<Rightarrow>
       let r = (ct_sinks c ! i)\<lparr>sr_queue := rest\<rparr>;
           (r, failure) = (if sr_err r = nil then sink_record E i record r else (r, sr_err r))
       in if failure = nil \<or> sr_err r \<noteq> nil then (c\<lparr>ct_sinks := (ct_sinks c)[i := r]\<rparr>, failure)
          else (requestFatal failure (c\<lparr>ct_sinks := (ct_sinks c)[i := r\<lparr>sr_err := failure\<rparr>]\<rparr>), failure))"

text \<open>Waiting for the completion of the record at the end of the queue: the worker empties it. The fuel is the length of the
  queue, which nothing else fills meanwhile.\<close>

primrec sink_drain :: "ctl_env \<Rightarrow> nat \<Rightarrow> nat \<Rightarrow> controller \<Rightarrow> controller \<times> go_error" where
  "sink_drain E i 0 c = (c, nil)"
| "sink_drain E i (Suc n) c = (let (c, err) = sink_work E i c in if n = 0 then (c, err) else sink_drain E i n c)"

definition sink_wait :: "ctl_env \<Rightarrow> nat \<Rightarrow> controller \<Rightarrow> controller \<times> go_error" where
  "sink_wait E i c = sink_drain E i (length (sr_queue (ct_sinks c ! i))) c"

definition as_go_event :: "ctl_env \<Rightarrow> Event \<Rightarrow> go_event" where
  "as_go_event E event = OtherEvent (Returned (event_header event)) (Returned (event_kind event)) (en_encode E event)"

text \<open>The loop over the sinks in \<^verbatim>\<open>admitSinkRecords\<close>; it returns the sinks whose completion is to be awaited.\<close>

primrec admit_to :: "ctl_env \<Rightarrow> Event \<Rightarrow> CanonicalEvent option \<Rightarrow> nat list \<Rightarrow> controller \<Rightarrow> controller \<times> nat list \<times> go_error" where
  "admit_to E event canonical [] c = (c, [], nil)"
| "admit_to E event canonical (i # is) c =
     (let r = ct_sinks c ! i in
      if sr_canonical r \<and> canonical = None then (c, [], [ErrInvalidState])
      else let record = \<lparr>sq_event = event, sq_canonical = (if sr_canonical r then canonical else None)\<rparr>;
               (r, err) = sink_enqueue (ct_options c) record r;
               (c, waits, errs) = admit_to E event canonical is (c\<lparr>ct_sinks := (ct_sinks c)[i := r]\<rparr>)
           in if err \<noteq> nil then (c, waits, err @ errs) else (c, i # waits, errs))"

definition admitSinkRecords :: "ctl_env \<Rightarrow> Event \<Rightarrow> controller \<Rightarrow> controller \<times> nat list \<times> go_error" where
  "admitSinkRecords E event c =
     (if list_ex sr_canonical (ct_sinks c) then
        (case FreezeEvent (en_library E) (as_go_event E event) of
           Inl err \<Rightarrow> (c, [], err)
         | Inr frozen \<Rightarrow> admit_to E event (Some frozen) [0..<length (ct_sinks c)] c)
      else admit_to E event None [0..<length (ct_sinks c)] c)"

definition enqueueSinks :: "ctl_env \<Rightarrow> Event \<Rightarrow> controller \<Rightarrow> controller \<times> go_error" where
  "enqueueSinks E event c = (let (c, waits, err) = admitSinkRecords E event c in (c, err))"

primrec await_all :: "ctl_env \<Rightarrow> nat list \<Rightarrow> controller \<Rightarrow> controller \<times> go_error" where
  "await_all E [] c = (c, nil)"
| "await_all E (i # is) c =
     (let (c, err) = sink_wait E i c; (c, errs) = await_all E is c in (c, err @ errs))"

definition recordSinks :: "ctl_env \<Rightarrow> Event \<Rightarrow> controller \<Rightarrow> controller \<times> go_error" where
  "recordSinks E event c =
     (let (c, waits, err) = admitSinkRecords E event c; (c, errs) = await_all E waits c in (c, err @ errs))"

subsection \<open>The steps of the other goroutines\<close>

definition removeSubscription :: "nat \<Rightarrow> controller \<Rightarrow> controller" where
  "removeSubscription i c = c\<lparr>ct_subscribers := filter (\<lambda>j. j \<noteq> i) (ct_subscribers c)\<rparr>"

text \<open>The replay of the latched events to a new subscriber stops at an overflow, which detaches it.\<close>

fun replay_latched :: "nat \<Rightarrow> Event option list \<Rightarrow> controller \<Rightarrow> controller" where
  "replay_latched i [] c = c"
| "replay_latched i (None # es) c = replay_latched i es c"
| "replay_latched i (Some event # es) c =
     (case sub_enqueue event (ct_subs c ! i) of (s, dropped, overflow) \<Rightarrow>
        let c = c\<lparr>ct_subs := (ct_subs c)[i := s]\<rparr>
        in if overflow then removeSubscription i c else replay_latched i es c)"

definition ctl_Subscribe :: "DeliveryPolicy \<Rightarrow> int \<Rightarrow> controller \<Rightarrow> controller \<times> (go_error + nat)" where
  "ctl_Subscribe policy buffer c =
     (let buffer = (if buffer \<le> 0 then 1024 else buffer) in
      if policy \<noteq> DeliveryLossless \<and> policy \<noteq> DeliveryLatest then (c, Inl [ErrUnsupported])
      else if ct_terminalErr c \<noteq> nil then (c, Inl (ct_terminalErr c))
      else let i = length (ct_subs c);
               c = c\<lparr>ct_subs := ct_subs c @ [newEventSubscription policy (nat buffer)], ct_subscribers := ct_subscribers c @ [i]\<rparr>
           in (replay_latched i [ct_connection c, ct_capabilities c, ct_observation c] c, Inr i))"

definition ctl_Close_subscription :: "nat \<Rightarrow> controller \<Rightarrow> controller" where
  "ctl_Close_subscription i c =
     removeSubscription i (c\<lparr>ct_subs := (ct_subs c)[i := sub_terminate [ErrClosed] (ct_subs c ! i)]\<rparr>)"

definition tryEnqueueCommand :: "commandRequest \<Rightarrow> controller \<Rightarrow> controller \<times> bool \<times> bool" where
  "tryEnqueueCommand request c =
     (if \<not> ct_accepting c then (c, False, False)
      else if int (length (ct_external c)) < co_ingestBuffer (ct_options c) then
        (c\<lparr>ct_external := ct_external c @ [request], ct_accepted := ct_accepted c @ [request]\<rparr>, True, True)
      else (c, False, True))"

text \<open>One turn of \<^verbatim>\<open>readLoop\<close>. A blocked send under \<^verbatim>\<open>replayBackpressure\<close> is a turn that changes nothing.\<close>

definition readLoop_turn :: "sourceResult \<Rightarrow> controller \<Rightarrow> controller" where
  "readLoop_turn result c =
     (if \<not> ct_reading c then c
      else if int (length (ct_ingest c)) < co_ingestBuffer (ct_options c) then
        c\<lparr>ct_ingest := ct_ingest c @ [result], ct_reading := (so_err result = nil)\<rparr>
      else if ct_sourceDone c then c\<lparr>ct_reading := False\<rparr>
      else if co_replayBackpressure (ct_options c) then c
      else requestFatal [ErrPipelineOverflow] (c\<lparr>ct_reading := False\<rparr>))"

text \<open>A processor call that has timed out may still be running and ask for headers: \<open>LateHeader\<close>.\<close>

definition outside_step :: "ctl_env \<Rightarrow> outside \<Rightarrow> controller \<Rightarrow> controller" where
  "outside_step E x c = (case x of
     Subscribing policy buffer \<Rightarrow> fst (ctl_Subscribe policy buffer c)
   | Receiving i ctxErr \<Rightarrow>
       if i < length (ct_subs c) then c\<lparr>ct_subs := (ct_subs c)[i := fst (sub_Next ctxErr (ct_subs c ! i))]\<rparr> else c
   | Unsubscribing i \<Rightarrow> if i < length (ct_subs c) then ctl_Close_subscription i c else c
   | SinkWorks i \<Rightarrow> if i < length (ct_sinks c) then fst (sink_work E i c) else c
   | AttemptCommand request \<Rightarrow> fst (tryEnqueueCommand request c)
   | SourceReads result \<Rightarrow> readLoop_turn result c
   | LateHeader stream \<Rightarrow> fst (allocate (if stream = [] then ''derived'' else stream) c)
   | CancelsSource \<Rightarrow> c\<lparr>ct_sourceDone := True\<rparr>)"

primrec outside_steps :: "ctl_env \<Rightarrow> outside list \<Rightarrow> controller \<Rightarrow> controller" where
  "outside_steps E [] c = c"
| "outside_steps E (x # xs) c = outside_steps E xs (outside_step E x c)"

definition interfere :: "ctl_env \<Rightarrow> controller \<Rightarrow> controller" where
  "interfere E c = outside_steps E (en_outside E (ct_tick c)) (c\<lparr>ct_tick := ct_tick c + 1\<rparr>)"

subsection \<open>Dispatch\<close>

definition recordSubscriptionGap :: "ctl_env \<Rightarrow> Event \<Rightarrow> u64 \<Rightarrow> string \<Rightarrow> controller \<Rightarrow> controller \<times> go_error" where
  "recordSubscriptionGap E cause dropped reason c =
     (let (c, now) = read_clock E c;
          (c, h) = nextHeaderAt E ''delivery'' (in_wall now) now 0 [hd_ID (event_header cause)] True c;
          event = GapEvent h ''subscription'' dropped reason;
          err = validateNextPublished (hd_ID h) c
      in if err \<noteq> nil then (c, err)
         else let (c, err) = (if co_synchronousAudit (ct_options c) then recordSinks E event c else enqueueSinks E event c)
              in if err \<noteq> nil then (c, err) else markPublished event c)"

text \<open>The latches, the loop over the subscribers, and what each lost: by coalescing, by overflow, and who overflowed.\<close>

definition latch :: "Event \<Rightarrow> controller \<Rightarrow> controller" where
  "latch event c =
     (if event_kind event = ''device.connection'' then c\<lparr>ct_connection := Some event\<rparr>
      else if event_kind event = ''device.capabilities'' then c\<lparr>ct_capabilities := Some event\<rparr>
      else if event_kind event = ''input.observation'' then c\<lparr>ct_observation := Some event\<rparr>
      else c)"

primrec deliver_to :: "Event \<Rightarrow> nat list \<Rightarrow> controller \<Rightarrow> controller \<times> u64 \<times> u64 \<times> nat list" where
  "deliver_to event [] c = (c, 0, 0, [])"
| "deliver_to event (i # is) c =
     (case sub_enqueue event (ct_subs c ! i) of (s, lost, overflow) \<Rightarrow>
      case deliver_to event is (c\<lparr>ct_subs := (ct_subs c)[i := s]\<rparr>) of (c, latest, lossless, gone) \<Rightarrow>
        if overflow then (c, latest, lossless + lost, i # gone) else (c, latest + lost, lossless, gone))"

definition expose :: "Event \<Rightarrow> controller \<Rightarrow> controller \<times> u64 \<times> u64" where
  "expose event c =
     (let c = latch event c;
          (c, latest, lossless, gone) = deliver_to event (ct_subscribers c) (c\<lparr>ct_shown := ct_shown c @ [event]\<rparr>)
      in (c\<lparr>ct_subscribers := filter (\<lambda>i. i \<notin> set gone) (ct_subscribers c)\<rparr>, latest, lossless))"

definition report_losses :: "ctl_env \<Rightarrow> Event \<Rightarrow> u64 \<Rightarrow> u64 \<Rightarrow> go_error \<Rightarrow> controller \<Rightarrow> controller \<times> go_error" where
  "report_losses E event latest lossless dispatchErr c =
     (let (c, err1) = (if latest > 0 then recordSubscriptionGap E event latest ''DeliveryLatest coalesced a full queue'' c
            else (c, nil));
          (c, err2) = (if lossless > 0 then recordSubscriptionGap E event lossless ''DeliveryLossless subscription overflowed'' c
            else (c, nil))
      in (c, dispatchErr @ err1 @ err2))"

definition dispatchWithMode ::
  "ctl_env \<Rightarrow> Event \<Rightarrow> bool \<Rightarrow> bool \<Rightarrow> (controller \<Rightarrow> controller) \<Rightarrow> controller \<Rightarrow> controller \<times> go_error" where
  "dispatchWithMode E event reportLoss synchronous commit c =
     (let c = interfere E c;
          i = hd_ID (event_header event);
          identityErr = validateNextPublished i c
      in if identityErr \<noteq> nil \<and> reportLoss then (c, identityErr)
      else let (c, dispatchErr) = (if synchronous then recordSinks E event c else enqueueSinks E event c)
      in if dispatchErr \<noteq> nil \<and> reportLoss then (c, dispatchErr)
      else let c = commit (interfere E c);
               (c, markErr) = (if identityErr = nil then markPublished event c else (c, nil))
      in if markErr \<noteq> nil \<and> reportLoss then (c, markErr)
      else let (c, latest, lossless) = expose event (interfere E c)
      in if reportLoss then report_losses E event latest lossless dispatchErr c else (c, dispatchErr))"

definition dispatch :: "ctl_env \<Rightarrow> Event \<Rightarrow> bool \<Rightarrow> controller \<Rightarrow> controller \<times> go_error" where
  "dispatch E event reportLoss c = dispatchWithMode E event reportLoss (co_synchronousAudit (ct_options c)) (\<lambda>c. c) c"

subsection \<open>Processors\<close>

primrec run_call :: "ctl_env \<Rightarrow> processor_call \<Rightarrow> controller \<Rightarrow> controller \<times> Event option list \<times> go_error" where
  "run_call E (Ask stream observedAt deviceTimestamp causes k) c =
     (case NewHeader E stream observedAt deviceTimestamp causes c of (c, h) \<Rightarrow> run_call E (k h) c)"
| "run_call E (Finish result) c = (c, case result of
     Answered r \<Rightarrow> r
   | CallbackPanicked \<Rightarrow> ([], [ErrCallbackPanic])
   | DeadlinePassed \<Rightarrow> ([], [ErrCallbackTimeout])
   | Cancelled \<Rightarrow> ([], [ErrClosed]))"

definition callProcessor :: "ctl_env \<Rightarrow> nat \<Rightarrow> Event option \<Rightarrow> controller \<Rightarrow> controller \<times> Event option list \<times> go_error" where
  "callProcessor E index event c = run_call E (en_process E index (ct_tick c) event) (c\<lparr>ct_tick := ct_tick c + 1\<rparr>)"

definition disable :: "nat \<Rightarrow> controller \<Rightarrow> controller" where
  "disable index c = c\<lparr>ct_disabled := (ct_disabled c)[index := True]\<rparr>"

definition dispatchProcessorOutput :: "ctl_env \<Rightarrow> Event \<Rightarrow> controller \<Rightarrow> controller \<times> bool \<times> go_error" where
  "dispatchProcessorOutput E event c =
     (if en_panics E event then (c, True, [ErrCallbackPanic])
      else case dispatch E event True c of (c, err) \<Rightarrow> (c, False, err))"

text \<open>The two inner loops of a stage: a call for every input, a dispatch for every output.\<close>

primrec stage_calls :: "ctl_env \<Rightarrow> nat \<Rightarrow> Event option list \<Rightarrow> controller \<Rightarrow> controller \<times> Event option list \<times> go_error" where
  "stage_calls E index [] c = (c, [], nil)"
| "stage_calls E index (input # inputs) c = (case callProcessor E index input c of (c, outputs, err) \<Rightarrow>
     if err \<noteq> nil then (disable index c, [], err)
     else case stage_calls E index inputs c of (c, derived, err) \<Rightarrow> (c, outputs @ derived, err))"

fun stage_outputs :: "ctl_env \<Rightarrow> nat \<Rightarrow> Event option list \<Rightarrow> controller \<Rightarrow> controller \<times> Event option list \<times> go_error" where
  "stage_outputs E index [] c = (c, [], nil)"
| "stage_outputs E index (None # outputs) c = stage_outputs E index outputs c"
| "stage_outputs E index (Some event # outputs) c = (case dispatchProcessorOutput E event c of (c, panicked, err) \<Rightarrow>
     if err \<noteq> nil then (if panicked then disable index c else c, [], err)
     else case stage_outputs E index outputs c of (c, visible, err) \<Rightarrow> (c, Some event # visible, err))"

primrec run_stages :: "ctl_env \<Rightarrow> nat list \<Rightarrow> Event option list \<Rightarrow> controller \<Rightarrow> controller \<times> go_error" where
  "run_stages E [] visible c = (c, nil)"
| "run_stages E (index # rest) visible c =
     (if ct_disabled c ! index then run_stages E rest visible c
      else case stage_calls E index visible c of (c, derived, err) \<Rightarrow>
        if err \<noteq> nil then (c, err)
        else case stage_outputs E index derived c of (c, shown, err) \<Rightarrow>
          if err \<noteq> nil then (c, err) else run_stages E rest (visible @ shown) c)"

definition processStages :: "ctl_env \<Rightarrow> Event option list \<Rightarrow> nat \<Rightarrow> controller \<Rightarrow> controller \<times> go_error" where
  "processStages E inputs start c = run_stages E [start..<length (co_processors (ct_options c))] inputs c"

definition publishWithCommit :: "ctl_env \<Rightarrow> Event \<Rightarrow> (controller \<Rightarrow> controller) \<Rightarrow> controller \<Rightarrow> controller \<times> go_error" where
  "publishWithCommit E event commit c =
     (case dispatchWithMode E event True (co_synchronousAudit (ct_options c)) commit c of (c, err) \<Rightarrow>
        if err \<noteq> nil then (c, err) else processStages E [Some event] 0 c)"

definition publish :: "ctl_env \<Rightarrow> Event \<Rightarrow> controller \<Rightarrow> controller \<times> go_error" where
  "publish E event c = (case dispatch E event True c of (c, err) \<Rightarrow>
     if err \<noteq> nil then (c, err) else processStages E [Some event] 0 c)"

definition publishSynchronous :: "ctl_env \<Rightarrow> Event \<Rightarrow> controller \<Rightarrow> controller \<times> go_error" where
  "publishSynchronous E event c = (case dispatchWithMode E event True True (\<lambda>c. c) c of (c, err) \<Rightarrow>
     if err \<noteq> nil then (c, err)
     else case processStages E [Some event] 0 c of (c, err) \<Rightarrow>
       (c, if err \<noteq> nil then ErrCommandPublicationUncertain # err else nil))"

subsection \<open>Observations and ticks\<close>

definition within_range :: "rat \<Rightarrow> rat \<Rightarrow> fp \<Rightarrow> bool" where
  "within_range minimum maximum value \<longleftrightarrow>
     \<not> (is_nan value \<or> is_inf value) \<and> \<not> (fp_lt value (Fin minimum) \<or> fp_lt (Fin maximum) value)"

definition pressed_extensions :: "(control_id, bool) fmap option \<Rightarrow> (control_id, bool) fmap option" where
  "pressed_extensions m = map_option (\<lambda>f. fmfilter (\<lambda>i. fmlookup f i = Some True) f) m"

definition sanitizeState :: "State \<Rightarrow> State \<times> bool" where
  "sanitizeState s =
     (if within_range (- 1) 1 (stick_X (st_LeftStick s)) \<and> within_range (- 1) 1 (stick_Y (st_LeftStick s))
        \<and> within_range (- 1) 1 (stick_X (st_RightStick s)) \<and> within_range (- 1) 1 (stick_Y (st_RightStick s))
        \<and> within_range 0 1 (st_LeftTrigger s) \<and> within_range 0 1 (st_RightTrigger s)
      then (s\<lparr>st_Buttons := (st_Buttons s)\<lparr>Extensions := pressed_extensions (Extensions (st_Buttons s))\<rparr>\<rparr>, False)
      else (zero_state, True))"

definition checkClock :: "ctl_env \<Rightarrow> instant \<Rightarrow> controller \<Rightarrow> controller \<times> go_error" where
  "checkClock E now c = (case clock_observe now (ct_clocks c) of (m, sample) \<Rightarrow>
     let c = c\<lparr>ct_clocks := m\<rparr> in
     if \<not> cs_Stepped sample then (c, nil)
     else case nextHeaderAt E ''input'' (in_wall now) now 0 [] True c of (c, h) \<Rightarrow>
       publish E (ClockEvent h (cs_Step sample) (stepCount m) ''host wall clock stepped relative to monotonic clock'') c)"

primrec publish_all :: "ctl_env \<Rightarrow> Event list \<Rightarrow> controller \<Rightarrow> controller \<times> go_error" where
  "publish_all E [] c = (c, nil)"
| "publish_all E (event # events) c = and_then (publish E event c) (publish_all E events)"

definition header_supply ::
  "ctl_env \<Rightarrow> timestamp \<Rightarrow> instant \<Rightarrow> int \<Rightarrow> EventID list \<Rightarrow> bool \<Rightarrow> controller \<Rightarrow> Header \<times> controller" where
  "header_supply E observedAt receivedAt deviceTimestamp causes synthetic c =
     prod.swap (nextHeaderAt E ''input'' observedAt receivedAt deviceTimestamp causes synthetic c)"

definition report_invalid :: "ctl_env \<Rightarrow> timestamp \<Rightarrow> instant \<Rightarrow> int \<Rightarrow> controller \<Rightarrow> controller \<times> go_error" where
  "report_invalid E observedAt receivedAt ts c = (case nextHeaderAt E ''input'' observedAt receivedAt ts [] True c of (c, h) \<Rightarrow>
     publish E (ErrorEvent h ''teleop: invalid controller state: invalid analog observation was neutralized in full'' [ErrInvalidState]) c)"

definition report_gap :: "ctl_env \<Rightarrow> timestamp \<Rightarrow> instant \<Rightarrow> int \<Rightarrow> u64 \<times> string \<Rightarrow> controller \<Rightarrow> controller \<times> go_error" where
  "report_gap E observedAt receivedAt ts gap c = (case nextHeaderAt E ''input'' observedAt receivedAt ts [] False c of (c, h) \<Rightarrow>
     publish E (GapEvent h (ct_backend c) (fst gap) (snd gap)) c)"

text \<open>The commit and the derived events of an observation; the new state's metadata.\<close>

definition observed_meta :: "timestamp \<Rightarrow> instant \<Rightarrow> bool \<Rightarrow> State \<Rightarrow> Header \<Rightarrow> controller \<Rightarrow> StateMeta" where
  "observed_meta observedAt receivedAt invalid state h c =
     \<lparr>sm_ObservedAt = observedAt, sm_ReceivedAt = receivedAt, sm_PublishedAt = hd_PublishedAt h,
      sm_ReceivedMonotonic = hd_ReceivedMonotonic h, sm_Sequence = id_Sequence (hd_ID h), sm_Connected = True, sm_Stale = False,
      sm_Synthetic = invalid, sm_Invalid = invalid,
      sm_LastStateChangeMonotonic = (if sm_Sequence (ct_meta c) = 0 \<or> \<not> deep_equal (ct_state c) state
        then hd_ReceivedMonotonic h else sm_LastStateChangeMonotonic (ct_meta c)),
      sm_LastTransportCheckMonotonic = hd_ReceivedMonotonic h,
      sm_TransportCheckSequence = sm_TransportCheckSequence (ct_meta c) + 1,
      sm_TransportSilenceVerifiable = ct_silenceVerifiable c\<rparr>"

definition publish_observation ::
  "ctl_env \<Rightarrow> Observation \<Rightarrow> timestamp \<Rightarrow> instant \<Rightarrow> State \<Rightarrow> bool \<Rightarrow> controller \<Rightarrow> controller \<times> go_error" where
  "publish_observation E observation observedAt receivedAt state invalid c =
     (let previous = ct_state c in
      case nextHeaderAt E ''input'' observedAt receivedAt (ob_DeviceTimestamp observation) [] invalid c of (c, h) \<Rightarrow>
      let nextMeta = observed_meta observedAt receivedAt invalid state h c in
      and_then (publishWithCommit E (ObservationEvent h (ob_Native observation) previous state)
          (\<lambda>c. c\<lparr>ct_state := state, ct_meta := nextMeta\<rparr>) c)
        (\<lambda>c. case diffEvents previous state
            (header_supply E observedAt receivedAt (ob_DeviceTimestamp observation) [hd_ID h] invalid) c of (events, c) \<Rightarrow>
          publish_all E events c))"

definition handleObservation :: "ctl_env \<Rightarrow> Observation \<Rightarrow> instant \<Rightarrow> controller \<Rightarrow> controller \<times> go_error" where
  "handleObservation E observation receivedAt c =
     and_then (checkClock E receivedAt c) (\<lambda>c.
       let observedAt = in_wall (if instant_IsZero (ob_ObservedAt observation) then receivedAt else ob_ObservedAt observation);
           (state, invalid) = sanitizeState (ob_State observation);
           ts = ob_DeviceTimestamp observation
       in and_then (if invalid then report_invalid E observedAt receivedAt ts c else (c, nil)) (\<lambda>c.
          and_then (case ob_Gap observation of None \<Rightarrow> (c, nil) | Some gap \<Rightarrow> report_gap E observedAt receivedAt ts gap c)
            (publish_observation E observation observedAt receivedAt state invalid)))"

definition update_meta :: "(StateMeta \<Rightarrow> StateMeta) \<Rightarrow> controller \<Rightarrow> controller" where
  "update_meta f c = c\<lparr>ct_meta := f (ct_meta c)\<rparr>"

definition connected_if :: "bool \<Rightarrow> StateMeta \<Rightarrow> StateMeta" where
  "connected_if ok m = (if ok then m else m\<lparr>sm_Connected := False\<rparr>)"

definition refreshTransportHealth :: "ctl_env \<Rightarrow> instant \<Rightarrow> controller \<Rightarrow> controller \<times> go_error" where
  "refreshTransportHealth E now c =
     (if \<not> ct_hasHealth c then (c, nil)
      else let tick = ct_tick c; c = c\<lparr>ct_tick := tick + 1\<rparr> in
      case en_health E tick of
        Panicked \<Rightarrow> (c, [ErrCallbackPanic])
      | Returned health \<Rightarrow>
          let c = c\<lparr>ct_silenceVerifiable := tp_SilenceVerifiable health\<rparr>; n = tp_Sequence health; seen = ct_healthSequence c in
          if seen > 0 \<and> n < seen then (c, [ErrInvalidState])
          else if n = 0 \<or> n = seen then
            (update_meta (\<lambda>m. connected_if (\<not> (n > 0 \<and> \<not> tp_Connected health))
                (m\<lparr>sm_TransportSilenceVerifiable := tp_SilenceVerifiable health\<rparr>)) c,
             if n > 0 \<and> \<not> tp_Connected health then [ErrDisconnected] else nil)
          else if instant_IsZero (tp_CheckedAt health) then (c, [ErrInvalidState])
          else let checked = min (max (clock_since (ct_clocks c) (tp_CheckedAt health)) 0) (clock_since (ct_clocks c) now) in
          if seen > 0 \<and> checked < ct_healthMonotonic c then (c, [ErrInvalidState])
          else (update_meta (\<lambda>m. connected_if (tp_Connected health)
                  (m\<lparr>sm_LastTransportCheckMonotonic := max (sm_LastTransportCheckMonotonic m) checked,
                     sm_TransportCheckSequence := sm_TransportCheckSequence m + 1,
                     sm_TransportSilenceVerifiable := tp_SilenceVerifiable health\<rparr>))
                (c\<lparr>ct_healthSequence := n, ct_healthMonotonic := checked\<rparr>),
               if tp_Connected health then nil else [ErrDisconnected]))"

definition synthetic_native :: "string \<Rightarrow> NativeInput" where
  "synthetic_native reason = \<lparr>native_Format = ''teleop.synthetic.'' @ reason, native_Data = [], native_Fields = None\<rparr>"

definition neutralize :: "ctl_env \<Rightarrow> instant \<Rightarrow> string \<Rightarrow> controller \<Rightarrow> controller \<times> go_error" where
  "neutralize E now reason c =
     (let previous = ct_state c in
      case nextHeaderAt E ''input'' (in_wall now) now 0 [] True c of (c, h) \<Rightarrow>
      and_then (publishWithCommit E (ObservationEvent h (synthetic_native reason) previous zero_state)
          (\<lambda>c. update_meta (\<lambda>m. m\<lparr>sm_Stale := True, sm_Synthetic := True, sm_PublishedAt := hd_PublishedAt h,
             sm_Sequence := id_Sequence (hd_ID h)\<rparr>) (c\<lparr>ct_state := zero_state\<rparr>)) c)
        (\<lambda>c. case diffEvents previous zero_state (header_supply E (in_wall now) now 0 [hd_ID h] True) c of (events, c) \<Rightarrow>
          publish_all E events c))"

definition liveness_beat :: "ctl_env \<Rightarrow> instant \<Rightarrow> StateMeta \<Rightarrow> duration \<Rightarrow> bool \<Rightarrow> controller \<Rightarrow> controller \<times> go_error" where
  "liveness_beat E now meta age stale c =
     (let interval = co_livenessInterval (ct_options c) in
      if interval > 0 \<and> (instant_IsZero (ct_lastLiveness c) \<or> instant_Sub now (ct_lastLiveness c) \<ge> interval) then
        let transportAge = (if sm_TransportCheckSequence meta > 0
              then max (i64 (clock_since (ct_clocks c) now - sm_LastTransportCheckMonotonic meta)) 0 else 0)
        in case nextHeaderAt E ''input'' (in_wall now) now 0 [] True c of (c, h) \<Rightarrow>
          and_then (publish E (LivenessEvent h (if stale then LivenessStale else LivenessHealthy) (sm_ObservedAt meta)
              (in_wall (sm_ReceivedAt meta)) age (sm_LastStateChangeMonotonic meta) (sm_TransportCheckSequence meta)
              (sm_LastTransportCheckMonotonic meta) transportAge (sm_TransportSilenceVerifiable meta)) c)
            (\<lambda>c. (c\<lparr>ct_lastLiveness := now\<rparr>, nil))
      else (c, nil))"

text \<open>Unlike a stage, an advancing processor passes its nil outputs on to the stages after it.\<close>

definition advanceProcessor :: "ctl_env \<Rightarrow> nat \<Rightarrow> instant \<Rightarrow> controller \<Rightarrow> controller \<times> go_error" where
  "advanceProcessor E index now c =
     (if ct_disabled c ! index \<or> \<not> ct_advancing c ! index then (c, nil)
      else case run_call E (en_advance E index (ct_tick c) now) (c\<lparr>ct_tick := ct_tick c + 1\<rparr>) of (c, derived, err) \<Rightarrow>
        if err \<noteq> nil then (disable index c, err)
        else case stage_outputs E index derived c of (c, shown, err) \<Rightarrow>
          if err \<noteq> nil then (c, err) else processStages E derived (index + 1) c)"

primrec advance_processors :: "ctl_env \<Rightarrow> instant \<Rightarrow> nat list \<Rightarrow> controller \<Rightarrow> controller \<times> go_error" where
  "advance_processors E now [] c = (c, nil)"
| "advance_processors E now (i # is) c = and_then (advanceProcessor E i now c) (advance_processors E now is)"

definition onTick :: "ctl_env \<Rightarrow> instant \<Rightarrow> controller \<Rightarrow> controller \<times> go_error" where
  "onTick E now c =
     and_then (checkClock E now c) (\<lambda>c. and_then (refreshTransportHealth E now c) (\<lambda>c.
       let meta = (if instant_IsZero (sm_ReceivedAt (ct_meta c)) then (ct_meta c)\<lparr>sm_ReceivedAt := ct_startedAt c\<rparr> else ct_meta c);
           age = max (instant_Sub now (sm_ReceivedAt meta)) 0;
           staleAfter = co_staleAfter (ct_options c);
           stale = (staleAfter > 0 \<and> age \<ge> staleAfter)
       in and_then (if stale \<and> \<not> sm_Stale meta \<and> co_neutralizeOnStale (ct_options c) then neutralize E now ''input stale'' c
              else (c, nil))
            (\<lambda>c. and_then (liveness_beat E now meta age stale c)
              (\<lambda>c. advance_processors E now [0..<length (co_processors (ct_options c))]
                 (update_meta (\<lambda>m. m\<lparr>sm_Stale := stale\<rparr>) c)))))"

subsection \<open>Commands\<close>

definition validateCommandCauses :: "EventID list \<Rightarrow> controller \<Rightarrow> go_error" where
  "validateCommandCauses causes c =
     (if list_all (\<lambda>i. id_Session i = ct_session c \<and> Contains (Some (ct_published c)) (id_Stream i) (id_Sequence i)) causes
      then nil else [ErrInvalidState])"

definition prepareCommand ::
  "ctl_env \<Rightarrow> (nat \<Rightarrow> go_error) option \<Rightarrow> Command \<Rightarrow> nat option \<Rightarrow> controller \<Rightarrow> controller \<times> (go_error + commandRequest)" where
  "prepareCommand E ctx command response c = (case ctx of
     None \<Rightarrow> (c, Inl [ErrInvalidState])
   | Some ctxErr \<Rightarrow>
       if ctxErr 0 \<noteq> nil then (c, Inl (ctxErr 0))
       else if cd_Name command = [] then (c, Inl [ErrInvalidState])
       else if validateCommandCauses (cd_Causes command) c \<noteq> nil then (c, Inl (validateCommandCauses (cd_Causes command) c))
       else case (case cd_Payload command of None \<Rightarrow> Inr [] | Some encoded \<Rightarrow> encoded) of
         Inl err \<Rightarrow> (c, Inl (ErrText ''marshal command payload'' # err))
       | Inr payload \<Rightarrow> (case read_clock E c of (c, now) \<Rightarrow>
           (c, Inr \<lparr>cq_command = command\<lparr>cd_Payload := None\<rparr>, cq_payload = payload, cq_issuedAt = now, cq_response = response\<rparr>)))"

definition closedError :: "controller \<Rightarrow> go_error" where
  "closedError c = (if ct_terminalErr c \<noteq> nil then ct_terminalErr c else [ErrClosed])"

definition RecordCommand :: "ctl_env \<Rightarrow> (nat \<Rightarrow> go_error) option \<Rightarrow> Command \<Rightarrow> controller \<Rightarrow> controller \<times> go_error" where
  "RecordCommand E ctx command c = (case prepareCommand E ctx command None c of
     (c, Inl err) \<Rightarrow> (c, err)
   | (c, Inr request) \<Rightarrow> (case tryEnqueueCommand request c of (c, accepted, still_open) \<Rightarrow>
       (c, if accepted then nil else if \<not> still_open then closedError c else [ErrPipelineOverflow])))"

text \<open>\<^verbatim>\<open>RecordCommandSync\<close> up to its first wait: an accepted request goes on to wait for its response, one that found the queue
  full waits for space and tries again (\<open>AttemptCommand\<close>).\<close>

datatype sync_result = SyncFailed go_error | AwaitsResponse nat | AwaitsSpace commandRequest

definition RecordCommandSync ::
  "ctl_env \<Rightarrow> (nat \<Rightarrow> go_error) option \<Rightarrow> Command \<Rightarrow> nat \<Rightarrow> controller \<Rightarrow> controller \<times> sync_result" where
  "RecordCommandSync E ctx command response c = (case prepareCommand E ctx command (Some response) c of
     (c, Inl err) \<Rightarrow> (c, SyncFailed err)
   | (c, Inr request) \<Rightarrow> (case tryEnqueueCommand request c of (c, accepted, still_open) \<Rightarrow>
       (c, if accepted then AwaitsResponse response
           else if \<not> still_open then SyncFailed (closedError c) else AwaitsSpace request)))"

text \<open>What the waiter returns, depending on what it is woken by; a response that is there wins.\<close>

datatype wake = WokenByResponse | WokenByContext go_error | WokenByDone

definition sent_response :: "nat \<Rightarrow> controller \<Rightarrow> (EventID \<times> go_error) option" where
  "sent_response i c = map_of (ct_responses c) i"

definition waitForCommandResult :: "nat \<Rightarrow> wake \<Rightarrow> controller \<Rightarrow> (EventID \<times> go_error) option" where
  "waitForCommandResult i w c = (case sent_response i c of
     Some r \<Rightarrow> Some r
   | None \<Rightarrow> (case w of
       WokenByResponse \<Rightarrow> None
     | WokenByContext err \<Rightarrow> Some (zero_event_id, ErrCommandPublicationUncertain # err)
     | WokenByDone \<Rightarrow> Some (zero_event_id, ErrCommandPublicationUncertain # closedError c)))"

definition command_event :: "ctl_env \<Rightarrow> commandRequest \<Rightarrow> controller \<Rightarrow> controller \<times> Event" where
  "command_event E request c =
     (let cmd = cq_command request;
          (c, h) = nextHeaderAt E ''command'' (in_wall (cq_issuedAt request)) (cq_issuedAt request) 0 (cd_Causes cmd) False c;
          event = CommandEvent h (cd_Name cmd) (cq_payload request) (cd_Authorized cmd) (cd_Reason cmd)
      in (c\<lparr>ct_commands := ct_commands c @ [(request, event)]\<rparr>, event))"

definition respond :: "commandRequest \<Rightarrow> Event \<Rightarrow> go_error \<Rightarrow> controller \<Rightarrow> controller" where
  "respond request event err c = (case cq_response request of
     None \<Rightarrow> c
   | Some i \<Rightarrow> c\<lparr>ct_responses := ct_responses c @ [(i, hd_ID (event_header event), err)]\<rparr>)"

definition handleCommand :: "ctl_env \<Rightarrow> commandRequest \<Rightarrow> controller \<Rightarrow> controller \<times> go_error" where
  "handleCommand E request c = (case command_event E request c of (c, event) \<Rightarrow>
     if cq_response request = None then publish E event c
     else case publishSynchronous E event c of (c, err) \<Rightarrow> (respond request event err c, err))"

subsection \<open>Termination\<close>

definition dispatchTerminal :: "ctl_env \<Rightarrow> Event \<Rightarrow> controller \<Rightarrow> controller \<times> bool" where
  "dispatchTerminal E event c = (if en_panics E event then (c, False) else (fst (dispatch E event False c), True))"

fun terminal_outputs :: "ctl_env \<Rightarrow> nat \<Rightarrow> Event option list \<Rightarrow> controller \<Rightarrow> controller \<times> Event option list" where
  "terminal_outputs E index [] c = (c, [])"
| "terminal_outputs E index (None # outputs) c = terminal_outputs E index outputs c"
| "terminal_outputs E index (Some event # outputs) c = (case dispatchTerminal E event c of (c, completed) \<Rightarrow>
     if \<not> completed then (disable index c, [])
     else case terminal_outputs E index outputs c of (c, visible) \<Rightarrow> (c, Some event # visible))"

primrec terminal_stages :: "ctl_env \<Rightarrow> nat list \<Rightarrow> Event option list \<Rightarrow> controller \<Rightarrow> controller" where
  "terminal_stages E [] visible c = c"
| "terminal_stages E (index # rest) visible c =
     (if ct_disabled c ! index then terminal_stages E rest visible c
      else case stage_calls E index visible c of (c, derived, err) \<Rightarrow>
        if err \<noteq> nil then terminal_stages E rest visible c
        else case terminal_outputs E index derived c of (c, shown) \<Rightarrow> terminal_stages E rest (visible @ shown) c)"

definition publishTerminal :: "ctl_env \<Rightarrow> Event \<Rightarrow> controller \<Rightarrow> controller" where
  "publishTerminal E event c = (case dispatchTerminal E event c of (c, completed) \<Rightarrow>
     if \<not> completed then c else terminal_stages E [0..<length (co_processors (ct_options c))] [Some event] c)"

primrec publish_terminal_all :: "ctl_env \<Rightarrow> Event list \<Rightarrow> controller \<Rightarrow> controller" where
  "publish_terminal_all E [] c = c"
| "publish_terminal_all E (event # events) c = publish_terminal_all E events (publishTerminal E event c)"

definition neutralizeTerminal :: "ctl_env \<Rightarrow> instant \<Rightarrow> string \<Rightarrow> controller \<Rightarrow> controller" where
  "neutralizeTerminal E now reason c =
     (let previous = ct_state c;
          c = update_meta (\<lambda>m. m\<lparr>sm_Stale := True, sm_Synthetic := True\<rparr>) (c\<lparr>ct_state := zero_state\<rparr>) in
      case nextHeaderAt E ''input'' (in_wall now) now 0 [] True c of (c, h) \<Rightarrow>
      let c = publishTerminal E (ObservationEvent h (synthetic_native reason) previous zero_state) c in
      case diffEvents previous zero_state (header_supply E (in_wall now) now 0 [hd_ID h] True) c of (events, c) \<Rightarrow>
      update_meta (\<lambda>m. m\<lparr>sm_PublishedAt := hd_PublishedAt h, sm_Sequence := id_Sequence (hd_ID h)\<rparr>)
        (publish_terminal_all E events c))"

text \<open>The drain takes what the closed queue holds; the fuel is its length.\<close>

primrec drain_commands :: "ctl_env \<Rightarrow> nat \<Rightarrow> controller \<Rightarrow> controller" where
  "drain_commands E 0 c = c"
| "drain_commands E (Suc n) c = (case ct_external c of
     [] \<Rightarrow> c
   | request # rest \<Rightarrow> (case command_event E request (c\<lparr>ct_external := rest\<rparr>) of (c, event) \<Rightarrow>
       drain_commands E n (respond request event [ErrCommandPublicationUncertain, ErrClosed] (publishTerminal E event c))))"

definition drainCommands :: "ctl_env \<Rightarrow> controller \<Rightarrow> controller" where
  "drainCommands E c = drain_commands E (length (ct_external c)) c"

definition io_EOF :: sentinel where "io_EOF = ErrText ''EOF''"

definition normalizeSourceError :: "go_error \<Rightarrow> bool \<Rightarrow> go_error" where
  "normalizeSourceError err closing =
     (if closing \<or> errors_Is err CtxCanceled \<or> errors_Is err ErrClosed then [ErrClosed]
      else if errors_Is err io_EOF \<or> errors_Is err ErrDisconnected then [ErrDisconnected]
      else ErrDisconnected # err)"

primrec terminate_all :: "go_error \<Rightarrow> nat list \<Rightarrow> subscription list \<Rightarrow> subscription list" where
  "terminate_all err [] ss = ss"
| "terminate_all err (i # is) ss = terminate_all err is (ss[i := sub_terminate err (ss ! i)])"

definition finishSubscriptions :: "go_error \<Rightarrow> controller \<Rightarrow> controller" where
  "finishSubscriptions err c = c\<lparr>ct_terminalErr := (if ct_terminalErr c = nil then err else ct_terminalErr c),
     ct_subs := terminate_all err (ct_subscribers c) (ct_subs c), ct_subscribers := []\<rparr>"

definition addTerminalError :: "go_error \<Rightarrow> controller \<Rightarrow> controller" where
  "addTerminalError err c = c\<lparr>ct_terminalErr := ct_terminalErr c @ err\<rparr>"

text \<open>Closing the queues and waiting for the workers, up to the deadline: \<open>en_drains\<close> tells which are done in time.\<close>

primrec stop_sinks :: "ctl_env \<Rightarrow> nat list \<Rightarrow> controller \<Rightarrow> controller \<times> go_error" where
  "stop_sinks E [] c = (c, nil)"
| "stop_sinks E (i # is) c =
     (if \<not> en_drains E i then (c, [ErrCallbackTimeout])
      else case sink_wait E i c of (c, _) \<Rightarrow> case stop_sinks E is c of (c, errs) \<Rightarrow> (c, sr_err (ct_sinks c ! i) @ errs))"

definition source_close_error :: "ctl_env \<Rightarrow> go_error" where
  "source_close_error E = (case en_closes E of
     Answered err \<Rightarrow> err | CallbackPanicked \<Rightarrow> [ErrCallbackPanic] | DeadlinePassed \<Rightarrow> [ErrCallbackTimeout] | Cancelled \<Rightarrow> [ErrCallbackTimeout])"

definition terminate :: "ctl_env \<Rightarrow> go_error \<Rightarrow> controller \<Rightarrow> controller" where
  "terminate E err c =
     (let err = (if err = nil then [ErrDisconnected] else err);
          c = drainCommands E (c\<lparr>ct_accepting := False\<rparr>);
          (c, now) = read_clock E c;
          c = neutralizeTerminal E now ''disconnect'' c;
          c = (if errors_Is err ErrClosed \<or> errors_Is err ErrDisconnected \<or> errors_Is err io_EOF then c
               else case nextHeaderAt E ''input'' (in_wall now) now 0 [] True c of (c, h) \<Rightarrow>
                 publishTerminal E (ErrorEvent h (en_error_text E err) err) c);
          c = update_meta (\<lambda>m. m\<lparr>sm_Connected := False, sm_Stale := True, sm_Synthetic := True, sm_PublishedAt := in_wall now\<rparr>) c;
          (c, h) = nextHeaderAt E ''input'' (in_wall now) now 0 [] True c;
          c = publishTerminal E (ConnectionEvent h Disconnected (en_error_text E err)) c;
          c = finishSubscriptions err (c\<lparr>ct_sourceDone := True\<rparr>);
          (c, sinkErr) = stop_sinks E [0..<length (ct_sinks c)] c
      in addTerminalError (source_close_error E) (addTerminalError sinkErr c))"

subsection \<open>The run loop\<close>

definition tickInterval :: "ctl_env \<Rightarrow> controller \<Rightarrow> duration" where
  "tickInterval E c =
     (let options = ct_options c;
          interval = (if ct_hasHealth c then advanceInterval else 0);
          interval = (if co_livenessInterval options > 0 \<and> (interval = 0 \<or> co_livenessInterval options < interval)
            then co_livenessInterval options else interval);
          interval = (if co_staleAfter options > 0 \<and> (interval = 0 \<or> co_staleAfter options < interval)
            then co_staleAfter options else interval)
      in foldl (\<lambda>interval p. if en_advancing E p \<and> (interval = 0 \<or> advanceInterval < interval) then advanceInterval else interval)
           interval (co_processors options))"

definition start_run :: "ctl_env \<Rightarrow> controller \<Rightarrow> controller \<times> go_error" where
  "start_run E c =
     (case read_clock E c of (c, now) \<Rightarrow> case nextHeaderAt E ''input'' (in_wall now) now 0 [] False (c\<lparr>ct_startedAt := now\<rparr>) of (c, h) \<Rightarrow>
      and_then (publishWithCommit E (ConnectionEvent h Connected [])
          (update_meta (\<lambda>m. m\<lparr>sm_Connected := True, sm_PublishedAt := hd_PublishedAt h\<rparr>)) c)
        (\<lambda>c. case nextHeaderAt E ''input'' (in_wall now) now 0 [] False c of (c, h) \<Rightarrow>
          publish E (CapabilitiesEvent h (capabilities_Clone (ct_capability c))) c))"

text \<open>Closing \<open>done\<close> after a failed turn; a choice that is not ready is not taken.\<close>

definition finish :: "ctl_env \<Rightarrow> controller \<times> go_error \<Rightarrow> controller" where
  "finish E result = (case result of (c, err) \<Rightarrow> if err = nil then c else (terminate E err c)\<lparr>ct_done := True\<rparr>)"

datatype choice = TakeIngest | TakeCommand | TakeFatal | TakeTick instant | TakeSourceDone

definition loop_turn :: "ctl_env \<Rightarrow> choice \<Rightarrow> controller \<Rightarrow> controller" where
  "loop_turn E x c =
     (if ct_done c then c
      else case x of
        TakeIngest \<Rightarrow> (case ct_ingest c of
            [] \<Rightarrow> c
          | result # rest \<Rightarrow>
              let c = c\<lparr>ct_ingest := rest\<rparr> in
              if so_err result \<noteq> nil then finish E (c, normalizeSourceError (so_err result) (ct_sourceDone c))
              else finish E (handleObservation E (so_observation result) (so_receivedAt result) c))
      | TakeCommand \<Rightarrow> (case ct_external c of
            [] \<Rightarrow> c
          | request # rest \<Rightarrow> finish E (handleCommand E request (c\<lparr>ct_external := rest\<rparr>)))
      | TakeFatal \<Rightarrow> (case ct_fatal c of
            [] \<Rightarrow> c
          | err # rest \<Rightarrow> finish E (c\<lparr>ct_fatal := rest\<rparr>, if err = nil then [ErrDisconnected] else err))
      | TakeTick now \<Rightarrow> if tickInterval E c > 0 then finish E (onTick E now c) else c
      | TakeSourceDone \<Rightarrow> if ct_sourceDone c then finish E (c, [ErrClosed]) else c)"

datatype turn = LoopTurn choice | OutsideTurn outside

primrec ctl_turns :: "ctl_env \<Rightarrow> turn list \<Rightarrow> controller \<Rightarrow> controller" where
  "ctl_turns E [] c = c"
| "ctl_turns E (t # ts) c = ctl_turns E ts (case t of LoopTurn x \<Rightarrow> loop_turn E x c | OutsideTurn x \<Rightarrow> outside_step E x c)"

text \<open>\<^verbatim>\<open>NewController\<close>, after its options; the session is random. Its zero fields are the zero values.\<close>

definition new_controller ::
  "ctl_env \<Rightarrow> controllerOptions \<Rightarrow> session_id \<Rightarrow> device_id \<Rightarrow> string \<Rightarrow> Capabilities \<Rightarrow> bool \<Rightarrow> bool \<Rightarrow> controller" where
  "new_controller E options session device backend capability rumbles healthy =
     \<lparr>ct_session = session, ct_device = device, ct_backend = backend,
      ct_capability = (if rumbles then capability else capability\<lparr>cap_Rumble := False\<rparr>), ct_options = options,
      ct_advancing = map (en_advancing E) (co_processors options), ct_hasHealth = healthy,
      ct_clocks = newClockMonitor (en_now E 0) (co_clockStepThreshold options), ct_state = zero_state, ct_meta = zero_meta,
      ct_allocated = HighWater_New MaxEventStreamsPerSession, ct_published = HighWater_New MaxEventStreamsPerSession,
      ct_subs = [], ct_subscribers = [], ct_terminalErr = nil, ct_connection = None, ct_capabilities = None,
      ct_observation = None, ct_sinks = map (\<lambda>s. newSinkRunner (en_canonical E s)) (co_sinks options),
      ct_disabled = replicate (length (co_processors options)) False, ct_lastLiveness = zero_instant, ct_startedAt = zero_instant,
      ct_healthSequence = 0, ct_healthMonotonic = 0, ct_silenceVerifiable = False, ct_reading = True, ct_ingest = [],
      ct_external = [], ct_fatal = [], ct_accepting = True, ct_responses = [], ct_sourceDone = False, ct_done = False,
      ct_tick = 1, ct_log = [], ct_shown = [], ct_accepted = [], ct_commands = []\<rparr>"

definition ctl_run :: "ctl_env \<Rightarrow> turn list \<Rightarrow> controller \<Rightarrow> controller" where
  "ctl_run E ts c = ctl_turns E ts (finish E (start_run E (interfere E c)))"

text \<open>Reading the controller, and \<^verbatim>\<open>Close\<close> once the run loop has ended.\<close>

definition SnapshotWithMeta :: "controller \<Rightarrow> State \<times> StateMeta" where
  "SnapshotWithMeta c = (ct_state c, ct_meta c)"

definition ctl_Close_result :: "controller \<Rightarrow> go_error" where
  "ctl_Close_result c = (if \<not> ct_done c then [ErrCallbackTimeout]
     else if ct_terminalErr c \<noteq> nil \<and> ct_terminalErr c \<noteq> [ErrClosed] then ct_terminalErr c else nil)"

end
