(* ===== verification/ControllerSteps.thy ===== *)
theory ControllerSteps
  imports Controller
begin

text \<open>
  How invariants of the controller are proved: once for all. The locales below take a predicate that every elementary step
  keeps (a header, a sink's queue, a publication, a delivery, a step of another goroutine) and conclude that the composed
  operations keep it, up to whole runs. The theories after this one interpret them.
\<close>

text \<open>The fields an invariant may speak about. The rest (clock readings, latches, counters, the queues the run loop takes
  its turns from) changes freely.\<close>

definition essence ::
  "controller \<Rightarrow> (session_id \<times> controllerOptions \<times> State \<times> StateMeta) \<times> (highwater \<times> highwater)
     \<times> (subscription list \<times> nat list \<times> sinkRunner list)
     \<times> (commandRequest list \<times> bool \<times> bool \<times> (nat \<times> EventID \<times> go_error) list \<times> go_error list)
     \<times> Event list \<times> Event list \<times> commandRequest list \<times> (commandRequest \<times> Event) list" where
  "essence c = ((ct_session c, ct_options c, ct_state c, ct_meta c), (ct_allocated c, ct_published c),
     (ct_subs c, ct_subscribers c, ct_sinks c), (ct_external c, ct_accepting c, ct_done c, ct_responses c, ct_fatal c),
     ct_log c, ct_shown c, ct_accepted c, ct_commands c)"

lemma essence_simps [simp]:
  "essence (c\<lparr>ct_tick := n\<rparr>) = essence c" "essence (c\<lparr>ct_clocks := m\<rparr>) = essence c"
  "essence (c\<lparr>ct_disabled := ds\<rparr>) = essence c" "essence (c\<lparr>ct_lastLiveness := t\<rparr>) = essence c"
  "essence (c\<lparr>ct_startedAt := t\<rparr>) = essence c" "essence (c\<lparr>ct_healthSequence := q\<rparr>) = essence c"
  "essence (c\<lparr>ct_healthMonotonic := d\<rparr>) = essence c" "essence (c\<lparr>ct_silenceVerifiable := b\<rparr>) = essence c"
  "essence (c\<lparr>ct_reading := b\<rparr>) = essence c" "essence (c\<lparr>ct_ingest := rs\<rparr>) = essence c"
  "essence (c\<lparr>ct_sourceDone := b\<rparr>) = essence c"
  "essence (c\<lparr>ct_terminalErr := err\<rparr>) = essence c"
  "essence (latch e c) = essence c" "essence (disable i c) = essence c"
  "essence (addTerminalError err c) = essence c"
  by (simp_all add: essence_def latch_def disable_def addTerminalError_def)

subsection \<open>The number of sinks\<close>

lemma sink_work_length [simp]: "length (ct_sinks (fst (sink_work E i c))) = length (ct_sinks c)"
  by (simp add: sink_work_def Let_def case_prod_unfold requestFatal_def split: list.split)

lemma sink_drain_length [simp]: "length (ct_sinks (fst (sink_drain E i n c))) = length (ct_sinks c)"
  by (induction n arbitrary: c) (simp_all add: case_prod_unfold Let_def)

lemma sink_wait_length [simp]: "length (ct_sinks (fst (sink_wait E i c))) = length (ct_sinks c)"
  by (simp add: sink_wait_def)

lemma admit_to_length [simp]: "length (ct_sinks (fst (admit_to E e f is c))) = length (ct_sinks c)"
  by (induction "is" arbitrary: c) (simp_all add: case_prod_unfold Let_def)

lemma admit_to_waits: "set (fst (snd (admit_to E e f is c))) \<subseteq> set is"
  by (induction "is" arbitrary: c) (auto simp: case_prod_unfold Let_def split: if_splits)

lemma admit_length [simp]: "length (ct_sinks (fst (admitSinkRecords E e c))) = length (ct_sinks c)"
  by (simp add: admitSinkRecords_def split: sum.split)

lemma admit_waits: "i \<in> set (fst (snd (admitSinkRecords E e c))) \<Longrightarrow> i < length (ct_sinks c)"
proof -
  have "i \<in> set (fst (snd (admit_to E e f [0..<length (ct_sinks c)] c))) \<Longrightarrow> i < length (ct_sinks c)" for f
    using subsetD [OF admit_to_waits [of E e f "[0..<length (ct_sinks c)]" c]] by simp
  then show "i \<in> set (fst (snd (admitSinkRecords E e c))) \<Longrightarrow> i < length (ct_sinks c)"
    by (auto simp: admitSinkRecords_def split: sum.splits if_splits)
qed

subsection \<open>Publishing\<close>

locale pipeline_steps =
  fixes E :: ctl_env and I :: "controller \<Rightarrow> bool"
  assumes frame: "I c \<Longrightarrow> essence c' = essence c \<Longrightarrow> I c'"
    and alloc: "I c \<Longrightarrow> I (fst (allocate s c))"
    and outside: "I c \<Longrightarrow> I (outside_step E x c)"
    and sink_put: "I c \<Longrightarrow> i < length (ct_sinks c) \<Longrightarrow>
      I (c\<lparr>ct_sinks := (ct_sinks c)[i := fst (sink_enqueue (ct_options c) r (ct_sinks c ! i))]\<rparr>)"
    and mark: "I c \<Longrightarrow> I (fst (markPublished e c))"
    and exposed: "I c \<Longrightarrow> I (fst (expose e c))"
begin

lemma header: "I c \<Longrightarrow> I (fst (nextHeaderAt E s obs rec ts causes syn c))"
  using alloc [of c s] frame by (simp add: nextHeaderAt_def read_clock_def Let_def case_prod_unfold)

lemma processor_header: "I c \<Longrightarrow> I (fst (NewHeader E s obs ts causes c))"
  using header frame by (simp add: NewHeader_def read_clock_def Let_def case_prod_unfold)

lemma interference: "I c \<Longrightarrow> I (interfere E c)"
proof -
  have "I c \<Longrightarrow> I (outside_steps E xs c)" for xs c
    by (induction xs arbitrary: c) (simp_all add: outside)
  then show "I c \<Longrightarrow> I (interfere E c)" using frame [of c "c\<lparr>ct_tick := ct_tick c + 1\<rparr>"] by (simp add: interfere_def)
qed

lemma work: "I c \<Longrightarrow> i < length (ct_sinks c) \<Longrightarrow> I (fst (sink_work E i c))"
  using outside [of c "SinkWorks i"] by (simp add: outside_step_def)

lemma drain: "I c \<Longrightarrow> i < length (ct_sinks c) \<Longrightarrow> I (fst (sink_drain E i n c))"
  by (induction n arbitrary: c) (simp_all add: work case_prod_unfold Let_def)

lemma wait: "I c \<Longrightarrow> i < length (ct_sinks c) \<Longrightarrow> I (fst (sink_wait E i c))"
  by (simp add: sink_wait_def drain)

lemma admit_to: "I c \<Longrightarrow> \<forall>i \<in> set is. i < length (ct_sinks c) \<Longrightarrow> I (fst (admit_to E e f is c))"
  by (induction "is" arbitrary: c) (auto simp: sink_put case_prod_unfold Let_def)

lemma admit: "I c \<Longrightarrow> I (fst (admitSinkRecords E e c))"
  using admit_to [of c "[0..<length (ct_sinks c)]"] by (simp add: admitSinkRecords_def split: sum.split)

lemma await: "I c \<Longrightarrow> \<forall>i \<in> set is. i < length (ct_sinks c) \<Longrightarrow> I (fst (await_all E is c))"
  by (induction "is" arbitrary: c) (auto simp: wait case_prod_unfold Let_def)

lemma enqueue: "I c \<Longrightarrow> I (fst (enqueueSinks E e c))"
  by (simp add: enqueueSinks_def admit case_prod_unfold Let_def)

lemma record_sinks: "I c \<Longrightarrow> I (fst (recordSinks E e c))"
  using admit_waits [of _ E e c] by (simp add: recordSinks_def admit await case_prod_unfold Let_def)

lemma gap: "I c \<Longrightarrow> I (fst (recordSubscriptionGap E e n why c))"
  using frame [of c "c\<lparr>ct_tick := ct_tick c + 1\<rparr>"]
  by (simp add: recordSubscriptionGap_def read_clock_def Let_def case_prod_unfold header enqueue record_sinks mark)

lemma losses: "I c \<Longrightarrow> I (fst (report_losses E e latest lossless err c))"
  by (simp add: report_losses_def Let_def case_prod_unfold gap)

lemma dispatch_commit:
  assumes "I c" and "\<And>c. I c \<Longrightarrow> I (commit c)"
  shows "I (fst (dispatchWithMode E e loss syn commit c))"
  using assms
  by (simp add: dispatchWithMode_def Let_def case_prod_unfold interference enqueue record_sinks mark exposed losses)

lemma dispatched: "I c \<Longrightarrow> I (fst (dispatch E e loss c))"
  by (simp add: dispatch_def dispatch_commit)

lemma call: "I c \<Longrightarrow> I (fst (run_call E p c))"
  by (induction p arbitrary: c) (simp_all add: case_prod_unfold processor_header)

lemma process: "I c \<Longrightarrow> I (fst (callProcessor E i e c))"
  using frame [of c "c\<lparr>ct_tick := ct_tick c + 1\<rparr>"] by (simp add: callProcessor_def call)

lemma disabled: "I c \<Longrightarrow> I (disable i c)"
  by (rule frame) simp_all

lemma calls: "I c \<Longrightarrow> I (fst (stage_calls E i es c))"
  by (induction es arbitrary: c) (simp_all add: case_prod_unfold process disabled)

lemma emitted: "I c \<Longrightarrow> I (fst (dispatchProcessorOutput E e c))"
  by (simp add: dispatchProcessorOutput_def case_prod_unfold dispatched)

lemma outputs: "I c \<Longrightarrow> I (fst (stage_outputs E i es c))"
proof (induction es arbitrary: c)
  case (Cons e es)
  then show ?case by (cases e) (simp_all add: case_prod_unfold emitted disabled)
qed simp

lemma stages: "I c \<Longrightarrow> I (fst (run_stages E is es c))"
  by (induction "is" arbitrary: es c) (simp_all add: case_prod_unfold calls outputs)

lemma processed: "I c \<Longrightarrow> I (fst (processStages E es n c))"
  by (simp add: processStages_def stages)

lemma published: "I c \<Longrightarrow> I (fst (publish E e c))"
  by (simp add: publish_def case_prod_unfold dispatched processed)

lemma published_all: "I c \<Longrightarrow> I (fst (publish_all E es c))"
  by (induction es arbitrary: c) (simp_all add: and_then_def case_prod_unfold published)

lemma published_commit:
  "I c \<Longrightarrow> (\<And>c. I c \<Longrightarrow> I (commit c)) \<Longrightarrow> I (fst (publishWithCommit E e commit c))"
  by (simp add: publishWithCommit_def case_prod_unfold dispatch_commit processed)

lemma published_synchronous: "I c \<Longrightarrow> I (fst (publishSynchronous E e c))"
  by (simp add: publishSynchronous_def case_prod_unfold dispatch_commit processed)

lemma advanced: "I c \<Longrightarrow> I (fst (advanceProcessor E i now c))"
  using frame [of c "c\<lparr>ct_tick := ct_tick c + 1\<rparr>"]
  by (simp add: advanceProcessor_def case_prod_unfold call disabled outputs processed)

lemma advanced_all: "I c \<Longrightarrow> I (fst (advance_processors E now is c))"
  by (induction "is" arbitrary: c) (simp_all add: and_then_def case_prod_unfold advanced)

lemma terminal_dispatch: "I c \<Longrightarrow> I (fst (dispatchTerminal E e c))"
  by (simp add: dispatchTerminal_def dispatched)

lemma terminal_outputs: "I c \<Longrightarrow> I (fst (terminal_outputs E i es c))"
proof (induction es arbitrary: c)
  case (Cons e es)
  then show ?case by (cases e) (simp_all add: case_prod_unfold terminal_dispatch disabled)
qed simp

lemma terminal_stages: "I c \<Longrightarrow> I (terminal_stages E is es c)"
  by (induction "is" arbitrary: es c) (simp_all add: case_prod_unfold calls terminal_outputs)

lemma published_terminal: "I c \<Longrightarrow> I (publishTerminal E e c)"
  by (simp add: publishTerminal_def case_prod_unfold terminal_dispatch terminal_stages)

lemma published_terminal_all: "I c \<Longrightarrow> I (publish_terminal_all E es c)"
  by (induction es arbitrary: c) (simp_all add: published_terminal)

lemma stopped: "I c \<Longrightarrow> \<forall>i \<in> set is. i < length (ct_sinks c) \<Longrightarrow> I (fst (stop_sinks E is c))"
  by (induction "is" arbitrary: c) (auto simp: wait case_prod_unfold)

lemma beat: "I c \<Longrightarrow> I (fst (liveness_beat E now m age st c))"
proof -
  assume i: "I c"
  have "I c \<Longrightarrow> I (c\<lparr>ct_lastLiveness := t\<rparr>)" for c t by (rule frame) simp_all
  then show ?thesis using i by (simp add: liveness_beat_def Let_def case_prod_unfold and_then_def published header)
qed

lemma supplied: "I c \<Longrightarrow> I (snd (header_supply E obs rec ts causes syn c))"
  by (simp add: header_supply_def header)

lemma checked: "I c \<Longrightarrow> I (fst (checkClock E now c))"
proof -
  assume "I c"
  then have "I (c\<lparr>ct_clocks := m\<rparr>)" for m by (rule frame) simp
  then show ?thesis by (simp add: checkClock_def Let_def case_prod_unfold header published)
qed

end

subsection \<open>What an admission and a completion without error mean\<close>

text \<open>The worker of a sink empties its queue without a failure.\<close>

definition all_recorded :: "nat \<Rightarrow> sinkRunner \<Rightarrow> sinkRunner" where
  "all_recorded n r = r\<lparr>sr_queue := [], sr_calls := sr_calls r + n, sr_recorded := sr_recorded r @ map sq_event (sr_queue r)\<rparr>"

lemma sink_record_cases:
  obtains "sink_record E i x r = (r\<lparr>sr_calls := sr_calls r + 1, sr_recorded := sr_recorded r @ [sq_event x]\<rparr>, nil)"
  | err where "err \<noteq> nil" "sink_record E i x r = (r\<lparr>sr_calls := sr_calls r + 1\<rparr>, err)"
proof (cases "en_sink E i (sr_calls r) x")
  case (Answered err)
  then show thesis using that by (cases "err = nil") (simp_all add: sink_record_def Let_def)
qed (use that in \<open>auto simp: sink_record_def Let_def\<close>)

lemma sink_work_ok:
  assumes "sr_queue (ct_sinks c ! i) = x # q" and "sink_work E i c = (c', nil)"
  shows "sr_err (ct_sinks c ! i) = nil \<and> c' = c\<lparr>ct_sinks := (ct_sinks c)[i := (ct_sinks c ! i)\<lparr>sr_queue := q,
    sr_calls := sr_calls (ct_sinks c ! i) + 1, sr_recorded := sr_recorded (ct_sinks c ! i) @ [sq_event x]\<rparr>]\<rparr>"
proof (cases "sr_err (ct_sinks c ! i) = nil")
  case True
  then show ?thesis using assms
    by (cases rule: sink_record_cases [of E i x "(ct_sinks c ! i)\<lparr>sr_queue := q\<rparr>"])
      (auto simp: sink_work_def Let_def split: if_splits)
next
  case False
  then show ?thesis using assms by (simp add: sink_work_def Let_def)
qed

lemma sink_work_error:
  assumes "sr_queue (ct_sinks c ! i) = x # q" and "sink_work E i c = (c', err)" and "err \<noteq> nil" and "i < length (ct_sinks c)"
  shows "sr_err (ct_sinks c' ! i) \<noteq> nil \<and> sr_queue (ct_sinks c' ! i) = q"
proof (cases "sr_err (ct_sinks c ! i) = nil")
  case True
  then show ?thesis using assms
    by (cases rule: sink_record_cases [of E i x "(ct_sinks c ! i)\<lparr>sr_queue := q\<rparr>"])
      (auto simp: sink_work_def Let_def requestFatal_def split: if_splits)
next
  case False
  then show ?thesis using assms by (auto simp: sink_work_def Let_def split: if_splits)
qed

lemma drain_failed:
  assumes "sr_err (ct_sinks c ! i) \<noteq> nil" and "length (sr_queue (ct_sinks c ! i)) = Suc n" and "i < length (ct_sinks c)"
  shows "snd (sink_drain E i (Suc n) c) \<noteq> nil"
  using assms
proof (induction n arbitrary: c)
  case 0
  then obtain x q where q: "sr_queue (ct_sinks c ! i) = x # q" by (cases "sr_queue (ct_sinks c ! i)") auto
  then show ?case using 0(1) sink_work_ok [OF q] by (cases "sink_work E i c") auto
next
  case (Suc n)
  then obtain x q where q: "sr_queue (ct_sinks c ! i) = x # q" by (cases "sr_queue (ct_sinks c ! i)") auto
  obtain c1 err where w: "sink_work E i c = (c1, err)" by (cases "sink_work E i c")
  then have "err \<noteq> nil" using sink_work_ok [OF q] Suc.prems(1) by auto
  from sink_work_error [OF q w this Suc.prems(3)] show ?case
    using Suc.IH [of c1] Suc.prems(2,3) q w sink_work_length [of E i c] by simp
qed

lemma drain_ok:
  assumes "sink_drain E i n c = (c', nil)" and "length (sr_queue (ct_sinks c ! i)) = n" and "0 < n" and "i < length (ct_sinks c)"
  shows "sr_err (ct_sinks c ! i) = nil \<and> c' = c\<lparr>ct_sinks := (ct_sinks c)[i := all_recorded n (ct_sinks c ! i)]\<rparr>"
  using assms
proof (induction n arbitrary: c)
  case (Suc n)
  then obtain x q where q: "sr_queue (ct_sinks c ! i) = x # q" by (cases "sr_queue (ct_sinks c ! i)") auto
  obtain c1 err where w: "sink_work E i c = (c1, err)" by (cases "sink_work E i c")
  have err: "err = nil"
  proof (rule ccontr)
    assume e: "err \<noteq> nil"
    show False
    proof (cases n)
      case 0
      then show ?thesis using e w Suc.prems(1) by simp
    next
      case (Suc m)
      then show ?thesis using sink_work_error [OF q w e Suc.prems(4)] drain_failed [of c1 i m E] e w q Suc.prems
          sink_work_length [of E i c] by simp
    qed
  qed
  note ok = sink_work_ok [OF q, of E c1] w err
  show ?case
  proof (cases "n = 0")
    case True
    then show ?thesis using ok Suc.prems q by (auto simp: all_recorded_def)
  next
    case False
    then have "sr_err (ct_sinks c1 ! i) = nil \<and> c' = c1\<lparr>ct_sinks := (ct_sinks c1)[i := all_recorded n (ct_sinks c1 ! i)]\<rparr>"
      using Suc.IH [of c1] Suc.prems ok q by auto
    then show ?thesis using ok Suc.prems(4) q by (auto simp: all_recorded_def)
  qed
qed simp

lemma wait_ok:
  assumes "sink_wait E i c = (c', nil)" and "sr_queue (ct_sinks c ! i) \<noteq> []" and "i < length (ct_sinks c)"
  shows "sr_err (ct_sinks c ! i) = nil
    \<and> c' = c\<lparr>ct_sinks := (ct_sinks c)[i := all_recorded (length (sr_queue (ct_sinks c ! i))) (ct_sinks c ! i)]\<rparr>"
  using drain_ok [of E i "length (sr_queue (ct_sinks c ! i))" c c'] assms by (simp add: sink_wait_def)

text \<open>Every sink of \<open>is\<close> was given the event, and no other; nothing else changed.\<close>

definition given_to :: "Event \<Rightarrow> bool \<Rightarrow> sinkRunner \<Rightarrow> sinkRunner \<Rightarrow> bool" where
  "given_to e b r r' \<longleftrightarrow> (if b then \<exists>x. sq_event x = e \<and> sr_err r = nil
       \<and> r' = r\<lparr>sr_queue := sr_queue r @ [x], sr_admitted := sr_admitted r @ [e]\<rparr> else r' = r)"

definition given :: "Event \<Rightarrow> nat list \<Rightarrow> controller \<Rightarrow> controller \<Rightarrow> bool" where
  "given e is c c' \<longleftrightarrow> c' = c\<lparr>ct_sinks := ct_sinks c'\<rparr> \<and> length (ct_sinks c') = length (ct_sinks c)
     \<and> (\<forall>i < length (ct_sinks c). given_to e (i \<in> set is) (ct_sinks c ! i) (ct_sinks c' ! i))"

lemma admit_to_ok:
  assumes "admit_to E e f is c = (c', ws, nil)" and "distinct is" and "\<forall>i \<in> set is. i < length (ct_sinks c)"
  shows "ws = is \<and> given e is c c'"
  using assms
proof (induction "is" arbitrary: c ws)
  case Nil
  then show ?case by (simp add: given_def given_to_def)
next
  case (Cons i "is")
  let ?r = "ct_sinks c ! i"
  let ?x = "\<lparr>sq_event = e, sq_canonical = (if sr_canonical ?r then f else None)\<rparr>"
  obtain r err where put: "sink_enqueue (ct_options c) ?x ?r = (r, err)" by (cases "sink_enqueue (ct_options c) ?x ?r")
  let ?c = "c\<lparr>ct_sinks := (ct_sinks c)[i := r]\<rparr>"
  obtain c2 ws2 errs where rest: "admit_to E e f is ?c = (c2, ws2, errs)" by (cases "admit_to E e f is ?c") auto
  have ok: "err = nil" "errs = nil" "c' = c2" "ws = i # ws2"
    using Cons.prems(1) put rest by (auto simp: Let_def split: if_splits)
  then have r: "sr_err ?r = nil" "r = ?r\<lparr>sr_queue := sr_queue ?r @ [?x], sr_admitted := sr_admitted ?r @ [e]\<rparr>"
    using put by (auto simp: sink_enqueue_def split: if_splits)
  have g: "ws2 = is \<and> given e is ?c c'" using Cons.IH [of ?c ws2] rest ok Cons.prems(2,3) by simp
  have i: "i \<notin> set is" "i < length (ct_sinks c)" using Cons.prems(2,3) by simp_all
  have c': "c' = c\<lparr>ct_sinks := ct_sinks c'\<rparr>" "length (ct_sinks c') = length (ct_sinks c)"
    using g by (auto simp: given_def dest: arg_cong [where f = "\<lambda>x. x\<lparr>ct_sinks := ct_sinks c'\<rparr>"])
  have nth: "given_to e (j \<in> set is) ((ct_sinks c)[i := r] ! j) (ct_sinks c' ! j)" if "j < length (ct_sinks c)" for j
    using g that by (simp add: given_def)
  have "given_to e (j \<in> set (i # is)) (ct_sinks c ! j) (ct_sinks c' ! j)" if "j < length (ct_sinks c)" for j
  proof (cases "j = i")
    case True
    have "ct_sinks c' ! i = r" using nth [of i] i by (simp add: given_to_def)
    moreover have "sq_event ?x = e" by simp
    ultimately show ?thesis using r True unfolding given_to_def by (simp only: list.set insert_iff simp_thms if_True) blast
  next
    case False
    then show ?thesis using nth [OF that] by simp
  qed
  then show ?case using g ok(4) c' unfolding given_def by blast
qed

lemma freeze_error: "FreezeEvent L e = Inl err \<Longrightarrow> err \<noteq> nil"
  by (auto simp: FreezeEvent_def freeze_payload_def split: go_event.splits outcome.splits sum.splits option.splits if_splits)

lemma admit_ok:
  "admitSinkRecords E e c = (c', ws, nil) \<Longrightarrow> ws = [0..<length (ct_sinks c)] \<and> given e [0..<length (ct_sinks c)] c c'"
  using admit_to_ok [of E e _ "[0..<length (ct_sinks c)]" c c' ws]
  by (auto simp: admitSinkRecords_def dest: freeze_error split: if_splits sum.splits)

definition settled_to :: "bool \<Rightarrow> sinkRunner \<Rightarrow> sinkRunner \<Rightarrow> bool" where
  "settled_to b r r' \<longleftrightarrow> (if b then sr_err r = nil \<and> r' = all_recorded (length (sr_queue r)) r else r' = r)"

lemma await_ok:
  assumes "await_all E is c = (c', nil)" and "distinct is"
    and "\<forall>i \<in> set is. i < length (ct_sinks c) \<and> sr_queue (ct_sinks c ! i) \<noteq> []"
  shows "c' = c\<lparr>ct_sinks := ct_sinks c'\<rparr> \<and> length (ct_sinks c') = length (ct_sinks c)
    \<and> (\<forall>j < length (ct_sinks c). settled_to (j \<in> set is) (ct_sinks c ! j) (ct_sinks c' ! j))"
  using assms
proof (induction "is" arbitrary: c)
  case Nil
  then show ?case by (simp add: settled_to_def)
next
  case (Cons i "is")
  obtain c1 err where w: "sink_wait E i c = (c1, err)" by (cases "sink_wait E i c")
  obtain errs where rest: "await_all E is c1 = (c', errs)" "err = nil" "errs = nil"
    using Cons.prems(1) w by (auto simp: Let_def case_prod_unfold prod_eq_iff)
  let ?r = "all_recorded (length (sr_queue (ct_sinks c ! i))) (ct_sinks c ! i)"
  have ok: "sr_err (ct_sinks c ! i) = nil" "c1 = c\<lparr>ct_sinks := (ct_sinks c)[i := ?r]\<rparr>"
    using wait_ok [of E i c c1] w rest(2) Cons.prems(3) by auto
  have i: "i \<notin> set is" "i < length (ct_sinks c)" using Cons.prems(2,3) by simp_all
  have g: "c' = c1\<lparr>ct_sinks := ct_sinks c'\<rparr> \<and> length (ct_sinks c') = length (ct_sinks c1)
    \<and> (\<forall>j < length (ct_sinks c1). settled_to (j \<in> set is) (ct_sinks c1 ! j) (ct_sinks c' ! j))"
    using rest Cons.prems(2,3) i ok(2) by (intro Cons.IH) (auto simp: nth_list_update)
  have "settled_to (j \<in> set (i # is)) (ct_sinks c ! j) (ct_sinks c' ! j)" if "j < length (ct_sinks c)" for j
  proof (cases "j = i")
    case True
    have "i < length (ct_sinks c1)" using i ok(2) by simp
    then have "settled_to (i \<in> set is) (ct_sinks c1 ! i) (ct_sinks c' ! i)" using g by blast
    then show ?thesis using True i ok by (simp add: settled_to_def)
  next
    case False
    have "j < length (ct_sinks c1)" using that ok(2) by simp
    then have "settled_to (j \<in> set is) (ct_sinks c1 ! j) (ct_sinks c' ! j)" using g by blast
    then show ?thesis using False ok(2) by simp
  qed
  moreover have "c' = c\<lparr>ct_sinks := ct_sinks c'\<rparr>" "length (ct_sinks c') = length (ct_sinks c)"
    using g ok(2) by (auto dest: arg_cong [where f = "\<lambda>x. x\<lparr>ct_sinks := ct_sinks c'\<rparr>"])
  ultimately show ?case by blast
qed

definition recorded_by :: "Event \<Rightarrow> sinkRunner \<Rightarrow> sinkRunner \<Rightarrow> bool" where
  "recorded_by e r r' \<longleftrightarrow> sr_err r = nil \<and> sr_err r' = nil \<and> sr_queue r' = [] \<and> sr_admitted r' = sr_admitted r @ [e]
     \<and> sr_recorded r' = sr_recorded r @ map sq_event (sr_queue r) @ [e]"

lemma record_ok:
  assumes "recordSinks E e c = (c', nil)"
  shows "c' = c\<lparr>ct_sinks := ct_sinks c'\<rparr> \<and> length (ct_sinks c') = length (ct_sinks c)
    \<and> (\<forall>i < length (ct_sinks c). recorded_by e (ct_sinks c ! i) (ct_sinks c' ! i))"
proof -
  obtain c1 ws err where a: "admitSinkRecords E e c = (c1, ws, err)" by (cases "admitSinkRecords E e c") auto
  obtain errs where w: "await_all E ws c1 = (c', errs)" "err = nil" "errs = nil"
    using assms a by (auto simp: recordSinks_def Let_def case_prod_unfold prod_eq_iff)
  let ?n = "length (ct_sinks c)"
  have g: "ws = [0..<?n]" "c1 = c\<lparr>ct_sinks := ct_sinks c1\<rparr>" "length (ct_sinks c1) = ?n"
      "\<And>i. i < ?n \<Longrightarrow> given_to e True (ct_sinks c ! i) (ct_sinks c1 ! i)"
    using admit_ok [of E e c c1 ws] a w(2) by (auto simp: given_def)
  have s: "c' = c1\<lparr>ct_sinks := ct_sinks c'\<rparr> \<and> length (ct_sinks c') = length (ct_sinks c1)
    \<and> (\<forall>j < length (ct_sinks c1). settled_to (j \<in> set ws) (ct_sinks c1 ! j) (ct_sinks c' ! j))"
  proof (rule await_ok)
    have "sr_queue (ct_sinks c1 ! i) \<noteq> []" if "i < ?n" for i using g(4) [OF that] by (auto simp: given_to_def)
    then show "\<forall>i \<in> set ws. i < length (ct_sinks c1) \<and> sr_queue (ct_sinks c1 ! i) \<noteq> []" using g by simp
  qed (use w g in simp_all)
  have "recorded_by e (ct_sinks c ! i) (ct_sinks c' ! i)" if "i < ?n" for i
  proof -
    have "given_to e True (ct_sinks c ! i) (ct_sinks c1 ! i)" "settled_to True (ct_sinks c1 ! i) (ct_sinks c' ! i)"
      using g s that by auto
    then show ?thesis by (auto simp: given_to_def settled_to_def recorded_by_def all_recorded_def)
  qed
  moreover have "c' = c\<lparr>ct_sinks := ct_sinks c'\<rparr>"
    using s g(2) by (metis (no_types, lifting) controller.update_convs(19) controller.surjective)
  ultimately show ?thesis using s g(3) by simp
qed

end
