(* ===== verification/ControllerRuns.thy ===== *)
theory ControllerRuns
  imports ControllerSteps
begin

text \<open>
  Invariants of whole runs of the controller: what the elementary steps leave alone, and the locale of the predicates that
  every handler, the termination and every schedule of the run loop and the other goroutines keep.
\<close>

subsection \<open>What the elementary steps leave alone\<close>

text \<open>The fields only the run loop's own assignments write.\<close>

definition owned ::
  "controller \<Rightarrow> (session_id \<times> controllerOptions \<times> State \<times> StateMeta) \<times> (commandRequest list \<times> bool \<times> bool \<times> (nat \<times> EventID \<times> go_error) list)
     \<times> commandRequest list \<times> (commandRequest \<times> Event) list" where
  "owned c = ((ct_session c, ct_options c, ct_state c, ct_meta c), (ct_external c, ct_accepting c, ct_done c, ct_responses c),
     ct_accepted c, ct_commands c)"

definition trail :: "controller \<Rightarrow> highwater \<times> Event list \<times> Event list" where
  "trail c = (ct_published c, ct_log c, ct_shown c)"

lemma subs_frame [simp]:
  "owned (c\<lparr>ct_subs := ss\<rparr>) = owned c" "trail (c\<lparr>ct_subs := ss\<rparr>) = trail c"
  "owned (c\<lparr>ct_subscribers := js\<rparr>) = owned c" "trail (c\<lparr>ct_subscribers := js\<rparr>) = trail c"
  "owned (c\<lparr>ct_sourceDone := b\<rparr>) = owned c" "trail (c\<lparr>ct_sourceDone := b\<rparr>) = trail c"
  by (simp_all add: owned_def trail_def)

lemma allocate_frame [simp]:
  "owned (fst (allocate s c)) = owned c" "trail (fst (allocate s c)) = trail c"
  "ct_sinks (fst (allocate s c)) = ct_sinks c" "ct_fatal (fst (allocate s c)) = ct_fatal c"
  by (auto simp: allocate_def owned_def trail_def Let_def split: outcome.split option.split prod.split bool.split)

lemma deliver_frame [simp]:
  "owned (fst (deliver_to e is c)) = owned c \<and> trail (fst (deliver_to e is c)) = trail c
   \<and> ct_sinks (fst (deliver_to e is c)) = ct_sinks c \<and> ct_fatal (fst (deliver_to e is c)) = ct_fatal c
   \<and> ct_allocated (fst (deliver_to e is c)) = ct_allocated c"
  by (induction "is" arbitrary: c) (auto simp: case_prod_unfold owned_def trail_def Let_def)

lemma latch_frame [simp]:
  "owned (latch e c) = owned c" "trail (latch e c) = trail c" "ct_sinks (latch e c) = ct_sinks c"
  "ct_fatal (latch e c) = ct_fatal c" "ct_allocated (latch e c) = ct_allocated c"
  by (simp_all add: latch_def owned_def trail_def)

lemma expose_frame [simp]:
  "owned (fst (expose e c)) = owned c" "trail (fst (expose e c)) = (ct_published c, ct_log c, ct_shown c @ [e])"
  "ct_sinks (fst (expose e c)) = ct_sinks c" "ct_fatal (fst (expose e c)) = ct_fatal c"
  "ct_allocated (fst (expose e c)) = ct_allocated c"
  using deliver_frame [of e "ct_subscribers (latch e c)" "(latch e c)\<lparr>ct_shown := ct_shown (latch e c) @ [e]\<rparr>"]
    latch_frame [of e c]
  by (simp_all add: expose_def Let_def case_prod_unfold owned_def trail_def)

lemma mark_frame [simp]:
  "owned (fst (markPublished e c)) = owned c" "ct_sinks (fst (markPublished e c)) = ct_sinks c"
  "ct_fatal (fst (markPublished e c)) = ct_fatal c" "ct_allocated (fst (markPublished e c)) = ct_allocated c"
  "ct_shown (fst (markPublished e c)) = ct_shown c"
  by (auto simp: markPublished_def owned_def Let_def split: outcome.split option.split prod.split bool.split)

lemma sink_put_frame [simp]: "owned (c\<lparr>ct_sinks := rs\<rparr>) = owned c" "trail (c\<lparr>ct_sinks := rs\<rparr>) = trail c"
  by (simp_all add: owned_def trail_def)

lemma sink_work_frame [simp]:
  "owned (fst (sink_work E i c)) = owned c" "trail (fst (sink_work E i c)) = trail c"
  "ct_allocated (fst (sink_work E i c)) = ct_allocated c"
  by (simp_all add: sink_work_def requestFatal_def owned_def trail_def case_prod_unfold Let_def split: list.split)

lemma replay_frame [simp]:
  "owned (replay_latched i es c) = owned c \<and> trail (replay_latched i es c) = trail c
   \<and> ct_sinks (replay_latched i es c) = ct_sinks c \<and> ct_fatal (replay_latched i es c) = ct_fatal c
   \<and> ct_allocated (replay_latched i es c) = ct_allocated c"
proof (induction i es c rule: replay_latched.induct)
  case (3 i event es c)
  then show ?case by (cases "sub_enqueue event (ct_subs c ! i)") (auto simp: removeSubscription_def Let_def)
qed simp_all

lemma Subscribe_frame [simp]:
  "owned (fst (ctl_Subscribe p b c)) = owned c" "trail (fst (ctl_Subscribe p b c)) = trail c"
  "ct_sinks (fst (ctl_Subscribe p b c)) = ct_sinks c" "ct_fatal (fst (ctl_Subscribe p b c)) = ct_fatal c"
  "ct_allocated (fst (ctl_Subscribe p b c)) = ct_allocated c"
  by (simp_all add: ctl_Subscribe_def Let_def)

text \<open>An attempted command is accepted, once, or nothing happens.\<close>

lemma attempt_cases:
  obtains "fst (tryEnqueueCommand rq c) = c"
  | "fst (tryEnqueueCommand rq c) = c\<lparr>ct_external := ct_external c @ [rq], ct_accepted := ct_accepted c @ [rq]\<rparr>" "ct_accepting c"
proof (cases "ct_accepting c \<and> int (length (ct_external c)) < co_ingestBuffer (ct_options c)")
  case True
  then show thesis by (intro that(2)) (simp_all add: tryEnqueueCommand_def)
next
  case False
  then have "fst (tryEnqueueCommand rq c) = c" by (cases "ct_accepting c") (simp_all add: tryEnqueueCommand_def)
  then show thesis by (rule that(1))
qed

lemma read_frame [simp]:
  "owned (readLoop_turn x c) = owned c" "trail (readLoop_turn x c) = trail c" "ct_sinks (readLoop_turn x c) = ct_sinks c"
  "ct_allocated (readLoop_turn x c) = ct_allocated c"
  by (simp_all add: readLoop_turn_def requestFatal_def owned_def trail_def)

lemmas frame_fields [simp] = sink_work_frame [unfolded owned_def trail_def prod.inject] read_frame [unfolded owned_def trail_def prod.inject]
  allocate_frame [unfolded owned_def trail_def prod.inject] mark_frame [unfolded owned_def trail_def prod.inject]
  expose_frame [unfolded owned_def trail_def prod.inject]

text \<open>The steps of the other goroutines, by what they touch.\<close>

lemma outside_cases:
  obtains (quiet) "owned (outside_step E x c) = owned c" "trail (outside_step E x c) = trail c"
      "ct_sinks (outside_step E x c) = ct_sinks c" "ct_fatal (outside_step E x c) = ct_fatal c"
  | (sink) i where "i < length (ct_sinks c)" "outside_step E x c = fst (sink_work E i c)"
  | (command) rq where "ct_accepting c"
      "outside_step E x c = c\<lparr>ct_external := ct_external c @ [rq], ct_accepted := ct_accepted c @ [rq]\<rparr>"
  | (read) result where "outside_step E x c = readLoop_turn result c"
proof (cases x)
  case (SinkWorks i)
  then show thesis using quiet sink by (cases "i < length (ct_sinks c)") (simp_all add: outside_step_def)
next
  case (AttemptCommand rq)
  then have x: "outside_step E x c = fst (tryEnqueueCommand rq c)" by (simp add: outside_step_def)
  show thesis
  proof (cases rule: attempt_cases [of rq c])
    case 1
    then show thesis using x by (intro quiet) simp_all
  next
    case 2
    then show thesis using x by (intro command [of rq]) simp_all
  qed
next
  case (SourceReads result)
  then show thesis using read by (simp add: outside_step_def)
next
  case (LateHeader stream)
  show thesis by (rule quiet) (simp_all only: LateHeader outside_step_def outside.case allocate_frame)
next
  case (Unsubscribing i)
  then show thesis
    by (cases "i < length (ct_subs c)") (rule quiet; simp add: outside_step_def ctl_Close_subscription_def removeSubscription_def)+
next
  case (Subscribing policy buffer)
  show thesis by (rule quiet) (simp_all add: Subscribing outside_step_def)
next
  case (Receiving i err)
  show thesis by (rule quiet) (simp_all add: Receiving outside_step_def)
next
  case CancelsSource
  show thesis by (rule quiet) (simp_all add: CancelsSource outside_step_def)
qed


subsection \<open>Whole runs\<close>

definition in_range :: "rat \<Rightarrow> rat \<Rightarrow> fp \<Rightarrow> bool" where
  "in_range lo hi x \<longleftrightarrow> (\<exists>q. x = Fin q \<and> lo \<le> q \<and> q \<le> hi)"

text \<open>A canonical state: every analog value finite and in its range, and only pressed buttons among the extensions.\<close>

definition canonical :: "State \<Rightarrow> bool" where
  "canonical s \<longleftrightarrow> in_range (- 1) 1 (stick_X (st_LeftStick s)) \<and> in_range (- 1) 1 (stick_Y (st_LeftStick s))
     \<and> in_range (- 1) 1 (stick_X (st_RightStick s)) \<and> in_range (- 1) 1 (stick_Y (st_RightStick s))
     \<and> in_range 0 1 (st_LeftTrigger s) \<and> in_range 0 1 (st_RightTrigger s)
     \<and> (\<forall>f i. Extensions (st_Buttons s) = Some f \<longrightarrow> fmlookup f i \<noteq> Some False)"

lemma within_range: "within_range lo hi x \<longleftrightarrow> in_range lo hi x"
  by (cases x) (auto simp: within_range_def in_range_def)

lemma canonical_zero [simp]: "canonical zero_state"
  by (simp add: canonical_def zero_state_def zero_stick_def zero_buttons_def in_range_def)

lemma guarded_pair:
  "snd (if P then (x, False) else (y, True)) \<Longrightarrow> (if P then (x, False) else (y, True)) = (y, True)"
  "\<not> snd (if P then (x, False) else (y, True)) \<Longrightarrow> P \<and> fst (if P then (x, False) else (y, True)) = x"
  by (cases P; simp)+

lemma sanitize_invalid: "snd (sanitizeState s) \<Longrightarrow> sanitizeState s = (zero_state, True)"
  unfolding sanitizeState_def by (rule guarded_pair)

lemma sanitize_valid:
  assumes "\<not> snd (sanitizeState s)"
  shows "in_range (- 1) 1 (stick_X (st_LeftStick s))" "in_range (- 1) 1 (stick_Y (st_LeftStick s))"
    "in_range (- 1) 1 (stick_X (st_RightStick s))" "in_range (- 1) 1 (stick_Y (st_RightStick s))"
    "in_range 0 1 (st_LeftTrigger s)" "in_range 0 1 (st_RightTrigger s)"
    "fst (sanitizeState s) = s\<lparr>st_Buttons := (st_Buttons s)\<lparr>Extensions := pressed_extensions (Extensions (st_Buttons s))\<rparr>\<rparr>"
  using guarded_pair(2) [OF assms [unfolded sanitizeState_def], folded sanitizeState_def] by (simp_all add: within_range)

lemma sanitize_canonical: "canonical (fst (sanitizeState s))"
proof (cases "snd (sanitizeState s)")
  case False
  have "\<forall>f i. pressed_extensions m = Some f \<longrightarrow> fmlookup f i \<noteq> Some False" for m
    by (auto simp: pressed_extensions_def split: if_splits)
  then show ?thesis using sanitize_valid [OF False] by (simp add: canonical_def)
qed (simp add: sanitize_invalid)

text \<open>Every sink has recorded the event.\<close>

definition evidenced :: "Event \<Rightarrow> controller \<Rightarrow> bool" where
  "evidenced e c \<longleftrightarrow> (\<forall>r \<in> set (ct_sinks c). e \<in> set (sr_recorded r))"

text \<open>Facts of that kind that no step undoes.\<close>

lemma sink_record_grows: "\<exists>es. sr_recorded (fst (sink_record E i x r)) = sr_recorded r @ es"
  by (cases rule: sink_record_cases [of E i x r]) auto

lemma sink_work_recorded:
  assumes "r' \<in> set (ct_sinks (fst (sink_work E i c)))" and "i < length (ct_sinks c)"
  shows "\<exists>r \<in> set (ct_sinks c). \<exists>es. sr_recorded r' = sr_recorded r @ es"
proof (cases "sr_queue (ct_sinks c ! i)")
  case Nil
  then show ?thesis using assms by (force simp: sink_work_def)
next
  case (Cons x q)
  let ?r = "(ct_sinks c ! i)\<lparr>sr_queue := q\<rparr>"
  obtain es where es: "sr_recorded (fst (sink_record E i x ?r)) = sr_recorded (ct_sinks c ! i) @ es"
    using sink_record_grows [of E i x ?r] by auto
  have "\<exists>r. ct_sinks (fst (sink_work E i c)) = (ct_sinks c)[i := r] \<and> (\<exists>es. sr_recorded r = sr_recorded (ct_sinks c ! i) @ es)"
    using Cons es by (force simp: sink_work_def Let_def case_prod_unfold requestFatal_def)
  then show ?thesis using assms set_update_subset_insert [of "ct_sinks c" i] by (metis insertE nth_mem subsetD append_Nil2)
qed

interpretation evidence: pipeline_steps E "evidenced e" for E e
proof
  fix c c' assume "evidenced e c" "essence c' = essence c"
  then show "evidenced e c'" by (simp add: evidenced_def essence_def)
next
  fix x c assume e: "evidenced e c"
  then have "evidenced e (fst (sink_work E i c))" if "i < length (ct_sinks c)" for i
    using sink_work_recorded [of _ E i c] that by (fastforce simp: evidenced_def)
  then show "evidenced e (outside_step E x c)" using e
    by (cases rule: outside_cases [of E x c]) (auto simp: evidenced_def)
next
  fix c i r assume "evidenced e c" "i < length (ct_sinks c)"
  then show "evidenced e (c\<lparr>ct_sinks := (ct_sinks c)[i := fst (sink_enqueue (ct_options c) r (ct_sinks c ! i))]\<rparr>)"
    using set_update_subset_insert [of "ct_sinks c" i] by (force simp: evidenced_def sink_enqueue_def)
qed (simp_all add: evidenced_def)

interpretation issued: pipeline_steps E "\<lambda>c. x \<in> set (ct_commands c)" for E x
proof
  show "x \<in> set (ct_commands (outside_step E y c))" if "x \<in> set (ct_commands c)" for y c
    using that by (cases rule: outside_cases [of E y c]) (auto simp: owned_def)
qed (auto simp: essence_def owned_def)

lemma diffEvents_keeps:
  assumes "\<And>s. P s \<Longrightarrow> P (snd (header s))" and "P s"
  shows "P (snd (diffEvents previous current header s))"
proof -
  have b: "P s \<Longrightarrow> P (snd (append_buttons previous current header is s))" for "is" s
    using assms(1) by (induction "is" arbitrary: s) (auto simp: case_prod_unfold Let_def)
  have a: "P (snd r) \<Longrightarrow> P (snd (append_if q f header r))" for q r and f :: "Header \<Rightarrow> Event"
    using assms(1) by (simp add: append_if_def case_prod_unfold Let_def)
  show ?thesis using assms(2) by (simp add: diffEvents_def case_prod_unfold Let_def a b)
qed

text \<open>A synchronous publication that succeeds is evidence: every sink has recorded the event.\<close>

lemma record_evidence: "recordSinks E e c = (c', nil) \<Longrightarrow> evidenced e c'"
  unfolding evidenced_def
proof
  fix r assume c: "recordSinks E e c = (c', nil)" and "r \<in> set (ct_sinks c')"
  then obtain i where "i < length (ct_sinks c')" "r = ct_sinks c' ! i" by (auto simp: in_set_conv_nth)
  then have "recorded_by e (ct_sinks c ! i) r" using record_ok [OF c] by simp
  then show "e \<in> set (sr_recorded r)" by (simp add: recorded_by_def)
qed

text \<open>The stages of a dispatch without error.\<close>

lemma dispatch_nil:
  assumes "dispatchWithMode E e True b commit c = (c', nil)"
  obtains c1 c2 l1 l2 where "validateNextPublished (hd_ID (event_header e)) (interfere E c) = nil"
    and "(if b then recordSinks E e (interfere E c) else enqueueSinks E e (interfere E c)) = (c1, nil)"
    and "markPublished e (commit (interfere E c1)) = (c2, nil)"
    and "report_losses E e l1 l2 nil (fst (expose e (interfere E c2))) = (c', nil)"
proof -
  let ?v = "validateNextPublished (hd_ID (event_header e)) (interfere E c)"
  let ?put = "if b then recordSinks E e (interfere E c) else enqueueSinks E e (interfere E c)"
  obtain c1 err where put: "?put = (c1, err)" by (cases ?put)
  have v: "?v = nil"
  proof (rule ccontr)
    assume "?v \<noteq> nil"
    then have "dispatchWithMode E e True b commit c = (interfere E c, ?v)" by (simp add: dispatchWithMode_def Let_def)
    then show False using assms \<open>?v \<noteq> nil\<close> by simp
  qed
  have e: "err = nil"
  proof (rule ccontr)
    assume "err \<noteq> nil"
    then have "dispatchWithMode E e True b commit c = (c1, err)" using v put by (simp add: dispatchWithMode_def Let_def)
    then show False using assms \<open>err \<noteq> nil\<close> by simp
  qed
  obtain c2 merr where m: "markPublished e (commit (interfere E c1)) = (c2, merr)"
    by (cases "markPublished e (commit (interfere E c1))")
  have me: "merr = nil"
  proof (rule ccontr)
    assume "merr \<noteq> nil"
    then have "dispatchWithMode E e True b commit c = (c2, merr)" using v put e m by (simp add: dispatchWithMode_def Let_def)
    then show False using assms \<open>merr \<noteq> nil\<close> by simp
  qed
  obtain c3 l1 l2 where x: "expose e (interfere E c2) = (c3, l1, l2)" by (cases "expose e (interfere E c2)")
  show thesis
  proof (rule that)
    show "report_losses E e l1 l2 nil (fst (expose e (interfere E c2))) = (c', nil)"
      using assms v put e m me x by (simp add: dispatchWithMode_def Let_def)
  qed (use v put e m me in simp_all)
qed

lemma dispatch_recorded: "dispatchWithMode E e True True (\<lambda>c. c) c = (c', nil) \<Longrightarrow> evidenced e c'"
proof (erule dispatch_nil)
  fix c1 c2 l1 l2
  assume "(if True then recordSinks E e (interfere E c) else enqueueSinks E e (interfere E c)) = (c1, nil)"
  then have "evidenced e c1" by (simp add: record_evidence)
  moreover assume "markPublished e (interfere E c1) = (c2, nil)"
  ultimately have "evidenced e c2" using evidence.mark [OF evidence.interference [of e c1 E], of e] by simp
  moreover assume "report_losses E e l1 l2 nil (fst (expose e (interfere E c2))) = (c', nil)"
  ultimately show "evidenced e c'"
    using evidence.losses [OF evidence.exposed [OF evidence.interference [of e c2 E], of e], of E e l1 l2 nil] by simp
qed

lemma synchronous_recorded: "publishSynchronous E e c = (c', nil) \<Longrightarrow> evidenced e c'"
  using dispatch_recorded [of E e c] evidence.processed [of e _ E]
  by (auto simp: publishSynchronous_def split: prod.splits if_splits) (metis fst_conv)

text \<open>The snapshot is written by the handlers only.\<close>

interpretation snap: pipeline_steps E "\<lambda>c. P (ct_options c) (ct_state c) (ct_meta c)" for E P
proof
  show "P (ct_options (outside_step E x c)) (ct_state (outside_step E x c)) (ct_meta (outside_step E x c))"
    if "P (ct_options c) (ct_state c) (ct_meta c)" for x c
    using that by (cases rule: outside_cases [of E x c]) (simp_all add: owned_def)
qed (simp_all add: essence_def)

lemma snap_derived:
  "P (ct_options c) (ct_state c) (ct_meta c) \<Longrightarrow> c' = snd (diffEvents p s (header_supply E obs rec ts causes syn) c) \<Longrightarrow>
   P (ct_options c') (ct_state c') (ct_meta c')"
  using diffEvents_keeps [of "\<lambda>c. P (ct_options c) (ct_state c) (ct_meta c)"] snap.supplied [of P] by blast

lemma commit_snapshot:
  assumes "publishWithCommit E e commit c = (c', nil)" and "\<And>c. P (ct_options (commit c)) (ct_state (commit c)) (ct_meta (commit c))"
  shows "P (ct_options c') (ct_state c') (ct_meta c')"
proof -
  let ?P = "\<lambda>c. P (ct_options c) (ct_state c) (ct_meta c)"
  obtain c1 where d: "dispatchWithMode E e True (co_synchronousAudit (ct_options c)) commit c = (c1, nil)"
      and p: "fst (processStages E [Some e] 0 c1) = c'"
    using assms(1) by (auto simp: publishWithCommit_def split: prod.splits if_splits)
  from d have "?P c1"
  proof (rule dispatch_nil)
    fix d1 d2 l1 l2
    assume m: "markPublished e (commit (interfere E d1)) = (d2, nil)"
      and l: "report_losses E e l1 l2 nil (fst (expose e (interfere E d2))) = (c1, nil)"
    have "?P d2" using snap.mark [of P, OF assms(2), of e "interfere E d1"] m by simp
    then show ?thesis using snap.losses [of P, OF snap.exposed [of P, OF snap.interference [of P d2 E], of e], of E e l1 l2 nil] l by simp
  qed
  then show ?thesis using snap.processed [of P c1 E "[Some e]" 0] p by simp
qed

lemma snap_all:
  "P (ct_options c) (ct_state c) (ct_meta c) \<Longrightarrow> c' = fst (publish_all E es c) \<Longrightarrow> P (ct_options c') (ct_state c') (ct_meta c')"
  using snap.published_all [of P c E es] by simp

lemma neutralize_zero:
  assumes "neutralize E now why c = (c', nil)"
  shows "ct_state c' = zero_state"
proof -
  let ?h = "nextHeaderAt E ''input'' (in_wall now) now 0 [] True c"
  let ?f = "\<lambda>m. m\<lparr>sm_Stale := True, sm_Synthetic := True, sm_PublishedAt := hd_PublishedAt (snd ?h), sm_Sequence := id_Sequence (hd_ID (snd ?h))\<rparr>"
  let ?commit = "\<lambda>c. update_meta ?f (c\<lparr>ct_state := zero_state\<rparr>)"
  obtain c1 es where p: "publishWithCommit E (ObservationEvent (snd ?h) (synthetic_native why) (ct_state c) zero_state) ?commit (fst ?h) = (c1, nil)"
      and d: "diffEvents (ct_state c) zero_state (header_supply E (in_wall now) now 0 [hd_ID (snd ?h)] True) c1 = es"
      and c': "c' = fst (publish_all E (fst es) (snd es))"
    using assms by (auto simp: neutralize_def Let_def case_prod_unfold and_then_def split: if_splits) (metis prod.collapse fst_conv)
  have "ct_state c1 = zero_state"
    using commit_snapshot [OF p, of "\<lambda>_ s _. s = zero_state"] by (simp add: update_meta_def)
  from snap_derived [of "\<lambda>_ s _. s = zero_state", OF this arg_cong [OF d [symmetric], of snd]]
  have "ct_state (snd es) = zero_state" .
  then show ?thesis using snap_all [of "\<lambda>_ s _. s = zero_state" "snd es" c'] c' by simp
qed

lemma neutral_terminal:
  "ct_state (neutralizeTerminal E now why c) = zero_state" "sm_Stale (ct_meta (neutralizeTerminal E now why c))"
  "sm_Synthetic (ct_meta (neutralizeTerminal E now why c))"
proof -
  let ?P = "\<lambda>_ s m. s = zero_state \<and> sm_Stale m \<and> sm_Synthetic m"
  let ?Q = "\<lambda>c. ?P (ct_options c) (ct_state c) (ct_meta c)"
  have derived: "?Q c \<Longrightarrow> ?Q (snd (diffEvents p s (header_supply E obs rec ts causes syn) c))" for p s obs rec ts causes syn c
    by (rule snap_derived [of ?P]) simp_all
  have "?Q (neutralizeTerminal E now why c)"
    by (simp add: neutralizeTerminal_def Let_def case_prod_unfold update_meta_def snap.published_terminal_all [of ?P] derived
        snap.published_terminal [of ?P] snap.header [of ?P])
  then show "ct_state (neutralizeTerminal E now why c) = zero_state" "sm_Stale (ct_meta (neutralizeTerminal E now why c))"
    "sm_Synthetic (ct_meta (neutralizeTerminal E now why c))" by simp_all
qed

text \<open>A write that leaves a stale snapshot neutral, where the options ask for it.\<close>

definition stale_allowed :: "controller \<Rightarrow> State \<Rightarrow> StateMeta \<Rightarrow> bool" where
  "stale_allowed c s m \<longleftrightarrow> (sm_Stale m \<and> co_neutralizeOnStale (ct_options c) \<longrightarrow>
     s = zero_state \<or> s = ct_state c \<and> sm_Stale (ct_meta c))"

text \<open>The predicates that the handlers keep.\<close>

locale pipeline_handlers = pipeline_steps +
  assumes written: "I c \<Longrightarrow> canonical s \<or> s = ct_state c \<Longrightarrow> stale_allowed c s m \<Longrightarrow> I (c\<lparr>ct_state := s, ct_meta := m\<rparr>)"
    and pop: "I c \<Longrightarrow> ct_external c = r # rest \<Longrightarrow> I (fst (command_event E r (c\<lparr>ct_external := rest\<rparr>)))"
    and reply: "I c \<Longrightarrow> err \<noteq> nil \<or> evidenced e c \<Longrightarrow> (rq, e) \<in> set (ct_commands c) \<Longrightarrow> I (respond rq e err c)"
begin

lemma then_kept: "I (fst r) \<Longrightarrow> (\<And>c. I c \<Longrightarrow> I (fst (f c))) \<Longrightarrow> I (fst (and_then r f))"
  by (simp add: and_then_def case_prod_unfold)

lemma then_kept_nil: "I (fst r) \<Longrightarrow> (snd r = nil \<Longrightarrow> I (fst (f (fst r)))) \<Longrightarrow> I (fst (and_then r f))"
  by (simp add: and_then_def case_prod_unfold)

lemma derived: "I c \<Longrightarrow> I (snd (diffEvents p s (header_supply E obs rec ts causes syn) c))"
  by (rule diffEvents_keeps) (simp_all add: supplied)

lemma meta_write:
  "I c \<Longrightarrow> (sm_Stale (f (ct_meta c)) \<and> co_neutralizeOnStale (ct_options c) \<Longrightarrow> ct_state c = zero_state \<or> sm_Stale (ct_meta c)) \<Longrightarrow>
   I (update_meta f c)"
  using written [of c "ct_state c" "f (ct_meta c)"] by (auto simp: update_meta_def stale_allowed_def)

lemma same_stale: "I c \<Longrightarrow> (\<And>m. sm_Stale (f m) = sm_Stale m) \<Longrightarrow> I (update_meta f c)"
  by (rule meta_write) simp_all

lemma zero_write: "I c \<Longrightarrow> I (update_meta f (c\<lparr>ct_state := zero_state\<rparr>))"
  using written [of c zero_state "f (ct_meta c)"] by (simp add: update_meta_def stale_allowed_def)

lemma observed: "I c \<Longrightarrow> canonical s \<Longrightarrow> I (fst (publish_observation E ob obs rec s bad c))"
proof -
  assume "I c" "canonical s"
  then have "I c \<Longrightarrow> \<not> sm_Stale m \<Longrightarrow> I (c\<lparr>ct_state := s, ct_meta := m\<rparr>)" for m c
    using written [of c s m] by (simp add: stale_allowed_def)
  then show ?thesis using \<open>I c\<close> derived published_all
    by (auto simp: publish_observation_def observed_meta_def Let_def case_prod_unfold intro!: then_kept published_commit header)
qed

lemma handled_observation: "I c \<Longrightarrow> I (fst (handleObservation E ob rec c))"
  using sanitize_canonical [of "ob_State ob"]
  by (auto simp: handleObservation_def Let_def case_prod_unfold report_invalid_def report_gap_def
      intro!: then_kept checked published header observed split: option.split)

lemma connected_stale [simp]: "sm_Stale (connected_if ok m) = sm_Stale m"
  by (simp add: connected_if_def)

lemma health: "I c \<Longrightarrow> I (fst (refreshTransportHealth E now c))"
proof -
  assume "I c"
  then have "I (c\<lparr>ct_tick := t, ct_silenceVerifiable := b\<rparr>)" "I (c\<lparr>ct_tick := t\<rparr>)"
    "I (c\<lparr>ct_tick := t, ct_silenceVerifiable := b, ct_healthSequence := q, ct_healthMonotonic := d\<rparr>)" for t b q d
    by (rule frame; simp)+
  then show ?thesis using \<open>I c\<close> by (simp add: refreshTransportHealth_def Let_def same_stale split: outcome.split)
qed

lemma neutralized: "I c \<Longrightarrow> I (fst (neutralize E now why c))"
  using derived published_all
  by (auto simp: neutralize_def Let_def case_prod_unfold intro!: then_kept published_commit header zero_write)

lemma ticked: "I c \<Longrightarrow> I (fst (onTick E now c))"
proof -
  assume i: "I c"
  let ?fine = "\<lambda>st opts s m. st \<and> co_neutralizeOnStale opts \<longrightarrow> s = zero_state \<or> sm_Stale m"
  define mid where "mid c = (let meta = (if instant_IsZero (sm_ReceivedAt (ct_meta c)) then (ct_meta c)\<lparr>sm_ReceivedAt := ct_startedAt c\<rparr> else ct_meta c);
           age = max (instant_Sub now (sm_ReceivedAt meta)) 0;
           staleAfter = co_staleAfter (ct_options c);
           stale = (staleAfter > 0 \<and> age \<ge> staleAfter)
       in and_then (if stale \<and> \<not> sm_Stale meta \<and> co_neutralizeOnStale (ct_options c) then neutralize E now ''input stale'' c
              else (c, nil))
            (\<lambda>c. and_then (liveness_beat E now meta age stale c)
              (\<lambda>c. advance_processors E now [0..<length (co_processors (ct_options c))]
                 (update_meta (\<lambda>m. m\<lparr>sm_Stale := stale\<rparr>) c))))" for c
  have "I (fst (mid c))" if "I c" for c
  proof -
    define meta where "meta = (if instant_IsZero (sm_ReceivedAt (ct_meta c)) then (ct_meta c)\<lparr>sm_ReceivedAt := ct_startedAt c\<rparr> else ct_meta c)"
    define age where "age = max (instant_Sub now (sm_ReceivedAt meta)) 0"
    define stale where "stale \<longleftrightarrow> co_staleAfter (ct_options c) > 0 \<and> age \<ge> co_staleAfter (ct_options c)"
    let ?r = "if stale \<and> \<not> sm_Stale meta \<and> co_neutralizeOnStale (ct_options c) then neutralize E now ''input stale'' c else (c, nil)"
    let ?J = "\<lambda>c. I c \<and> ?fine stale (ct_options c) (ct_state c) (ct_meta c)"
    have m: "sm_Stale meta = sm_Stale (ct_meta c)" by (simp add: meta_def)
    have r: "I (fst ?r)" using that neutralized by simp
    have J: "?J (fst ?r)" if ok: "snd ?r = nil"
    proof (cases "stale \<and> \<not> sm_Stale meta \<and> co_neutralizeOnStale (ct_options c)")
      case True
      then have "neutralize E now ''input stale'' c = (fst ?r, nil)" using ok by (simp add: prod_eq_iff)
      from neutralize_zero [OF this] show ?thesis using r by blast
    next
      case False
      then show ?thesis using m \<open>I c\<close> by auto
    qed
    have step: "I (fst (and_then (liveness_beat E now meta age stale c)
              (\<lambda>c. advance_processors E now [0..<length (co_processors (ct_options c))]
                 (update_meta (\<lambda>m. m\<lparr>sm_Stale := stale\<rparr>) c))))" if "?J c" for c
    proof -
      have "I (fst (liveness_beat E now meta age stale c))" using that beat by blast
      moreover have "?fine stale (ct_options (fst (liveness_beat E now meta age stale c))) (ct_state (fst (liveness_beat E now meta age stale c)))
          (ct_meta (fst (liveness_beat E now meta age stale c)))"
        using that snap.beat [of "?fine stale" c E now meta age stale] by blast
      ultimately show ?thesis
        by (auto simp: and_then_def case_prod_unfold intro!: advanced_all meta_write)
    qed
    have "I (fst (and_then ?r (\<lambda>c. and_then (liveness_beat E now meta age stale c)
              (\<lambda>c. advance_processors E now [0..<length (co_processors (ct_options c))]
                 (update_meta (\<lambda>m. m\<lparr>sm_Stale := stale\<rparr>) c)))))"
      using r step [OF J] by (rule then_kept_nil)
    then show ?thesis unfolding mid_def Let_def stale_def age_def meta_def .
  qed
  then show ?thesis unfolding onTick_def mid_def [symmetric] using i
    by (auto intro!: then_kept checked health)
qed

lemma handled_command: "I c \<Longrightarrow> ct_external c = rq # rest \<Longrightarrow> I (fst (handleCommand E rq (c\<lparr>ct_external := rest\<rparr>)))"
proof -
  assume "I c" "ct_external c = rq # rest"
  obtain c1 e where ce: "command_event E rq (c\<lparr>ct_external := rest\<rparr>) = (c1, e)" by (cases "command_event E rq (c\<lparr>ct_external := rest\<rparr>)")
  have i: "I c1" using pop [OF \<open>I c\<close> \<open>ct_external c = rq # rest\<close>] ce by simp
  obtain c2 err where p: "publishSynchronous E e c1 = (c2, err)" by (cases "publishSynchronous E e c1")
  have "(rq, e) \<in> set (ct_commands c1)" using ce by (auto simp: command_event_def Let_def case_prod_unfold)
  then have "(rq, e) \<in> set (ct_commands c2)" using issued.published_synchronous [of _ c1 E e] p by simp
  moreover have "I c2" using published_synchronous [OF i, of e] p by simp
  moreover have "err \<noteq> nil \<or> evidenced e c2" using synchronous_recorded p by blast
  ultimately have "I (respond rq e err c2)" by (intro reply)
  then show ?thesis using ce p published [OF i, of e] by (simp add: handleCommand_def)
qed

lemma started: "I c \<Longrightarrow> I (fst (start_run E c))"
proof -
  assume i: "I c"
  have "I (c\<lparr>ct_tick := t, ct_startedAt := now\<rparr>)" for t now using i by (rule frame) simp
  then show ?thesis
    by (auto simp: start_run_def read_clock_def case_prod_unfold intro!: then_kept published_commit published header same_stale)
qed

end

text \<open>The predicates of whole runs. The termination begins by refusing commands.\<close>

locale pipeline_runs = pipeline_handlers +
  assumes closing: "I c \<Longrightarrow> I (c\<lparr>ct_fatal := fs, ct_accepting := False\<rparr>)"
    and ended: "I c \<Longrightarrow> I (c\<lparr>ct_subs := terminate_all err (ct_subscribers c) (ct_subs c), ct_subscribers := []\<rparr>)"
    and closed: "I c \<Longrightarrow> I (c\<lparr>ct_done := True\<rparr>)"
begin

lemma drained: "I c \<Longrightarrow> I (drain_commands E n c)"
proof (induction n arbitrary: c)
  case (Suc n)
  show ?case
  proof (cases "ct_external c")
    case Nil
    then show ?thesis using Suc.prems by simp
  next
    case (Cons rq rest)
    obtain c1 e where ce: "command_event E rq (c\<lparr>ct_external := rest\<rparr>) = (c1, e)"
      by (cases "command_event E rq (c\<lparr>ct_external := rest\<rparr>)")
    have "I c1" using pop [OF Suc.prems Cons] ce by simp
    then have i: "I (publishTerminal E e c1)" by (rule published_terminal)
    have "(rq, e) \<in> set (ct_commands c1)" using ce by (auto simp: command_event_def Let_def case_prod_unfold)
    then have "(rq, e) \<in> set (ct_commands (publishTerminal E e c1))" by (rule issued.published_terminal)
    then have "I (respond rq e [ErrCommandPublicationUncertain, ErrClosed] (publishTerminal E e c1))"
      using i by (intro reply) simp_all
    then show ?thesis using Cons ce Suc.IH by simp
  qed
qed simp

lemma neutralized_terminal: "I c \<Longrightarrow> I (neutralizeTerminal E now why c)"
  by (simp add: neutralizeTerminal_def Let_def case_prod_unfold same_stale published_terminal_all derived published_terminal
      header zero_write)

lemma finished_subscriptions: "I c \<Longrightarrow> I (finishSubscriptions err c)"
  unfolding finishSubscriptions_def by (rule frame [OF ended [of c err]]) (simp_all add: essence_def)

lemma terminated: "I (c\<lparr>ct_accepting := False\<rparr>) \<Longrightarrow> I (terminate E err c)"
proof -
  assume "I (c\<lparr>ct_accepting := False\<rparr>)"
  then have d: "I (drainCommands E (c\<lparr>ct_accepting := False\<rparr>))" by (simp add: drainCommands_def drained)
  have tick: "I c \<Longrightarrow> I (c\<lparr>ct_tick := t\<rparr>)" "I c \<Longrightarrow> I (c\<lparr>ct_sourceDone := True\<rparr>)" "I c \<Longrightarrow> I (addTerminalError x c)" for c t x
    by (rule frame; simp)+
  show ?thesis
    by (simp add: terminate_def Let_def case_prod_unfold read_clock_def tick stopped finished_subscriptions header
        published_terminal meta_write neutralized_terminal d snap.published_terminal [of "\<lambda>_ s _. s = zero_state"]
        snap.header [of "\<lambda>_ s _. s = zero_state"] neutral_terminal)
qed

lemma finished: "I (fst r) \<Longrightarrow> I (finish E r)"
proof -
  assume "I (fst r)"
  then have "I ((fst r)\<lparr>ct_accepting := False\<rparr>)" using closing [of "fst r" "ct_fatal (fst r)"] by simp
  then have "I (terminate E err (fst r))" for err by (rule terminated)
  then have "I ((terminate E err (fst r))\<lparr>ct_done := True\<rparr>)" for err by (rule closed)
  then show ?thesis using \<open>I (fst r)\<close> by (cases r) (simp add: finish_def)
qed

lemma turned: "I c \<Longrightarrow> I (loop_turn E x c)"
proof -
  assume i: "I c"
  have ingest: "I (c\<lparr>ct_ingest := rest\<rparr>)" for rest using i by (rule frame) simp
  have "I (c\<lparr>ct_fatal := rest, ct_accepting := False\<rparr>)" for rest using i by (rule closing)
  then have "I (terminate E err (c\<lparr>ct_fatal := rest\<rparr>))" for err rest by (rule terminated)
  then have fatal: "I ((terminate E err (c\<lparr>ct_fatal := rest\<rparr>))\<lparr>ct_done := True\<rparr>)" for err rest by (rule closed)
  show ?thesis
  proof (cases x)
    case TakeIngest
    then show ?thesis using i ingest by (auto simp: loop_turn_def Let_def finished handled_observation split: list.split)
  next
    case TakeCommand
    then show ?thesis using i by (auto simp: loop_turn_def finished handled_command split: list.split)
  next
    case TakeFatal
    then show ?thesis using i fatal by (auto simp: loop_turn_def finish_def split: list.split)
  qed (use i in \<open>simp_all add: loop_turn_def finished ticked\<close>)
qed

lemma turns: "I c \<Longrightarrow> I (ctl_turns E ts c)"
  by (induction ts arbitrary: c) (simp_all add: turned outside split: turn.split)

lemma whole_run: "I c \<Longrightarrow> I (ctl_run E ts c)"
  by (simp add: ctl_run_def turns finished started interference)

end

end
