(* ===== verification/ControllerSafety.thy ===== *)
theory ControllerSafety
  imports ControllerRuns
begin

text \<open>
  What holds in every run of a controller, whatever its sinks, processors, source and subscribers do and however the
  goroutines interleave.
\<close>

subsection \<open>Headers and commands\<close>

lemma header_frame [simp]:
  "owned (fst (nextHeaderAt E s obs rec ts causes syn c)) = owned c"
  "trail (fst (nextHeaderAt E s obs rec ts causes syn c)) = trail c"
  "ct_sinks (fst (nextHeaderAt E s obs rec ts causes syn c)) = ct_sinks c"
  "ct_fatal (fst (nextHeaderAt E s obs rec ts causes syn c)) = ct_fatal c"
proof -
  have tick: "owned (c\<lparr>ct_tick := t\<rparr>) = owned c" "trail (c\<lparr>ct_tick := t\<rparr>) = trail c" for c t
    by (simp_all add: owned_def trail_def)
  show "owned (fst (nextHeaderAt E s obs rec ts causes syn c)) = owned c"
    "trail (fst (nextHeaderAt E s obs rec ts causes syn c)) = trail c"
    "ct_sinks (fst (nextHeaderAt E s obs rec ts causes syn c)) = ct_sinks c"
    "ct_fatal (fst (nextHeaderAt E s obs rec ts causes syn c)) = ct_fatal c"
    using allocate_frame [of s c]
    by (simp_all add: nextHeaderAt_def read_clock_def case_prod_unfold Let_def tick del: frame_fields)
qed

lemmas header_fields [simp] = header_frame [unfolded owned_def trail_def prod.inject]

definition command_as :: "commandRequest \<Rightarrow> Event \<Rightarrow> bool" where
  "command_as rq e \<longleftrightarrow> (\<exists>h. e = CommandEvent h (cd_Name (cq_command rq)) (cq_payload rq) (cd_Authorized (cq_command rq))
     (cd_Reason (cq_command rq)) \<and> hd_Causes h = cd_Causes (cq_command rq))"

lemma command_event_fields:
  obtains e where "snd (command_event E rq c) = e" "command_as rq e"
    "owned (fst (command_event E rq c)) = owned (c\<lparr>ct_commands := ct_commands c @ [(rq, e)]\<rparr>)"
    "trail (fst (command_event E rq c)) = trail c" "ct_sinks (fst (command_event E rq c)) = ct_sinks c"
    "ct_fatal (fst (command_event E rq c)) = ct_fatal c"
proof (rule that)
  show "command_as rq (snd (command_event E rq c))"
    by (auto simp: command_event_def command_as_def nextHeaderAt_def read_clock_def Let_def case_prod_unfold)
qed (simp_all add: command_event_def Let_def case_prod_unfold, simp_all add: owned_def trail_def)

lemma respond_frame [simp]:
  "trail (respond rq e err c) = trail c" "ct_sinks (respond rq e err c) = ct_sinks c"
  "ct_fatal (respond rq e err c) = ct_fatal c" "ct_session (respond rq e err c) = ct_session c"
  "ct_options (respond rq e err c) = ct_options c" "ct_state (respond rq e err c) = ct_state c"
  "ct_meta (respond rq e err c) = ct_meta c" "ct_external (respond rq e err c) = ct_external c"
  "ct_accepting (respond rq e err c) = ct_accepting c" "ct_accepted (respond rq e err c) = ct_accepted c"
  "ct_commands (respond rq e err c) = ct_commands c"
  by (simp_all add: respond_def trail_def split: option.split)

lemma outside_fields:
  "ct_options (outside_step E x c) = ct_options c" "ct_state (outside_step E x c) = ct_state c"
  "ct_meta (outside_step E x c) = ct_meta c" "ct_accepting (outside_step E x c) = ct_accepting c"
  "ct_responses (outside_step E x c) = ct_responses c" "ct_commands (outside_step E x c) = ct_commands c"
  "ct_done (outside_step E x c) = ct_done c" "trail (outside_step E x c) = trail c"
  by (cases rule: outside_cases [of E x c]; simp add: owned_def; simp add: trail_def)+

subsection \<open>The snapshot\<close>

interpretation valid: pipeline_runs E "\<lambda>c. canonical (ct_state c)" for E
proof
  show "canonical (ct_state (fst (command_event E r (c\<lparr>ct_external := rest\<rparr>))))" if "canonical (ct_state c)" for c r rest
    using that by (cases rule: command_event_fields [of E r "c\<lparr>ct_external := rest\<rparr>"]) (simp add: owned_def)
qed (auto simp: essence_def)

text \<open>C13. In every run the snapshot an application reads is canonical: every analog value is finite and within its range, and
  no released button is listed among the extensions, whatever the source delivered.\<close>

theorem snapshot_canonical:
  "canonical (fst (SnapshotWithMeta (ctl_run E turns (new_controller E options session device backend capability rumbles healthy))))"
  using valid.whole_run by (simp add: SnapshotWithMeta_def new_controller_def)

interpretation fixed_options: pipeline_runs E "\<lambda>c. ct_options c = options" for E options
proof
  show "ct_options (fst (command_event E r (c\<lparr>ct_external := rest\<rparr>))) = options" if "ct_options c = options" for c r rest
    using that by (cases rule: command_event_fields [of E r "c\<lparr>ct_external := rest\<rparr>"]) (simp add: owned_def)
qed (auto simp: essence_def)

text \<open>A stale snapshot is neutral, where the options ask for it.\<close>

definition neutral_when_stale :: "controller \<Rightarrow> bool" where
  "neutral_when_stale c \<longleftrightarrow> (sm_Stale (ct_meta c) \<and> co_neutralizeOnStale (ct_options c) \<longrightarrow> ct_state c = zero_state)"

interpretation neutral: pipeline_runs E neutral_when_stale for E
proof
  show "neutral_when_stale (outside_step E x c)" if "neutral_when_stale c" for x c
    using that by (cases rule: outside_cases [of E x c]) (simp_all add: owned_def neutral_when_stale_def)
  show "neutral_when_stale (fst (command_event E r (c\<lparr>ct_external := rest\<rparr>)))" if "neutral_when_stale c" for c r rest
    using that by (cases rule: command_event_fields [of E r "c\<lparr>ct_external := rest\<rparr>"]) (simp add: owned_def neutral_when_stale_def)
qed (auto simp: essence_def neutral_when_stale_def stale_allowed_def)

subsection \<open>The order of publication\<close>

definition numbers :: "string \<Rightarrow> Event list \<Rightarrow> nat list" where
  "numbers s es = map (\<lambda>e. unat (id_Sequence (hd_ID (event_header e))))
     (filter (\<lambda>e. id_Stream (hd_ID (event_header e)) = s) es)"

definition in_order :: "session_id \<Rightarrow> controller \<Rightarrow> bool" where
  "in_order session c \<longleftrightarrow> ct_session c = session \<and> (\<forall>e \<in> set (ct_log c). id_Session (hd_ID (event_header e)) = session)
     \<and> (\<forall>s. numbers s (ct_log c) = [1..<Suc (unat (Through (Some (ct_published c)) s))])"

lemma mark_in_order:
  assumes "in_order session c"
  shows "in_order session (fst (markPublished e c))"
proof -
  define i where "i = hd_ID (event_header e)"
  show ?thesis
  proof (cases "id_Session i = ct_session c \<and> snd (advance_step (ct_published c) (id_Stream i, id_Sequence i))")
    case True
    let ?w = "ct_published c"
    let ?h = "fst (advance_step ?w (id_Stream i, id_Sequence i))"
    have adv: "Advance (Some ?w) (id_Stream i) (id_Sequence i) = Returned (Some ?h, True)"
      using True by (auto simp: advance_step_eq Advance_def split: if_splits)
    have eq: "fst (markPublished e c) = c\<lparr>ct_published := ?h, ct_log := ct_log c @ [e]\<rparr>"
      using True adv by (simp add: markPublished_def i_def [symmetric])
    note adm = advance_step_admits [of ?w "id_Stream i" "id_Sequence i", OF conjunct2 [OF True]]
    have "Through (Some ?w) (id_Stream i) \<noteq> - 1" using adm(3) by auto
    then have "unat (id_Sequence i) = Suc (unat (Through (Some ?w) (id_Stream i)))"
      using adm(2) unatSuc [of "Through (Some ?w) (id_Stream i)"] by (simp add: add.commute add_eq_0_iff)
    then have "numbers s (ct_log c @ [e]) = [1..<Suc (unat (Through (Some ?h) s))]" for s
      using assms adm(4) [of s] by (simp add: in_order_def numbers_def i_def)
    then show ?thesis using assms True eq by (auto simp: in_order_def i_def)
  next
    case False
    have "fst (markPublished e c) = c"
    proof (cases "id_Session i = ct_session c")
      case True
      then have "id_Stream i = [] \<or> id_Sequence i = 0 \<or> id_Sequence i \<noteq> Expected (Some (ct_published c)) (id_Stream i)"
        using False by (auto simp: advance_step_eq)
      then show ?thesis using True by (simp add: markPublished_def i_def [symmetric] Advance_def)
    qed (simp add: markPublished_def i_def [symmetric])
    then show ?thesis using assms by simp
  qed
qed

interpretation order: pipeline_runs E "in_order session" for E session
proof
  show "in_order session (outside_step E x c)" if "in_order session c" for x c
    using that by (cases rule: outside_cases [of E x c]) (simp_all add: owned_def trail_def in_order_def)
  show "in_order session (fst (command_event E r (c\<lparr>ct_external := rest\<rparr>)))" if "in_order session c" for c r rest
    using that by (cases rule: command_event_fields [of E r "c\<lparr>ct_external := rest\<rparr>"])
      (simp add: owned_def trail_def in_order_def)
  show "in_order session (respond rq e err c)" if "in_order session c" for rq e err c
    using that respond_frame(1) [of rq e err c] by (simp add: in_order_def trail_def)
  show "in_order session (fst (markPublished e c))" if "in_order session c" for e c
    using that by (rule mark_in_order)
qed (simp_all add: essence_def in_order_def update_meta_def)

text \<open>C11. In every run, whatever processors answer and however the goroutines interleave, the events a controller publishes
  carry its session, and in every stream their sequence numbers are 1, 2, 3, \<open>...\<close>: nothing is skipped, repeated or reordered.\<close>

theorem published_in_order:
  "let c = ctl_run E turns (new_controller E options session device backend capability rumbles healthy) in
     list_all (\<lambda>e. id_Session (hd_ID (event_header e)) = session) (ct_log c)
     \<and> (\<exists>n. numbers stream (ct_log c) = [1..<Suc n])"
proof -
  have "in_order session (new_controller E options session device backend capability rumbles healthy)"
    by (simp add: in_order_def new_controller_def numbers_def Through_def HighWater_New_def)
  from order.whole_run [OF this, of E turns] show ?thesis by (auto simp: in_order_def Let_def list_all_iff)
qed

subsection \<open>Commands\<close>

definition commands_kept :: "controller \<Rightarrow> bool" where
  "commands_kept c \<longleftrightarrow> ct_accepted c = map fst (ct_commands c) @ ct_external c
     \<and> (\<forall>(rq, e) \<in> set (ct_commands c). command_as rq e)"

interpretation commands: pipeline_runs E commands_kept for E
proof
  show "commands_kept (outside_step E x c)" if "commands_kept c" for x c
    using that by (cases rule: outside_cases [of E x c]) (simp_all add: owned_def commands_kept_def)
  show "commands_kept (fst (command_event E r (c\<lparr>ct_external := rest\<rparr>)))"
    if "commands_kept c" "ct_external c = r # rest" for c r rest
    using that by (cases rule: command_event_fields [of E r "c\<lparr>ct_external := rest\<rparr>"])
      (auto simp add: owned_def commands_kept_def)
qed (auto simp: essence_def commands_kept_def)

text \<open>The answers to synchronous commands.\<close>

definition answers_true :: "controller \<Rightarrow> bool" where
  "answers_true c \<longleftrightarrow> (\<forall>i id err. (i, id, err) \<in> set (ct_responses c) \<longrightarrow> err = nil \<longrightarrow>
     (\<exists>rq e. (rq, e) \<in> set (ct_commands c) \<and> cq_response rq = Some i \<and> hd_ID (event_header e) = id \<and> evidenced e c))"

lemma answers_step:
  assumes "answers_true c" and "ct_responses c' = ct_responses c" and "set (ct_commands c) \<subseteq> set (ct_commands c')"
    and "\<And>e. evidenced e c \<Longrightarrow> evidenced e c'"
  shows "answers_true c'"
  using assms unfolding answers_true_def by (metis subsetD)

interpretation answers: pipeline_runs E answers_true for E
proof
  show "answers_true c'" if "answers_true c" "essence c' = essence c" for c c'
    using that by (auto intro: answers_step simp: essence_def evidenced_def)
  show "answers_true (outside_step E x c)" if "answers_true c" for x c
    using that by (rule answers_step) (simp_all add: outside_fields evidence.outside)
  show "answers_true (c\<lparr>ct_sinks := (ct_sinks c)[i := fst (sink_enqueue (ct_options c) r (ct_sinks c ! i))]\<rparr>)"
    if "answers_true c" "i < length (ct_sinks c)" for c i r
    using that(1) by (rule answers_step) (simp_all add: evidence.sink_put that(2))
  show "answers_true (fst (command_event E r (c\<lparr>ct_external := rest\<rparr>)))" if "answers_true c" for c r rest
    using that by (cases rule: command_event_fields [of E r "c\<lparr>ct_external := rest\<rparr>"])
      (auto intro!: answers_step [of c] simp: owned_def evidenced_def)
  show "answers_true (respond rq e err c)"
    if "answers_true c" "err \<noteq> nil \<or> evidenced e c" "(rq, e) \<in> set (ct_commands c)" for rq e err c
    using that by (cases "cq_response rq") (auto simp: respond_def answers_true_def evidenced_def)
qed (auto intro: answers_step simp: evidenced_def)

subsection \<open>Failing sinks\<close>

definition failures_known :: "controller \<Rightarrow> bool" where
  "failures_known c \<longleftrightarrow> (\<forall>r \<in> set (ct_sinks c). sr_err r = nil) \<or> ct_fatal c \<noteq> [] \<or> \<not> ct_accepting c"

lemma failures_put:
  assumes "failures_known c" and "sr_err r = sr_err (ct_sinks c ! i)" and "i < length (ct_sinks c)"
  shows "failures_known (c\<lparr>ct_sinks := (ct_sinks c)[i := r]\<rparr>)"
proof (cases "\<forall>r \<in> set (ct_sinks c). sr_err r = nil")
  case True
  then have "sr_err r = nil" using assms(2,3) by simp
  then have "\<forall>r \<in> set ((ct_sinks c)[i := r]). sr_err r = nil" using True set_update_subset_insert [of "ct_sinks c" i r] by auto
  then show ?thesis by (simp add: failures_known_def)
next
  case False
  then have "ct_fatal c \<noteq> [] \<or> \<not> ct_accepting c" using assms(1) by (auto simp: failures_known_def)
  then show ?thesis by (simp add: failures_known_def)
qed

lemma sink_work_failure:
  assumes "failures_known c" and "i < length (ct_sinks c)"
  shows "failures_known (fst (sink_work E i c))"
proof (cases "sr_queue (ct_sinks c ! i)")
  case (Cons x q)
  let ?r = "(ct_sinks c ! i)\<lparr>sr_queue := q\<rparr>"
  obtain r f where sr: "sink_record E i x ?r = (r, f)" by (cases "sink_record E i x ?r")
  have err: "sr_err r = sr_err (ct_sinks c ! i)"
    using sr by (cases rule: sink_record_cases [of E i x ?r]) auto
  consider "sr_err (ct_sinks c ! i) \<noteq> nil" | "sr_err (ct_sinks c ! i) = nil" "f = nil" | "sr_err (ct_sinks c ! i) = nil" "f \<noteq> nil"
    by blast
  then show ?thesis
  proof cases
    case 1
    then have "fst (sink_work E i c) = c\<lparr>ct_sinks := (ct_sinks c)[i := ?r]\<rparr>" using Cons by (simp add: sink_work_def Let_def)
    then show ?thesis using failures_put [OF assms(1) _ assms(2), of ?r] by simp
  next
    case 2
    then have "fst (sink_work E i c) = c\<lparr>ct_sinks := (ct_sinks c)[i := r]\<rparr>" using Cons sr by (simp add: sink_work_def Let_def)
    then show ?thesis using failures_put [OF assms(1) err assms(2)] by simp
  next
    case 3
    then have "fst (sink_work E i c) = requestFatal f (c\<lparr>ct_sinks := (ct_sinks c)[i := r\<lparr>sr_err := f\<rparr>]\<rparr>)"
      using Cons sr err by (simp add: sink_work_def Let_def)
    moreover have "ct_fatal (requestFatal f c) \<noteq> []" for c using 3(2) by (auto simp: requestFatal_def)
    ultimately show ?thesis by (simp add: failures_known_def)
  qed
qed (use assms in \<open>simp add: sink_work_def\<close>)

interpretation failures: pipeline_runs E failures_known for E
proof
  show "failures_known (outside_step E x c)" if "failures_known c" for x c
  proof (cases rule: outside_cases [of E x c])
    case (read result)
    have "ct_fatal c \<noteq> [] \<Longrightarrow> ct_fatal (readLoop_turn result c) \<noteq> []"
      by (simp add: readLoop_turn_def requestFatal_def)
    then show ?thesis using that read by (auto simp: failures_known_def)
  qed (use that sink_work_failure in \<open>auto simp: owned_def failures_known_def\<close>)
  show "failures_known (c\<lparr>ct_sinks := (ct_sinks c)[i := fst (sink_enqueue (ct_options c) r (ct_sinks c ! i))]\<rparr>)"
    if "failures_known c" "i < length (ct_sinks c)" for c i r
    using that by (intro failures_put) (simp_all add: sink_enqueue_def)
  show "failures_known (fst (command_event E r (c\<lparr>ct_external := rest\<rparr>)))" if "failures_known c" for c r rest
    using that by (cases rule: command_event_fields [of E r "c\<lparr>ct_external := rest\<rparr>"])
      (auto simp add: owned_def failures_known_def)
qed (auto simp: essence_def failures_known_def)

subsection \<open>The subscriptions\<close>

text \<open>A subscription that is not listed any more has ended.\<close>

definition enlisted :: "controller \<Rightarrow> bool" where
  "enlisted c \<longleftrightarrow> (\<forall>i < length (ct_subs c). i \<in> set (ct_subscribers c) \<or> sb_closed (ct_subs c ! i))"

text \<open>A subscription that was closed stays closed, and the list does not shrink.\<close>

definition subs_later :: "subscription list \<Rightarrow> subscription list \<Rightarrow> bool" where
  "subs_later ss ss' \<longleftrightarrow> length ss' = length ss \<and> (\<forall>i < length ss. sb_closed (ss ! i) \<longrightarrow> sb_closed (ss' ! i))"

lemma subs_later_refl [simp]: "subs_later ss ss"
  by (simp add: subs_later_def)

lemma subs_later_trans: "subs_later a b \<Longrightarrow> subs_later b c \<Longrightarrow> subs_later a c"
  by (simp add: subs_later_def)

lemma subs_later_update: "(sb_closed (ss ! i) \<Longrightarrow> sb_closed s) \<Longrightarrow> subs_later ss (ss[i := s])"
  unfolding subs_later_def by (metis length_list_update nth_list_update_eq nth_list_update_neq)

lemma enqueue_closed: "sub_enqueue e s = (s', lost, overflow) \<Longrightarrow> (sb_closed s \<longrightarrow> sb_closed s') \<and> (overflow \<longrightarrow> sb_closed s')"
  by (auto simp: sub_enqueue_def sub_put_def broadcastLocked_def Let_def split: if_splits)

lemma enlisted_later:
  assumes "enlisted c" and "subs_later (ct_subs c) (ct_subs c')"
    and "\<And>i. i \<in> set (ct_subscribers c) \<Longrightarrow> i < length (ct_subs c) \<Longrightarrow> i \<notin> set (ct_subscribers c') \<Longrightarrow> sb_closed (ct_subs c' ! i)"
  shows "enlisted c'"
  using assms unfolding enlisted_def subs_later_def by metis

lemma deliver_subs:
  assumes "deliver_to e is c = (c', latest, lossless, gone)"
  shows "subs_later (ct_subs c) (ct_subs c') \<and> ct_subscribers c' = ct_subscribers c
    \<and> (\<forall>i \<in> set gone. i < length (ct_subs c) \<longrightarrow> sb_closed (ct_subs c' ! i))"
  using assms
proof (induction "is" arbitrary: c c' latest lossless gone)
  case (Cons i "is")
  obtain s lost overflow where q: "sub_enqueue e (ct_subs c ! i) = (s, lost, overflow)" by (cases "sub_enqueue e (ct_subs c ! i)") auto
  let ?c = "c\<lparr>ct_subs := (ct_subs c)[i := s]\<rparr>"
  obtain c1 l1 l2 g where d: "deliver_to e is ?c = (c1, l1, l2, g)" by (cases "deliver_to e is ?c") auto
  have c': "c' = c1" "gone = (if overflow then i # g else g)" using Cons.prems q d by (auto split: if_splits)
  note ih = Cons.IH [OF d]
  have later: "subs_later (ct_subs c) ((ct_subs c)[i := s])" using enqueue_closed [OF q] by (intro subs_later_update) simp
  have "sb_closed (ct_subs c1 ! i)" if "overflow" "i < length (ct_subs c)"
    using ih enqueue_closed [OF q] that by (simp add: subs_later_def)
  then show ?case using ih c' subs_later_trans [OF later] by auto
qed simp

lemma replay_subs:
  "subs_later (ct_subs c) (ct_subs (replay_latched i es c)) \<and> set (ct_subscribers (replay_latched i es c)) \<subseteq> set (ct_subscribers c)
   \<and> (\<forall>j \<in> set (ct_subscribers c). j < length (ct_subs c) \<longrightarrow> j \<notin> set (ct_subscribers (replay_latched i es c)) \<longrightarrow>
        sb_closed (ct_subs (replay_latched i es c) ! j))"
proof (induction i es c rule: replay_latched.induct)
  case (3 i event es c)
  obtain s lost overflow where q: "sub_enqueue event (ct_subs c ! i) = (s, lost, overflow)"
    by (cases "sub_enqueue event (ct_subs c ! i)") auto
  have later: "subs_later (ct_subs c) ((ct_subs c)[i := s])" using enqueue_closed [OF q] by (intro subs_later_update) simp
  show ?case
  proof (cases overflow)
    case True
    then show ?thesis using q later enqueue_closed [OF q] by (auto simp: removeSubscription_def Let_def nth_list_update)
  next
    case False
    then show ?thesis using 3 [OF q [symmetric]] q subs_later_trans [OF later] by (simp add: Let_def)
  qed
qed simp_all

lemma enlisted_same: "enlisted c \<Longrightarrow> ct_subs c' = ct_subs c \<Longrightarrow> ct_subscribers c' = ct_subscribers c \<Longrightarrow> enlisted c'"
  by (simp add: enlisted_def)

definition listed :: "controller \<Rightarrow> subscription list \<times> nat list" where
  "listed c = (ct_subs c, ct_subscribers c)"

lemma listed_unchanged [simp]:
  "listed (fst (allocate s c)) = listed c" "listed (fst (markPublished e c)) = listed c" "listed (latch e c) = listed c"
  "listed (respond rq e err c) = listed c" "listed (fst (sink_work E i c)) = listed c"
  by (auto simp: listed_def allocate_def markPublished_def latch_def respond_def sink_work_def requestFatal_def case_prod_unfold Let_def
      split: outcome.split option.split prod.split list.split bool.split)

lemma header_listed [simp]: "listed (fst (nextHeaderAt E s obs rec ts causes syn c)) = listed c"
proof -
  have tick: "listed (c\<lparr>ct_tick := t\<rparr>) = listed c" for c t by (simp add: listed_def)
  show ?thesis by (simp add: nextHeaderAt_def read_clock_def case_prod_unfold Let_def tick)
qed

lemma command_listed [simp]: "listed (fst (command_event E rq c)) = listed c"
proof -
  have "listed (c\<lparr>ct_commands := x\<rparr>) = listed c" for x c by (simp add: listed_def)
  then show ?thesis by (simp add: command_event_def case_prod_unfold Let_def)
qed

lemmas subs_unchanged [simp] = listed_unchanged [unfolded listed_def prod.inject] header_listed [unfolded listed_def prod.inject]
  command_listed [unfolded listed_def prod.inject]

lemma replay_enlisted: "enlisted c \<Longrightarrow> enlisted (replay_latched i es c)"
  by (erule enlisted_later) (use replay_subs [of c i es] in blast)+

lemma subscribe_enlisted:
  assumes "enlisted c"
  shows "enlisted (fst (ctl_Subscribe policy buffer c))"
proof (cases "policy \<noteq> DeliveryLossless \<and> policy \<noteq> DeliveryLatest \<or> ct_terminalErr c \<noteq> nil")
  case True
  then have "fst (ctl_Subscribe policy buffer c) = c"
    by (cases "policy \<noteq> DeliveryLossless \<and> policy \<noteq> DeliveryLatest") (simp_all add: ctl_Subscribe_def Let_def)
  then show ?thesis using assms by simp
next
  case False
  let ?n = "nat (if buffer \<le> 0 then 1024 else buffer)"
  let ?c = "c\<lparr>ct_subs := ct_subs c @ [newEventSubscription policy ?n], ct_subscribers := ct_subscribers c @ [length (ct_subs c)]\<rparr>"
  let ?es = "[ct_connection c, ct_capabilities c, ct_observation c]"
  have "enlisted ?c" using assms by (auto simp: enlisted_def nth_append less_Suc_eq)
  then have "enlisted (replay_latched (length (ct_subs c)) ?es ?c)"
    by (rule replay_enlisted)
  moreover have "fst (ctl_Subscribe policy buffer c) = replay_latched (length (ct_subs c)) ?es ?c"
  proof -
    have "policy = DeliveryLossless \<or> policy = DeliveryLatest" "ct_terminalErr c = nil" using False by auto
    then show ?thesis by (elim disjE) (simp_all add: ctl_Subscribe_def Let_def)
  qed
  ultimately show ?thesis by simp
qed

lemma next_closed [simp]: "sb_closed (fst (sub_Next err s)) = sb_closed s"
  by (simp add: sub_Next_def)

lemma terminate_closed [simp]: "sb_closed (sub_terminate err s)"
  by (simp add: sub_terminate_def broadcastLocked_def)

lemma close_enlisted: "enlisted c \<Longrightarrow> i < length (ct_subs c) \<Longrightarrow> enlisted (ctl_Close_subscription i c)"
  by (auto simp: enlisted_def ctl_Close_subscription_def removeSubscription_def nth_list_update)

lemma terminate_all_closes:
  "length (terminate_all err is ss) = length ss \<and> (\<forall>i < length ss. i \<in> set is \<or> sb_closed (ss ! i) \<longrightarrow> sb_closed (terminate_all err is ss ! i))"
proof (induction "is" arbitrary: ss)
  case (Cons i "is")
  have "sb_closed ((ss[i := sub_terminate err (ss ! i)]) ! j)" if "j < length ss" "j = i \<or> sb_closed (ss ! j)" for j
    using that by (cases "j = i") simp_all
  then show ?case using Cons [of "ss[i := sub_terminate err (ss ! i)]"] by auto
qed simp

lemma outside_enlisted:
  assumes "enlisted c"
  shows "enlisted (outside_step E x c)"
proof (cases x)
  case (Subscribing policy buffer)
  then show ?thesis using subscribe_enlisted [OF assms] by (simp add: outside_step_def)
next
  case (Receiving i err)
  then show ?thesis using assms by (auto simp: outside_step_def enlisted_def nth_list_update)
next
  case (Unsubscribing i)
  then show ?thesis using assms close_enlisted [of c i] by (simp add: outside_step_def)
next
  case (AttemptCommand rq)
  then show ?thesis using assms
    by (cases rule: attempt_cases [of rq c]) (auto simp: outside_step_def intro: enlisted_same)
next
  case (LateHeader s)
  show ?thesis by (rule enlisted_same [OF assms]) (simp_all only: LateHeader outside_step_def outside.case subs_unchanged)
qed (use assms in \<open>auto simp: outside_step_def readLoop_turn_def requestFatal_def intro: enlisted_same\<close>)

lemma expose_enlisted:
  assumes "enlisted c"
  shows "enlisted (fst (expose e c))"
proof -
  let ?c = "(latch e c)\<lparr>ct_shown := ct_shown (latch e c) @ [e]\<rparr>"
  obtain c1 l1 l2 gone where d: "deliver_to e (ct_subscribers (latch e c)) ?c = (c1, l1, l2, gone)"
    by (cases "deliver_to e (ct_subscribers (latch e c)) ?c") auto
  then have "fst (expose e c) = c1\<lparr>ct_subscribers := filter (\<lambda>i. i \<notin> set gone) (ct_subscribers c1)\<rparr>"
    by (simp add: expose_def Let_def)
  moreover have "enlisted ?c" using assms by (rule enlisted_same) simp_all
  then have "enlisted (c1\<lparr>ct_subscribers := filter (\<lambda>i. i \<notin> set gone) (ct_subscribers c1)\<rparr>)"
    by (rule enlisted_later) (use deliver_subs [OF d] in auto)
  ultimately show ?thesis by simp
qed

interpretation lists: pipeline_runs E enlisted for E
proof
  show "enlisted (outside_step E x c)" if "enlisted c" for x c using that by (rule outside_enlisted)
  show "enlisted (fst (expose e c))" if "enlisted c" for e c using that by (rule expose_enlisted)
  show "enlisted (c\<lparr>ct_subs := terminate_all err (ct_subscribers c) (ct_subs c), ct_subscribers := []\<rparr>)" if "enlisted c" for err c
    using that terminate_all_closes [of err "ct_subscribers c" "ct_subs c"] by (simp add: enlisted_def)
qed (auto simp: essence_def intro: enlisted_same)

subsection \<open>The end of a run\<close>

text \<open>While the run loop is running, commands are accepted; its handlers change neither.\<close>

definition running :: "controller \<Rightarrow> bool" where
  "running c \<longleftrightarrow> ct_accepting c \<and> \<not> ct_done c"

interpretation run: pipeline_handlers E running for E
proof
  show "running (outside_step E x c)" if "running c" for x c
    using that by (cases rule: outside_cases [of E x c]) (simp_all add: owned_def running_def)
  show "running (fst (command_event E r (c\<lparr>ct_external := rest\<rparr>)))" if "running c" for c r rest
    using that by (cases rule: command_event_fields [of E r "c\<lparr>ct_external := rest\<rparr>"]) (simp add: owned_def running_def)
  show "running (respond rq e err c)" if "running c" for rq e err c
    using that by (simp add: running_def respond_def split: option.split)
qed (auto simp: essence_def running_def)

definition ended_state :: "controller \<Rightarrow> bool" where
  "ended_state c \<longleftrightarrow> ct_state c = zero_state \<and> \<not> sm_Connected (ct_meta c) \<and> sm_Stale (ct_meta c) \<and> sm_Synthetic (ct_meta c)
     \<and> \<not> ct_accepting c \<and> ct_external c = [] \<and> ct_subscribers c = [] \<and> ct_terminalErr c \<noteq> nil"

text \<open>Refusing commands, the drain empties the queue for good.\<close>

definition refusing :: "commandRequest list \<Rightarrow> controller \<Rightarrow> bool" where
  "refusing rqs c \<longleftrightarrow> \<not> ct_accepting c \<and> ct_external c = rqs"

interpretation refuse: pipeline_steps E "refusing rqs" for E rqs
proof
  show "refusing rqs (outside_step E x c)" if "refusing rqs c" for x c
    using that by (cases rule: outside_cases [of E x c]) (simp_all add: owned_def refusing_def)
qed (auto simp: essence_def refusing_def)

lemma drain_refusing: "refusing rqs c \<Longrightarrow> length rqs \<le> n \<Longrightarrow> refusing [] (drain_commands E n c)"
proof (induction n arbitrary: rqs c)
  case (Suc n)
  show ?case
  proof (cases rqs)
    case Nil
    then show ?thesis using Suc.prems by (simp add: refusing_def)
  next
    case (Cons rq rest)
    let ?r = "command_event E rq (c\<lparr>ct_external := rest\<rparr>)"
    have "refusing rest (fst ?r)"
      using Suc.prems(1) Cons by (cases rule: command_event_fields [of E rq "c\<lparr>ct_external := rest\<rparr>"]) (simp add: owned_def refusing_def)
    then have "refusing rest (publishTerminal E (snd ?r) (fst ?r))" by (rule refuse.published_terminal)
    then have "refusing rest (respond rq (snd ?r) err (publishTerminal E (snd ?r) (fst ?r)))" for err
      by (simp add: refusing_def)
    then show ?thesis using Suc.IH [of rest] Suc.prems Cons by (simp add: case_prod_unfold refusing_def)
  qed
qed (auto simp: refusing_def)

lemma stop_ended: "ended_state c \<Longrightarrow> ended_state (fst (stop_sinks E is c))"
proof -
  have work: "ended_state c \<Longrightarrow> ended_state (fst (sink_work E i c))" for i c
    by (auto simp: ended_state_def sink_work_def requestFatal_def case_prod_unfold Let_def split: list.split)
  have drain: "ended_state c \<Longrightarrow> ended_state (fst (sink_drain E i n c))" for i n c
    by (induction n arbitrary: c) (simp_all add: work case_prod_unfold Let_def)
  show "ended_state c \<Longrightarrow> ended_state (fst (stop_sinks E is c))"
    by (induction "is" arbitrary: c) (auto simp: sink_wait_def drain case_prod_unfold)
qed

text \<open>The snapshot the termination leaves, and the queue it emptied.\<close>

definition neutral_end :: "bool \<Rightarrow> controller \<Rightarrow> bool" where
  "neutral_end disconnected c \<longleftrightarrow> refusing [] c \<and> ct_state c = zero_state \<and> sm_Stale (ct_meta c) \<and> sm_Synthetic (ct_meta c)
     \<and> (disconnected \<longrightarrow> \<not> sm_Connected (ct_meta c))"

interpretation end_state: pipeline_steps E "neutral_end b" for E b
proof
  show "neutral_end b (outside_step E x c)" if "neutral_end b c" for x c
    using that refuse.outside by (simp add: neutral_end_def outside_fields)
qed (auto simp: essence_def refusing_def neutral_end_def)

lemma neutralize_refusing: "refusing [] c \<Longrightarrow> refusing [] (neutralizeTerminal E now why c)"
proof -
  assume r: "refusing [] c"
  have meta: "refusing [] c \<Longrightarrow> refusing [] (update_meta f c)" "refusing [] c \<Longrightarrow> refusing [] (c\<lparr>ct_state := s\<rparr>)" for f s c
    by (simp_all add: refusing_def update_meta_def)
  have "refusing [] c \<Longrightarrow> refusing [] (snd (diffEvents p s (header_supply E obs rec ts causes syn) c))" for p s obs rec ts causes syn c
    by (rule diffEvents_keeps) (simp_all add: refuse.supplied)
  then show ?thesis using r
    by (simp add: neutralizeTerminal_def Let_def case_prod_unfold meta refuse.header refuse.published_terminal
        refuse.published_terminal_all)
qed

lemma addTerminal_ended: "ended_state c \<Longrightarrow> ended_state (addTerminalError err c)"
  by (simp add: ended_state_def addTerminalError_def)

lemma terminate_ended: "ended_state (terminate E err c)"
proof -
  define x where "x = (if err = nil then [ErrDisconnected] else err)"
  define c1 where "c1 = drainCommands E (c\<lparr>ct_accepting := False\<rparr>)"
  define now where "now = en_now E (ct_tick c1)"
  define c3 where "c3 = neutralizeTerminal E now ''disconnect'' (c1\<lparr>ct_tick := ct_tick c1 + 1\<rparr>)"
  define h where "h = nextHeaderAt E ''input'' (in_wall now) now 0 [] True"
  define c4 where "c4 = (if errors_Is x ErrClosed \<or> errors_Is x ErrDisconnected \<or> errors_Is x io_EOF then c3
    else publishTerminal E (ErrorEvent (snd (h c3)) (en_error_text E x) x) (fst (h c3)))"
  define c5 where "c5 = update_meta (\<lambda>m. m\<lparr>sm_Connected := False, sm_Stale := True, sm_Synthetic := True, sm_PublishedAt := in_wall now\<rparr>) c4"
  define c6 where "c6 = publishTerminal E (ConnectionEvent (snd (h c5)) Disconnected (en_error_text E x)) (fst (h c5))"
  define c7 where "c7 = finishSubscriptions x (c6\<lparr>ct_sourceDone := True\<rparr>)"
  have t: "terminate E err c = addTerminalError (source_close_error E)
      (addTerminalError (snd (stop_sinks E [0..<length (ct_sinks c7)] c7)) (fst (stop_sinks E [0..<length (ct_sinks c7)] c7)))"
    by (simp only: terminate_def Let_def case_prod_unfold read_clock_def fst_conv snd_conv x_def [symmetric] c1_def [symmetric]
        now_def [symmetric] c3_def [symmetric] h_def [symmetric] c4_def [symmetric] c5_def [symmetric] c6_def [symmetric]
        c7_def [symmetric])
  have "refusing [] c1" unfolding c1_def drainCommands_def
    by (rule drain_refusing [of "ct_external c"]) (simp_all add: refusing_def)
  then have "refusing [] (c1\<lparr>ct_tick := ct_tick c1 + 1\<rparr>)" by (simp add: refusing_def)
  then have "neutral_end False c3" unfolding c3_def
    using neutralize_refusing neutral_terminal by (simp add: neutral_end_def)
  then have "neutral_end False c4" unfolding c4_def h_def
    by (simp add: end_state.published_terminal end_state.header)
  then have "neutral_end True c5" by (simp add: c5_def update_meta_def neutral_end_def refusing_def)
  then have "neutral_end True c6" unfolding c6_def h_def by (simp add: end_state.published_terminal end_state.header)
  then have "ended_state c7" by (simp add: c7_def ended_state_def neutral_end_def refusing_def finishSubscriptions_def x_def)
  then show ?thesis unfolding t by (intro addTerminal_ended stop_ended)
qed

text \<open>The run loop never leaves that state, and nothing else does.\<close>

lemma outside_ended: "ended_state c \<Longrightarrow> ended_state (outside_step E x c)"
proof (cases x)
  case (Subscribing policy buffer)
  assume "ended_state c"
  then have "fst (ctl_Subscribe policy buffer c) = c" by (simp add: ctl_Subscribe_def ended_state_def)
  then show ?thesis using \<open>ended_state c\<close> Subscribing by (simp add: outside_step_def)
qed (auto simp: outside_step_def ended_state_def ctl_Close_subscription_def removeSubscription_def tryEnqueueCommand_def
    readLoop_turn_def requestFatal_def sink_work_def allocate_def case_prod_unfold Let_def
    split: list.split outcome.split option.split prod.split bool.split)

definition settled :: "controller \<Rightarrow> bool" where
  "settled c \<longleftrightarrow> (if ct_done c then ended_state c else running c)"

lemma finish_settled: "(snd r = nil \<Longrightarrow> running (fst r)) \<Longrightarrow> settled (finish E r)"
  using terminate_ended by (cases r) (auto simp: finish_def settled_def running_def ended_state_def)

lemma turn_settled:
  assumes "settled c"
  shows "settled (loop_turn E x c)"
proof (cases "ct_done c")
  case True
  then show ?thesis using assms by (simp add: loop_turn_def)
next
  case False
  then have r: "running c" using assms by (simp add: settled_def)
  then have c: "settled c" "running (c\<lparr>ct_ingest := q\<rparr>)" for q using False by (simp_all add: settled_def running_def)
  show ?thesis
  proof (cases x)
    case TakeIngest
    then show ?thesis using False c run.handled_observation
      by (auto simp: loop_turn_def Let_def intro!: finish_settled split: list.split)
  next
    case TakeCommand
    then show ?thesis using False c r run.handled_command
      by (auto simp: loop_turn_def intro!: finish_settled split: list.split)
  next
    case TakeFatal
    then show ?thesis using False c by (auto simp: loop_turn_def intro!: finish_settled split: list.split if_splits)
  qed (use False c r run.ticked in \<open>auto simp: loop_turn_def intro!: finish_settled\<close>)
qed

lemma outside_settled: "settled c \<Longrightarrow> settled (outside_step E x c)"
  using outside_ended run.outside [of c E x] by (simp add: settled_def outside_fields)

lemma turns_settled: "settled c \<Longrightarrow> settled (ctl_turns E ts c)"
  by (induction ts arbitrary: c) (simp_all add: turn_settled outside_settled split: turn.split)

lemma run_settled: "settled (ctl_run E turns (new_controller E options session device backend capability rumbles healthy))"
  unfolding ctl_run_def
  by (intro turns_settled finish_settled run.started run.interference) (simp add: running_def new_controller_def)

subsection \<open>The properties of every run\<close>

text \<open>A new controller.\<close>

lemma new_state:
  "commands_kept (new_controller E options session device backend capability rumbles healthy)"
  "answers_true (new_controller E options session device backend capability rumbles healthy)"
  "failures_known (new_controller E options session device backend capability rumbles healthy)"
  "enlisted (new_controller E options session device backend capability rumbles healthy)"
  "neutral_when_stale (new_controller E options session device backend capability rumbles healthy)"
  by (auto simp: new_controller_def newSinkRunner_def zero_meta_def commands_kept_def answers_true_def failures_known_def
      enlisted_def neutral_when_stale_def)


text \<open>C9. A synchronous command that is answered without an error is on record: every configured sink has recorded the event
  whose identity the answer gives, and that event is the command's.\<close>

theorem answered_command_recorded:
  assumes "c = ctl_run E turns (new_controller E options session device backend capability rumbles healthy)"
    and "(i, event_id, nil) \<in> set (ct_responses c)"
  shows "\<exists>rq e. cq_response rq = Some i \<and> hd_ID (event_header e) = event_id \<and> command_as rq e
    \<and> (\<forall>r \<in> set (ct_sinks c). e \<in> set (sr_recorded r))"
proof -
  have "answers_true c" "commands_kept c" unfolding assms(1)
    by (rule answers.whole_run [OF new_state(2)] commands.whole_run [OF new_state(1)])+
  then obtain rq e where "(rq, e) \<in> set (ct_commands c)" "cq_response rq = Some i" "hd_ID (event_header e) = event_id" "evidenced e c"
    using assms(2) unfolding answers_true_def by blast
  then show ?thesis using \<open>commands_kept c\<close> unfolding commands_kept_def evidenced_def by blast
qed

text \<open>C7. A run is either going on or over. While it goes on, commands are accepted, and where a sink has failed the request to stop
  waits at the loop, whose turn on it ends the run. Once it is over the snapshot is neutral, stale and disconnected, no command is accepted or waits,
  there is a terminal error, and every subscription there ever was has ended, so that no reader waits for ever.\<close>

theorem run_or_ended:
  "let c = ctl_run E turns (new_controller E options session device backend capability rumbles healthy) in
     if ct_done c then ended_state c \<and> list_all sb_closed (ct_subs c)
     else ct_accepting c \<and> (list_all (\<lambda>r. sr_err r = nil) (ct_sinks c) \<or> ct_done (loop_turn E TakeFatal c))"
proof -
  let ?c = "ctl_run E turns (new_controller E options session device backend capability rumbles healthy)"
  have k: "settled ?c" "failures_known ?c" "enlisted ?c"
    by (rule run_settled failures.whole_run [OF new_state(3)] lists.whole_run [OF new_state(4)])+
  show ?thesis
  proof (cases "ct_done ?c")
    case True
    then have e: "ended_state ?c" using k(1) by (simp add: settled_def)
    then have "list_all sb_closed (ct_subs ?c)" using k(3) by (simp add: enlisted_def ended_state_def list_all_length)
    then show ?thesis using True e by (simp add: Let_def)
  next
    case False
    then have "ct_accepting ?c" using k(1) by (simp add: settled_def running_def)
    moreover from this have "list_all (\<lambda>r. sr_err r = nil) (ct_sinks ?c) \<or> ct_fatal ?c \<noteq> []"
      using k(2) by (simp add: failures_known_def list_all_iff)
    moreover have "ct_fatal ?c \<noteq> [] \<Longrightarrow> ct_done (loop_turn E TakeFatal ?c)"
      by (auto simp: loop_turn_def finish_def split: list.split)
    ultimately show ?thesis using False by (auto simp: Let_def)
  qed
qed

text \<open>A tick of a run that goes on marks the snapshot stale once the age of the input has reached the limit.\<close>

lemma tickInterval_positive: "0 < co_staleAfter (ct_options c) \<Longrightarrow> 0 < tickInterval E c"
proof -
  assume "0 < co_staleAfter (ct_options c)"
  moreover have "0 < i \<Longrightarrow> 0 < foldl (\<lambda>interval p. if en_advancing E p \<and> (interval = 0 \<or> advanceInterval < interval) then advanceInterval
      else interval) i ps" for i ps
    by (induction ps arbitrary: i) (simp_all add: advanceInterval_def)
  ultimately show ?thesis by (auto simp: tickInterval_def advanceInterval_def Let_def)
qed

lemma health_received:
  "sm_ReceivedAt (ct_meta (fst (refreshTransportHealth E now c))) = sm_ReceivedAt (ct_meta c)
   \<and> ct_options (fst (refreshTransportHealth E now c)) = ct_options c"
proof -
  have "sm_ReceivedAt (connected_if ok m) = sm_ReceivedAt m" for ok m by (simp add: connected_if_def)
  then show ?thesis by (simp add: refreshTransportHealth_def update_meta_def Let_def split: outcome.split)
qed

lemma tick_stale:
  assumes "onTick E now c = (c', nil)" and "\<not> instant_IsZero (sm_ReceivedAt (ct_meta c))"
    and "0 < co_staleAfter (ct_options c)" and "co_staleAfter (ct_options c) \<le> instant_Sub now (sm_ReceivedAt (ct_meta c))"
  shows "sm_Stale (ct_meta c')"
proof -
  define mid where "mid = (\<lambda>c.
       let meta = (if instant_IsZero (sm_ReceivedAt (ct_meta c)) then (ct_meta c)\<lparr>sm_ReceivedAt := ct_startedAt c\<rparr> else ct_meta c);
           age = max (instant_Sub now (sm_ReceivedAt meta)) 0;
           staleAfter = co_staleAfter (ct_options c);
           stale = (staleAfter > 0 \<and> age \<ge> staleAfter)
       in and_then (if stale \<and> \<not> sm_Stale meta \<and> co_neutralizeOnStale (ct_options c) then neutralize E now ''input stale'' c
              else (c, nil))
            (\<lambda>c. and_then (liveness_beat E now meta age stale c)
              (\<lambda>c. advance_processors E now [0..<length (co_processors (ct_options c))]
                 (update_meta (\<lambda>m. m\<lparr>sm_Stale := stale\<rparr>) c))))"
  have "and_then (checkClock E now c) (\<lambda>c. and_then (refreshTransportHealth E now c) mid) = (c', nil)"
    using assms(1) by (simp only: onTick_def mid_def)
  from and_then_nilD [OF this] obtain c1 where k: "checkClock E now c = (c1, nil)"
    and k2: "and_then (refreshTransportHealth E now c1) mid = (c', nil)" by blast
  from and_then_nilD [OF k2] obtain c2 where h: "refreshTransportHealth E now c1 = (c2, nil)" and m: "mid c2 = (c', nil)" by blast
  have c1: "ct_meta c1 = ct_meta c \<and> ct_options c1 = ct_options c"
    using snap.checked [of "\<lambda>opts _ m. m = ct_meta c \<and> opts = ct_options c" c E now] k by simp
  then have c2: "sm_ReceivedAt (ct_meta c2) = sm_ReceivedAt (ct_meta c)" "ct_options c2 = ct_options c"
    using health_received [of E now c1] h by simp_all
  let ?age = "max (instant_Sub now (sm_ReceivedAt (ct_meta c2))) 0"
  let ?neutral = "if \<not> sm_Stale (ct_meta c2) \<and> co_neutralizeOnStale (ct_options c2) then neutralize E now ''input stale'' c2 else (c2, nil)"
  let ?rest = "\<lambda>c. and_then (liveness_beat E now (ct_meta c2) ?age True c)
    (\<lambda>c. advance_processors E now [0..<length (co_processors (ct_options c))] (update_meta (\<lambda>m. m\<lparr>sm_Stale := True\<rparr>) c))"
  have "\<not> instant_IsZero (sm_ReceivedAt (ct_meta c2))" "0 < co_staleAfter (ct_options c2)" "co_staleAfter (ct_options c2) \<le> ?age"
    using c2 assms(2,3,4) by simp_all
  then have "mid c2 = and_then ?neutral ?rest" unfolding mid_def by (simp only: Let_def if_False conj_absorb simp_thms)
  then have "and_then ?neutral ?rest = (c', nil)" using m by simp
  from and_then_nilD [OF this] obtain c3 where "?rest c3 = (c', nil)" by blast
  from and_then_nilD [OF this] obtain c4 where
    "advance_processors E now [0..<length (co_processors (ct_options c4))] (update_meta (\<lambda>m. m\<lparr>sm_Stale := True\<rparr>) c4) = (c', nil)"
    by blast
  then have c': "c' = fst (advance_processors E now [0..<length (co_processors (ct_options c4))] (update_meta (\<lambda>m. m\<lparr>sm_Stale := True\<rparr>) c4))"
    by simp
  show ?thesis unfolding c' by (rule snap.advanced_all) (simp add: update_meta_def)
qed

text \<open>C8. An unattended input cannot stay pressed. Where the options ask for neutralization, a tick that does not end the run
  leaves the neutral state, marked stale, once the time since the last input has reached the limit.\<close>

theorem stale_snapshot_neutral:
  assumes "c = ctl_run E turns (new_controller E options session device backend capability rumbles healthy)"
    and "\<not> ct_done c" and "\<not> ct_done (loop_turn E (TakeTick now) c)"
    and "co_neutralizeOnStale options" and "\<not> instant_IsZero (sm_ReceivedAt (ct_meta c))"
    and "0 < co_staleAfter options" and "co_staleAfter options \<le> instant_Sub now (sm_ReceivedAt (ct_meta c))"
  shows "SnapshotWithMeta (loop_turn E (TakeTick now) c) = (zero_state, ct_meta (loop_turn E (TakeTick now) c))
    \<and> sm_Stale (ct_meta (loop_turn E (TakeTick now) c))"
proof -
  let ?c' = "loop_turn E (TakeTick now) c"
  obtain c1 err where t: "onTick E now c = (c1, err)" by (cases "onTick E now c")
  have opts: "ct_options c = options" unfolding assms(1) by (rule fixed_options.whole_run) (simp add: new_controller_def)
  have "0 < tickInterval E c" using tickInterval_positive [of c E] assms(6) opts by simp
  then have turn: "?c' = finish E (c1, err)" using assms(2) t by (simp add: loop_turn_def)
  have "err = nil" using assms(3) by (simp add: turn finish_def split: if_splits)
  then have c1: "?c' = c1" "onTick E now c = (c1, nil)" using turn t by (simp_all add: finish_def)
  have stale: "sm_Stale (ct_meta ?c')" unfolding c1(1) using tick_stale [OF c1(2) assms(5)] assms(6,7) opts by simp
  have "neutral_when_stale c" unfolding assms(1) by (rule neutral.whole_run [OF new_state(5)])
  then have "neutral_when_stale ?c'" by (rule neutral.turned)
  moreover have "ct_options ?c' = options" by (intro fixed_options.turned) (rule opts)
  ultimately show ?thesis using stale assms(4) by (simp add: neutral_when_stale_def SnapshotWithMeta_def)
qed

end
