(* ===== verification/ControllerLive.thy ===== *)
theory ControllerLive
  imports ControllerSafety
begin

text \<open>
  What holds as long as the run loop goes on, which is as long as every turn ends without an error: the sinks follow the log,
  and the subscribers and the snapshot show nothing that is not in it.
\<close>

subsection \<open>The turns without error\<close>

text \<open>What a commit changes of the snapshot is its own; the rest is the evidence.\<close>

definition evidence_of :: "controller \<Rightarrow> controllerOptions \<times> sinkRunner list \<times> Event list \<times> Event list \<times> State \<times> u64" where
  "evidence_of c = (ct_options c, ct_sinks c, ct_log c, ct_shown c, ct_state c, sm_Sequence (ct_meta c))"

definition plain_commit :: "(controller \<Rightarrow> controller) \<Rightarrow> bool" where
  "plain_commit commit \<longleftrightarrow> (\<forall>c. evidence_of (commit c) = evidence_of c)"

definition snapshot_commit :: "State \<Rightarrow> u64 \<Rightarrow> (controller \<Rightarrow> controller) \<Rightarrow> bool" where
  "snapshot_commit s n commit \<longleftrightarrow> (\<forall>c. evidence_of (commit c) = (ct_options c, ct_sinks c, ct_log c, ct_shown c, s, n))"

lemma evidence_header [simp]: "evidence_of (fst (nextHeaderAt E s obs rec ts causes syn c)) = evidence_of c"
  by (simp add: evidence_of_def)

lemma evidence_simps [simp]:
  "evidence_of (c\<lparr>ct_tick := n\<rparr>) = evidence_of c" "evidence_of (disable i c) = evidence_of c"
  "evidence_of (c\<lparr>ct_clocks := m\<rparr>) = evidence_of c" "evidence_of (c\<lparr>ct_lastLiveness := t\<rparr>) = evidence_of c"
  "evidence_of (c\<lparr>ct_ingest := rs\<rparr>) = evidence_of c" "evidence_of (c\<lparr>ct_external := rqs\<rparr>) = evidence_of c"
  "evidence_of (c\<lparr>ct_startedAt := t\<rparr>) = evidence_of c" "evidence_of (c\<lparr>ct_commands := xs\<rparr>) = evidence_of c"
  "evidence_of (respond rq e err c) = evidence_of c"
  by (simp_all add: evidence_of_def disable_def respond_def split: option.split)

lemma evidence_calls [simp]: "evidence_of (fst (run_call E p c)) = evidence_of c"
proof (induction p arbitrary: c)
  case (Ask s obs ts causes k)
  then show ?case by (simp add: NewHeader_def read_clock_def case_prod_unfold Let_def)
qed simp

lemma evidence_stage [simp]: "evidence_of (fst (stage_calls E i es c)) = evidence_of c"
  by (induction es arbitrary: c) (simp_all add: callProcessor_def case_prod_unfold)

lemma evidence_derived [simp]: "evidence_of (snd (diffEvents p s (header_supply E obs rec ts causes syn) c)) = evidence_of c"
  by (rule diffEvents_keeps [of "\<lambda>d. evidence_of d = evidence_of c"]) (simp_all add: header_supply_def)

lemma evidence_health [simp]: "evidence_of (fst (refreshTransportHealth E now c)) = evidence_of c"
proof -
  have "sm_Sequence (connected_if ok m) = sm_Sequence m" for ok m by (simp add: connected_if_def)
  then show ?thesis by (simp add: refreshTransportHealth_def update_meta_def evidence_of_def Let_def split: outcome.split)
qed

lemma evidence_command [simp]: "evidence_of (fst (command_event E rq c)) = evidence_of c"
  by (simp add: command_event_def case_prod_unfold Let_def)

locale live_pipeline =
  fixes E :: ctl_env and J :: "controller \<Rightarrow> bool"
  assumes same: "J c \<Longrightarrow> evidence_of c' = evidence_of c \<Longrightarrow> J c'"
    and outside: "J c \<Longrightarrow> J (outside_step E x c)"
    and dispatched: "J c \<Longrightarrow> plain_commit commit \<Longrightarrow> b \<or> \<not> co_synchronousAudit (ct_options c) \<Longrightarrow>
      dispatchWithMode E e True b commit c = (c', nil) \<Longrightarrow> J c'"
    and observed: "J c \<Longrightarrow> snapshot_commit s (id_Sequence (hd_ID h)) commit \<Longrightarrow> b \<or> \<not> co_synchronousAudit (ct_options c) \<Longrightarrow>
      dispatchWithMode E (ObservationEvent h n p s) True b commit c = (c', nil) \<Longrightarrow> J c'"
begin

lemma same_fst: "J c \<Longrightarrow> f c = (c', x) \<Longrightarrow> (\<And>c. evidence_of (fst (f c)) = evidence_of c) \<Longrightarrow> J c'"
  using same [of c c'] by (metis fst_conv)

lemma dispatch_ok: "J c \<Longrightarrow> dispatch E e True c = (c', nil) \<Longrightarrow> J c'"
  unfolding dispatch_def by (rule dispatched [of c "\<lambda>c. c"]) (auto simp: plain_commit_def)

lemma outputs_ok: "J c \<Longrightarrow> stage_outputs E i es c = (c', shown, nil) \<Longrightarrow> J c'"
proof (induction es arbitrary: c c' shown)
  case (Cons e es)
  show ?case
  proof (cases e)
    case None
    then show ?thesis using Cons by simp
  next
    case (Some event)
    obtain c1 p err where d: "dispatchProcessorOutput E event c = (c1, p, err)" by (cases "dispatchProcessorOutput E event c") auto
    then have err: "err = nil" using Cons.prems(2) Some by (simp split: if_splits)
    then have "dispatch E event True c = (c1, nil)" using d by (auto simp: dispatchProcessorOutput_def split: if_splits prod.splits)
    then have "J c1" using Cons.prems(1) dispatch_ok by blast
    then show ?thesis using Cons.IH [of c1] Cons.prems(2) Some d err by (auto split: prod.splits)
  qed
qed simp

lemma staged_ok: "J c \<Longrightarrow> run_stages E is es c = (c', nil) \<Longrightarrow> J c'"
proof (induction "is" arbitrary: es c c')
  case (Cons i "is")
  show ?case
  proof (cases "ct_disabled c ! i")
    case True
    then show ?thesis using Cons by simp
  next
    case False
    obtain c1 derived err where s: "stage_calls E i es c = (c1, derived, err)" by (cases "stage_calls E i es c") auto
    obtain c2 shown err2 where o: "stage_outputs E i derived c1 = (c2, shown, err2)" by (cases "stage_outputs E i derived c1") auto
    have ok: "err = nil" "err2 = nil" "run_stages E is (es @ shown) c2 = (c', nil)"
      using Cons.prems(2) False s o by (auto split: if_splits)
    have "J c1" using Cons.prems(1) evidence_stage [of E i es c] s by (intro same [of c c1]) simp_all
    then have "J c2" using o ok outputs_ok by blast
    then show ?thesis using ok(3) Cons.IH by blast
  qed
qed simp

lemma process_ok: "J c \<Longrightarrow> processStages E es n c = (c', nil) \<Longrightarrow> J c'"
  unfolding processStages_def by (rule staged_ok)

lemma publish_ok:
  assumes "J c" and "publish E e c = (c', nil)"
  shows "J c'"
proof -
  obtain c1 err where d: "dispatch E e True c = (c1, err)" by (cases "dispatch E e True c")
  then have "err = nil" "processStages E [Some e] 0 c1 = (c', nil)" using assms(2) by (auto simp: publish_def split: if_splits)
  then show ?thesis using dispatch_ok [OF assms(1)] d process_ok by blast
qed

lemma publish_all_ok: "J c \<Longrightarrow> publish_all E es c = (c', nil) \<Longrightarrow> J c'"
proof (induction es arbitrary: c)
  case (Cons e es)
  from Cons.prems(2) have "and_then (publish E e c) (publish_all E es) = (c', nil)" by simp
  from and_then_nilD [OF this] show ?case using Cons.IH Cons.prems(1) publish_ok by blast
qed simp

lemma commit_ok:
  assumes "J c" and "publishWithCommit E e commit c = (c', nil)"
    and "plain_commit commit \<or> (\<exists>h n p s. e = ObservationEvent h n p s \<and> snapshot_commit s (id_Sequence (hd_ID h)) commit)"
  shows "J c'"
proof -
  let ?b = "co_synchronousAudit (ct_options c)"
  obtain c1 where d: "dispatchWithMode E e True ?b commit c = (c1, nil)" and p: "processStages E [Some e] 0 c1 = (c', nil)"
    using assms(2) by (auto simp: publishWithCommit_def split: prod.splits if_splits)
  have b: "?b \<or> \<not> co_synchronousAudit (ct_options c)" by blast
  have "J c1" using assms(3)
  proof
    assume "plain_commit commit"
    then show ?thesis using dispatched [OF assms(1) _ b d] by blast
  next
    assume "\<exists>h n p s. e = ObservationEvent h n p s \<and> snapshot_commit s (id_Sequence (hd_ID h)) commit"
    then obtain h n p s where "e = ObservationEvent h n p s" "snapshot_commit s (id_Sequence (hd_ID h)) commit" by blast
    then show ?thesis using observed [OF assms(1) _ b] d by blast
  qed
  then show ?thesis using p process_ok by blast
qed

lemma synchronous_ok: "J c \<Longrightarrow> publishSynchronous E e c = (c', nil) \<Longrightarrow> J c'"
proof -
  assume c: "J c" and s: "publishSynchronous E e c = (c', nil)"
  obtain c1 where d: "dispatchWithMode E e True True (\<lambda>c. c) c = (c1, nil)" and p: "processStages E [Some e] 0 c1 = (c', nil)"
    using s by (auto simp: publishSynchronous_def split: prod.splits if_splits)
  have "J c1" using dispatched [OF c _ _ d] by (simp add: plain_commit_def)
  then show "J c'" using p process_ok by blast
qed

lemma then_ok:
  assumes "and_then r f = (c', nil)" and "\<And>c1. r = (c1, nil) \<Longrightarrow> J c1" and "\<And>c1. J c1 \<Longrightarrow> f c1 = (c', nil) \<Longrightarrow> J c'"
  shows "J c'"
  using and_then_nilD [OF assms(1)] assms(2,3) by blast

lemma header_ok: "J c \<Longrightarrow> J (fst (nextHeaderAt E s obs rec ts causes syn c))"
  by (rule same) simp_all

lemma check_ok: "J c \<Longrightarrow> checkClock E now c = (c', nil) \<Longrightarrow> J c'"
proof -
  assume c: "J c" and k: "checkClock E now c = (c', nil)"
  have clocks: "J (c\<lparr>ct_clocks := m\<rparr>)" for m using c by (rule same) simp
  show "J c'"
  proof (cases "cs_Stepped (snd (clock_observe now (ct_clocks c)))")
    case True
    let ?h = "nextHeaderAt E ''input'' (in_wall now) now 0 [] True (c\<lparr>ct_clocks := fst (clock_observe now (ct_clocks c))\<rparr>)"
    obtain e where "publish E e (fst ?h) = (c', nil)" using k True by (auto simp: checkClock_def Let_def case_prod_unfold)
    then show ?thesis using publish_ok header_ok [OF clocks] by blast
  next
    case False
    then show ?thesis using k clocks by (auto simp: checkClock_def Let_def case_prod_unfold)
  qed
qed

lemma derived_ok:
  "J c \<Longrightarrow> (case diffEvents p s (header_supply E obs rec ts causes syn) c of (events, c) \<Rightarrow> publish_all E events c) = (c', nil) \<Longrightarrow> J c'"
proof -
  let ?d = "diffEvents p s (header_supply E obs rec ts causes syn) c"
  assume "J c" and p: "(case ?d of (events, c) \<Rightarrow> publish_all E events c) = (c', nil)"
  then have "J (snd ?d)" by (intro same [of c "snd ?d"]) simp_all
  moreover have "publish_all E (fst ?d) (snd ?d) = (c', nil)" using p by (simp add: case_prod_unfold)
  ultimately show "J c'" by (rule publish_all_ok)
qed

lemma observation_ok: "J c \<Longrightarrow> publish_observation E ob obs rec s bad c = (c', nil) \<Longrightarrow> J c'"
proof -
  let ?h = "nextHeaderAt E ''input'' obs rec (ob_DeviceTimestamp ob) [] bad c"
  let ?commit = "\<lambda>c1. c1\<lparr>ct_state := s, ct_meta := observed_meta obs rec bad s (snd ?h) (fst ?h)\<rparr>"
  assume "J c" and "publish_observation E ob obs rec s bad c = (c', nil)"
  then have a: "and_then (publishWithCommit E (ObservationEvent (snd ?h) (ob_Native ob) (ct_state c) s) ?commit (fst ?h))
      (\<lambda>d. case diffEvents (ct_state c) s (header_supply E obs rec (ob_DeviceTimestamp ob) [hd_ID (snd ?h)] bad) d of
        (events, d) \<Rightarrow> publish_all E events d) = (c', nil)"
    by (simp add: publish_observation_def Let_def case_prod_unfold)
  have commit: "snapshot_commit s (id_Sequence (hd_ID (snd ?h))) ?commit"
    by (simp add: snapshot_commit_def evidence_of_def observed_meta_def)
  show "J c'"
  proof (rule then_ok [OF a])
    show "J c1" if "publishWithCommit E (ObservationEvent (snd ?h) (ob_Native ob) (ct_state c) s) ?commit (fst ?h) = (c1, nil)" for c1
      by (rule commit_ok [OF header_ok [OF \<open>J c\<close>] that]) (use commit in blast)
  qed (rule derived_ok)
qed

lemma neutralize_ok: "J c \<Longrightarrow> neutralize E now why c = (c', nil) \<Longrightarrow> J c'"
proof -
  let ?h = "nextHeaderAt E ''input'' (in_wall now) now 0 [] True c"
  let ?commit = "\<lambda>c1. update_meta (\<lambda>m. m\<lparr>sm_Stale := True, sm_Synthetic := True, sm_PublishedAt := hd_PublishedAt (snd ?h),
             sm_Sequence := id_Sequence (hd_ID (snd ?h))\<rparr>) (c1\<lparr>ct_state := zero_state\<rparr>)"
  assume "J c" and "neutralize E now why c = (c', nil)"
  then have a: "and_then (publishWithCommit E (ObservationEvent (snd ?h) (synthetic_native why) (ct_state c) zero_state) ?commit (fst ?h))
      (\<lambda>d. case diffEvents (ct_state c) zero_state (header_supply E (in_wall now) now 0 [hd_ID (snd ?h)] True) d of
        (events, d) \<Rightarrow> publish_all E events d) = (c', nil)"
    by (simp add: neutralize_def Let_def case_prod_unfold)
  have commit: "snapshot_commit zero_state (id_Sequence (hd_ID (snd ?h))) ?commit"
    by (simp add: snapshot_commit_def evidence_of_def update_meta_def)
  show "J c'"
  proof (rule then_ok [OF a])
    show "J c1" if "publishWithCommit E (ObservationEvent (snd ?h) (synthetic_native why) (ct_state c) zero_state) ?commit (fst ?h) = (c1, nil)" for c1
      by (rule commit_ok [OF header_ok [OF \<open>J c\<close>] that]) (use commit in blast)
  qed (rule derived_ok)
qed

lemma handle_ok: "J c \<Longrightarrow> handleObservation E ob rec c = (c', nil) \<Longrightarrow> J c'"
proof -
  have invalid: "J c \<Longrightarrow> (if b then report_invalid E obs rec ts c else (c, nil)) = (c', nil) \<Longrightarrow> J c'" for b obs ts c c'
    using publish_ok [OF header_ok] by (auto simp: report_invalid_def case_prod_unfold split: if_splits)
  have gap: "J c \<Longrightarrow> (case g of None \<Rightarrow> (c, nil) | Some gap \<Rightarrow> report_gap E obs rec ts gap c) = (c', nil) \<Longrightarrow> J c'" for g obs ts c c'
    using publish_ok [OF header_ok] by (cases g) (auto simp: report_gap_def case_prod_unfold)
  show "J c \<Longrightarrow> handleObservation E ob rec c = (c', nil) \<Longrightarrow> J c'"
    unfolding handleObservation_def Let_def case_prod_unfold
    by (erule then_ok, erule (1) check_ok, erule then_ok, erule (1) invalid, erule then_ok, erule (1) gap, erule (1) observation_ok)
qed

lemma health_ok: "J c \<Longrightarrow> refreshTransportHealth E now c = (c', nil) \<Longrightarrow> J c'"
  using same [of c c'] evidence_health [of E now c] by simp

lemma beat_ok: "J c \<Longrightarrow> liveness_beat E now m age st c = (c', nil) \<Longrightarrow> J c'"
proof -
  assume c: "J c" and l: "liveness_beat E now m age st c = (c', nil)"
  show "J c'"
  proof (cases "co_livenessInterval (ct_options c) > 0 \<and> (instant_IsZero (ct_lastLiveness c)
      \<or> instant_Sub now (ct_lastLiveness c) \<ge> co_livenessInterval (ct_options c))")
    case True
    obtain e where "and_then (publish E e (fst (nextHeaderAt E ''input'' (in_wall now) now 0 [] True c)))
        (\<lambda>c. (c\<lparr>ct_lastLiveness := now\<rparr>, nil)) = (c', nil)"
      using l True by (auto simp: liveness_beat_def Let_def case_prod_unfold)
    then show ?thesis
    proof (rule then_ok)
      show "J c1" if "publish E e (fst (nextHeaderAt E ''input'' (in_wall now) now 0 [] True c)) = (c1, nil)" for c1
        using that header_ok [OF c] publish_ok by blast
      show "J c'" if "J c1" "(c1\<lparr>ct_lastLiveness := now\<rparr>, nil) = (c', nil)" for c1 :: controller
        using that same [of c1 c'] by auto
    qed
  next
    case False
    then show ?thesis using c l unfolding liveness_beat_def Let_def by (simp only: if_False prod.inject)
  qed
qed

lemma advance_ok: "J c \<Longrightarrow> advanceProcessor E i now c = (c', nil) \<Longrightarrow> J c'"
proof -
  assume c: "J c" and a: "advanceProcessor E i now c = (c', nil)"
  let ?call = "run_call E (en_advance E i (ct_tick c) now) (c\<lparr>ct_tick := ct_tick c + 1\<rparr>)"
  show "J c'"
  proof (cases "ct_disabled c ! i \<or> \<not> ct_advancing c ! i")
    case True
    then show ?thesis using c a by (simp add: advanceProcessor_def)
  next
    case False
    obtain c1 derived err where k: "?call = (c1, derived, err)" by (cases ?call) auto
    obtain c2 shown err2 where o: "stage_outputs E i derived c1 = (c2, shown, err2)" by (cases "stage_outputs E i derived c1") auto
    have ok: "err = nil" "err2 = nil" "processStages E derived (i + 1) c2 = (c', nil)"
      using a False k o by (auto simp: advanceProcessor_def split: if_splits)
    have "evidence_of c1 = evidence_of c"
      using evidence_calls [of E "en_advance E i (ct_tick c) now" "c\<lparr>ct_tick := ct_tick c + 1\<rparr>"]
      unfolding k fst_conv evidence_simps .
    then have "J c1" using c same by blast
    then have "J c2" using o ok outputs_ok by blast
    then show ?thesis using ok(3) process_ok by blast
  qed
qed

lemma advance_all_ok: "J c \<Longrightarrow> advance_processors E now is c = (c', nil) \<Longrightarrow> J c'"
proof (induction "is" arbitrary: c)
  case (Cons i "is")
  from Cons.prems(2) have "and_then (advanceProcessor E i now c) (advance_processors E now is) = (c', nil)" by simp
  then show ?case using Cons.IH Cons.prems(1) advance_ok by (elim then_ok) blast+
qed simp

lemma tick_ok: "J c \<Longrightarrow> onTick E now c = (c', nil) \<Longrightarrow> J c'"
proof -
  have neutral: "J c \<Longrightarrow> (if b then neutralize E now why c else (c, nil)) = (c', nil) \<Longrightarrow> J c'" for b why c c'
    using neutralize_ok by (auto split: if_splits)
  have rest: "J c \<Longrightarrow> advance_processors E now is (update_meta (\<lambda>m. m\<lparr>sm_Stale := st\<rparr>) c) = (c', nil) \<Longrightarrow> J c'" for "is" st c c'
    using same [of c "update_meta (\<lambda>m. m\<lparr>sm_Stale := st\<rparr>) c"] advance_all_ok by (simp add: evidence_of_def update_meta_def)
  show "J c \<Longrightarrow> onTick E now c = (c', nil) \<Longrightarrow> J c'"
    unfolding onTick_def Let_def
    by (erule then_ok, erule (1) check_ok, erule then_ok, erule (1) health_ok, erule then_ok, erule (1) neutral,
        erule then_ok, erule (1) beat_ok, erule (1) rest)
qed

lemma command_ok: "J c \<Longrightarrow> handleCommand E rq c = (c', nil) \<Longrightarrow> J c'"
proof -
  assume c: "J c" and h: "handleCommand E rq c = (c', nil)"
  obtain c1 e where ce: "command_event E rq c = (c1, e)" by (cases "command_event E rq c")
  then have c1: "J c1" using c same [of c c1] evidence_command [of E rq c] by simp
  show "J c'"
  proof (cases "cq_response rq = None")
    case True
    then show ?thesis using h ce c1 publish_ok by (simp add: handleCommand_def)
  next
    case False
    obtain c2 err where p: "publishSynchronous E e c1 = (c2, err)" by (cases "publishSynchronous E e c1")
    have "err = nil" "c' = respond rq e err c2" using h ce p False by (auto simp add: handleCommand_def)
    then show ?thesis using synchronous_ok [OF c1, of e c2] p same [of c2 c'] by simp
  qed
qed

lemma start_ok: "J c \<Longrightarrow> start_run E c = (c', nil) \<Longrightarrow> J c'"
proof -
  assume c: "J c" and s: "start_run E c = (c', nil)"
  let ?now = "en_now E (ct_tick c)"
  let ?h = "nextHeaderAt E ''input'' (in_wall ?now) ?now 0 [] False (c\<lparr>ct_tick := ct_tick c + 1, ct_startedAt := ?now\<rparr>)"
  let ?commit = "update_meta (\<lambda>m. m\<lparr>sm_Connected := True, sm_PublishedAt := hd_PublishedAt (snd ?h)\<rparr>)"
  have a: "and_then (publishWithCommit E (ConnectionEvent (snd ?h) Connected []) ?commit (fst ?h))
      (\<lambda>c. publish E (CapabilitiesEvent (snd (nextHeaderAt E ''input'' (in_wall ?now) ?now 0 [] False c)) (capabilities_Clone (ct_capability
        (fst (nextHeaderAt E ''input'' (in_wall ?now) ?now 0 [] False c)))))
        (fst (nextHeaderAt E ''input'' (in_wall ?now) ?now 0 [] False c))) = (c', nil)"
    using s by (simp add: start_run_def read_clock_def case_prod_unfold)
  have h: "J (fst ?h)" using c by (rule same) simp
  have plain: "plain_commit ?commit" by (simp add: plain_commit_def evidence_of_def update_meta_def)
  show "J c'"
  proof (rule then_ok [OF a])
    show "J c1" if "publishWithCommit E (ConnectionEvent (snd ?h) Connected []) ?commit (fst ?h) = (c1, nil)" for c1
      using commit_ok [OF h that] plain by blast
  qed (blast intro: publish_ok header_ok)
qed

text \<open>A run that goes on.\<close>

lemma finish_live: "(snd r = nil \<Longrightarrow> J (fst r)) \<Longrightarrow> \<not> ct_done (finish E r) \<Longrightarrow> J (finish E r)"
  by (cases r) (auto simp: finish_def split: if_splits)

lemma turn_live:
  assumes "ct_done c \<or> J c"
  shows "ct_done (loop_turn E x c) \<or> J (loop_turn E x c)"
proof (cases "ct_done c")
  case True
  then show ?thesis by (simp add: loop_turn_def)
next
  case False
  then have c: "J c" using assms by simp
  have q: "J (c\<lparr>ct_ingest := rs\<rparr>)" "J (c\<lparr>ct_external := rqs\<rparr>)" for rs rqs using c by (rule same; simp)+
  have live: "(snd r = nil \<Longrightarrow> J (fst r)) \<Longrightarrow> ct_done (finish E r) \<or> J (finish E r)" for r using finish_live by blast
  have ok: "J (fst (handleObservation E ob rec c))" if "J c" "snd (handleObservation E ob rec c) = nil" for ob rec c
    using handle_ok [OF that(1), of ob rec "fst (handleObservation E ob rec c)"] that(2) by (simp add: prod_eq_iff)
  have cmd: "J (fst (handleCommand E rq c))" if "J c" "snd (handleCommand E rq c) = nil" for rq c
    using command_ok [OF that(1), of rq "fst (handleCommand E rq c)"] that(2) by (simp add: prod_eq_iff)
  have tick: "J (fst (onTick E now c))" if "snd (onTick E now c) = nil" for now
    using tick_ok [OF c, of now "fst (onTick E now c)"] that by (simp add: prod_eq_iff)
  show ?thesis
  proof (cases x)
    case TakeIngest
    then show ?thesis using False c by (auto simp: loop_turn_def Let_def intro!: live ok q split: list.split)
  next
    case TakeCommand
    then show ?thesis using False c by (auto simp: loop_turn_def intro!: live cmd q split: list.split)
  next
    case TakeFatal
    then show ?thesis using False c by (auto simp: loop_turn_def intro!: live split: list.split if_splits)
  qed (use False c in \<open>auto simp: loop_turn_def intro!: live tick\<close>)
qed

lemma turns_live: "ct_done c \<or> J c \<Longrightarrow> ct_done (ctl_turns E ts c) \<or> J (ctl_turns E ts c)"
proof (induction ts arbitrary: c)
  case (Cons t ts)
  have "ct_done (outside_step E x c) \<or> J (outside_step E x c)" for x using Cons.prems outside by (auto simp: outside_fields)
  then show ?case using Cons.IH turn_live [OF Cons.prems] by (cases t) simp_all
qed simp

lemma run_live:
  assumes "J c" and "\<not> ct_done (ctl_run E ts c)"
  shows "J (ctl_run E ts c)"
proof -
  have "J c \<Longrightarrow> J (outside_steps E xs c)" for xs c by (induction xs arbitrary: c) (simp_all add: outside)
  moreover have "J (c\<lparr>ct_tick := ct_tick c + 1\<rparr>)" using assms(1) by (rule same) simp
  ultimately have "J (interfere E c)" by (simp add: interfere_def)
  from start_ok [OF this, of "fst (start_run E (interfere E c))"]
  have "ct_done (finish E (start_run E (interfere E c))) \<or> J (finish E (start_run E (interfere E c)))"
    using finish_live [of "start_run E (interfere E c)"] by (auto simp: prod_eq_iff)
  from turns_live [OF this] show ?thesis using assms(2) by (auto simp: ctl_run_def)
qed

end

end
