(* ===== verification/ControllerEvidence.thy ===== *)
theory ControllerEvidence
  imports ControllerLive
begin

text \<open>
  The sinks, the subscribers and the snapshot of a running controller against its log of published events.
\<close>

subsection \<open>Sinks that follow a list of events\<close>

definition follows :: "bool \<Rightarrow> Event list \<Rightarrow> sinkRunner \<Rightarrow> bool" where
  "follows synchronous es r \<longleftrightarrow> sr_admitted r = es
     \<and> (if sr_err r = nil then sr_recorded r @ map sq_event (sr_queue r) = es else prefix (sr_recorded r) es)
     \<and> (synchronous \<longrightarrow> sr_err r = nil \<and> sr_queue r = [])"

definition aligned :: "Event list \<Rightarrow> controller \<Rightarrow> bool" where
  "aligned es c \<longleftrightarrow> list_all (follows (co_synchronousAudit (ct_options c)) es) (ct_sinks c)"

lemma aligned_nth: "aligned es c \<longleftrightarrow> (\<forall>i < length (ct_sinks c). follows (co_synchronousAudit (ct_options c)) es (ct_sinks c ! i))"
  by (simp add: aligned_def list_all_length)

lemma aligned_same: "aligned es c \<Longrightarrow> ct_sinks c' = ct_sinks c \<Longrightarrow> ct_options c' = ct_options c \<Longrightarrow> aligned es c'"
  by (simp add: aligned_def)

lemma work_follows:
  assumes "follows b es r" and "sr_queue r = x # q"
  shows "sr_err r = nil \<Longrightarrow> follows b es (r\<lparr>sr_queue := q, sr_calls := n, sr_recorded := sr_recorded r @ [sq_event x]\<rparr>)"
    and "err \<noteq> nil \<Longrightarrow> follows b es (r\<lparr>sr_queue := q, sr_calls := n, sr_err := err\<rparr>)"
    and "sr_err r \<noteq> nil \<Longrightarrow> follows b es (r\<lparr>sr_queue := q\<rparr>)"
  using assms by (auto simp: follows_def intro: prefixI [OF sym] split: if_splits)

lemma work_aligned:
  assumes "aligned es c" and "i < length (ct_sinks c)"
  shows "aligned es (fst (sink_work E i c))"
proof (cases "sr_queue (ct_sinks c ! i)")
  case (Cons x q)
  let ?b = "co_synchronousAudit (ct_options c)"
  let ?r = "(ct_sinks c ! i)\<lparr>sr_queue := q\<rparr>"
  have f: "follows ?b es (ct_sinks c ! i)" using assms by (simp add: aligned_nth)
  have put: "aligned es (c\<lparr>ct_sinks := (ct_sinks c)[i := r]\<rparr>)" "aligned es (requestFatal err (c\<lparr>ct_sinks := (ct_sinks c)[i := r]\<rparr>))"
    if "follows ?b es r" for r err
    using assms that by (simp_all add: aligned_nth nth_list_update requestFatal_def)
  show ?thesis
  proof (cases "sr_err (ct_sinks c ! i) = nil")
    case True
    then show ?thesis
    proof (cases rule: sink_record_cases [of E i x ?r])
      case 1
      then show ?thesis using True Cons put(1) [OF work_follows(1) [OF f Cons True]] by (simp add: sink_work_def Let_def)
    next
      case (2 err)
      then show ?thesis using True Cons put(2) [OF work_follows(2) [OF f Cons 2(1)]] by (simp add: sink_work_def Let_def)
    qed
  next
    case False
    then show ?thesis using Cons put(1) [OF work_follows(3) [OF f Cons False]] by (simp add: sink_work_def Let_def)
  qed
qed (use assms in \<open>simp add: sink_work_def\<close>)

lemma outside_aligned: "aligned es c \<Longrightarrow> aligned es (outside_step E x c)"
  by (cases rule: outside_cases [of E x c]) (auto intro: aligned_same simp: owned_def work_aligned)

lemma interfere_aligned: "aligned es c \<Longrightarrow> aligned es (interfere E c)"
proof -
  have "aligned es c \<Longrightarrow> aligned es (outside_steps E xs c)" for xs c
    by (induction xs arbitrary: c) (simp_all add: outside_aligned)
  then show "aligned es c \<Longrightarrow> aligned es (interfere E c)" using aligned_same [of es c "c\<lparr>ct_tick := ct_tick c + 1\<rparr>"]
    by (simp add: interfere_def)
qed

lemma interfere_fields:
  "ct_options (interfere E c) = ct_options c" "ct_state (interfere E c) = ct_state c" "ct_meta (interfere E c) = ct_meta c"
  "ct_log (interfere E c) = ct_log c" "ct_shown (interfere E c) = ct_shown c"
proof -
  have t: "ct_log (outside_step E x c) = ct_log c" "ct_shown (outside_step E x c) = ct_shown c" for x c
    using outside_fields(8) [of E x c] by (simp_all add: trail_def)
  have "ct_options (outside_steps E xs c) = ct_options c \<and> ct_state (outside_steps E xs c) = ct_state c
    \<and> ct_meta (outside_steps E xs c) = ct_meta c \<and> ct_log (outside_steps E xs c) = ct_log c \<and> ct_shown (outside_steps E xs c) = ct_shown c"
    for xs c by (induction xs arbitrary: c) (simp_all add: outside_fields t)
  then show "ct_options (interfere E c) = ct_options c" "ct_state (interfere E c) = ct_state c" "ct_meta (interfere E c) = ct_meta c"
    "ct_log (interfere E c) = ct_log c" "ct_shown (interfere E c) = ct_shown c" by (simp_all add: interfere_def)
qed

subsection \<open>Recording one more event\<close>

lemma record_follows: "follows b es r \<Longrightarrow> recorded_by e r r' \<Longrightarrow> follows b (es @ [e]) r'"
  by (auto simp: follows_def recorded_by_def)

lemma give_follows: "follows False es r \<Longrightarrow> given_to e True r r' \<Longrightarrow> follows False (es @ [e]) r'"
  by (auto simp: follows_def given_to_def)

lemma put_aligned:
  assumes "aligned es c" and "b \<or> \<not> co_synchronousAudit (ct_options c)"
    and "(if b then recordSinks E e c else enqueueSinks E e c) = (c', nil)"
  shows "aligned (es @ [e]) c' \<and> c' = c\<lparr>ct_sinks := ct_sinks c'\<rparr>"
proof (cases b)
  case True
  then have "recordSinks E e c = (c', nil)" using assms(3) by simp
  from record_ok [OF this] have r: "c' = c\<lparr>ct_sinks := ct_sinks c'\<rparr>" "length (ct_sinks c') = length (ct_sinks c)"
    "\<And>i. i < length (ct_sinks c) \<Longrightarrow> recorded_by e (ct_sinks c ! i) (ct_sinks c' ! i)" by blast+
  have "ct_options c' = ct_options c" using arg_cong [OF r(1), of ct_options] by simp
  then show ?thesis using assms(1) r by (auto simp: aligned_nth intro: record_follows)
next
  case False
  then have s: "\<not> co_synchronousAudit (ct_options c)" using assms(2) by simp
  obtain ws where "admitSinkRecords E e c = (c', ws, nil)"
    using assms(3) False by (cases "admitSinkRecords E e c") (auto simp: enqueueSinks_def)
  from admit_ok [OF this] have r: "c' = c\<lparr>ct_sinks := ct_sinks c'\<rparr>" "length (ct_sinks c') = length (ct_sinks c)"
    "\<And>i. i < length (ct_sinks c) \<Longrightarrow> given_to e True (ct_sinks c ! i) (ct_sinks c' ! i)" by (auto simp: given_def)
  have "ct_options c' = ct_options c" using arg_cong [OF r(1), of ct_options] by simp
  then show ?thesis using assms(1) r s by (auto simp: aligned_nth intro: give_follows)
qed

lemma mark_ok: "markPublished e c = (c', nil) \<Longrightarrow> \<exists>h. c' = c\<lparr>ct_published := h, ct_log := ct_log c @ [e]\<rparr>"
  by (auto simp: markPublished_def Let_def split: if_splits outcome.splits option.splits prod.splits bool.splits)

lemma header_aligned: "aligned es c \<Longrightarrow> aligned es (fst (nextHeaderAt E s obs rec ts causes syn c))"
  by (rule aligned_same) simp_all

text \<open>One more event, then gap events that the subscribers do not see.\<close>

definition extends :: "controller \<Rightarrow> controller \<Rightarrow> bool" where
  "extends c c' \<longleftrightarrow> ct_options c' = ct_options c \<and> ct_state c' = ct_state c \<and> ct_meta c' = ct_meta c
     \<and> ct_shown c' = ct_shown c \<and> prefix (ct_log c) (ct_log c')"

lemma extends_trans: "extends a b \<Longrightarrow> extends b c \<Longrightarrow> extends a c"
  by (auto simp: extends_def)

lemma gap_extends:
  assumes "aligned (ct_log c) c" and "recordSubscriptionGap E e n why c = (c', nil)"
  shows "aligned (ct_log c') c' \<and> extends c c'"
proof -
  let ?c = "c\<lparr>ct_tick := ct_tick c + 1\<rparr>"
  obtain c1 h where h: "nextHeaderAt E ''delivery'' (in_wall (en_now E (ct_tick c))) (en_now E (ct_tick c)) 0 [hd_ID (event_header e)] True ?c = (c1, h)"
    by (cases "nextHeaderAt E ''delivery'' (in_wall (en_now E (ct_tick c))) (en_now E (ct_tick c)) 0 [hd_ID (event_header e)] True ?c")
  define g where "g = GapEvent h ''subscription'' n why"
  let ?put = "if co_synchronousAudit (ct_options c1) then recordSinks E g c1 else enqueueSinks E g c1"
  let ?v = "validateNextPublished (hd_ID h) c1"
  obtain c2 err where put: "?put = (c2, err)" by (cases ?put)
  have "recordSubscriptionGap E e n why c = (if ?v \<noteq> nil then (c1, ?v) else if err \<noteq> nil then (c2, err) else markPublished g c2)"
    using put by (simp only: recordSubscriptionGap_def read_clock_def Let_def prod.case h g_def [symmetric])
  then have ok: "err = nil" "markPublished g c2 = (c', nil)" using assms(2) by (auto split: if_splits)
  have c1': "c1 = fst (nextHeaderAt E ''delivery'' (in_wall (en_now E (ct_tick c))) (en_now E (ct_tick c)) 0 [hd_ID (event_header e)] True ?c)"
    using h by simp
  have c1: "ct_log c1 = ct_log c" "extends c c1" by (simp_all add: c1' extends_def)
  have "aligned (ct_log c) c1" unfolding c1' by (rule header_aligned, rule aligned_same [OF assms(1)]) simp_all
  from put_aligned [OF this, of "co_synchronousAudit (ct_options c1)" E g c2] put ok(1)
  have c2: "aligned (ct_log c @ [g]) c2" "c2 = c1\<lparr>ct_sinks := ct_sinks c2\<rparr>" by auto
  have fields: "ct_log c2 = ct_log c" "ct_options c2 = ct_options c1" "ct_state c2 = ct_state c1" "ct_meta c2 = ct_meta c1"
    "ct_shown c2 = ct_shown c1"
    using c1(1) arg_cong [OF c2(2), of ct_log] arg_cong [OF c2(2), of ct_options] arg_cong [OF c2(2), of ct_state]
      arg_cong [OF c2(2), of ct_meta] arg_cong [OF c2(2), of ct_shown] by simp_all
  obtain h where "c' = c2\<lparr>ct_published := h, ct_log := ct_log c2 @ [g]\<rparr>" using mark_ok [OF ok(2)] by blast
  then show ?thesis using c2(1) c1(2) fields by (auto simp: extends_def aligned_def)
qed

lemma losses_extend:
  assumes "aligned (ct_log c) c" and "report_losses E e l1 l2 nil c = (c', nil)"
  shows "aligned (ct_log c') c' \<and> extends c c'"
proof -
  let ?r1 = "if l1 > 0 then recordSubscriptionGap E e l1 ''DeliveryLatest coalesced a full queue'' c else (c, nil)"
  obtain c1 err1 where r1: "?r1 = (c1, err1)" by (cases ?r1)
  let ?r2 = "if l2 > 0 then recordSubscriptionGap E e l2 ''DeliveryLossless subscription overflowed'' c1 else (c1, nil)"
  obtain c2 err2 where r2: "?r2 = (c2, err2)" by (cases ?r2)
  have ok: "err1 = nil" "err2 = nil" "c' = c2"
    using assms(2) unfolding report_losses_def r1 r2 Let_def by (auto simp: r2)
  have refl: "extends d d" for d by (simp add: extends_def)
  have "aligned (ct_log c1) c1 \<and> extends c c1"
    using r1 ok(1) assms(1) gap_extends [OF assms(1)] refl by (cases "l1 > 0") auto
  moreover from this have "aligned (ct_log c2) c2 \<and> extends c1 c2"
    using r2 ok(2) gap_extends [of c1] refl by (cases "l2 > 0") auto
  ultimately show ?thesis using ok(3) extends_trans by blast
qed

text \<open>A dispatch without error.\<close>

lemma dispatch_aligned:
  assumes "aligned (ct_log c) c" and "b \<or> \<not> co_synchronousAudit (ct_options c)"
    and "dispatchWithMode E e True b commit c = (c', nil)"
    and commit: "\<And>d. ct_options (commit d) = ct_options d \<and> ct_sinks (commit d) = ct_sinks d \<and> ct_log (commit d) = ct_log d
      \<and> ct_shown (commit d) = ct_shown d"
  shows "aligned (ct_log c') c' \<and> prefix (ct_log c @ [e]) (ct_log c') \<and> ct_shown c' = ct_shown c @ [e]
    \<and> (\<exists>d. ct_state d = ct_state c \<and> ct_meta d = ct_meta c \<and> ct_options d = ct_options c
         \<and> ct_state c' = ct_state (commit d) \<and> ct_meta c' = ct_meta (commit d))"
  using assms(3)
proof (rule dispatch_nil)
  fix c1 c2 l1 l2
  assume put: "(if b then recordSinks E e (interfere E c) else enqueueSinks E e (interfere E c)) = (c1, nil)"
    and mark: "markPublished e (commit (interfere E c1)) = (c2, nil)"
    and losses: "report_losses E e l1 l2 nil (fst (expose e (interfere E c2))) = (c', nil)"
  define d where "d = interfere E c1"
  have "aligned (ct_log c) (interfere E c)" using assms(1) by (rule interfere_aligned)
  from put_aligned [OF this _ put] have c1: "aligned (ct_log c @ [e]) c1" "c1 = (interfere E c)\<lparr>ct_sinks := ct_sinks c1\<rparr>"
    using assms(2) by (auto simp: interfere_fields)
  have "ct_log c1 = ct_log c" "ct_state c1 = ct_state c" "ct_meta c1 = ct_meta c" "ct_options c1 = ct_options c" "ct_shown c1 = ct_shown c"
    using arg_cong [OF c1(2), of ct_log] arg_cong [OF c1(2), of ct_options] arg_cong [OF c1(2), of ct_state]
      arg_cong [OF c1(2), of ct_meta] arg_cong [OF c1(2), of ct_shown] by (simp_all add: interfere_fields)
  then have d: "ct_log d = ct_log c" "ct_state d = ct_state c" "ct_meta d = ct_meta c" "ct_options d = ct_options c"
    "ct_shown d = ct_shown c" by (simp_all add: d_def interfere_fields)
  have "aligned (ct_log c @ [e]) d" using c1(1) unfolding d_def by (rule interfere_aligned)
  then have cd: "aligned (ct_log c @ [e]) (commit d)" by (rule aligned_same) (simp_all add: commit)
  obtain h where c2: "c2 = (commit d)\<lparr>ct_published := h, ct_log := ct_log (commit d) @ [e]\<rparr>"
    using mark_ok [OF mark] unfolding d_def by blast
  have "aligned (ct_log c @ [e]) c2" by (rule aligned_same [OF cd]) (simp_all add: c2)
  then have "aligned (ct_log c @ [e]) (interfere E c2)" by (rule interfere_aligned)
  then have x: "aligned (ct_log c @ [e]) (fst (expose e (interfere E c2)))" by (rule aligned_same) simp_all
  define x where "x = fst (expose e (interfere E c2))"
  have fx: "ct_log x = ct_log c @ [e]" "ct_shown x = ct_shown c @ [e]" "ct_state x = ct_state (commit d)" "ct_meta x = ct_meta (commit d)"
    by (simp_all add: x_def interfere_fields c2 commit d)
  have "aligned (ct_log x) x" using x unfolding fx by (simp add: x_def)
  from losses_extend [OF this losses [folded x_def]] show ?thesis using fx d by (auto simp: extends_def)
qed

subsection \<open>Running controllers\<close>

definition snapshot_logged :: "controller \<Rightarrow> bool" where
  "snapshot_logged c \<longleftrightarrow> ct_state c = zero_state \<and> sm_Sequence (ct_meta c) = 0
     \<or> (\<exists>h n p. ObservationEvent h n p (ct_state c) \<in> set (ct_log c) \<and> id_Sequence (hd_ID h) = sm_Sequence (ct_meta c))"

definition logged :: "controller \<Rightarrow> bool" where
  "logged c \<longleftrightarrow> aligned (ct_log c) c \<and> subseq (ct_shown c) (ct_log c) \<and> snapshot_logged c"

lemma shown_grows:
  assumes "subseq (ct_shown c) (ct_log c)" and "prefix (ct_log c @ [e]) (ct_log c')" and "ct_shown c' = ct_shown c @ [e]"
  shows "subseq (ct_shown c') (ct_log c')"
proof -
  have "subseq (ct_shown c @ [e]) (ct_log c @ [e])" using assms(1) list_emb_append_mono [of "(=)" "ct_shown c" "ct_log c" "[e]" "[e]"] by simp
  then show ?thesis using assms(2,3) by (metis prefix_imp_subseq subseq_order.trans)
qed

interpretation live: live_pipeline E logged for E
proof
  fix c c' assume "logged c" "evidence_of c' = evidence_of c"
  then show "logged c'" by (auto simp: logged_def evidence_of_def aligned_def snapshot_logged_def)
next
  fix c x assume l: "logged c"
  have "ct_log (outside_step E x c) = ct_log c" "ct_shown (outside_step E x c) = ct_shown c"
    using outside_fields(8) [of E x c] by (simp_all add: trail_def)
  then show "logged (outside_step E x c)" using l by (simp add: logged_def outside_aligned snapshot_logged_def outside_fields)
next
  fix c commit b e c'
  assume l: "logged c" and p: "plain_commit commit" and b: "b \<or> \<not> co_synchronousAudit (ct_options c)"
    and d: "dispatchWithMode E e True b commit c = (c', nil)"
  have f: "ct_options (commit d) = ct_options d \<and> ct_sinks (commit d) = ct_sinks d \<and> ct_log (commit d) = ct_log d
    \<and> ct_shown (commit d) = ct_shown d" for d using p by (simp add: plain_commit_def evidence_of_def)
  obtain d where k: "aligned (ct_log c') c'" "prefix (ct_log c @ [e]) (ct_log c')" "ct_shown c' = ct_shown c @ [e]"
      "ct_state c' = ct_state (commit d)" "ct_meta c' = ct_meta (commit d)" "ct_state d = ct_state c" "ct_meta d = ct_meta c"
    using dispatch_aligned [OF _ b d f] l unfolding logged_def by blast
  have "ct_state c' = ct_state c" "sm_Sequence (ct_meta c') = sm_Sequence (ct_meta c)"
    using k p by (simp_all add: plain_commit_def evidence_of_def)
  moreover have "set (ct_log c) \<subseteq> set (ct_log c')" using k(2) by (auto simp: prefix_def)
  ultimately have "snapshot_logged c'" using l unfolding logged_def snapshot_logged_def by (metis subsetD)
  then show "logged c'" using k(1) shown_grows [OF _ k(2,3)] l by (simp add: logged_def)
next
  fix c s h n p b commit c'
  let ?e = "ObservationEvent h n p s"
  assume l: "logged c" and sc: "snapshot_commit s (id_Sequence (hd_ID h)) commit" and b: "b \<or> \<not> co_synchronousAudit (ct_options c)"
    and d: "dispatchWithMode E ?e True b commit c = (c', nil)"
  have f: "ct_options (commit d) = ct_options d \<and> ct_sinks (commit d) = ct_sinks d \<and> ct_log (commit d) = ct_log d
    \<and> ct_shown (commit d) = ct_shown d" for d using sc by (simp add: snapshot_commit_def evidence_of_def)
  obtain d where k: "aligned (ct_log c') c'" "prefix (ct_log c @ [?e]) (ct_log c')" "ct_shown c' = ct_shown c @ [?e]"
      "ct_state c' = ct_state (commit d)" "ct_meta c' = ct_meta (commit d)"
    using dispatch_aligned [OF _ b d f] l unfolding logged_def by blast
  have "ct_state c' = s" "sm_Sequence (ct_meta c') = id_Sequence (hd_ID h)"
    using k sc by (simp_all add: snapshot_commit_def evidence_of_def)
  moreover have "?e \<in> set (ct_log c')" using k(2) by (auto simp: prefix_def)
  ultimately have "snapshot_logged c'" unfolding snapshot_logged_def by metis
  then show "logged c'" using k(1) shown_grows [OF _ k(2,3)] l by (simp add: logged_def)
qed

lemma running_logged:
  assumes "c = ctl_run E turns (new_controller E options session device backend capability rumbles healthy)" and "\<not> ct_done c"
  shows "logged c \<and> ct_options c = options"
proof
  have "logged (new_controller E options session device backend capability rumbles healthy)"
    by (simp add: logged_def aligned_def follows_def snapshot_logged_def new_controller_def newSinkRunner_def zero_meta_def list_all_iff)
  then show "logged c" using assms live.run_live by blast
  show "ct_options c = options" unfolding assms(1) by (rule fixed_options.whole_run) (simp add: new_controller_def)
qed

text \<open>C6. As long as a run goes on, no event escapes the audit. Every sink was handed exactly the published events, in the order
  of publication; it has recorded them in that order, all but those that wait in its queue; in synchronous mode none waits, so
  every sink has recorded exactly what is published; and the subscribers were shown nothing but published events, in order.\<close>

theorem sinks_follow_log:
  assumes "c = ctl_run E turns (new_controller E options session device backend capability rumbles healthy)" and "\<not> ct_done c"
  shows "list_all (\<lambda>r. sr_admitted r = ct_log c \<and> prefix (sr_recorded r) (ct_log c)
      \<and> (if co_synchronousAudit options then sr_recorded r = ct_log c
         else if sr_err r = nil then sr_recorded r @ map sq_event (sr_queue r) = ct_log c else True)) (ct_sinks c)
    \<and> subseq (ct_shown c) (ct_log c)"
proof -
  have "logged c" "ct_options c = options" using running_logged [OF assms] by simp_all
  then show ?thesis
    by (auto simp: logged_def aligned_def follows_def list_all_iff intro: prefixI [OF sym] split: if_splits)
qed

text \<open>C12. As long as a run goes on, the snapshot an application reads is that of a published observation: an observation event with
  that state, under the sequence number of the snapshot's metadata, is among the published events.\<close>

theorem snapshot_was_published:
  assumes "c = ctl_run E turns (new_controller E options session device backend capability rumbles healthy)" and "\<not> ct_done c"
    and "SnapshotWithMeta c = (s, m)" and "sm_Sequence m \<noteq> 0"
  shows "\<exists>h n p. ObservationEvent h n p s \<in> set (ct_log c) \<and> id_Sequence (hd_ID h) = sm_Sequence m"
  using running_logged [OF assms(1,2)] assms(3,4) by (auto simp: logged_def snapshot_logged_def SnapshotWithMeta_def)

end
