(* ===== verification/ControllerWitness.thy ===== *)
theory ControllerWitness
  imports ControllerEvidence
begin

text \<open>
  A run of a controller, evaluated: an observation with a pressed button, a synchronous command, and ticks without input. The
  properties that have hypotheses are applied to it.
\<close>

definition calm_library :: audit_library where
  "calm_library = \<lparr>al_sha256 = (\<lambda>_. []), al_hmac = (\<lambda>_ _. []), al_ed25519 = (\<lambda>_ _ _. True), al_RFC3339Nano = (\<lambda>_. []),
     al_Marshal = (\<lambda>_. None), al_MarshalV1 = (\<lambda>_. None), al_MarshalProvenance = (\<lambda>_. None), al_MarshalHeader = (\<lambda>_. None),
     al_utf8 = (\<lambda>_. True), al_valid = (\<lambda>_. True), al_tokens = (\<lambda>_. []), al_fields = (\<lambda>_. None), al_int = (\<lambda>_. None),
     al_record = (\<lambda>_. None), al_provenance = (\<lambda>_. None), al_envelope = (\<lambda>_. None), al_compact = (\<lambda>s. s)\<rparr>"

text \<open>The clock reads one more at every reading; the sink accepts everything.\<close>

definition calm_env :: ctl_env where
  "calm_env = \<lparr>en_library = calm_library, en_encode = (\<lambda>_. Returned (Inr [])), en_now = (\<lambda>n. \<lparr>in_wall = int n + 1, in_mono = None\<rparr>),
     en_sink = (\<lambda>_ _ _. Answered nil), en_process = (\<lambda>_ _ _. Finish (Answered ([], nil))),
     en_advance = (\<lambda>_ _ _. Finish (Answered ([], nil))), en_panics = (\<lambda>_. False), en_health = (\<lambda>_. Panicked), en_outside = (\<lambda>_. []),
     en_drains = (\<lambda>_. True), en_closes = Answered nil, en_error_text = (\<lambda>_. []), en_canonical = (\<lambda>_. False),
     en_advancing = (\<lambda>_. False)\<rparr>"

definition calm_options :: controllerOptions where
  "calm_options = default_open_options\<lparr>co_sinks := [PointerTo ''sink'' 1], co_synchronousAudit := True,
     co_neutralizeOnStale := True, co_staleAfter := 50\<rparr>"

definition calm_controller :: controller where
  "calm_controller = new_controller calm_env calm_options 7 ''pad'' ''test'' \<lparr>cap_Controls = [], cap_AuditGrade = AuditSampledState,
     cap_Rumble = False, cap_Battery = False, cap_LEDs = False\<rparr> False False"

definition pressed :: State where
  "pressed = zero_state\<lparr>st_LeftTrigger := Fin 1\<rparr>"

definition reading :: sourceResult where
  "reading = \<lparr>so_observation = \<lparr>ob_State = pressed, ob_ObservedAt = zero_instant, ob_DeviceTimestamp = 0,
     ob_Native = \<lparr>native_Format = [], native_Data = [], native_Fields = None\<rparr>, ob_Gap = None\<rparr>,
     so_receivedAt = \<lparr>in_wall = 20, in_mono = None\<rparr>, so_err = nil\<rparr>"

definition request :: commandRequest where
  "request = \<lparr>cq_command = \<lparr>cd_Name = ''stop'', cd_Payload = None, cd_Authorized = True, cd_Reason = [], cd_Causes = []\<rparr>,
     cq_payload = [], cq_issuedAt = \<lparr>in_wall = 30, in_mono = None\<rparr>, cq_response = Some 5\<rparr>"

definition calm_turns :: "turn list" where
  "calm_turns = [OutsideTurn (Subscribing DeliveryLossless 4), OutsideTurn (SourceReads reading), LoopTurn TakeIngest,
     OutsideTurn (AttemptCommand request), LoopTurn TakeCommand]"

definition calm_run :: controller where
  "calm_run = ctl_run calm_env calm_turns calm_controller"

definition late :: instant where
  "late = \<lparr>in_wall = 200, in_mono = None\<rparr>"

lemma calm_goes_on: "\<not> ct_done calm_run"
  by code_simp

lemma calm_ticks: "\<not> ct_done (loop_turn calm_env (TakeTick late) calm_run)"
  by code_simp

lemma calm_answers: "ct_responses calm_run = [(5, \<lparr>id_Session = 7, id_Stream = ''command'', id_Sequence = 1\<rparr>, nil)]"
  by code_simp

lemma calm_state: "ct_state calm_run = pressed"
  by code_simp

lemma calm_sequence: "sm_Sequence (ct_meta calm_run) = 3"
  by code_simp

lemma calm_received: "sm_ReceivedAt (ct_meta calm_run) = \<lparr>in_wall = 20, in_mono = None\<rparr>"
  by code_simp

lemma calm_is_run: "calm_run = ctl_run calm_env calm_turns (new_controller calm_env calm_options 7 ''pad'' ''test''
    \<lparr>cap_Controls = [], cap_AuditGrade = AuditSampledState, cap_Rumble = False, cap_Battery = False, cap_LEDs = False\<rparr> False False)"
  by (simp add: calm_run_def calm_controller_def)

lemma calm_limits: "co_neutralizeOnStale calm_options" "0 < co_staleAfter calm_options"
  "co_staleAfter calm_options \<le> instant_Sub late \<lparr>in_wall = 20, in_mono = None\<rparr>"
  by code_simp+

theorem answered_command_recorded_witness:
  "\<exists>rq e. cq_response rq = Some 5 \<and> hd_ID (event_header e) = \<lparr>id_Session = 7, id_Stream = ''command'', id_Sequence = 1\<rparr>
     \<and> command_as rq e \<and> (\<forall>r \<in> set (ct_sinks calm_run). e \<in> set (sr_recorded r))"
  by (rule answered_command_recorded [OF calm_is_run]) (simp add: calm_answers)

theorem stale_snapshot_neutral_witness:
  "SnapshotWithMeta (loop_turn calm_env (TakeTick late) calm_run) = (zero_state, ct_meta (loop_turn calm_env (TakeTick late) calm_run))
   \<and> sm_Stale (ct_meta (loop_turn calm_env (TakeTick late) calm_run)) \<and> ct_state calm_run = pressed"
  using stale_snapshot_neutral [OF calm_is_run calm_goes_on calm_ticks calm_limits(1)] calm_limits(2,3) calm_state
  by (simp add: calm_received instant_IsZero_def)

theorem sinks_follow_log_witness:
  "list_all (\<lambda>r. sr_recorded r = ct_log calm_run) (ct_sinks calm_run) \<and> subseq (ct_shown calm_run) (ct_log calm_run)
   \<and> ct_responses calm_run = [(5, \<lparr>id_Session = 7, id_Stream = ''command'', id_Sequence = 1\<rparr>, nil)]"
  using sinks_follow_log [OF calm_is_run calm_goes_on] calm_answers
  by (simp add: calm_options_def list_all_iff)

theorem snapshot_was_published_witness:
  "\<exists>h n p. ObservationEvent h n p pressed \<in> set (ct_log calm_run) \<and> id_Sequence (hd_ID h) = 3"
  using snapshot_was_published [OF calm_is_run calm_goes_on, of pressed "ct_meta calm_run"] calm_state calm_sequence
  by (simp add: SnapshotWithMeta_def)

end
