(* ===== verification/Spec2Isabelle.thy ===== *)
theory Spec2Isabelle
  imports EventOrder Tracker MerkleSafety ActionSafety EndToEnd AuditWitness ControllerWitness
begin

text \<open>
  A model of the Go library \<^verbatim>\<open>teleop\<close>, which turns game-controller input into evidenced, authorised commands to a
  machine, and the theorems that make its safety, evidence and recognition code correct.

  \<^bold>\<open>The program.\<close> A provider (\<^verbatim>\<open>xbox\<close>, \<^verbatim>\<open>generic\<close>) reads a device; the controller
  (\<^verbatim>\<open>controller.go\<close>) numbers the observations, derives events from them (\<^verbatim>\<open>tracker.go\<close>) and fans them
  out to sinks, subscribers and processors. Processors recognise gestures (\<^verbatim>\<open>gesture\<close>), map them to application
  actions (\<^verbatim>\<open>action\<close>) and keep the safety gate (\<^verbatim>\<open>safety/guard.go\<close>). The authority
  (\<^verbatim>\<open>safety/authority.go\<close>) alone can send a command to the actuator: it asks the guard, commits evidence,
  asks the policy (\<^verbatim>\<open>policy\<close>), sends, and waits for a receipt from a receiver (\<^verbatim>\<open>simulation\<close> is the
  reference one). The recorder (\<^verbatim>\<open>audit\<close>) is the authoritative sink: a hash-chained, Merkle-headed, signed log
  with external witnesses, and a verifier for it.

  \<^bold>\<open>Theories and the code they model.\<close>

  \<^item> \<open>Prelude\<close>: Go values. Strings are byte lists, \<^verbatim>\<open>uint64\<close> is \<open>64 word\<close>, \<^verbatim>\<open>int64\<close> durations are \<open>int\<close> with the
    wrap-around written out (\<open>i64\<close>), an \<^verbatim>\<open>error\<close> is the list of sentinels it wraps, a call that may panic is an \<open>outcome\<close>.
  \<^item> \<open>GoFloat\<close>: \<^verbatim>\<open>float32\<close> and \<^verbatim>\<open>float64\<close> values as rationals with NaN and infinities.
  \<^item> \<open>EventOrder\<close>: \<^verbatim>\<open>internal/eventorder/highwater.go\<close>; the locale \<open>published_index\<close> is what its clients rely on.
  \<^item> \<open>StrictJson\<close>: \<^verbatim>\<open>internal/strictjson/strictjson.go\<close>.
  \<^item> \<open>ControllerState\<close>, \<open>Events\<close>, \<open>Tracker\<close>: \<^verbatim>\<open>state.go\<close>, \<^verbatim>\<open>control.go\<close>, \<^verbatim>\<open>device.go\<close>, \<^verbatim>\<open>event.go\<close>, \<^verbatim>\<open>tracker.go\<close>.
  \<^item> \<open>Clock\<close>: \<^verbatim>\<open>clock.go\<close>; \<open>Pipeline\<close>: the options of \<^verbatim>\<open>source.go\<close> and \<^verbatim>\<open>pipeline_attestation.go\<close>; \<open>Subscription\<close>: the
    subscribers' queues of \<^verbatim>\<open>controller.go\<close>.
  \<^item> \<open>Controller\<close>: the rest of \<^verbatim>\<open>controller.go\<close>, and \<^verbatim>\<open>command.go\<close>. The run loop's handlers are functions on the controller,
    the other goroutines' steps are \<open>outside_step\<close>, a run is a list of turns. \<open>ControllerSteps\<close>, \<open>ControllerRuns\<close> and
    \<open>ControllerLive\<close> hold the locales of the predicates that the operations, whole runs and runs without error keep;
    \<open>ControllerSafety\<close> and \<open>ControllerEvidence\<close> interpret them and hold the results, \<open>ControllerWitness\<close> a concrete run.
  \<^item> \<open>Guard\<close>, \<open>GuardSafety\<close>: \<^verbatim>\<open>safety/guard.go\<close>, \<^verbatim>\<open>safety/lifecycle.go\<close>, \<^verbatim>\<open>safety/event.go\<close>. A guard is a record, an operation a
    function on it; histories are lists of operations.
  \<^item> \<open>Authority\<close>: \<^verbatim>\<open>safety/authority.go\<close> and \<^verbatim>\<open>safety/policy.go\<close>, as programs over a world of the authority, its guard and a
    trace, in an environment that answers every callback and may run other operations at each point where the code does
    not hold the lock. \<open>AuthorityProtocol\<close> is the abstract protocol (a step relation and its invariants),
    \<open>AuthorityRefinement\<close> and \<open>AuthorityOps\<close> the refinement of the operations to it, \<open>AuthoritySafety\<close> and
    \<open>AuthorityOutcomes\<close> the results, \<open>AuthorityWitness\<close> a concrete authority.
  \<^item> \<open>Policy\<close>, \<open>PolicySafety\<close>: \<^verbatim>\<open>policy/policy.go\<close>, \<^verbatim>\<open>policy/grant.go\<close>.
  \<^item> \<open>Receiver\<close>, \<open>ReceiverSafety\<close>: \<^verbatim>\<open>simulation/receiver.go\<close>; \<open>EndToEnd\<close>: the authority and the receiver over a network.
  \<^item> \<open>Gesture\<close>, \<open>GestureSafety\<close>: \<^verbatim>\<open>gesture/gesture.go\<close>, \<^verbatim>\<open>gesture/timing.go\<close>; \<open>Action\<close>, \<open>ActionSafety\<close>: \<^verbatim>\<open>action/action.go\<close>.
  \<^item> \<open>Merkle\<close>, \<open>MerkleProofs\<close>, \<open>MerkleConsistency\<close>, \<open>MerkleSafety\<close>: \<^verbatim>\<open>audit/merkle.go\<close>.
  \<^item> \<open>AuditRecord\<close>: the record, its hashes and its wire schema (\<^verbatim>\<open>audit/recorder.go\<close>, \<^verbatim>\<open>audit/wire.go\<close>); \<open>AuditSign\<close>:
    \<^verbatim>\<open>audit/sign.go\<close>, checkpoints and retained witnesses; \<open>AuditVerify\<close>: the verifier; \<open>Anchor\<close>: \<^verbatim>\<open>audit/anchor.go\<close>;
    \<open>AuditRecorder\<close>: the recorder and \<^verbatim>\<open>canonical.go\<close>; \<open>AuditTrail\<close> and \<open>AuditLog\<close>: the simulation of verifier and recorder;
    \<open>AuditSafety\<close>, \<open>AuditWitness\<close>: the results.

  \<^bold>\<open>What the lemmas show.\<close> In every run of the controller its events are numbered without gaps, its snapshot is canonical,
  neutral once stale or over, no accepted command is lost, and a failed sink ends the run; while it goes on its sinks have
  exactly its log, and subscribers and snapshot show nothing else. The guard permits output exactly under its documented conditions, its stops latch and faults
  trip it. The authority sends a live command only under a permitting preflight on the same input with committed evidence
  and an unexpired permission, in every interleaving, and always falls back to the engineered safe state. A receiver
  drives nothing but what the authority handed out, within its lease. The policy permits exactly what its rules and a
  valid grant allow. The Merkle tree is RFC 6962's, its proofs verify and its verifiers are sound up to an exhibited
  hash collision. Gesture events replay to the recognizer's state, and action bindings fire exactly for what they name.
  A recorder that closes without error has written a log its verifier accepts, with every accepted event in it, and a
  retained checkpoint pins the history before it.

  \<^bold>\<open>Code outside the repository\<close> is a parameter: hashes, signatures, JSON encoders and decoders, UTF-8 validation, clocks,
  writers, actuators, adapters. What a theorem needs of them is a named hypothesis (for instance \<open>faithful_library\<close>,
  \<open>genuine\<close>), and each such theorem has a witness with concrete functions.

  \<^bold>\<open>Bounds and fuel.\<close> \<open>scan\<close>, \<open>scan_json\<close> carry fuel of twice the number of tokens plus two; \<open>scan_enough\<close> and
  \<open>scan_json_enough\<close> show that it never runs out. \<open>anchor_drain\<close> gets one step more than there are queued checkpoints, which
  \<open>drain_empties\<close> shows to be enough. The other recursions are structural or have a measure; \<open>consistencyPath\<close> is partial and
  shown to end in the range its caller checks. \<open>sink_drain\<close> and \<open>drain_commands\<close> get the length of the queue
  they empty, which nothing else fills meanwhile (\<open>drain_refusing\<close>).

  \<^bold>\<open>Concurrency.\<close> An operation that holds a mutex throughout is one function. Where the authority releases its lock around a
  callback, the environment chooses what runs in between; the anchor's worker is a separate step.
  In the controller, the environment chooses the turns of the run loop and of the other goroutines, and which of the latter
  run inside a dispatch: before it, after the sinks have the event, and before the subscribers get it. A sink's failure is
  stored and reported in one step, and the delivery to the subscribers present is one step. Context cancellation is
  what the successive \<^verbatim>\<open>Err()\<close> calls return.

  \<^bold>\<open>Not modelled.\<close> Cloning methods (values are immutable here), message texts of errors, \<^verbatim>\<open>CaptureProvenance\<close> and the
  reflection-based copy of provenance values, \<^verbatim>\<open>FileAnchor\<close> (file I/O); \<^verbatim>\<open>audit/quorum.go\<close> and \<^verbatim>\<open>audit/replay.go\<close>; the
  once-only starting of the controller and a panic of the run loop itself; \<^verbatim>\<open>assured\<close>; the rumble scheduler,
  registry and stick normalisation of the root package; the device backends, which are system calls and USB
  report parsing; the terminal program and the command-line tools.
\<close>

end
